(* ===== verification/Prelude.thy ===== *)
theory Prelude
  imports Main "HOL-Library.Word"
begin

text \<open>
  Shared vocabulary of the development: names for the machine-integer types of the C++ code,
  byte-string primitives (\<open>memcpy\<close> into and out of a byte area, little-endian encoding), the
  signed reading of 64-bit words with C++'s truncating division, ASCII name comparison, and the
  rule collections the component theories add to. Nothing here is specific to one component.
\<close>

unbundle bit_operations_syntax

type_synonym u8 = "8 word"
type_synonym u16 = "16 word"
type_synonym u32 = "32 word"
type_synonym u64 = "64 word"
type_synonym bytes = "u8 list"

named_theorems frame_simps \<open>fields an operation leaves alone\<close>
named_theorems inv_intros \<open>an operation preserves its component's invariant\<close>
named_theorems len_simps \<open>sizes of byte areas\<close>


section \<open>Words\<close>

lemma unat_of_nat_small: "n < 2 ^ LENGTH('a) \<Longrightarrow> unat (of_nat n :: 'a::len word) = n"
  by (simp add: unsigned_of_nat take_bit_nat_eq_self)

lemma take_bit_word_arith:
  fixes a b :: "'a::len word"
  shows "take_bit n (take_bit n a + take_bit n b) = take_bit n (a + b)"
    and "take_bit n (take_bit n a * take_bit n b) = take_bit n (a * b)"
    and "take_bit n (take_bit n a - take_bit n b) = take_bit n (a - b)"
  by (transfer; auto simp: take_bit_eq_mod mod_simps min_def)+

lemma signed_take_bit_word_arith:
  fixes a b :: "'a::len word"
  shows "signed_take_bit n (signed_take_bit n a + signed_take_bit n b) = signed_take_bit n (a + b)"
    and "signed_take_bit n (signed_take_bit n a * signed_take_bit n b) = signed_take_bit n (a * b)"
    and "signed_take_bit n (signed_take_bit n a - signed_take_bit n b) = signed_take_bit n (a - b)"
  unfolding signed_take_bit_eq_iff_take_bit_eq
  by (subst take_bit_word_arith [symmetric]; simp add: take_bit_signed_take_bit take_bit_word_arith)+

lemma and_not_mask_word: "x AND NOT (mask k) = push_bit k (drop_bit k (x :: u64))"
  by (rule bit_eqI) (auto simp: bit_and_iff bit_not_iff bit_mask_iff bit_push_bit_iff bit_drop_bit_eq)

lemma unat_and_not_mask: "unat ((x :: u64) AND NOT (mask k)) = unat x div 2 ^ k * 2 ^ k"
proof -
  have "unat (x AND NOT (mask k)) = take_bit 64 (push_bit k (drop_bit k (unat x)))"
  proof -
    have "take_bit 64 (unat x) = unat x"
      using unsigned_less [of x] by (intro take_bit_nat_eq_self) simp
    then show ?thesis
      unfolding and_not_mask_word by (simp add: unsigned_push_bit_eq unsigned_drop_bit_eq)
  qed
  also have "push_bit k (drop_bit k (unat x)) = unat x div 2 ^ k * 2 ^ k"
    by (simp add: push_bit_eq_mult drop_bit_eq_div)
  also have "take_bit 64 (unat x div 2 ^ k * 2 ^ k) = unat x div 2 ^ k * 2 ^ k"
  proof (rule take_bit_nat_eq_self)
    have "unat x div 2 ^ k * 2 ^ k \<le> unat x" by simp
    also have "\<dots> < 2 ^ 64" using unsigned_less [of x] by simp
    finally show "unat x div 2 ^ k * 2 ^ k < 2 ^ 64" .
  qed
  finally show ?thesis .
qed


section \<open>Copies between byte areas\<close>

text \<open>\<open>seg xs off n\<close> is the \<open>n\<close> bytes read from \<open>xs\<close> at \<open>off\<close>; \<open>blit off src dst\<close> is \<open>dst\<close> after
  a \<open>memcpy\<close> of \<open>src\<close> to \<open>dst + off\<close>. Both describe in-bounds accesses.\<close>

definition seg :: "'a list \<Rightarrow> nat \<Rightarrow> nat \<Rightarrow> 'a list" where
  "seg xs off n = take n (drop off xs)"

definition blit :: "nat \<Rightarrow> 'a list \<Rightarrow> 'a list \<Rightarrow> 'a list" where
  "blit off src dst = take off dst @ src @ drop (off + length src) dst"

lemma length_seg [simp, len_simps]: "off + n \<le> length xs \<Longrightarrow> length (seg xs off n) = n"
  by (simp add: seg_def)

lemma nth_seg: "off + n \<le> length xs \<Longrightarrow> i < n \<Longrightarrow> seg xs off n ! i = xs ! (off + i)"
  by (simp add: seg_def)

lemma length_blit [simp, len_simps]:
  "off + length src \<le> length dst \<Longrightarrow> length (blit off src dst) = length dst"
  by (simp add: blit_def)

lemma nth_blit:
  assumes "off + length src \<le> length dst" and "i < length dst"
  shows "blit off src dst ! i =
    (if off \<le> i \<and> i < off + length src then src ! (i - off) else dst ! i)"
  using assms by (auto simp: blit_def nth_append min_def)

lemma blit_nil [simp]: "blit off [] dst = dst"
  by (simp add: blit_def)

lemma seg_blit_same:
  assumes "off + length src \<le> length dst" and "n = length src"
  shows "seg (blit off src dst) off n = src"
  using assms by (auto simp: seg_def blit_def min_def)

lemma seg_blit_other:
  assumes "off + length src \<le> length dst" "o' + n \<le> length dst"
    and "o' + n \<le> off \<or> off + length src \<le> o'"
  shows "seg (blit off src dst) o' n = seg dst o' n"
  using assms
  by (intro nth_equalityI) (auto simp: nth_seg nth_blit)

lemma seg_whole [simp]: "seg xs 0 (length xs) = xs"
  by (simp add: seg_def)

lemma blit_seg_same: "off + n \<le> length xs \<Longrightarrow> blit off (seg xs off n) xs = xs"
  by (intro nth_equalityI) (auto simp: nth_blit nth_seg)


section \<open>Little-endian integers\<close>

text \<open>The loops \<open>*out++ = value >> (i * 8)\<close> and \<open>value |= uint64(byte) << (i * 8)\<close>.\<close>

definition le_bytes :: "nat \<Rightarrow> u64 \<Rightarrow> bytes" where
  "le_bytes n v = map (\<lambda>i. ucast (drop_bit (8 * i) v)) [0..<n]"

primrec le_value :: "bytes \<Rightarrow> u64" where
  "le_value [] = 0"
| "le_value (b # bs) = ucast b OR push_bit 8 (le_value bs)"

lemma length_le_bytes [simp, len_simps]: "length (le_bytes n v) = n"
  by (simp add: le_bytes_def)

lemma le_bytes_0 [simp]: "le_bytes 0 v = []"
  by (simp add: le_bytes_def)

lemma le_bytes_Suc: "le_bytes (Suc n) v = ucast v # le_bytes n (drop_bit 8 v)"
  by (simp add: le_bytes_def upt_conv_Cons map_Suc_upt [symmetric] add.commute
      del: upt_Suc)

lemma le_value_le_bytes: "le_value (le_bytes n v) = take_bit (8 * n) v"
proof (induction n arbitrary: v)
  case 0
  show ?case by simp
next
  case (Suc n)
  show ?case
    by (rule bit_eqI)
      (auto simp: le_bytes_Suc Suc.IH bit_or_iff bit_take_bit_iff bit_push_bit_iff
        bit_ucast_iff bit_drop_bit_eq exp_eq_zero_iff not_le)
qed

lemma le_value_le_bytes_8 [simp]: "le_value (le_bytes 8 v) = v"
  by (rule bit_eqI) (auto simp: le_value_le_bytes bit_take_bit_iff dest: bit_imp_le_length)

lemma bit_le_value_overflow: "8 * length bs \<le> n \<Longrightarrow> \<not> bit (le_value bs) n"
proof (induction bs arbitrary: n)
  case Nil
  then show ?case by simp
next
  case (Cons b bs)
  then show ?case
    by (auto simp: bit_or_iff bit_push_bit_iff bit_ucast_iff dest: bit_imp_le_length)
qed

lemma le_bytes_le_value: "length bs \<le> 8 \<Longrightarrow> le_bytes (length bs) (le_value bs) = bs"
proof (induction bs)
  case Nil
  show ?case by simp
next
  case (Cons b bs)
  have hd: "ucast (ucast b OR push_bit 8 (le_value bs)) = b"
    by (rule bit_eqI)
      (auto simp: bit_or_iff bit_push_bit_iff bit_ucast_iff dest: bit_imp_le_length)
  have tl: "drop_bit 8 (ucast b OR push_bit 8 (le_value bs)) = le_value bs"
  proof (rule bit_eqI)
    fix n assume "possible_bit TYPE(64 word) n"
    then have "n < 64" by simp
    show "bit (drop_bit 8 (ucast b OR push_bit 8 (le_value bs))) n = bit (le_value bs) n"
    proof (cases "8 + n < 64")
      case True
      then show ?thesis
        by (auto simp: bit_or_iff bit_push_bit_iff bit_ucast_iff bit_drop_bit_eq
            dest: bit_imp_le_length)
    next
      case False
      with Cons.prems have "\<not> bit (le_value bs) n"
        by (intro bit_le_value_overflow) simp
      moreover from False have "\<not> bit (drop_bit 8 (ucast b OR push_bit 8 (le_value bs))) n"
        by (simp add: bit_drop_bit_eq impossible_bit del: drop_bit_or)
      ultimately show ?thesis by blast
    qed
  qed
  from Cons show ?case
    by (simp add: le_bytes_Suc hd tl del: drop_bit_or)
qed


lemma le_value_pad: "le_value (bs @ replicate k 0) = le_value bs"
  by (induction bs) (induction k, auto)

lemma le_bytes_pad:
  assumes "length bs \<le> n" "n \<le> 8"
  shows "le_bytes n (le_value bs) = bs @ replicate (n - length bs) 0"
  using le_bytes_le_value [of "bs @ replicate (n - length bs) 0"] assms by (simp add: le_value_pad)


section \<open>Signed readings\<close>

text \<open>A \<open>std::int64_t\<close> held as the word with its bits; \<open>sint\<close> reads it. C++ division and
  remainder truncate towards zero.\<close>

definition int64_max :: int where "int64_max = 9223372036854775807"
definition int64_min :: int where "int64_min = - 9223372036854775808"

definition c_div :: "int \<Rightarrow> int \<Rightarrow> int" where
  "c_div a b = sgn a * sgn b * (\<bar>a\<bar> div \<bar>b\<bar>)"

definition c_mod :: "int \<Rightarrow> int \<Rightarrow> int" where
  "c_mod a b = sgn a * (\<bar>a\<bar> mod \<bar>b\<bar>)"

lemma c_div_mod: "c_div a b * b + c_mod a b = a"
proof -
  have "c_div a b * b + c_mod a b = sgn a * (\<bar>a\<bar> div \<bar>b\<bar> * \<bar>b\<bar> + \<bar>a\<bar> mod \<bar>b\<bar>)"
    by (simp add: c_div_def c_mod_def abs_sgn algebra_simps)
  then show ?thesis by (simp add: sgn_mult_abs)
qed

lemma c_mod_bound: "b \<noteq> 0 \<Longrightarrow> \<bar>c_mod a b\<bar> < \<bar>b\<bar>"
  by (cases "a = 0") (auto simp: c_mod_def abs_mult)

lemma sint64_range: "int64_min \<le> sint (x :: u64) \<and> sint x \<le> int64_max"
  using sint_lt [of x] sint_ge [of x] by (simp add: int64_min_def int64_max_def)


section \<open>ASCII names\<close>

text \<open>\<open>lower_ascii\<close> of \<open>tasking.h\<close>, \<open>ascii_fold\<close> of \<open>type_desc.h\<close> and the inlined copies of
  it elsewhere: only the 26 capital letters change.\<close>

definition lower_ascii :: "char \<Rightarrow> char" where
  "lower_ascii c = (if 65 \<le> (of_char c :: nat) \<and> (of_char c :: nat) \<le> 90
     then char_of (of_char c + 32 :: nat) else c)"

lemma lower_ascii_idem [simp]: "lower_ascii (lower_ascii c) = lower_ascii c"
  by (auto simp: lower_ascii_def)


section \<open>Lists\<close>

lemma find_append:
  "find P (xs @ ys) = (case find P xs of None \<Rightarrow> find P ys | Some x \<Rightarrow> Some x)"
  by (induction xs) auto


text \<open>Loops whose body may spin: \<open>fold_some\<close> threads a state through the items, \<open>map_some\<close> treats
  the items one by one.\<close>

primrec fold_some :: "('a \<Rightarrow> 's \<Rightarrow> 's option) \<Rightarrow> 'a list \<Rightarrow> 's \<Rightarrow> 's option" where
  "fold_some f [] s = Some s"
| "fold_some f (x # xs) s = Option.bind (f x s) (fold_some f xs)"

primrec map_some :: "('a \<Rightarrow> 'b option) \<Rightarrow> 'a list \<Rightarrow> 'b list option" where
  "map_some f [] = Some []"
| "map_some f (x # xs) = Option.bind (f x) (\<lambda>y. map_option (Cons y) (map_some f xs))"

lemma fold_some_inv:
  assumes "\<And>x s. x \<in> set xs \<Longrightarrow> P s \<Longrightarrow> \<exists>s'. f x s = Some s' \<and> P s'" and "P s"
  shows "\<exists>s'. fold_some f xs s = Some s' \<and> P s'"
  using assms
proof (induction xs arbitrary: s)
  case Nil
  then show ?case by simp
next
  case (Cons x xs)
  from Cons.prems(1) [of x s] Cons.prems(2) obtain s1 where "f x s = Some s1" "P s1" by auto
  moreover have "\<exists>s'. fold_some f xs s1 = Some s' \<and> P s'"
    using Cons.prems(1) \<open>P s1\<close> by (intro Cons.IH) auto
  ultimately show ?case by simp
qed

lemma map_some_all:
  assumes "\<And>x. x \<in> set xs \<Longrightarrow> \<exists>y. f x = Some y \<and> R x y"
  shows "\<exists>ys. map_some f xs = Some ys \<and> list_all2 R xs ys"
  using assms
proof (induction xs)
  case Nil
  then show ?case by simp
next
  case (Cons x xs)
  from Cons.prems [of x] obtain y where y: "f x = Some y" "R x y" by auto
  from Cons.IH Cons.prems obtain ys where "map_some f xs = Some ys" "list_all2 R xs ys" by auto
  with y show ?case by simp
qed

end
