(* ===== verification/RtError.thy ===== *)
theory RtError
  imports Prelude
begin

text \<open>
  The error vocabulary of the runtime (\<open>core/rt/error.h\<close>, \<open>error_text.h\<close>, \<open>error_diag.h\<close>) and
  the cycle clock (\<open>core/rt/cycle.h\<close>). The C++ enumerations have no range check, so the value
  that falls out of the \<open>switch\<close> is reached only from a raw integer outside the enumeration;
  \<open>diagnose_raw\<close> models that call.
\<close>

datatype ErrorCode =
    EC_ok | EC_invalid_argument | EC_out_of_range | EC_capacity_exceeded | EC_infeasible
  | EC_precondition_failed | EC_unsupported | EC_bytecode_version_mismatch | EC_not_converged
  | EC_singular_region | EC_limit_infeasible

primrec error_code_value :: "ErrorCode \<Rightarrow> nat" where
  "error_code_value EC_ok = 0"
| "error_code_value EC_invalid_argument = 1"
| "error_code_value EC_out_of_range = 2"
| "error_code_value EC_capacity_exceeded = 3"
| "error_code_value EC_infeasible = 4"
| "error_code_value EC_precondition_failed = 5"
| "error_code_value EC_unsupported = 6"
| "error_code_value EC_bytecode_version_mismatch = 7"
| "error_code_value EC_not_converged = 8"
| "error_code_value EC_singular_region = 9"
| "error_code_value EC_limit_infeasible = 10"

text \<open>\<open>Result<T>\<close>: the flag, the code and a value that is the default one on failure.\<close>

record 'a Result =
  res_ok :: bool
  res_error :: ErrorCode
  res_value :: 'a

definition success :: "'a \<Rightarrow> 'a Result" where
  "success v = \<lparr> res_ok = True, res_error = EC_ok, res_value = v \<rparr>"

definition failure :: "'a \<Rightarrow> ErrorCode \<Rightarrow> 'a Result" where
  "failure dflt e = \<lparr> res_ok = False, res_error = e, res_value = dflt \<rparr>"

primrec error_to_string :: "ErrorCode \<Rightarrow> string" where
  "error_to_string EC_ok = ''ok''"
| "error_to_string EC_invalid_argument =
     ''invalid_argument: a parameter value is out of its valid domain''"
| "error_to_string EC_out_of_range =
     ''out_of_range: a value exceeds an array or container bound''"
| "error_to_string EC_capacity_exceeded =
     ''capacity_exceeded: a fixed-size container is full''"
| "error_to_string EC_infeasible =
     ''infeasible: no solution exists for the given constraints''"
| "error_to_string EC_not_converged =
     ''not_converged: the bounded numerical solve exhausted its iteration budget''"
| "error_to_string EC_singular_region =
     ''singular_region: damping reached its limit in an ill-conditioned region''"
| "error_to_string EC_limit_infeasible =
     ''limit_infeasible: hard joint limits prevent the requested solution''"
| "error_to_string EC_precondition_failed =
     ''precondition_failed: the object is not in the required state''"
| "error_to_string EC_unsupported =
     ''unsupported: this operation is not implemented''"
| "error_to_string EC_bytecode_version_mismatch =
     ''bytecode_version_mismatch: recompile the ST source for this runtime''"

record ErrorDiagnostic =
  diag_code :: nat
  diag_name :: string
  diag_summary :: string
  diag_hint :: string

text \<open>The rows of the \<open>switch\<close> of \<open>diagnose\<close>: name, summary and hint of each code.\<close>

primrec diagnose_row :: "ErrorCode \<Rightarrow> string \<times> string \<times> string" where
  "diagnose_row EC_ok = (''ok'', ''operation completed successfully'',
     ''continue with the next command; no recovery action is required'')"
| "diagnose_row EC_invalid_argument =
     (''invalid_argument'', ''a parameter value is out of its valid domain'',
      ''check references, NaN/Inf inputs, and dynamics or buffer-mode combinations'')"
| "diagnose_row EC_out_of_range =
     (''out_of_range'', ''a value exceeded a fixed bound or configured motion window'',
      ''inspect indices, limits, target positions, and table sizes before retrying'')"
| "diagnose_row EC_capacity_exceeded =
     (''capacity_exceeded'', ''a fixed-size container or queue is full'',
      ''wait for the queue to drain or reduce window depth instead of increasing RT storage'')"
| "diagnose_row EC_infeasible =
     (''infeasible'', ''the requested motion or solve has no feasible solution'',
      ''relax legal dynamics, extend the allowed time, or change the target path'')"
| "diagnose_row EC_not_converged =
     (''not_converged'', ''the bounded numerical solve did not meet its convergence gates'',
      ''start from a seed closer to the target or use the explicit best-effort result for diagnostics'')"
| "diagnose_row EC_singular_region =
     (''singular_region'', ''the numerical solve remains ill-conditioned at maximum damping'',
      ''change the target or seed to move away from the singular configuration'')"
| "diagnose_row EC_limit_infeasible =
     (''limit_infeasible'', ''hard limits prevent the numerical solve from reaching its target'',
      ''inspect the joint limits or choose a target reachable inside them'')"
| "diagnose_row EC_precondition_failed =
     (''precondition_failed'', ''the object is not in the required lifecycle state'',
      ''read the latest axis/group status and satisfy ownership, power, or standby preconditions first'')"
| "diagnose_row EC_unsupported =
     (''unsupported'', ''the requested operation is not implemented'',
      ''switch to a declared-supported path instead of retrying the same request'')"
| "diagnose_row EC_bytecode_version_mismatch =
     (''bytecode_version_mismatch'',
      ''the compiled ST bytecode version does not match the runtime'',
      ''recompile the ST program with the current toolchain or upgrade the runtime together with the artifact'')"

definition diagnose :: "ErrorCode \<Rightarrow> ErrorDiagnostic" where
  "diagnose e = (case diagnose_row e of (n, s, h) \<Rightarrow>
     \<lparr> diag_code = error_code_value e, diag_name = n, diag_summary = s, diag_hint = h \<rparr>)"

definition error_codes :: "ErrorCode list" where
  "error_codes = [EC_ok, EC_invalid_argument, EC_out_of_range, EC_capacity_exceeded, EC_infeasible,
     EC_precondition_failed, EC_unsupported, EC_bytecode_version_mismatch, EC_not_converged,
     EC_singular_region, EC_limit_infeasible]"

definition diagnose_raw :: "nat \<Rightarrow> ErrorDiagnostic" where
  "diagnose_raw raw = (case find (\<lambda>e. error_code_value e = raw) error_codes of
     Some e \<Rightarrow> diagnose e
   | None \<Rightarrow> \<lparr> diag_code = raw, diag_name = ''unknown_error'',
       diag_summary = ''unknown error code'',
       diag_hint = ''upgrade the producer/consumer pair or inspect the raw error value before retrying'' \<rparr>)"

lemma error_code_value_inj: "inj error_code_value"
proof (rule injI)
  fix x y :: ErrorCode
  assume "error_code_value x = error_code_value y"
  then show "x = y" by (cases x; cases y) simp_all
qed

lemma diagnose_code: "diag_code (diagnose e) = error_code_value e"
  by (simp add: diagnose_def split: prod.splits)

lemma diagnose_raw_known: "diagnose_raw (error_code_value e) = diagnose e"
  by (cases e) (simp_all add: diagnose_raw_def error_codes_def)

lemma to_string_starts_with_name:
  "take (length (diag_name (diagnose e))) (error_to_string e) = diag_name (diagnose e)"
  by (cases e) (simp_all add: diagnose_def)


section \<open>Cycle clock\<close>

text \<open>\<open>CycleDuration\<close> and \<open>CycleTick\<close> wrap a signed 64-bit counter. Signed overflow is undefined
  in C++, so the operations are partial: \<open>None\<close> is the undefined case.\<close>

type_synonym CycleDuration = int
type_synonym CycleTick = int

definition fits_int64 :: "int \<Rightarrow> bool" where
  "fits_int64 v \<longleftrightarrow> int64_min \<le> v \<and> v \<le> int64_max"

definition checked_int64 :: "int \<Rightarrow> int option" where
  "checked_int64 v = (if fits_int64 v then Some v else None)"

definition cycles_to_nanoseconds :: "CycleDuration \<Rightarrow> int \<Rightarrow> int option" where
  "cycles_to_nanoseconds d period = checked_int64 (d * period)"

definition tick_plus :: "CycleTick \<Rightarrow> CycleDuration \<Rightarrow> CycleTick option" where
  "tick_plus t d = checked_int64 (t + d)"

definition tick_minus :: "CycleTick \<Rightarrow> CycleTick \<Rightarrow> CycleDuration option" where
  "tick_minus t s = checked_int64 (t - s)"

lemma tick_plus_minus:
  "fits_int64 d \<Longrightarrow> tick_plus t d = Some u \<Longrightarrow> tick_minus u t = Some d"
  by (auto simp: tick_plus_def tick_minus_def checked_int64_def split: if_splits)

end
