(* ===== verification/TypeSystem.thy ===== *)
theory TypeSystem
  imports RtError
begin

text \<open>
  The load-time type table of the ST runtime (\<open>core/st/type_desc.h\<close>): descriptors of the built-in
  and of the user-defined types, their byte layout and the operations that extend the table.
  A \<open>TypeId\<close>, a size, an offset and an alignment are naturals; every place where the 32- or 64-bit
  C++ value could wrap is guarded in the code and the guard is written out here. An \<open>add_*\<close>
  operation returns its error (\<open>Inl\<close>, table untouched) or the new id with the extended table.
\<close>

type_synonym TypeId = nat

definition invalid_type_id :: TypeId where "invalid_type_id = 0"
definition first_load_type_id :: TypeId where "first_load_type_id = 65536"
definition builtin_last :: TypeId where "builtin_last = 19"

definition u32_max :: nat where "u32_max = 4294967295"
definition u64_max :: nat where "u64_max = 18446744073709551615"

text \<open>The ids of namespace \<open>builtin\<close>.\<close>

abbreviation (input) "ty_bool \<equiv> 1 :: nat"
abbreviation (input) "ty_sint \<equiv> 2 :: nat"
abbreviation (input) "ty_int \<equiv> 3 :: nat"
abbreviation (input) "ty_dint \<equiv> 4 :: nat"
abbreviation (input) "ty_lint \<equiv> 5 :: nat"
abbreviation (input) "ty_usint \<equiv> 6 :: nat"
abbreviation (input) "ty_uint \<equiv> 7 :: nat"
abbreviation (input) "ty_udint \<equiv> 8 :: nat"
abbreviation (input) "ty_ulint \<equiv> 9 :: nat"
abbreviation (input) "ty_real \<equiv> 10 :: nat"
abbreviation (input) "ty_lreal \<equiv> 11 :: nat"
abbreviation (input) "ty_time \<equiv> 12 :: nat"
abbreviation (input) "ty_byte \<equiv> 13 :: nat"
abbreviation (input) "ty_word \<equiv> 14 :: nat"
abbreviation (input) "ty_dword \<equiv> 15 :: nat"
abbreviation (input) "ty_lword \<equiv> 16 :: nat"
abbreviation (input) "ty_date \<equiv> 17 :: nat"
abbreviation (input) "ty_tod \<equiv> 18 :: nat"
abbreviation (input) "ty_dt \<equiv> 19 :: nat"

datatype TypeKind =
    TK_elementary | TK_enum | TK_subrange | TK_array | TK_struct | TK_string | TK_wstring
  | TK_date | TK_tod | TK_dt | TK_ref

datatype TypeError =
    TE_ok | TE_invalid_type | TE_invalid_name | TE_duplicate_type | TE_duplicate_member
  | TE_invalid_integer_base | TE_integer_sign_mismatch | TE_value_out_of_range
  | TE_invalid_bounds | TE_invalid_dimensions | TE_invalid_capacity | TE_recursive_type
  | TE_size_overflow | TE_not_found

datatype IntegerSign = IS_none | IS_signed | IS_unsigned

record IntegerValue =
  iv_sign :: IntegerSign
  iv_signed :: int
  iv_unsigned :: nat

definition signed_value :: "int \<Rightarrow> IntegerValue" where
  "signed_value v = \<lparr> iv_sign = IS_signed, iv_signed = v, iv_unsigned = 0 \<rparr>"

definition unsigned_value :: "nat \<Rightarrow> IntegerValue" where
  "unsigned_value v = \<lparr> iv_sign = IS_unsigned, iv_signed = 0, iv_unsigned = v \<rparr>"

definition integer_eq :: "IntegerValue \<Rightarrow> IntegerValue \<Rightarrow> bool" where
  "integer_eq l r \<longleftrightarrow> iv_sign l = iv_sign r \<and>
     (if iv_sign l = IS_signed then iv_signed l = iv_signed r else iv_unsigned l = iv_unsigned r)"

record EnumItem =
  ei_name :: string
  ei_value :: IntegerValue

record SubrangeDesc =
  sr_base :: TypeId
  sr_lower :: IntegerValue
  sr_upper :: IntegerValue

record ArrayBound =
  ab_lower :: int
  ab_upper :: int

record ArrayDimension =
  ad_lower :: int
  ad_upper :: int
  ad_extent :: nat
  ad_stride :: nat

record ArrayDesc =
  ar_element :: TypeId
  ar_dims :: "ArrayDimension list"

record StructFieldSpec =
  fs_name :: string
  fs_type :: TypeId

record StructField =
  sf_name :: string
  sf_type :: TypeId
  sf_offset :: nat

record TypeDesc =
  td_id :: TypeId
  td_kind :: TypeKind
  td_name :: string
  td_size :: nat
  td_align :: nat
  td_sign :: IntegerSign
  td_width :: nat
  td_enum_base :: TypeId
  td_items :: "EnumItem list"
  td_subrange :: SubrangeDesc
  td_array :: ArrayDesc
  td_fields :: "StructField list"
  td_capacity :: nat
  td_target :: TypeId

definition default_desc :: TypeDesc where
  "default_desc = \<lparr> td_id = invalid_type_id, td_kind = TK_elementary, td_name = [], td_size = 0,
     td_align = 1, td_sign = IS_none, td_width = 0, td_enum_base = invalid_type_id, td_items = [],
     td_subrange = \<lparr> sr_base = invalid_type_id, sr_lower = signed_value 0, sr_upper = signed_value 0 \<rparr>,
     td_array = \<lparr> ar_element = invalid_type_id, ar_dims = [] \<rparr>, td_fields = [], td_capacity = 0,
     td_target = invalid_type_id \<rparr>"

definition make_builtin ::
  "TypeId \<Rightarrow> TypeKind \<Rightarrow> string \<Rightarrow> nat \<Rightarrow> nat \<Rightarrow> IntegerSign \<Rightarrow> nat \<Rightarrow> TypeDesc"
where
  "make_builtin ident kind name sz align sign width =
     default_desc\<lparr> td_id := ident, td_kind := kind, td_name := name, td_size := sz,
       td_align := align, td_sign := sign, td_width := width \<rparr>"

definition builtin_types :: "TypeDesc list" where
  "builtin_types =
    [make_builtin ty_bool TK_elementary ''BOOL'' 1 1 IS_none 0,
     make_builtin ty_sint TK_elementary ''SINT'' 1 1 IS_signed 8,
     make_builtin ty_int TK_elementary ''INT'' 2 2 IS_signed 16,
     make_builtin ty_dint TK_elementary ''DINT'' 4 4 IS_signed 32,
     make_builtin ty_lint TK_elementary ''LINT'' 8 8 IS_signed 64,
     make_builtin ty_usint TK_elementary ''USINT'' 1 1 IS_unsigned 8,
     make_builtin ty_uint TK_elementary ''UINT'' 2 2 IS_unsigned 16,
     make_builtin ty_udint TK_elementary ''UDINT'' 4 4 IS_unsigned 32,
     make_builtin ty_ulint TK_elementary ''ULINT'' 8 8 IS_unsigned 64,
     make_builtin ty_real TK_elementary ''REAL'' 4 4 IS_none 0,
     make_builtin ty_lreal TK_elementary ''LREAL'' 8 8 IS_none 0,
     make_builtin ty_time TK_elementary ''TIME'' 8 8 IS_none 0,
     make_builtin ty_byte TK_elementary ''BYTE'' 1 1 IS_none 0,
     make_builtin ty_word TK_elementary ''WORD'' 2 2 IS_none 0,
     make_builtin ty_dword TK_elementary ''DWORD'' 4 4 IS_none 0,
     make_builtin ty_lword TK_elementary ''LWORD'' 8 8 IS_none 0,
     make_builtin ty_date TK_date ''DATE'' 4 4 IS_none 0,
     make_builtin ty_tod TK_tod ''TOD'' 8 8 IS_none 0,
     make_builtin ty_dt TK_dt ''DT'' 8 8 IS_none 0]"


section \<open>Names and checked arithmetic\<close>

definition is_alpha :: "char \<Rightarrow> bool" where
  "is_alpha c = (let v = of_char c :: nat in (65 \<le> v \<and> v \<le> 90) \<or> (97 \<le> v \<and> v \<le> 122))"

definition is_identifier_char :: "char \<Rightarrow> bool" where
  "is_identifier_char c = (is_alpha c \<or> (let v = of_char c :: nat in 48 \<le> v \<and> v \<le> 57) \<or> c = CHR ''_'')"

fun is_identifier :: "string \<Rightarrow> bool" where
  "is_identifier [] = False"
| "is_identifier (c # cs) =
     ((is_alpha c \<or> c = CHR ''_'') \<and> list_all is_identifier_char (c # cs))"

definition ascii_equal :: "string \<Rightarrow> string \<Rightarrow> bool" where
  "ascii_equal left right \<longleftrightarrow> length left = length right \<and>
     list_all (\<lambda>(a, b). lower_ascii a = lower_ascii b) (zip left right)"

definition multiply :: "nat \<Rightarrow> nat \<Rightarrow> nat option" where
  "multiply left right =
     (if left \<noteq> 0 \<and> right > u64_max div left then None else Some (left * right))"

definition align_up :: "nat \<Rightarrow> nat \<Rightarrow> nat option" where
  "align_up value alignment =
     (let mask = alignment - 1
      in if value > u64_max - mask then None
         else Some (unat ((of_nat value + of_nat mask) AND NOT (of_nat mask) :: u64)))"

definition value_fits :: "TypeDesc \<Rightarrow> IntegerValue \<Rightarrow> bool" where
  "value_fits base v =
     (if td_sign base \<noteq> iv_sign v \<or> td_width base = 0 then False
      else if td_width base = 64 then True
      else if iv_sign v = IS_unsigned then iv_unsigned v < 2 ^ td_width base
      else - (2 ^ (td_width base - 1)) \<le> iv_signed v \<and> iv_signed v \<le> 2 ^ (td_width base - 1) - 1)"

definition integer_less :: "IntegerValue \<Rightarrow> IntegerValue \<Rightarrow> bool" where
  "integer_less l r =
     (if iv_sign l = IS_signed then iv_signed l < iv_signed r else iv_unsigned l < iv_unsigned r)"

lemma ascii_equal_iff: "ascii_equal l r \<longleftrightarrow> map lower_ascii l = map lower_ascii r"
  by (auto simp: ascii_equal_def list_all_length list_eq_iff_nth_eq)

lemma ascii_equal_refl [simp]: "ascii_equal a a"
  by (simp add: ascii_equal_iff)

lemma ascii_equal_sym: "ascii_equal a b \<Longrightarrow> ascii_equal b a"
  by (simp add: ascii_equal_iff)

lemma ascii_equal_trans: "ascii_equal a b \<Longrightarrow> ascii_equal b c \<Longrightarrow> ascii_equal a c"
  by (simp add: ascii_equal_iff)

lemma multiply_some: "multiply a b = Some c \<longleftrightarrow> c = a * b \<and> a * b \<le> u64_max"
proof (cases "a = 0")
  case True
  then show ?thesis by (auto simp: multiply_def)
next
  case False
  then have "u64_max div a < b \<longleftrightarrow> u64_max < a * b"
    by (metis bot_nat_0.not_eq_extremum div_less_iff_less_mult mult.commute)
  with False show ?thesis by (auto simp: multiply_def)
qed

text \<open>For a power of two, \<open>align_up\<close> is the least multiple of it that is not below the value.\<close>

lemma align_up_value:
  assumes "align_up v (2 ^ k) = Some r" "k < 64"
  shows "r = (v + (2 ^ k - 1)) div 2 ^ k * 2 ^ k" and "v + (2 ^ k - 1) \<le> u64_max"
proof -
  let ?m = "2 ^ k - 1 :: nat"
  have "?m < 2 ^ 64"
    using assms(2) power_strict_increasing [of k 64 "2 :: nat"] by simp
  then have mle: "?m \<le> u64_max" by (simp add: u64_max_def)
  from assms(1) have "v \<le> u64_max - ?m"
    and r: "r = unat ((of_nat v + of_nat ?m) AND NOT (of_nat ?m) :: u64)"
    by (auto simp: align_up_def Let_def not_less split: if_splits)
  with mle have le: "v + ?m \<le> u64_max" by linarith
  have m: "(of_nat ?m :: u64) = mask k" by (simp add: mask_eq_exp_minus_1 of_nat_diff)
  have u: "unat (of_nat (v + ?m) :: u64) = v + ?m"
    by (rule unat_of_nat_small) (use le in \<open>simp add: u64_max_def\<close>)
  show "r = (v + ?m) div 2 ^ k * 2 ^ k"
    using r unat_and_not_mask [of "of_nat (v + ?m)" k, unfolded u]
    by (simp only: m of_nat_add)
  show "v + ?m \<le> u64_max" by (rule le)
qed


section \<open>The table\<close>

type_synonym TypeTable = "TypeDesc list"

definition next_type_id :: "TypeTable \<Rightarrow> TypeId" where
  "next_type_id T = (if length T > u32_max - first_load_type_id then invalid_type_id
     else first_load_type_id + length T)"

definition get_type :: "TypeTable \<Rightarrow> TypeId \<Rightarrow> TypeDesc option" where
  "get_type T ident =
     (if ty_bool \<le> ident \<and> ident \<le> builtin_last then Some (builtin_types ! (ident - 1))
      else if ident < first_load_type_id then None
      else let index = ident - first_load_type_id
        in if index < length T then Some (T ! index) else None)"

definition find_type :: "TypeTable \<Rightarrow> string \<Rightarrow> TypeId option" where
  "find_type T name = map_option td_id (find (\<lambda>d. ascii_equal (td_name d) name) (builtin_types @ T))"

definition integer_base :: "TypeDesc option \<Rightarrow> bool" where
  "integer_base desc = (case desc of None \<Rightarrow> False
     | Some d \<Rightarrow> td_kind d = TK_elementary \<and> td_sign d \<noteq> IS_none)"

definition validate_new_name :: "TypeTable \<Rightarrow> string \<Rightarrow> TypeError" where
  "validate_new_name T name =
     (if \<not> is_identifier name then TE_invalid_name
      else if \<exists>d \<in> set builtin_types. ascii_equal (td_name d) name then TE_duplicate_type
      else if \<exists>d \<in> set T. ascii_equal (td_name d) name then TE_duplicate_type
      else TE_ok)"

definition commit_type :: "TypeTable \<Rightarrow> TypeDesc \<Rightarrow> TypeError + TypeId \<times> TypeTable" where
  "commit_type T desc =
     (let ident = next_type_id T
      in if ident = invalid_type_id then Inl TE_size_overflow
         else Inr (ident, T @ [desc\<lparr> td_id := ident \<rparr>]))"

text \<open>The item loop of \<open>add_enum\<close>; \<open>seen\<close> holds the items with a smaller index.\<close>

fun check_items :: "TypeDesc \<Rightarrow> EnumItem list \<Rightarrow> EnumItem list \<Rightarrow> TypeError" where
  "check_items base seen [] = TE_ok"
| "check_items base seen (i # is) =
     (if \<not> is_identifier (ei_name i) then TE_invalid_name
      else if \<not> value_fits base (ei_value i) then
        (if iv_sign (ei_value i) = td_sign base then TE_value_out_of_range
         else TE_integer_sign_mismatch)
      else if list_ex (\<lambda>j. ascii_equal (ei_name j) (ei_name i)) seen then TE_duplicate_member
      else check_items base (seen @ [i]) is)"

definition add_enum ::
  "TypeTable \<Rightarrow> string \<Rightarrow> TypeId \<Rightarrow> EnumItem list \<Rightarrow> TypeError + TypeId \<times> TypeTable"
where
  "add_enum T name base items =
     (let base_desc = get_type T base; err = validate_new_name T name
      in if err \<noteq> TE_ok then Inl err
         else if \<not> integer_base base_desc then Inl TE_invalid_integer_base
         else let b = the base_desc; e = check_items b [] items
           in if e \<noteq> TE_ok then Inl e
              else commit_type T (default_desc\<lparr> td_kind := TK_enum, td_name := name,
                td_size := td_size b, td_align := td_align b, td_sign := td_sign b,
                td_width := td_width b, td_enum_base := base, td_items := items \<rparr>))"

definition add_subrange ::
  "TypeTable \<Rightarrow> string \<Rightarrow> TypeId \<Rightarrow> IntegerValue \<Rightarrow> IntegerValue \<Rightarrow> TypeError + TypeId \<times> TypeTable"
where
  "add_subrange T name base lower upper =
     (let base_desc = get_type T base; err = validate_new_name T name
      in if err \<noteq> TE_ok then Inl err
         else if \<not> integer_base base_desc then Inl TE_invalid_integer_base
         else let b = the base_desc
           in if iv_sign lower \<noteq> td_sign b \<or> iv_sign upper \<noteq> td_sign b
              then Inl TE_integer_sign_mismatch
              else if \<not> value_fits b lower \<or> \<not> value_fits b upper then Inl TE_value_out_of_range
              else if integer_less upper lower then Inl TE_invalid_bounds
              else commit_type T (default_desc\<lparr> td_kind := TK_subrange, td_name := name,
                td_size := td_size b, td_align := td_align b, td_sign := td_sign b,
                td_width := td_width b,
                td_subrange := \<lparr> sr_base = base, sr_lower = lower, sr_upper = upper \<rparr> \<rparr>))"

text \<open>The dimension loop of \<open>add_array\<close> runs from the last bound to the first; \<open>array_dims\<close>
  recurses to the end of the list first, so it meets them in that order. It returns the
  dimensions with the final stride, which is the array's size.\<close>

definition array_extent :: "ArrayBound \<Rightarrow> nat" where
  "array_extent b = nat ((ab_upper b - ab_lower b + 1) mod 2 ^ 64)"

fun array_dims :: "nat \<Rightarrow> ArrayBound list \<Rightarrow> TypeError + ArrayDimension list \<times> nat" where
  "array_dims element_size [] = Inr ([], element_size)"
| "array_dims element_size (b # bs) =
     (case array_dims element_size bs of
        Inl e \<Rightarrow> Inl e
      | Inr (dims, stride) \<Rightarrow>
          if ab_upper b < ab_lower b then Inl TE_invalid_bounds
          else let extent = array_extent b
            in if extent = 0 then Inl TE_size_overflow
               else case multiply stride extent of
                      None \<Rightarrow> Inl TE_size_overflow
                    | Some stride' \<Rightarrow>
                        Inr (\<lparr> ad_lower = ab_lower b, ad_upper = ab_upper b, ad_extent = extent,
                               ad_stride = stride \<rparr> # dims, stride'))"

definition add_array ::
  "TypeTable \<Rightarrow> string \<Rightarrow> TypeId \<Rightarrow> ArrayBound list \<Rightarrow> TypeError + TypeId \<times> TypeTable"
where
  "add_array T name element bounds =
     (let element_desc = get_type T element; err = validate_new_name T name
      in if err \<noteq> TE_ok then Inl err
         else case element_desc of
           None \<Rightarrow> Inl (if element = next_type_id T then TE_recursive_type else TE_invalid_type)
         | Some e \<Rightarrow>
             if bounds = [] \<or> length bounds > 3 then Inl TE_invalid_dimensions
             else case array_dims (td_size e) bounds of
               Inl er \<Rightarrow> Inl er
             | Inr (dims, stride) \<Rightarrow>
                 commit_type T (default_desc\<lparr> td_kind := TK_array, td_name := name,
                   td_size := stride, td_align := td_align e,
                   td_array := \<lparr> ar_element = element, ar_dims = dims \<rparr> \<rparr>))"

text \<open>The field loop of \<open>add_struct\<close>: \<open>seen\<close> the specs already placed, \<open>placed\<close>, \<open>offset\<close> and
  \<open>alignment\<close> the descriptor being built.\<close>

fun place_fields ::
  "TypeTable \<Rightarrow> StructFieldSpec list \<Rightarrow> StructField list \<Rightarrow> nat \<Rightarrow> nat \<Rightarrow> StructFieldSpec list \<Rightarrow>
    TypeError + StructField list \<times> nat \<times> nat"
where
  "place_fields T seen placed offset alignment [] = Inr (placed, offset, alignment)"
| "place_fields T seen placed offset alignment (f # fs) =
     (if \<not> is_identifier (fs_name f) then Inl TE_invalid_name
      else if list_ex (\<lambda>g. ascii_equal (fs_name g) (fs_name f)) seen then Inl TE_duplicate_member
      else if fs_type f = next_type_id T then Inl TE_recursive_type
      else case get_type T (fs_type f) of
        None \<Rightarrow> Inl TE_invalid_type
      | Some d \<Rightarrow>
          let al = (if td_align d > 8 then 8 else td_align d)
          in case align_up offset al of
               None \<Rightarrow> Inl TE_size_overflow
             | Some off \<Rightarrow>
                 if td_size d > u64_max - off then Inl TE_size_overflow
                 else place_fields T (seen @ [f])
                   (placed @ [\<lparr> sf_name = fs_name f, sf_type = fs_type f, sf_offset = off \<rparr>])
                   (off + td_size d) (if al > alignment then al else alignment) fs)"

definition add_struct ::
  "TypeTable \<Rightarrow> string \<Rightarrow> StructFieldSpec list \<Rightarrow> TypeError + TypeId \<times> TypeTable"
where
  "add_struct T name specs =
     (let err = validate_new_name T name
      in if err \<noteq> TE_ok then Inl err
         else case place_fields T [] [] 0 1 specs of
           Inl e \<Rightarrow> Inl e
         | Inr (placed, offset, alignment) \<Rightarrow>
             (case align_up offset alignment of
                None \<Rightarrow> Inl TE_size_overflow
              | Some sz \<Rightarrow>
                  commit_type T (default_desc\<lparr> td_kind := TK_struct, td_name := name, td_size := sz,
                    td_align := alignment, td_fields := placed \<rparr>)))"

definition add_string_impl ::
  "TypeTable \<Rightarrow> string \<Rightarrow> nat \<Rightarrow> bool \<Rightarrow> TypeError + TypeId \<times> TypeTable"
where
  "add_string_impl T name capacity wide =
     (let err = validate_new_name T name
      in if err \<noteq> TE_ok then Inl err
         else if capacity = 0 then Inl TE_invalid_capacity
         else let width = (if wide then 4 else 1)
           in if capacity > u32_max then Inl TE_size_overflow
              else case multiply capacity width of
                None \<Rightarrow> Inl TE_size_overflow
              | Some payload \<Rightarrow>
                  if payload > u64_max - 4 then Inl TE_size_overflow
                  else commit_type T (default_desc\<lparr> td_kind := (if wide then TK_wstring else TK_string),
                    td_name := name, td_size := 4 + payload, td_align := 4, td_capacity := capacity \<rparr>))"

definition add_string :: "TypeTable \<Rightarrow> string \<Rightarrow> nat \<Rightarrow> TypeError + TypeId \<times> TypeTable" where
  "add_string T name capacity = add_string_impl T name capacity False"

definition add_wstring :: "TypeTable \<Rightarrow> string \<Rightarrow> nat \<Rightarrow> TypeError + TypeId \<times> TypeTable" where
  "add_wstring T name capacity = add_string_impl T name capacity True"

definition add_ref :: "TypeTable \<Rightarrow> string \<Rightarrow> TypeId \<Rightarrow> TypeError + TypeId \<times> TypeTable" where
  "add_ref T name target =
     (let err = validate_new_name T name
      in if err \<noteq> TE_ok then Inl err
         else if get_type T target = None then Inl TE_invalid_type
         else commit_type T (default_desc\<lparr> td_kind := TK_ref, td_name := name, td_size := 8,
           td_align := 8, td_target := target \<rparr>))"

definition add_opaque_ref :: "TypeTable \<Rightarrow> string \<Rightarrow> TypeError + TypeId \<times> TypeTable" where
  "add_opaque_ref T name =
     (let err = validate_new_name T name
      in if err \<noteq> TE_ok then Inl err
         else commit_type T (default_desc\<lparr> td_kind := TK_ref, td_name := name, td_size := 8,
           td_align := 8, td_target := invalid_type_id \<rparr>))"


section \<open>Lookups and the canonical dump\<close>

definition enum_value :: "TypeTable \<Rightarrow> TypeId \<Rightarrow> string \<Rightarrow> TypeError + IntegerValue" where
  "enum_value T ty name = (case get_type T ty of
     None \<Rightarrow> Inl TE_invalid_type
   | Some d \<Rightarrow> if td_kind d \<noteq> TK_enum then Inl TE_invalid_type
       else case find (\<lambda>i. ascii_equal (ei_name i) name) (td_items d) of
         None \<Rightarrow> Inl TE_not_found | Some i \<Rightarrow> Inr (ei_value i))"

definition enum_first_name :: "TypeTable \<Rightarrow> TypeId \<Rightarrow> IntegerValue \<Rightarrow> TypeError + string" where
  "enum_first_name T ty v = (case get_type T ty of
     None \<Rightarrow> Inl TE_invalid_type
   | Some d \<Rightarrow> if td_kind d \<noteq> TK_enum then Inl TE_invalid_type
       else case find (\<lambda>i. integer_eq (ei_value i) v) (td_items d) of
         None \<Rightarrow> Inl TE_not_found | Some i \<Rightarrow> Inr (ei_name i))"

definition struct_field :: "TypeTable \<Rightarrow> TypeId \<Rightarrow> string \<Rightarrow> TypeError + StructField" where
  "struct_field T ty name = (case get_type T ty of
     None \<Rightarrow> Inl TE_invalid_type
   | Some d \<Rightarrow> if td_kind d \<noteq> TK_struct then Inl TE_invalid_type
       else case find (\<lambda>f. ascii_equal (sf_name f) name) (td_fields d) of
         None \<Rightarrow> Inl TE_not_found | Some f \<Rightarrow> Inr f)"

text \<open>\<open>std::to_chars\<close>: decimal digits, most significant first.\<close>

fun append_u64 :: "nat \<Rightarrow> string" where
  "append_u64 n = (if n < 10 then [char_of (48 + n)]
     else append_u64 (n div 10) @ [char_of (48 + n mod 10)])"

declare append_u64.simps [simp del]

definition append_i64 :: "int \<Rightarrow> string" where
  "append_i64 v = (if v < 0 then CHR ''-'' # append_u64 (nat (- v)) else append_u64 (nat v))"

definition append_integer :: "IntegerValue \<Rightarrow> string" where
  "append_integer v = (if iv_sign v = IS_signed then ''s:'' @ append_i64 (iv_signed v)
     else ''u:'' @ append_u64 (iv_unsigned v))"

primrec kind_name :: "TypeKind \<Rightarrow> string" where
  "kind_name TK_elementary = ''elementary''"
| "kind_name TK_enum = ''enum''"
| "kind_name TK_subrange = ''subrange''"
| "kind_name TK_array = ''array''"
| "kind_name TK_struct = ''struct''"
| "kind_name TK_string = ''string''"
| "kind_name TK_wstring = ''wstring''"
| "kind_name TK_date = ''date''"
| "kind_name TK_tod = ''tod''"
| "kind_name TK_dt = ''dt''"
| "kind_name TK_ref = ''ref''"

definition newline :: string where "newline = [CHR 0x0A]"

definition append_dump :: "TypeDesc \<Rightarrow> string" where
  "append_dump d =
     ''type '' @ append_u64 (td_id d) @ '' '' @ kind_name (td_kind d) @ '' '' @ td_name d @
     '' size='' @ append_u64 (td_size d) @ '' align='' @ append_u64 (td_align d) @
     (case td_kind d of
        TK_enum \<Rightarrow> '' base='' @ append_u64 (td_enum_base d) @ newline @
          concat (map (\<lambda>i. ''item '' @ ei_name i @ ''='' @ append_integer (ei_value i) @ newline)
            (td_items d))
      | TK_subrange \<Rightarrow> '' base='' @ append_u64 (sr_base (td_subrange d)) @
          '' lower='' @ append_integer (sr_lower (td_subrange d)) @
          '' upper='' @ append_integer (sr_upper (td_subrange d)) @ newline
      | TK_array \<Rightarrow> '' element='' @ append_u64 (ar_element (td_array d)) @ newline @
          concat (map (\<lambda>m. ''dim '' @ append_i64 (ad_lower m) @ '':'' @ append_i64 (ad_upper m) @
            '' extent='' @ append_u64 (ad_extent m) @ '' stride='' @ append_u64 (ad_stride m) @ newline)
            (ar_dims (td_array d)))
      | TK_struct \<Rightarrow> newline @
          concat (map (\<lambda>f. ''field '' @ sf_name f @ '' type='' @ append_u64 (sf_type f) @
            '' offset='' @ append_u64 (sf_offset f) @ newline) (td_fields d))
      | TK_string \<Rightarrow> '' capacity='' @ append_u64 (td_capacity d) @ newline
      | TK_wstring \<Rightarrow> '' capacity='' @ append_u64 (td_capacity d) @ newline
      | TK_ref \<Rightarrow> '' target='' @ append_u64 (td_target d) @ newline
      | _ \<Rightarrow> newline)"

definition canonical_dump :: "TypeTable \<Rightarrow> string" where
  "canonical_dump T = concat (map append_dump (builtin_types @ T))"


section \<open>The table invariant\<close>

text \<open>\<open>layout_ok T d\<close>: the descriptor \<open>d\<close> only refers to types already in \<open>T\<close>, its size fits 64
  bits, its alignment is 1, 2, 4 or 8, and its members are laid out as the runtime reads them:
  array strides are the products of the inner extents, struct fields are aligned, in order,
  disjoint and inside the object.\<close>

definition type_size :: "TypeTable \<Rightarrow> TypeId \<Rightarrow> nat" where
  "type_size T ident = (case get_type T ident of None \<Rightarrow> 0 | Some d \<Rightarrow> td_size d)"

definition type_align :: "TypeTable \<Rightarrow> TypeId \<Rightarrow> nat" where
  "type_align T ident = (case get_type T ident of None \<Rightarrow> 1 | Some d \<Rightarrow> td_align d)"

fun dims_ok :: "nat \<Rightarrow> ArrayDimension list \<Rightarrow> nat \<Rightarrow> bool" where
  "dims_ok element_size [] whole \<longleftrightarrow> whole = element_size"
| "dims_ok element_size (d # ds) whole \<longleftrightarrow>
     ad_lower d \<le> ad_upper d \<and> ad_extent d = nat (ad_upper d - ad_lower d + 1) \<and>
     whole = ad_stride d * ad_extent d \<and> dims_ok element_size ds (ad_stride d)"

text \<open>\<open>fields_ok T lo fs hi\<close>: the fields lie in \<open>[lo, hi)\<close> in this order without overlap, each at a
  multiple of its alignment.\<close>

fun fields_ok :: "TypeTable \<Rightarrow> nat \<Rightarrow> StructField list \<Rightarrow> nat \<Rightarrow> bool" where
  "fields_ok T lo [] hi \<longleftrightarrow> lo \<le> hi"
| "fields_ok T lo (f # fs) hi \<longleftrightarrow>
     get_type T (sf_type f) \<noteq> None \<and> lo \<le> sf_offset f \<and> type_align T (sf_type f) dvd sf_offset f \<and>
     fields_ok T (sf_offset f + type_size T (sf_type f)) fs hi"

definition layout_ok :: "TypeTable \<Rightarrow> TypeDesc \<Rightarrow> bool" where
  "layout_ok T d \<longleftrightarrow> td_size d \<le> u64_max \<and> td_align d \<in> {1, 2, 4, 8} \<and>
     (case td_kind d of
        TK_enum \<Rightarrow> get_type T (td_enum_base d) \<noteq> None \<and> td_size d = type_size T (td_enum_base d)
      | TK_subrange \<Rightarrow> get_type T (sr_base (td_subrange d)) \<noteq> None \<and>
          td_size d = type_size T (sr_base (td_subrange d))
      | TK_array \<Rightarrow> get_type T (ar_element (td_array d)) \<noteq> None \<and> ar_dims (td_array d) \<noteq> [] \<and>
          dims_ok (type_size T (ar_element (td_array d))) (ar_dims (td_array d)) (td_size d)
      | TK_struct \<Rightarrow> fields_ok T 0 (td_fields d) (td_size d) \<and> td_align d dvd td_size d \<and>
          (\<forall>f \<in> set (td_fields d). type_align T (sf_type f) dvd td_align d)
      | TK_ref \<Rightarrow> td_target d = invalid_type_id \<or> get_type T (td_target d) \<noteq> None
      | _ \<Rightarrow> True)"

definition table_wf :: "TypeTable \<Rightarrow> bool" where
  "table_wf T \<longleftrightarrow> length T \<le> u32_max - first_load_type_id + 1 \<and>
     (\<forall>i < length T. td_id (T ! i) = first_load_type_id + i \<and> layout_ok (take i T) (T ! i)) \<and>
     distinct (map (map lower_ascii \<circ> td_name) (builtin_types @ T)) \<and>
     (\<forall>d \<in> set T. is_identifier (td_name d))"

lemma get_type_append: "get_type T ident = Some d \<Longrightarrow> get_type (T @ Ts) ident = Some d"
  by (auto simp: get_type_def Let_def nth_append split: if_splits)

lemma builtin_desc:
  assumes "d \<in> set builtin_types"
  shows "td_align d \<in> {1, 2, 4, 8} \<and> td_size d \<le> u64_max"
  using assms by (auto simp: builtin_types_def make_builtin_def default_desc_def u64_max_def)

lemma builtin_ids: "i < 19 \<Longrightarrow> td_id (builtin_types ! i) = i + 1"
  by (simp add: builtin_types_def make_builtin_def default_desc_def less_Suc_eq numeral_eq_Suc)
    (elim disjE; simp)

lemma length_builtin_types [simp]: "length builtin_types = 19"
  by (simp add: builtin_types_def)

lemma get_type_cases:
  assumes "get_type T ident = Some d"
  shows "d \<in> set builtin_types \<or> (\<exists>i < length T. ident = first_load_type_id + i \<and> d = T ! i)"
  using assms
  by (auto simp: get_type_def builtin_last_def Let_def split: if_splits)

lemma get_type_layout:
  assumes "table_wf T" "get_type T ident = Some d"
  shows "td_align d \<in> {1, 2, 4, 8} \<and> td_size d \<le> u64_max"
  using get_type_cases [OF assms(2)] builtin_desc assms(1)
  by (auto simp: table_wf_def layout_ok_def)

lemma array_dims_ok:
  assumes "array_dims element_size bs = Inr (dims, whole)"
    "\<forall>b \<in> set bs. - (2 ^ 63) \<le> ab_lower b \<and> ab_upper b < 2 ^ 63" "element_size \<le> u64_max"
  shows "dims_ok element_size dims whole \<and> whole \<le> u64_max \<and> length dims = length bs"
  using assms
proof (induction bs arbitrary: dims whole)
  case Nil
  then show ?case by simp
next
  case (Cons b bs)
  from Cons.prems(1) obtain ds st where IHp: "array_dims element_size bs = Inr (ds, st)"
    and ord: "ab_lower b \<le> ab_upper b" and ext: "array_extent b \<noteq> 0"
    and mul: "multiply st (array_extent b) = Some whole"
    and dims: "dims = \<lparr> ad_lower = ab_lower b, ad_upper = ab_upper b, ad_extent = array_extent b,
      ad_stride = st \<rparr> # ds"
    by (auto simp: Let_def split: sum.splits if_splits option.splits)
  have "ab_upper b - ab_lower b + 1 \<le> 2 ^ 64" using Cons.prems(2) by auto
  moreover have "ab_upper b - ab_lower b + 1 \<noteq> 2 ^ 64" using ext by (auto simp: array_extent_def)
  ultimately have "array_extent b = nat (ab_upper b - ab_lower b + 1)"
    using ord by (simp add: array_extent_def)
  with Cons.IH [OF IHp] Cons.prems ord mul dims show ?case
    by (auto simp: multiply_some)
qed

lemma fields_ok_snoc:
  "fields_ok T lo fs mid \<Longrightarrow> get_type T (sf_type f) \<noteq> None \<Longrightarrow> mid \<le> sf_offset f \<Longrightarrow>
    type_align T (sf_type f) dvd sf_offset f \<Longrightarrow> sf_offset f + type_size T (sf_type f) \<le> hi \<Longrightarrow>
    fields_ok T lo (fs @ [f]) hi"
  by (induction fs arbitrary: lo) auto

lemma fields_ok_mono: "fields_ok T lo fs hi \<Longrightarrow> hi \<le> hi' \<Longrightarrow> fields_ok T lo fs hi'"
  by (induction fs arbitrary: lo) auto

lemma align_cases: "a \<in> {1, 2, 4, 8 :: nat} \<Longrightarrow> \<exists>k < 4. a = 2 ^ k"
  by (elim insertE)
    (auto intro: exI [of _ "0 :: nat"] exI [of _ "1 :: nat"] exI [of _ "2 :: nat"] exI [of _ "3 :: nat"])

lemma align_up_ok:
  assumes "align_up v a = Some r" "a \<in> {1, 2, 4, 8}"
  shows "v \<le> r \<and> a dvd r \<and> r \<le> u64_max"
proof -
  from align_cases [OF assms(2)] obtain k where k: "k < 4" "a = 2 ^ k" by blast
  from align_up_value [of v k r] assms k
  have r: "r = (v + (2 ^ k - 1)) div 2 ^ k * 2 ^ k" and le: "v + (2 ^ k - 1) \<le> u64_max"
    by auto
  let ?x = "v + (2 ^ k - 1)"
  have split: "?x = r + ?x mod 2 ^ k" unfolding r by (rule div_mult_mod_eq [symmetric])
  have "?x mod 2 ^ k \<le> 2 ^ k - 1"
    by (simp add: nat_le_iff_add [symmetric] less_Suc_eq_le [symmetric])
  with split have "v \<le> r" by linarith
  with split le show ?thesis by (simp add: k r)
qed

lemma align_dvd_max:
  "a \<in> {1, 2, 4, 8 :: nat} \<Longrightarrow> b \<in> {1, 2, 4, 8} \<Longrightarrow> a dvd (if a > b then a else b) \<and>
    b dvd (if a > b then a else b)"
  by auto

lemma place_fields_ok:
  assumes wf: "table_wf T"
  shows "place_fields T seen placed off al fs = Inr (placed', off', al') \<Longrightarrow>
    fields_ok T 0 placed off \<Longrightarrow> off \<le> u64_max \<Longrightarrow> al \<in> {1, 2, 4, 8} \<Longrightarrow>
    \<forall>f \<in> set placed. type_align T (sf_type f) dvd al \<Longrightarrow>
    fields_ok T 0 placed' off' \<and> off' \<le> u64_max \<and> al' \<in> {1, 2, 4, 8} \<and>
    (\<forall>f \<in> set placed'. type_align T (sf_type f) dvd al') \<and>
    map sf_name placed' = map sf_name placed @ map fs_name fs"
proof (induction fs arbitrary: seen placed off al)
  case Nil
  then show ?case by auto
next
  case (Cons f fs)
  from Cons.prems(1) obtain d o1 where d: "get_type T (fs_type f) = Some d"
    and up: "align_up off (if td_align d > 8 then 8 else td_align d) = Some o1"
    and sz: "td_size d \<le> u64_max - o1"
    and rec: "place_fields T (seen @ [f])
      (placed @ [\<lparr> sf_name = fs_name f, sf_type = fs_type f, sf_offset = o1 \<rparr>])
      (o1 + td_size d)
      (if (if td_align d > 8 then 8 else td_align d) > al
       then (if td_align d > 8 then 8 else td_align d) else al) fs = Inr (placed', off', al')"
    by (auto simp: Let_def not_less split: if_splits option.splits)
  from get_type_layout [OF wf d] have da: "td_align d \<in> {1, 2, 4, 8}" "td_size d \<le> u64_max" by auto
  then have a8: "(if td_align d > 8 then 8 else td_align d) = td_align d" by auto
  from align_up_ok [OF up [unfolded a8] da(1)]
  have o1: "off \<le> o1" "td_align d dvd o1" "o1 \<le> u64_max" by auto
  let ?f = "\<lparr> sf_name = fs_name f, sf_type = fs_type f, sf_offset = o1 \<rparr>"
  let ?al = "if td_align d > al then td_align d else al"
  have f: "fields_ok T 0 (placed @ [?f]) (o1 + td_size d)"
    using Cons.prems(2) d o1 by (intro fields_ok_snoc) (auto simp: type_align_def type_size_def)
  have al: "?al \<in> {1, 2, 4, 8}" using Cons.prems(4) da(1) by (auto split: if_splits)
  have dv: "td_align d dvd ?al" "al dvd ?al" using align_dvd_max [OF da(1) Cons.prems(4)] by auto
  have "\<forall>g \<in> set (placed @ [?f]). type_align T (sf_type g) dvd ?al"
    using Cons.prems(5) dv d by (auto simp: type_align_def intro: dvd_trans)
  from Cons.IH [OF rec [unfolded a8] f _ al this] sz o1(3) show ?case by simp
qed


section \<open>Every operation extends the table by one well-formed descriptor\<close>

lemma validate_ok_iff:
  "validate_new_name T name = TE_ok \<longleftrightarrow> is_identifier name \<and>
    (\<forall>d \<in> set (builtin_types @ T). map lower_ascii (td_name d) \<noteq> map lower_ascii name)"
  by (simp add: validate_new_name_def ascii_equal_iff ball_Un)

lemma layout_ok_id [simp]: "layout_ok T (d\<lparr> td_id := i \<rparr>) = layout_ok T d"
  by (simp add: layout_ok_def split: TypeKind.split)

lemma commit_type_ok:
  assumes "commit_type T desc = Inr (ident, T')" "table_wf T"
    and "validate_new_name T (td_name desc) = TE_ok" "layout_ok T desc"
  shows "ident = first_load_type_id + length T" "T' = T @ [desc\<lparr> td_id := ident \<rparr>]" "table_wf T'"
proof -
  from assms(1) have len: "length T \<le> u32_max - first_load_type_id"
    and i: "ident = first_load_type_id + length T" and T': "T' = T @ [desc\<lparr> td_id := ident \<rparr>]"
    by (auto simp: commit_type_def next_type_id_def invalid_type_id_def Let_def not_less split: if_splits)
  show "ident = first_load_type_id + length T" "T' = T @ [desc\<lparr> td_id := ident \<rparr>]"
    by (rule i, rule T')
  show "table_wf T'"
    using assms len unfolding T' i validate_ok_iff
    by (auto simp: table_wf_def nth_append less_Suc_eq)
qed

locale table_extension =
  fixes add :: "TypeTable \<Rightarrow> 'a \<Rightarrow> TypeError + TypeId \<times> TypeTable"
    and admissible :: "'a \<Rightarrow> bool"
    and name_of :: "'a \<Rightarrow> string"
  assumes extends: "table_wf T \<Longrightarrow> admissible a \<Longrightarrow> add T a = Inr (ident, T') \<Longrightarrow>
      \<exists>d. T' = T @ [d] \<and> td_name d = name_of a \<and> ident = first_load_type_id + length T \<and> table_wf T'"
    and refuses_names: "validate_new_name T (name_of a) \<noteq> TE_ok \<Longrightarrow>
      add T a = Inl (validate_new_name T (name_of a))"
begin

lemma preserves_wf:
  "table_wf T \<Longrightarrow> admissible a \<Longrightarrow> add T a = Inr (ident, T') \<Longrightarrow> table_wf T'"
  using extends by blast

lemma keeps_types:
  "table_wf T \<Longrightarrow> admissible a \<Longrightarrow> add T a = Inr (ident, T') \<Longrightarrow>
    get_type T old = Some d \<Longrightarrow> get_type T' old = Some d"
  using extends get_type_append by metis

lemma new_id_fresh:
  assumes "table_wf T" "admissible a" "add T a = Inr (ident, T')"
  shows "get_type T ident = None" "get_type T' ident \<noteq> None"
  using extends [OF assms]
  by (auto simp: get_type_def first_load_type_id_def builtin_last_def Let_def)

lemma found_by_name:
  assumes "table_wf T" "admissible a" "add T a = Inr (ident, T')"
    and "ascii_equal (name_of a) name"
  shows "find_type T' name = Some ident" "find_type T name = None"
proof -
  from extends [OF assms(1-3)] obtain d where T': "T' = T @ [d]" and n: "td_name d = name_of a"
    and i: "ident = first_load_type_id + length T" and wf: "table_wf T'" by blast
  have ok: "validate_new_name T (name_of a) = TE_ok"
    using refuses_names [of T a] assms(3) by auto
  then have none: "find (\<lambda>d. ascii_equal (td_name d) name) (builtin_types @ T) = None"
    using assms(4) unfolding validate_ok_iff
    by (auto simp: find_None_iff ascii_equal_iff)
  then show "find_type T name = None" by (simp add: find_type_def)
  have "find (\<lambda>d. ascii_equal (td_name d) name) (builtin_types @ T @ [d]) = Some d"
    using none n assms(4) find_append [of "\<lambda>d. ascii_equal (td_name d) name" "builtin_types @ T" "[d]"]
    by simp
  moreover have "td_id d = ident" using wf i unfolding T' by (auto simp: table_wf_def nth_append)
  ultimately show "find_type T' name = Some ident" by (simp add: find_type_def T')
qed

lemma name_taken:
  assumes "table_wf T" "admissible a" "add T a = Inr (ident, T')" "ascii_equal (name_of a) (name_of b)"
  shows "\<exists>e. add T' b = Inl e"
proof -
  from extends [OF assms(1-3)] obtain d where "T' = T @ [d]" "td_name d = name_of a" by blast
  with assms(4) have "validate_new_name T' (name_of b) \<noteq> TE_ok"
    unfolding validate_ok_iff by (auto simp: ascii_equal_iff)
  then show ?thesis using refuses_names by blast
qed

end

lemma integer_base_get:
  assumes "table_wf T" "integer_base (get_type T base)"
  shows "\<exists>b. get_type T base = Some b \<and> td_align b \<in> {1, 2, 4, 8} \<and> td_size b \<le> u64_max"
  using assms get_type_layout [OF assms(1)] by (auto simp: integer_base_def split: option.splits)

lemma desc_defaults [simp]:
  "td_align default_desc = 1" "td_size default_desc = 0"
  by (simp_all add: default_desc_def)

definition bounds_admissible :: "ArrayBound list \<Rightarrow> bool" where
  "bounds_admissible bs \<longleftrightarrow> (\<forall>b \<in> set bs. - (2 ^ 63) \<le> ab_lower b \<and> ab_upper b < 2 ^ 63)"

lemma add_enum_ok:
  assumes "table_wf T" "add_enum T name base items = Inr (ident, T')"
  shows "\<exists>d. commit_type T d = Inr (ident, T') \<and> layout_ok T d \<and> td_name d = name \<and>
    validate_new_name T name = TE_ok"
  using assms integer_base_get [OF assms(1), of base]
  by (auto simp: add_enum_def Let_def layout_ok_def type_size_def split: if_splits)

lemma add_subrange_ok:
  assumes "table_wf T" "add_subrange T name base lower upper = Inr (ident, T')"
  shows "\<exists>d. commit_type T d = Inr (ident, T') \<and> layout_ok T d \<and> td_name d = name \<and>
    validate_new_name T name = TE_ok"
  using assms integer_base_get [OF assms(1), of base]
  by (auto simp: add_subrange_def Let_def layout_ok_def type_size_def split: if_splits)

lemma add_array_ok:
  assumes "table_wf T" "add_array T name element bounds = Inr (ident, T')" "bounds_admissible bounds"
  shows "\<exists>d. commit_type T d = Inr (ident, T') \<and> layout_ok T d \<and> td_name d = name \<and>
    validate_new_name T name = TE_ok"
proof -
  from assms(2) obtain e dims st where e: "get_type T element = Some e"
    and ne: "bounds \<noteq> []" and ok: "validate_new_name T name = TE_ok"
    and dims: "array_dims (td_size e) bounds = Inr (dims, st)"
    and c: "commit_type T (default_desc\<lparr> td_kind := TK_array, td_name := name, td_size := st,
      td_align := td_align e, td_array := \<lparr> ar_element = element, ar_dims = dims \<rparr> \<rparr>) = Inr (ident, T')"
    by (auto simp: add_array_def Let_def split: if_splits option.splits sum.splits)
  from get_type_layout [OF assms(1) e] array_dims_ok [OF dims] assms(3) ne e
  have "layout_ok T (default_desc\<lparr> td_kind := TK_array, td_name := name, td_size := st,
      td_align := td_align e, td_array := \<lparr> ar_element = element, ar_dims = dims \<rparr> \<rparr>)"
    by (auto simp: layout_ok_def type_size_def bounds_admissible_def)
  with c ok show ?thesis by force
qed

lemma add_struct_ok:
  assumes "table_wf T" "add_struct T name specs = Inr (ident, T')"
  shows "\<exists>d. commit_type T d = Inr (ident, T') \<and> layout_ok T d \<and> td_name d = name \<and>
    validate_new_name T name = TE_ok"
proof -
  from assms(2) obtain placed off al sz where ok: "validate_new_name T name = TE_ok"
    and pl: "place_fields T [] [] 0 1 specs = Inr (placed, off, al)"
    and up: "align_up off al = Some sz"
    and c: "commit_type T (default_desc\<lparr> td_kind := TK_struct, td_name := name, td_size := sz,
      td_align := al, td_fields := placed \<rparr>) = Inr (ident, T')"
    by (auto simp: add_struct_def Let_def split: if_splits option.splits sum.splits)
  from place_fields_ok [OF assms(1) pl] have al: "al \<in> {1, 2, 4, 8}" "fields_ok T 0 placed off"
    "\<forall>f \<in> set placed. type_align T (sf_type f) dvd al" by auto
  from align_up_ok [OF up al(1)] al have "layout_ok T (default_desc\<lparr> td_kind := TK_struct,
      td_name := name, td_size := sz, td_align := al, td_fields := placed \<rparr>)"
    by (auto simp: layout_ok_def intro: fields_ok_mono)
  with c ok show ?thesis by force
qed

lemma add_string_impl_ok:
  assumes "add_string_impl T name capacity wide = Inr (ident, T')"
  shows "\<exists>d. commit_type T d = Inr (ident, T') \<and> layout_ok T d \<and> td_name d = name \<and>
    validate_new_name T name = TE_ok"
  using assms
  by (cases wide)
    (auto simp: add_string_impl_def Let_def layout_ok_def u64_max_def u32_max_def multiply_some
      split: if_splits option.splits)

lemma add_ref_ok:
  assumes "add_ref T name target = Inr (ident, T')"
  shows "\<exists>d. commit_type T d = Inr (ident, T') \<and> layout_ok T d \<and> td_name d = name \<and>
    validate_new_name T name = TE_ok"
  using assms by (auto simp: add_ref_def Let_def layout_ok_def u64_max_def split: if_splits)

lemma add_opaque_ref_ok:
  assumes "add_opaque_ref T name = Inr (ident, T')"
  shows "\<exists>d. commit_type T d = Inr (ident, T') \<and> layout_ok T d \<and> td_name d = name \<and>
    validate_new_name T name = TE_ok"
  using assms by (auto simp: add_opaque_ref_def Let_def layout_ok_def u64_max_def split: if_splits)

lemma commit_extends:
  assumes "table_wf T" "\<exists>d. commit_type T d = Inr (ident, T') \<and> layout_ok T d \<and> td_name d = name \<and>
    validate_new_name T name = TE_ok"
  shows "\<exists>d. T' = T @ [d] \<and> td_name d = name \<and> ident = first_load_type_id + length T \<and> table_wf T'"
  using assms commit_type_ok by fastforce

text \<open>One declaration of any of the seven forms, so that a client can build a table from a list.\<close>

datatype type_decl =
    DeclEnum string TypeId "EnumItem list"
  | DeclSubrange string TypeId IntegerValue IntegerValue
  | DeclArray string TypeId "ArrayBound list"
  | DeclStruct string "StructFieldSpec list"
  | DeclString string nat bool
  | DeclRef string TypeId
  | DeclOpaque string

fun declare_type :: "TypeTable \<Rightarrow> type_decl \<Rightarrow> TypeError + TypeId \<times> TypeTable" where
  "declare_type T (DeclEnum n b is) = add_enum T n b is"
| "declare_type T (DeclSubrange n b l u) = add_subrange T n b l u"
| "declare_type T (DeclArray n e bs) = add_array T n e bs"
| "declare_type T (DeclStruct n fs) = add_struct T n fs"
| "declare_type T (DeclString n c w) = (if w then add_wstring T n c else add_string T n c)"
| "declare_type T (DeclRef n t) = add_ref T n t"
| "declare_type T (DeclOpaque n) = add_opaque_ref T n"

fun decl_name :: "type_decl \<Rightarrow> string" where
  "decl_name (DeclEnum n b is) = n"
| "decl_name (DeclSubrange n b l u) = n"
| "decl_name (DeclArray n e bs) = n"
| "decl_name (DeclStruct n fs) = n"
| "decl_name (DeclString n c w) = n"
| "decl_name (DeclRef n t) = n"
| "decl_name (DeclOpaque n) = n"

text \<open>An \<open>ArrayBound\<close> holds two 64-bit integers; the other arguments are unrestricted.\<close>

fun decl_admissible :: "type_decl \<Rightarrow> bool" where
  "decl_admissible (DeclArray n e bs) = bounds_admissible bs"
| "decl_admissible _ = True"

lemma declare_type_refuses:
  "validate_new_name T (decl_name d) \<noteq> TE_ok \<Longrightarrow>
    declare_type T d = Inl (validate_new_name T (decl_name d))"
  by (cases d)
    (simp_all add: add_enum_def add_subrange_def add_array_def add_struct_def add_string_def
      add_wstring_def add_string_impl_def add_ref_def add_opaque_ref_def Let_def)

lemma declare_type_extends:
  assumes "table_wf T" "decl_admissible d" "declare_type T d = Inr (ident, T')"
  shows "\<exists>e. T' = T @ [e] \<and> td_name e = decl_name d \<and> ident = first_load_type_id + length T \<and>
    table_wf T'"
proof (rule commit_extends [OF assms(1)])
  show "\<exists>e. commit_type T e = Inr (ident, T') \<and> layout_ok T e \<and> td_name e = decl_name d \<and>
      validate_new_name T (decl_name d) = TE_ok"
    using assms add_enum_ok add_subrange_ok add_array_ok add_struct_ok add_string_impl_ok
      add_ref_ok add_opaque_ref_ok
    by (cases d) (auto simp: add_string_def add_wstring_def split: if_splits)
qed

interpretation declarations: table_extension declare_type decl_admissible decl_name
  using declare_type_extends declare_type_refuses by unfold_locales

end
