(* ===== verification/ScalarTypes.thy ===== *)
theory ScalarTypes
  imports TypeSystem
begin

text \<open>
  The scalar types of the ST language (\<open>core/st/types.h\<close>): codes, predicates, the implicit
  widening relation and the canonical 64-bit slot form every VM value is kept in. A slot is a
  \<open>u64\<close>; \<open>std::int64_t\<close> arithmetic on it goes through \<open>sint\<close>/\<open>word_of_int\<close> or, where the C++ casts
  to unsigned first, is the word operation itself.
\<close>

datatype Type =
    T_bool | T_int | T_dint | T_real | T_lreal | T_time
  | T_sint | T_lint | T_usint | T_uint | T_udint | T_ulint
  | T_byte | T_word | T_dword | T_lword
  | T_axis_ref | T_char | T_wchar | T_string | T_wstring | T_date | T_tod | T_dt | T_group_ref

text \<open>The two ids below are constants of the generated header \<open>generated/st_binding_types.h\<close>.\<close>

definition binding_axis_ref :: TypeId where "binding_axis_ref = 65540"
definition binding_group_ref :: TypeId where "binding_group_ref = 65541"

primrec type_id :: "Type \<Rightarrow> TypeId" where
  "type_id T_bool = ty_bool"
| "type_id T_sint = ty_sint"
| "type_id T_int = ty_int"
| "type_id T_dint = ty_dint"
| "type_id T_lint = ty_lint"
| "type_id T_usint = ty_usint"
| "type_id T_uint = ty_uint"
| "type_id T_udint = ty_udint"
| "type_id T_ulint = ty_ulint"
| "type_id T_real = ty_real"
| "type_id T_lreal = ty_lreal"
| "type_id T_time = ty_time"
| "type_id T_byte = ty_byte"
| "type_id T_word = ty_word"
| "type_id T_dword = ty_dword"
| "type_id T_lword = ty_lword"
| "type_id T_axis_ref = binding_axis_ref"
| "type_id T_group_ref = binding_group_ref"
| "type_id T_char = ty_usint"
| "type_id T_wchar = ty_udint"
| "type_id T_date = ty_date"
| "type_id T_tod = ty_tod"
| "type_id T_dt = ty_dt"
| "type_id T_string = invalid_type_id"
| "type_id T_wstring = invalid_type_id"

definition type_from_id :: "TypeId \<Rightarrow> Type" where
  "type_from_id i =
     (if i = ty_bool then T_bool
      else if i = ty_sint then T_sint
      else if i = ty_int then T_int
      else if i = ty_dint then T_dint
      else if i = ty_lint then T_lint
      else if i = ty_usint then T_usint
      else if i = ty_uint then T_uint
      else if i = ty_udint then T_udint
      else if i = ty_ulint then T_ulint
      else if i = ty_real then T_real
      else if i = ty_lreal then T_lreal
      else if i = ty_time then T_time
      else if i = ty_date then T_date
      else if i = ty_tod then T_tod
      else if i = ty_dt then T_dt
      else if i = ty_byte then T_byte
      else if i = ty_word then T_word
      else if i = ty_dword then T_dword
      else if i = ty_lword then T_lword
      else if i = binding_axis_ref then T_axis_ref
      else if i = binding_group_ref then T_group_ref
      else T_bool)"

definition is_signed_int :: "Type \<Rightarrow> bool" where
  "is_signed_int t \<longleftrightarrow> t = T_sint \<or> t = T_int \<or> t = T_dint \<or> t = T_lint"

definition is_unsigned_int :: "Type \<Rightarrow> bool" where
  "is_unsigned_int t \<longleftrightarrow> t = T_usint \<or> t = T_uint \<or> t = T_udint \<or> t = T_ulint"

definition is_integer :: "Type \<Rightarrow> bool" where
  "is_integer t \<longleftrightarrow> is_signed_int t \<or> is_unsigned_int t"

definition is_bitstring :: "Type \<Rightarrow> bool" where
  "is_bitstring t \<longleftrightarrow> t = T_byte \<or> t = T_word \<or> t = T_dword \<or> t = T_lword"

definition is_real_family :: "Type \<Rightarrow> bool" where
  "is_real_family t \<longleftrightarrow> t = T_real \<or> t = T_lreal"

definition width_bits :: "Type \<Rightarrow> nat" where
  "width_bits t = (case t of
     T_bool \<Rightarrow> 1
   | T_sint \<Rightarrow> 8 | T_usint \<Rightarrow> 8 | T_byte \<Rightarrow> 8
   | T_int \<Rightarrow> 16 | T_uint \<Rightarrow> 16 | T_word \<Rightarrow> 16
   | T_dint \<Rightarrow> 32 | T_udint \<Rightarrow> 32 | T_dword \<Rightarrow> 32 | T_real \<Rightarrow> 32
   | _ \<Rightarrow> 64)"

definition widens_to :: "Type \<Rightarrow> Type \<Rightarrow> bool" where
  "widens_to src dst =
     (if src = dst then False
      else if is_signed_int src \<and> is_signed_int dst then width_bits src < width_bits dst
      else if is_unsigned_int src \<and> is_unsigned_int dst then width_bits src < width_bits dst
      else if is_unsigned_int src \<and> is_signed_int dst then width_bits src < width_bits dst
      else if src = T_real \<and> dst = T_lreal then True
      else if is_bitstring src \<and> is_bitstring dst then width_bits src < width_bits dst
      else False)"

definition wrap8 :: "u64 \<Rightarrow> u64" where "wrap8 v = scast (ucast v :: u8)"
definition wrap16 :: "u64 \<Rightarrow> u64" where "wrap16 v = scast (ucast v :: u16)"
definition wrap32 :: "u64 \<Rightarrow> u64" where "wrap32 v = scast (ucast v :: u32)"

definition wrap_add64 :: "u64 \<Rightarrow> u64 \<Rightarrow> u64" where "wrap_add64 a b = a + b"
definition wrap_sub64 :: "u64 \<Rightarrow> u64 \<Rightarrow> u64" where "wrap_sub64 a b = a - b"
definition wrap_mul64 :: "u64 \<Rightarrow> u64 \<Rightarrow> u64" where "wrap_mul64 a b = a * b"

definition canon :: "Type \<Rightarrow> u64 \<Rightarrow> u64" where
  "canon t raw = (case t of
     T_bool \<Rightarrow> (if raw \<noteq> 0 then 1 else 0)
   | T_sint \<Rightarrow> wrap8 raw
   | T_int \<Rightarrow> wrap16 raw
   | T_dint \<Rightarrow> wrap32 raw
   | T_usint \<Rightarrow> raw AND 0xFF | T_byte \<Rightarrow> raw AND 0xFF
   | T_uint \<Rightarrow> raw AND 0xFFFF | T_word \<Rightarrow> raw AND 0xFFFF
   | T_udint \<Rightarrow> raw AND 0xFFFFFFFF | T_dword \<Rightarrow> raw AND 0xFFFFFFFF
   | _ \<Rightarrow> raw)"

primrec type_to_string :: "Type \<Rightarrow> string" where
  "type_to_string T_bool = ''BOOL''"
| "type_to_string T_int = ''INT''"
| "type_to_string T_dint = ''DINT''"
| "type_to_string T_real = ''REAL''"
| "type_to_string T_lreal = ''LREAL''"
| "type_to_string T_time = ''TIME''"
| "type_to_string T_sint = ''SINT''"
| "type_to_string T_lint = ''LINT''"
| "type_to_string T_usint = ''USINT''"
| "type_to_string T_uint = ''UINT''"
| "type_to_string T_udint = ''UDINT''"
| "type_to_string T_ulint = ''ULINT''"
| "type_to_string T_byte = ''BYTE''"
| "type_to_string T_word = ''WORD''"
| "type_to_string T_dword = ''DWORD''"
| "type_to_string T_lword = ''LWORD''"
| "type_to_string T_axis_ref = ''AXIS_REF''"
| "type_to_string T_char = ''CHAR''"
| "type_to_string T_wchar = ''WCHAR''"
| "type_to_string T_string = ''STRING''"
| "type_to_string T_wstring = ''WSTRING''"
| "type_to_string T_date = ''DATE''"
| "type_to_string T_tod = ''TOD''"
| "type_to_string T_dt = ''DT''"
| "type_to_string T_group_ref = ''GROUP_REF''"


section \<open>Canonical slots\<close>

text \<open>What the width and signedness of an integer or bit-string type make of a slot: the reading of
  its low \<open>width_bits\<close> bits.\<close>

definition slot_int :: "Type \<Rightarrow> u64 \<Rightarrow> int" where
  "slot_int t raw =
     (if is_signed_int t then signed_take_bit (width_bits t - 1) (sint raw)
      else take_bit (width_bits t) (uint raw))"

lemmas type_class_defs = is_signed_int_def is_unsigned_int_def is_integer_def is_bitstring_def
  is_real_family_def

lemma mask_literals:
  "(0xFF :: u64) = mask 8" "(0xFFFF :: u64) = mask 16" "(0xFFFFFFFF :: u64) = mask 32"
  by (simp_all add: mask_eq_exp_minus_1)

lemma wrap_bits:
  "wrap8 v = signed_take_bit 7 v" "wrap16 v = signed_take_bit 15 v" "wrap32 v = signed_take_bit 31 v"
  unfolding wrap8_def wrap16_def wrap32_def
  by (rule bit_eqI; auto simp: bit_signed_iff bit_ucast_iff bit_signed_take_bit_iff min_def)+

lemma canon_bits:
  "canon t raw = (case t of
     T_bool \<Rightarrow> (if raw \<noteq> 0 then 1 else 0)
   | _ \<Rightarrow> if is_signed_int t then signed_take_bit (width_bits t - 1) raw
     else if is_unsigned_int t \<or> is_bitstring t then take_bit (width_bits t) raw else raw)"
proof -
  have "signed_take_bit 63 raw = raw"
  proof (rule bit_eqI)
    fix n assume "possible_bit TYPE(64 word) n"
    then show "bit (signed_take_bit 63 raw) n = bit raw n"
      by (cases "n = 63") (auto simp: bit_signed_take_bit_iff min_def)
  qed
  moreover have "take_bit 64 raw = raw" by (simp add: take_bit_word_eq_self)
  ultimately show ?thesis
    by (cases t)
      (simp_all add: canon_def wrap_bits mask_literals take_bit_eq_mask [symmetric] type_class_defs
        width_bits_def del: take_bit_word_eq_self)
qed

lemma canon_idem: "canon t (canon t raw) = canon t raw"
  by (cases t) (simp_all add: canon_bits type_class_defs width_bits_def)

text \<open>Canonicalizing after each step keeps the wrap of the type: sums, differences and products may
  be computed on any slots with the same low bits.\<close>

definition modular_type :: "Type \<Rightarrow> bool" where
  "modular_type t \<longleftrightarrow> is_integer t \<or> is_bitstring t"

lemma canon_add: "modular_type t \<Longrightarrow> canon t (canon t a + canon t b) = canon t (a + b)"
  by (cases t)
    (simp_all add: canon_bits type_class_defs width_bits_def modular_type_def take_bit_word_arith
      signed_take_bit_word_arith)

lemma canon_mult: "modular_type t \<Longrightarrow> canon t (canon t a * canon t b) = canon t (a * b)"
  by (cases t)
    (simp_all add: canon_bits type_class_defs width_bits_def modular_type_def take_bit_word_arith
      signed_take_bit_word_arith)

lemma canon_diff: "modular_type t \<Longrightarrow> canon t (canon t a - canon t b) = canon t (a - b)"
  by (cases t)
    (simp_all add: canon_bits type_class_defs width_bits_def modular_type_def take_bit_word_arith
      signed_take_bit_word_arith)

text \<open>A value of the source type is already canonical in every type it widens to, so the compiler
  emits no conversion for a whitelisted widening.\<close>

lemma widening_no_op:
  assumes "widens_to src dst"
  shows "canon dst (canon src raw) = canon src raw"
proof -
  have sst: "signed_take_bit m (signed_take_bit n v) = signed_take_bit n v" if "n \<le> m" for m n and v :: u64
    using that by (simp add: signed_take_bit_signed_take_bit min_absorb1)
  have tt: "take_bit m (take_bit n v) = take_bit n v" if "n \<le> m" for m n and v :: u64
    using that by simp
  have st: "signed_take_bit m (take_bit n v) = take_bit n v" if "n \<le> m" for m n and v :: u64
    using that by (intro bit_eqI) (auto simp: bit_signed_take_bit_iff bit_take_bit_iff min_def)
  show ?thesis
    using assms
    by (cases src; cases dst)
      (simp_all add: widens_to_def canon_bits type_class_defs width_bits_def sst tt st)
qed

text \<open>Read with the signedness of its type, a canonical slot is the low bits of the raw value.\<close>

lemma sint_signed_take_bit: "n < 64 \<Longrightarrow> sint (signed_take_bit n (v :: u64)) = signed_take_bit n (sint v)"
  by (cases "n = 63"; rule bit_eqI; auto simp: bit_signed_iff bit_signed_take_bit_iff min_def)

lemma canon_signed: "is_signed_int t \<Longrightarrow> sint (canon t raw) = slot_int t raw"
  by (cases t)
    (simp_all add: slot_int_def canon_bits type_class_defs width_bits_def sint_signed_take_bit)

lemma canon_unsigned: "is_unsigned_int t \<or> is_bitstring t \<Longrightarrow> uint (canon t raw) = slot_int t raw"
  by (cases t)
    (simp_all add: slot_int_def canon_bits type_class_defs width_bits_def unsigned_take_bit_eq)

lemma slot_int_range:
  "if is_signed_int t then - (2 ^ (width_bits t - 1)) \<le> slot_int t raw \<and> slot_int t raw < 2 ^ (width_bits t - 1)
    else 0 \<le> slot_int t raw \<and> slot_int t raw < 2 ^ width_bits t"
  using signed_take_bit_int_greater_eq_minus_exp [of "width_bits t - 1" "sint raw"]
    signed_take_bit_int_less_exp [of "width_bits t - 1" "sint raw"]
    take_bit_int_less_exp [of "width_bits t" "uint raw"]
  by (simp add: slot_int_def)

lemma type_from_id_inverse:
  "t \<notin> {T_char, T_wchar, T_string, T_wstring} \<Longrightarrow> type_from_id (type_id t) = t"
  by (cases t) (simp_all add: type_from_id_def binding_axis_ref_def binding_group_ref_def)

lemma widening_value:
  assumes w: "widens_to src dst" and s: "is_integer src" and d: "is_integer dst"
  shows "slot_int dst (canon src raw) = slot_int src raw"
proof -
  let ?x = "canon src raw"
  have c: "canon dst ?x = ?x" by (rule widening_no_op [OF w])
  consider (signed) "is_signed_int src" "is_signed_int dst" | (unsigned) "is_unsigned_int src" "is_unsigned_int dst"
    | (mixed) "is_unsigned_int src" "is_signed_int dst"
    using w s d by (auto simp: widens_to_def is_integer_def type_class_defs split: if_splits)
  then show ?thesis
  proof cases
    case signed
    then show ?thesis using canon_signed [of dst ?x] canon_signed [of src raw] c by simp
  next
    case unsigned
    then show ?thesis using canon_unsigned [of dst ?x] canon_unsigned [of src raw] c by simp
  next
    case mixed
    then have "width_bits src < width_bits dst" "width_bits dst \<le> 64" "?x = take_bit (width_bits src) raw"
      using w by (auto simp: widens_to_def width_bits_def type_class_defs canon_bits split: if_splits)
    then have "\<not> bit ?x 63" "uint ?x < 2 ^ width_bits src" "width_bits src \<le> 63"
      by (simp_all add: bit_take_bit_iff unsigned_take_bit_eq)
    moreover from this have "uint ?x < 2 ^ 63"
      using power_increasing [of "width_bits src" 63 "2::int"] by linarith
    ultimately have "sint ?x = uint ?x"
      by (simp add: sint_uint signed_take_bit_eq_if_positive bit_uint_iff take_bit_int_eq_self_iff)
    with mixed show ?thesis using canon_signed [of dst ?x] canon_unsigned [of src raw] c by simp
  qed
qed

end
