(* ===== verification/Tasking.thy ===== *)
theory Tasking
  imports RtError
begin

text \<open>
  The tasking metadata of \<open>core/st/tasking.h\<close>: configurations, resources, tasks and program
  mappings as the compiler leaves them, the status records of the runtime, and the helpers both
  share. Names carry their lower-case key. Tick and event counters are 64-bit in the code and only
  ever incremented by one from zero; they are naturals here. \<open>instruction_budget\<close> and the
  remaining budget are signed 64-bit integers.
\<close>

datatype TaskKind = TK_periodic | TK_event

record ProgramMappingInfo =
  pm_name :: string
  pm_lower :: string
  pm_task :: string
  pm_program :: string
  pm_declaration_order :: nat
  pm_source_offset :: nat

record TaskInfo =
  ti_name :: string
  ti_lower :: string
  ti_kind :: TaskKind
  ti_event :: string
  ti_interval_ticks :: nat
  ti_phase_ticks :: nat
  ti_priority :: int
  ti_instruction_budget :: int
  ti_declaration_order :: nat
  ti_source_offset :: nat
  ti_mappings :: "nat list"

record ResourceInfo =
  ri_name :: string
  ri_lower :: string
  ri_target :: string
  ri_source_offset :: nat
  ri_tasks :: "TaskInfo list"
  ri_mappings :: "ProgramMappingInfo list"

record ConfigurationInfo =
  ci_name :: string
  ci_lower :: string
  ci_base_tick_ns :: nat
  ci_source_offset :: nat
  ci_resources :: "ResourceInfo list"

record TaskingReport =
  tr_resources :: nat
  tr_tasks :: nat
  tr_program_mappings :: nat
  tr_release_worst_case :: nat
  tr_image_copy_bytes :: nat
  tr_required_runtime_bytes :: nat

record EventSample =
  es_resource :: "string option"
  es_event :: "string option"
  es_level :: bool

datatype TaskState = TS_idle | TS_running | TS_paused | TS_faulted

datatype TaskFault =
  TF_none | TF_task_budget_exceeded | TF_task_wallclock_exceeded | TF_task_runtime_fault

datatype TaskFaultElementKind = FE_none | FE_transition | FE_action

definition invalid_artifact_index :: nat where "invalid_artifact_index = 4294967295"

record TaskStatus =
  st_state :: TaskState
  st_fault :: TaskFault
  st_release_count :: nat
  st_completed_count :: nat
  st_missed_release_count :: nat
  st_fault_count :: nat
  st_remaining_budget :: int
  st_fault_pou_index :: nat
  st_fault_sfc_index :: nat
  st_fault_transition_index :: nat
  st_fault_action_index :: nat
  st_fault_element_kind :: TaskFaultElementKind
  st_fault_instruction :: nat

definition initial_task_status :: TaskStatus where
  "initial_task_status = \<lparr> st_state = TS_idle, st_fault = TF_none, st_release_count = 0,
     st_completed_count = 0, st_missed_release_count = 0, st_fault_count = 0,
     st_remaining_budget = 0, st_fault_pou_index = invalid_artifact_index,
     st_fault_sfc_index = invalid_artifact_index,
     st_fault_transition_index = invalid_artifact_index,
     st_fault_action_index = invalid_artifact_index, st_fault_element_kind = FE_none,
     st_fault_instruction = 0 \<rparr>"

datatype ResourceFault = RF_none | RF_image_commit_failed

record ResourceStatus =
  rs_fault :: ResourceFault
  rs_fault_count :: nat
  rs_write_conflict_count :: nat

record TaskRuntimeStorage =
  ts_status :: TaskStatus
  ts_release_tick :: nat
  ts_eligible_tick :: nat
  ts_mapping_cursor :: nat
  ts_transaction_active :: bool
  ts_last_event_level :: bool
  ts_pending_wallclock_fault :: bool
  ts_pending_reset :: bool
  ts_pending_restart :: bool

definition initial_task_storage :: TaskRuntimeStorage where
  "initial_task_storage = \<lparr> ts_status = initial_task_status, ts_release_tick = 0,
     ts_eligible_tick = 0, ts_mapping_cursor = 0, ts_transaction_active = False,
     ts_last_event_level = False, ts_pending_wallclock_fault = False, ts_pending_reset = False,
     ts_pending_restart = False \<rparr>"

record ResourceRuntimeStorage =
  rr_status :: ResourceStatus
  rr_pending_fault :: ResourceFault
  rr_boundary_tick :: nat

definition initial_resource_storage :: ResourceRuntimeStorage where
  "initial_resource_storage = \<lparr> rr_status = \<lparr> rs_fault = RF_none, rs_fault_count = 0,
     rs_write_conflict_count = 0 \<rparr>, rr_pending_fault = RF_none, rr_boundary_tick = 0 \<rparr>"


section \<open>Names\<close>

definition lower_copy :: "string \<Rightarrow> string" where
  "lower_copy value = map lower_ascii value"

text \<open>\<open>same_name\<close> walks both strings while the characters agree; the C string ends at its NUL,
  which is the end of the list here. \<open>None\<close> is the null pointer.\<close>

fun name_walk :: "string \<Rightarrow> string \<Rightarrow> bool" where
  "name_walk [] value = (value = [])"
| "name_walk (c # lower) [] = False"
| "name_walk (c # lower) (v # value) = (c = lower_ascii v \<and> name_walk lower value)"

definition same_name :: "string \<Rightarrow> string option \<Rightarrow> bool" where
  "same_name lower value = (case value of None \<Rightarrow> False
     | Some v \<Rightarrow> if lower = [] then False else name_walk lower v)"

definition duplicate_task_name :: "string \<Rightarrow> TaskInfo list \<Rightarrow> bool" where
  "duplicate_task_name lower values = list_ex (\<lambda>v. ti_lower v = lower) values"

definition duplicate_resource_name :: "string \<Rightarrow> ResourceInfo list \<Rightarrow> bool" where
  "duplicate_resource_name lower values = list_ex (\<lambda>v. ri_lower v = lower) values"

definition duplicate_mapping_name :: "string \<Rightarrow> ProgramMappingInfo list \<Rightarrow> bool" where
  "duplicate_mapping_name lower values = list_ex (\<lambda>v. pm_lower v = lower) values"

text \<open>\<open>index_where P xs\<close> is the position of the first element satisfying \<open>P\<close>; the code's \<open>-1\<close> is
  \<open>None\<close>.\<close>

primrec index_where :: "('a \<Rightarrow> bool) \<Rightarrow> 'a list \<Rightarrow> nat option" where
  "index_where P [] = None"
| "index_where P (x # xs) = (if P x then Some 0 else map_option Suc (index_where P xs))"

definition find_task_info :: "ResourceInfo \<Rightarrow> string \<Rightarrow> nat option" where
  "find_task_info resource lower = index_where (\<lambda>t. ti_lower t = lower) (ri_tasks resource)"

lemma name_walk_iff: "name_walk lower v \<longleftrightarrow> lower = lower_copy v"
  by (induction lower v rule: name_walk.induct) (auto simp: lower_copy_def)

lemma same_name_iff:
  "same_name lower value \<longleftrightarrow> lower \<noteq> [] \<and> (\<exists>v. value = Some v \<and> lower = lower_copy v)"
  by (auto simp: same_name_def name_walk_iff split: option.splits)

lemma index_where_some:
  "index_where P xs = Some i \<longleftrightarrow> i < length xs \<and> P (xs ! i) \<and> (\<forall>j < i. \<not> P (xs ! j))"
proof (induction xs arbitrary: i)
  case Nil
  then show ?case by simp
next
  case (Cons x xs)
  show ?case
    by (cases i) (auto simp: Cons.IH less_Suc_eq_0_disj)
qed

lemma index_where_none: "index_where P xs = None \<longleftrightarrow> (\<forall>x \<in> set xs. \<not> P x)"
  by (induction xs) auto


section \<open>Saturating arithmetic\<close>

definition max_u64 :: nat where "max_u64 = 18446744073709551615"

definition saturated_add :: "nat \<Rightarrow> nat \<Rightarrow> nat" where
  "saturated_add left right = (if right > max_u64 - left then max_u64 else left + right)"

definition align_runtime :: "nat \<Rightarrow> nat" where
  "align_runtime value = (if value > max_u64 - 7 then max_u64
     else unat ((of_nat (value + 7)) AND NOT (7 :: u64)))"

lemma saturated_add_bound: "left \<le> max_u64 \<Longrightarrow> saturated_add left right \<le> max_u64"
  by (auto simp: saturated_add_def)

lemma saturated_add_min: "left \<le> max_u64 \<Longrightarrow> saturated_add left right = min (left + right) max_u64"
  by (auto simp: saturated_add_def min_def)

lemma saturated_add_mono: "left \<le> max_u64 \<Longrightarrow> left \<le> saturated_add left right"
  by (auto simp: saturated_add_def)

lemma align_runtime_value:
  assumes "value \<le> max_u64 - 7"
  shows "align_runtime value = (value + 7) div 8 * 8"
proof -
  have m: "(7 :: u64) = mask 3" by (simp add: mask_eq_exp_minus_1)
  have u: "unat (of_nat (value + 7) :: u64) = value + 7"
    by (rule unat_of_nat_small) (use assms in \<open>simp add: max_u64_def\<close>)
  show ?thesis
    using assms unat_and_not_mask [of "of_nat (value + 7)" 3, unfolded u]
    by (simp add: align_runtime_def m)
qed

end
