(* ===== verification/Bytecode.thy ===== *)
theory Bytecode
  imports ScalarTypes Tasking
begin

text \<open>
  The compiled artifact (\<open>core/st/bytecode.h\<close>): variable and process-image layout, POU and SFC
  metadata, the \<open>Program\<close> they belong to, the queries on it and the load-time footprint report of a
  configuration. Offsets, widths and sizes written by the compiler are naturals; values that travel
  through the runtime (constants, identities, fingerprints) keep their machine width. The members of
  \<open>Program\<close> and \<open>SfcRegionInfo\<close> that only describe the source (source maps, debug call sites, the debug
  report) are left out. Every \<open>sizeof\<close> and the
  sizes of the native binding storages depend on the ABI and are collected in the record \<open>abi\<close>.
\<close>

datatype ProcessArea = PA_input | PA_output | PA_memory

definition area_code :: "ProcessArea \<Rightarrow> nat" where
  "area_code a = (case a of PA_input \<Rightarrow> 0 | PA_output \<Rightarrow> 1 | PA_memory \<Rightarrow> 2)"

record VarInfo =
  vi_name :: string
  vi_lower :: string
  vi_type :: Type
  vi_type_id :: TypeId
  vi_constant :: bool
  vi_offset :: nat
  vi_init_bits :: u64
  vi_initial_length :: nat

record LocatedVarInfo =
  lv_name :: string
  lv_lower :: string
  lv_type_id :: TypeId
  lv_area :: ProcessArea
  lv_byte_offset :: nat
  lv_var_offset :: nat
  lv_byte_width :: nat
  lv_bit :: nat
  lv_bit_address :: bool
  lv_retain :: bool
  lv_persistent :: bool
  lv_shared :: bool
  lv_stable_id :: u64

record ProcessImageInfo =
  pi_variables :: "LocatedVarInfo list"
  pi_input_bytes :: nat
  pi_output_bytes :: nat
  pi_memory_bytes :: nat
  pi_max_force_entries :: nat
  pi_retain_entries :: nat
  pi_fingerprint :: u64

record FbInfo =
  fb_name :: string
  fb_lower :: string
  fb_type :: nat
  fb_offset :: nat

record PouInfo =
  po_name :: string
  po_lower :: string
  po_frame_bytes :: nat
  po_worst_case_bounded :: bool
  po_worst_case_instructions :: nat

record InstanceInfo =
  in_name :: string
  in_lower :: string
  in_offset :: nat
  in_bytes :: nat

record SfcRegionInfo =
  rg_code :: bytes
  rg_instruction_offsets :: "nat list"
  rg_constants :: "u64 list"
  rg_stack_slots :: nat
  rg_worst_case_bounded :: bool
  rg_worst_case_instructions :: nat
  rg_result_offset :: nat

record SfcStepInfo =
  ss_name :: string
  ss_lower :: string
  ss_initial :: bool
  ss_terminal :: bool
  ss_line :: int
  ss_column :: int
  ss_end_line :: int
  ss_end_column :: int

record SfcTransitionInfo =
  sx_sources :: "nat list"
  sx_targets :: "nat list"
  sx_condition :: SfcRegionInfo
  sx_simultaneous :: bool
  sx_line :: int
  sx_column :: int
  sx_end_line :: int
  sx_end_column :: int

record SfcActionInfo =
  sa_name :: string
  sa_lower :: string
  sa_region :: SfcRegionInfo
  sa_line :: int
  sa_column :: int
  sa_end_line :: int
  sa_end_column :: int

record SfcActionBlockInfo =
  sb_step :: nat
  sb_action :: nat
  sb_qualifier :: nat
  sb_duration_ns :: int
  sb_line :: int
  sb_column :: int
  sb_end_line :: int
  sb_end_column :: int

record SfcParallelRegionInfo =
  pr_divergence_transition :: nat
  pr_convergence_transition :: nat
  pr_branch_entries :: "nat list"
  pr_branch_exits :: "nat list"

record SfcNetworkInfo =
  sn_name :: string
  sn_lower :: string
  sn_steps :: "SfcStepInfo list"
  sn_transitions :: "SfcTransitionInfo list"
  sn_actions :: "SfcActionInfo list"
  sn_action_blocks :: "SfcActionBlockInfo list"
  sn_parallel_regions :: "SfcParallelRegionInfo list"
  sn_runtime_offset :: nat
  sn_committed_active_offset :: nat
  sn_staged_active_offset :: nat
  sn_shadow_active_offset :: nat
  sn_firing_offset :: nat
  sn_committed_block_offset :: nat
  sn_staged_block_offset :: nat
  sn_shadow_block_offset :: nat
  sn_committed_action_offset :: nat
  sn_staged_action_offset :: nat
  sn_shadow_action_offset :: nat
  sn_direct_action_offset :: nat
  sn_step_count :: nat
  sn_reachable_step_count :: nat
  sn_max_parallel_active_steps :: nat
  sn_worst_case_transition_evaluations :: nat
  sn_worst_case_action_executions :: nat
  sn_static_bytes :: nat

record SymbolInfo =
  sy_qualified_name :: string
  sy_type_id :: TypeId
  sy_offset :: nat
  sy_size :: nat
  sy_located :: bool
  sy_physical_area :: nat
  sy_physical_byte_offset :: nat
  sy_physical_bit :: nat
  sy_physical_width :: nat
  sy_physical_bit_address :: bool

text \<open>\<open>Program\<close> contains child programs; its own fields are the record \<open>program_body\<close>.\<close>

record program_body =
  pb_format_version :: nat
  pb_code :: bytes
  pb_instruction_offsets :: "nat list"
  pb_constants :: "u64 list"
  pb_string_constants :: bytes
  pb_vars :: "VarInfo list"
  pb_process_image :: ProcessImageInfo
  pb_fbs :: "FbInfo list"
  pb_types :: TypeTable
  pb_initial_data :: bytes
  pb_stack_slots :: nat
  pb_vars_bytes :: nat
  pb_fb_bytes :: nat
  pb_max_string_operation_cost :: nat
  pb_max_standard_function_cost :: nat
  pb_program_name :: string
  pb_pous :: "PouInfo list"
  pb_instances :: "InstanceInfo list"
  pb_max_call_depth :: nat
  pb_max_instance_depth :: nat
  pb_worst_case_bounded :: bool
  pb_worst_case_instructions :: nat
  pb_layout_bytes :: nat
  pb_configurations :: "ConfigurationInfo list"
  pb_sfc_networks :: "SfcNetworkInfo list"
  pb_sfc_runtime_bytes :: nat
  pb_debug_enabled :: bool
  pb_symbols :: "SymbolInfo list"

datatype Program = Program (body: program_body) (programs: "Program list")

abbreviation process_image :: "Program \<Rightarrow> ProcessImageInfo" where
  "process_image p \<equiv> pb_process_image (body p)"

abbreviation located_vars :: "Program \<Rightarrow> LocatedVarInfo list" where
  "located_vars p \<equiv> pi_variables (process_image p)"

abbreviation initial_data :: "Program \<Rightarrow> bytes" where
  "initial_data p \<equiv> pb_initial_data (body p)"

abbreviation program_name :: "Program \<Rightarrow> string" where
  "program_name p \<equiv> pb_program_name (body p)"

definition empty_image :: ProcessImageInfo where
  "empty_image = \<lparr> pi_variables = [], pi_input_bytes = 0, pi_output_bytes = 0, pi_memory_bytes = 0,
     pi_max_force_entries = 1024, pi_retain_entries = 0, pi_fingerprint = 0 \<rparr>"

definition bytecode_format_version :: nat where "bytecode_format_version = 6"

definition empty_body :: program_body where
  "empty_body = \<lparr> pb_format_version = bytecode_format_version, pb_code = [], pb_instruction_offsets = [], pb_constants = [],
     pb_string_constants = [], pb_vars = [], pb_process_image = empty_image, pb_fbs = [],
     pb_types = [], pb_initial_data = [], pb_stack_slots = 0, pb_vars_bytes = 0, pb_fb_bytes = 0,
     pb_max_string_operation_cost = 0, pb_max_standard_function_cost = 0, pb_program_name = [],
     pb_pous = [], pb_instances = [], pb_max_call_depth = 1, pb_max_instance_depth = 1,
     pb_worst_case_bounded = True,
     pb_worst_case_instructions = 0, pb_layout_bytes = 0, pb_configurations = [],
     pb_sfc_networks = [], pb_sfc_runtime_bytes = 0, pb_debug_enabled = False, pb_symbols = [] \<rparr>"

definition empty_program :: Program where
  "empty_program = Program empty_body []"


section \<open>Opcodes\<close>

text \<open>The enumerators of \<open>Op\<close>. Families that differ only in the operation are one constructor with
  the operation as argument: \<open>add_int\<close> is \<open>Op_int A_add\<close>, \<open>cmp_le_f\<close> is \<open>Op_cmp_f C_le\<close>.\<close>

datatype ArithOp = A_add | A_sub | A_mul | A_div | A_mod | A_neg

datatype CmpOp = C_eq | C_ne | C_lt | C_gt | C_le | C_ge

datatype BoolOp = B_and | B_or | B_xor | B_not

datatype ForOp = F_guard | F_test | F_step_int | F_step_dint

datatype FbOp = FB_store_in | FB_store_object | FB_call | FB_load_out | FB_load_object

datatype ConvOp =
    CV_wrap | CV_i2d | CV_u2d | CV_f_narrow | CV_round | CV_trunc | CV_to_bool | CV_f_to_bool

datatype StringOp =
    S_copy | S_copy_const | S_compare | S_index | S_check_unicode | S_length | S_standard

datatype Op =
    Op_halt | Op_push_const | Op_load_var | Op_store_var
  | Op_int ArithOp | Op_dint ArithOp | Op_real ArithOp | Op_lreal ArithOp | Op_time ArithOp
  | Op_bool BoolOp | Op_cmp_i CmpOp | Op_cmp_f CmpOp
  | Op_jmp | Op_jmp_if_false | Op_for ForOp | Op_fb FbOp
  | Op_iarith | Op_cmp_u | Op_bit BoolOp | Op_time_scale | Op_power | Op_conv ConvOp
  | Op_check_range | Op_load_access | Op_store_access | Op_copy_bytes | Op_string StringOp
  | Op_date_arith | Op_alias_guard | Op_commit_outputs | Op_standard_scalar | Op_debug_probe

text \<open>The enumerators in declaration order; an opcode byte is a position in this list.\<close>

definition op_table :: "Op list" where
  "op_table =
    [Op_halt, Op_push_const, Op_load_var, Op_store_var,
     Op_int A_add, Op_int A_sub, Op_int A_mul, Op_int A_div, Op_int A_mod, Op_int A_neg,
     Op_dint A_add, Op_dint A_sub, Op_dint A_mul, Op_dint A_div, Op_dint A_mod, Op_dint A_neg,
     Op_real A_add, Op_real A_sub, Op_real A_mul, Op_real A_div, Op_real A_neg,
     Op_lreal A_add, Op_lreal A_sub, Op_lreal A_mul, Op_lreal A_div, Op_lreal A_neg,
     Op_time A_add, Op_time A_sub,
     Op_bool B_and, Op_bool B_or, Op_bool B_xor, Op_bool B_not,
     Op_cmp_i C_eq, Op_cmp_i C_ne, Op_cmp_i C_lt, Op_cmp_i C_gt, Op_cmp_i C_le, Op_cmp_i C_ge,
     Op_cmp_f C_eq, Op_cmp_f C_ne, Op_cmp_f C_lt, Op_cmp_f C_gt, Op_cmp_f C_le, Op_cmp_f C_ge,
     Op_jmp, Op_jmp_if_false,
     Op_for F_guard, Op_for F_test, Op_for F_step_int, Op_for F_step_dint,
     Op_fb FB_store_in, Op_fb FB_store_object, Op_fb FB_call, Op_fb FB_load_out,
     Op_iarith, Op_cmp_u, Op_bit B_and, Op_bit B_or, Op_bit B_xor, Op_bit B_not,
     Op_time_scale, Op_power, Op_conv CV_wrap, Op_conv CV_i2d, Op_conv CV_u2d,
     Op_conv CV_f_narrow, Op_conv CV_round, Op_conv CV_trunc, Op_conv CV_to_bool,
     Op_conv CV_f_to_bool,
     Op_check_range, Op_load_access, Op_store_access, Op_copy_bytes,
     Op_string S_copy, Op_string S_copy_const, Op_string S_compare, Op_string S_index,
     Op_string S_check_unicode, Op_date_arith, Op_alias_guard, Op_string S_length,
     Op_commit_outputs, Op_fb FB_load_object, Op_standard_scalar, Op_string S_standard,
     Op_debug_probe]"

definition op_of_byte :: "u8 \<Rightarrow> Op option" where
  "op_of_byte b = (if unat b < length op_table then Some (op_table ! unat b) else None)"

lemma distinct_op_table: "distinct op_table"
  by (simp add: op_table_def)


section \<open>Queries\<close>

definition find_symbol :: "Program \<Rightarrow> string option \<Rightarrow> SymbolInfo option" where
  "find_symbol p name = (case name of None \<Rightarrow> None
     | Some n \<Rightarrow> find (\<lambda>s. sy_qualified_name s = lower_copy n) (pb_symbols (body p)))"

definition code_contains :: "Op \<Rightarrow> nat list \<Rightarrow> bytes \<Rightarrow> bool" where
  "code_contains opcode offsets code =
     list_ex (\<lambda>off. off < length code \<and> op_of_byte (code ! off) = Some opcode) offsets"

definition region_contains :: "Op \<Rightarrow> SfcRegionInfo \<Rightarrow> bool" where
  "region_contains opcode r = code_contains opcode (rg_instruction_offsets r) (rg_code r)"

fun contains_opcode :: "Op \<Rightarrow> Program \<Rightarrow> bool" where
  "contains_opcode opcode (Program b children) =
     (code_contains opcode (pb_instruction_offsets b) (pb_code b) \<or>
      list_ex (\<lambda>n. list_ex (\<lambda>t. region_contains opcode (sx_condition t)) (sn_transitions n) \<or>
                   list_ex (\<lambda>a. region_contains opcode (sa_region a)) (sn_actions n))
        (pb_sfc_networks b) \<or>
      list_ex (contains_opcode opcode) children)"

text \<open>The fixed cost of one SFC scan. \<open>add\<close> saturates: \<open>None\<close> is the overflow exit, which returns
  the maximal 64-bit value.\<close>

definition cost_add :: "nat option \<Rightarrow> nat \<Rightarrow> nat option" where
  "cost_add cost v = (case cost of None \<Rightarrow> None
     | Some c \<Rightarrow> if c > max_u64 - v then None else Some (c + v))"

definition transition_check_cost :: "SfcTransitionInfo list \<Rightarrow> nat \<Rightarrow> nat" where
  "transition_check_cost ts i =
     (let src = length (sx_sources (ts ! i))
      in 1 + src + (\<Sum>j\<leftarrow>[0..<i]. 1 + src * length (sx_sources (ts ! j))))"

definition network_fixed_cost :: "SfcNetworkInfo \<Rightarrow> nat option \<Rightarrow> nat option" where
  "network_fixed_cost n cost =
     (let steps = length (sn_steps n); blocks = length (sn_action_blocks n);
          actions = length (sn_actions n); ts = sn_transitions n;
          c1 = cost_add cost (2 * steps + length ts + 32 * blocks + actions * 3);
          c2 = fold (\<lambda>i c. cost_add c (transition_check_cost ts i + 1 +
                  length (sx_sources (ts ! i)) + length (sx_targets (ts ! i)))) [0..<length ts] c1
      in cost_add c2 (blocks + actions * (2 * blocks + 3) + actions + 2 * steps + length ts +
           blocks + actions + steps + 16 * blocks + actions))"

definition sfc_runner_fixed_cost :: "Program \<Rightarrow> nat" where
  "sfc_runner_fixed_cost p =
     (case cost_add (fold network_fixed_cost (pb_sfc_networks (body p))
              (Some (pb_vars_bytes (body p) * 3))) 1 of
        None \<Rightarrow> max_u64 | Some c \<Rightarrow> c)"

definition artifact_pou_name :: "Program \<Rightarrow> nat \<Rightarrow> string" where
  "artifact_pou_name p index =
     (if index < length (pb_pous (body p)) then po_name (pb_pous (body p) ! index) else [])"

definition artifact_program :: "Program \<Rightarrow> nat \<Rightarrow> Program option" where
  "artifact_program p pou_index =
     (if pou_index \<ge> length (pb_pous (body p)) then None
      else let lower = po_lower (pb_pous (body p) ! pou_index)
        in if programs p = [] then (if program_name p = lower then Some p else None)
           else find (\<lambda>c. program_name c = lower) (programs p))"

definition artifact_sfc_name :: "Program \<Rightarrow> nat \<Rightarrow> nat \<Rightarrow> string" where
  "artifact_sfc_name p pou_index sfc_index = (case artifact_program p pou_index of
     None \<Rightarrow> []
   | Some c \<Rightarrow> if sfc_index < length (pb_sfc_networks (body c))
       then sn_name (pb_sfc_networks (body c) ! sfc_index) else [])"

definition artifact_sfc_action_name :: "Program \<Rightarrow> nat \<Rightarrow> nat \<Rightarrow> nat \<Rightarrow> string" where
  "artifact_sfc_action_name p pou_index sfc_index action_index = (case artifact_program p pou_index of
     None \<Rightarrow> []
   | Some c \<Rightarrow>
       if sfc_index \<ge> length (pb_sfc_networks (body c)) then []
       else let n = pb_sfc_networks (body c) ! sfc_index
         in if action_index \<ge> length (sn_actions n) then []
            else sa_name (sn_actions n ! action_index))"


section \<open>Footprint of a configuration\<close>

record abi =
  sizeof_sfc_runner :: nat
  sizeof_debug_runtime :: nat
  sizeof_resource_storage :: nat
  sizeof_task_storage :: nat
  binding_bytes :: "VarInfo list \<Rightarrow> nat"

definition align8 :: "nat \<Rightarrow> nat" where
  "align8 n = (n + 7) div 8 * 8"

definition binding_storage_offset :: "program_body \<Rightarrow> nat" where
  "binding_storage_offset b =
     align8 (max (pb_vars_bytes b + pb_fb_bytes b + pb_stack_slots b * 8) (pb_layout_bytes b))"

definition sfc_runner_storage_offset :: "abi \<Rightarrow> program_body \<Rightarrow> nat" where
  "sfc_runner_storage_offset a b = align8 (binding_storage_offset b + binding_bytes a (pb_vars b))"

definition sfc_storage_offset :: "abi \<Rightarrow> program_body \<Rightarrow> nat" where
  "sfc_storage_offset a b = align8 (sfc_runner_storage_offset a b + sizeof_sfc_runner a)"

definition debug_runtime_storage_offset :: "abi \<Rightarrow> program_body \<Rightarrow> nat" where
  "debug_runtime_storage_offset a b = align8 (sfc_storage_offset a b + pb_sfc_runtime_bytes b)"

fun required_bytes :: "abi \<Rightarrow> Program \<Rightarrow> nat" where
  "required_bytes a (Program b children) =
     foldl max (debug_runtime_storage_offset a b +
       (if pb_debug_enabled b then sizeof_debug_runtime a else 0))
       (map (required_bytes a) children)"

definition find_child :: "Program \<Rightarrow> string \<Rightarrow> Program option" where
  "find_child p name = find (\<lambda>c. program_name c = name) (programs p)"

text \<open>The release cost of one task: the saturated sum over its programs, or the budget when one of
  them is unbounded, capped by the budget. \<open>None\<close> is the \<open>invalid_argument\<close> return.\<close>

fun release_cost ::
  "Program \<Rightarrow> ProgramMappingInfo list \<Rightarrow> string \<Rightarrow> nat list \<Rightarrow> nat \<Rightarrow> bool \<Rightarrow> (nat \<times> bool) option"
where
  "release_cost p maps task [] cost unbounded = Some (cost, unbounded)"
| "release_cost p maps task (m # ms) cost unbounded =
     (if m \<ge> length maps then None
      else if pm_task (maps ! m) \<noteq> task then None
      else case find_child p (pm_program (maps ! m)) of
        None \<Rightarrow> None
      | Some c \<Rightarrow>
          if pb_worst_case_bounded (body c)
          then release_cost p maps task ms (saturated_add cost (pb_worst_case_instructions (body c))) unbounded
          else release_cost p maps task ms cost True)"

definition report_task ::
  "abi \<Rightarrow> Program \<Rightarrow> ResourceInfo \<Rightarrow> TaskInfo \<Rightarrow> TaskingReport \<Rightarrow> TaskingReport option"
where
  "report_task a p res t rep =
     (if ti_instruction_budget t \<le> 0 then None
      else let rep1 = rep\<lparr> tr_required_runtime_bytes := saturated_add (tr_required_runtime_bytes rep)
                 (align_runtime (sizeof_task_storage a)) \<rparr>
        in case release_cost p (ri_mappings res) (ti_lower t) (ti_mappings t) 0 False of
             None \<Rightarrow> None
           | Some (cost, unbounded) \<Rightarrow>
               let budget = nat (ti_instruction_budget t);
                   c = (if unbounded then budget else min cost budget)
               in Some (rep1\<lparr> tr_release_worst_case := max (tr_release_worst_case rep1) c \<rparr>))"

primrec report_tasks ::
  "abi \<Rightarrow> Program \<Rightarrow> ResourceInfo \<Rightarrow> TaskInfo list \<Rightarrow> TaskingReport \<Rightarrow> TaskingReport option"
where
  "report_tasks a p res [] rep = Some rep"
| "report_tasks a p res (t # ts) rep = (case report_task a p res t rep of
     None \<Rightarrow> None | Some rep' \<Rightarrow> report_tasks a p res ts rep')"

primrec report_mappings ::
  "abi \<Rightarrow> Program \<Rightarrow> ProgramMappingInfo list \<Rightarrow> nat \<times> nat \<times> nat \<Rightarrow> TaskingReport \<Rightarrow>
    (TaskingReport \<times> nat \<times> nat \<times> nat) option"
where
  "report_mappings a p [] iom rep = Some (rep, iom)"
| "report_mappings a p (m # ms) iom rep = (case find_child p (pm_program m) of
     None \<Rightarrow> None
   | Some c \<Rightarrow> (case iom of (i, out, mem) \<Rightarrow>
       report_mappings a p ms
         (max i (pi_input_bytes (process_image c)), max out (pi_output_bytes (process_image c)),
          max mem (pi_memory_bytes (process_image c)))
         (rep\<lparr> tr_required_runtime_bytes := saturated_add (tr_required_runtime_bytes rep)
                 (align_runtime (required_bytes a c)) \<rparr>)))"

definition report_resource ::
  "abi \<Rightarrow> Program \<Rightarrow> ResourceInfo \<Rightarrow> TaskingReport \<Rightarrow> TaskingReport option"
where
  "report_resource a p res rep =
     (let rep1 = rep\<lparr> tr_tasks := min (saturated_add (tr_tasks rep) (length (ri_tasks res))) u32_max,
            tr_program_mappings := min (saturated_add (tr_program_mappings rep)
              (length (ri_mappings res))) u32_max,
            tr_required_runtime_bytes := saturated_add (tr_required_runtime_bytes rep)
              (align_runtime (sizeof_resource_storage a)) \<rparr>
      in case report_tasks a p res (ri_tasks res) rep1 of
           None \<Rightarrow> None
         | Some rep2 \<Rightarrow>
             (case report_mappings a p (ri_mappings res) (0, 0, 0) rep2 of
                None \<Rightarrow> None
              | Some (rep3, i, out, mem) \<Rightarrow>
                  let image = saturated_add (saturated_add i out) mem;
                      parked = saturated_add (align_runtime out * 2) (align_runtime mem * 2);
                      rep4 = rep3\<lparr> tr_image_copy_bytes := saturated_add (tr_image_copy_bytes rep3) image,
                        tr_required_runtime_bytes :=
                          saturated_add (tr_required_runtime_bytes rep3) (align_runtime image) \<rparr>
                  in Some (fold (\<lambda>_ r. r\<lparr> tr_required_runtime_bytes :=
                         saturated_add (tr_required_runtime_bytes r) (align_runtime parked) \<rparr>)
                       (ri_tasks res) rep4)))"

primrec report_resources ::
  "abi \<Rightarrow> Program \<Rightarrow> ResourceInfo list \<Rightarrow> TaskingReport \<Rightarrow> TaskingReport option"
where
  "report_resources a p [] rep = Some rep"
| "report_resources a p (r # rs) rep = (case report_resource a p r rep of
     None \<Rightarrow> None | Some rep' \<Rightarrow> report_resources a p rs rep')"

definition tasking_report :: "abi \<Rightarrow> Program \<Rightarrow> string option \<Rightarrow> ErrorCode + TaskingReport" where
  "tasking_report a p name =
     (if name = None then Inl EC_invalid_argument
      else case find (\<lambda>c. same_name (ci_lower c) name) (pb_configurations (body p)) of
        None \<Rightarrow> Inl EC_invalid_argument
      | Some c \<Rightarrow>
          (case report_resources a p (ci_resources c)
             \<lparr> tr_resources = min (length (ci_resources c)) 65535, tr_tasks = 0,
               tr_program_mappings = 0, tr_release_worst_case = 0, tr_image_copy_bytes = 0,
               tr_required_runtime_bytes = 0 \<rparr> of
             None \<Rightarrow> Inl EC_invalid_argument
           | Some rep \<Rightarrow> Inr rep))"

end
