(* ===== verification/Manifest.thy ===== *)
theory Manifest
  imports Bytecode "HOL-Library.Char_ord" "HOL-Library.List_Lexorder"
begin

text \<open>
  The canonical manifest of a compiled artifact (\<open>bytecode_detail\<close>, \<open>canonical_manifest\<close> and
  \<open>canonical_sfc_report\<close> in \<open>core/st/bytecode.h\<close>): the byte string that identifies an artifact.
  Every \<open>append_\<close> function is modelled by the bytes it appends. The result is that the manifest is
  self-delimiting, so two artifacts with equal manifests agree in every member the manifest covers.
  \<open>std::sort\<close> by name is \<open>sort_key\<close>; where two names are equal the code leaves the order open.
\<close>

section \<open>Scalars, strings and lists\<close>

definition append_u8 :: "nat \<Rightarrow> bytes" where "append_u8 v = [of_nat v]"
definition append_u16 :: "nat \<Rightarrow> bytes" where "append_u16 v = le_bytes 2 (of_nat v)"
definition append_u32 :: "nat \<Rightarrow> bytes" where "append_u32 v = le_bytes 4 (of_nat v)"
definition append_word64 :: "u64 \<Rightarrow> bytes" where "append_word64 v = le_bytes 8 v"

text \<open>A signed value goes through \<open>static_cast\<close> to the unsigned type of its width.\<close>

definition append_i32 :: "int \<Rightarrow> bytes" where "append_i32 v = le_bytes 4 (of_int v)"
definition append_i64 :: "int \<Rightarrow> bytes" where "append_i64 v = le_bytes 8 (of_int v)"

definition append_size :: "nat \<Rightarrow> bytes" where "append_size n = append_word64 (of_nat n)"
definition append_flag :: "bool \<Rightarrow> bytes" where "append_flag b = append_u8 (if b then 1 else 0)"

definition char_byte :: "char \<Rightarrow> u8" where "char_byte c = of_nat (of_char c)"

definition append_bytes :: "bytes \<Rightarrow> bytes" where
  "append_bytes bs = append_size (length bs) @ bs"

definition append_string :: "string \<Rightarrow> bytes" where
  "append_string s = append_bytes (map char_byte s)"

text \<open>A count followed by the items, the shape of every loop below.\<close>

definition append_list :: "('a \<Rightarrow> bytes) \<Rightarrow> 'a list \<Rightarrow> bytes" where
  "append_list f xs = append_size (length xs) @ concat (map f xs)"


section \<open>The records\<close>

definition append_sfc_region :: "SfcRegionInfo \<Rightarrow> bytes" where
  "append_sfc_region r = append_bytes (rg_code r) @
     append_list append_u32 (rg_instruction_offsets r) @ append_list append_word64 (rg_constants r) @
     append_u16 (rg_stack_slots r) @ append_flag (rg_worst_case_bounded r) @
     append_size (rg_worst_case_instructions r) @ append_u32 (rg_result_offset r)"

definition type_list :: "Type list" where
  "type_list = [T_bool, T_int, T_dint, T_real, T_lreal, T_time, T_sint, T_lint, T_usint, T_uint,
     T_udint, T_ulint, T_byte, T_word, T_dword, T_lword, T_axis_ref, T_char, T_wchar, T_string,
     T_wstring, T_date, T_tod, T_dt, T_group_ref]"

definition type_code :: "Type \<Rightarrow> nat" where
  "type_code ty = the (index_where (\<lambda>x. x = ty) type_list)"

definition append_var :: "VarInfo \<Rightarrow> bytes" where
  "append_var v = append_string (vi_name v) @ append_string (vi_lower v) @
     append_u8 (type_code (vi_type v)) @ append_u32 (vi_type_id v) @ append_flag (vi_constant v) @
     append_u32 (vi_offset v) @ append_word64 (vi_init_bits v) @ append_u32 (vi_initial_length v)"

definition append_located :: "LocatedVarInfo \<Rightarrow> bytes" where
  "append_located v = append_string (lv_name v) @ append_string (lv_lower v) @
     append_u32 (lv_type_id v) @ append_u8 (area_code (lv_area v)) @ append_u32 (lv_byte_offset v) @
     append_u32 (lv_var_offset v) @ append_u8 (lv_byte_width v) @ append_u8 (lv_bit v) @
     append_flag (lv_bit_address v) @ append_flag (lv_retain v) @ append_flag (lv_persistent v) @
     append_flag (lv_shared v) @ append_word64 (lv_stable_id v)"

definition append_process_image :: "ProcessImageInfo \<Rightarrow> bytes" where
  "append_process_image i = append_list append_located (pi_variables i) @
     append_u32 (pi_input_bytes i) @ append_u32 (pi_output_bytes i) @ append_u32 (pi_memory_bytes i) @
     append_u16 (pi_max_force_entries i) @ append_u16 (pi_retain_entries i) @
     append_word64 (pi_fingerprint i)"

definition append_fb :: "FbInfo \<Rightarrow> bytes" where
  "append_fb f = append_string (fb_name f) @ append_string (fb_lower f) @ append_u16 (fb_type f) @
     append_u32 (fb_offset f)"

definition append_pou :: "PouInfo \<Rightarrow> bytes" where
  "append_pou p = append_string (po_name p) @ append_string (po_lower p) @
     append_u32 (po_frame_bytes p) @ append_flag (po_worst_case_bounded p) @
     append_size (po_worst_case_instructions p)"

definition append_instance :: "InstanceInfo \<Rightarrow> bytes" where
  "append_instance i = append_string (in_name i) @ append_string (in_lower i) @
     append_u32 (in_offset i) @ append_u32 (in_bytes i)"

definition append_step :: "SfcStepInfo \<Rightarrow> bytes" where
  "append_step s = append_string (ss_name s) @ append_string (ss_lower s) @
     append_flag (ss_initial s) @ append_flag (ss_terminal s) @ append_i32 (ss_line s) @
     append_i32 (ss_column s) @ append_i32 (ss_end_line s) @ append_i32 (ss_end_column s)"

definition append_transition :: "SfcTransitionInfo \<Rightarrow> bytes" where
  "append_transition t = append_list append_u16 (sx_sources t) @ append_list append_u16 (sx_targets t) @
     append_flag (sx_simultaneous t) @ append_i32 (sx_line t) @ append_i32 (sx_column t) @
     append_i32 (sx_end_line t) @ append_i32 (sx_end_column t) @ append_sfc_region (sx_condition t)"

definition append_action :: "SfcActionInfo \<Rightarrow> bytes" where
  "append_action a = append_string (sa_name a) @ append_string (sa_lower a) @ append_i32 (sa_line a) @
     append_i32 (sa_column a) @ append_i32 (sa_end_line a) @ append_i32 (sa_end_column a) @
     append_sfc_region (sa_region a)"

definition append_block :: "SfcActionBlockInfo \<Rightarrow> bytes" where
  "append_block b = append_u16 (sb_step b) @ append_u16 (sb_action b) @ append_u8 (sb_qualifier b) @
     append_i64 (sb_duration_ns b) @ append_i32 (sb_line b) @ append_i32 (sb_column b) @
     append_i32 (sb_end_line b) @ append_i32 (sb_end_column b)"

definition append_parallel :: "SfcParallelRegionInfo \<Rightarrow> bytes" where
  "append_parallel r = append_u16 (pr_divergence_transition r) @
     append_u16 (pr_convergence_transition r) @ append_list append_u16 (pr_branch_entries r) @
     append_list append_u16 (pr_branch_exits r)"

definition append_network :: "SfcNetworkInfo \<Rightarrow> bytes" where
  "append_network n = append_string (sn_name n) @ append_string (sn_lower n) @
     append_u32 (sn_runtime_offset n) @ append_u32 (sn_committed_active_offset n) @
     append_u32 (sn_staged_active_offset n) @ append_u32 (sn_shadow_active_offset n) @
     append_u32 (sn_firing_offset n) @ append_u32 (sn_committed_block_offset n) @
     append_u32 (sn_staged_block_offset n) @ append_u32 (sn_shadow_block_offset n) @
     append_u32 (sn_committed_action_offset n) @ append_u32 (sn_staged_action_offset n) @
     append_u32 (sn_shadow_action_offset n) @ append_u32 (sn_direct_action_offset n) @
     append_u32 (sn_step_count n) @ append_u32 (sn_reachable_step_count n) @
     append_u32 (sn_max_parallel_active_steps n) @
     append_u32 (sn_worst_case_transition_evaluations n) @
     append_u32 (sn_worst_case_action_executions n) @ append_u32 (sn_static_bytes n) @
     append_list append_step (sn_steps n) @ append_list append_transition (sn_transitions n) @
     append_list append_action (sn_actions n) @ append_list append_block (sn_action_blocks n) @
     append_list append_parallel (sn_parallel_regions n)"

definition append_task :: "TaskInfo \<Rightarrow> bytes" where
  "append_task t = append_string (ti_name t) @ append_string (ti_lower t) @
     append_u8 (case ti_kind t of TK_periodic \<Rightarrow> 0 | TK_event \<Rightarrow> 1) @ append_string (ti_event t) @
     append_size (ti_interval_ticks t) @ append_size (ti_phase_ticks t) @ append_i32 (ti_priority t) @
     append_i64 (ti_instruction_budget t) @ append_u16 (ti_declaration_order t) @
     append_list append_u16 (ti_mappings t)"

definition append_mapping :: "ProgramMappingInfo \<Rightarrow> bytes" where
  "append_mapping m = append_string (pm_name m) @ append_string (pm_lower m) @
     append_string (pm_task m) @ append_string (pm_program m) @ append_u16 (pm_declaration_order m)"

definition append_resource :: "ResourceInfo \<Rightarrow> bytes" where
  "append_resource r = append_string (ri_name r) @ append_string (ri_lower r) @
     append_string (ri_target r) @ append_list append_task (ri_tasks r) @
     append_list append_mapping (ri_mappings r)"

definition append_configuration :: "ConfigurationInfo \<Rightarrow> bytes" where
  "append_configuration c = append_string (ci_name c) @ append_string (ci_lower c) @
     append_size (ci_base_tick_ns c) @ append_list append_resource (ci_resources c)"

text \<open>\<open>append_program\<close> up to the children.\<close>

definition append_body :: "program_body \<Rightarrow> bytes" where
  "append_body b = append_u32 (pb_format_version b) @ append_bytes (pb_code b) @
     append_list append_u32 (pb_instruction_offsets b) @ append_list append_word64 (pb_constants b) @
     append_bytes (pb_string_constants b) @ append_string (canonical_dump (pb_types b)) @
     append_list append_var (pb_vars b) @ append_process_image (pb_process_image b) @
     append_list append_fb (pb_fbs b) @ append_bytes (pb_initial_data b) @
     append_u16 (pb_stack_slots b) @ append_u32 (pb_vars_bytes b) @ append_u32 (pb_fb_bytes b) @
     append_u32 (pb_max_string_operation_cost b) @ append_u32 (pb_max_standard_function_cost b) @
     append_string (pb_program_name b) @ append_list append_pou (sort_key po_lower (pb_pous b)) @
     append_list append_instance (pb_instances b) @ append_u16 (pb_max_call_depth b) @
     append_u16 (pb_max_instance_depth b) @ append_flag (pb_worst_case_bounded b) @
     append_size (pb_worst_case_instructions b) @ append_u32 (pb_layout_bytes b) @
     append_u32 (pb_sfc_runtime_bytes b) @ append_list append_network (pb_sfc_networks b) @
     append_list append_configuration (pb_configurations b)"

definition append_program :: "Program \<Rightarrow> bool \<Rightarrow> bytes" where
  "append_program p include_children = append_body (body p) @
     (if include_children
      then append_list (\<lambda>c. append_body (body c) @ append_size 0) (sort_key program_name (programs p))
      else append_size 0)"

definition canonical_manifest :: "Program \<Rightarrow> bytes" where
  "canonical_manifest p = map char_byte ''L2BA'' @ append_u32 2 @ append_program p True"

definition canonical_sfc_report :: "Program \<Rightarrow> bytes" where
  "canonical_sfc_report p = map char_byte ''SFC6'' @ append_u32 1 @
     append_list (\<lambda>n. append_string (sn_lower n) @ append_u32 (sn_step_count n) @
       append_u32 (sn_reachable_step_count n) @ append_u32 (sn_max_parallel_active_steps n) @
       append_u32 (sn_worst_case_transition_evaluations n) @
       append_u32 (sn_worst_case_action_executions n) @ append_u32 (sn_static_bytes n))
     (pb_sfc_networks (body p))"


section \<open>Self-delimiting codes\<close>

definition prefix_code :: "('a \<Rightarrow> bool) \<Rightarrow> ('a \<Rightarrow> bytes) \<Rightarrow> bool" where
  "prefix_code A f \<longleftrightarrow> (\<forall>x y r r'. A x \<longrightarrow> A y \<longrightarrow> f x @ r = f y @ r' \<longrightarrow> x = y \<and> r = r')"

named_theorems codes

lemma prefix_codeD: "prefix_code A f \<Longrightarrow> A x \<Longrightarrow> A y \<Longrightarrow> f x @ r = f y @ r' \<longleftrightarrow> x = y \<and> r = r'"
  unfolding prefix_code_def by blast

lemma prefix_code_fixed:
  "(\<And>x. length (f x) = n) \<Longrightarrow> (\<And>x y. A x \<Longrightarrow> A y \<Longrightarrow> f x = f y \<Longrightarrow> x = y) \<Longrightarrow> prefix_code A f"
  unfolding prefix_code_def by (metis append_eq_append_conv)

lemma le_bytes_inj: "n \<le> 8 \<Longrightarrow> le_bytes n x = le_bytes n y \<Longrightarrow> take_bit (8 * n) x = take_bit (8 * n) y"
  by (metis le_value_le_bytes)

lemma word64_of_nat_inj: "x < 18446744073709551616 \<Longrightarrow> y < 18446744073709551616 \<Longrightarrow>
    (of_nat x :: u64) = of_nat y \<longleftrightarrow> x = y"
  by (metis unat_of_nat_small [where 'a = 64, simplified])

lemma append_nat_inj:
  assumes "n \<le> 8" "x < 2 ^ (8 * n)" "y < 2 ^ (8 * n)" "le_bytes n (of_nat x) = le_bytes n (of_nat y)"
  shows "x = y"
proof -
  have b: "(2 :: nat) ^ (8 * n) \<le> 2 ^ 64" using assms(1) by (intro power_increasing) auto
  from le_bytes_inj [OF assms(1,4)] have "(of_nat x :: u64) = of_nat y"
    using assms(2,3) by (simp add: take_bit_of_nat take_bit_nat_eq_self)
  moreover have "x < 18446744073709551616" "y < 18446744073709551616" using assms(2,3) b by simp_all
  ultimately show ?thesis by (simp add: word64_of_nat_inj)
qed

definition int_in :: "nat \<Rightarrow> int \<Rightarrow> bool" where
  "int_in w v \<longleftrightarrow> - (2 ^ (w - 1)) \<le> v \<and> v < 2 ^ (w - 1)"

lemma append_int_inj:
  assumes "0 < n" "n \<le> 8" "int_in (8 * n) x" "int_in (8 * n) y" "le_bytes n (of_int x) = le_bytes n (of_int y)"
  shows "x = y"
proof -
  have t: "uint (take_bit (8 * n) (of_int z :: u64)) = take_bit (8 * n) z" for z
    using assms(2) by (simp add: unsigned_take_bit_eq uint_word_of_int_eq take_bit_take_bit min_def)
  from le_bytes_inj [OF assms(2,5)] have "take_bit (8 * n) x = take_bit (8 * n) y" by (metis t)
  moreover have "signed_take_bit (8 * n - 1) z = z" if "int_in (8 * n) z" for z
    using that by (intro signed_take_bit_int_eq_self) (simp_all add: int_in_def)
  moreover have "signed_take_bit (8 * n - 1) z = signed_take_bit (8 * n - 1) (take_bit (8 * n) z)" for z :: int
  proof -
    have "\<not> 8 * n \<le> 8 * n - 1" using assms(1) by linarith
    then show ?thesis by (simp add: signed_take_bit_take_bit)
  qed
  ultimately show ?thesis using assms(3,4) by metis
qed

abbreviation u8_in :: "nat \<Rightarrow> bool" where "u8_in v \<equiv> v < 256"
abbreviation u16_in :: "nat \<Rightarrow> bool" where "u16_in v \<equiv> v < 65536"
abbreviation u32_in :: "nat \<Rightarrow> bool" where "u32_in v \<equiv> v < 4294967296"
abbreviation u64_in :: "nat \<Rightarrow> bool" where "u64_in v \<equiv> v < 18446744073709551616"

lemma code_u8: "prefix_code u8_in append_u8"
proof (rule prefix_code_fixed [where n = 1])
  fix x y :: nat assume "u8_in x" "u8_in y" "append_u8 x = append_u8 y"
  then show "x = y"
    unfolding append_u8_def list.inject by (metis unat_of_nat_small [where 'a = 8, simplified])
qed (simp add: append_u8_def)

lemma code_u16: "prefix_code u16_in append_u16"
  by (rule prefix_code_fixed [where n = 2]) (use append_nat_inj [of 2] in \<open>simp_all add: append_u16_def\<close>)

lemma code_u32: "prefix_code u32_in append_u32"
  by (rule prefix_code_fixed [where n = 4]) (use append_nat_inj [of 4] in \<open>simp_all add: append_u32_def\<close>)

lemma code_word64: "prefix_code (\<lambda>_. True) append_word64"
  by (rule prefix_code_fixed [where n = 8]) (simp_all add: append_word64_def, metis le_value_le_bytes_8)

lemma code_size: "prefix_code u64_in append_size"
  unfolding prefix_code_def append_size_def
  using prefix_codeD [OF code_word64 TrueI TrueI] word64_of_nat_inj by metis

lemma code_i32: "prefix_code (int_in 32) append_i32"
  by (rule prefix_code_fixed [where n = 4]) (use append_int_inj [of 4] in \<open>simp_all add: append_i32_def\<close>)

lemma code_i64: "prefix_code (int_in 64) append_i64"
  by (rule prefix_code_fixed [where n = 8]) (use append_int_inj [of 8] in \<open>simp_all add: append_i64_def\<close>)

lemma code_flag: "prefix_code (\<lambda>_. True) append_flag"
  by (auto simp: prefix_code_def append_flag_def append_u8_def split: if_splits)

lemma code_bytes: "prefix_code (\<lambda>bs. u64_in (length bs)) append_bytes"
  using prefix_codeD [OF code_size] by (auto simp: prefix_code_def append_bytes_def)

lemma char_byte_inj: "char_byte c = char_byte d \<longleftrightarrow> c = d"
proof
  have u: "unat (char_byte x) = of_char x" for x
    unfolding char_byte_def by (rule unat_of_nat_small) simp
  assume "char_byte c = char_byte d"
  then have "(of_char c :: nat) = of_char d" using u by metis
  then show "c = d" by simp
qed simp

lemma code_string: "prefix_code (\<lambda>s. u64_in (length s)) append_string"
proof -
  have i: "inj char_byte" by (rule injI) (simp add: char_byte_inj)
  show ?thesis
    using prefix_codeD [OF code_bytes] inj_map_eq_map [OF i]
    by (auto simp: prefix_code_def append_string_def)
qed

lemma code_items:
  assumes "prefix_code A f"
  shows "list_all A xs \<Longrightarrow> list_all A ys \<Longrightarrow> length xs = length ys \<Longrightarrow>
    concat (map f xs) @ r = concat (map f ys) @ r' \<Longrightarrow> xs = ys \<and> r = r'"
proof (induction xs arbitrary: ys)
  case Nil
  then show ?case by simp
next
  case (Cons x xs)
  then obtain y ys' where ys: "ys = y # ys'" by (cases ys) auto
  have "x = y \<and> concat (map f xs) @ r = concat (map f ys') @ r'"
    using Cons.prems prefix_codeD [OF assms, of x y "concat (map f xs) @ r" "concat (map f ys') @ r'"]
    by (simp add: ys)
  then show ?case using Cons.IH [of ys'] Cons.prems by (simp add: ys)
qed

definition list_in :: "('a \<Rightarrow> bool) \<Rightarrow> 'a list \<Rightarrow> bool" where
  "list_in A xs \<longleftrightarrow> u64_in (length xs) \<and> list_all A xs"

lemma code_list:
  assumes "prefix_code A f"
  shows "prefix_code (list_in A) (append_list f)"
  unfolding prefix_code_def
proof (intro allI impI)
  fix xs ys r r'
  assume a: "list_in A xs" "list_in A ys" "append_list f xs @ r = append_list f ys @ r'"
  then have "length xs = length ys \<and> concat (map f xs) @ r = concat (map f ys) @ r'"
    using prefix_codeD [OF code_size, of "length xs" "length ys"] by (simp add: append_list_def list_in_def)
  with a code_items [OF assms] show "xs = ys \<and> r = r'" unfolding list_in_def by blast
qed

lemma type_list_all: "ty \<in> set type_list"
  by (cases ty) (simp_all add: type_list_def)

lemma type_code_nth: "type_code ty < length type_list \<and> type_list ! type_code ty = ty"
proof -
  obtain i where "index_where (\<lambda>x. x = ty) type_list = Some i"
    using type_list_all by (cases "index_where (\<lambda>x. x = ty) type_list") (auto simp: index_where_none)
  then show ?thesis using index_where_some [of "\<lambda>x. x = ty" type_list i] by (simp add: type_code_def)
qed

lemma type_code_inj: "type_code a = type_code b \<longleftrightarrow> a = b"
  by (metis type_code_nth)

lemma type_code_small: "u8_in (type_code ty)"
  using type_code_nth [of ty] by (simp add: type_list_def)

lemma area_code_inj: "area_code a = area_code b \<longleftrightarrow> a = b"
  by (cases a; cases b) (simp_all add: area_code_def)

lemma area_code_small: "u8_in (area_code a)"
  by (cases a) (simp_all add: area_code_def)

lemmas code_iffs = code_u8 [THEN prefix_codeD] code_u16 [THEN prefix_codeD] code_u32 [THEN prefix_codeD]
  code_word64 [THEN prefix_codeD, OF TrueI TrueI] code_size [THEN prefix_codeD]
  code_i32 [THEN prefix_codeD] code_i64 [THEN prefix_codeD]
  code_flag [THEN prefix_codeD, OF TrueI TrueI] code_bytes [THEN prefix_codeD]
  code_string [THEN prefix_codeD] type_code_inj type_code_small area_code_inj area_code_small


section \<open>Representable artifacts\<close>

text \<open>\<open>X_in\<close>: every member of the model's record fits the width of the C++ member it stands for.\<close>

definition region_in :: "SfcRegionInfo \<Rightarrow> bool" where
  "region_in r \<longleftrightarrow> u64_in (length (rg_code r)) \<and>
     list_in (u32_in) (rg_instruction_offsets r) \<and>
     list_in (\<lambda>_. True) (rg_constants r) \<and>
     u16_in (rg_stack_slots r) \<and>
     u64_in (rg_worst_case_instructions r) \<and>
     u32_in (rg_result_offset r)"

definition var_in :: "VarInfo \<Rightarrow> bool" where
  "var_in v \<longleftrightarrow> u64_in (length (vi_name v)) \<and>
     u64_in (length (vi_lower v)) \<and>
     u32_in (vi_type_id v) \<and>
     u32_in (vi_offset v) \<and>
     u32_in (vi_initial_length v)"

definition located_in :: "LocatedVarInfo \<Rightarrow> bool" where
  "located_in v \<longleftrightarrow> u64_in (length (lv_name v)) \<and>
     u64_in (length (lv_lower v)) \<and>
     u32_in (lv_type_id v) \<and>
     u32_in (lv_byte_offset v) \<and>
     u32_in (lv_var_offset v) \<and>
     u8_in (lv_byte_width v) \<and>
     u8_in (lv_bit v)"

definition process_image_in :: "ProcessImageInfo \<Rightarrow> bool" where
  "process_image_in i \<longleftrightarrow> list_in (located_in) (pi_variables i) \<and>
     u32_in (pi_input_bytes i) \<and>
     u32_in (pi_output_bytes i) \<and>
     u32_in (pi_memory_bytes i) \<and>
     u16_in (pi_max_force_entries i) \<and>
     u16_in (pi_retain_entries i)"

definition fb_in :: "FbInfo \<Rightarrow> bool" where
  "fb_in f \<longleftrightarrow> u64_in (length (fb_name f)) \<and>
     u64_in (length (fb_lower f)) \<and>
     u16_in (fb_type f) \<and>
     u32_in (fb_offset f)"

definition pou_in :: "PouInfo \<Rightarrow> bool" where
  "pou_in p \<longleftrightarrow> u64_in (length (po_name p)) \<and>
     u64_in (length (po_lower p)) \<and>
     u32_in (po_frame_bytes p) \<and>
     u64_in (po_worst_case_instructions p)"

definition instance_in :: "InstanceInfo \<Rightarrow> bool" where
  "instance_in i \<longleftrightarrow> u64_in (length (in_name i)) \<and>
     u64_in (length (in_lower i)) \<and>
     u32_in (in_offset i) \<and>
     u32_in (in_bytes i)"

definition step_in :: "SfcStepInfo \<Rightarrow> bool" where
  "step_in s \<longleftrightarrow> u64_in (length (ss_name s)) \<and>
     u64_in (length (ss_lower s)) \<and>
     int_in 32 (ss_line s) \<and>
     int_in 32 (ss_column s) \<and>
     int_in 32 (ss_end_line s) \<and>
     int_in 32 (ss_end_column s)"

definition transition_in :: "SfcTransitionInfo \<Rightarrow> bool" where
  "transition_in t \<longleftrightarrow> list_in (u16_in) (sx_sources t) \<and>
     list_in (u16_in) (sx_targets t) \<and>
     int_in 32 (sx_line t) \<and>
     int_in 32 (sx_column t) \<and>
     int_in 32 (sx_end_line t) \<and>
     int_in 32 (sx_end_column t) \<and>
     region_in (sx_condition t)"

definition action_in :: "SfcActionInfo \<Rightarrow> bool" where
  "action_in a \<longleftrightarrow> u64_in (length (sa_name a)) \<and>
     u64_in (length (sa_lower a)) \<and>
     int_in 32 (sa_line a) \<and>
     int_in 32 (sa_column a) \<and>
     int_in 32 (sa_end_line a) \<and>
     int_in 32 (sa_end_column a) \<and>
     region_in (sa_region a)"

definition block_in :: "SfcActionBlockInfo \<Rightarrow> bool" where
  "block_in b \<longleftrightarrow> u16_in (sb_step b) \<and>
     u16_in (sb_action b) \<and>
     u8_in (sb_qualifier b) \<and>
     int_in 64 (sb_duration_ns b) \<and>
     int_in 32 (sb_line b) \<and>
     int_in 32 (sb_column b) \<and>
     int_in 32 (sb_end_line b) \<and>
     int_in 32 (sb_end_column b)"

definition parallel_in :: "SfcParallelRegionInfo \<Rightarrow> bool" where
  "parallel_in r \<longleftrightarrow> u16_in (pr_divergence_transition r) \<and>
     u16_in (pr_convergence_transition r) \<and>
     list_in (u16_in) (pr_branch_entries r) \<and>
     list_in (u16_in) (pr_branch_exits r)"

definition network_in :: "SfcNetworkInfo \<Rightarrow> bool" where
  "network_in n \<longleftrightarrow> u64_in (length (sn_name n)) \<and>
     u64_in (length (sn_lower n)) \<and>
     u32_in (sn_runtime_offset n) \<and>
     u32_in (sn_committed_active_offset n) \<and>
     u32_in (sn_staged_active_offset n) \<and>
     u32_in (sn_shadow_active_offset n) \<and>
     u32_in (sn_firing_offset n) \<and>
     u32_in (sn_committed_block_offset n) \<and>
     u32_in (sn_staged_block_offset n) \<and>
     u32_in (sn_shadow_block_offset n) \<and>
     u32_in (sn_committed_action_offset n) \<and>
     u32_in (sn_staged_action_offset n) \<and>
     u32_in (sn_shadow_action_offset n) \<and>
     u32_in (sn_direct_action_offset n) \<and>
     u32_in (sn_step_count n) \<and>
     u32_in (sn_reachable_step_count n) \<and>
     u32_in (sn_max_parallel_active_steps n) \<and>
     u32_in (sn_worst_case_transition_evaluations n) \<and>
     u32_in (sn_worst_case_action_executions n) \<and>
     u32_in (sn_static_bytes n) \<and>
     list_in (step_in) (sn_steps n) \<and>
     list_in (transition_in) (sn_transitions n) \<and>
     list_in (action_in) (sn_actions n) \<and>
     list_in (block_in) (sn_action_blocks n) \<and>
     list_in (parallel_in) (sn_parallel_regions n)"

definition task_in :: "TaskInfo \<Rightarrow> bool" where
  "task_in t \<longleftrightarrow> u64_in (length (ti_name t)) \<and>
     u64_in (length (ti_lower t)) \<and>
     u64_in (length (ti_event t)) \<and>
     u64_in (ti_interval_ticks t) \<and>
     u64_in (ti_phase_ticks t) \<and>
     int_in 32 (ti_priority t) \<and>
     int_in 64 (ti_instruction_budget t) \<and>
     u16_in (ti_declaration_order t) \<and>
     list_in (u16_in) (ti_mappings t)"

definition mapping_in :: "ProgramMappingInfo \<Rightarrow> bool" where
  "mapping_in m \<longleftrightarrow> u64_in (length (pm_name m)) \<and>
     u64_in (length (pm_lower m)) \<and>
     u64_in (length (pm_task m)) \<and>
     u64_in (length (pm_program m)) \<and>
     u16_in (pm_declaration_order m)"

definition resource_in :: "ResourceInfo \<Rightarrow> bool" where
  "resource_in r \<longleftrightarrow> u64_in (length (ri_name r)) \<and>
     u64_in (length (ri_lower r)) \<and>
     u64_in (length (ri_target r)) \<and>
     list_in (task_in) (ri_tasks r) \<and>
     list_in (mapping_in) (ri_mappings r)"

definition configuration_in :: "ConfigurationInfo \<Rightarrow> bool" where
  "configuration_in c \<longleftrightarrow> u64_in (length (ci_name c)) \<and>
     u64_in (length (ci_lower c)) \<and>
     u64_in (ci_base_tick_ns c) \<and>
     list_in (resource_in) (ci_resources c)"


section \<open>Every record is self-delimiting\<close>

text \<open>The members of the tasking records that the manifest leaves out are the source offsets.\<close>

definition erase_task :: "TaskInfo \<Rightarrow> TaskInfo" where "erase_task t = t\<lparr> ti_source_offset := 0 \<rparr>"
definition erase_mapping :: "ProgramMappingInfo \<Rightarrow> ProgramMappingInfo" where
  "erase_mapping m = m\<lparr> pm_source_offset := 0 \<rparr>"

definition erase_resource :: "ResourceInfo \<Rightarrow> ResourceInfo" where
  "erase_resource r = r\<lparr> ri_source_offset := 0, ri_tasks := map erase_task (ri_tasks r),
     ri_mappings := map erase_mapping (ri_mappings r) \<rparr>"

definition erase_configuration :: "ConfigurationInfo \<Rightarrow> ConfigurationInfo" where
  "erase_configuration c = c\<lparr> ci_source_offset := 0, ci_resources := map erase_resource (ci_resources c) \<rparr>"

lemmas scalar_lists = code_u16 [THEN code_list, THEN prefix_codeD] code_u32 [THEN code_list, THEN prefix_codeD]
  code_word64 [THEN code_list, THEN prefix_codeD]

lemma code_region: "prefix_code region_in append_sfc_region"
  unfolding prefix_code_def
proof (intro allI impI)
  fix x y r r' assume "region_in x" "region_in y" "append_sfc_region x @ r = append_sfc_region y @ r'"
  then show "x = y \<and> r = r'"
    by (cases x; cases y) (simp add: region_in_def append_sfc_region_def code_iffs scalar_lists )
qed

lemma code_var: "prefix_code var_in append_var"
  unfolding prefix_code_def
proof (intro allI impI)
  fix x y r r' assume "var_in x" "var_in y" "append_var x @ r = append_var y @ r'"
  then show "x = y \<and> r = r'"
    by (cases x; cases y) (simp add: var_in_def append_var_def code_iffs scalar_lists )
qed

lemma code_located: "prefix_code located_in append_located"
  unfolding prefix_code_def
proof (intro allI impI)
  fix x y r r' assume "located_in x" "located_in y" "append_located x @ r = append_located y @ r'"
  then show "x = y \<and> r = r'"
    by (cases x; cases y) (simp add: located_in_def append_located_def code_iffs scalar_lists )
qed

lemma code_process_image: "prefix_code process_image_in append_process_image"
  unfolding prefix_code_def
proof (intro allI impI)
  fix x y r r' assume "process_image_in x" "process_image_in y" "append_process_image x @ r = append_process_image y @ r'"
  then show "x = y \<and> r = r'"
    by (cases x; cases y) (simp add: process_image_in_def append_process_image_def code_iffs scalar_lists code_located [THEN code_list, THEN prefix_codeD])
qed

lemma code_fb: "prefix_code fb_in append_fb"
  unfolding prefix_code_def
proof (intro allI impI)
  fix x y r r' assume "fb_in x" "fb_in y" "append_fb x @ r = append_fb y @ r'"
  then show "x = y \<and> r = r'"
    by (cases x; cases y) (simp add: fb_in_def append_fb_def code_iffs scalar_lists )
qed

lemma code_pou: "prefix_code pou_in append_pou"
  unfolding prefix_code_def
proof (intro allI impI)
  fix x y r r' assume "pou_in x" "pou_in y" "append_pou x @ r = append_pou y @ r'"
  then show "x = y \<and> r = r'"
    by (cases x; cases y) (simp add: pou_in_def append_pou_def code_iffs scalar_lists )
qed

lemma code_instance: "prefix_code instance_in append_instance"
  unfolding prefix_code_def
proof (intro allI impI)
  fix x y r r' assume "instance_in x" "instance_in y" "append_instance x @ r = append_instance y @ r'"
  then show "x = y \<and> r = r'"
    by (cases x; cases y) (simp add: instance_in_def append_instance_def code_iffs scalar_lists )
qed

lemma code_step: "prefix_code step_in append_step"
  unfolding prefix_code_def
proof (intro allI impI)
  fix x y r r' assume "step_in x" "step_in y" "append_step x @ r = append_step y @ r'"
  then show "x = y \<and> r = r'"
    by (cases x; cases y) (simp add: step_in_def append_step_def code_iffs scalar_lists )
qed

lemma code_transition: "prefix_code transition_in append_transition"
  unfolding prefix_code_def
proof (intro allI impI)
  fix x y r r' assume "transition_in x" "transition_in y" "append_transition x @ r = append_transition y @ r'"
  then show "x = y \<and> r = r'"
    by (cases x; cases y) (simp add: transition_in_def append_transition_def code_iffs scalar_lists code_region [THEN prefix_codeD])
qed

lemma code_action: "prefix_code action_in append_action"
  unfolding prefix_code_def
proof (intro allI impI)
  fix x y r r' assume "action_in x" "action_in y" "append_action x @ r = append_action y @ r'"
  then show "x = y \<and> r = r'"
    by (cases x; cases y) (simp add: action_in_def append_action_def code_iffs scalar_lists code_region [THEN prefix_codeD])
qed

lemma code_block: "prefix_code block_in append_block"
  unfolding prefix_code_def
proof (intro allI impI)
  fix x y r r' assume "block_in x" "block_in y" "append_block x @ r = append_block y @ r'"
  then show "x = y \<and> r = r'"
    by (cases x; cases y) (simp add: block_in_def append_block_def code_iffs scalar_lists )
qed

lemma code_parallel: "prefix_code parallel_in append_parallel"
  unfolding prefix_code_def
proof (intro allI impI)
  fix x y r r' assume "parallel_in x" "parallel_in y" "append_parallel x @ r = append_parallel y @ r'"
  then show "x = y \<and> r = r'"
    by (cases x; cases y) (simp add: parallel_in_def append_parallel_def code_iffs scalar_lists )
qed

lemma code_network: "prefix_code network_in append_network"
  unfolding prefix_code_def
proof (intro allI impI)
  fix x y r r' assume "network_in x" "network_in y" "append_network x @ r = append_network y @ r'"
  then show "x = y \<and> r = r'"
    by (cases x; cases y) (simp add: network_in_def append_network_def code_iffs scalar_lists code_step [THEN code_list, THEN prefix_codeD] code_transition [THEN code_list, THEN prefix_codeD] code_action [THEN code_list, THEN prefix_codeD] code_block [THEN code_list, THEN prefix_codeD] code_parallel [THEN code_list, THEN prefix_codeD])
qed


text \<open>\<open>coded A e f\<close>: what \<open>f\<close> appends determines \<open>e x\<close> and where it ends.\<close>

definition coded :: "('a \<Rightarrow> bool) \<Rightarrow> ('a \<Rightarrow> 'b) \<Rightarrow> ('a \<Rightarrow> bytes) \<Rightarrow> bool" where
  "coded A e f \<longleftrightarrow> (\<forall>x y r r'. A x \<longrightarrow> A y \<longrightarrow> f x @ r = f y @ r' \<longrightarrow> e x = e y \<and> r = r')"

lemma codedD: "coded A e f \<Longrightarrow> A x \<Longrightarrow> A y \<Longrightarrow> f x @ r = f y @ r' \<Longrightarrow> e x = e y \<and> r = r'"
  unfolding coded_def by blast

lemma coded_items:
  assumes "coded A e f"
  shows "list_all A xs \<Longrightarrow> list_all A ys \<Longrightarrow> length xs = length ys \<Longrightarrow>
    concat (map f xs) @ r = concat (map f ys) @ r' \<Longrightarrow> map e xs = map e ys \<and> r = r'"
proof (induction xs arbitrary: ys)
  case Nil
  then show ?case by simp
next
  case (Cons x xs)
  then obtain y ys' where ys: "ys = y # ys'" by (cases ys) auto
  have "e x = e y \<and> concat (map f xs) @ r = concat (map f ys') @ r'"
    using Cons.prems by (intro codedD [OF assms]) (simp_all add: ys)
  then show ?case using Cons.IH [of ys'] Cons.prems by (simp add: ys)
qed

lemma coded_list:
  assumes "coded A e f"
  shows "coded (list_in A) (map e) (append_list f)"
  unfolding coded_def
proof (intro allI impI)
  fix xs ys r r'
  assume a: "list_in A xs" "list_in A ys" "append_list f xs @ r = append_list f ys @ r'"
  then have "length xs = length ys \<and> concat (map f xs) @ r = concat (map f ys) @ r'"
    using prefix_codeD [OF code_size, of "length xs" "length ys"] by (simp add: append_list_def list_in_def)
  with a coded_items [OF assms] show "map e xs = map e ys \<and> r = r'" unfolding list_in_def by blast
qed

lemma coded_task: "coded task_in erase_task append_task"
  unfolding coded_def
proof (intro allI impI)
  fix x y r r' assume "task_in x" "task_in y" "append_task x @ r = append_task y @ r'"
  then show "erase_task x = erase_task y \<and> r = r'"
    by (cases x; cases y) (simp add: task_in_def append_task_def erase_task_def code_iffs scalar_lists
      split: TaskKind.splits)
qed

lemma coded_mapping: "coded mapping_in erase_mapping append_mapping"
  unfolding coded_def
proof (intro allI impI)
  fix x y r r' assume "mapping_in x" "mapping_in y" "append_mapping x @ r = append_mapping y @ r'"
  then show "erase_mapping x = erase_mapping y \<and> r = r'"
    by (cases x; cases y) (simp add: mapping_in_def append_mapping_def erase_mapping_def code_iffs)
qed

lemma coded_resource: "coded resource_in erase_resource append_resource"
  unfolding coded_def
proof (intro allI impI)
  fix x y r r' assume a: "resource_in x" "resource_in y" "append_resource x @ r = append_resource y @ r'"
  then have s: "ri_name x = ri_name y" "ri_lower x = ri_lower y" "ri_target x = ri_target y"
    and l: "append_list append_task (ri_tasks x) @ append_list append_mapping (ri_mappings x) @ r =
      append_list append_task (ri_tasks y) @ append_list append_mapping (ri_mappings y) @ r'"
    by (simp_all add: resource_in_def append_resource_def code_iffs)
  have "map erase_task (ri_tasks x) = map erase_task (ri_tasks y) \<and>
      append_list append_mapping (ri_mappings x) @ r = append_list append_mapping (ri_mappings y) @ r'"
    using a(1,2) by (intro codedD [OF coded_list [OF coded_task] _ _ l]) (simp_all add: resource_in_def)
  moreover from this a(1,2) have "map erase_mapping (ri_mappings x) = map erase_mapping (ri_mappings y) \<and> r = r'"
    by (intro codedD [OF coded_list [OF coded_mapping]]) (simp_all add: resource_in_def)
  ultimately show "erase_resource x = erase_resource y \<and> r = r'"
    using s by (simp add: erase_resource_def)
qed

lemma coded_configuration: "coded configuration_in erase_configuration append_configuration"
  unfolding coded_def
proof (intro allI impI)
  fix x y r r'
  assume a: "configuration_in x" "configuration_in y" "append_configuration x @ r = append_configuration y @ r'"
  then have s: "ci_name x = ci_name y" "ci_lower x = ci_lower y" "ci_base_tick_ns x = ci_base_tick_ns y"
    and l: "append_list append_resource (ci_resources x) @ r = append_list append_resource (ci_resources y) @ r'"
    by (simp_all add: configuration_in_def append_configuration_def code_iffs)
  have "map erase_resource (ci_resources x) = map erase_resource (ci_resources y) \<and> r = r'"
    using a(1,2) by (intro codedD [OF coded_list [OF coded_resource] _ _ l]) (simp_all add: configuration_in_def)
  with s show "erase_configuration x = erase_configuration y \<and> r = r'"
    by (simp add: erase_configuration_def)
qed


section \<open>The manifest identifies the artifact\<close>

text \<open>What the manifest covers of a program: everything but the type table (of which it holds the
  canonical dump), the symbol table, the debug flag and the source offsets, and the POUs by name.\<close>

definition erase_body :: "program_body \<Rightarrow> program_body" where
  "erase_body b = b\<lparr> pb_types := [], pb_pous := sort_key po_lower (pb_pous b),
     pb_configurations := map erase_configuration (pb_configurations b), pb_debug_enabled := False,
     pb_symbols := [] \<rparr>"

definition covered :: "program_body \<Rightarrow> program_body \<times> string" where
  "covered b = (erase_body b, canonical_dump (pb_types b))"

definition body_in :: "program_body \<Rightarrow> bool" where
  "body_in b \<longleftrightarrow> u32_in (pb_format_version b) \<and> u64_in (length (pb_code b)) \<and>
     list_in u32_in (pb_instruction_offsets b) \<and> list_in (\<lambda>_. True) (pb_constants b) \<and>
     u64_in (length (pb_string_constants b)) \<and> u64_in (length (canonical_dump (pb_types b))) \<and>
     list_in var_in (pb_vars b) \<and> process_image_in (pb_process_image b) \<and> list_in fb_in (pb_fbs b) \<and>
     u64_in (length (pb_initial_data b)) \<and> u16_in (pb_stack_slots b) \<and> u32_in (pb_vars_bytes b) \<and>
     u32_in (pb_fb_bytes b) \<and> u32_in (pb_max_string_operation_cost b) \<and>
     u32_in (pb_max_standard_function_cost b) \<and> u64_in (length (pb_program_name b)) \<and>
     list_in pou_in (pb_pous b) \<and> list_in instance_in (pb_instances b) \<and>
     u16_in (pb_max_call_depth b) \<and> u16_in (pb_max_instance_depth b) \<and>
     u64_in (pb_worst_case_instructions b) \<and> u32_in (pb_layout_bytes b) \<and>
     u32_in (pb_sfc_runtime_bytes b) \<and> list_in network_in (pb_sfc_networks b) \<and>
     list_in configuration_in (pb_configurations b)"

lemma list_in_sort_key [simp]: "list_in A (sort_key k xs) = list_in A xs"
  by (simp add: list_in_def list_all_iff)

lemmas record_lists = code_var [THEN code_list, THEN prefix_codeD] code_fb [THEN code_list, THEN prefix_codeD]
  code_pou [THEN code_list, THEN prefix_codeD] code_instance [THEN code_list, THEN prefix_codeD]
  code_network [THEN code_list, THEN prefix_codeD] code_process_image [THEN prefix_codeD]

lemma coded_body: "coded body_in covered append_body"
  unfolding coded_def
proof (intro allI impI)
  fix x y r r' assume a: "body_in x" "body_in y" "append_body x @ r = append_body y @ r'"
  have c: "append_list append_configuration (pb_configurations x) @ r =
      append_list append_configuration (pb_configurations y) @ r'"
    using a by (simp add: body_in_def append_body_def code_iffs scalar_lists record_lists)
  have "map erase_configuration (pb_configurations x) = map erase_configuration (pb_configurations y) \<and> r = r'"
    using a(1,2) by (intro codedD [OF coded_list [OF coded_configuration] _ _ c]) (simp_all add: body_in_def)
  with a show "covered x = covered y \<and> r = r'"
    by (cases x; cases y) (simp add: body_in_def append_body_def code_iffs scalar_lists record_lists
      covered_def erase_body_def)
qed

lemma coded_child: "coded (\<lambda>p. body_in (body p)) (\<lambda>p. covered (body p)) (\<lambda>p. append_body (body p) @ append_size 0)"
  unfolding coded_def
proof (intro allI impI)
  fix x y r r'
  assume a: "body_in (body x)" "body_in (body y)"
    "(append_body (body x) @ append_size 0) @ r = (append_body (body y) @ append_size 0) @ r'"
  then have "append_body (body x) @ (append_size 0 @ r) = append_body (body y) @ (append_size 0 @ r')" by simp
  from codedD [OF coded_body a(1,2) this]
  show "covered (body x) = covered (body y) \<and> r = r'" by simp
qed

definition artifact_in :: "Program \<Rightarrow> bool" where
  "artifact_in p \<longleftrightarrow> body_in (body p) \<and> list_in (\<lambda>c. body_in (body c)) (programs p)"

lemma manifest_determines:
  assumes "artifact_in p" "artifact_in q" and eq: "canonical_manifest p = canonical_manifest q"
  shows "covered (body p) = covered (body q)"
    and "map (\<lambda>c. covered (body c)) (sort_key program_name (programs p)) =
      map (\<lambda>c. covered (body c)) (sort_key program_name (programs q))"
proof -
  let ?kids = "\<lambda>p. append_list (\<lambda>c. append_body (body c) @ append_size 0) (sort_key program_name (programs p))"
  from eq have e: "append_body (body p) @ ?kids p = append_body (body q) @ ?kids q"
    by (simp add: canonical_manifest_def append_program_def)
  have b: "covered (body p) = covered (body q) \<and> ?kids p = ?kids q"
    using assms(1,2) by (intro codedD [OF coded_body _ _ e]) (simp_all add: artifact_in_def)
  then show "covered (body p) = covered (body q)" by simp
  from b have "?kids p @ [] = ?kids q @ []" by simp
  from codedD [OF coded_list [OF coded_child] _ _ this]
  show "map (\<lambda>c. covered (body c)) (sort_key program_name (programs p)) =
      map (\<lambda>c. covered (body c)) (sort_key program_name (programs q))"
    using assms(1,2) by (simp add: artifact_in_def)
qed

text \<open>The other way: the order in which POUs and children were compiled does not show, as long as
  their names are distinct.\<close>

lemma sort_key_set:
  assumes "set xs = set ys" "distinct (map k xs)" "distinct (map k ys)"
  shows "sort_key k xs = sort_key k ys"
proof (rule map_sorted_distinct_set_unique)
  show "inj_on k (set (sort_key k xs) \<union> set (sort_key k ys))"
    using assms by (simp add: distinct_map)
  show "distinct (map k (sort_key k xs))" "distinct (map k (sort_key k ys))"
    using assms by (simp_all add: distinct_map)
qed (use assms in simp_all)

lemma manifest_order:
  assumes pous: "set (pb_pous b) = set ps" "distinct (map po_lower (pb_pous b))" "distinct (map po_lower ps)"
    and kids: "set cs = set ds" "distinct (map program_name cs)" "distinct (map program_name ds)"
  shows "canonical_manifest (Program b cs) = canonical_manifest (Program (b\<lparr> pb_pous := ps \<rparr>) ds)"
proof -
  have "append_body (b\<lparr> pb_pous := ps \<rparr>) = append_body b"
    using sort_key_set [OF pous] by (simp add: append_body_def)
  with sort_key_set [OF kids] show ?thesis by (simp add: canonical_manifest_def append_program_def)
qed

lemma empty_artifact_in: "artifact_in empty_program"
proof -
  have "u64_in (length (canonical_dump []))"
    by (simp add: canonical_dump_def builtin_types_def make_builtin_def default_desc_def append_dump_def newline_def append_u64.simps)
  then show ?thesis
    by (simp add: artifact_in_def body_in_def empty_program_def empty_body_def empty_image_def list_in_def
        process_image_in_def bytecode_format_version_def)
qed

end
