(* ===== verification/FbBase.thy ===== *)
theory FbBase
  imports RtError
begin

text \<open>
  The output protocols shared by the motion function blocks (\<open>core/fb/base.h\<close>): the \<open>Execute\<close> latch
  with its done/busy/aborted/error outputs, the \<open>Enable\<close> read protocols and the once-only
  synchronisation pulse. Private members are fields like the public ones.
\<close>

datatype ExecuteStep = ES_busy | ES_done | ES_aborted | ES_error

record ExecuteLatch =
  xl_done :: bool
  xl_busy :: bool
  xl_active :: bool
  xl_command_aborted :: bool
  xl_error :: bool
  xl_error_id :: ErrorCode
  xl_was_execute :: bool

definition execute_init :: ExecuteLatch where
  "execute_init = \<lparr> xl_done = False, xl_busy = False, xl_active = False, xl_command_aborted = False,
     xl_error = False, xl_error_id = EC_ok, xl_was_execute = False \<rparr>"

definition execute_apply :: "ExecuteLatch \<Rightarrow> ExecuteStep \<Rightarrow> ErrorCode \<Rightarrow> ExecuteLatch" where
  "execute_apply s step step_error =
     (let s1 = s\<lparr> xl_done := False, xl_command_aborted := False, xl_error := False, xl_error_id := EC_ok \<rparr>
      in case step of
           ES_busy \<Rightarrow> s1\<lparr> xl_busy := True, xl_active := True \<rparr>
         | ES_done \<Rightarrow> s1\<lparr> xl_done := True, xl_busy := False, xl_active := False \<rparr>
         | ES_aborted \<Rightarrow> s1\<lparr> xl_command_aborted := True, xl_busy := False, xl_active := False \<rparr>
         | ES_error \<Rightarrow> s1\<lparr> xl_error := True,
             xl_error_id := (if step_error = EC_ok then EC_invalid_argument else step_error),
             xl_busy := False, xl_active := False \<rparr>)"

definition execute_cycle :: "ExecuteLatch \<Rightarrow> bool \<Rightarrow> ExecuteStep \<Rightarrow> ErrorCode \<Rightarrow> ExecuteLatch" where
  "execute_cycle s execute step step_error =
     (if \<not> execute then execute_init
      else let s1 = (if \<not> xl_was_execute s \<or> xl_busy s \<or> xl_active s
             then execute_apply s step step_error else s)
        in s1\<lparr> xl_was_execute := True \<rparr>)"

record ReadInfoLatch =
  ril_valid :: bool
  ril_busy :: bool
  ril_error :: bool
  ril_error_id :: ErrorCode

definition read_info_cycle :: "ReadInfoLatch \<Rightarrow> bool \<Rightarrow> bool \<Rightarrow> ErrorCode \<Rightarrow> ReadInfoLatch" where
  "read_info_cycle s enable source_valid source_error =
     (if \<not> enable
      then \<lparr> ril_valid = False, ril_busy = False, ril_error = False, ril_error_id = EC_ok \<rparr>
      else \<lparr> ril_valid = (source_valid \<and> source_error = EC_ok), ril_busy = False,
             ril_error = (source_error \<noteq> EC_ok), ril_error_id = source_error \<rparr>)"

record EnableReadFb =
  er_enable :: bool
  er_valid :: bool
  er_busy :: bool
  er_error :: bool
  er_error_id :: ErrorCode
  er_error_latched :: bool
  er_latched_error :: ErrorCode

definition enable_init :: EnableReadFb where
  "enable_init = \<lparr> er_enable = False, er_valid = False, er_busy = False, er_error = False,
     er_error_id = EC_ok, er_error_latched = False, er_latched_error = EC_ok \<rparr>"

definition begin_enable :: "EnableReadFb \<Rightarrow> EnableReadFb \<times> bool" where
  "begin_enable s =
     (if \<not> er_enable s
      then (s\<lparr> er_valid := False, er_busy := False, er_error := False, er_error_id := EC_ok,
              er_error_latched := False, er_latched_error := EC_ok \<rparr>, False)
      else if er_error_latched s
      then (s\<lparr> er_valid := False, er_busy := False, er_error := True,
              er_error_id := er_latched_error s \<rparr>, False)
      else (s\<lparr> er_valid := False, er_busy := True, er_error := False, er_error_id := EC_ok \<rparr>, True))"

definition complete_enable :: "EnableReadFb \<Rightarrow> EnableReadFb" where
  "complete_enable s =
     s\<lparr> er_valid := True, er_busy := False, er_error := False, er_error_id := EC_ok \<rparr>"

definition fail_enable :: "EnableReadFb \<Rightarrow> ErrorCode \<Rightarrow> EnableReadFb" where
  "fail_enable s code =
     s\<lparr> er_valid := False, er_busy := False, er_error := True, er_error_id := code,
        er_error_latched := True, er_latched_error := code \<rparr>"

record StartSyncPulse =
  sp_start_sync :: bool
  sp_emitted :: bool

definition pulse_init :: StartSyncPulse where
  "pulse_init = \<lparr> sp_start_sync = False, sp_emitted = False \<rparr>"

definition pulse_complete :: "StartSyncPulse \<Rightarrow> bool \<Rightarrow> StartSyncPulse" where
  "pulse_complete s active_sync =
     (let start = active_sync \<and> \<not> sp_emitted s
      in \<lparr> sp_start_sync = start, sp_emitted = sp_emitted s \<or> start \<rparr>)"

definition pulse_reset :: "StartSyncPulse \<Rightarrow> StartSyncPulse" where
  "pulse_reset s = pulse_init"


section \<open>The execute protocol\<close>

text \<open>At most one of the four outputs, an error id exactly with \<open>Error\<close>, \<open>Active\<close> exactly with \<open>Busy\<close>,
  and no output at all unless \<open>Execute\<close> was set.\<close>

definition execute_ok :: "ExecuteLatch \<Rightarrow> bool" where
  "execute_ok s \<longleftrightarrow> length (filter id [xl_done s, xl_busy s, xl_command_aborted s, xl_error s]) =
       (if xl_was_execute s then 1 else 0) \<and>
     xl_active s = xl_busy s \<and> (xl_error s \<longleftrightarrow> xl_error_id s \<noteq> EC_ok)"

text \<open>One call of the block: the value of \<open>Execute\<close>, the step of the command and its error.\<close>

definition execute_run :: "(bool \<times> ExecuteStep \<times> ErrorCode) list \<Rightarrow> ExecuteLatch" where
  "execute_run is = fold (\<lambda>(x, st, e) s. execute_cycle s x st e) is execute_init"

lemma execute_run_simps [simp]:
  "execute_run [] = execute_init"
  "execute_run (is @ [(x, st, e)]) = execute_cycle (execute_run is) x st e"
  by (simp_all add: execute_run_def)

lemma execute_init_ok: "execute_ok execute_init"
  by (simp add: execute_ok_def execute_init_def)

lemma execute_cycle_ok: "execute_ok s \<Longrightarrow> execute_ok (execute_cycle s x st e)"
  by (cases st) (auto simp: execute_cycle_def execute_apply_def execute_init_def execute_ok_def Let_def
      split: if_splits)

lemma execute_run_ok: "execute_ok (execute_run is)"
proof (induction "is" rule: rev_induct)
  case Nil
  then show ?case by (simp add: execute_init_ok)
next
  case (snoc i "is")
  then show ?case by (cases i) (simp add: execute_cycle_ok)
qed

text \<open>A finished command keeps its result, whatever the steps report, until \<open>Execute\<close> drops.\<close>

lemma execute_holds:
  assumes "xl_was_execute s" "\<not> xl_busy s" "\<not> xl_active s"
  shows "execute_cycle s True st e = s"
  using assms by (simp add: execute_cycle_def)

lemma execute_drops: "execute_cycle s False st e = execute_init"
  by (simp add: execute_cycle_def)


section \<open>The enable protocol and the pulse\<close>

text \<open>A cycle of an \<open>EnableReadFb\<close> block: begin, then the outcome of the read (\<open>None\<close> success).\<close>

definition enable_cycle :: "EnableReadFb \<Rightarrow> bool \<Rightarrow> ErrorCode option \<Rightarrow> EnableReadFb" where
  "enable_cycle s enable outcome =
     (case begin_enable (s\<lparr> er_enable := enable \<rparr>) of
        (s1, False) \<Rightarrow> s1
      | (s1, True) \<Rightarrow> (case outcome of None \<Rightarrow> complete_enable s1 | Some e \<Rightarrow> fail_enable s1 e))"

lemma enable_error_latched:
  assumes "er_error_latched s" "er_latched_error s = e" "\<forall>i \<in> set is. fst i"
  shows "is \<noteq> [] \<Longrightarrow> er_error (fold (\<lambda>(en, out) s. enable_cycle s en out) is s) \<and>
      er_error_id (fold (\<lambda>(en, out) s. enable_cycle s en out) is s) = e \<and>
      \<not> er_valid (fold (\<lambda>(en, out) s. enable_cycle s en out) is s)"
  using assms
proof (induction "is" arbitrary: s)
  case Nil
  then show ?case by simp
next
  case (Cons i "is")
  obtain out where i: "i = (True, out)" using Cons.prems(4) by (cases i) auto
  let ?s = "enable_cycle s True out"
  have s: "er_error_latched ?s" "er_latched_error ?s = e" "er_error ?s" "er_error_id ?s = e" "\<not> er_valid ?s"
    using Cons.prems(2,3) by (simp_all add: enable_cycle_def begin_enable_def)
  show ?case
  proof (cases "is")
    case Nil
    with s i show ?thesis by simp
  next
    case (Cons j js)
    then show ?thesis using Cons.IH [of ?s] s(1,2) Cons.prems(4) i by simp
  qed
qed

text \<open>The pulse is emitted at most once between resets, at the first active synchronisation.\<close>

lemma pulse_once:
  "sp_start_sync (fold (\<lambda>a s. pulse_complete s a) (xs @ [a]) pulse_init) \<longleftrightarrow> a \<and> (\<forall>x \<in> set xs. \<not> x)"
proof -
  have "sp_emitted (fold (\<lambda>a s. pulse_complete s a) xs pulse_init) \<longleftrightarrow> (\<exists>x \<in> set xs. x)" for xs
    by (induction xs rule: rev_induct) (auto simp: pulse_init_def pulse_complete_def Let_def)
  then show ?thesis by (auto simp: pulse_complete_def Let_def)
qed

end
