(* ===== verification/FbBasic.thy ===== *)
theory FbBasic
  imports RtError
begin

text \<open>
  The elementary function blocks of \<open>core/fb/basic.h\<close>: edge triggers, flip-flops, timers, counters
  and the real-time clock. Each block is the record of its members, private ones included, and
  \<open>X_cycle\<close> is its \<open>cycle()\<close>; the inputs are members of the record, written by the caller before
  the call. Times are signed 64-bit integers in the code; here they are integers and the sums are
  exact, so a result about a timer is a result about the code as long as its sums fit, which the
  bounds lemmas show for \<open>pt + cycle_time\<close> in range (a sum out of range is undefined in C++).
\<close>

record RTrig = rt_clk :: bool rt_q :: bool rt_memory :: bool

definition RTrig_init :: RTrig where "RTrig_init = \<lparr> rt_clk = False, rt_q = False, rt_memory = False \<rparr>"

definition RTrig_cycle :: "RTrig \<Rightarrow> RTrig" where
  "RTrig_cycle s = s\<lparr> rt_q := rt_clk s \<and> \<not> rt_memory s, rt_memory := rt_clk s \<rparr>"

record FTrig = ft_clk :: bool ft_q :: bool ft_memory :: bool

definition FTrig_init :: FTrig where "FTrig_init = \<lparr> ft_clk = False, ft_q = False, ft_memory = False \<rparr>"

definition FTrig_cycle :: "FTrig \<Rightarrow> FTrig" where
  "FTrig_cycle s = s\<lparr> ft_q := \<not> ft_clk s \<and> ft_memory s, ft_memory := ft_clk s \<rparr>"

record SR = sr_set :: bool sr_reset :: bool sr_q :: bool

definition SR_init :: SR where "SR_init = \<lparr> sr_set = False, sr_reset = False, sr_q = False \<rparr>"

definition SR_cycle :: "SR \<Rightarrow> SR" where
  "SR_cycle s = s\<lparr> sr_q := sr_set s \<or> (sr_q s \<and> \<not> sr_reset s) \<rparr>"

record RS = rs_set :: bool rs_reset :: bool rs_q :: bool

definition RS_init :: RS where "RS_init = \<lparr> rs_set = False, rs_reset = False, rs_q = False \<rparr>"

definition RS_cycle :: "RS \<Rightarrow> RS" where
  "RS_cycle s = s\<lparr> rs_q := (rs_q s \<or> rs_set s) \<and> \<not> rs_reset s \<rparr>"

text \<open>The timers; \<open>TimerBase\<close> contributes the cycle time.\<close>

record TimerBase = tm_cycle_time :: int

definition set_cycle_time :: "'a TimerBase_scheme \<Rightarrow> int \<Rightarrow> 'a TimerBase_scheme \<times> bool" where
  "set_cycle_time t cycles = (if cycles \<le> 0 then (t, False) else (t\<lparr> tm_cycle_time := cycles \<rparr>, True))"

record Timer = TimerBase +
  tm_in :: bool
  tm_q :: bool
  tm_pt :: int
  tm_et :: int

definition Timer_init :: Timer where
  "Timer_init = \<lparr> tm_cycle_time = 1, tm_in = False, tm_q = False, tm_pt = 0, tm_et = 0 \<rparr>"

definition TON_cycle :: "Timer \<Rightarrow> Timer" where
  "TON_cycle s =
     (if \<not> tm_in s then s\<lparr> tm_q := False, tm_et := 0 \<rparr>
      else if tm_pt s = 0 then s\<lparr> tm_q := True, tm_et := 0 \<rparr>
      else let s1 = (if tm_et s < tm_pt s then s\<lparr> tm_et := tm_et s + tm_cycle_time s \<rparr> else s)
        in s1\<lparr> tm_q := tm_et s1 \<ge> tm_pt s1 \<rparr>)"

definition TOF_cycle :: "Timer \<Rightarrow> Timer" where
  "TOF_cycle s =
     (if tm_in s then s\<lparr> tm_q := True, tm_et := 0 \<rparr>
      else if tm_pt s = 0 then s\<lparr> tm_q := False, tm_et := 0 \<rparr>
      else let s1 = (if tm_q s \<and> tm_et s < tm_pt s then s\<lparr> tm_et := tm_et s + tm_cycle_time s \<rparr> else s)
        in s1\<lparr> tm_q := tm_et s1 < tm_pt s1 \<rparr>)"

record TP = Timer +
  tp_last :: bool
  tp_active :: bool

definition TP_init :: TP where
  "TP_init = \<lparr> tm_cycle_time = 1, tm_in = False, tm_q = False, tm_pt = 0, tm_et = 0,
     tp_last = False, tp_active = False \<rparr>"

definition TP_cycle :: "TP \<Rightarrow> TP" where
  "TP_cycle s =
     (let rising = tm_in s \<and> \<not> tp_last s; s1 = s\<lparr> tp_last := tm_in s \<rparr>
      in if tm_pt s1 = 0 then s1\<lparr> tm_q := False, tm_et := 0, tp_active := False \<rparr>
         else let s2 = (if rising \<and> \<not> tp_active s1
                        then s1\<lparr> tp_active := True, tm_q := True, tm_et := 0 \<rparr> else s1)
           in if tp_active s2
              then let s3 = s2\<lparr> tm_et := tm_et s2 + tm_cycle_time s2 \<rparr>
                in if tm_et s3 \<ge> tm_pt s3
                   then s3\<lparr> tp_active := False, tm_q := False, tm_et := tm_pt s3 \<rparr> else s3
              else s2)"

record CTU =
  cu_cu :: bool
  cu_reset :: bool
  cu_q :: bool
  cu_pv :: int
  cu_cv :: int
  cu_last :: bool
  cu_initialized :: bool

definition CTU_init :: CTU where
  "CTU_init = \<lparr> cu_cu = False, cu_reset = False, cu_q = False, cu_pv = 0, cu_cv = 0,
     cu_last = False, cu_initialized = False \<rparr>"

definition CTU_cycle :: "CTU \<Rightarrow> CTU" where
  "CTU_cycle s =
     (let rising = cu_initialized s \<and> cu_cu s \<and> \<not> cu_last s;
          s1 = s\<lparr> cu_initialized := True, cu_last := cu_cu s \<rparr>;
          s2 = (if cu_reset s1 then s1\<lparr> cu_cv := 0 \<rparr>
                else if rising \<and> cu_cv s1 < int64_max then s1\<lparr> cu_cv := cu_cv s1 + 1 \<rparr> else s1)
      in s2\<lparr> cu_q := cu_cv s2 \<ge> cu_pv s2 \<rparr>)"

record CTD =
  cd_cd :: bool
  cd_load :: bool
  cd_q :: bool
  cd_pv :: int
  cd_cv :: int
  cd_last :: bool
  cd_initialized :: bool

definition CTD_init :: CTD where
  "CTD_init = \<lparr> cd_cd = False, cd_load = False, cd_q = False, cd_pv = 0, cd_cv = 0,
     cd_last = False, cd_initialized = False \<rparr>"

definition CTD_cycle :: "CTD \<Rightarrow> CTD" where
  "CTD_cycle s =
     (let rising = cd_initialized s \<and> cd_cd s \<and> \<not> cd_last s;
          s1 = s\<lparr> cd_initialized := True, cd_last := cd_cd s \<rparr>;
          s2 = (if cd_load s1 then s1\<lparr> cd_cv := cd_pv s1 \<rparr>
                else if rising \<and> cd_cv s1 > 0 then s1\<lparr> cd_cv := cd_cv s1 - 1 \<rparr> else s1)
      in s2\<lparr> cd_q := cd_cv s2 \<le> 0 \<rparr>)"

record CTUD =
  ud_cu :: bool
  ud_cd :: bool
  ud_reset :: bool
  ud_load :: bool
  ud_qu :: bool
  ud_qd :: bool
  ud_pv :: int
  ud_cv :: int
  ud_last_up :: bool
  ud_last_down :: bool
  ud_initialized :: bool

definition CTUD_init :: CTUD where
  "CTUD_init = \<lparr> ud_cu = False, ud_cd = False, ud_reset = False, ud_load = False, ud_qu = False,
     ud_qd = True, ud_pv = 0, ud_cv = 0, ud_last_up = False, ud_last_down = False,
     ud_initialized = False \<rparr>"

definition CTUD_cycle :: "CTUD \<Rightarrow> CTUD" where
  "CTUD_cycle s =
     (let up = ud_initialized s \<and> ud_cu s \<and> \<not> ud_last_up s;
          down = ud_initialized s \<and> ud_cd s \<and> \<not> ud_last_down s;
          s1 = s\<lparr> ud_initialized := True, ud_last_up := ud_cu s, ud_last_down := ud_cd s \<rparr>;
          s2 = (if ud_reset s1 then s1\<lparr> ud_cv := 0 \<rparr>
                else if ud_load s1 then s1\<lparr> ud_cv := ud_pv s1 \<rparr>
                else if up \<noteq> down
                then if up \<and> ud_cv s1 < int64_max then s1\<lparr> ud_cv := ud_cv s1 + 1 \<rparr>
                     else if down \<and> ud_cv s1 > 0 then s1\<lparr> ud_cv := ud_cv s1 - 1 \<rparr> else s1
                else s1)
      in s2\<lparr> ud_qu := ud_cv s2 \<ge> ud_pv s2, ud_qd := ud_cv s2 \<le> 0 \<rparr>)"

record RTC = TimerBase +
  rc_enable :: bool
  rc_q :: bool
  rc_pdt :: int
  rc_dt :: int
  rc_active :: bool

definition RTC_init :: RTC where
  "RTC_init = \<lparr> tm_cycle_time = 1, rc_enable = False, rc_q = False, rc_pdt = 0, rc_dt = 0,
     rc_active = False \<rparr>"

definition RTC_cycle :: "RTC \<Rightarrow> RTC" where
  "RTC_cycle s =
     (if \<not> rc_enable s then s\<lparr> rc_q := False, rc_dt := 0, rc_active := False \<rparr>
      else let s1 = (if \<not> rc_active s then s\<lparr> rc_dt := rc_pdt s, rc_active := True \<rparr>
             else if rc_dt s \<le> int64_max - tm_cycle_time s then s\<lparr> rc_dt := rc_dt s + tm_cycle_time s \<rparr>
             else s\<lparr> rc_dt := int64_max \<rparr>)
        in s1\<lparr> rc_q := True \<rparr>)"


section \<open>Runs\<close>

text \<open>One cycle per input: \<open>put\<close> writes the inputs, \<open>cyc\<close> is the block.\<close>

definition run_block :: "('i \<Rightarrow> 's \<Rightarrow> 's) \<Rightarrow> ('s \<Rightarrow> 's) \<Rightarrow> 's \<Rightarrow> 'i list \<Rightarrow> 's" where
  "run_block put cyc s is = fold (\<lambda>i s. cyc (put i s)) is s"

lemma run_block_simps [simp]:
  "run_block put cyc s [] = s"
  "run_block put cyc s (is @ [i]) = cyc (put i (run_block put cyc s is))"
  by (simp_all add: run_block_def)

abbreviation "run_RTrig \<equiv> run_block (\<lambda>c s. s\<lparr> rt_clk := c \<rparr>) RTrig_cycle RTrig_init"
abbreviation "run_FTrig \<equiv> run_block (\<lambda>c s. s\<lparr> ft_clk := c \<rparr>) FTrig_cycle FTrig_init"
abbreviation "run_SR \<equiv> run_block (\<lambda>(st, r) s. s\<lparr> sr_set := st, sr_reset := r \<rparr>) SR_cycle SR_init"
abbreviation "run_RS \<equiv> run_block (\<lambda>(st, r) s. s\<lparr> rs_set := st, rs_reset := r \<rparr>) RS_cycle RS_init"

lemma RTrig_run:
  "rt_memory (run_RTrig is) = (is \<noteq> [] \<and> last is)"
  "rt_q (run_RTrig (is @ [c])) = (c \<and> \<not> (is \<noteq> [] \<and> last is))"
proof -
  show m: "rt_memory (run_RTrig is) = (is \<noteq> [] \<and> last is)" for "is"
    by (induction "is" rule: rev_induct) (simp_all add: RTrig_init_def RTrig_cycle_def)
  show "rt_q (run_RTrig (is @ [c])) = (c \<and> \<not> (is \<noteq> [] \<and> last is))"
    using m [of "is"] by (simp add: RTrig_cycle_def)
qed

lemma FTrig_run:
  "ft_memory (run_FTrig is) = (is \<noteq> [] \<and> last is)"
  "ft_q (run_FTrig (is @ [c])) = (\<not> c \<and> is \<noteq> [] \<and> last is)"
proof -
  show m: "ft_memory (run_FTrig is) = (is \<noteq> [] \<and> last is)" for "is"
    by (induction "is" rule: rev_induct) (simp_all add: FTrig_init_def FTrig_cycle_def)
  show "ft_q (run_FTrig (is @ [c])) = (\<not> c \<and> is \<noteq> [] \<and> last is)"
    using m [of "is"] by (simp add: FTrig_cycle_def)
qed

text \<open>The flip-flops remember the last set since the last effective reset.\<close>

lemma ex_less_Suc: "(\<exists>k < Suc n. P k) \<longleftrightarrow> P n \<or> (\<exists>k < n. P k)"
  by (auto simp: less_Suc_eq)

lemma SR_run: "sr_q (run_SR is) \<longleftrightarrow>
    (\<exists>k < length is. fst (is ! k) \<and> (\<forall>j. k < j \<and> j < length is \<longrightarrow> \<not> snd (is ! j)))"
proof (induction "is" rule: rev_induct)
  case Nil
  then show ?case by (simp add: SR_init_def)
next
  case (snoc i "is")
  obtain st r where i: "i = (st, r)" by (cases i)
  have "sr_q (run_SR (is @ [i])) \<longleftrightarrow> st \<or> (sr_q (run_SR is) \<and> \<not> r)"
    by (simp add: i SR_cycle_def)
  also have "\<dots> \<longleftrightarrow> st \<or> (\<exists>k < length is. fst (is ! k) \<and>
      (\<forall>j. k < j \<and> j < length is \<longrightarrow> \<not> snd (is ! j)) \<and> \<not> r)" using snoc by auto
  also have "\<dots> \<longleftrightarrow> (\<exists>k < length (is @ [i]). fst ((is @ [i]) ! k) \<and>
      (\<forall>j. k < j \<and> j < length (is @ [i]) \<longrightarrow> \<not> snd ((is @ [i]) ! j)))"
  proof -
    have "(\<forall>j. k < j \<and> j < Suc (length is) \<longrightarrow> \<not> snd ((is @ [i]) ! j)) \<longleftrightarrow>
        (\<forall>j. k < j \<and> j < length is \<longrightarrow> \<not> snd (is ! j)) \<and> (k < length is \<longrightarrow> \<not> r)" for k
      by (simp add: less_Suc_eq nth_append i all_conj_distrib imp_conjL conj_disj_distribL disj_imp) blast
    then show ?thesis by (simp add: ex_less_Suc nth_append i cong: conj_cong)
  qed
  finally show ?case .
qed

lemma RS_run: "rs_q (run_RS is) \<longleftrightarrow>
    (\<exists>k < length is. fst (is ! k) \<and> (\<forall>j. k \<le> j \<and> j < length is \<longrightarrow> \<not> snd (is ! j)))"
proof (induction "is" rule: rev_induct)
  case Nil
  then show ?case by (simp add: RS_init_def)
next
  case (snoc i "is")
  obtain st r where i: "i = (st, r)" by (cases i)
  have "rs_q (run_RS (is @ [i])) \<longleftrightarrow> (rs_q (run_RS is) \<or> st) \<and> \<not> r"
    by (simp add: i RS_cycle_def)
  also have "\<dots> \<longleftrightarrow> (st \<and> \<not> r) \<or> (\<exists>k < length is. fst (is ! k) \<and>
      (\<forall>j. k \<le> j \<and> j < length is \<longrightarrow> \<not> snd (is ! j)) \<and> \<not> r)" using snoc by auto
  also have "\<dots> \<longleftrightarrow> (\<exists>k < length (is @ [i]). fst ((is @ [i]) ! k) \<and>
      (\<forall>j. k \<le> j \<and> j < length (is @ [i]) \<longrightarrow> \<not> snd ((is @ [i]) ! j)))"
  proof -
    have "(\<forall>j. k \<le> j \<and> j < Suc (length is) \<longrightarrow> \<not> snd ((is @ [i]) ! j)) \<longleftrightarrow>
        (\<forall>j. k \<le> j \<and> j < length is \<longrightarrow> \<not> snd (is ! j)) \<and> (k \<le> length is \<longrightarrow> \<not> r)" for k
      by (simp add: less_Suc_eq nth_append i all_conj_distrib imp_conjL conj_disj_distribL disj_imp) blast
    then show ?thesis by (simp add: ex_less_Suc nth_append i cong: conj_cong)
  qed
  finally show ?case .
qed


section \<open>Timers\<close>

text \<open>The number of cycles of length \<open>c\<close> that cover \<open>pt\<close>.\<close>

definition cycles_for :: "int \<Rightarrow> int \<Rightarrow> nat" where
  "cycles_for pt c = nat ((pt + c - 1) div c)"

lemma le_div_int: "0 < c \<Longrightarrow> x \<le> a div c \<longleftrightarrow> x * c \<le> a" for c :: int
proof
  assume c: "0 < c"
  have m: "a div c * c + a mod c = a" "0 \<le> a mod c" "a mod c < c" using c by simp_all
  show "x * c \<le> a" if "x \<le> a div c"
    using mult_right_mono [OF that, of c] c m by linarith
  show "x \<le> a div c" if "x * c \<le> a"
  proof (rule ccontr)
    assume "\<not> x \<le> a div c"
    then have "(a div c + 1) * c \<le> x * c" using c by (intro mult_right_mono) auto
    then have "a div c * c + c \<le> a" using that by (simp add: algebra_simps)
    with m show False by linarith
  qed
qed

lemma cycles_for_less: "0 < c \<Longrightarrow> n < cycles_for pt c \<longleftrightarrow> int n * c < pt"
proof -
  assume c: "0 < c"
  have "n < cycles_for pt c \<longleftrightarrow> int n + 1 \<le> (pt + c - 1) div c"
    by (auto simp: cycles_for_def zless_nat_eq_int_zless)
  also have "\<dots> \<longleftrightarrow> (int n + 1) * c \<le> pt + c - 1"
    using c by (rule le_div_int)
  also have "\<dots> \<longleftrightarrow> int n * c < pt" by (simp add: algebra_simps) linarith
  finally show ?thesis .
qed

lemma min_step: "min (Suc n) k = (if n < k then Suc (min n k) else min n k)" for n :: nat
  by auto

lemma TON_hold:
  assumes s: "tm_in s" "tm_et s = 0" "0 < tm_pt s" "0 < tm_cycle_time s"
  shows "tm_et ((TON_cycle ^^ n) s) = int (min n (cycles_for (tm_pt s) (tm_cycle_time s))) * tm_cycle_time s"
    (is "?A n")
    and "0 < n \<Longrightarrow> tm_q ((TON_cycle ^^ n) s) \<longleftrightarrow> tm_pt s \<le> int n * tm_cycle_time s"
proof -
  let ?c = "tm_cycle_time s" and ?p = "tm_pt s" and ?k = "cycles_for (tm_pt s) (tm_cycle_time s)"
  let ?s = "\<lambda>n. (TON_cycle ^^ n) s"
  note less = cycles_for_less [OF s(4), of _ ?p]
  have keep: "tm_in (?s n) \<and> tm_pt (?s n) = ?p \<and> tm_cycle_time (?s n) = ?c" for n
    using s(1,3) by (induction n) (auto simp: TON_cycle_def Let_def)
  have min: "int (min n ?k) * ?c < ?p \<longleftrightarrow> n < ?k" for n
    using less [of "min n ?k"] by auto
  have et: "?A n" for n
  proof (induction n)
    case 0
    then show ?case using s by simp
  next
    case (Suc n)
    have "tm_et (TON_cycle (?s n)) = (if tm_et (?s n) < ?p then tm_et (?s n) + ?c else tm_et (?s n))"
      using keep [of n] s(3) by (simp add: TON_cycle_def Let_def)
    with Suc min [of n] show ?case by (simp add: min_step algebra_simps)
  qed
  then show "?A n" .
  show "0 < n \<Longrightarrow> tm_q (?s n) \<longleftrightarrow> ?p \<le> int n * ?c"
  proof -
    assume "0 < n"
    then obtain m where m: "n = Suc m" using gr0_conv_Suc by blast
    have "tm_q (?s n) \<longleftrightarrow> ?p \<le> tm_et (?s n)"
      using keep [of m] s(3) by (simp add: m TON_cycle_def Let_def)
    also have "\<dots> \<longleftrightarrow> \<not> n < ?k" using et [of n] min [of n] by linarith
    also have "\<dots> \<longleftrightarrow> ?p \<le> int n * ?c" using less [of n] by linarith
    finally show ?thesis .
  qed
qed

text \<open>The bound that keeps the sum of a timer in range: its elapsed time stays below
  \<open>pt + cycle_time\<close>.\<close>

lemma TON_bound:
  "0 < tm_cycle_time s \<Longrightarrow> 0 \<le> tm_et s \<Longrightarrow> tm_et s < tm_pt s + tm_cycle_time s \<Longrightarrow> 0 \<le> tm_pt s \<Longrightarrow>
    0 \<le> tm_et (TON_cycle s) \<and> tm_et (TON_cycle s) < tm_pt s + tm_cycle_time s"
  by (auto simp: TON_cycle_def Let_def)

lemma TON_off: "\<not> tm_in s \<Longrightarrow> \<not> tm_q (TON_cycle s) \<and> tm_et (TON_cycle s) = 0"
  by (simp add: TON_cycle_def)

lemma TOF_hold:
  assumes s: "\<not> tm_in s" "tm_q s" "tm_et s = 0" "0 < tm_pt s" "0 < tm_cycle_time s"
  shows "tm_q ((TOF_cycle ^^ n) s) \<longleftrightarrow> int n * tm_cycle_time s < tm_pt s"
proof -
  let ?c = "tm_cycle_time s" and ?p = "tm_pt s" and ?k = "cycles_for (tm_pt s) (tm_cycle_time s)"
  let ?s = "\<lambda>n. (TOF_cycle ^^ n) s"
  note less = cycles_for_less [OF s(5), of _ ?p]
  have keep: "\<not> tm_in (?s n) \<and> tm_pt (?s n) = ?p \<and> tm_cycle_time (?s n) = ?c" for n
    using s(1,4) by (induction n) (auto simp: TOF_cycle_def Let_def)
  have min: "int (min n ?k) * ?c < ?p \<longleftrightarrow> n < ?k" for n
    using less [of "min n ?k"] by auto
  have "tm_et (?s n) = int (min n ?k) * ?c \<and> (tm_q (?s n) \<longleftrightarrow> n < ?k)" for n
  proof (induction n)
    case 0
    then show ?case using s less [of 0] by simp
  next
    case (Suc n)
    have step: "tm_et (TOF_cycle (?s n)) =
        (if tm_q (?s n) \<and> tm_et (?s n) < ?p then tm_et (?s n) + ?c else tm_et (?s n)) \<and>
        (tm_q (TOF_cycle (?s n)) \<longleftrightarrow> tm_et (TOF_cycle (?s n)) < ?p)"
      using keep [of n] s(4) by (simp add: TOF_cycle_def Let_def)
    with Suc min [of n] have e: "tm_et (?s (Suc n)) = int (min (Suc n) ?k) * ?c"
      by (simp add: min_step algebra_simps)
    with step min [of "Suc n"] show ?case by simp
  qed
  with less [of n] show ?thesis by simp
qed

lemma TOF_on: "tm_in s \<Longrightarrow> tm_q (TOF_cycle s) \<and> tm_et (TOF_cycle s) = 0"
  by (simp add: TOF_cycle_def)

text \<open>A fresh off-delay timer whose input has never been set reports its output all the same, for
  as long as a real off-delay would last.\<close>

lemma TOF_startup:
  "0 < pt \<Longrightarrow> tm_q (TOF_cycle (Timer_init\<lparr> tm_pt := pt \<rparr>)) \<and>
    (1 < pt \<longrightarrow> tm_q (TOF_cycle (TOF_cycle (Timer_init\<lparr> tm_pt := pt \<rparr>))))"
  by (simp add: TOF_cycle_def Timer_init_def Let_def)


text \<open>A pulse, once started, lasts \<open>pt\<close> whatever its input does. \<open>tp_run\<close> runs the block on a list
  of inputs.\<close>

abbreviation tp_run :: "TP \<Rightarrow> bool list \<Rightarrow> TP" where
  "tp_run \<equiv> run_block (\<lambda>i s. s\<lparr> tm_in := i \<rparr>) TP_cycle"

lemma TP_params: "tm_pt (tp_run s is) = tm_pt s \<and> tm_cycle_time (tp_run s is) = tm_cycle_time s"
  by (induction "is" rule: rev_induct) (simp_all add: TP_cycle_def Let_def)

lemma TP_trigger:
  assumes "\<not> tp_active s" "\<not> tp_last s" "0 < tm_cycle_time s" "tm_cycle_time s < tm_pt s"
  shows "tp_active (tp_run s [True])" "tm_q (tp_run s [True])" "tm_et (tp_run s [True]) = tm_cycle_time s"
  using assms by (simp_all add: run_block_def TP_cycle_def Let_def)

lemma TP_active_step:
  "tp_active s \<Longrightarrow> 0 < tm_pt s \<Longrightarrow> tm_et s + tm_cycle_time s < tm_pt s \<Longrightarrow>
    tp_active (TP_cycle s) \<and> tm_q (TP_cycle s) = tm_q s \<and> tm_et (TP_cycle s) = tm_et s + tm_cycle_time s"
  by (simp add: TP_cycle_def Let_def)

lemma TP_pulse:
  assumes s: "tp_active s" "tm_q s" "tm_et s = tm_cycle_time s" "0 < tm_cycle_time s" "0 < tm_pt s"
    and n: "(int (length is) + 1) * tm_cycle_time s < tm_pt s"
  shows "tp_active (tp_run s is) \<and> tm_q (tp_run s is) \<and>
    tm_et (tp_run s is) = (int (length is) + 1) * tm_cycle_time s"
  using n
proof (induction "is" rule: rev_induct)
  case Nil
  then show ?case using s by simp
next
  case (snoc i "is")
  have "(int (length is) + 1) * tm_cycle_time s < tm_pt s"
    using snoc.prems s(4) by (simp add: algebra_simps)
  with snoc.IH have ih: "tp_active (tp_run s is)" "tm_q (tp_run s is)"
    "tm_et (tp_run s is) = (int (length is) + 1) * tm_cycle_time s" by blast+
  let ?t = "(tp_run s is)\<lparr> tm_in := i \<rparr>"
  have "tm_pt ?t = tm_pt s" "tm_cycle_time ?t = tm_cycle_time s" using TP_params [of s "is"] by simp_all
  then have "tp_active (TP_cycle ?t) \<and> tm_q (TP_cycle ?t) = tm_q ?t \<and>
      tm_et (TP_cycle ?t) = tm_et ?t + tm_cycle_time s"
    using TP_active_step [of ?t] ih s(5) snoc.prems by (simp add: algebra_simps)
  then show ?case using ih by (simp add: algebra_simps)
qed

lemma TP_end:
  assumes "tp_active s" "0 < tm_pt s" "tm_pt s \<le> tm_et s + tm_cycle_time s"
  shows "\<not> tm_q (TP_cycle s) \<and> \<not> tp_active (TP_cycle s) \<and> tm_et (TP_cycle s) = tm_pt s"
  using assms by (simp add: TP_cycle_def Let_def)


section \<open>Counters\<close>

text \<open>Rising edges after the first sample, which only initialises the edge memory.\<close>

fun edges :: "bool list \<Rightarrow> nat" where
  "edges (a # b # is) = (if b \<and> \<not> a then 1 else 0) + edges (b # is)"
| "edges _ = 0"

lemma edges_snoc: "edges (is @ [i]) = edges is + (if is \<noteq> [] \<and> i \<and> \<not> last is then 1 else 0)"
  by (induction "is" rule: edges.induct) auto

abbreviation ctu_run :: "int \<Rightarrow> bool list \<Rightarrow> CTU" where
  "ctu_run pv \<equiv> run_block (\<lambda>i s. s\<lparr> cu_cu := i \<rparr>) CTU_cycle (CTU_init\<lparr> cu_pv := pv \<rparr>)"

lemma CTU_counts:
  "cu_cv (ctu_run pv is) = min int64_max (int (edges is)) \<and>
   (is \<noteq> [] \<longrightarrow> cu_q (ctu_run pv is) = (pv \<le> min int64_max (int (edges is))))"
proof -
  have "cu_pv (ctu_run pv is) = pv \<and> \<not> cu_reset (ctu_run pv is) \<and>
      cu_initialized (ctu_run pv is) = (is \<noteq> []) \<and> cu_last (ctu_run pv is) = (is \<noteq> [] \<and> last is) \<and>
      cu_cv (ctu_run pv is) = min int64_max (int (edges is)) \<and>
      (is \<noteq> [] \<longrightarrow> cu_q (ctu_run pv is) = (pv \<le> cu_cv (ctu_run pv is)))" for "is"
  proof (induction "is" rule: rev_induct)
    case Nil
    then show ?case by (simp add: CTU_init_def int64_max_def)
  next
    case (snoc i "is")
    then show ?case by (auto simp: CTU_cycle_def Let_def edges_snoc)
  qed
  then show ?thesis by simp
qed

abbreviation ctd_run :: "CTD \<Rightarrow> bool list \<Rightarrow> CTD" where
  "ctd_run \<equiv> run_block (\<lambda>i s. s\<lparr> cd_cd := i \<rparr>) CTD_cycle"

lemma CTD_counts:
  assumes s: "cd_initialized s" "\<not> cd_load s" "0 \<le> cd_cv s"
  shows "cd_cv (ctd_run s is) = max 0 (cd_cv s - int (edges (cd_last s # is))) \<and>
    (is \<noteq> [] \<longrightarrow> cd_q (ctd_run s is) = (cd_cv s \<le> int (edges (cd_last s # is))))"
proof -
  have "cd_initialized (ctd_run s is) \<and> \<not> cd_load (ctd_run s is) \<and>
      cd_last (ctd_run s is) = last (cd_last s # is) \<and>
      cd_cv (ctd_run s is) = max 0 (cd_cv s - int (edges (cd_last s # is))) \<and>
      (is \<noteq> [] \<longrightarrow> cd_q (ctd_run s is) = (cd_cv (ctd_run s is) \<le> 0))" for "is"
  proof (induction "is" rule: rev_induct)
    case Nil
    then show ?case using s by simp
  next
    case (snoc i "is")
    have "edges (cd_last s # is @ [i]) = edges (cd_last s # is) +
        (if i \<and> \<not> last (cd_last s # is) then 1 else 0)"
      using edges_snoc [of "cd_last s # is" i] by simp
    with snoc show ?case by (auto simp: CTD_cycle_def Let_def)
  qed
  then show ?thesis by auto
qed

lemma CTD_load: "cd_load s \<Longrightarrow> cd_cv (CTD_cycle s) = cd_pv s \<and> cd_initialized (CTD_cycle s)"
  by (simp add: CTD_cycle_def Let_def)

text \<open>The up/down counter: the count stays in range, the outputs agree with it, and simultaneous
  edges cancel.\<close>

definition ctud_ok :: "CTUD \<Rightarrow> bool" where
  "ctud_ok s \<longleftrightarrow> 0 \<le> ud_cv s \<and> ud_cv s \<le> int64_max"

lemma CTUD_cycle_ok:
  assumes "ctud_ok s" "0 \<le> ud_pv s" "ud_pv s \<le> int64_max"
  shows "ctud_ok (CTUD_cycle s) \<and> ud_qu (CTUD_cycle s) = (ud_pv s \<le> ud_cv (CTUD_cycle s)) \<and>
    ud_qd (CTUD_cycle s) = (ud_cv (CTUD_cycle s) = 0)"
  using assms by (auto simp: ctud_ok_def CTUD_cycle_def Let_def int64_max_def)

lemma CTUD_both_edges:
  "ud_initialized s \<Longrightarrow> ud_cu s \<Longrightarrow> ud_cd s \<Longrightarrow> \<not> ud_last_up s \<Longrightarrow> \<not> ud_last_down s \<Longrightarrow>
    \<not> ud_reset s \<Longrightarrow> \<not> ud_load s \<Longrightarrow> ud_cv (CTUD_cycle s) = ud_cv s"
  by (simp add: CTUD_cycle_def Let_def)

text \<open>The clock counts from \<open>pdt\<close> and saturates.\<close>

lemma RTC_step:
  "rc_enable s \<Longrightarrow> rc_active s \<Longrightarrow> rc_enable (RTC_cycle s) \<and> rc_active (RTC_cycle s) \<and> rc_q (RTC_cycle s) \<and>
    tm_cycle_time (RTC_cycle s) = tm_cycle_time s \<and>
    rc_dt (RTC_cycle s) = min int64_max (rc_dt s + tm_cycle_time s)"
  by (auto simp: RTC_cycle_def Let_def)

lemma RTC_runs:
  assumes s: "rc_enable s" "\<not> rc_active s" "0 < tm_cycle_time s" "rc_pdt s \<le> int64_max"
  shows "rc_dt ((RTC_cycle ^^ Suc n) s) = min int64_max (rc_pdt s + int n * tm_cycle_time s) \<and>
    rc_q ((RTC_cycle ^^ Suc n) s)"
proof -
  let ?s = "\<lambda>n. (RTC_cycle ^^ Suc n) s"
  have "rc_enable (?s n) \<and> rc_active (?s n) \<and> rc_q (?s n) \<and> tm_cycle_time (?s n) = tm_cycle_time s \<and>
      rc_dt (?s n) = min int64_max (rc_pdt s + int n * tm_cycle_time s)" for n
  proof (induction n)
    case 0
    then show ?case using s by (simp add: RTC_cycle_def Let_def)
  next
    case (Suc n)
    have "?s (Suc n) = RTC_cycle (?s n)" by simp
    moreover have "min int64_max (min int64_max (rc_pdt s + int n * tm_cycle_time s) + tm_cycle_time s) =
        min int64_max (rc_pdt s + int (Suc n) * tm_cycle_time s)"
      using s(3) by (simp add: algebra_simps min_def)
    ultimately show ?case using RTC_step [of "?s n"] Suc by metis
  qed
  then show ?thesis by blast
qed

text \<open>Trigger, pulse and end of a pulse in one statement.\<close>

lemma TP_whole_pulse:
  assumes s: "\<not> tp_active s" "\<not> tp_last s" "0 < tm_cycle_time s" "tm_cycle_time s < tm_pt s"
    and n: "(int (length is) + 1) * tm_cycle_time s < tm_pt s"
  shows "tm_q (tp_run s (True # is)) \<and>
    tm_et (tp_run s (True # is)) = (int (length is) + 1) * tm_cycle_time s \<and>
    (tm_pt s \<le> (int (length is) + 2) * tm_cycle_time s \<longrightarrow>
      \<not> tm_q (tp_run s (True # is @ [i])) \<and> tm_et (tp_run s (True # is @ [i])) = tm_pt s)"
proof -
  let ?t = "tp_run s [True]"
  have split: "tp_run s (True # js) = tp_run ?t js" for js by (simp add: run_block_def)
  note t = TP_trigger [OF s] and par = TP_params [of s "[True]"]
  have pulse: "tp_active (tp_run ?t is)" "tm_q (tp_run ?t is)"
    "tm_et (tp_run ?t is) = (int (length is) + 1) * tm_cycle_time s"
    using TP_pulse [of ?t "is"] t par s n by auto
  show ?thesis
  proof (intro conjI impI)
    show "tm_q (tp_run s (True # is))" "tm_et (tp_run s (True # is)) = (int (length is) + 1) * tm_cycle_time s"
      using pulse unfolding split [of "is"] by simp_all
    assume "tm_pt s \<le> (int (length is) + 2) * tm_cycle_time s"
    moreover have "(int (length is) + 2) * tm_cycle_time s =
        (int (length is) + 1) * tm_cycle_time s + tm_cycle_time s" by (simp add: algebra_simps)
    ultimately have "tm_pt s \<le> tm_et (tp_run ?t is) + tm_cycle_time s" using pulse(3) by simp
    then have "tp_active (tp_run ?t is\<lparr> tm_in := i \<rparr>)" "0 < tm_pt (tp_run ?t is\<lparr> tm_in := i \<rparr>)"
      "tm_pt (tp_run ?t is\<lparr> tm_in := i \<rparr>) \<le> tm_et (tp_run ?t is\<lparr> tm_in := i \<rparr>) +
        tm_cycle_time (tp_run ?t is\<lparr> tm_in := i \<rparr>)"
      using pulse(1) par TP_params [of ?t "is"] s(3,4) by simp_all
    note TP_end [OF this]
    then show "\<not> tm_q (tp_run s (True # is @ [i]))" "tm_et (tp_run s (True # is @ [i])) = tm_pt s"
      unfolding split [of "is @ [i]"] using par TP_params [of ?t "is"] by simp_all
  qed
qed

end
