(* ===== verification/RtContainers.thy ===== *)
theory RtContainers
  imports RtError
begin

text \<open>
  \<open>core/rt/static_vector.h\<close> and \<open>core/rt/spsc_queue.h\<close>: the fixed-capacity containers of the
  real-time core, each refined to a list. The single-producer single-consumer queue is given
  twice: as whole operations, and as the interleaving of the producer's and the consumer's atomic
  accesses. The contract of a bounded FIFO is the locale \<open>bounded_fifo\<close>, which the shared-memory
  ring of \<open>RtIpc\<close> also provides.
\<close>

section \<open>StaticVector\<close>

text \<open>\<open>data_\<close> is an array of \<open>Capacity\<close> elements that always exist; only \<open>size_\<close> moves.\<close>

record 'a StaticVector =
  sv_data :: "'a list"
  sv_size :: nat

definition sv_capacity :: "'a StaticVector \<Rightarrow> nat" where
  "sv_capacity v = length (sv_data v)"

definition sv_empty :: "'a StaticVector \<Rightarrow> bool" where
  "sv_empty v \<longleftrightarrow> sv_size v = 0"

definition sv_full :: "'a StaticVector \<Rightarrow> bool" where
  "sv_full v \<longleftrightarrow> sv_size v = sv_capacity v"

definition sv_push_back :: "'a StaticVector \<Rightarrow> 'a \<Rightarrow> 'a StaticVector \<times> ErrorCode" where
  "sv_push_back v x =
     (if sv_full v then (v, EC_capacity_exceeded)
      else (v\<lparr> sv_data := (sv_data v)[sv_size v := x], sv_size := sv_size v + 1 \<rparr>, EC_ok))"

definition sv_pop_back :: "'a StaticVector \<Rightarrow> 'a StaticVector \<times> ErrorCode" where
  "sv_pop_back v =
     (if sv_empty v then (v, EC_out_of_range)
      else (v\<lparr> sv_size := sv_size v - 1 \<rparr>, EC_ok))"

definition sv_clear :: "'a StaticVector \<Rightarrow> 'a StaticVector" where
  "sv_clear v = v\<lparr> sv_size := 0 \<rparr>"

definition sv_wf :: "'a StaticVector \<Rightarrow> bool" where
  "sv_wf v \<longleftrightarrow> sv_size v \<le> length (sv_data v)"

definition sv_list :: "'a StaticVector \<Rightarrow> 'a list" where
  "sv_list v = take (sv_size v) (sv_data v)"

lemma sv_push_back_spec:
  assumes "sv_wf v"
  shows "sv_push_back v x =
    (if length (sv_list v) = sv_capacity v then (v, EC_capacity_exceeded)
     else (fst (sv_push_back v x), EC_ok))"
    and "length (sv_list v) < sv_capacity v \<Longrightarrow>
      sv_list (fst (sv_push_back v x)) = sv_list v @ [x]"
    and "sv_wf (fst (sv_push_back v x))"
    and "sv_capacity (fst (sv_push_back v x)) = sv_capacity v"
  using assms
  by (auto simp: sv_push_back_def sv_full_def sv_capacity_def sv_list_def sv_wf_def min_def
      take_Suc_conv_app_nth)

lemma sv_pop_back_spec:
  assumes "sv_wf v"
  shows "sv_list v = [] \<Longrightarrow> sv_pop_back v = (v, EC_out_of_range)"
    and "sv_list v \<noteq> [] \<Longrightarrow> snd (sv_pop_back v) = EC_ok \<and>
      sv_list (fst (sv_pop_back v)) = butlast (sv_list v)"
    and "sv_wf (fst (sv_pop_back v))"
    and "sv_capacity (fst (sv_pop_back v)) = sv_capacity v"
  using assms
  by (auto simp: sv_pop_back_def sv_empty_def sv_capacity_def sv_list_def sv_wf_def butlast_take)


section \<open>Bounded FIFO contract\<close>

text \<open>A client issues requests and records what each returned: \<open>Inl\<close> whether a push was
  accepted, \<open>Inr\<close> what a pop delivered.\<close>

datatype 'a fifo_request = Push 'a | Pop

type_synonym 'a fifo_answer = "bool + 'a option"

primrec fifo_run ::
  "('s \<Rightarrow> 'a \<Rightarrow> 's \<times> bool) \<Rightarrow> ('s \<Rightarrow> 's \<times> 'a option) \<Rightarrow> 'a fifo_request list \<Rightarrow> 's \<Rightarrow> 's \<times> 'a fifo_answer list"
where
  "fifo_run push pop [] s = (s, [])"
| "fifo_run push pop (r # rs) s =
     (case r of
        Push x \<Rightarrow> (let (s', b) = push s x; (s'', as) = fifo_run push pop rs s' in (s'', Inl b # as))
      | Pop \<Rightarrow> (let (s', v) = pop s; (s'', as) = fifo_run push pop rs s' in (s'', Inr v # as)))"

text \<open>The reference: a list that never exceeds \<open>cap\<close> elements.\<close>

definition list_push :: "nat \<Rightarrow> 'a list \<Rightarrow> 'a \<Rightarrow> 'a list \<times> bool" where
  "list_push cap xs x = (if length xs < cap then (xs @ [x], True) else (xs, False))"

fun list_pop :: "'a list \<Rightarrow> 'a list \<times> 'a option" where
  "list_pop [] = ([], None)"
| "list_pop (x # xs) = (xs, Some x)"

locale bounded_fifo =
  fixes push :: "'s \<Rightarrow> 'a \<Rightarrow> 's \<times> bool"
    and pop :: "'s \<Rightarrow> 's \<times> 'a option"
    and contents :: "'s \<Rightarrow> 'a list"
    and wf :: "'s \<Rightarrow> bool"
    and accepts :: "'s \<Rightarrow> 'a \<Rightarrow> bool"
    and cap :: "'s \<Rightarrow> nat"
  assumes push_room: "wf s \<Longrightarrow> accepts s x \<Longrightarrow> length (contents s) < cap s \<Longrightarrow>
      push s x = (fst (push s x), True) \<and> contents (fst (push s x)) = contents s @ [x]"
    and push_full: "wf s \<Longrightarrow> length (contents s) = cap s \<Longrightarrow> push s x = (s, False)"
    and push_wf: "wf s \<Longrightarrow> accepts s x \<Longrightarrow> wf (fst (push s x))"
    and push_frame: "wf s \<Longrightarrow> accepts s x \<Longrightarrow>
      cap (fst (push s x)) = cap s \<and> accepts (fst (push s x)) = accepts s"
    and pop_empty: "wf s \<Longrightarrow> contents s = [] \<Longrightarrow> pop s = (s, None)"
    and pop_some: "wf s \<Longrightarrow> contents s = x # xs \<Longrightarrow>
      pop s = (fst (pop s), Some x) \<and> contents (fst (pop s)) = xs"
    and pop_wf: "wf s \<Longrightarrow> wf (fst (pop s))"
    and pop_frame: "wf s \<Longrightarrow> cap (fst (pop s)) = cap s \<and> accepts (fst (pop s)) = accepts s"
    and bound: "wf s \<Longrightarrow> length (contents s) \<le> cap s"
begin

lemma push_refines:
  assumes "wf s" "accepts s x"
  shows "list_push (cap s) (contents s) x = (contents (fst (push s x)), snd (push s x))"
proof (cases "length (contents s) < cap s")
  case True
  with push_room [OF assms] show ?thesis
    by (metis list_push_def snd_conv)
next
  case False
  with bound [OF assms(1)] have "length (contents s) = cap s" by simp
  with push_full [OF assms(1)] False show ?thesis by (simp add: list_push_def)
qed

lemma pop_refines:
  assumes "wf s"
  shows "list_pop (contents s) = (contents (fst (pop s)), snd (pop s))"
proof (cases "contents s")
  case Nil
  with pop_empty [OF assms] show ?thesis by simp
next
  case (Cons x xs)
  with pop_some [OF assms Cons] show ?thesis by (metis list_pop.simps(2) snd_conv)
qed

lemma run_refines:
  "wf s \<Longrightarrow> (\<And>x. Push x \<in> set rs \<Longrightarrow> accepts s x) \<Longrightarrow>
    fifo_run (list_push (cap s)) list_pop rs (contents s) =
      (contents (fst (fifo_run push pop rs s)), snd (fifo_run push pop rs s))
    \<and> wf (fst (fifo_run push pop rs s))"
proof (induction rs arbitrary: s)
  case Nil
  then show ?case by simp
next
  case (Cons r rs)
  show ?case
  proof (cases r)
    case (Push x)
    with Cons.prems have acc: "accepts s x" by auto
    have "fifo_run (list_push (cap (fst (push s x)))) list_pop rs (contents (fst (push s x))) =
        (contents (fst (fifo_run push pop rs (fst (push s x)))),
         snd (fifo_run push pop rs (fst (push s x))))
      \<and> wf (fst (fifo_run push pop rs (fst (push s x))))"
      using Cons.prems acc push_frame [OF Cons.prems(1) acc]
      by (intro Cons.IH) (auto intro: push_wf)
    then show ?thesis
      using push_refines [OF Cons.prems(1) acc] push_frame [OF Cons.prems(1) acc] Push
      by (auto split: prod.splits)
  next
    case Pop
    have "fifo_run (list_push (cap (fst (pop s)))) list_pop rs (contents (fst (pop s))) =
        (contents (fst (fifo_run push pop rs (fst (pop s)))),
         snd (fifo_run push pop rs (fst (pop s))))
      \<and> wf (fst (fifo_run push pop rs (fst (pop s))))"
      using Cons.prems pop_frame [OF Cons.prems(1)]
      by (intro Cons.IH) (auto intro: pop_wf)
    then show ?thesis
      using pop_refines [OF Cons.prems(1)] pop_frame [OF Cons.prems(1)] Pop
      by (auto split: prod.splits)
  qed
qed

end


section \<open>Ring arithmetic\<close>

text \<open>Shared by both rings: storage of \<open>S = Capacity + 1\<close> cells, indices modulo \<open>S\<close>, one cell kept
  free so that \<open>head = tail\<close> means empty.\<close>

definition ring_next :: "nat \<Rightarrow> nat \<Rightarrow> nat" where
  "ring_next S i = (i + 1) mod S"

definition ring_count :: "nat \<Rightarrow> nat \<Rightarrow> nat \<Rightarrow> nat" where
  "ring_count S head tail = (head + S - tail) mod S"

definition ring_contents :: "'a list \<Rightarrow> nat \<Rightarrow> nat \<Rightarrow> 'a list" where
  "ring_contents data head tail =
     map (\<lambda>i. data ! ((tail + i) mod length data)) [0..<ring_count (length data) head tail]"

definition ring_wf :: "'a list \<Rightarrow> nat \<Rightarrow> nat \<Rightarrow> bool" where
  "ring_wf data head tail \<longleftrightarrow> 1 < length data \<and> head < length data \<and> tail < length data"

lemma ring_next_less: "h < S \<Longrightarrow> ring_next S i < S"
  by (simp add: ring_next_def)

lemma ring_count_cases:
  assumes "h < S" "t < S"
  shows "ring_count S h t = (if t \<le> h then h - t else h + S - t)"
  using assms by (auto simp: ring_count_def le_mod_geq)

lemma ring_next_cases: "i < S \<Longrightarrow> ring_next S i = (if i + 1 = S then 0 else i + 1)"
  by (simp add: ring_next_def)

lemma ring_count_less: "h < S \<Longrightarrow> ring_count S h t < S"
  by (simp add: ring_count_def)

lemma ring_count_zero: "h < S \<Longrightarrow> t < S \<Longrightarrow> ring_count S h t = 0 \<longleftrightarrow> h = t"
  by (auto simp: ring_count_cases)

lemma ring_full_iff:
  "1 < S \<Longrightarrow> h < S \<Longrightarrow> t < S \<Longrightarrow> ring_next S h = t \<longleftrightarrow> ring_count S h t = S - 1"
  by (auto simp: ring_count_cases ring_next_cases split: if_splits)

lemma ring_count_push:
  "1 < S \<Longrightarrow> h < S \<Longrightarrow> t < S \<Longrightarrow> ring_next S h \<noteq> t \<Longrightarrow>
    ring_count S (ring_next S h) t = Suc (ring_count S h t)"
  by (auto simp: ring_count_cases ring_next_cases ring_next_less split: if_splits)

lemma ring_count_pop:
  "1 < S \<Longrightarrow> h < S \<Longrightarrow> t < S \<Longrightarrow> h \<noteq> t \<Longrightarrow>
    ring_count S h t = Suc (ring_count S h (ring_next S t))"
  by (auto simp: ring_count_cases ring_next_cases ring_next_less split: if_splits)

lemma ring_slot: "h < S \<Longrightarrow> t < S \<Longrightarrow> (t + ring_count S h t) mod S = h"
  by (auto simp: ring_count_cases le_mod_geq)

lemma ring_slot_other:
  assumes "h < S" "t < S" "i < ring_count S h t"
  shows "(t + i) mod S \<noteq> h"
proof (cases "t + i < S")
  case True
  with assms show ?thesis by (auto simp: ring_count_cases split: if_splits)
next
  case False
  moreover from assms have "t + i < h + S" by (auto simp: ring_count_cases split: if_splits)
  ultimately show ?thesis using assms by (simp add: le_mod_geq not_less)
qed

lemma length_ring_contents: "length (ring_contents d h t) = ring_count (length d) h t"
  by (simp add: ring_contents_def)

lemma ring_contents_nil: "ring_wf d h t \<Longrightarrow> ring_contents d h t = [] \<longleftrightarrow> h = t"
  by (simp add: ring_contents_def ring_wf_def ring_count_zero)

lemma ring_contents_write:
  assumes "ring_wf d h t"
  shows "ring_contents (d[h := x]) h t = ring_contents d h t"
  using assms by (auto simp: ring_contents_def ring_wf_def dest: ring_slot_other)

lemma ring_contents_push:
  assumes "ring_wf d h t" "ring_next (length d) h \<noteq> t" "d ! h = x"
  shows "ring_contents d (ring_next (length d) h) t = ring_contents d h t @ [x]"
  using assms by (simp add: ring_contents_def ring_wf_def ring_count_push ring_slot)

lemma ring_contents_pop:
  assumes "ring_wf d h t" "h \<noteq> t"
  shows "ring_contents d h t = d ! t # ring_contents d h (ring_next (length d) t)"
proof -
  let ?S = "length d" and ?n = "ring_count (length d) h (ring_next (length d) t)"
  have "ring_contents d h t = map (\<lambda>i. d ! ((t + i) mod ?S)) [0..<Suc ?n]"
    using assms by (simp add: ring_contents_def ring_wf_def ring_count_pop del: upt_Suc)
  also have "\<dots> = d ! (t mod ?S) # map (\<lambda>i. d ! ((t + Suc i) mod ?S)) [0..<?n]"
    by (simp add: upt_conv_Cons map_Suc_upt [symmetric] del: upt_Suc)
  also have "\<dots> = d ! t # map (\<lambda>i. d ! ((ring_next ?S t + i) mod ?S)) [0..<?n]"
    using assms by (simp add: ring_wf_def ring_next_def mod_simps)
  finally show ?thesis by (simp add: ring_contents_def)
qed

lemma ring_contents_bound: "ring_wf d h t \<Longrightarrow> length (ring_contents d h t) \<le> length d - 1"
  using ring_count_less [of h "length d" t]
  by (simp add: length_ring_contents ring_wf_def)

lemmas ring_laws = ring_contents_write ring_contents_push ring_contents_pop ring_contents_nil
  length_ring_contents


section \<open>SpscQueue, operation by operation\<close>

record 'a SpscQueue =
  sq_data :: "'a list"
  sq_head :: nat
  sq_tail :: nat

definition spsc_new :: "'a \<Rightarrow> nat \<Rightarrow> 'a SpscQueue" where
  "spsc_new dflt capacity = \<lparr> sq_data = replicate (capacity + 1) dflt, sq_head = 0, sq_tail = 0 \<rparr>"

definition spsc_increment :: "'a SpscQueue \<Rightarrow> nat \<Rightarrow> nat" where
  "spsc_increment q i = ring_next (length (sq_data q)) i"

definition spsc_push :: "'a SpscQueue \<Rightarrow> 'a \<Rightarrow> 'a SpscQueue \<times> bool" where
  "spsc_push q x =
     (let head = sq_head q; nxt = spsc_increment q head
      in if nxt = sq_tail q then (q, False)
         else (q\<lparr> sq_data := (sq_data q)[head := x], sq_head := nxt \<rparr>, True))"

definition spsc_pop :: "'a SpscQueue \<Rightarrow> 'a SpscQueue \<times> 'a option" where
  "spsc_pop q =
     (let tail = sq_tail q
      in if tail = sq_head q then (q, None)
         else (q\<lparr> sq_tail := spsc_increment q tail \<rparr>, Some (sq_data q ! tail)))"

definition spsc_empty :: "'a SpscQueue \<Rightarrow> bool" where
  "spsc_empty q \<longleftrightarrow> sq_head q = sq_tail q"

definition spsc_full :: "'a SpscQueue \<Rightarrow> bool" where
  "spsc_full q \<longleftrightarrow> spsc_increment q (sq_head q) = sq_tail q"

definition spsc_capacity :: "'a SpscQueue \<Rightarrow> nat" where
  "spsc_capacity q = length (sq_data q) - 1"

definition spsc_wf :: "'a SpscQueue \<Rightarrow> bool" where
  "spsc_wf q \<longleftrightarrow> ring_wf (sq_data q) (sq_head q) (sq_tail q)"

definition spsc_contents :: "'a SpscQueue \<Rightarrow> 'a list" where
  "spsc_contents q = ring_contents (sq_data q) (sq_head q) (sq_tail q)"

lemmas spsc_defs = spsc_push_def spsc_pop_def spsc_increment_def spsc_capacity_def spsc_wf_def
  spsc_contents_def

lemma spsc_new_wf: "0 < capacity \<Longrightarrow> spsc_wf (spsc_new d capacity)"
  by (simp add: spsc_wf_def spsc_new_def ring_wf_def)

lemma spsc_new_contents: "0 < capacity \<Longrightarrow>
    spsc_contents (spsc_new d capacity) = [] \<and> spsc_capacity (spsc_new d capacity) = capacity"
  by (simp add: spsc_contents_def spsc_new_def ring_contents_def ring_count_def spsc_capacity_def)

lemma spsc_flags:
  "spsc_wf q \<Longrightarrow> spsc_empty q \<longleftrightarrow> spsc_contents q = []"
  "spsc_wf q \<Longrightarrow> spsc_full q \<longleftrightarrow> length (spsc_contents q) = spsc_capacity q"
  by (auto simp: spsc_empty_def spsc_full_def spsc_defs ring_contents_nil length_ring_contents
      ring_wf_def ring_full_iff)

lemma ring_wf_push: "ring_wf d h t \<Longrightarrow> ring_wf (d[i := x]) (ring_next (length d) h) t"
  by (auto simp: ring_wf_def ring_next_less)

lemma ring_wf_pop: "ring_wf d h t \<Longrightarrow> ring_wf d h (ring_next (length d) t)"
  by (auto simp: ring_wf_def ring_next_less)

lemma ring_contents_enqueue:
  assumes "ring_wf d h t" "ring_next (length d) h \<noteq> t"
  shows "ring_contents (d[h := x]) (ring_next (length d) h) t = ring_contents d h t @ [x]"
  using ring_contents_push [of "d[h := x]" h t x] assms
  by (simp add: ring_contents_write) (simp add: ring_wf_def)

lemma ring_full_length:
  "ring_wf d h t \<Longrightarrow> ring_next (length d) h = t \<longleftrightarrow> length (ring_contents d h t) = length d - 1"
  by (simp add: length_ring_contents ring_wf_def ring_full_iff)

lemma spsc_push_cases:
  assumes "spsc_wf q"
  shows "length (spsc_contents q) = spsc_capacity q \<Longrightarrow> spsc_push q x = (q, False)"
    and "length (spsc_contents q) < spsc_capacity q \<Longrightarrow>
      snd (spsc_push q x) \<and> spsc_contents (fst (spsc_push q x)) = spsc_contents q @ [x]"
    and "spsc_wf (fst (spsc_push q x))"
    and "spsc_capacity (fst (spsc_push q x)) = spsc_capacity q"
  using assms ring_contents_enqueue [of "sq_data q" "sq_head q" "sq_tail q" x]
  by (auto simp: spsc_defs Let_def ring_wf_push ring_full_length [symmetric] ring_full_length)

lemma spsc_contents_nil: "spsc_wf q \<Longrightarrow> spsc_contents q = [] \<longleftrightarrow> sq_head q = sq_tail q"
  by (simp add: spsc_contents_def spsc_wf_def ring_contents_nil)

lemma spsc_pop_nonempty:
  assumes "spsc_wf q" "sq_head q \<noteq> sq_tail q"
  shows "spsc_contents q = the (snd (spsc_pop q)) # spsc_contents (fst (spsc_pop q))"
  using assms ring_contents_pop [of "sq_data q" "sq_head q" "sq_tail q"]
  by (simp add: spsc_pop_def spsc_contents_def spsc_wf_def spsc_increment_def Let_def)

lemma spsc_pop_cases:
  assumes "spsc_wf q"
  shows "spsc_contents q = [] \<Longrightarrow> spsc_pop q = (q, None)"
    and "spsc_contents q = x # xs \<Longrightarrow>
      snd (spsc_pop q) = Some x \<and> spsc_contents (fst (spsc_pop q)) = xs"
    and "spsc_wf (fst (spsc_pop q))"
    and "spsc_capacity (fst (spsc_pop q)) = spsc_capacity q"
proof -
  show "spsc_contents q = [] \<Longrightarrow> spsc_pop q = (q, None)"
    using assms by (simp add: spsc_contents_nil spsc_pop_def)
  show "spsc_wf (fst (spsc_pop q))" "spsc_capacity (fst (spsc_pop q)) = spsc_capacity q"
    using assms
    by (auto simp: spsc_pop_def spsc_wf_def spsc_increment_def spsc_capacity_def Let_def ring_wf_pop)
  assume c: "spsc_contents q = x # xs"
  with assms have ne: "sq_head q \<noteq> sq_tail q" using spsc_contents_nil by fastforce
  with spsc_pop_nonempty [OF assms ne] c
  show "snd (spsc_pop q) = Some x \<and> spsc_contents (fst (spsc_pop q)) = xs"
    by (auto simp: spsc_pop_def Let_def)
qed

interpretation spsc: bounded_fifo spsc_push spsc_pop spsc_contents spsc_wf "\<lambda>_ _. True" spsc_capacity
proof unfold_locales
  fix q :: "'a SpscQueue" assume "spsc_wf q"
  then show "length (spsc_contents q) \<le> spsc_capacity q"
    unfolding spsc_defs by (rule ring_contents_bound)
qed (auto simp: spsc_push_cases spsc_pop_cases prod_eq_iff)

text \<open>Any sequence of requests on the queue is answered as a bounded list answers it.\<close>

lemma spsc_run_refines:
  assumes "spsc_wf q"
  shows "snd (fifo_run spsc_push spsc_pop rs q) =
    snd (fifo_run (list_push (spsc_capacity q)) list_pop rs (spsc_contents q))"
  using spsc.run_refines [OF assms, of rs] by simp


section \<open>SpscQueue, access by access\<close>

text \<open>One producer and one consumer share the queue. Between its atomic accesses each keeps local
  values: the producer's program counter holds the value being pushed, the \<open>head\<close> it loaded and
  the \<open>next\<close> it computed; the consumer's holds the \<open>tail\<close> and the value it copied. Loads of the
  index the thread itself writes are not separate steps, since nobody else changes it. \<open>sent\<close> and
  \<open>got\<close> record the pushes that returned \<open>true\<close> (from their release store on) and the pops.\<close>

datatype 'a producer_pc = P_idle | P_write 'a nat nat | P_publish 'a nat

datatype 'a consumer_pc = C_idle | C_copy nat | C_release nat 'a

record 'a spsc_system =
  sys_q :: "'a SpscQueue"
  sys_prod :: "'a producer_pc"
  sys_cons :: "'a consumer_pc"
  sys_sent :: "'a list"
  sys_got :: "'a list"

inductive spsc_step :: "'a spsc_system \<Rightarrow> 'a spsc_system \<Rightarrow> bool" where
  push_check: "sys_prod s = P_idle \<Longrightarrow> spsc_increment (sys_q s) (sq_head (sys_q s)) \<noteq> sq_tail (sys_q s) \<Longrightarrow>
    spsc_step s (s\<lparr> sys_prod := P_write x (sq_head (sys_q s))
      (spsc_increment (sys_q s) (sq_head (sys_q s))) \<rparr>)"
| push_write: "sys_prod s = P_write x h n \<Longrightarrow>
    spsc_step s (s\<lparr> sys_q := (sys_q s)\<lparr> sq_data := (sq_data (sys_q s))[h := x] \<rparr>,
      sys_prod := P_publish x n \<rparr>)"
| push_publish: "sys_prod s = P_publish x n \<Longrightarrow>
    spsc_step s (s\<lparr> sys_q := (sys_q s)\<lparr> sq_head := n \<rparr>, sys_prod := P_idle,
      sys_sent := sys_sent s @ [x] \<rparr>)"
| pop_check: "sys_cons s = C_idle \<Longrightarrow> sq_tail (sys_q s) \<noteq> sq_head (sys_q s) \<Longrightarrow>
    spsc_step s (s\<lparr> sys_cons := C_copy (sq_tail (sys_q s)) \<rparr>)"
| pop_copy: "sys_cons s = C_copy t \<Longrightarrow>
    spsc_step s (s\<lparr> sys_cons := C_release t (sq_data (sys_q s) ! t) \<rparr>)"
| pop_release: "sys_cons s = C_release t v \<Longrightarrow>
    spsc_step s (s\<lparr> sys_q := (sys_q s)\<lparr> sq_tail := spsc_increment (sys_q s) t \<rparr>,
      sys_cons := C_idle, sys_got := sys_got s @ [v] \<rparr>)"

inductive spsc_reach :: "'a \<Rightarrow> nat \<Rightarrow> 'a spsc_system \<Rightarrow> bool" for d :: 'a and cap :: nat where
  start: "spsc_reach d cap \<lparr> sys_q = spsc_new d cap, sys_prod = P_idle, sys_cons = C_idle,
    sys_sent = [], sys_got = [] \<rparr>"
| step: "spsc_reach d cap s \<Longrightarrow> spsc_step s s' \<Longrightarrow> spsc_reach d cap s'"

inductive_cases spsc_stepE: "spsc_step s s'"

text \<open>The invariant: what was sent is what was got followed by the queue's contents; a producer
  past its check still owns a free cell, a consumer past its check still owns the oldest element.\<close>

definition producer_ok :: "'a SpscQueue \<Rightarrow> 'a producer_pc \<Rightarrow> bool" where
  "producer_ok q p = (case p of P_idle \<Rightarrow> True
     | P_write x h n \<Rightarrow> h = sq_head q \<and> n = spsc_increment q h \<and> n \<noteq> sq_tail q
     | P_publish x n \<Rightarrow> n = spsc_increment q (sq_head q) \<and> n \<noteq> sq_tail q \<and>
         sq_data q ! sq_head q = x)"

definition consumer_ok :: "'a SpscQueue \<Rightarrow> 'a consumer_pc \<Rightarrow> bool" where
  "consumer_ok q c = (case c of C_idle \<Rightarrow> True
     | C_copy t \<Rightarrow> t = sq_tail q \<and> t \<noteq> sq_head q
     | C_release t v \<Rightarrow> t = sq_tail q \<and> t \<noteq> sq_head q \<and> v = sq_data q ! t)"

definition spsc_sys_inv :: "nat \<Rightarrow> 'a spsc_system \<Rightarrow> bool" where
  "spsc_sys_inv cap s \<longleftrightarrow> spsc_wf (sys_q s) \<and> length (sq_data (sys_q s)) = cap + 1 \<and>
     producer_ok (sys_q s) (sys_prod s) \<and> consumer_ok (sys_q s) (sys_cons s) \<and>
     sys_sent s = sys_got s @ spsc_contents (sys_q s)"

lemma ring_next_neq: "1 < S \<Longrightarrow> i < S \<Longrightarrow> ring_next S i \<noteq> i"
  by (auto simp: ring_next_cases)

lemma ring_next_inj: "i < S \<Longrightarrow> j < S \<Longrightarrow> ring_next S i = ring_next S j \<longleftrightarrow> i = j"
  by (auto simp: ring_next_cases)

lemma spsc_step_inv: "spsc_step s s' \<Longrightarrow> spsc_sys_inv cap s \<Longrightarrow> spsc_sys_inv cap s'"
proof (induction rule: spsc_step.induct)
  case (push_check s x)
  then show ?case by (simp add: spsc_sys_inv_def producer_ok_def)
next
  case (push_write s x h n)
  then show ?case
    by (auto simp: spsc_sys_inv_def producer_ok_def consumer_ok_def spsc_defs ring_contents_write
        ring_wf_def nth_list_update split: consumer_pc.splits)
next
  case (push_publish s x n)
  then show ?case
    using ring_contents_push [of "sq_data (sys_q s)" "sq_head (sys_q s)" "sq_tail (sys_q s)" x]
    by (auto simp: spsc_sys_inv_def producer_ok_def consumer_ok_def spsc_defs ring_wf_def
        ring_next_less split: consumer_pc.splits)
next
  case (pop_check s)
  then show ?case by (simp add: spsc_sys_inv_def consumer_ok_def)
next
  case (pop_copy s t)
  then show ?case by (simp add: spsc_sys_inv_def consumer_ok_def)
next
  case (pop_release s t v)
  let ?q = "sys_q s"
  from pop_release have wf: "ring_wf (sq_data ?q) (sq_head ?q) (sq_tail ?q)"
    and ne: "sq_head ?q \<noteq> sq_tail ?q" and v: "v = sq_data ?q ! sq_tail ?q" and t: "t = sq_tail ?q"
    by (auto simp: spsc_sys_inv_def consumer_ok_def spsc_wf_def)
  from pop_release ring_contents_pop [OF wf ne] wf show ?case
    unfolding t v
    by (auto simp: spsc_sys_inv_def producer_ok_def consumer_ok_def spsc_wf_def spsc_contents_def
        spsc_increment_def ring_wf_def ring_next_less ring_next_inj split: producer_pc.splits)
qed

lemma spsc_reach_inv: "spsc_reach d cap s \<Longrightarrow> 0 < cap \<Longrightarrow> spsc_sys_inv cap s"
proof (induction rule: spsc_reach.induct)
  case start
  then show ?case
    by (simp add: spsc_sys_inv_def producer_ok_def consumer_ok_def spsc_new_wf spsc_new_contents)
      (simp add: spsc_new_def)
next
  case (step s s')
  then show ?case by (blast intro: spsc_step_inv)
qed

end
