(* ===== verification/RtIpc.thy ===== *)
theory RtIpc
  imports RtContainers
begin

text \<open>
  The shared-memory channels of \<open>core/rt/ipc_channel.h\<close>: the owner latch, the single-producer
  single-consumer ring \<open>IpcSpscRing\<close> and the sequence-stamped \<open>IpcDoubleBuffer\<close>. A payload is the
  list of 64-bit words it occupies. The operations are modelled whole; every atomic access of the
  C++ body appears in its order.
\<close>

datatype IpcStatus = Ipc_ok | Ipc_empty | Ipc_full | Ipc_busy | Ipc_invalid_owner

record IpcWriteReservation =
  rsv_sequence :: u64
  rsv_slot :: nat
  rsv_active :: bool

type_synonym payload = "u64 list"


section \<open>Payload words and owner latch\<close>

fun store_payload :: "u64 list \<Rightarrow> payload \<Rightarrow> u64 list" where
  "store_payload (w # storage) (v # vs) = v # store_payload storage vs"
| "store_payload storage [] = storage"
| "store_payload [] vs = []"

definition load_payload :: "u64 list \<Rightarrow> payload" where
  "load_payload storage = map (\<lambda>i. storage ! i) [0..<length storage]"

definition claim_owner :: "u64 \<Rightarrow> u64 \<Rightarrow> u64 \<times> bool" where
  "claim_owner owner ident =
     (if ident = 0 then (owner, False)
      else if owner = 0 then (ident, True) else (owner, False))"

definition owner_matches :: "u64 \<Rightarrow> u64 \<Rightarrow> bool" where
  "owner_matches owner ident \<longleftrightarrow> ident \<noteq> 0 \<and> owner = ident"

lemma store_payload_same [simp]: "length storage = length v \<Longrightarrow> store_payload storage v = v"
  by (induction storage v rule: store_payload.induct) simp_all

lemma length_store_payload [simp]: "length (store_payload storage v) = length storage"
  by (induction storage v rule: store_payload.induct) simp_all

lemma load_payload_id [simp]: "load_payload ws = ws"
  by (simp add: load_payload_def map_nth)

lemma claim_owner_once:
  "claim_owner owner a = (owner', True) \<Longrightarrow> claim_owner owner' b = (owner', False)"
  by (auto simp: claim_owner_def split: if_splits)

lemma claim_owner_matches:
  "claim_owner owner a = (owner', True) \<Longrightarrow> owner_matches owner' a"
  by (auto simp: claim_owner_def owner_matches_def split: if_splits)


section \<open>IpcSpscRing\<close>

record IpcSpscRing =
  rg_slots :: "u64 list list"
  rg_writer_owner :: u64
  rg_reader_owner :: u64
  rg_head :: nat
  rg_tail :: nat

definition ring_initialize :: "nat \<Rightarrow> nat \<Rightarrow> IpcSpscRing" where
  "ring_initialize words capacity =
     \<lparr> rg_slots = replicate (capacity + 1) (replicate words 0), rg_writer_owner = 0,
       rg_reader_owner = 0, rg_head = 0, rg_tail = 0 \<rparr>"

definition ring_claim_writer :: "IpcSpscRing \<Rightarrow> u64 \<Rightarrow> IpcSpscRing \<times> bool" where
  "ring_claim_writer r ident =
     (let (owner, b) = claim_owner (rg_writer_owner r) ident in (r\<lparr> rg_writer_owner := owner \<rparr>, b))"

definition ring_claim_reader :: "IpcSpscRing \<Rightarrow> u64 \<Rightarrow> IpcSpscRing \<times> bool" where
  "ring_claim_reader r ident =
     (let (owner, b) = claim_owner (rg_reader_owner r) ident in (r\<lparr> rg_reader_owner := owner \<rparr>, b))"

definition ring_push :: "IpcSpscRing \<Rightarrow> u64 \<Rightarrow> payload \<Rightarrow> IpcSpscRing \<times> IpcStatus" where
  "ring_push r owner v =
     (if \<not> owner_matches (rg_writer_owner r) owner then (r, Ipc_invalid_owner)
      else let head = rg_head r; nxt = ring_next (length (rg_slots r)) head
        in if nxt = rg_tail r then (r, Ipc_full)
           else (r\<lparr> rg_slots := (rg_slots r)[head := store_payload (rg_slots r ! head) v],
                    rg_head := nxt \<rparr>, Ipc_ok))"

definition ring_pop :: "IpcSpscRing \<Rightarrow> u64 \<Rightarrow> IpcSpscRing \<times> IpcStatus \<times> payload option" where
  "ring_pop r owner =
     (if \<not> owner_matches (rg_reader_owner r) owner then (r, Ipc_invalid_owner, None)
      else let tail = rg_tail r
        in if tail = rg_head r then (r, Ipc_empty, None)
           else (r\<lparr> rg_tail := ring_next (length (rg_slots r)) tail \<rparr>, Ipc_ok,
                 Some (load_payload (rg_slots r ! tail))))"

definition ipc_ring_wf :: "nat \<Rightarrow> IpcSpscRing \<Rightarrow> bool" where
  "ipc_ring_wf words r \<longleftrightarrow> ring_wf (rg_slots r) (rg_head r) (rg_tail r) \<and>
     (\<forall>ws \<in> set (rg_slots r). length ws = words)"

definition ipc_ring_contents :: "IpcSpscRing \<Rightarrow> payload list" where
  "ipc_ring_contents r = ring_contents (rg_slots r) (rg_head r) (rg_tail r)"

definition ipc_ring_capacity :: "IpcSpscRing \<Rightarrow> nat" where
  "ipc_ring_capacity r = length (rg_slots r) - 1"

text \<open>The ring as its owners see it: the writer pushes with its own identity, the reader pops with
  its own. This is the client view that provides the FIFO contract.\<close>

definition owned_push :: "IpcSpscRing \<Rightarrow> payload \<Rightarrow> IpcSpscRing \<times> bool" where
  "owned_push r v = (let (r', st) = ring_push r (rg_writer_owner r) v in (r', st = Ipc_ok))"

definition owned_pop :: "IpcSpscRing \<Rightarrow> IpcSpscRing \<times> payload option" where
  "owned_pop r = (let (r', st, v) = ring_pop r (rg_reader_owner r) in (r', v))"

definition ipc_ring_owned :: "nat \<Rightarrow> IpcSpscRing \<Rightarrow> bool" where
  "ipc_ring_owned words r \<longleftrightarrow> ipc_ring_wf words r \<and> rg_writer_owner r \<noteq> 0 \<and> rg_reader_owner r \<noteq> 0"

lemmas ipc_ring_defs = ipc_ring_wf_def ipc_ring_contents_def ipc_ring_capacity_def
  ipc_ring_owned_def owned_push_def owned_pop_def ring_push_def ring_pop_def owner_matches_def

lemma ring_initialize_wf: "0 < capacity \<Longrightarrow> ipc_ring_wf words (ring_initialize words capacity)"
  by (auto simp: ipc_ring_wf_def ring_initialize_def ring_wf_def)

lemma ring_push_wrong_owner:
  "owner \<noteq> rg_writer_owner r \<or> owner = 0 \<Longrightarrow> ring_push r owner v = (r, Ipc_invalid_owner)"
  by (auto simp: ring_push_def owner_matches_def)

lemma ring_pop_wrong_owner:
  "owner \<noteq> rg_reader_owner r \<or> owner = 0 \<Longrightarrow> ring_pop r owner = (r, Ipc_invalid_owner, None)"
  by (auto simp: ring_pop_def owner_matches_def)

lemma owned_push_full:
  assumes "ipc_ring_owned words r" "length (ipc_ring_contents r) = ipc_ring_capacity r"
  shows "owned_push r v = (r, False)"
  using assms ring_full_length [of "rg_slots r" "rg_head r" "rg_tail r"]
  by (auto simp: ipc_ring_defs Let_def)

lemma owned_push_room:
  assumes wf: "ipc_ring_owned words r" and len: "length v = words"
    and room: "length (ipc_ring_contents r) < ipc_ring_capacity r"
  shows "snd (owned_push r v)"
    and "ipc_ring_contents (fst (owned_push r v)) = ipc_ring_contents r @ [v]"
    and "ipc_ring_owned words (fst (owned_push r v))"
    and "ipc_ring_capacity (fst (owned_push r v)) = ipc_ring_capacity r"
proof -
  let ?S = "length (rg_slots r)"
  from wf have rw: "ring_wf (rg_slots r) (rg_head r) (rg_tail r)"
    and ow: "rg_writer_owner r \<noteq> 0" "rg_reader_owner r \<noteq> 0"
    and ln: "\<forall>ws \<in> set (rg_slots r). length ws = words"
    by (auto simp: ipc_ring_owned_def ipc_ring_wf_def)
  from room rw have ne: "ring_next ?S (rg_head r) \<noteq> rg_tail r"
    using ring_full_length [OF rw] by (auto simp: ipc_ring_contents_def ipc_ring_capacity_def)
  have st: "store_payload (rg_slots r ! rg_head r) v = v"
    using rw ln len by (simp add: ring_wf_def)
  have eq: "owned_push r v = (r\<lparr> rg_slots := (rg_slots r)[rg_head r := v],
      rg_head := ring_next ?S (rg_head r) \<rparr>, True)"
    using ow ne st by (simp add: owned_push_def ring_push_def owner_matches_def Let_def)
  show "snd (owned_push r v)" by (simp add: eq)
  show "ipc_ring_contents (fst (owned_push r v)) = ipc_ring_contents r @ [v]"
    using ring_contents_enqueue [OF rw ne] by (simp add: eq ipc_ring_contents_def)
  show "ipc_ring_owned words (fst (owned_push r v))"
    using rw ow ln len set_update_subset_insert [of "rg_slots r" "rg_head r" v]
    by (auto simp: eq ipc_ring_owned_def ipc_ring_wf_def ring_wf_push)
  show "ipc_ring_capacity (fst (owned_push r v)) = ipc_ring_capacity r"
    by (simp add: eq ipc_ring_capacity_def)
qed

lemma owned_pop_empty:
  assumes "ipc_ring_owned words r" "ipc_ring_contents r = []"
  shows "owned_pop r = (r, None)"
  using assms by (simp add: ipc_ring_defs ring_contents_nil Let_def)

lemma owned_pop_some:
  assumes wf: "ipc_ring_owned words r" and c: "ipc_ring_contents r = v # vs"
  shows "snd (owned_pop r) = Some v \<and> ipc_ring_contents (fst (owned_pop r)) = vs"
proof -
  from wf have rw: "ring_wf (rg_slots r) (rg_head r) (rg_tail r)" "rg_reader_owner r \<noteq> 0"
    by (auto simp: ipc_ring_owned_def ipc_ring_wf_def)
  from c have ne: "rg_head r \<noteq> rg_tail r"
    using ring_contents_nil [OF rw(1)] by (auto simp: ipc_ring_contents_def)
  from ring_contents_pop [OF rw(1) ne] c rw ne show ?thesis
    by (simp add: ipc_ring_contents_def owned_pop_def ring_pop_def owner_matches_def Let_def)
qed

lemma owned_pop_frame:
  assumes "ipc_ring_owned words r"
  shows "ipc_ring_owned words (fst (owned_pop r))"
    and "ipc_ring_capacity (fst (owned_pop r)) = ipc_ring_capacity r"
  using assms
  by (auto simp: ipc_ring_owned_def ipc_ring_wf_def ipc_ring_capacity_def owned_pop_def
      ring_pop_def owner_matches_def Let_def ring_wf_pop)

lemma owned_push_frame:
  assumes "ipc_ring_owned words r" "length v = words"
  shows "ipc_ring_owned words (fst (owned_push r v)) \<and>
    ipc_ring_capacity (fst (owned_push r v)) = ipc_ring_capacity r"
proof (cases "length (ipc_ring_contents r) < ipc_ring_capacity r")
  case True
  with owned_push_room [OF assms] show ?thesis by blast
next
  case False
  moreover from assms have "length (ipc_ring_contents r) \<le> ipc_ring_capacity r"
    unfolding ipc_ring_contents_def ipc_ring_capacity_def ipc_ring_owned_def ipc_ring_wf_def
    by (blast intro: ring_contents_bound)
  ultimately show ?thesis using owned_push_full [OF assms(1)] assms(1) by simp
qed

interpretation ipc_ring: bounded_fifo owned_push owned_pop ipc_ring_contents
    "ipc_ring_owned words" "\<lambda>_ v. length v = words" ipc_ring_capacity
  for words :: nat
proof unfold_locales
  fix r assume "ipc_ring_owned words r"
  then show "length (ipc_ring_contents r) \<le> ipc_ring_capacity r"
    unfolding ipc_ring_contents_def ipc_ring_capacity_def ipc_ring_owned_def ipc_ring_wf_def
    by (blast intro: ring_contents_bound)
qed (auto simp: owned_push_full owned_push_room owned_push_frame owned_pop_empty owned_pop_some
    owned_pop_frame prod_eq_iff)


section \<open>IpcDoubleBuffer\<close>

record DbSlot =
  db_words :: "u64 list"
  db_stamp :: u64

record IpcDoubleBuffer =
  db_slots :: "DbSlot list"
  db_writer_owner :: u64
  db_pending_state :: u64
  db_published_state :: u64

definition CommittingState :: u64 where "CommittingState = NOT 0"

definition pack_state :: "u64 \<Rightarrow> nat \<Rightarrow> u64" where
  "pack_state sequence slot = push_bit 1 sequence OR (of_nat slot AND 1)"

definition unpack_sequence :: "u64 \<Rightarrow> u64" where
  "unpack_sequence state = drop_bit 1 state"

definition unpack_slot :: "u64 \<Rightarrow> nat" where
  "unpack_slot state = unat (state AND 1)"

definition db_initialize :: "nat \<Rightarrow> IpcDoubleBuffer" where
  "db_initialize words =
     \<lparr> db_slots = replicate 2 \<lparr> db_words = replicate words 0, db_stamp = 0 \<rparr>,
       db_writer_owner = 0, db_pending_state = 0, db_published_state = 0 \<rparr>"

definition db_claim_writer :: "IpcDoubleBuffer \<Rightarrow> u64 \<Rightarrow> IpcDoubleBuffer \<times> bool" where
  "db_claim_writer d ident =
     (let (owner, b) = claim_owner (db_writer_owner d) ident in (d\<lparr> db_writer_owner := owner \<rparr>, b))"

definition set_slot :: "IpcDoubleBuffer \<Rightarrow> nat \<Rightarrow> (DbSlot \<Rightarrow> DbSlot) \<Rightarrow> IpcDoubleBuffer" where
  "set_slot d i f = d\<lparr> db_slots := (db_slots d)[i := f (db_slots d ! i)] \<rparr>"

definition begin_publish ::
  "IpcDoubleBuffer \<Rightarrow> u64 \<Rightarrow> IpcWriteReservation \<Rightarrow> IpcDoubleBuffer \<times> IpcWriteReservation \<times> IpcStatus"
where
  "begin_publish d owner rsv =
     (if \<not> owner_matches (db_writer_owner d) owner then (d, rsv, Ipc_invalid_owner)
      else let state = db_published_state d;
               sequence = unpack_sequence state;
               active_slot = unpack_slot state;
               pending_slot = (if sequence = 0 then 0 else active_slot XOR 1);
               pending = pack_state (sequence + 1) pending_slot
           in if db_pending_state d \<noteq> 0 then (d, rsv, Ipc_busy)
              else let rsv' = \<lparr> rsv_sequence = sequence + 1, rsv_slot = pending_slot,
                                rsv_active = True \<rparr>
                   in (set_slot (d\<lparr> db_pending_state := pending \<rparr>) pending_slot
                         (\<lambda>s. s\<lparr> db_stamp := push_bit 1 (sequence + 1) OR 1 \<rparr>), rsv', Ipc_ok))"

definition write_pending ::
  "IpcDoubleBuffer \<Rightarrow> u64 \<Rightarrow> IpcWriteReservation \<Rightarrow> payload \<Rightarrow> IpcDoubleBuffer \<times> IpcStatus"
where
  "write_pending d owner rsv v =
     (if \<not> owner_matches (db_writer_owner d) owner then (d, Ipc_invalid_owner)
      else if \<not> rsv_active rsv \<or> length (db_slots d) \<le> rsv_slot rsv then (d, Ipc_busy)
      else let pending = db_pending_state d
        in if pending = 0 \<or> pending \<noteq> pack_state (rsv_sequence rsv) (rsv_slot rsv) then (d, Ipc_busy)
           else (set_slot d (rsv_slot rsv) (\<lambda>s. s\<lparr> db_words := store_payload (db_words s) v \<rparr>),
                 Ipc_ok))"

definition commit_publish ::
  "IpcDoubleBuffer \<Rightarrow> u64 \<Rightarrow> IpcWriteReservation \<Rightarrow> IpcDoubleBuffer \<times> IpcWriteReservation \<times> IpcStatus"
where
  "commit_publish d owner rsv =
     (if \<not> owner_matches (db_writer_owner d) owner then (d, rsv, Ipc_invalid_owner)
      else if \<not> rsv_active rsv \<or> length (db_slots d) \<le> rsv_slot rsv then (d, rsv, Ipc_busy)
      else let pending = pack_state (rsv_sequence rsv) (rsv_slot rsv)
        in if db_pending_state d \<noteq> pending then (d, rsv, Ipc_busy)
           else let d1 = d\<lparr> db_pending_state := CommittingState \<rparr>;
                    d2 = set_slot d1 (rsv_slot rsv) (\<lambda>s. s\<lparr> db_stamp := push_bit 1 (rsv_sequence rsv) \<rparr>);
                    d3 = d2\<lparr> db_published_state := pack_state (rsv_sequence rsv) (rsv_slot rsv) \<rparr>
                in (d3\<lparr> db_pending_state := 0 \<rparr>, rsv\<lparr> rsv_active := False \<rparr>, Ipc_ok))"

definition db_publish :: "IpcDoubleBuffer \<Rightarrow> u64 \<Rightarrow> payload \<Rightarrow> IpcDoubleBuffer \<times> IpcStatus" where
  "db_publish d owner v =
     (let rsv0 = \<lparr> rsv_sequence = 0, rsv_slot = 0, rsv_active = False \<rparr>;
          (d1, rsv, st) = begin_publish d owner rsv0
      in if st \<noteq> Ipc_ok then (d1, st)
         else let (d2, st2) = write_pending d1 owner rsv v
           in if st2 \<noteq> Ipc_ok then (d2\<lparr> db_pending_state := 0 \<rparr>, st2)
              else let (d3, _, st3) = commit_publish d2 owner rsv in (d3, st3))"

text \<open>\<open>read\<close> loads the state, the stamp, the words, the stamp and the state again; an undisturbed
  attempt sees one state throughout. \<open>attempts\<close> is the \<open>max_retries\<close> bound of the loop.\<close>

fun read_attempts :: "IpcDoubleBuffer \<Rightarrow> nat \<Rightarrow> IpcStatus \<times> (payload \<times> u64) option" where
  "read_attempts d 0 = (Ipc_busy, None)"
| "read_attempts d (Suc n) =
     (let state = db_published_state d; sequence = unpack_sequence state
      in if sequence = 0 then (Ipc_empty, None)
         else let s = db_slots d ! unpack_slot state; begn = db_stamp s
           in if begn \<noteq> push_bit 1 sequence then read_attempts d n
              else let v = load_payload (db_words s); fin = db_stamp s
                in if begn = fin \<and> db_published_state d = state then (Ipc_ok, Some (v, sequence))
                   else read_attempts d n)"

definition db_read :: "IpcDoubleBuffer \<Rightarrow> nat \<Rightarrow> IpcStatus \<times> (payload \<times> u64) option" where
  "db_read d max_retries =
     (if unpack_sequence (db_published_state d) = 0 then (Ipc_empty, None)
      else if max_retries = 0 then (Ipc_busy, None)
      else read_attempts d max_retries)"

definition db_wf :: "nat \<Rightarrow> IpcDoubleBuffer \<Rightarrow> bool" where
  "db_wf words d \<longleftrightarrow> length (db_slots d) = 2 \<and> (\<forall>s \<in> set (db_slots d). length (db_words s) = words)"

lemma unpack_slot_bound: "unpack_slot st < 2"
proof -
  have "state AND 1 \<le> 1" for state :: u64 by (rule word_and_le1)
  then have "unat (st AND 1) \<le> unat (1 :: u64)" by (simp only: word_le_nat_alt)
  then show ?thesis by (simp add: unpack_slot_def)
qed

lemma unpack_slot_pack: "slot < 2 \<Longrightarrow> unpack_slot (pack_state sq slot) = slot"
proof -
  assume "slot < 2"
  then consider "slot = 0" | "slot = 1" by linarith
  then show ?thesis
  proof cases
    case 1
    then show ?thesis by (simp add: unpack_slot_def pack_state_def and_one_eq mod_2_eq_odd)
  next
    case 2
    then show ?thesis
      by (simp add: unpack_slot_def pack_state_def and_one_eq mod_2_eq_odd even_or_iff)
  qed
qed

lemma unpack_sequence_pack:
  assumes "sq < 2 ^ 63"
  shows "unpack_sequence (pack_state sq slot) = sq"
proof (rule bit_eqI)
  fix n assume "possible_bit TYPE(64 word) n"
  have hi: "\<not> bit sq n" if "63 \<le> n"
  proof -
    have "drop_bit 63 sq = 0" using assms by (simp add: drop_bit_eq_div div_word_less)
    then have "\<not> bit (drop_bit 63 sq) (n - 63)" by simp
    with that show ?thesis by (simp add: bit_drop_bit_eq)
  qed
  show "bit (unpack_sequence (pack_state sq slot)) n = bit sq n"
    by (cases "n < 63")
      (auto simp: unpack_sequence_def pack_state_def bit_drop_bit_eq bit_or_iff bit_push_bit_iff
        bit_and_iff bit_1_iff hi bit_double_iff mult.commute [of sq 2] simp del: drop_bit_or)
qed

lemma pack_state_nonzero:
  assumes "sq < 2 ^ 63" "sq \<noteq> 0"
  shows "pack_state sq slot \<noteq> 0"
  using unpack_sequence_pack [OF assms(1), of slot] assms(2)
  by (auto simp: unpack_sequence_def)


text \<open>One publication by the owner, then a read: the reader gets the words and a sequence number
  one above the previous one, from whichever slot was the free one. The bound keeps the 63-bit
  sequence from wrapping.\<close>

lemma slot_overwritten:
  "(s :: DbSlot)\<lparr> db_words := v, db_stamp := x \<rparr> = \<lparr> db_words = v, db_stamp = x \<rparr>"
  by (cases s) simp

lemma pending_cleared:
  "db_pending_state d = 0 \<Longrightarrow>
    d\<lparr> db_slots := a, db_published_state := b, db_pending_state := 0 \<rparr> =
    (d :: IpcDoubleBuffer)\<lparr> db_slots := a, db_published_state := b \<rparr>"
  by (cases d) simp

lemma slot_xor_bound: "i < 2 \<Longrightarrow> i XOR 1 < (2 :: nat)"
  by (auto simp: less_2_cases_iff)

lemma begin_publish_free:
  assumes "owner_matches (db_writer_owner d) owner" "db_pending_state d = 0"
  defines "sq \<equiv> unpack_sequence (db_published_state d) + 1"
    and "slot \<equiv> (if unpack_sequence (db_published_state d) = 0 then 0
      else unpack_slot (db_published_state d) XOR 1)"
  shows "begin_publish d owner rsv =
    (set_slot (d\<lparr> db_pending_state := pack_state sq slot \<rparr>) slot
       (\<lambda>s. s\<lparr> db_stamp := push_bit 1 sq OR 1 \<rparr>),
     \<lparr> rsv_sequence = sq, rsv_slot = slot, rsv_active = True \<rparr>, Ipc_ok)"
  using assms by (simp add: begin_publish_def Let_def)

lemma db_publish_result:
  assumes own: "owner_matches (db_writer_owner d) owner" and idle: "db_pending_state d = 0"
    and wf: "db_wf words d" and len: "length v = words"
    and sq: "sq = unpack_sequence (db_published_state d) + 1"
    and slot: "slot = (if unpack_sequence (db_published_state d) = 0 then 0
      else unpack_slot (db_published_state d) XOR 1)"
    and bnd: "unpack_sequence (db_published_state d) + 1 < 2 ^ 63"
      "unpack_sequence (db_published_state d) + 1 \<noteq> 0"
  shows "db_publish d owner v =
    (d\<lparr> db_slots := (db_slots d)[slot := \<lparr> db_words = v, db_stamp = push_bit 1 sq \<rparr>],
        db_published_state := pack_state sq slot \<rparr>, Ipc_ok)"
proof -
  have s2: "slot < 2" using unpack_slot_bound by (simp add: slot slot_xor_bound [unfolded One_nat_def])
  have l2: "length (db_slots d) = 2" using wf by (simp add: db_wf_def)
  with wf s2 have lw: "length (db_words (db_slots d ! slot)) = words" by (simp add: db_wf_def)
  have nz: "pack_state sq slot \<noteq> 0" using bnd by (simp add: sq pack_state_nonzero)
  show ?thesis
    unfolding db_publish_def Let_def begin_publish_free [OF own idle] sq [symmetric] slot [symmetric]
    using own l2 s2 nz len lw idle
    by (simp add: write_pending_def commit_publish_def set_slot_def Let_def slot_overwritten
        pending_cleared)
qed

lemma db_read_published:
  assumes "db_wf words d" "slot < 2" "sq < 2 ^ 63" "sq \<noteq> 0"
    and "db_published_state d = pack_state sq slot"
    and "db_slots d ! slot = \<lparr> db_words = v, db_stamp = push_bit 1 sq \<rparr>"
    and "0 < n"
  shows "db_read d n = (Ipc_ok, Some (v, sq))"
  using assms by (cases n)
    (simp_all add: db_read_def unpack_sequence_pack unpack_slot_pack Let_def)

lemma db_publish_busy:
  "owner_matches (db_writer_owner d) owner \<Longrightarrow> db_pending_state d \<noteq> 0 \<Longrightarrow>
    db_publish d owner v = (d, Ipc_busy)"
  by (simp add: db_publish_def begin_publish_def Let_def)

lemma db_publish_wrong_owner:
  "\<not> owner_matches (db_writer_owner d) owner \<Longrightarrow> db_publish d owner v = (d, Ipc_invalid_owner)"
  by (simp add: db_publish_def begin_publish_def Let_def)

lemma publish_then_read:
  assumes own: "owner_matches (db_writer_owner d) owner" and idle: "db_pending_state d = 0"
    and wf: "db_wf words d" and len: "length v = words"
    and bnd: "unpack_sequence (db_published_state d) + 1 < 2 ^ 63" and n: "0 < n"
  shows "\<exists>d'. db_publish d owner v = (d', Ipc_ok) \<and>
    db_read d' n = (Ipc_ok, Some (v, unpack_sequence (db_published_state d) + 1)) \<and>
    db_wf words d' \<and> db_pending_state d' = 0"
proof -
  let ?sq = "unpack_sequence (db_published_state d) + 1"
  let ?slot = "if unpack_sequence (db_published_state d) = 0 then 0
      else unpack_slot (db_published_state d) XOR 1"
  let ?d = "d\<lparr> db_slots := (db_slots d)[?slot := \<lparr> db_words = v, db_stamp = push_bit 1 ?sq \<rparr>],
        db_published_state := pack_state ?sq ?slot \<rparr>"
  have nz: "?sq \<noteq> 0"
  proof
    assume "?sq = 0"
    then have "unpack_sequence (db_published_state d) = - 1" by (simp add: add_eq_0_iff2)
    moreover have "\<not> bit (unpack_sequence (db_published_state d)) 63"
      by (auto simp: unpack_sequence_def bit_drop_bit_eq dest: bit_imp_le_length)
    ultimately show False by simp
  qed
  have s2: "?slot < 2" using unpack_slot_bound by (simp add: slot_xor_bound [unfolded One_nat_def])
  have l2: "length (db_slots d) = 2" using wf by (simp add: db_wf_def)
  have wf': "db_wf words ?d"
    using wf len set_update_subset_insert [of "db_slots d" ?slot "\<lparr> db_words = v, db_stamp = push_bit 1 ?sq \<rparr>"]
    by (auto simp: db_wf_def)
  have "db_read ?d n = (Ipc_ok, Some (v, ?sq))"
    by (rule db_read_published [OF wf' s2 bnd nz _ _ n]) (use s2 l2 in simp_all)
  then show ?thesis
    using db_publish_result [OF own idle wf len refl refl bnd nz] wf' idle by auto
qed

end
