(* ===== verification/Diag.thy ===== *)
theory Diag
  imports Prelude
begin

text \<open>
  The diagnostics of the compiler (\<open>core/st/diag.h\<close>). A \<open>DiagCode\<close> is an enumeration with explicit
  values that travel as \<open>std::uint16_t\<close> in a token; here it is that number, with the names of the
  enumerators as abbreviations.
\<close>

type_synonym DiagCode = nat

abbreviation (input) "D_lex_invalid_character \<equiv> 100 :: nat"
abbreviation (input) "D_lex_unterminated_comment \<equiv> 101 :: nat"
abbreviation (input) "D_lex_bad_numeric_literal \<equiv> 102 :: nat"
abbreviation (input) "D_lex_bad_time_literal \<equiv> 103 :: nat"
abbreviation (input) "D_lex_literal_overflow \<equiv> 104 :: nat"
abbreviation (input) "D_lex_bad_identifier \<equiv> 105 :: nat"
abbreviation (input) "D_parse_expected_token \<equiv> 200 :: nat"
abbreviation (input) "D_parse_unexpected_token \<equiv> 201 :: nat"
abbreviation (input) "D_parse_nesting_too_deep \<equiv> 202 :: nat"
abbreviation (input) "D_parse_expected_statement \<equiv> 203 :: nat"
abbreviation (input) "D_parse_expected_expression \<equiv> 204 :: nat"
abbreviation (input) "D_parse_expected_type \<equiv> 205 :: nat"
abbreviation (input) "D_sema_unknown_identifier \<equiv> 300 :: nat"
abbreviation (input) "D_sema_duplicate_identifier \<equiv> 301 :: nat"
abbreviation (input) "D_sema_type_mismatch \<equiv> 302 :: nat"
abbreviation (input) "D_sema_literal_out_of_range \<equiv> 303 :: nat"
abbreviation (input) "D_sema_not_assignable \<equiv> 304 :: nat"
abbreviation (input) "D_sema_division_by_zero_const \<equiv> 305 :: nat"
abbreviation (input) "D_sema_for_control_assigned \<equiv> 306 :: nat"
abbreviation (input) "D_sema_for_step_zero_const \<equiv> 307 :: nat"
abbreviation (input) "D_sema_exit_outside_loop \<equiv> 308 :: nat"
abbreviation (input) "D_sema_unknown_fb_pin \<equiv> 309 :: nat"
abbreviation (input) "D_sema_pin_not_input \<equiv> 310 :: nat"
abbreviation (input) "D_sema_pin_not_output \<equiv> 311 :: nat"
abbreviation (input) "D_sema_not_const_expr \<equiv> 312 :: nat"
abbreviation (input) "D_sema_case_label_duplicate \<equiv> 313 :: nat"
abbreviation (input) "D_sema_case_label_range_invalid \<equiv> 314 :: nat"
abbreviation (input) "D_sema_not_fb_instance \<equiv> 315 :: nat"
abbreviation (input) "D_sema_operand_type_invalid \<equiv> 316 :: nat"
abbreviation (input) "D_sema_ambiguous_literal \<equiv> 317 :: nat"
abbreviation (input) "D_sema_range_violation \<equiv> 318 :: nat"
abbreviation (input) "D_sema_index_out_of_range \<equiv> 319 :: nat"
abbreviation (input) "D_sema_invalid_array_bounds \<equiv> 320 :: nat"
abbreviation (input) "D_sema_recursive_type \<equiv> 321 :: nat"
abbreviation (input) "D_sema_string_capacity_exceeded \<equiv> 322 :: nat"
abbreviation (input) "D_sema_invalid_string_literal \<equiv> 323 :: nat"
abbreviation (input) "D_date_time_range_violation \<equiv> 324 :: nat"
abbreviation (input) "D_sema_alias_violation \<equiv> 325 :: nat"
abbreviation (input) "D_sema_inout_requires_lvalue \<equiv> 326 :: nat"
abbreviation (input) "D_sema_missing_argument \<equiv> 327 :: nat"
abbreviation (input) "D_sema_duplicate_argument \<equiv> 328 :: nat"
abbreviation (input) "D_sema_call_form_mixed \<equiv> 329 :: nat"
abbreviation (input) "D_sema_duplicate_pou \<equiv> 330 :: nat"
abbreviation (input) "D_sema_external_required \<equiv> 331 :: nat"
abbreviation (input) "D_sema_external_not_unique \<equiv> 332 :: nat"
abbreviation (input) "D_sema_fb_instance_required \<equiv> 333 :: nat"
abbreviation (input) "D_sema_standard_name_conflict \<equiv> 334 :: nat"
abbreviation (input) "D_sema_recursive_pou \<equiv> 335 :: nat"
abbreviation (input) "D_sema_no_matching_overload \<equiv> 336 :: nat"
abbreviation (input) "D_sema_ambiguous_overload \<equiv> 337 :: nat"
abbreviation (input) "D_sema_invalid_argument \<equiv> 338 :: nat"
abbreviation (input) "D_sema_process_image_overlap \<equiv> 339 :: nat"
abbreviation (input) "D_sema_task_interval_invalid \<equiv> 340 :: nat"
abbreviation (input) "D_sema_task_phase_invalid \<equiv> 341 :: nat"
abbreviation (input) "D_sema_task_priority_invalid \<equiv> 342 :: nat"
abbreviation (input) "D_sema_program_duplicate_mapping \<equiv> 343 :: nat"
abbreviation (input) "D_warning_program_unmapped \<equiv> 344 :: nat"
abbreviation (input) "D_unsupported_l5_task_control \<equiv> 345 :: nat"
abbreviation (input) "D_sema_unsafe_sfc_network \<equiv> 346 :: nat"
abbreviation (input) "D_sema_sfc_transition_side_effect \<equiv> 347 :: nat"
abbreviation (input) "D_capacity_code \<equiv> 400 :: nat"
abbreviation (input) "D_capacity_variables \<equiv> 401 :: nat"
abbreviation (input) "D_capacity_fb_instances \<equiv> 402 :: nat"
abbreviation (input) "D_capacity_diagnostics \<equiv> 403 :: nat"
abbreviation (input) "D_capacity_stack \<equiv> 404 :: nat"
abbreviation (input) "D_capacity_types \<equiv> 405 :: nat"
abbreviation (input) "D_capacity_exceeded \<equiv> 406 :: nat"
abbreviation (input) "D_capacity_resources \<equiv> 407 :: nat"
abbreviation (input) "D_capacity_tasks \<equiv> 408 :: nat"
abbreviation (input) "D_capacity_program_mappings \<equiv> 409 :: nat"
abbreviation (input) "D_unsupported_l1 \<equiv> 501 :: nat"
abbreviation (input) "D_unsupported_l2 \<equiv> 502 :: nat"
abbreviation (input) "D_unsupported_l3 \<equiv> 503 :: nat"
abbreviation (input) "D_unsupported_l4 \<equiv> 504 :: nat"
abbreviation (input) "D_unsupported_l5 \<equiv> 505 :: nat"
abbreviation (input) "D_unsupported_l6 \<equiv> 506 :: nat"
abbreviation (input) "D_unsupported_l7 \<equiv> 507 :: nat"
abbreviation (input) "D_unsupported_non_goal \<equiv> 508 :: nat"
abbreviation (input) "D_unsupported_l1b2_dynamic_array \<equiv> 509 :: nat"
abbreviation (input) "D_unsupported_l1b3_timezone \<equiv> 510 :: nat"
abbreviation (input) "D_unsupported_l2b_object_extension \<equiv> 511 :: nat"

definition diag_names :: "(DiagCode \<times> string) list" where
  "diag_names =
     [(D_lex_invalid_character, ''lex_invalid_character''),
      (D_lex_unterminated_comment, ''lex_unterminated_comment''),
      (D_lex_bad_numeric_literal, ''lex_bad_numeric_literal''),
      (D_lex_bad_time_literal, ''lex_bad_time_literal''),
      (D_lex_literal_overflow, ''lex_literal_overflow''),
      (D_lex_bad_identifier, ''lex_bad_identifier''),
      (D_parse_expected_token, ''parse_expected_token''),
      (D_parse_unexpected_token, ''parse_unexpected_token''),
      (D_parse_nesting_too_deep, ''parse_nesting_too_deep''),
      (D_parse_expected_statement, ''parse_expected_statement''),
      (D_parse_expected_expression, ''parse_expected_expression''),
      (D_parse_expected_type, ''parse_expected_type''),
      (D_sema_unknown_identifier, ''sema_unknown_identifier''),
      (D_sema_duplicate_identifier, ''sema_duplicate_identifier''),
      (D_sema_type_mismatch, ''sema_type_mismatch''),
      (D_sema_literal_out_of_range, ''sema_literal_out_of_range''),
      (D_sema_not_assignable, ''sema_not_assignable''),
      (D_sema_division_by_zero_const, ''sema_division_by_zero_const''),
      (D_sema_for_control_assigned, ''sema_for_control_assigned''),
      (D_sema_for_step_zero_const, ''sema_for_step_zero_const''),
      (D_sema_exit_outside_loop, ''sema_exit_outside_loop''),
      (D_sema_unknown_fb_pin, ''sema_unknown_fb_pin''),
      (D_sema_pin_not_input, ''sema_pin_not_input''),
      (D_sema_pin_not_output, ''sema_pin_not_output''),
      (D_sema_not_const_expr, ''sema_not_const_expr''),
      (D_sema_case_label_duplicate, ''sema_case_label_duplicate''),
      (D_sema_case_label_range_invalid, ''sema_case_label_range_invalid''),
      (D_sema_not_fb_instance, ''sema_not_fb_instance''),
      (D_sema_operand_type_invalid, ''sema_operand_type_invalid''),
      (D_sema_ambiguous_literal, ''sema_ambiguous_literal''),
      (D_sema_range_violation, ''sema_range_violation''),
      (D_sema_index_out_of_range, ''sema_index_out_of_range''),
      (D_sema_invalid_array_bounds, ''sema_invalid_array_bounds''),
      (D_sema_recursive_type, ''sema_recursive_type''),
      (D_sema_string_capacity_exceeded, ''sema_string_capacity_exceeded''),
      (D_sema_invalid_string_literal, ''sema_invalid_string_literal''),
      (D_date_time_range_violation, ''date_time_range_violation''),
      (D_sema_alias_violation, ''sema_alias_violation''),
      (D_sema_inout_requires_lvalue, ''sema_inout_requires_lvalue''),
      (D_sema_missing_argument, ''sema_missing_argument''),
      (D_sema_duplicate_argument, ''sema_duplicate_argument''),
      (D_sema_call_form_mixed, ''sema_call_form_mixed''),
      (D_sema_duplicate_pou, ''sema_duplicate_pou''),
      (D_sema_external_required, ''sema_external_required''),
      (D_sema_external_not_unique, ''sema_external_not_unique''),
      (D_sema_fb_instance_required, ''sema_fb_instance_required''),
      (D_sema_standard_name_conflict, ''sema_standard_name_conflict''),
      (D_sema_recursive_pou, ''sema_recursive_pou''),
      (D_sema_no_matching_overload, ''sema_no_matching_overload''),
      (D_sema_ambiguous_overload, ''sema_ambiguous_overload''),
      (D_sema_invalid_argument, ''sema_invalid_argument''),
      (D_sema_process_image_overlap, ''sema_process_image_overlap''),
      (D_sema_task_interval_invalid, ''sema_task_interval_invalid''),
      (D_sema_task_phase_invalid, ''sema_task_phase_invalid''),
      (D_sema_task_priority_invalid, ''sema_task_priority_invalid''),
      (D_sema_program_duplicate_mapping, ''sema_program_duplicate_mapping''),
      (D_warning_program_unmapped, ''warning_program_unmapped''),
      (D_unsupported_l5_task_control, ''unsupported_l5_task_control''),
      (D_sema_unsafe_sfc_network, ''sema_unsafe_sfc_network''),
      (D_sema_sfc_transition_side_effect, ''sema_sfc_transition_side_effect''),
      (D_capacity_code, ''capacity_code''), (D_capacity_variables, ''capacity_variables''),
      (D_capacity_fb_instances, ''capacity_fb_instances''),
      (D_capacity_diagnostics, ''capacity_diagnostics''), (D_capacity_stack, ''capacity_stack''),
      (D_capacity_types, ''capacity_types''), (D_capacity_exceeded, ''capacity_exceeded''),
      (D_capacity_resources, ''capacity_resources''), (D_capacity_tasks, ''capacity_tasks''),
      (D_capacity_program_mappings, ''capacity_program_mappings''),
      (D_unsupported_l1, ''unsupported_l1''), (D_unsupported_l2, ''unsupported_l2''),
      (D_unsupported_l3, ''unsupported_l3''), (D_unsupported_l4, ''unsupported_l4''),
      (D_unsupported_l5, ''unsupported_l5''), (D_unsupported_l6, ''unsupported_l6''),
      (D_unsupported_l7, ''unsupported_l7''), (D_unsupported_non_goal, ''unsupported_non_goal''),
      (D_unsupported_l1b2_dynamic_array, ''unsupported_l1b2_dynamic_array''),
      (D_unsupported_l1b3_timezone, ''unsupported_l1b3_timezone''),
      (D_unsupported_l2b_object_extension, ''unsupported_l2b_object_extension'')]"

definition diag_to_string :: "DiagCode \<Rightarrow> string" where
  "diag_to_string code = (case map_of diag_names code of Some s \<Rightarrow> s | None \<Rightarrow> ''unknown'')"

text \<open>The codes are stable identifiers: none is used twice.\<close>

lemma diag_names_distinct: "distinct (map fst diag_names)"
  by (simp add: diag_names_def)

lemma diag_code_named: "(code, name) \<in> set diag_names \<Longrightarrow> diag_to_string code = name"
  using diag_names_distinct by (simp add: diag_to_string_def map_of_eq_Some_iff)

record Diagnostic =
  dg_line :: int
  dg_column :: int
  dg_code :: DiagCode
  dg_message :: string

end
