(* ===== verification/Ieee.thy ===== *)
theory Ieee
  imports Bytecode
begin

text \<open>
  The floating-point arithmetic the interpreter applies to slots. A \<open>REAL\<close> or \<open>LREAL\<close> value lives in a
  slot as the bits of a \<open>double\<close> (\<open>detail::bits_double\<close>, \<open>detail::double_bits\<close> in \<open>core/st/types.h\<close>);
  \<open>REAL\<close> operations compute in \<open>float\<close> and widen the result. Both formats are the binary formats of
  IEEE 754 with rounding to nearest, ties to even: a bit pattern decodes to an exact dyadic value, an
  operation is exact and the result is rounded once. C++ leaves the payload of a NaN open; every NaN
  an operation produces here is one fixed pattern. The functions of \<open><cmath>\<close> that are not
  exactly specified are the fields of \<open>libm\<close>.
\<close>

datatype fmt = Single | Double

primrec precision :: "fmt \<Rightarrow> nat" where
  "precision Single = 24"
| "precision Double = 53"

primrec exponent_bits :: "fmt \<Rightarrow> nat" where
  "exponent_bits Single = 8"
| "exponent_bits Double = 11"

text \<open>The exponent of the last place of a subnormal.\<close>

primrec emin :: "fmt \<Rightarrow> int" where
  "emin Single = -149"
| "emin Double = -1074"

text \<open>\<open>FP_fin s m e\<close> is the value $m \cdot 2^e$ with sign \<open>s\<close>.\<close>

datatype fp = FP_nan | FP_inf bool | FP_fin bool nat int

definition inf_bits :: "fmt \<Rightarrow> nat" where
  "inf_bits f = (2 ^ exponent_bits f - 1) * 2 ^ (precision f - 1)"

definition nan_bits :: "fmt \<Rightarrow> nat" where
  "nan_bits f = inf_bits f + 2 ^ (precision f - 2)"

definition sign_weight :: "fmt \<Rightarrow> nat" where
  "sign_weight f = 2 ^ (precision f - 1 + exponent_bits f)"

definition decode :: "fmt \<Rightarrow> nat \<Rightarrow> fp" where
  "decode f x =
     (let s = (x div sign_weight f) mod 2 = 1;
          k = (x div 2 ^ (precision f - 1)) mod 2 ^ exponent_bits f;
          m = x mod 2 ^ (precision f - 1)
      in if k = 2 ^ exponent_bits f - 1 then (if m = 0 then FP_inf s else FP_nan)
         else if k = 0 then FP_fin s m (emin f)
         else FP_fin s (m + 2 ^ (precision f - 1)) (emin f + int k - 1))"

fun bit_length :: "nat \<Rightarrow> nat" where
  "bit_length n = (if n = 0 then 0 else Suc (bit_length (n div 2)))"

declare bit_length.simps [simp del]

text \<open>The magnitude bits of \<open>n / d\<close>, rounded to nearest even; an overflow gives infinity.\<close>

definition scaled :: "nat \<Rightarrow> nat \<Rightarrow> int \<Rightarrow> nat \<times> nat" where
  "scaled n d e = (n * 2 ^ nat (- e), d * 2 ^ nat e)"

definition round_half_even :: "nat \<Rightarrow> nat \<Rightarrow> nat" where
  "round_half_even n d =
     (let q = n div d; r = n mod d in if 2 * r > d \<or> (2 * r = d \<and> odd q) then q + 1 else q)"

definition round_exponent :: "fmt \<Rightarrow> nat \<Rightarrow> nat \<Rightarrow> int" where
  "round_exponent f n d =
     (let e0 = max (emin f) (int (bit_length n) - int (bit_length d) - int (precision f));
          (a, b) = scaled n d e0
      in if a div b \<ge> 2 ^ precision f then e0 + 1 else e0)"

definition round_ratio :: "fmt \<Rightarrow> nat \<Rightarrow> nat \<Rightarrow> nat" where
  "round_ratio f n d =
     (if n = 0 then 0
      else let e = round_exponent f n d; (a, b) = scaled n d e
        in min (inf_bits f) (round_half_even a b + nat (e - emin f) * 2 ^ (precision f - 1)))"

definition encode :: "fmt \<Rightarrow> fp \<Rightarrow> nat" where
  "encode f v = (case v of
     FP_nan \<Rightarrow> nan_bits f
   | FP_inf s \<Rightarrow> of_bool s * sign_weight f + inf_bits f
   | FP_fin s m e \<Rightarrow> of_bool s * sign_weight f + round_ratio f (m * 2 ^ nat e) (2 ^ nat (- e)))"


section \<open>Exact operations\<close>

definition signed_int :: "bool \<Rightarrow> nat \<Rightarrow> int" where
  "signed_int s m = (if s then - int m else int m)"

text \<open>The mantissa of \<open>FP_fin s m e\<close> at the exponent \<open>b \<le> e\<close>.\<close>

definition at_exponent :: "int \<Rightarrow> bool \<Rightarrow> nat \<Rightarrow> int \<Rightarrow> int" where
  "at_exponent b s m e = signed_int s (m * 2 ^ nat (e - b))"

fun fp_neg :: "fp \<Rightarrow> fp" where
  "fp_neg FP_nan = FP_nan"
| "fp_neg (FP_inf s) = FP_inf (\<not> s)"
| "fp_neg (FP_fin s m e) = FP_fin (\<not> s) m e"

fun fp_abs :: "fp \<Rightarrow> fp" where
  "fp_abs FP_nan = FP_nan"
| "fp_abs (FP_inf s) = FP_inf False"
| "fp_abs (FP_fin s m e) = FP_fin False m e"

fun fp_add :: "fp \<Rightarrow> fp \<Rightarrow> fp" where
  "fp_add (FP_fin s m e) (FP_fin t n d) =
     (let b = min e d; v = at_exponent b s m e + at_exponent b t n d
      in if v = 0 then FP_fin (s \<and> t) 0 b else FP_fin (v < 0) (nat \<bar>v\<bar>) b)"
| "fp_add (FP_inf s) (FP_inf t) = (if s = t then FP_inf s else FP_nan)"
| "fp_add (FP_inf s) (FP_fin t n d) = FP_inf s"
| "fp_add (FP_fin s m e) (FP_inf t) = FP_inf t"
| "fp_add FP_nan y = FP_nan"
| "fp_add x FP_nan = FP_nan"

definition fp_sub :: "fp \<Rightarrow> fp \<Rightarrow> fp" where
  "fp_sub x y = fp_add x (fp_neg y)"

fun fp_mul :: "fp \<Rightarrow> fp \<Rightarrow> fp" where
  "fp_mul (FP_fin s m e) (FP_fin t n d) = FP_fin (s \<noteq> t) (m * n) (e + d)"
| "fp_mul (FP_inf s) (FP_inf t) = FP_inf (s \<noteq> t)"
| "fp_mul (FP_inf s) (FP_fin t n d) = (if n = 0 then FP_nan else FP_inf (s \<noteq> t))"
| "fp_mul (FP_fin s m e) (FP_inf t) = (if m = 0 then FP_nan else FP_inf (s \<noteq> t))"
| "fp_mul FP_nan y = FP_nan"
| "fp_mul x FP_nan = FP_nan"

text \<open>A quotient is not dyadic, so division rounds itself.\<close>

fun fp_div_bits :: "fmt \<Rightarrow> fp \<Rightarrow> fp \<Rightarrow> nat" where
  "fp_div_bits f (FP_fin s m e) (FP_fin t n d) =
     (if n = 0 then encode f (if m = 0 then FP_nan else FP_inf (s \<noteq> t))
      else of_bool (s \<noteq> t) * sign_weight f +
        round_ratio f (m * 2 ^ nat (e - d)) (n * 2 ^ nat (d - e)))"
| "fp_div_bits f (FP_inf s) (FP_inf t) = nan_bits f"
| "fp_div_bits f (FP_inf s) (FP_fin t n d) = encode f (FP_inf (s \<noteq> t))"
| "fp_div_bits f (FP_fin s m e) (FP_inf t) = encode f (FP_fin (s \<noteq> t) 0 0)"
| "fp_div_bits f FP_nan y = nan_bits f"
| "fp_div_bits f x FP_nan = nan_bits f"

fun fp_mod :: "fp \<Rightarrow> fp \<Rightarrow> fp" where
  "fp_mod (FP_fin s m e) (FP_fin t n d) =
     (if n = 0 then FP_nan
      else let b = min e d in FP_fin s ((m * 2 ^ nat (e - b)) mod (n * 2 ^ nat (d - b))) b)"
| "fp_mod (FP_fin s m e) (FP_inf t) = FP_fin s m e"
| "fp_mod x y = FP_nan"

fun fp_less :: "fp \<Rightarrow> fp \<Rightarrow> bool" where
  "fp_less (FP_fin s m e) (FP_fin t n d) =
     (at_exponent (min e d) s m e < at_exponent (min e d) t n d)"
| "fp_less (FP_inf s) (FP_inf t) = (s \<and> \<not> t)"
| "fp_less (FP_inf s) (FP_fin t n d) = s"
| "fp_less (FP_fin s m e) (FP_inf t) = (\<not> t)"
| "fp_less FP_nan y = False"
| "fp_less x FP_nan = False"

fun fp_equal :: "fp \<Rightarrow> fp \<Rightarrow> bool" where
  "fp_equal (FP_fin s m e) (FP_fin t n d) =
     (at_exponent (min e d) s m e = at_exponent (min e d) t n d)"
| "fp_equal (FP_inf s) (FP_inf t) = (s = t)"
| "fp_equal x y = False"

definition fp_finite :: "fp \<Rightarrow> bool" where
  "fp_finite v = (case v of FP_fin _ _ _ \<Rightarrow> True | _ \<Rightarrow> False)"

fun fp_trunc :: "fp \<Rightarrow> fp" where
  "fp_trunc (FP_fin s m e) = (if e \<ge> 0 then FP_fin s m e else FP_fin s (m div 2 ^ nat (- e)) 0)"
| "fp_trunc v = v"

fun fp_nearbyint :: "fp \<Rightarrow> fp" where
  "fp_nearbyint (FP_fin s m e) =
     (if e \<ge> 0 then FP_fin s m e else FP_fin s (round_half_even m (2 ^ nat (- e))) 0)"
| "fp_nearbyint v = v"

text \<open>The cast of a finite value to an integer type: its integral part.\<close>

fun fp_to_int :: "fp \<Rightarrow> int" where
  "fp_to_int (FP_fin s m e) = signed_int s (m * 2 ^ nat e div 2 ^ nat (- e))"
| "fp_to_int v = 0"

definition fp_of_int :: "int \<Rightarrow> fp" where
  "fp_of_int v = FP_fin (v < 0) (nat \<bar>v\<bar>) 0"


section \<open>Operations on slots\<close>

definition bits_double :: "u64 \<Rightarrow> fp" where "bits_double v = decode Double (unat v)"
definition double_bits :: "fp \<Rightarrow> u64" where "double_bits v = of_nat (encode Double v)"

text \<open>\<open>static_cast<float>\<close> of a double value, and \<open>static_cast<double>\<close> of a float.\<close>

definition to_float :: "fp \<Rightarrow> fp" where "to_float v = decode Single (encode Single v)"
definition float_raw :: "fp \<Rightarrow> u32" where "float_raw v = of_nat (encode Single v)"
definition raw_float :: "u32 \<Rightarrow> fp" where "raw_float v = decode Single (unat v)"

definition fp_op :: "fmt \<Rightarrow> ArithOp \<Rightarrow> fp \<Rightarrow> fp \<Rightarrow> fp" where
  "fp_op f k a b = decode f (case k of
     A_add \<Rightarrow> encode f (fp_add a b) | A_sub \<Rightarrow> encode f (fp_sub a b)
   | A_mul \<Rightarrow> encode f (fp_mul a b) | _ \<Rightarrow> fp_div_bits f a b)"

definition wrap_double_to_u64 :: "fp \<Rightarrow> u64" where
  "wrap_double_to_u64 v =
     (let m0 = fp_mod v (FP_fin False (2 ^ 64) 0);
          negative = fp_less m0 (FP_fin False 0 0);
          m = (if negative then fp_neg m0 else m0);
          two63 = FP_fin False (2 ^ 63) 0;
          magnitude = (if \<not> fp_less m two63 \<and> m \<noteq> FP_nan
            then word_of_int (fp_to_int (fp_op Double A_sub m two63)) + 2 ^ 63
            else word_of_int (fp_to_int m)) :: u64
      in if negative then 0 - magnitude else magnitude)"

record libm =
  lm_sqrt :: "u64 \<Rightarrow> u64"
  lm_log :: "u64 \<Rightarrow> u64"
  lm_log10 :: "u64 \<Rightarrow> u64"
  lm_exp :: "u64 \<Rightarrow> u64"
  lm_sin :: "u64 \<Rightarrow> u64"
  lm_cos :: "u64 \<Rightarrow> u64"
  lm_tan :: "u64 \<Rightarrow> u64"
  lm_asin :: "u64 \<Rightarrow> u64"
  lm_acos :: "u64 \<Rightarrow> u64"
  lm_atan :: "u64 \<Rightarrow> u64"
  lm_pow :: "u64 \<Rightarrow> u64 \<Rightarrow> u64"

end
