(* ===== verification/Lexer.thy ===== *)
theory Lexer
  imports Diag Ieee
begin

text \<open>
  The lexer of the ST compiler (\<open>core/st/lexer.h\<close>, \<open>core/st/token.h\<close>). A \<open>std::string_view\<close> is the
  string it shows, the position an index into the source, and every reading function takes and
  returns the lexer. Loops are \<open>advance_while\<close> or recursive functions that end because they advance.
  A real value is the bits of the \<open>double\<close>; \<open>strtod\<close> rounds the decimal to nearest even, as the code
  relies on. Lines and columns are unbounded here. The keywords of \<open>TokenKind\<close> are grouped as the
  comments of the enumeration group them.
\<close>

datatype Keyword =
    K_program | K_end_program | K_var | K_end_var | K_if | K_then | K_elsif | K_else | K_end_if
  | K_case | K_of | K_end_case | K_for | K_to | K_by | K_do | K_end_for | K_while | K_end_while
  | K_repeat | K_until | K_end_repeat | K_exit | K_continue | K_return | K_and | K_or | K_xor
  | K_not | K_mod

datatype SfcKeyword =
    X_sfc | X_end_sfc | X_initial_step | X_step | X_end_step | X_transition | X_end_transition
  | X_from | X_action | X_end_action | X_simultaneous | X_terminal

datatype DeclKeyword =
    Q_constant | Q_retain | Q_persistent | Q_at | Q_type | Q_end_type | Q_array | Q_struct
  | Q_end_struct

datatype TypeKeyword =
    Y_bool | Y_int | Y_dint | Y_real | Y_lreal | Y_time | Y_sint | Y_lint | Y_usint | Y_uint
  | Y_udint | Y_ulint | Y_byte | Y_word | Y_dword | Y_lword | Y_char | Y_wchar | Y_string
  | Y_wstring | Y_date | Y_tod | Y_dt

datatype TokenKind =
    Tk_end_of_input | Tk_error | Tk_identifier | Tk_int_literal | Tk_real_literal
  | Tk_time_literal | Tk_bool_literal | Tk_typed_literal | Tk_string_literal | Tk_wstring_literal
  | Tk_date_literal | Tk_tod_literal | Tk_dt_literal | Tk_located_address | Tk_assign | Tk_colon
  | Tk_semicolon | Tk_comma | Tk_dot | Tk_dotdot | Tk_hash | Tk_lparen | Tk_rparen | Tk_lbracket
  | Tk_rbracket | Tk_plus | Tk_minus | Tk_star | Tk_star_star | Tk_slash | Tk_ampersand | Tk_equal
  | Tk_not_equal | Tk_less | Tk_greater | Tk_less_equal | Tk_greater_equal
  | Tk_unsupported_keyword | Tk_kw Keyword | Tk_sfc SfcKeyword | Tk_decl DeclKeyword
  | Tk_type TypeKeyword

record Token =
  tok_kind :: TokenKind
  tok_line :: int
  tok_column :: int
  tok_text :: string
  tok_unsigned :: u64
  tok_signed :: int
  tok_real :: u64
  tok_based :: bool
  tok_real_form :: bool
  tok_literal_type :: Type
  tok_payload :: DiagCode
  tok_debug :: bool
  tok_debug_pou :: string
  tok_debug_path :: string
  tok_debug_line :: int
  tok_debug_column :: int
  tok_debug_depth :: nat

definition empty_token :: Token where
  "empty_token = \<lparr> tok_kind = Tk_end_of_input, tok_line = 1, tok_column = 1, tok_text = [],
     tok_unsigned = 0, tok_signed = 0, tok_real = 0, tok_based = False, tok_real_form = False,
     tok_literal_type = T_bool, tok_payload = 0, tok_debug = False, tok_debug_pou = [],
     tok_debug_path = [], tok_debug_line = 0, tok_debug_column = 0, tok_debug_depth = 0 \<rparr>"


section \<open>Characters and words\<close>

definition is_digit :: "char \<Rightarrow> bool" where
  "is_digit c \<longleftrightarrow> 48 \<le> (of_char c :: nat) \<and> (of_char c :: nat) \<le> 57"

definition is_alpha :: "char \<Rightarrow> bool" where
  "is_alpha c \<longleftrightarrow> 97 \<le> (of_char c :: nat) \<and> (of_char c :: nat) \<le> 122 \<or>
     65 \<le> (of_char c :: nat) \<and> (of_char c :: nat) \<le> 90"

definition is_ident_start :: "char \<Rightarrow> bool" where
  "is_ident_start c \<longleftrightarrow> is_alpha c \<or> c = CHR ''_''"

definition is_ident_char :: "char \<Rightarrow> bool" where
  "is_ident_char c \<longleftrightarrow> is_alpha c \<or> is_digit c \<or> c = CHR ''_''"

abbreviation to_lower :: "char \<Rightarrow> char" where "to_lower \<equiv> lower_ascii"

definition ascii_iequals :: "string \<Rightarrow> string \<Rightarrow> bool" where
  "ascii_iequals text lower_ref \<longleftrightarrow> map to_lower text = lower_ref"

definition digit_of :: "char \<Rightarrow> nat" where
  "digit_of c = of_char c - 48"

definition keyword_table :: "(string \<times> TokenKind) list" where
  "keyword_table =
     [(''program'', Tk_kw K_program), (''end_program'', Tk_kw K_end_program),
      (''var'', Tk_kw K_var), (''end_var'', Tk_kw K_end_var), (''if'', Tk_kw K_if),
      (''then'', Tk_kw K_then), (''elsif'', Tk_kw K_elsif), (''else'', Tk_kw K_else),
      (''end_if'', Tk_kw K_end_if), (''case'', Tk_kw K_case), (''of'', Tk_kw K_of),
      (''end_case'', Tk_kw K_end_case), (''for'', Tk_kw K_for), (''to'', Tk_kw K_to),
      (''by'', Tk_kw K_by), (''do'', Tk_kw K_do), (''end_for'', Tk_kw K_end_for),
      (''while'', Tk_kw K_while), (''end_while'', Tk_kw K_end_while),
      (''repeat'', Tk_kw K_repeat), (''until'', Tk_kw K_until),
      (''end_repeat'', Tk_kw K_end_repeat), (''exit'', Tk_kw K_exit),
      (''continue'', Tk_kw K_continue), (''return'', Tk_kw K_return),
      (''constant'', Tk_decl Q_constant), (''retain'', Tk_decl Q_retain),
      (''persistent'', Tk_decl Q_persistent), (''at'', Tk_decl Q_at), (''type'', Tk_decl Q_type),
      (''end_type'', Tk_decl Q_end_type), (''array'', Tk_decl Q_array),
      (''struct'', Tk_decl Q_struct), (''end_struct'', Tk_decl Q_end_struct),
      (''and'', Tk_kw K_and), (''or'', Tk_kw K_or), (''xor'', Tk_kw K_xor),
      (''not'', Tk_kw K_not), (''mod'', Tk_kw K_mod), (''sfc'', Tk_sfc X_sfc),
      (''end_sfc'', Tk_sfc X_end_sfc), (''initial_step'', Tk_sfc X_initial_step),
      (''step'', Tk_sfc X_step), (''end_step'', Tk_sfc X_end_step),
      (''transition'', Tk_sfc X_transition), (''end_transition'', Tk_sfc X_end_transition),
      (''from'', Tk_sfc X_from), (''action'', Tk_sfc X_action),
      (''end_action'', Tk_sfc X_end_action), (''simultaneous'', Tk_sfc X_simultaneous),
      (''terminal'', Tk_sfc X_terminal), (''bool'', Tk_type Y_bool), (''int'', Tk_type Y_int),
      (''dint'', Tk_type Y_dint), (''real'', Tk_type Y_real), (''lreal'', Tk_type Y_lreal),
      (''time'', Tk_type Y_time), (''sint'', Tk_type Y_sint), (''lint'', Tk_type Y_lint),
      (''usint'', Tk_type Y_usint), (''uint'', Tk_type Y_uint), (''udint'', Tk_type Y_udint),
      (''ulint'', Tk_type Y_ulint), (''byte'', Tk_type Y_byte), (''word'', Tk_type Y_word),
      (''dword'', Tk_type Y_dword), (''lword'', Tk_type Y_lword), (''char'', Tk_type Y_char),
      (''wchar'', Tk_type Y_wchar), (''string'', Tk_type Y_string),
      (''wstring'', Tk_type Y_wstring), (''date'', Tk_type Y_date),
      (''time_of_day'', Tk_type Y_tod), (''date_and_time'', Tk_type Y_dt)]"

definition unsupported_table :: "(string \<times> DiagCode) list" where
  "unsupported_table =
     [(''function'', D_unsupported_l2), (''end_function'', D_unsupported_l2),
      (''function_block'', D_unsupported_l2), (''end_function_block'', D_unsupported_l2),
      (''var_input'', D_unsupported_l2), (''var_output'', D_unsupported_l2),
      (''var_in_out'', D_unsupported_l2), (''var_temp'', D_unsupported_l2),
      (''var_external'', D_unsupported_l2), (''var_global'', D_unsupported_l2),
      (''non_retain'', D_unsupported_l3), (''configuration'', D_unsupported_l5),
      (''end_configuration'', D_unsupported_l5), (''resource'', D_unsupported_l5),
      (''end_resource'', D_unsupported_l5), (''task'', D_unsupported_l5),
      (''with'', D_unsupported_l5), (''ref_to'', D_unsupported_non_goal),
      (''pointer'', D_unsupported_non_goal)]"

text \<open>The prefixes of literals, and the sentence of a word with its \<open>#\<close>.\<close>

definition date_prefix :: "string \<Rightarrow> TokenKind option" where
  "date_prefix text =
     (if ascii_iequals text ''d'' \<or> ascii_iequals text ''date'' then Some Tk_date_literal
      else if ascii_iequals text ''tod'' \<or> ascii_iequals text ''time_of_day'' then Some Tk_tod_literal
      else if ascii_iequals text ''dt'' \<or> ascii_iequals text ''date_and_time'' then Some Tk_dt_literal
      else None)"

definition typed_prefixes :: "(string \<times> Type) list" where
  "typed_prefixes =
     [(''bool'', T_bool), (''sint'', T_sint), (''int'', T_int), (''dint'', T_dint),
      (''lint'', T_lint), (''usint'', T_usint), (''uint'', T_uint), (''udint'', T_udint),
      (''ulint'', T_ulint), (''real'', T_real), (''lreal'', T_lreal), (''byte'', T_byte),
      (''word'', T_word), (''dword'', T_dword), (''lword'', T_lword)]"

definition look_up :: "(string \<times> 'a) list \<Rightarrow> string \<Rightarrow> 'a option" where
  "look_up entries text = map_option snd (find (\<lambda>e. ascii_iequals text (fst e)) entries)"


section \<open>The state of the lexer\<close>

record Lexer =
  lx_source :: string
  lx_trusted :: bool
  lx_pos :: nat
  lx_line :: int
  lx_column :: int
  lx_comment_error :: bool
  lx_debug :: bool
  lx_debug_pou :: string
  lx_debug_path :: string
  lx_debug_line :: int
  lx_debug_column :: int
  lx_debug_depth :: nat

definition new_lexer :: "string \<Rightarrow> bool \<Rightarrow> Lexer" where
  "new_lexer source trusted = \<lparr> lx_source = source, lx_trusted = trusted, lx_pos = 0, lx_line = 1,
     lx_column = 1, lx_comment_error = False, lx_debug = False, lx_debug_pou = [],
     lx_debug_path = [], lx_debug_line = 0, lx_debug_column = 0, lx_debug_depth = 0 \<rparr>"

definition at_end :: "Lexer \<Rightarrow> bool" where
  "at_end lx \<longleftrightarrow> lx_pos lx \<ge> length (lx_source lx)"

definition peek :: "nat \<Rightarrow> Lexer \<Rightarrow> char" where
  "peek ahead lx = (let i = lx_pos lx + ahead in if i < length (lx_source lx) then lx_source lx ! i else CHR 0x00)"

abbreviation here :: "Lexer \<Rightarrow> char" where "here \<equiv> peek 0"

definition advance :: "Lexer \<Rightarrow> Lexer" where
  "advance lx =
     (if at_end lx then lx
      else (if lx_source lx ! lx_pos lx = CHR 0x0A then lx\<lparr> lx_line := lx_line lx + 1, lx_column := 1 \<rparr>
            else lx\<lparr> lx_column := lx_column lx + 1 \<rparr>)\<lparr> lx_pos := lx_pos lx + 1 \<rparr>)"

definition slice_from :: "nat \<Rightarrow> Lexer \<Rightarrow> string" where
  "slice_from start lx = seg (lx_source lx) start (lx_pos lx - start)"

definition lx_left :: "Lexer \<Rightarrow> nat" where
  "lx_left lx = length (lx_source lx) - lx_pos lx"

lemma advance_frame [simp]:
  "lx_source (advance lx) = lx_source lx" "lx_trusted (advance lx) = lx_trusted lx"
  "lx_comment_error (advance lx) = lx_comment_error lx"
  by (simp_all add: advance_def)

lemma pos_advance [simp]: "\<not> at_end lx \<Longrightarrow> lx_pos (advance lx) = lx_pos lx + 1"
  by (simp add: advance_def)

lemma advance_at_end [simp]: "at_end lx \<Longrightarrow> advance lx = lx"
  by (simp add: advance_def)

lemma lx_left_advance: "\<not> at_end lx \<Longrightarrow> lx_left (advance lx) < lx_left lx"
  by (simp add: lx_left_def at_end_def)

lemma pos_advance_le: "lx_pos lx \<le> lx_pos (advance lx)"
  by (cases "at_end lx") simp_all

lemma here_end: "at_end lx \<Longrightarrow> here lx = CHR 0x00"
  by (simp add: at_end_def peek_def)

text \<open>\<open>while(!at_end() && c) advance();\<close>\<close>

function advance_while :: "(Lexer \<Rightarrow> bool) \<Rightarrow> Lexer \<Rightarrow> Lexer" where
  "advance_while c lx = (if \<not> at_end lx \<and> c lx then advance_while c (advance lx) else lx)"
  by pat_completeness auto

termination
  by (relation "measure (\<lambda>(c, lx). lx_left lx)") (auto simp: lx_left_advance)

declare advance_while.simps [simp del]


section \<open>Comments and debug directives\<close>

text \<open>The inside of a comment, with the depth that is left open.\<close>

definition two :: "string \<Rightarrow> Lexer \<Rightarrow> bool" where
  "two s lx \<longleftrightarrow> here lx = s ! 0 \<and> peek 1 lx = s ! 1"

lemma lx_left_advance_le: "lx_left (advance lx) \<le> lx_left lx"
  by (cases "at_end lx") (simp_all add: lx_left_def)

function skip_comment :: "nat \<Rightarrow> Lexer \<Rightarrow> nat \<times> Lexer" where
  "skip_comment depth lx =
     (if at_end lx \<or> depth = 0 then (depth, lx)
      else if two ''(*'' lx then skip_comment (depth + 1) (advance (advance lx))
      else if two ''*)'' lx then skip_comment (depth - 1) (advance (advance lx))
      else skip_comment depth (advance lx))"
  by pat_completeness auto

termination
  by (relation "measure (\<lambda>(d, lx). lx_left lx)")
    (auto intro: lx_left_advance le_less_trans [OF lx_left_advance_le])

declare skip_comment.simps [simp del]

definition debug_field :: "Lexer \<Rightarrow> string \<times> Lexer" where
  "debug_field lx =
     (let lx1 = advance_while (\<lambda>l. here l = CHR '' '') lx;
          lx2 = advance_while (\<lambda>l. here l \<noteq> CHR '' '' \<and> \<not> two ''*)'' l) lx1
      in (slice_from (lx_pos lx1) lx2, lx2))"

definition debug_number :: "string \<Rightarrow> u32" where
  "debug_number text =
     (if list_all is_digit text then foldl (\<lambda>v c. v * 10 + of_nat (digit_of c)) 0 text else 0)"

definition parse_debug_directive :: "Lexer \<Rightarrow> Lexer" where
  "parse_debug_directive lx =
     (let (pou, lx1) = debug_field ((advance ^^ 7) lx);
          (path, lx2) = debug_field lx1;
          (line, lx3) = debug_field lx2;
          (column, lx4) = debug_field lx3;
          (depth, lx5) = debug_field lx4;
          lx6 = advance_while (\<lambda>l. \<not> two ''*)'' l) lx5;
          lx7 = (if at_end lx6 then lx6 else advance (advance lx6));
          ln = sint (debug_number line); cn = sint (debug_number column);
          dn = unat (ucast (debug_number depth) :: u16)
      in lx7\<lparr> lx_debug_pou := pou, lx_debug_path := path, lx_debug_line := ln,
           lx_debug_column := cn, lx_debug_depth := dn,
           lx_debug := (pou \<noteq> [] \<and> ln > 0 \<and> cn > 0 \<and> dn > 0) \<rparr>)"

definition debug_mark :: "Lexer \<Rightarrow> bool" where
  "debug_mark lx \<longleftrightarrow> lx_trusted lx \<and> peek 2 lx = CHR ''@'' \<and> peek 3 lx = CHR ''D'' \<and> peek 4 lx = CHR ''B'' \<and>
     peek 5 lx = CHR ''G'' \<and> peek 6 lx = CHR '' ''"

definition is_space :: "char \<Rightarrow> bool" where
  "is_space c \<longleftrightarrow> c = CHR '' '' \<or> c = CHR 0x09 \<or> c = CHR 0x0D \<or> c = CHR 0x0A"

text \<open>How far a lexer may have come from another: it has the same source and has not moved back.\<close>

definition onward :: "Lexer \<Rightarrow> Lexer \<Rightarrow> bool" where
  "onward lx lx' \<longleftrightarrow> lx_source lx' = lx_source lx \<and> lx_trusted lx' = lx_trusted lx \<and>
     lx_comment_error lx' = lx_comment_error lx \<and> lx_pos lx \<le> lx_pos lx' \<and>
     (lx_pos lx \<le> length (lx_source lx) \<longrightarrow> lx_pos lx' \<le> length (lx_source lx))"

named_theorems onwards \<open>how far the reading functions move\<close>

lemma onward_refl [simp, onwards]: "onward lx lx"
  by (simp add: onward_def)

lemma onward_trans [trans]: "onward lx lx1 \<Longrightarrow> onward lx1 lx2 \<Longrightarrow> onward lx lx2"
  by (auto simp: onward_def)

lemma onward_advance [onwards]: "onward lx lx1 \<Longrightarrow> onward lx (advance lx1)"
  by (cases "at_end lx1") (auto simp: onward_def at_end_def)

lemma onward_advances [onwards]: "onward lx lx1 \<Longrightarrow> onward lx ((advance ^^ n) lx1)"
  by (induction n) (auto intro: onward_advance)

lemma onward_advance_while [onwards]: "onward lx lx1 \<Longrightarrow> onward lx (advance_while c lx1)"
proof (induction c lx1 rule: advance_while.induct)
  case (1 c lx1)
  then show ?case by (simp add: advance_while.simps [of c lx1] onward_advance)
qed

lemma onward_skip_comment [onwards]: "onward lx lx1 \<Longrightarrow> onward lx (snd (skip_comment d lx1))"
proof (induction d lx1 rule: skip_comment.induct)
  case (1 d lx1)
  then show ?case by (simp add: skip_comment.simps [of d lx1] onward_advance)
qed

lemma onward_debug_field [onwards]: "onward lx lx1 \<Longrightarrow> onward lx (snd (debug_field lx1))"
  by (simp add: debug_field_def Let_def onwards)

lemma onward_debug_directive: "onward lx ((advance ^^ 7) lx1) \<Longrightarrow> onward lx (parse_debug_directive lx1)"
proof -
  assume a: "onward lx ((advance ^^ 7) lx1)"
  let ?n = "\<lambda>l. snd (debug_field l)"
  let ?l6 = "advance_while (\<lambda>l. \<not> two ''*)'' l) (?n (?n (?n (?n (?n ((advance ^^ 7) lx1))))))"
  have "onward lx (if at_end ?l6 then ?l6 else advance (advance ?l6))"
    using a by (simp add: onwards del: advance_at_end)
  then show ?thesis by (simp add: parse_debug_directive_def Let_def split_beta onward_def)
qed

lemma onward_pos: "onward lx lx1 \<Longrightarrow> lx_pos lx \<le> lx_pos lx1"
  by (simp add: onward_def)

lemma onward_left: "onward lx lx1 \<Longrightarrow> lx_left lx1 \<le> lx_left lx"
  by (auto simp: onward_def lx_left_def)

text \<open>A reading function that starts with an \<open>advance\<close> makes progress.\<close>

lemma onward_advanced:
  assumes "onward (advance lx) lx1" "\<not> at_end lx"
  shows "lx_pos lx < lx_pos lx1" "lx_left lx1 < lx_left lx"
  using onward_pos [OF assms(1)] onward_left [OF assms(1)] lx_left_advance [OF assms(2)] assms(2) by simp_all

lemma onward_debug_advanced: "onward (advance lx) (parse_debug_directive lx)"
proof (rule onward_debug_directive)
  have "(advance ^^ 7) lx = (advance ^^ 6) (advance lx)"
    using funpow_Suc_right [of 6 advance] by (simp add: eval_nat_numeral)
  then show "onward (advance lx) ((advance ^^ 7) lx)" by (simp add: onwards del: funpow.simps)
qed

lemma comment_moves: "(d, lx1) = skip_comment n (advance (advance lx)) \<Longrightarrow> \<not> at_end lx \<Longrightarrow> lx_left lx1 < lx_left lx"
proof -
  assume a: "(d, lx1) = skip_comment n (advance (advance lx))" "\<not> at_end lx"
  have "onward (advance lx) (snd (skip_comment n (advance (advance lx))))" by (simp add: onwards)
  with onward_advanced(2) [OF _ a(2)] show ?thesis unfolding a(1) [symmetric] by simp
qed

function skip_trivia :: "Lexer \<Rightarrow> Lexer" where
  "skip_trivia lx =
     (if at_end lx then lx
      else if is_space (here lx) then skip_trivia (advance lx)
      else if two ''//'' lx then skip_trivia (advance_while (\<lambda>l. here l \<noteq> CHR 0x0A) (advance lx))
      else if two ''(*'' lx then
        (if debug_mark lx then skip_trivia (parse_debug_directive lx)
         else case skip_comment 1 (advance (advance lx)) of
             (depth, lx1) \<Rightarrow> if depth > 0 then lx1\<lparr> lx_comment_error := True \<rparr> else skip_trivia lx1)
      else lx)"
  by pat_completeness auto

termination
  by (relation "measure lx_left")
    (auto intro: lx_left_advance onward_advanced(2) onward_debug_advanced comment_moves simp: onwards)

declare skip_trivia.simps [simp del]


section \<open>Literals\<close>

definition make_error :: "Token \<Rightarrow> DiagCode \<Rightarrow> nat \<Rightarrow> Lexer \<Rightarrow> Token \<times> Lexer" where
  "make_error tok code start lx =
     (tok\<lparr> tok_kind := Tk_error, tok_payload := code, tok_text := slice_from start lx \<rparr>, lx)"

text \<open>The value of a digit in a base that may have letters, and \<open>read_digits\<close>: success, value, whether a
  digit was seen, overflow.\<close>

definition digit_value :: "nat \<Rightarrow> char \<Rightarrow> nat option" where
  "digit_value base c =
     (if is_digit c then Some (digit_of c)
      else if base = 16 \<and> is_alpha c \<and> (of_char (to_lower c) :: nat) \<le> 102
      then Some (of_char (to_lower c) - 97 + 10) else None)"

function digits_loop :: "nat \<Rightarrow> u64 \<Rightarrow> bool \<Rightarrow> bool \<Rightarrow> Lexer \<Rightarrow> bool \<times> u64 \<times> bool \<times> bool \<times> Lexer" where
  "digits_loop base v any overflow lx =
     (if at_end lx then (True, v, any, overflow, lx)
      else if here lx = CHR ''_'' then digits_loop base v any overflow (advance lx)
      else case digit_value base (here lx) of
          None \<Rightarrow> (True, v, any, overflow, lx)
        | Some d \<Rightarrow>
            if d \<ge> base then (False, v, any, overflow, lx)
            else digits_loop base (v * of_nat base + of_nat d) True
              (overflow \<or> unat v > (2 ^ 64 - 1 - d) div base) (advance lx))"
  by pat_completeness auto

termination
  by (relation "measure (\<lambda>(b, v, a, f, lx). lx_left lx)") (auto simp: lx_left_advance)

declare digits_loop.simps [simp del]

definition read_digits :: "nat \<Rightarrow> u64 \<Rightarrow> Lexer \<Rightarrow> bool \<times> u64 \<times> bool \<times> bool \<times> Lexer" where
  "read_digits base v lx = digits_loop base v False False lx"

definition skip_ident_tail :: "Lexer \<Rightarrow> Lexer" where
  "skip_ident_tail = advance_while (\<lambda>l. is_ident_char (here l))"

text \<open>\<open>strtod\<close> on what \<open>lex_number\<close> hands it: digits, an optional fraction, an optional exponent, cut to
  63 characters. The longest readable prefix counts.\<close>

definition decimal_value :: "string \<Rightarrow> nat" where
  "decimal_value s = foldl (\<lambda>v c. v * 10 + digit_of c) 0 s"

definition exponent_of :: "string \<Rightarrow> int" where
  "exponent_of s =
     (case s of [] \<Rightarrow> 0
      | c # t \<Rightarrow>
          if to_lower c \<noteq> CHR ''e'' then 0
          else case t of [] \<Rightarrow> 0
            | g # u \<Rightarrow>
                if g = CHR ''-'' then - int (decimal_value (takeWhile is_digit u))
                else int (decimal_value (takeWhile is_digit (if g = CHR ''+'' then u else t))))"

definition strtod :: "string \<Rightarrow> nat" where
  "strtod s =
     (let whole = takeWhile is_digit s; s1 = dropWhile is_digit s;
          (frac, s2) = (case s1 of c # t \<Rightarrow> if c = CHR ''.'' then (takeWhile is_digit t, dropWhile is_digit t) else ([], s1)
            | [] \<Rightarrow> ([], []));
          m = decimal_value (whole @ frac); e = exponent_of s2 - int (length frac)
      in round_ratio Double (m * 10 ^ nat e) (10 ^ nat (- e)))"

definition parse_real :: "string \<Rightarrow> u64" where
  "parse_real text = of_nat (strtod (take 63 (filter (\<lambda>c. c \<noteq> CHR ''_'') text)))"

definition skip_exponent :: "Lexer \<Rightarrow> bool \<times> Lexer" where
  "skip_exponent lx =
     (let sgn = peek 1 lx; signed = (sgn = CHR ''+'' \<or> sgn = CHR ''-'')
      in if (here lx = CHR ''e'' \<or> here lx = CHR ''E'') \<and> is_digit (peek (if signed then 2 else 1) lx)
         then case read_digits 10 0 (if signed then advance (advance lx) else advance lx) of
             (_, _, _, _, lx1) \<Rightarrow> (True, lx1)
         else (False, lx))"

text \<open>Well-formed, present, and the lexer behind it.\<close>

definition read_fraction :: "Lexer \<Rightarrow> bool \<times> bool \<times> Lexer" where
  "read_fraction lx =
     (if here lx = CHR ''.'' \<and> peek 1 lx \<noteq> CHR ''.''
      then (case read_digits 10 0 (advance lx) of (ok, v, any, overflow, l) \<Rightarrow> (ok \<and> any, True, l))
      else (True, False, lx))"

text \<open>\<open>lex_number\<close> behind the first digits: a based literal after its \<open>#\<close>, or a decimal one.\<close>

definition lex_based :: "Token \<Rightarrow> nat \<Rightarrow> nat \<Rightarrow> Lexer \<Rightarrow> Token \<times> Lexer" where
  "lex_based tok start base lx =
     (if base \<noteq> 2 \<and> base \<noteq> 8 \<and> base \<noteq> 16 then make_error tok D_lex_bad_numeric_literal start lx
      else case read_digits base 0 lx of (ok, v, any, overflow, lx1) \<Rightarrow>
        if \<not> ok \<or> \<not> any then make_error tok D_lex_bad_numeric_literal start (skip_ident_tail lx1)
        else if overflow then make_error tok D_lex_literal_overflow start lx1
        else (tok\<lparr> tok_kind := Tk_int_literal, tok_unsigned := v, tok_based := True,
                tok_text := slice_from start lx1 \<rparr>, lx1))"

definition lex_decimal :: "Token \<Rightarrow> nat \<Rightarrow> u64 \<Rightarrow> bool \<Rightarrow> Lexer \<Rightarrow> Token \<times> Lexer" where
  "lex_decimal tok start v overflow lx =
     (case read_fraction lx of (well_formed, has_fraction, lx1) \<Rightarrow>
      if \<not> well_formed then make_error tok D_lex_bad_numeric_literal start lx1
      else case skip_exponent lx1 of (has_exponent, lx2) \<Rightarrow>
        (let text = slice_from start lx2; tok1 = tok\<lparr> tok_text := text \<rparr>
         in if has_fraction \<or> has_exponent
            then (tok1\<lparr> tok_kind := Tk_real_literal, tok_real := parse_real text \<rparr>, lx2)
            else if overflow then make_error tok1 D_lex_literal_overflow start lx2
            else if is_ident_start (here lx2)
            then make_error tok1 D_lex_bad_numeric_literal start (skip_ident_tail lx2)
            else (tok1\<lparr> tok_kind := Tk_int_literal, tok_unsigned := v \<rparr>, lx2)))"

definition lex_number :: "Token \<Rightarrow> nat \<Rightarrow> Lexer \<Rightarrow> Token \<times> Lexer" where
  "lex_number tok start lx =
     (case read_digits 10 0 lx of (ok, v, any, overflow, lx1) \<Rightarrow>
      if \<not> ok then make_error tok D_lex_bad_numeric_literal start lx1
      else if here lx1 = CHR ''#'' then lex_based tok start (unat v) (advance lx1)
      else lex_decimal tok start v overflow lx1)"


section \<open>Time literals\<close>

definition unit_ns :: "nat \<Rightarrow> int" where
  "unit_ns rank = [1, 1000, 1000000, 1000000000, 60000000000, 3600000000000, 86400000000000] ! rank"

text \<open>The rank of the unit at the position, with the position behind it.\<close>

definition read_time_unit :: "Lexer \<Rightarrow> nat option \<times> Lexer" where
  "read_time_unit lx =
     (let a = to_lower (here lx); b = to_lower (peek 1 lx);
          unit = (if a = CHR ''m'' \<and> b = CHR ''s'' then Some (2, 2)
            else if a = CHR ''u'' \<and> b = CHR ''s'' then Some (1, 2)
            else if a = CHR ''n'' \<and> b = CHR ''s'' then Some (0, 2)
            else if a = CHR ''d'' then Some (6, 1)
            else if a = CHR ''h'' then Some (5, 1)
            else if a = CHR ''m'' then Some (4, 1)
            else if a = CHR ''s'' then Some (3, 1) else None)
      in case unit of None \<Rightarrow> (None, lx)
         | Some (rank, n) \<Rightarrow>
             if is_alpha (peek n lx) \<or> peek n lx = CHR ''_'' then (None, lx)
             else (Some rank, (advance ^^ n) lx))"

function fraction_loop :: "nat \<Rightarrow> nat \<Rightarrow> Lexer \<Rightarrow> nat \<times> nat \<times> Lexer" where
  "fraction_loop digits scale lx =
     (if at_end lx \<or> (\<not> is_digit (here lx) \<and> here lx \<noteq> CHR ''_'') then (digits, scale, lx)
      else if here lx = CHR ''_'' then fraction_loop digits scale (advance lx)
      else if scale \<le> 100000000000000000
      then fraction_loop (digits * 10 + digit_of (here lx)) (scale * 10) (advance lx)
      else fraction_loop digits scale (advance lx))"
  by pat_completeness auto

termination
  by (relation "measure (\<lambda>(d, s, lx). lx_left lx)") (auto simp: lx_left_advance)

declare fraction_loop.simps [simp del]

text \<open>\<open>static_cast<int64>(double(digits) / double(scale) * double(unit))\<close>.\<close>

definition double_of_nat :: "nat \<Rightarrow> fp" where
  "double_of_nat n = decode Double (encode Double (fp_of_int (int n)))"

definition fraction_ns :: "nat \<Rightarrow> nat \<Rightarrow> int \<Rightarrow> int" where
  "fraction_ns digits scale unit =
     (let fractional = decode Double (fp_div_bits Double (double_of_nat digits) (double_of_nat scale))
      in fp_to_int (fp_op Double A_mul fractional (double_of_nat (nat unit))))"

definition time_error :: "Token \<Rightarrow> nat \<Rightarrow> Lexer \<Rightarrow> Token \<times> Lexer" where
  "time_error tok start lx =
     make_error tok D_lex_bad_time_literal start
       (advance_while (\<lambda>l. is_ident_char (here l) \<or> here l = CHR ''.'' \<or> here l = CHR ''#'') lx)"

text \<open>A sum that must not pass the largest \<open>int64\<close>: the total and whether it would have.\<close>

definition add_bounded :: "int \<Rightarrow> int \<Rightarrow> int \<times> bool" where
  "add_bounded t x = (if t > int64_max - x then (t, True) else (t + x, False))"

record time_state =
  tm_total :: int
  tm_rank :: nat
  tm_any :: bool
  tm_fraction :: bool
  tm_overflow :: bool

definition add_segment :: "u64 \<Rightarrow> bool \<Rightarrow> nat \<Rightarrow> nat \<Rightarrow> nat \<Rightarrow> bool \<Rightarrow> time_state \<Rightarrow> time_state" where
  "add_segment whole digit_overflow digits scale rank fraction st =
     (let unit = unit_ns rank;
          (t1, o1) = (if unat whole > nat (int64_max div unit) then (tm_total st, True)
            else add_bounded (tm_total st) (int (unat whole) * unit));
          (t2, o2) = (if fraction \<and> scale > 1
            then add_bounded t1 (fraction_ns digits scale unit) else (t1, False))
      in \<lparr> tm_total = t2, tm_rank = rank, tm_any = True, tm_fraction = fraction,
           tm_overflow = (tm_overflow st \<or> digit_overflow \<or> o1 \<or> o2) \<rparr>)"

lemma onward_digits_loop [onwards]:
  "onward lx lx1 \<Longrightarrow> onward lx (snd (snd (snd (snd (digits_loop base v a f lx1)))))"
proof (induction base v a f lx1 rule: digits_loop.induct)
  case (1 base v a f lx1)
  then show ?case
    by (simp add: digits_loop.simps [of base v a f lx1] onward_advance split: option.split)
qed

lemma onward_read_digits [onwards]:
  "onward lx lx1 \<Longrightarrow> onward lx (snd (snd (snd (snd (read_digits base v lx1)))))"
  by (simp add: read_digits_def onwards)

lemma onward_fraction_loop [onwards]: "onward lx lx1 \<Longrightarrow> onward lx (snd (snd (fraction_loop d s lx1)))"
proof (induction d s lx1 rule: fraction_loop.induct)
  case (1 d s lx1)
  then show ?case by (simp add: fraction_loop.simps [of d s lx1] onward_advance)
qed

lemma onward_time_unit [onwards]: "onward lx lx1 \<Longrightarrow> onward lx (snd (read_time_unit lx1))"
  by (auto simp: read_time_unit_def Let_def onwards del: funpow.simps split: option.split)

text \<open>A segment starts with a digit, so reading one advances.\<close>

lemma digits_loop_moves:
  "\<not> at_end lx \<Longrightarrow> is_digit (here lx) \<Longrightarrow> 10 \<le> base \<Longrightarrow>
    onward (advance lx) (snd (snd (snd (snd (digits_loop base v a f lx)))))"
  by (auto simp: digits_loop.simps [of base v a f lx] digit_value_def digit_of_def is_digit_def onwards)

definition read_segment :: "Lexer \<Rightarrow> (u64 \<times> bool \<times> nat \<times> nat \<times> bool \<times> nat option) \<times> Lexer" where
  "read_segment lx =
     (case read_digits 10 0 lx of (_, whole, _, overflow, lx1) \<Rightarrow>
      let fraction = (here lx1 = CHR ''.'' \<and> peek 1 lx1 \<noteq> CHR ''.'');
          (digits, scale, lx2) = (if fraction then fraction_loop 0 1 (advance lx1) else (0, 1, lx1));
          (rank, lx3) = read_time_unit lx2
      in ((whole, overflow, digits, scale, fraction, rank), lx3))"

lemma onward_read_segment: "\<not> at_end lx \<Longrightarrow> is_digit (here lx) \<Longrightarrow> onward (advance lx) (snd (read_segment lx))"
proof -
  assume a: "\<not> at_end lx" "is_digit (here lx)"
  obtain ok w y f lx1 where r: "read_digits 10 0 lx = (ok, w, y, f, lx1)" by (metis prod_cases5)
  with digits_loop_moves [OF a, of 10 0 False False] have o: "onward (advance lx) lx1" by (simp add: read_digits_def)
  have "onward (advance lx) (snd (snd (fraction_loop 0 1 (advance lx1))))" using o by (simp add: onwards)
  then show ?thesis using o by (auto simp: read_segment_def r Let_def split_beta onwards)
qed

lemma segment_moves: "(p, lx1) = read_segment lx \<Longrightarrow> \<not> at_end lx \<Longrightarrow> is_digit (here lx) \<Longrightarrow> lx_left lx1 < lx_left lx"
  using onward_advanced(2) [OF onward_read_segment, of lx] by (metis snd_conv)

text \<open>\<open>Inl\<close> is a malformed literal, at the position where the code gives up.\<close>

function time_segments :: "time_state \<Rightarrow> Lexer \<Rightarrow> Lexer + (time_state \<times> Lexer)" where
  "time_segments st lx =
     (if at_end lx then Inr (st, lx)
      else if here lx = CHR ''_'' then time_segments st (advance lx)
      else if \<not> is_digit (here lx) then Inr (st, lx)
      else if tm_fraction st then Inl lx
      else case read_segment lx of ((whole, overflow, digits, scale, fraction, rank), lx1) \<Rightarrow>
        (case rank of None \<Rightarrow> Inl lx1
         | Some r \<Rightarrow> if r \<ge> tm_rank st then Inl lx1
             else time_segments (add_segment whole overflow digits scale r fraction st) lx1))"
  by pat_completeness auto

termination
  by (relation "measure (\<lambda>(st, lx). lx_left lx)") (auto simp: lx_left_advance intro: segment_moves)

declare time_segments.simps [simp del]

definition lex_time_literal :: "Token \<Rightarrow> nat \<Rightarrow> Lexer \<Rightarrow> Token \<times> Lexer" where
  "lex_time_literal tok start lx =
     (let negative = (here lx = CHR ''-'');
          lx1 = (if here lx = CHR ''-'' \<or> here lx = CHR ''+'' then advance lx else lx)
      in case time_segments \<lparr> tm_total = 0, tm_rank = 7, tm_any = False, tm_fraction = False,
             tm_overflow = False \<rparr> lx1 of
           Inl lx2 \<Rightarrow> time_error tok start lx2
         | Inr (st, lx2) \<Rightarrow>
             if \<not> tm_any st then time_error tok start lx2
             else if tm_overflow st then make_error tok D_lex_literal_overflow start lx2
             else (tok\<lparr> tok_kind := Tk_time_literal,
                     tok_signed := (if negative then - tm_total st else tm_total st),
                     tok_text := slice_from start lx2 \<rparr>, lx2))"


section \<open>Typed literals, strings and addresses\<close>

definition negate_bits :: "u64 \<Rightarrow> u64" where
  "negate_bits v = double_bits (fp_neg (bits_double v))"

definition lex_typed_bool :: "Token \<Rightarrow> nat \<Rightarrow> Lexer \<Rightarrow> Token \<times> Lexer" where
  "lex_typed_bool tok start lx =
     (let found = (\<lambda>v l. (tok\<lparr> tok_kind := Tk_typed_literal, tok_unsigned := v, tok_text := slice_from start l \<rparr>, l))
      in if is_ident_start (here lx) then
           (let lx1 = skip_ident_tail lx; word = slice_from (lx_pos lx) lx1
            in if ascii_iequals word ''true'' then found 1 lx1
               else if ascii_iequals word ''false'' then found 0 lx1
               else make_error tok D_lex_bad_numeric_literal start lx1)
         else if here lx = CHR ''0'' \<or> here lx = CHR ''1''
         then found (of_nat (digit_of (here lx))) (advance lx)
         else make_error tok D_lex_bad_numeric_literal start lx)"

definition lex_typed_literal :: "Token \<Rightarrow> nat \<Rightarrow> Type \<Rightarrow> Lexer \<Rightarrow> Token \<times> Lexer" where
  "lex_typed_literal tok start ty lx =
     (let tok = tok\<lparr> tok_literal_type := ty \<rparr>
      in if ty = T_bool then lex_typed_bool tok start lx
         else let negative = (here lx = CHR ''-'');
             lx1 = (if here lx = CHR ''-'' \<or> here lx = CHR ''+'' then advance lx else lx)
           in if \<not> is_digit (here lx1)
              then make_error tok D_lex_bad_numeric_literal start (skip_ident_tail lx1)
              else case lex_number (empty_token\<lparr> tok_line := tok_line tok, tok_column := tok_column tok \<rparr>)
                      (lx_pos lx1) lx1 of
                  (n, lx2) \<Rightarrow>
                    if tok_kind n = Tk_error then (n\<lparr> tok_text := slice_from start lx2 \<rparr>, lx2)
                    else (tok\<lparr> tok_kind := Tk_typed_literal,
                            tok_real_form := (tok_kind n = Tk_real_literal),
                            tok_real := (if negative then negate_bits (tok_real n) else tok_real n),
                            tok_unsigned := tok_unsigned n, tok_based := tok_based n,
                            tok_signed := (if negative then - 1 else 0),
                            tok_text := slice_from start lx2 \<rparr>, lx2))"

definition lex_string :: "Token \<Rightarrow> nat \<Rightarrow> char \<Rightarrow> Lexer \<Rightarrow> Token \<times> Lexer" where
  "lex_string tok start quote lx =
     (let lx1 = advance lx;
          lx2 = advance_while (\<lambda>l. here l \<noteq> quote \<and> here l \<noteq> CHR 0x0A \<and> here l \<noteq> CHR 0x0D) lx1
      in if at_end lx2 \<or> here lx2 \<noteq> quote then make_error tok D_sema_invalid_string_literal start lx2
         else (tok\<lparr> tok_kind := (if quote = CHR 0x27 then Tk_string_literal else Tk_wstring_literal),
                 tok_text := slice_from (lx_pos lx1) lx2 \<rparr>, advance lx2))"

definition skip_digits :: "Lexer \<Rightarrow> Lexer" where
  "skip_digits = advance_while (\<lambda>l. is_digit (here l))"

definition lex_located_address :: "Token \<Rightarrow> nat \<Rightarrow> Lexer \<Rightarrow> Token \<times> Lexer" where
  "lex_located_address tok start lx =
     (let lx1 = advance lx; area = to_lower (here lx1);
          lx2 = advance lx1; width = to_lower (here lx2);
          lx3 = advance lx2; lx4 = skip_digits lx3;
          found = (\<lambda>l. (tok\<lparr> tok_kind := Tk_located_address, tok_text := slice_from start l \<rparr>, l))
      in if area \<notin> set ''iqm'' then make_error tok D_lex_invalid_character start lx1
         else if width \<notin> set ''xbwdl'' then make_error tok D_lex_invalid_character start lx2
         else if \<not> is_digit (here lx3) then make_error tok D_lex_bad_numeric_literal start lx3
         else if width = CHR ''x'' \<and> here lx4 = CHR ''.''
         then (let lx5 = advance lx4
               in if \<not> is_digit (here lx5) then make_error tok D_lex_bad_numeric_literal start lx5
                  else found (skip_digits lx5))
         else found lx4)"


section \<open>Dates\<close>

primrec read_fixed_loop :: "nat \<Rightarrow> nat \<Rightarrow> Lexer \<Rightarrow> bool \<times> nat \<times> Lexer" where
  "read_fixed_loop 0 v lx = (True, v, lx)"
| "read_fixed_loop (Suc n) v lx =
     (if \<not> is_digit (here lx) then (False, v, lx)
      else read_fixed_loop n (v * 10 + digit_of (here lx)) (advance lx))"

definition read_fixed :: "nat \<Rightarrow> Lexer \<Rightarrow> bool \<times> nat \<times> Lexer" where
  "read_fixed digits lx = read_fixed_loop digits 0 lx"

definition leap_year :: "nat \<Rightarrow> bool" where
  "leap_year year \<longleftrightarrow> (year mod 4 = 0 \<and> year mod 100 \<noteq> 0) \<or> year mod 400 = 0"

definition month_days :: "nat \<Rightarrow> nat \<Rightarrow> nat" where
  "month_days year month =
     (if month = 2 \<and> leap_year year then 29
      else if month \<le> 12 then [0, 31, 28, 31, 30, 31, 30, 31, 31, 30, 31, 30, 31] ! month else 0)"

definition civil_days :: "int \<Rightarrow> nat \<Rightarrow> nat \<Rightarrow> int" where
  "civil_days year month day =
     (let y = (if month \<le> 2 then year - 1 else year);
          era = c_div (if y \<ge> 0 then y else y - 399) 400;
          yoe = nat (y - era * 400);
          shifted = (if month > 2 then month - 3 else month + 9);
          doy = (153 * shifted + 2) div 5 + day - 1;
          doe = yoe * 365 + yoe div 4 - yoe div 100 + doy
      in era * 146097 + int doe - 719468)"

definition consume_date_tail :: "Lexer \<Rightarrow> Lexer" where
  "consume_date_tail = advance_while (\<lambda>l. here l \<notin> set '';,)]'' \<and> \<not> is_space (here l))"

definition date_error :: "Token \<Rightarrow> nat \<Rightarrow> DiagCode \<Rightarrow> Lexer \<Rightarrow> Token \<times> Lexer" where
  "date_error tok start code lx = make_error tok code start (consume_date_tail lx)"

text \<open>\<open>YYYY-MM-DD\<close> and \<open>HH:MM:SS[.f]\<close>; \<open>Inl\<close> is the position of the failure.\<close>

definition read_date :: "Lexer \<Rightarrow> Lexer + nat \<times> nat \<times> nat \<times> Lexer" where
  "read_date lx =
     (case read_fixed 4 lx of (ok1, year, lx1) \<Rightarrow>
      if \<not> ok1 \<or> here lx1 \<noteq> CHR ''-'' then Inl lx1
      else case read_fixed 2 (advance lx1) of (ok2, month, lx2) \<Rightarrow>
      if \<not> ok2 \<or> here lx2 \<noteq> CHR ''-'' then Inl lx2
      else case read_fixed 2 (advance lx2) of (ok3, day, lx3) \<Rightarrow>
      if \<not> ok3 \<or> month < 1 \<or> month > 12 \<or> day < 1 \<or> day > month_days year month then Inl lx3
      else Inr (year, month, day, lx3))"

fun fraction_digits :: "nat \<Rightarrow> nat \<Rightarrow> Lexer \<Rightarrow> nat \<times> nat \<times> Lexer" where
  "fraction_digits 0 v lx = (9, v, lx)"
| "fraction_digits (Suc n) v lx =
     (if is_digit (here lx) then fraction_digits n (v * 10 + digit_of (here lx)) (advance lx)
      else (9 - Suc n, v, lx))"

definition read_second_fraction :: "Lexer \<Rightarrow> Lexer + nat \<times> Lexer" where
  "read_second_fraction lx =
     (if here lx \<noteq> CHR ''.'' then Inr (0, lx)
      else case fraction_digits 9 0 (advance lx) of (n, v, lx1) \<Rightarrow>
        if n = 0 \<or> is_digit (here lx1) then Inl lx1 else Inr (v * 10 ^ (9 - n), lx1))"

definition read_time_of_day :: "Lexer \<Rightarrow> Lexer + nat \<times> Lexer" where
  "read_time_of_day lx =
     (case read_fixed 2 lx of (ok1, hour, lx1) \<Rightarrow>
      if \<not> ok1 \<or> here lx1 \<noteq> CHR '':'' then Inl lx1
      else case read_fixed 2 (advance lx1) of (ok2, minute, lx2) \<Rightarrow>
      if \<not> ok2 \<or> here lx2 \<noteq> CHR '':'' then Inl lx2
      else case read_fixed 2 (advance lx2) of (ok3, second, lx3) \<Rightarrow>
      if \<not> ok3 \<or> hour > 23 \<or> minute > 59 \<or> second > 59 then Inl lx3
      else case read_second_fraction lx3 of
          Inl l \<Rightarrow> Inl l
        | Inr (ns, lx4) \<Rightarrow> Inr ((hour * 3600 + minute * 60 + second) * 1000000000 + ns, lx4))"

abbreviation (input) "day_ns \<equiv> 86400000000000 :: int"

text \<open>The nanoseconds of a date and time, where an \<open>int64\<close> holds them.\<close>

definition date_time_ns :: "int \<Rightarrow> nat \<Rightarrow> int option" where
  "date_time_ns days tod =
     (if days \<ge> 0
      then (if days > (int64_max - int tod) div day_ns then None else Some (days * day_ns + int tod))
      else let magnitude = - days; min_magnitude = int64_max + 1; delta = magnitude * day_ns - int tod
        in if magnitude > (min_magnitude + int tod) div day_ns then None
           else Some (if delta = min_magnitude then int64_min else - delta))"

text \<open>The value of the literal, or the failure with its position.\<close>

definition date_time_value :: "TokenKind \<Rightarrow> Lexer \<Rightarrow> Lexer + int \<times> Lexer" where
  "date_time_value kind lx =
     (if kind = Tk_tod_literal
      then (case read_time_of_day lx of Inl l \<Rightarrow> Inl l | Inr (tod, l) \<Rightarrow> Inr (int tod, l))
      else case read_date lx of
          Inl l \<Rightarrow> Inl l
        | Inr (year, month, day, lx1) \<Rightarrow>
            (let days = civil_days (int year) month day
             in if kind = Tk_date_literal then Inr (days, lx1)
                else if here lx1 \<noteq> CHR ''-'' then Inl lx1
                else case read_time_of_day (advance lx1) of
                    Inl l \<Rightarrow> Inl l
                  | Inr (tod, l) \<Rightarrow>
                      (case date_time_ns days tod of None \<Rightarrow> Inl l | Some ns \<Rightarrow> Inr (ns, l))))"

definition lex_date_time :: "Token \<Rightarrow> nat \<Rightarrow> TokenKind \<Rightarrow> Lexer \<Rightarrow> Token \<times> Lexer" where
  "lex_date_time tok start kind lx =
     (case date_time_value kind lx of
        Inl l \<Rightarrow> date_error tok start D_date_time_range_violation l
      | Inr (v, l) \<Rightarrow>
          (let tok1 = tok\<lparr> tok_signed := v \<rparr>
           in if is_alpha (here l) \<or> here l = CHR ''+'' \<or> here l = CHR ''-''
              then date_error tok1 start D_unsupported_l1b3_timezone l
              else (tok1\<lparr> tok_kind := kind, tok_text := slice_from start l \<rparr>, l)))"


section \<open>Words and punctuation\<close>

function word_loop :: "char \<Rightarrow> bool \<Rightarrow> Lexer \<Rightarrow> char \<times> bool \<times> Lexer" where
  "word_loop previous bad lx =
     (if \<not> at_end lx \<and> is_ident_char (here lx)
      then word_loop (here lx) (bad \<or> (here lx = CHR ''_'' \<and> previous = CHR ''_'')) (advance lx)
      else (previous, bad, lx))"
  by pat_completeness auto

termination
  by (relation "measure (\<lambda>(p, b, lx). lx_left lx)") (auto simp: lx_left_advance)

declare word_loop.simps [simp del]

definition classify_word :: "bool \<Rightarrow> Token \<Rightarrow> nat \<Rightarrow> Lexer \<Rightarrow> Token \<times> Lexer" where
  "classify_word bad tok start lx =
     (let text = tok_text tok
      in if ascii_iequals text ''true'' then (tok\<lparr> tok_kind := Tk_bool_literal, tok_unsigned := 1 \<rparr>, lx)
         else if ascii_iequals text ''false'' then (tok\<lparr> tok_kind := Tk_bool_literal, tok_unsigned := 0 \<rparr>, lx)
         else case look_up keyword_table text of
             Some kind \<Rightarrow> (tok\<lparr> tok_kind := kind \<rparr>, lx)
           | None \<Rightarrow>
               (case look_up unsupported_table text of
                  Some code \<Rightarrow> (tok\<lparr> tok_kind := Tk_unsupported_keyword, tok_payload := code \<rparr>, lx)
                | None \<Rightarrow>
                    if bad then make_error tok D_lex_bad_identifier start lx
                    else (tok\<lparr> tok_kind := Tk_identifier \<rparr>, lx)))"

definition lex_word :: "Token \<Rightarrow> nat \<Rightarrow> Lexer \<Rightarrow> Token \<times> Lexer" where
  "lex_word tok start lx =
     (case word_loop CHR 0x00 False lx of (previous, bad, lx1) \<Rightarrow>
      let text = slice_from start lx1; tok1 = tok\<lparr> tok_text := text \<rparr>; hash = (here lx1 = CHR ''#'')
      in case (if hash then date_prefix text else None) of
           Some kind \<Rightarrow> lex_date_time tok1 start kind (advance lx1)
         | None \<Rightarrow>
             if hash \<and> (ascii_iequals text ''t'' \<or> ascii_iequals text ''time'')
             then lex_time_literal tok1 start (advance lx1)
             else (case (if hash then look_up typed_prefixes text else None) of
                 Some ty \<Rightarrow> lex_typed_literal tok1 start ty (advance lx1)
               | None \<Rightarrow> classify_word (bad \<or> previous = CHR ''_'') tok1 start lx1))"

definition punct_table :: "(char \<times> TokenKind) list" where
  "punct_table = [(CHR '';'', Tk_semicolon), (CHR '','', Tk_comma), (CHR ''#'', Tk_hash),
     (CHR ''('', Tk_lparen), (CHR '')'', Tk_rparen), (CHR ''['', Tk_lbracket), (CHR '']'', Tk_rbracket),
     (CHR ''+'', Tk_plus), (CHR ''-'', Tk_minus), (CHR ''/'', Tk_slash), (CHR ''&'', Tk_ampersand),
     (CHR ''='', Tk_equal)]"

text \<open>The kind of a punctuation mark with its second character, if it has one.\<close>

definition punct_kind :: "char \<Rightarrow> char \<Rightarrow> (TokenKind \<times> bool) option" where
  "punct_kind c d =
     (if c = CHR '':'' then Some (if d = CHR ''='' then (Tk_assign, True) else (Tk_colon, False))
      else if c = CHR ''.'' then Some (if d = CHR ''.'' then (Tk_dotdot, True) else (Tk_dot, False))
      else if c = CHR ''*'' then Some (if d = CHR ''*'' then (Tk_star_star, True) else (Tk_star, False))
      else if c = CHR ''<'' then Some (if d = CHR ''>'' then (Tk_not_equal, True)
        else if d = CHR ''='' then (Tk_less_equal, True) else (Tk_less, False))
      else if c = CHR ''>'' then Some (if d = CHR ''='' then (Tk_greater_equal, True) else (Tk_greater, False))
      else map_option (\<lambda>k. (k, False)) (map_of punct_table c))"

definition lex_punct :: "Token \<Rightarrow> nat \<Rightarrow> Lexer \<Rightarrow> Token \<times> Lexer" where
  "lex_punct tok start lx =
     (let lx1 = advance lx
      in case punct_kind (here lx) (here lx1) of
           None \<Rightarrow> make_error tok D_lex_invalid_character start lx1
         | Some (kind, double) \<Rightarrow>
             (let lx2 = (if double then advance lx1 else lx1)
              in (tok\<lparr> tok_kind := kind, tok_text := slice_from start lx2 \<rparr>, lx2)))"


section \<open>The next token\<close>

definition next_token :: "Lexer \<Rightarrow> Token \<times> Lexer" where
  "next_token lx0 =
     (let lx = skip_trivia lx0;
          tok = empty_token\<lparr> tok_line := lx_line lx, tok_column := lx_column lx, tok_debug := lx_debug lx,
            tok_debug_pou := lx_debug_pou lx, tok_debug_path := lx_debug_path lx,
            tok_debug_line := lx_debug_line lx, tok_debug_column := lx_debug_column lx,
            tok_debug_depth := lx_debug_depth lx \<rparr>;
          lx = lx\<lparr> lx_debug := False \<rparr>; start = lx_pos lx; c = here lx
      in if lx_comment_error lx
         then (tok\<lparr> tok_kind := Tk_error, tok_payload := D_lex_unterminated_comment \<rparr>,
               lx\<lparr> lx_comment_error := False \<rparr>)
         else if at_end lx then (tok, lx)
         else if is_ident_start c then lex_word tok start lx
         else if is_digit c then lex_number tok start lx
         else if c = CHR 0x27 \<or> c = CHR 0x22 then lex_string tok start c lx
         else if c = CHR ''%'' then lex_located_address tok start lx
         else lex_punct tok start lx)"

end
