(* ===== verification/LexerProps.thy ===== *)
theory LexerProps
  imports Lexer
begin

text \<open>
  The lexer makes progress on every input: each token moves the position on, and the tokens of a
  source are a finite list that ends with \<open>end_of_input\<close>.
\<close>

section \<open>Progress\<close>

lemma onward_time_segments [onwards]:
  "onward lx lx1 \<Longrightarrow> case time_segments st lx1 of Inl l \<Rightarrow> onward lx l | Inr (s, l) \<Rightarrow> onward lx l"
proof (induction st lx1 rule: time_segments.induct)
  case (1 st lx1)
  have seg: "onward lx (snd (read_segment lx1))" if "\<not> at_end lx1" "is_digit (here lx1)"
    using onward_trans [OF onward_advance [OF 1(3)] onward_read_segment [OF that]] .
  show ?case
  proof (cases "at_end lx1 \<or> here lx1 = CHR ''_'' \<or> \<not> is_digit (here lx1) \<or> tm_fraction st")
    case True
    with 1(1,3) show ?thesis by (auto simp: time_segments.simps [of st lx1] onwards)
  next
    case False
    obtain whole overflow digits scale fraction rank lx2 where
      r: "read_segment lx1 = ((whole, overflow, digits, scale, fraction, rank), lx2)"
      by (cases "read_segment lx1") auto
    with False seg have o: "onward lx lx2" by simp
    from False r o 1(2) show ?thesis
      by (cases rank) (auto simp: time_segments.simps [of st lx1])
  qed
qed

lemma onward_error [onwards]: "onward lx lx1 \<Longrightarrow> onward lx (snd (make_error tok c s lx1))"
  by (simp add: make_error_def)

lemma onward_tails [onwards]:
  "onward lx lx1 \<Longrightarrow> onward lx (skip_ident_tail lx1)" "onward lx lx1 \<Longrightarrow> onward lx (skip_digits lx1)"
  "onward lx lx1 \<Longrightarrow> onward lx (consume_date_tail lx1)"
  "onward lx lx1 \<Longrightarrow> onward lx (snd (time_error tok s lx1))"
  "onward lx lx1 \<Longrightarrow> onward lx (snd (date_error tok s c lx1))"
  by (simp_all add: skip_ident_tail_def skip_digits_def consume_date_tail_def time_error_def date_error_def onwards)

lemma onward_exponent [onwards]: "onward lx lx1 \<Longrightarrow> onward lx (snd (skip_exponent lx1))"
  by (auto simp: skip_exponent_def Let_def split_beta onwards)

lemma onward_time_literal [onwards]: "onward lx lx1 \<Longrightarrow> onward lx (snd (lex_time_literal tok s lx1))"
proof -
  assume "onward lx lx1"
  then have o: "onward lx (if here lx1 = CHR ''-'' \<or> here lx1 = CHR ''+'' then advance lx1 else lx1)"
    (is "onward lx ?l") by (simp add: onwards)
  let ?r = "time_segments \<lparr> tm_total = 0, tm_rank = 7, tm_any = False, tm_fraction = False, tm_overflow = False \<rparr> ?l"
  show ?thesis
  proof (cases ?r)
    case (Inl l)
    with onward_time_segments [OF o] have "onward lx l" by (metis sum.simps(5))
    with Inl show ?thesis by (simp add: lex_time_literal_def Let_def onwards)
  next
    case (Inr p)
    then obtain st l where p: "?r = Inr (st, l)" by (cases p) simp
    with onward_time_segments [OF o] have "onward lx l" by (metis (no_types, lifting) case_prod_conv sum.simps(6))
    with p show ?thesis by (simp add: lex_time_literal_def Let_def onwards)
  qed
qed

lemma onward_fraction [onwards]: "onward lx lx1 \<Longrightarrow> onward lx (snd (snd (read_fraction lx1)))"
  by (auto simp: read_fraction_def split_beta onwards)

lemma onward_based [onwards]: "onward lx lx1 \<Longrightarrow> onward lx (snd (lex_based tok s base lx1))"
  by (auto simp: lex_based_def split_beta onwards)

lemma onward_decimal [onwards]: "onward lx lx1 \<Longrightarrow> onward lx (snd (lex_decimal tok s v f lx1))"
  by (auto simp: lex_decimal_def split_beta Let_def onwards)

text \<open>A number starts with a digit, so it advances.\<close>

lemma onward_number:
  assumes "\<not> at_end lx" "is_digit (here lx)"
  shows "onward (advance lx) (snd (lex_number tok s lx))"
proof -
  have "onward (advance lx) (snd (snd (snd (snd (read_digits 10 0 lx)))))"
    using digits_loop_moves [OF assms, of 10 0 False False] by (simp add: read_digits_def)
  then show ?thesis by (auto simp: lex_number_def split_beta onwards)
qed

lemma digit_not_end: "is_digit (here lx) \<Longrightarrow> \<not> at_end lx"
  using here_end [of lx] by (auto simp: is_digit_def)

lemma onward_typed_bool [onwards]: "onward lx lx1 \<Longrightarrow> onward lx (snd (lex_typed_bool tok s lx1))"
  by (auto simp: lex_typed_bool_def Let_def onwards)

lemma onward_typed [onwards]: "onward lx lx1 \<Longrightarrow> onward lx (snd (lex_typed_literal tok s ty lx1))"
proof -
  assume "onward lx lx1"
  then have o: "onward lx (if here lx1 = CHR ''-'' \<or> here lx1 = CHR ''+'' then advance lx1 else lx1)"
    (is "onward lx ?l") by (simp add: onwards)
  have n: "onward lx (snd (lex_number t k ?l))" if "is_digit (here ?l)" for t k
    using onward_trans [OF onward_advance [OF o] onward_number [OF digit_not_end [OF that] that]] .
  show ?thesis
    using \<open>onward lx lx1\<close> o n by (auto simp: lex_typed_literal_def Let_def split_beta onwards)
qed

lemma onward_string [onwards]: "onward lx lx1 \<Longrightarrow> onward lx (snd (lex_string tok s q lx1))"
  by (auto simp: lex_string_def Let_def onwards)

lemma onward_address [onwards]: "onward lx lx1 \<Longrightarrow> onward lx (snd (lex_located_address tok s lx1))"
  by (simp add: lex_located_address_def Let_def onwards)

lemma onward_fixed [onwards]: "onward lx lx1 \<Longrightarrow> onward lx (snd (snd (read_fixed_loop n v lx1)))"
  by (induction n arbitrary: v lx1) (auto simp: onwards)

lemma onward_read_fixed [onwards]: "onward lx lx1 \<Longrightarrow> onward lx (snd (snd (read_fixed n lx1)))"
  by (simp add: read_fixed_def onwards)

text \<open>Reading functions with a failure position.\<close>

definition either_onward :: "Lexer \<Rightarrow> Lexer + 'a \<Rightarrow> ('a \<Rightarrow> Lexer) \<Rightarrow> bool" where
  "either_onward lx r pos = (case r of Inl l \<Rightarrow> onward lx l | Inr x \<Rightarrow> onward lx (pos x))"

lemma either_onward_simps [simp]:
  "either_onward lx (Inl l) pos = onward lx l" "either_onward lx (Inr x) pos = onward lx (pos x)"
  by (simp_all add: either_onward_def)

lemma onward_date: "onward lx lx1 \<Longrightarrow> either_onward lx (read_date lx1) (\<lambda>(y, m, d, l). l)"
  by (auto simp: read_date_def split_beta onwards)

lemma onward_fraction_digits [onwards]: "onward lx lx1 \<Longrightarrow> onward lx (snd (snd (fraction_digits n v lx1)))"
  by (induction n v lx1 rule: fraction_digits.induct) (auto simp: onwards)

lemma onward_second_fraction: "onward lx lx1 \<Longrightarrow> either_onward lx (read_second_fraction lx1) snd"
  by (auto simp: read_second_fraction_def split_beta onwards)

lemma onward_time_of_day: "onward lx lx1 \<Longrightarrow> either_onward lx (read_time_of_day lx1) snd"
proof -
  assume o: "onward lx lx1"
  let ?l = "snd (snd (read_fixed 2 (advance (snd (snd (read_fixed 2 (advance (snd (snd (read_fixed 2 lx1))))))))))"
  have "either_onward lx (read_second_fraction ?l) snd"
    by (rule onward_second_fraction) (simp add: o onwards)
  with o show ?thesis
    by (cases "read_second_fraction ?l") (auto simp: read_time_of_day_def split_beta onwards)
qed

lemma onward_date_time_value: "onward lx lx1 \<Longrightarrow> either_onward lx (date_time_value k lx1) snd"
proof -
  assume o: "onward lx lx1"
  show ?thesis
  proof (cases "k = Tk_tod_literal")
    case True
    with onward_time_of_day [OF o] show ?thesis
      by (cases "read_time_of_day lx1") (auto simp: date_time_value_def)
  next
    case False
    show ?thesis
    proof (cases "read_date lx1")
      case (Inl l)
      with onward_date [OF o] False show ?thesis by (simp add: date_time_value_def)
    next
      case (Inr r)
      obtain y m d l where r: "r = (y, m, d, l)" by (cases r) auto
      with onward_date [OF o] Inr have l: "onward lx l" by simp
      have t: "either_onward lx (read_time_of_day (advance l)) snd"
        by (rule onward_time_of_day) (simp add: l onwards)
      show ?thesis
        using False Inr r l t
        by (cases "read_time_of_day (advance l)") (auto simp: date_time_value_def Let_def split: option.split)
    qed
  qed
qed

lemma onward_date_time [onwards]: "onward lx lx1 \<Longrightarrow> onward lx (snd (lex_date_time tok s k lx1))"
  using onward_date_time_value [of lx lx1 k]
  by (cases "date_time_value k lx1") (auto simp: lex_date_time_def Let_def onwards)

lemma onward_word_loop [onwards]: "onward lx lx1 \<Longrightarrow> onward lx (snd (snd (word_loop p b lx1)))"
proof (induction p b lx1 rule: word_loop.induct)
  case (1 p b lx1)
  then show ?case by (simp add: word_loop.simps [of p b lx1] onward_advance)
qed

lemma onward_classify [onwards]: "onward lx lx1 \<Longrightarrow> onward lx (snd (classify_word b tok s lx1))"
  by (auto simp: classify_word_def Let_def onwards split: option.split)

lemma onward_word:
  assumes "\<not> at_end lx" "is_ident_start (here lx)"
  shows "onward (advance lx) (snd (lex_word tok s lx))"
proof -
  from assms have "is_ident_char (here lx)" by (auto simp: is_ident_start_def is_ident_char_def)
  with assms have o: "onward (advance lx) (snd (snd (word_loop CHR 0x00 False lx)))"
    by (simp add: word_loop.simps [of _ _ lx] onwards)
  show ?thesis
    by (auto simp: lex_word_def split_beta Let_def o onwards split: option.split)
qed

lemma onward_punct: "onward (advance lx) (snd (lex_punct tok s lx))"
  by (auto simp: lex_punct_def Let_def onwards split: option.split)


text \<open>Skipping trivia only sets the flag of an unterminated comment.\<close>

lemma trivia_onward:
  "lx_source (skip_trivia lx) = lx_source lx \<and> lx_pos lx \<le> lx_pos (skip_trivia lx) \<and>
   (lx_pos lx \<le> length (lx_source lx) \<longrightarrow> lx_pos (skip_trivia lx) \<le> length (lx_source lx)) \<and>
   (lx_comment_error (skip_trivia lx) \<longrightarrow> \<not> lx_comment_error lx \<longrightarrow> lx_pos lx < lx_pos (skip_trivia lx)) \<and>
   (lx_comment_error lx \<longrightarrow> lx_comment_error (skip_trivia lx))"
proof (induction lx rule: skip_trivia.induct)
  case (1 lx)
  have step: ?case if "onward (advance lx) l" "\<not> at_end lx" "skip_trivia lx = skip_trivia l"
    "lx_source (skip_trivia l) = lx_source l \<and> lx_pos l \<le> lx_pos (skip_trivia l) \<and>
     (lx_pos l \<le> length (lx_source l) \<longrightarrow> lx_pos (skip_trivia l) \<le> length (lx_source l)) \<and>
     (lx_comment_error (skip_trivia l) \<longrightarrow> \<not> lx_comment_error l \<longrightarrow> lx_pos l < lx_pos (skip_trivia l)) \<and>
     (lx_comment_error l \<longrightarrow> lx_comment_error (skip_trivia l))" for l
    using that onward_advanced(1) [OF that(1,2)] by (auto simp: onward_def at_end_def)
  consider "at_end lx" | "\<not> at_end lx" "is_space (here lx)"
    | "\<not> at_end lx" "\<not> is_space (here lx)" "two ''//'' lx"
    | "\<not> at_end lx" "\<not> is_space (here lx)" "\<not> two ''//'' lx" "two ''(*'' lx" "debug_mark lx"
    | "\<not> at_end lx" "\<not> is_space (here lx)" "\<not> two ''//'' lx" "two ''(*'' lx" "\<not> debug_mark lx"
    | "\<not> at_end lx" "\<not> is_space (here lx)" "\<not> two ''//'' lx" "\<not> two ''(*'' lx" by blast
  then show ?case
  proof cases
    case 1
    then show ?thesis by (simp add: skip_trivia.simps [of lx])
  next
    case 2
    with 1(1) show ?thesis by (intro step [of "advance lx"]) (simp_all add: skip_trivia.simps [of lx])
  next
    case 3
    with 1(2) show ?thesis
      by (intro step [of "advance_while (\<lambda>l. here l \<noteq> CHR 0x0A) (advance lx)"])
        (simp_all add: skip_trivia.simps [of lx] onwards)
  next
    case 4
    with 1(3) show ?thesis
      by (intro step [of "parse_debug_directive lx"]) (simp_all add: skip_trivia.simps [of lx] onward_debug_advanced)
  next
    case 5
    obtain d l where s: "skip_comment 1 (advance (advance lx)) = (d, l)" by fastforce
    have "onward (advance lx) (snd (skip_comment 1 (advance (advance lx))))" by (simp add: onwards)
    then have o: "onward (advance lx) l" unfolding s by simp
    show ?thesis
    proof (cases "d > 0")
      case True
      with 5 s onward_advanced(1) [OF o 5(1)] o show ?thesis
        by (auto simp: skip_trivia.simps [of lx] onward_def at_end_def)
    next
      case False
      with 5 s 1(4) o show ?thesis by (intro step [of l]) (simp_all add: skip_trivia.simps [of lx])
    qed
  next
    case 6
    then show ?thesis by (simp add: skip_trivia.simps [of lx])
  qed
qed


section \<open>No token but the last ends the input\<close>

lemma error_kind [simp]: "tok_kind (fst (make_error tok c s lx)) = Tk_error"
  by (simp add: make_error_def)

lemma error_kinds [simp]:
  "tok_kind (fst (time_error tok s lx)) = Tk_error" "tok_kind (fst (date_error tok s c lx)) = Tk_error"
  by (simp_all add: time_error_def date_error_def)

lemma number_kind: "tok_kind (fst (lex_number tok s lx)) \<in> {Tk_error, Tk_int_literal, Tk_real_literal}"
  by (auto simp: lex_number_def lex_based_def lex_decimal_def split_beta Let_def)

lemma time_kind: "tok_kind (fst (lex_time_literal tok s lx)) \<in> {Tk_error, Tk_time_literal}"
  by (auto simp: lex_time_literal_def Let_def split: sum.split)

lemma typed_kind: "tok_kind (fst (lex_typed_literal tok s ty lx)) \<in> {Tk_error, Tk_typed_literal}"
  by (auto simp: lex_typed_literal_def lex_typed_bool_def Let_def split_beta)

lemma string_kind: "tok_kind (fst (lex_string tok s q lx)) \<in> {Tk_error, Tk_string_literal, Tk_wstring_literal}"
  by (auto simp: lex_string_def Let_def)

lemma address_kind: "tok_kind (fst (lex_located_address tok s lx)) \<in> {Tk_error, Tk_located_address}"
  by (simp add: lex_located_address_def Let_def)

lemma date_kind: "tok_kind (fst (lex_date_time tok s k lx)) \<in> {Tk_error, k}"
  by (auto simp: lex_date_time_def Let_def split: sum.split)

lemma literal_kinds: "tok_kind (fst (lex_time_literal tok s lx)) \<noteq> Tk_end_of_input"
  "tok_kind (fst (lex_typed_literal tok s ty lx)) \<noteq> Tk_end_of_input"
  using time_kind [of tok s lx] typed_kind [of tok s ty lx] by auto

lemma date_prefix_kind: "date_prefix text = Some k \<Longrightarrow> k \<in> {Tk_date_literal, Tk_tod_literal, Tk_dt_literal}"
  by (auto simp: date_prefix_def split: if_splits)

lemma look_up_in: "look_up entries text = Some x \<Longrightarrow> x \<in> snd ` set entries"
  by (auto simp: look_up_def find_Some_iff) (metis image_eqI nth_mem snd_conv)

lemma look_up_keyword: "look_up keyword_table text = Some k \<Longrightarrow> \<exists>q. k = Tk_kw q \<or> (\<exists>q. k = Tk_sfc q) \<or> (\<exists>q. k = Tk_decl q) \<or> (\<exists>q. k = Tk_type q)"
  by (drule look_up_in) (auto simp: keyword_table_def)

lemma word_kind: "tok_kind (fst (lex_word tok s lx)) \<noteq> Tk_end_of_input"
proof -
  obtain p b l where w: "word_loop CHR 0x00 False lx = (p, b, l)" by (metis prod_cases3)
  let ?text = "slice_from s l" let ?hash = "here l = CHR ''#''"
  have c: "tok_kind (fst (classify_word b' (tok\<lparr> tok_text := ?text \<rparr>) s l)) \<noteq> Tk_end_of_input" for b'
    using look_up_keyword [of ?text]
    by (auto simp: classify_word_def Let_def split: option.split)
  show ?thesis
  proof (cases "if ?hash then date_prefix ?text else None")
    case (Some k)
    then have "k \<in> {Tk_date_literal, Tk_tod_literal, Tk_dt_literal}"
      by (intro date_prefix_kind) (simp split: if_splits)
    with date_kind [of "tok\<lparr> tok_text := ?text \<rparr>" s k "advance l"] Some show ?thesis
      by (auto simp: lex_word_def w Let_def)
  next
    case None
    then show ?thesis
      using c by (simp add: lex_word_def w Let_def literal_kinds split: option.split)
  qed
qed

lemma punct_kind_some: "punct_kind c d = Some (k, b) \<Longrightarrow> k \<noteq> Tk_end_of_input"
  by (auto simp: punct_kind_def punct_table_def split: if_splits)

lemma punct_kind: "tok_kind (fst (lex_punct tok s lx)) \<noteq> Tk_end_of_input"
  by (auto simp: lex_punct_def Let_def split: option.split dest: punct_kind_some)


section \<open>The tokens of a source\<close>

text \<open>The choice of \<open>Lexer::next\<close> by the first character.\<close>

definition lex_start :: "Token \<Rightarrow> Lexer \<Rightarrow> Token \<times> Lexer" where
  "lex_start tok lx =
     (if is_ident_start (here lx) then lex_word tok (lx_pos lx) lx
      else if is_digit (here lx) then lex_number tok (lx_pos lx) lx
      else if here lx = CHR 0x27 \<or> here lx = CHR 0x22 then lex_string tok (lx_pos lx) (here lx) lx
      else if here lx = CHR ''%'' then lex_located_address tok (lx_pos lx) lx
      else lex_punct tok (lx_pos lx) lx)"

definition token_at :: "Lexer \<Rightarrow> Token" where
  "token_at lx = empty_token\<lparr> tok_line := lx_line lx, tok_column := lx_column lx, tok_debug := lx_debug lx,
     tok_debug_pou := lx_debug_pou lx, tok_debug_path := lx_debug_path lx,
     tok_debug_line := lx_debug_line lx, tok_debug_column := lx_debug_column lx,
     tok_debug_depth := lx_debug_depth lx \<rparr>"

lemma next_token_start: "next_token lx0 =
    (let lx = skip_trivia lx0; lx1 = lx\<lparr> lx_debug := False \<rparr>
     in if lx_comment_error lx
        then ((token_at lx)\<lparr> tok_kind := Tk_error, tok_payload := D_lex_unterminated_comment \<rparr>,
              lx1\<lparr> lx_comment_error := False \<rparr>)
        else if at_end lx1 then (token_at lx, lx1) else lex_start (token_at lx) lx1)"
  by (simp add: next_token_def lex_start_def token_at_def Let_def)

lemma string_onward: "onward (advance lx) (snd (lex_string tok s q lx))"
  by (auto simp: lex_string_def Let_def onwards)

lemma address_onward: "onward (advance lx) (snd (lex_located_address tok s lx))"
  by (simp add: lex_located_address_def Let_def onwards)

lemma lex_start_onward: "\<not> at_end lx \<Longrightarrow> onward (advance lx) (snd (lex_start tok lx))"
  by (simp add: lex_start_def onward_word onward_number onward_punct string_onward address_onward)

lemma lex_start_kind: "tok_kind (fst (lex_start tok lx)) \<noteq> Tk_end_of_input"
  using word_kind [of tok] number_kind [of tok] string_kind [of tok] address_kind [of tok] punct_kind [of tok]
  by (auto simp: lex_start_def) (metis TokenKind.distinct)+

lemma next_token_moves:
  assumes "next_token lx = (t, lx')"
  shows "\<not> lx_comment_error lx'" "lx_source lx' = lx_source lx" "lx_pos lx \<le> lx_pos lx'"
    "lx_pos lx \<le> length (lx_source lx) \<Longrightarrow> lx_pos lx' \<le> length (lx_source lx)"
    "tok_kind t \<noteq> Tk_end_of_input \<Longrightarrow> \<not> lx_comment_error lx \<Longrightarrow> lx_pos lx < lx_pos lx'"
    "tok_kind t = Tk_end_of_input \<Longrightarrow> \<not> lx_comment_error lx \<and> length (lx_source lx) \<le> lx_pos lx'"
proof -
  let ?l = "(skip_trivia lx)\<lparr> lx_debug := False \<rparr>"
  note triv = trivia_onward [of lx]
  have all: "\<not> lx_comment_error lx' \<and> lx_source lx' = lx_source lx \<and> lx_pos lx \<le> lx_pos lx' \<and>
    (lx_pos lx \<le> length (lx_source lx) \<longrightarrow> lx_pos lx' \<le> length (lx_source lx)) \<and>
    (tok_kind t \<noteq> Tk_end_of_input \<longrightarrow> \<not> lx_comment_error lx \<longrightarrow> lx_pos lx < lx_pos lx') \<and>
    (tok_kind t = Tk_end_of_input \<longrightarrow> \<not> lx_comment_error lx \<and> length (lx_source lx) \<le> lx_pos lx')"
  proof (cases "lx_comment_error (skip_trivia lx)")
    case True
    with assms triv show ?thesis by (auto simp: next_token_start Let_def)
  next
    case no_error: False
    show ?thesis
    proof (cases "at_end ?l")
      case True
      with no_error assms triv show ?thesis
        by (auto simp: next_token_start Let_def token_at_def empty_token_def at_end_def)
    next
      case False
      with no_error assms have s: "lex_start (token_at (skip_trivia lx)) ?l = (t, lx')"
        by (simp add: next_token_start Let_def)
      from lex_start_onward [OF False, of "token_at (skip_trivia lx)"] s have o: "onward (advance ?l) lx'" by simp
      from lex_start_kind [of "token_at (skip_trivia lx)" ?l] s have k: "tok_kind t \<noteq> Tk_end_of_input" by simp
      from onward_advanced(1) [OF o False] o no_error triv k False show ?thesis
        by (auto simp: onward_def at_end_def)
    qed
  qed
  then show "\<not> lx_comment_error lx'" "lx_source lx' = lx_source lx" "lx_pos lx \<le> lx_pos lx'"
    "lx_pos lx \<le> length (lx_source lx) \<Longrightarrow> lx_pos lx' \<le> length (lx_source lx)"
    "tok_kind t \<noteq> Tk_end_of_input \<Longrightarrow> \<not> lx_comment_error lx \<Longrightarrow> lx_pos lx < lx_pos lx'"
    "tok_kind t = Tk_end_of_input \<Longrightarrow> \<not> lx_comment_error lx \<and> length (lx_source lx) \<le> lx_pos lx'" by blast+
qed

text \<open>What is left to read, counting the pending error of a comment.\<close>

definition unread :: "Lexer \<Rightarrow> nat" where
  "unread lx = length (lx_source lx) - lx_pos lx + of_bool (lx_comment_error lx)"

lemma unread_less:
  assumes "next_token lx = (t, lx')" "tok_kind t \<noteq> Tk_end_of_input" "lx_pos lx \<le> length (lx_source lx)"
  shows "unread lx' < unread lx"
  using next_token_moves [OF assms(1)] assms(2,3) by (auto simp: unread_def)

function tokens :: "Lexer \<Rightarrow> Token list" where
  "tokens lx = (case next_token lx of (t, lx') \<Rightarrow>
     if tok_kind t = Tk_end_of_input \<or> length (lx_source lx) < lx_pos lx then [t] else t # tokens lx')"
  by pat_completeness auto

termination
  by (relation "measure unread") (auto dest: unread_less [OF sym])

declare tokens.simps [simp del]

lemma tokens_bound:
  assumes "lx_pos lx \<le> length (lx_source lx)"
  shows "length (tokens lx) \<le> Suc (unread lx) \<and> tok_kind (last (tokens lx)) = Tk_end_of_input \<and>
    (\<forall>t \<in> set (butlast (tokens lx)). tok_kind t \<noteq> Tk_end_of_input)"
  using assms
proof (induction lx rule: tokens.induct)
  case (1 lx)
  obtain t lx' where n: "next_token lx = (t, lx')" by fastforce
  show ?case
  proof (cases "tok_kind t = Tk_end_of_input")
    case True
    with n show ?thesis by (simp add: tokens.simps [of lx])
  next
    case False
    with 1 n next_token_moves(2,4) [OF n] have ih: "length (tokens lx') \<le> Suc (unread lx') \<and>
        tok_kind (last (tokens lx')) = Tk_end_of_input \<and>
        (\<forall>t \<in> set (butlast (tokens lx')). tok_kind t \<noteq> Tk_end_of_input)" by simp
    have "tokens lx' \<noteq> []" by (simp add: tokens.simps [of lx'] split: prod.split)
    with ih unread_less [OF n False 1(2)] False n 1(2) show ?thesis
      by (simp add: tokens.simps [of lx])
  qed
qed

end
