(* ===== verification/LexerLiterals.thy ===== *)
theory LexerLiterals
  imports LexerProps
begin

text \<open>
  What the lexer reads from literals: integers in all bases with their overflow, and dates against a
  calendar that counts days.
\<close>

section \<open>Reading from the rest of the source\<close>

definition rest_of :: "Lexer \<Rightarrow> string" where
  "rest_of lx = drop (lx_pos lx) (lx_source lx)"

lemma rest_new [simp]: "rest_of (new_lexer s b) = s"
  by (simp add: rest_of_def new_lexer_def)

lemma at_end_rest: "at_end lx \<longleftrightarrow> rest_of lx = []"
  by (simp add: at_end_def rest_of_def)

lemma peek_rest: "peek k lx = (if k < length (rest_of lx) then rest_of lx ! k else CHR 0x00)"
  by (auto simp: peek_def rest_of_def Let_def)

lemma rest_advance [simp]: "rest_of (advance lx) = tl (rest_of lx)"
  by (cases "at_end lx") (auto simp: rest_of_def advance_def at_end_def drop_Suc tl_drop)

lemma rest_advances [simp]: "rest_of ((advance ^^ n) lx) = drop n (rest_of lx)"
  by (induction n) (simp_all add: drop_Suc tl_drop)

lemma source_advances [simp]: "lx_source ((advance ^^ n) lx) = lx_source lx"
  by (induction n) simp_all

lemma pos_advances: "n \<le> length (rest_of lx) \<Longrightarrow> lx_pos ((advance ^^ n) lx) = lx_pos lx + n"
proof (induction n)
  case 0
  then show ?case by simp
next
  case (Suc n)
  then have "\<not> at_end ((advance ^^ n) lx)" by (simp add: at_end_rest)
  with Suc show ?case by simp
qed

lemma slice_advances: "n \<le> length (rest_of lx) \<Longrightarrow> slice_from (lx_pos lx) ((advance ^^ n) lx) = take n (rest_of lx)"
  by (simp add: slice_from_def pos_advances seg_def rest_of_def)

lemma advance_funpow: "(advance ^^ n) (advance lx) = (advance ^^ Suc n) lx"
  by (simp add: funpow_swap1)


section \<open>Digits\<close>

text \<open>The number a string of digits writes in a base.\<close>

definition number_value :: "nat \<Rightarrow> string \<Rightarrow> nat" where
  "number_value base ds = foldl (\<lambda>n c. n * base + the (digit_value base c)) 0 ds"

definition digits_in :: "nat \<Rightarrow> string \<Rightarrow> bool" where
  "digits_in base ds \<longleftrightarrow> (\<forall>c \<in> set ds. \<exists>d < base. digit_value base c = Some d)"

text \<open>What may follow a number.\<close>

definition delimited :: "string \<Rightarrow> bool" where
  "delimited rest \<longleftrightarrow> (case rest of [] \<Rightarrow> True
     | c # _ \<Rightarrow> \<not> is_ident_char c \<and> c \<noteq> CHR ''#'' \<and> c \<noteq> CHR ''.'')"

lemma number_value_start:
  "foldl (\<lambda>n c. n * base + the (digit_value base c)) k ds = k * base ^ length ds + number_value base ds"
proof (induction ds arbitrary: k)
  case Nil
  show ?case by (simp add: number_value_def)
next
  case (Cons c ds)
  from Cons [of "k * base + the (digit_value base c)"] Cons [of "the (digit_value base c)"] show ?case
    by (simp add: number_value_def algebra_simps)
qed

lemma number_value_Cons:
  "number_value base (c # ds) = the (digit_value base c) * base ^ length ds + number_value base ds"
  using number_value_start [of base "the (digit_value base c)" ds] by (simp add: number_value_def)

lemma digit_value_no_mark: "digit_value base c = Some d \<Longrightarrow> c \<noteq> CHR ''_''"
  by (auto simp: digit_value_def is_digit_def is_alpha_def split: if_splits)

definition ends_digits :: "nat \<Rightarrow> string \<Rightarrow> bool" where
  "ends_digits base rest \<longleftrightarrow> rest = [] \<or> hd rest \<noteq> CHR ''_'' \<and> digit_value base (hd rest) = None"

lemma delimited_stops: "delimited rest \<Longrightarrow> ends_digits base rest"
  by (cases rest) (auto simp: delimited_def ends_digits_def is_ident_char_def digit_value_def)

lemma digits_loop_reads:
  assumes "rest_of lx = ds @ rest" "digits_in base ds" "ends_digits base rest" "2 \<le> base" "base \<le> 16"
  shows "digits_loop base v any f lx = (True, v * of_nat (base ^ length ds) + of_nat (number_value base ds),
    any \<or> ds \<noteq> [], f \<or> 2 ^ 64 \<le> unat v * base ^ length ds + number_value base ds, (advance ^^ length ds) lx)"
  using assms(1,2)
proof (induction ds arbitrary: lx v any f)
  case Nil
  have v: "unat v < 2 ^ 64" using unsigned_less [of v] by simp
  show ?case
  proof (cases rest)
    case Nil
    with Nil.prems v show ?thesis by (simp add: digits_loop.simps [of base v any f lx] at_end_rest number_value_def)
  next
    case (Cons c cs)
    with assms(3) have "c \<noteq> CHR ''_''" "digit_value base c = None" by (simp_all add: ends_digits_def)
    moreover have "here lx = c" "\<not> at_end lx" using Nil.prems Cons by (simp_all add: peek_rest at_end_rest)
    ultimately show ?thesis using v by (simp add: digits_loop.simps [of base v any f lx] number_value_def)
  qed
next
  case (Cons c ds)
  from Cons.prems(2) obtain d where d: "digit_value base c = Some d" "d < base" by (auto simp: digits_in_def)
  have here: "here lx = c" "\<not> at_end lx" using Cons.prems(1) by (simp_all add: peek_rest at_end_rest)
  let ?v = "v * of_nat base + of_nat d"
  let ?o = "(2 ^ 64 - 1 - d) div base < unat v"
  have o: "?o \<longleftrightarrow> 2 ^ 64 \<le> unat v * base + d"
  proof -
    have "?o \<longleftrightarrow> \<not> unat v * base \<le> 2 ^ 64 - 1 - d"
      using assms(4) by (simp add: less_eq_div_iff_mult_less_eq flip: not_le)
    then show ?thesis using d(2) assms(5) by auto
  qed
  have v: "unat ?v = unat v * base + d" if "\<not> ?o"
  proof -
    have "?v = of_nat (unat v * base + d)" by simp
    moreover have "unat v * base + d < 2 ^ LENGTH(64)" using that unfolding o by simp
    ultimately show ?thesis using unat_of_nat_small [where ?'a = 64] by metis
  qed
  have ih: "digits_loop base ?v True (f \<or> ?o) (advance lx) =
      (True, ?v * of_nat (base ^ length ds) + of_nat (number_value base ds), True,
       (f \<or> ?o) \<or> 2 ^ 64 \<le> unat ?v * base ^ length ds + number_value base ds, (advance ^^ length ds) (advance lx))"
    using Cons.IH [of "advance lx" ?v True "f \<or> ?o"] Cons.prems by (simp add: digits_in_def)
  have e: "(?o \<or> 2 ^ 64 \<le> unat ?v * base ^ length ds + number_value base ds) \<longleftrightarrow>
      2 ^ 64 \<le> unat v * base ^ length (c # ds) + number_value base (c # ds)"
  proof (cases ?o)
    case True
    have "unat v * base + d \<le> (unat v * base + d) * base ^ length ds"
      using assms(4) by simp
    with True show ?thesis unfolding o by (simp add: number_value_Cons d algebra_simps)
  next
    case False
    with v [OF False] show ?thesis by (simp add: number_value_Cons d algebra_simps)
  qed
  show ?case
    using ih e here d digit_value_no_mark [OF d(1)]
    by (auto simp: digits_loop.simps [of base v any f lx] advance_funpow number_value_Cons algebra_simps
        simp del: funpow.simps)
qed


lemma read_digits_reads:
  assumes "rest_of lx = ds @ rest" "digits_in base ds" "ends_digits base rest" "2 \<le> base" "base \<le> 16"
  shows "read_digits base 0 lx = (True, of_nat (number_value base ds), ds \<noteq> [], 2 ^ 64 \<le> number_value base ds,
    (advance ^^ length ds) lx)"
  using digits_loop_reads [OF assms, of 0 False False] by (simp add: read_digits_def)

lemma delimited_here:
  assumes "delimited rest" "rest_of lx = rest"
  shows "\<not> is_ident_char (here lx)" "here lx \<noteq> CHR ''#''" "here lx \<noteq> CHR ''.''"
  using assms by (auto simp: delimited_def peek_rest is_ident_char_def is_alpha_def is_digit_def split: list.splits)

lemma not_ident: "\<not> is_ident_char c \<Longrightarrow> \<not> is_ident_start c \<and> c \<noteq> CHR ''e'' \<and> c \<noteq> CHR ''E'' \<and> \<not> is_digit c"
  by (auto simp: is_ident_char_def is_ident_start_def is_alpha_def)

text \<open>The error that an integer too large for 64 bits gives, or its value.\<close>

definition integer_token :: "Token \<Rightarrow> bool \<Rightarrow> nat \<Rightarrow> string \<Rightarrow> Token" where
  "integer_token tok b n text =
     (if n < 2 ^ 64 then tok\<lparr> tok_kind := Tk_int_literal, tok_unsigned := of_nat n, tok_based := b, tok_text := text \<rparr>
      else tok\<lparr> tok_kind := Tk_error, tok_payload := D_lex_literal_overflow, tok_text := text \<rparr>)"

lemma lex_number_decimal:
  assumes r: "rest_of lx = ds @ rest" "digits_in 10 ds" "delimited rest" and t: "\<not> tok_based tok"
  shows "lex_number tok (lx_pos lx) lx = (integer_token tok False (number_value 10 ds) ds, (advance ^^ length ds) lx)"
proof -
  let ?l = "(advance ^^ length ds) lx"
  have "rest_of ?l = rest" using r(1) by simp
  note h = delimited_here [OF r(3) this]
  have "slice_from (lx_pos lx) ?l = ds" using r(1) by (simp add: slice_advances)
  moreover have "tok\<lparr> tok_based := False \<rparr> = tok" using t by simp
  ultimately show ?thesis
    using h not_ident [OF h(1)] read_digits_reads [OF r(1,2) delimited_stops [OF r(3)]]
    by (cases tok) (auto simp: lex_number_def lex_decimal_def read_fraction_def skip_exponent_def make_error_def
        integer_token_def Let_def)
qed

lemma lex_number_based:
  assumes r: "rest_of lx = pre @ CHR ''#'' # ds @ rest" "digits_in base ds" "delimited rest" "ds \<noteq> []"
    and b: "(pre, base) \<in> {(''2'', 2), (''8'', 8), (''16'', 16)}"
  shows "lex_number tok (lx_pos lx) lx =
    (integer_token tok True (number_value base ds) (pre @ CHR ''#'' # ds), (advance ^^ (length pre + 1 + length ds)) lx)"
proof -
  let ?l = "(advance ^^ length pre) lx" and ?m = "(advance ^^ (length pre + 1 + length ds)) lx"
  have p: "digits_in 10 pre" "number_value 10 pre = base" "2 \<le> base" "base \<le> 16" "pre \<noteq> []"
    using b by (auto simp: digits_in_def digit_value_def number_value_def is_digit_def digit_of_def)
  have e: "ends_digits 10 (CHR ''#'' # ds @ rest)"
    by (simp add: ends_digits_def digit_value_def is_digit_def)
  have l: "rest_of (advance ?l) = ds @ rest" using r(1) by simp
  have m: "(advance ^^ length ds) (advance ?l) = ?m"
    by (simp add: advance_funpow funpow_add [symmetric, THEN fun_cong, unfolded o_apply] add.commute)
  have u: "unat (of_nat base :: u64) = base" using p(4) by (simp add: unat_of_nat_small)
  have h: "here ?l = CHR ''#''" using r(1) by (simp add: peek_rest)
  have t: "slice_from (lx_pos lx) ?m = pre @ CHR ''#'' # ds"
    using r(1) slice_advances [of "length pre + 1 + length ds" lx] by simp
  have d: "read_digits base 0 (advance ?l) =
      (True, of_nat (number_value base ds), True, 2 ^ 64 \<le> number_value base ds, ?m)"
    using read_digits_reads [OF l r(2) delimited_stops [OF r(3)] p(3,4)] r(4) unfolding m by simp
  have b3: "base = 2 \<or> base = 8 \<or> base = 16" using b by auto
  have n: "lex_number tok (lx_pos lx) lx = lex_based tok (lx_pos lx) base (advance ?l)"
    using read_digits_reads [OF r(1) p(1) e] p h u by (simp add: lex_number_def)
  show ?thesis
    unfolding n using d t b3 by (auto simp: lex_based_def make_error_def integer_token_def)
qed

lemma trivia_none:
  assumes "rest_of lx = c # cs" "is_digit c \<or> is_alpha c"
  shows "skip_trivia lx = lx"
proof -
  have h: "here lx = c" using assms(1) by (simp add: peek_rest)
  have "\<not> is_space c" "c \<noteq> CHR ''/''" "c \<noteq> CHR ''(''"
    using assms(2) by (auto simp: is_space_def is_digit_def is_alpha_def)
  then show ?thesis by (simp add: skip_trivia.simps [of lx] h two_def)
qed

text \<open>A number at the start of a source.\<close>

lemma next_token_number:
  assumes "is_digit c"
  shows "next_token (new_lexer (c # cs) b) = lex_number (token_at (new_lexer (c # cs) b)) 0 (new_lexer (c # cs) b)"
proof -
  let ?lx = "new_lexer (c # cs) b"
  have "skip_trivia ?lx = ?lx" using assms by (intro trivia_none [of _ c cs]) simp_all
  moreover have "here ?lx = c" by (simp add: peek_rest)
  moreover have "?lx\<lparr> lx_debug := False \<rparr> = ?lx" "\<not> lx_comment_error ?lx" "lx_pos ?lx = 0" by (simp_all add: new_lexer_def)
  moreover have "\<not> is_ident_start c" using assms by (auto simp: is_ident_start_def is_alpha_def is_digit_def)
  ultimately show ?thesis using assms by (simp add: next_token_start lex_start_def at_end_rest Let_def)
qed

definition base_prefix :: "nat \<Rightarrow> string" where
  "base_prefix base = (if base = 2 then ''2#'' else if base = 8 then ''8#'' else if base = 16 then ''16#'' else [])"

theorem integer_lexed:
  assumes "base \<in> {2, 8, 10, 16}" "digits_in base ds" "ds \<noteq> []" "delimited rest"
  shows "\<exists>t lx'. next_token (new_lexer (base_prefix base @ ds @ rest) b) = (t, lx') \<and>
    (if number_value base ds < 2 ^ 64
     then tok_kind t = Tk_int_literal \<and> unat (tok_unsigned t) = number_value base ds \<and> (tok_based t \<longleftrightarrow> base \<noteq> 10)
     else tok_kind t = Tk_error \<and> tok_payload t = D_lex_literal_overflow) \<and>
    tok_text t = base_prefix base @ ds \<and> rest_of lx' = rest"
proof -
  let ?s = "base_prefix base @ ds @ rest" let ?lx = "new_lexer ?s b"
  have based: "\<exists>pre. base_prefix base = pre @ ''#'' \<and> (pre, base) \<in> {(''2'', 2), (''8'', 8), (''16'', 16)} \<and> base \<noteq> 10"
    if "base \<noteq> 10" using assms(1) that by (auto simp: base_prefix_def)
  have small: "n < 2 ^ 64 \<Longrightarrow> unat (of_nat n :: u64) = n" for n by (simp add: unat_of_nat_small)
  have nb: "\<not> tok_based (token_at ?lx)" by (simp add: token_at_def empty_token_def)
  have pos: "lx_pos ?lx = 0" by (simp add: new_lexer_def)
  show ?thesis
  proof (cases "base = 10")
    case True
    then have pre: "base_prefix base = []" by (simp add: base_prefix_def)
    obtain c cs where ds: "ds = c # cs" using assms(3) by (cases ds) auto
    then have c: "is_digit c" using assms(2) True by (auto simp: digits_in_def digit_value_def split: if_splits)
    have r: "rest_of ?lx = ds @ rest" using pre by simp
    from next_token_number [OF c, of "cs @ rest" b] lex_number_decimal [OF r _ assms(4) nb] assms(2) True pos
    have n: "next_token ?lx = (integer_token (token_at ?lx) False (number_value base ds) ds, (advance ^^ length ds) ?lx)"
      by (simp add: base_prefix_def ds)
    show ?thesis unfolding n using r True small pre nb by (simp add: integer_token_def)
  next
    case False
    from based [OF False] obtain pre where pre: "base_prefix base = pre @ ''#''"
      "(pre, base) \<in> {(''2'', 2), (''8'', 8), (''16'', 16)}" by blast
    have "pre \<noteq> [] \<and> is_digit (hd pre)" using pre(2) by (auto simp: is_digit_def)
    then obtain c cs where c: "pre = c # cs" "is_digit c" by (cases pre) simp_all
    have s: "?s = c # cs @ CHR ''#'' # ds @ rest" using pre(1) c(1) by simp
    have r: "rest_of ?lx = pre @ CHR ''#'' # ds @ rest" unfolding s c(1) by simp
    have tx: "pre @ CHR ''#'' # ds = base_prefix base @ ds" using pre(1) by simp
    from next_token_number [OF c(2), of "cs @ CHR ''#'' # ds @ rest" b] lex_number_based [OF r assms(2,4,3) pre(2)] pos
    have n: "next_token ?lx = (integer_token (token_at ?lx) True (number_value base ds) (base_prefix base @ ds),
        (advance ^^ (length pre + 1 + length ds)) ?lx)"
      unfolding s tx [symmetric] by simp
    have "rest_of ((advance ^^ (length pre + 1 + length ds)) ?lx) = rest" unfolding rest_advances r by simp
    then show ?thesis unfolding n using False small by (simp add: integer_token_def)
  qed
qed

end
