(* ===== verification/LexerDates.thy ===== *)
theory LexerDates
  imports LexerLiterals
begin

text \<open>
  Dates of the lexer against a calendar that counts days from year 0 on: the closed formula of
  \<open>civil_days\<close>, the range of date-and-time values, and whole \<open>DATE\<close> literals.
\<close>

section \<open>Counting days\<close>

definition year_days :: "nat \<Rightarrow> nat" where
  "year_days y = (if leap_year y then 366 else 365)"

definition day_count :: "nat \<Rightarrow> nat \<Rightarrow> nat \<Rightarrow> nat" where
  "day_count y m d = sum_list (map year_days [0..<y]) + sum_list (map (month_days y) [1..<m]) + (d - 1)"

definition valid_date :: "nat \<Rightarrow> nat \<Rightarrow> nat \<Rightarrow> bool" where
  "valid_date y m d \<longleftrightarrow> 1 \<le> m \<and> m \<le> 12 \<and> 1 \<le> d \<and> d \<le> month_days y m"

text \<open>The days before a year, in closed form.\<close>

definition days_before :: "nat \<Rightarrow> int" where
  "days_before y = 365 * int y + int ((y + 3) div 4) - int ((y + 99) div 100) + int ((y + 399) div 400)"

lemma div_Suc_pred: "Suc (y + k) div Suc k = (y + k) div Suc k + of_bool (y mod Suc k = 0)"
proof -
  have "Suc (y + k) mod Suc k = y mod Suc k" using mod_add_self2 [of y "Suc k"] by simp
  then show ?thesis by (simp add: div_Suc)
qed

lemma leap_int: "int (year_days y) = 365 + of_bool (y mod 4 = 0) - of_bool (y mod 100 = 0) + of_bool (y mod 400 = 0)"
proof -
  have "y mod 400 = 0 \<Longrightarrow> y mod 100 = 0"
    using dvd_trans [of 100 400 y] by (simp add: mod_eq_0_iff_dvd)
  moreover have "y mod 100 = 0 \<Longrightarrow> y mod 4 = 0"
    using dvd_trans [of 4 100 y] by (simp add: mod_eq_0_iff_dvd)
  ultimately show ?thesis
    by (cases "y mod 400 = 0"; cases "y mod 100 = 0"; cases "y mod 4 = 0") (simp_all add: year_days_def leap_year_def)
qed

lemma regroup: "365 * (1 + y) + (a + p) - (b + q) + (c + r) = 365 * y + a - b + c + 365 + p - q + (r :: int)"
  by simp

lemma days_before_sum: "int (sum_list (map year_days [0..<y])) = days_before y"
proof (induction y)
  case 0
  show ?case by (simp add: days_before_def)
next
  case (Suc y)
  have "int (sum_list (map year_days [0..<Suc y])) = days_before y + int (year_days y)" using Suc by simp
  moreover have "days_before (Suc y) = days_before y + 365 + of_bool (y mod 4 = 0) - of_bool (y mod 100 = 0) + of_bool (y mod 400 = 0)"
  proof -
    have "(Suc y + 3) div 4 = (y + 3) div 4 + of_bool (y mod 4 = 0)"
      "(Suc y + 99) div 100 = (y + 99) div 100 + of_bool (y mod 100 = 0)"
      "(Suc y + 399) div 400 = (y + 399) div 400 + of_bool (y mod 400 = 0)"
      using div_Suc_pred [of y 3] div_Suc_pred [of y 99] div_Suc_pred [of y 399] by simp_all
    then show ?thesis unfolding days_before_def by (simp only: of_nat_add of_nat_Suc of_nat_of_bool regroup)
  qed
  ultimately show ?case by (simp add: leap_int)
qed

text \<open>The formula of \<open>civil_days\<close> without its eras.\<close>

definition shifted_days :: "nat \<Rightarrow> int" where
  "shifted_days n = 365 * int n + int (n div 4) - int (n div 100) + int (n div 400)"

definition civil_formula :: "int \<Rightarrow> nat \<Rightarrow> int" where
  "civil_formula y doy =
     (let era = c_div (if y \<ge> 0 then y else y - 399) 400; yoe = nat (y - era * 400)
      in era * 146097 + int (yoe * 365 + yoe div 4 - yoe div 100 + doy) - 719468)"

lemma civil_formula_eq: "civil_formula (int n) doy = shifted_days n + int doy - 719468"
proof -
  define e r where "e = n div 400" and "r = n mod 400"
  have n: "n = 400 * e + r" "r < 400" by (simp_all add: e_def r_def)
  have c: "c_div (int n) 400 = int e" by (simp add: c_div_def e_def sgn_if zdiv_int)
  have y: "nat (int n - int e * 400) = r" by (simp add: n(1))
  have "n div 4 = 100 * e + r div 4" unfolding n(1) using div_mult_self4 [of 4 "100 * e" r] by simp
  moreover have "n div 100 = 4 * e + r div 100" unfolding n(1) using div_mult_self4 [of 100 "4 * e" r] by simp
  moreover have "n div 400 = e" by (simp add: e_def)
  moreover have "r div 100 \<le> r * 365 + r div 4" by (rule trans_le_add1) (metis div_le_dividend le_trans mult.commute nat_mult_le_cancel_disj mult_le_mono2 one_le_numeral mult_1_right)
  moreover have "civil_formula (int n) doy = int e * 146097 + int (r * 365 + r div 4 - r div 100 + doy) - 719468"
    by (simp only: civil_formula_def Let_def of_nat_0_le_iff if_True c y)
  ultimately show ?thesis using n(1) by (simp add: shifted_days_def of_nat_diff)
qed

lemma civil_days_formula:
  assumes "1 \<le> d"
  shows "civil_days y m d = civil_formula (if m \<le> 2 then y - 1 else y)
    ((153 * (if m > 2 then m - 3 else m + 9) + 2) div 5 + (d - 1))"
proof -
  have a: "a + d - 1 = a + (d - 1)" for a using assms by simp
  show ?thesis unfolding civil_days_def civil_formula_def Let_def a by (cases "m \<le> 2") simp_all
qed

lemma shifted_before: "shifted_days y = days_before y - 1 + int (year_days y) - 365"
proof -
  have q: "(y + k) div Suc k = y div Suc k + of_bool (y mod Suc k \<noteq> 0)" for k
    using div_Suc_pred [of y k] div_add_self2 [of "Suc k" y] by (cases "y mod Suc k = 0") simp_all
  show ?thesis
  proof -
    have "(y + 3) div 4 = y div 4 + of_bool (y mod 4 \<noteq> 0)" "(y + 99) div 100 = y div 100 + of_bool (y mod 100 \<noteq> 0)"
      "(y + 399) div 400 = y div 400 + of_bool (y mod 400 \<noteq> 0)"
      using q [of 3] q [of 99] q [of 399] by simp_all
    then show ?thesis
      unfolding shifted_days_def days_before_def leap_int by (simp only: of_nat_add of_nat_of_bool of_bool_not_iff)
  qed
qed

lemma before_next: "days_before (Suc y) = days_before y + int (year_days y)"
  unfolding days_before_sum [symmetric] by simp

lemma month_cases: "1 \<le> (m :: nat) \<Longrightarrow> m \<le> 12 \<Longrightarrow>
    m = 1 \<or> m = 2 \<or> m = 3 \<or> m = 4 \<or> m = 5 \<or> m = 6 \<or> m = 7 \<or> m = 8 \<or> m = 9 \<or> m = 10 \<or> m = 11 \<or> m = 12"
  by arith

lemma upt_1_2: "[Suc 0..<2] = [1]"
  by (simp add: upt_rec)

lemma month_lengths:
  "month_days y 1 = 31" "month_days y 2 = 28 + of_bool (leap_year y)" "month_days y 3 = 31" "month_days y 4 = 30"
  "month_days y 5 = 31" "month_days y 6 = 30" "month_days y 7 = 31" "month_days y 8 = 31" "month_days y 9 = 30"
  "month_days y 10 = 31" "month_days y 11 = 30"
  by (simp_all add: month_days_def)

lemma months_sum:
  assumes "1 \<le> m" "m \<le> 12"
  shows "sum_list (map (month_days y) [1..<m]) =
    (if m \<le> 2 then 31 * (m - 1) else (153 * (m - 3) + 2) div 5 + 59 + of_bool (leap_year y))"
proof -
  let ?s = "\<lambda>m. sum_list (map (month_days y) [1..<m])" and ?l = "of_bool (leap_year y)"
  have s: "?s (k + 1) = ?s k + month_days y k" if "1 \<le> k" for k using that by simp
  have v: "?s 1 = 0" "?s 2 = 31" "?s 3 = 59 + ?l" "?s 4 = 90 + ?l" "?s 5 = 120 + ?l" "?s 6 = 151 + ?l"
    "?s 7 = 181 + ?l" "?s 8 = 212 + ?l" "?s 9 = 243 + ?l" "?s 10 = 273 + ?l" "?s 11 = 304 + ?l"
    "?s 12 = 334 + ?l"
    using s [of 1] s [of 2] s [of 3] s [of 4] s [of 5] s [of 6] s [of 7] s [of 8] s [of 9] s [of 10] s [of 11]
    by (simp_all add: month_lengths del: One_nat_def)
  show ?thesis using month_cases [OF assms] by (elim disjE) (simp_all only: v, simp_all)
qed

theorem civil_days_counts:
  assumes "1 \<le> m" "m \<le> 12" "1 \<le> d"
  shows "civil_days (int y) m d = int (day_count y m d) - 719528"
proof (cases "m \<le> 2")
  case True
  have y: "civil_formula (int y - 1) k = days_before y - 366 + int k - 719468" for k
  proof (cases y)
    case 0
    then show ?thesis by (simp add: civil_formula_def days_before_def c_div_def)
  next
    case (Suc n)
    with shifted_before [of n] before_next [of n] show ?thesis
      using civil_formula_eq [of n k] by simp
  qed
  from True assms have "m = 1 \<or> m = 2" by auto
  with True assms show ?thesis
    by (auto simp: civil_days_formula y day_count_def days_before_sum [symmetric] upt_1_2 month_days_def)
next
  case False
  have y: "civil_formula (int y) k = days_before y - 1 + int (year_days y) - 365 + int k - 719468" for k
    by (simp add: civil_formula_eq shifted_before)
  from False assms months_sum [OF assms(1,2), of y] show ?thesis
    by (auto simp: civil_days_formula y day_count_def days_before_sum [symmetric] year_days_def)
qed

text \<open>The epoch.\<close>

lemma epoch_days: "int (day_count 1970 1 1) = 719528"
  using civil_days_counts [of 1 1 1970] by (simp add: civil_days_def c_div_def)

lemma int_div_less: "0 < k \<Longrightarrow> (a :: int) div k < b \<longleftrightarrow> a < b * k"
proof
  assume k: "0 < k" and l: "a div k < b"
  then have "(a div k + 1) * k \<le> b * k" by (intro mult_right_mono) simp_all
  then have "a div k * k + k \<le> b * k" by (simp add: distrib_right)
  moreover have "a = a div k * k + a mod k" by (rule div_mult_mod_eq [symmetric])
  moreover have "a mod k < k" by (rule pos_mod_bound [OF k])
  ultimately show "a < b * k" by linarith
next
  assume k: "0 < k" and l: "a < b * k"
  show "a div k < b"
  proof (rule ccontr)
    assume "\<not> a div k < b"
    then have "b * k \<le> a div k * k" using k by (intro mult_right_mono) simp_all
    moreover have "a = a div k * k + a mod k" by (rule div_mult_mod_eq [symmetric])
    moreover have "0 \<le> a mod k" by (rule pos_mod_sign [OF k])
    ultimately show False using l by linarith
  qed
qed

text \<open>A date and time is accepted exactly when its nanoseconds since 1970 fit an \<open>int64\<close>.\<close>

theorem date_time_ns_exact:
  assumes "tod < 86400000000000"
  shows "date_time_ns days tod =
    (let ns = days * day_ns + int tod in if int64_min \<le> ns \<and> ns \<le> int64_max then Some ns else None)"
  using assms
  by (auto simp: date_time_ns_def Let_def int64_min_def int64_max_def int_div_less)


section \<open>Date literals\<close>

lemma read_fixed_loop_reads:
  assumes "rest_of lx = ds @ rest" "\<forall>c \<in> set ds. is_digit c"
  shows "read_fixed_loop (length ds) v lx =
    (True, v * 10 ^ length ds + number_value 10 ds, (advance ^^ length ds) lx)"
  using assms
proof (induction ds arbitrary: lx v)
  case Nil
  then show ?case by (simp add: number_value_def)
next
  case (Cons c ds)
  have c: "is_digit c" "here lx = c" using Cons.prems by (simp_all add: peek_rest)
  then have "digit_value 10 c = Some (digit_of c)" by (simp add: digit_value_def)
  then show ?case
    using Cons.IH [of "advance lx" "v * 10 + digit_of c"] Cons.prems c
    by (simp add: advance_funpow number_value_Cons algebra_simps del: funpow.simps)
qed

lemma read_fixed_reads:
  assumes "rest_of lx = ds @ rest" "\<forall>c \<in> set ds. is_digit c" "length ds = n"
  shows "read_fixed n lx = (True, number_value 10 ds, (advance ^^ n) lx)"
  using read_fixed_loop_reads [OF assms(1,2), of 0] assms(3) by (simp add: read_fixed_def)

lemma read_date_reads:
  assumes r: "rest_of lx = ys @ CHR ''-'' # ms @ CHR ''-'' # ds @ rest"
    and d: "\<forall>c \<in> set ys \<union> set ms \<union> set ds. is_digit c" and l: "length ys = 4" "length ms = 2" "length ds = 2"
  shows "read_date lx = (let y = number_value 10 ys; m = number_value 10 ms; k = number_value 10 ds; l = (advance ^^ 10) lx
    in if valid_date y m k then Inr (y, m, k, l) else Inl l)"
proof -
  let ?l1 = "(advance ^^ 4) lx" let ?l2 = "(advance ^^ 2) (advance ?l1)" let ?l3 = "(advance ^^ 2) (advance ?l2)"
  have r1: "rest_of ?l1 = CHR ''-'' # ms @ CHR ''-'' # ds @ rest" unfolding rest_advances r using l by simp
  have r2: "rest_of (advance ?l1) = ms @ CHR ''-'' # ds @ rest" unfolding rest_advance r1 by simp
  have r3: "rest_of ?l2 = CHR ''-'' # ds @ rest" unfolding rest_advances r2 using l by simp
  have r4: "rest_of (advance ?l2) = ds @ rest" unfolding rest_advance r3 by simp
  have l3: "?l3 = (advance ^^ 10) lx" by (simp add: eval_nat_numeral)
  have h: "here ?l1 = CHR ''-''" "here ?l2 = CHR ''-''" unfolding peek_rest r1 r3 by simp_all
  show ?thesis
    using read_fixed_reads [OF r _ l(1)] read_fixed_reads [OF r2 _ l(2)] read_fixed_reads [OF r4 _ l(3)] d h l3
    by (auto simp: read_date_def valid_date_def Let_def not_less)
qed

text \<open>\<open>D#\<close> and a date.\<close>

definition date_text :: "string \<Rightarrow> string \<Rightarrow> string \<Rightarrow> string" where
  "date_text ys ms ds = ys @ CHR ''-'' # ms @ CHR ''-'' # ds"

lemma date_prefix_d: "date_prefix ''D'' = Some Tk_date_literal"
  by code_simp

theorem date_lexed:
  assumes d: "\<forall>c \<in> set ys \<union> set ms \<union> set ds. is_digit c" "length ys = 4" "length ms = 2" "length ds = 2"
    and rest: "delimited rest" "rest = [] \<or> hd rest \<noteq> CHR ''+'' \<and> hd rest \<noteq> CHR ''-''"
  shows "\<exists>t lx'. next_token (new_lexer (''D#'' @ date_text ys ms ds @ rest) b) = (t, lx') \<and>
    (let y = number_value 10 ys; m = number_value 10 ms; k = number_value 10 ds
     in if valid_date y m k
        then tok_kind t = Tk_date_literal \<and> tok_signed t = int (day_count y m k) - 719528 \<and> rest_of lx' = rest
        else tok_kind t = Tk_error \<and> tok_payload t = D_date_time_range_violation)"
proof -
  define lx where "lx = new_lexer (''D#'' @ date_text ys ms ds @ rest) b"
  let ?y = "number_value 10 ys" let ?m = "number_value 10 ms" let ?k = "number_value 10 ds"
  have r0: "rest_of lx = CHR ''D'' # CHR ''#'' # date_text ys ms ds @ rest" by (simp add: lx_def)
  have a: "is_alpha CHR ''D''" "\<not> is_ident_char CHR ''#''" by (simp_all add: is_alpha_def is_ident_char_def is_digit_def)
  have "skip_trivia lx = lx" by (rule trivia_none [OF r0]) (simp add: a)
  moreover have "lx\<lparr> lx_debug := False \<rparr> = lx" "\<not> lx_comment_error lx" "\<not> at_end lx" "lx_pos lx = 0"
    by (simp_all add: lx_def new_lexer_def at_end_def)
  moreover have h0: "here lx = CHR ''D''" unfolding peek_rest r0 by simp
  ultimately have n: "next_token lx = lex_word (token_at lx) 0 lx"
    using a by (simp add: next_token_start lex_start_def is_ident_start_def Let_def)
  let ?l1 = "advance lx"
  have r1: "rest_of ?l1 = CHR ''#'' # date_text ys ms ds @ rest" unfolding rest_advance r0 by simp
  have h1: "here ?l1 = CHR ''#''" unfolding peek_rest r1 by simp
  have e1: "\<not> at_end ?l1" unfolding at_end_rest r1 by simp
  have w: "word_loop CHR 0x00 False lx = (CHR ''D'', False, ?l1)"
    using h0 h1 a e1 \<open>\<not> at_end lx\<close>
    by (simp add: word_loop.simps [of _ _ lx] word_loop.simps [of _ _ ?l1] is_ident_char_def)
  have s1: "slice_from 0 ?l1 = ''D''"
    using slice_advances [of 1 lx] \<open>lx_pos lx = 0\<close> r0 by simp
  let ?t = "(token_at lx)\<lparr> tok_text := ''D'' \<rparr>"
  have nw: "next_token lx = lex_date_time ?t 0 Tk_date_literal (advance ?l1)"
    unfolding n lex_word_def w using h1 s1 date_prefix_d by (simp add: Let_def)
  let ?l2 = "advance ?l1" let ?l3 = "(advance ^^ 10) ?l2"
  have r2: "rest_of ?l2 = ys @ CHR ''-'' # ms @ CHR ''-'' # ds @ rest"
    by (simp add: r0 date_text_def)
  have r3: "rest_of ?l3 = rest" unfolding rest_advances r2 using d(2-4) by simp
  note rd = read_date_reads [OF r2 d]
  have "\<exists>t lx'. next_token lx = (t, lx') \<and>
      (if valid_date ?y ?m ?k
       then tok_kind t = Tk_date_literal \<and> tok_signed t = int (day_count ?y ?m ?k) - 719528 \<and> rest_of lx' = rest
       else tok_kind t = Tk_error \<and> tok_payload t = D_date_time_range_violation)"
  proof (cases "valid_date ?y ?m ?k")
    case True
    have "here ?l3 = (case rest of [] \<Rightarrow> CHR 0x00 | c # _ \<Rightarrow> c)"
      unfolding peek_rest r3 by (simp split: list.splits)
    with delimited_here(1) [OF rest(1) r3] rest(2)
    have "\<not> is_alpha (here ?l3) \<and> here ?l3 \<noteq> CHR ''+'' \<and> here ?l3 \<noteq> CHR ''-''"
      by (cases rest) (simp_all add: is_ident_char_def)
    moreover have "civil_days (int ?y) ?m ?k = int (day_count ?y ?m ?k) - 719528"
      using True by (intro civil_days_counts) (simp_all add: valid_date_def)
    ultimately show ?thesis
      using rd True r3 by (simp add: nw lex_date_time_def date_time_value_def Let_def)
  next
    case False
    with rd show ?thesis
      by (simp add: nw lex_date_time_def date_time_value_def Let_def date_error_def make_error_def)
  qed
  then show ?thesis by (simp only: lx_def Let_def)
qed

end
