(* ===== verification/ImageAccess.thy ===== *)
theory ImageAccess
  imports Bytecode
begin

text \<open>
  Access to one located variable of a process image (\<open>core/st/process_image.h\<close>): reading and writing
  its bytes or its bit, the dirty masks, and the force slots. An image is a byte list; a variable
  inside it satisfies \<open>located_in\<close>.
\<close>

section \<open>Values in an image\<close>

definition read_image_value :: "bytes \<Rightarrow> LocatedVarInfo \<Rightarrow> bytes" where
  "read_image_value img var =
     (if lv_bit_address var
      then [drop_bit (lv_bit var) (img ! lv_byte_offset var) AND 1]
      else seg img (lv_byte_offset var) (lv_byte_width var))"

definition write_image_value :: "bytes \<Rightarrow> LocatedVarInfo \<Rightarrow> bytes \<Rightarrow> bytes" where
  "write_image_value img var v =
     (if lv_bit_address var
      then let m = push_bit (lv_bit var) 1; old = img ! lv_byte_offset var
        in img[lv_byte_offset var := (if v ! 0 \<noteq> 0 then old OR m else old AND NOT m)]
      else blit (lv_byte_offset var) (take (lv_byte_width var) v) img)"

text \<open>The bits a variable occupies, numbered through the image as \<open>8 * byte + bit\<close>
  (\<open>physical_begin\<close> and \<open>physical_end\<close> of \<open>configuration_runtime.h\<close>).\<close>

definition physical_begin :: "LocatedVarInfo \<Rightarrow> nat" where
  "physical_begin var = lv_byte_offset var * 8 + (if lv_bit_address var then lv_bit var else 0)"

definition physical_end :: "LocatedVarInfo \<Rightarrow> nat" where
  "physical_end var = physical_begin var + (if lv_bit_address var then 1 else lv_byte_width var * 8)"

definition located_in :: "nat \<Rightarrow> LocatedVarInfo \<Rightarrow> bool" where
  "located_in bytes var \<longleftrightarrow> 1 \<le> lv_byte_width var \<and> lv_byte_width var \<le> 8 \<and>
     lv_byte_offset var + lv_byte_width var \<le> bytes \<and>
     (lv_bit_address var \<longrightarrow> lv_bit var < 8 \<and> lv_byte_width var = 1)"

text \<open>The value a write leaves behind: a bit address keeps only whether the byte was non-zero.\<close>

definition stored_value :: "LocatedVarInfo \<Rightarrow> bytes \<Rightarrow> bytes" where
  "stored_value var v = (if lv_bit_address var then [if v ! 0 \<noteq> 0 then 1 else 0]
     else take (lv_byte_width var) v)"

lemma length_read_image_value:
  "located_in (length img) var \<Longrightarrow> length (read_image_value img var) = lv_byte_width var"
  by (auto simp: read_image_value_def located_in_def)

lemma length_write_image_value [simp]:
  "located_in (length img) var \<Longrightarrow> length v = lv_byte_width var \<Longrightarrow>
    length (write_image_value img var v) = length img"
  by (auto simp: write_image_value_def located_in_def Let_def)

lemma located_bit:
  assumes "located_in n var" "lv_bit_address var"
  shows "lv_byte_offset var < n" "lv_bit var < 8" "lv_byte_width var = 1"
  using assms by (auto simp: located_in_def)

lemma byte_bit_eq:
  "b < 8 \<Longrightarrow> k < 8 \<Longrightarrow> B * 8 + b \<le> 8 * j + k \<and> 8 * j + k < Suc (B * 8 + b) \<longleftrightarrow> j = B \<and> k = (b :: nat)"
proof -
  assume b: "b < 8" "k < 8"
  have "8 * j + k = B * 8 + b \<Longrightarrow> (8 * j + k) div 8 = (B * 8 + b) div 8" by simp
  with b have "8 * j + k = B * 8 + b \<Longrightarrow> j = B" by simp
  then show ?thesis by (auto simp: less_Suc_eq_le)
qed

lemma bit_push_one: "bit (2 ^ b :: u8) k \<longleftrightarrow> k = b \<and> b < 8"
  by (auto simp: bit_exp_iff)

text \<open>Bit by bit: a write changes the bits of its variable and no other.\<close>

lemma write_image_bit:
  assumes var: "located_in (length img) var" and v: "length v = lv_byte_width var"
    and jk: "j < length img" "k < 8"
  shows "bit (write_image_value img var v ! j) k =
    (if physical_begin var \<le> 8 * j + k \<and> 8 * j + k < physical_end var
     then if lv_bit_address var then v ! 0 \<noteq> 0 else bit (v ! (j - lv_byte_offset var)) k
     else bit (img ! j) k)"
proof (cases "lv_bit_address var")
  case True
  note b = located_bit [OF var True]
  have pos: "physical_begin var \<le> 8 * j + k \<and> 8 * j + k < physical_end var \<longleftrightarrow>
      j = lv_byte_offset var \<and> k = lv_bit var"
    using True b jk(2) by (simp add: physical_begin_def physical_end_def byte_bit_eq)
  show ?thesis
    unfolding pos using True b jk
    by (simp add: write_image_value_def Let_def bit_or_iff bit_and_iff bit_not_iff bit_push_one
        nth_list_update)
next
  case False
  have pos: "physical_begin var \<le> 8 * j + k \<and> 8 * j + k < physical_end var \<longleftrightarrow>
      lv_byte_offset var \<le> j \<and> j < lv_byte_offset var + lv_byte_width var"
    unfolding physical_begin_def physical_end_def using False jk(2) by simp linarith
  have "lv_byte_offset var + length v \<le> length img" using var v by (simp add: located_in_def)
  then show ?thesis
    unfolding pos using False v jk by (simp add: write_image_value_def nth_blit)
qed

lemma u8_eqI: "(\<And>k. k < 8 \<Longrightarrow> bit x k = bit y k) \<Longrightarrow> x = (y :: u8)"
  by (rule bit_eqI) auto

text \<open>Reading looks at nothing but the variable's bits.\<close>

lemma read_image_cong:
  assumes var: "located_in (length a) var" and len: "length b = length a"
    and same: "\<And>j k. j < length a \<Longrightarrow> k < 8 \<Longrightarrow> physical_begin var \<le> 8 * j + k \<Longrightarrow>
      8 * j + k < physical_end var \<Longrightarrow> bit (a ! j) k = bit (b ! j) k"
  shows "read_image_value a var = read_image_value b var"
proof (cases "lv_bit_address var")
  case True
  note b = located_bit [OF var True]
  have "bit (a ! lv_byte_offset var) (lv_bit var) = bit (b ! lv_byte_offset var) (lv_bit var)"
    by (rule same) (use True b in \<open>auto simp: physical_begin_def physical_end_def\<close>)
  then have "drop_bit (lv_bit var) (a ! lv_byte_offset var) AND 1 =
      drop_bit (lv_bit var) (b ! lv_byte_offset var) AND 1"
    by (intro u8_eqI) (auto simp: bit_and_iff bit_drop_bit_eq bit_1_iff)
  with True show ?thesis by (simp add: read_image_value_def)
next
  case False
  have in_a: "lv_byte_offset var + lv_byte_width var \<le> length a" using var by (simp add: located_in_def)
  have "seg a (lv_byte_offset var) (lv_byte_width var) = seg b (lv_byte_offset var) (lv_byte_width var)"
  proof (rule nth_equalityI)
    fix i assume "i < length (seg a (lv_byte_offset var) (lv_byte_width var))"
    with in_a have i: "i < lv_byte_width var" by simp
    have "a ! (lv_byte_offset var + i) = b ! (lv_byte_offset var + i)"
      by (rule u8_eqI, rule same)
        (use False i in_a in \<open>auto simp: physical_begin_def physical_end_def\<close>)
    then show "seg a (lv_byte_offset var) (lv_byte_width var) ! i =
        seg b (lv_byte_offset var) (lv_byte_width var) ! i"
      using i in_a len by (simp add: nth_seg)
  qed (use in_a len in simp)
  with False show ?thesis by (simp add: read_image_value_def)
qed

lemma read_write_same:
  assumes "located_in (length img) var" "length v = lv_byte_width var"
  shows "read_image_value (write_image_value img var v) var = stored_value var v"
proof (cases "lv_bit_address var")
  case True
  note b = located_bit [OF assms(1) True]
  have "drop_bit (lv_bit var) ((old :: u8) OR 2 ^ lv_bit var) AND 1 = 1"
    "drop_bit (lv_bit var) (old AND NOT (2 ^ lv_bit var)) AND 1 = 0" for old
    using b(2) by (intro u8_eqI; auto simp: bit_and_iff bit_or_iff bit_not_iff bit_drop_bit_eq
        bit_1_iff bit_push_one simp del: drop_bit_and drop_bit_or)+
  with True b show ?thesis
    by (simp add: read_image_value_def write_image_value_def stored_value_def Let_def
        del: drop_bit_and drop_bit_or)
next
  case False
  with assms show ?thesis
    by (simp add: read_image_value_def write_image_value_def stored_value_def located_in_def
        seg_blit_same)
qed

definition disjoint_vars :: "LocatedVarInfo \<Rightarrow> LocatedVarInfo \<Rightarrow> bool" where
  "disjoint_vars a b \<longleftrightarrow> lv_area a \<noteq> lv_area b \<or> physical_end a \<le> physical_begin b \<or>
     physical_end b \<le> physical_begin a"

lemma read_write_other:
  assumes "located_in (length img) var" "located_in (length img) other"
    and "length v = lv_byte_width var"
    and "physical_end var \<le> physical_begin other \<or> physical_end other \<le> physical_begin var"
  shows "read_image_value (write_image_value img var v) other = read_image_value img other"
  by (rule read_image_cong) (use assms in \<open>auto simp: write_image_bit\<close>)


section \<open>Dirty masks\<close>

definition physical_mask :: "LocatedVarInfo \<Rightarrow> nat \<Rightarrow> u8" where
  "physical_mask var byte =
     (if lv_bit_address var
      then if byte = lv_byte_offset var then push_bit (lv_bit var) 1 else 0
      else if lv_byte_offset var \<le> byte \<and> byte < lv_byte_offset var + lv_byte_width var
           then 0xFF else 0)"

text \<open>The marking loop of \<open>mark_physical\<close> on one dirty vector. The loop may stop at the first byte
  past the variable; the masks there are zero.\<close>

definition mark_bytes :: "LocatedVarInfo \<Rightarrow> bytes \<Rightarrow> bytes" where
  "mark_bytes var dirty =
     map (\<lambda>byte. if lv_byte_offset var \<le> byte then dirty ! byte OR physical_mask var byte
       else dirty ! byte) [0 ..< length dirty]"

definition dirty_in :: "LocatedVarInfo \<Rightarrow> bytes \<Rightarrow> bool" where
  "dirty_in var dirty =
     list_ex (\<lambda>byte. physical_mask var byte \<noteq> 0 \<and> dirty ! byte AND physical_mask var byte \<noteq> 0)
       [lv_byte_offset var ..< length dirty]"

lemma length_mark_bytes [simp, len_simps]: "length (mark_bytes var dirty) = length dirty"
  by (simp add: mark_bytes_def)

lemma bit_physical_mask:
  assumes "k < 8" "lv_bit_address var \<longrightarrow> lv_bit var < 8"
  shows "bit (physical_mask var j) k \<longleftrightarrow> physical_begin var \<le> 8 * j + k \<and> 8 * j + k < physical_end var"
proof (cases "lv_bit_address var")
  case True
  with assms show ?thesis
    unfolding physical_mask_def physical_begin_def physical_end_def
    by (simp add: bit_push_one) linarith
next
  case False
  have "bit (0xFF :: u8) k" using assms(1)
    by (simp add: less_Suc_eq numeral_eq_Suc) (elim disjE; simp)
  with False assms(1) show ?thesis
    unfolding physical_mask_def physical_begin_def physical_end_def by simp linarith
qed

lemma mark_bytes_bit:
  assumes "located_in (length dirty) var" "j < length dirty" "k < 8"
  shows "bit (mark_bytes var dirty ! j) k \<longleftrightarrow> bit (dirty ! j) k \<or>
    physical_begin var \<le> 8 * j + k \<and> 8 * j + k < physical_end var"
proof -
  have m: "lv_bit_address var \<longrightarrow> lv_bit var < 8" using assms(1) by (simp add: located_in_def)
  have "\<not> lv_byte_offset var \<le> j \<Longrightarrow> \<not> bit (physical_mask var j) k"
    by (auto simp: physical_mask_def)
  then show ?thesis
    using assms(2) bit_physical_mask [OF assms(3) m, of j] by (auto simp: mark_bytes_def bit_or_iff)
qed

lemma dirty_in_bits:
  assumes "located_in (length dirty) var"
  shows "dirty_in var dirty \<longleftrightarrow> (\<exists>j k. j < length dirty \<and> k < 8 \<and> bit (dirty ! j) k \<and>
    physical_begin var \<le> 8 * j + k \<and> 8 * j + k < physical_end var)"
proof -
  have m: "lv_bit_address var \<longrightarrow> lv_bit var < 8" using assms by (simp add: located_in_def)
  have nz: "x \<noteq> 0 \<longleftrightarrow> (\<exists>k < 8. bit x k)" for x :: u8
  proof
    assume "x \<noteq> 0"
    then show "\<exists>k < 8. bit x k" by (metis bit_0_eq bot_apply bot_bool_def u8_eqI)
  qed auto
  have lo: "bit (physical_mask var j) k \<Longrightarrow> lv_byte_offset var \<le> j" for j k
    by (auto simp: physical_mask_def split: if_splits)
  show ?thesis
    unfolding dirty_in_def list_ex_iff
    using bit_physical_mask [OF _ m] lo
    by (fastforce simp: nz bit_and_iff)
qed

end
