(* ===== verification/ImageLayout.thy ===== *)
theory ImageLayout
  imports ImageAccess
begin

text \<open>
  How the compiler lays out the process image: \<open>register_location\<close> and \<open>stable_id\<close> of
  \<open>core/st/sema.h\<close>. The runtime never checks a located variable again, so the invariant
  \<open>image_layout_wf\<close> proved here for every accepted declaration is what its memory accesses rest on.
\<close>

section \<open>Stable identities\<close>

text \<open>A 64-bit FNV-1a hash of the folded name; both constants are the code's.\<close>

definition stable_id :: "string \<Rightarrow> u64" where
  "stable_id name = fold (\<lambda>c hash. (hash XOR of_char c) * 1099511628211) name 1469598103934665603"


section \<open>Located declarations\<close>

datatype LocationArea = LA_I | LA_Q | LA_M

datatype LocationWidth = LW_X | LW_B | LW_W | LW_D | LW_L

text \<open>The parts of a \<open>VarDecl\<close> and its \<open>VarInfo\<close> that \<open>register_location\<close> reads. The parser has
  checked the two letters, so they are enumerations here and the \<open>width == 0\<close> branch is empty.\<close>

record LocatedDecl =
  ld_name :: string
  ld_lower :: string
  ld_area :: LocationArea
  ld_width :: LocationWidth
  ld_byte :: nat
  ld_bit :: nat
  ld_retain :: bool
  ld_persistent :: bool
  ld_type_id :: TypeId
  ld_offset :: nat

record ImageLimits =
  lim_input_bytes :: nat
  lim_output_bytes :: nat
  lim_memory_bytes :: nat
  lim_retain_entries :: nat
  lim_force_entries :: nat

datatype LocationError = LE_type_mismatch | LE_capacity_exceeded | LE_overlap

definition location_width :: "LocationWidth \<Rightarrow> nat" where
  "location_width w = (case w of LW_X \<Rightarrow> 1 | LW_B \<Rightarrow> 1 | LW_W \<Rightarrow> 2 | LW_D \<Rightarrow> 4 | LW_L \<Rightarrow> 8)"

definition location_type :: "LocationWidth \<Rightarrow> TypeId" where
  "location_type w = (case w of LW_X \<Rightarrow> ty_bool | LW_B \<Rightarrow> ty_byte | LW_W \<Rightarrow> ty_word
     | LW_D \<Rightarrow> ty_dword | LW_L \<Rightarrow> ty_lword)"

definition area_of :: "LocationArea \<Rightarrow> ProcessArea" where
  "area_of a = (case a of LA_I \<Rightarrow> PA_input | LA_Q \<Rightarrow> PA_output | LA_M \<Rightarrow> PA_memory)"

definition area_limit :: "ImageLimits \<Rightarrow> LocationArea \<Rightarrow> nat" where
  "area_limit lim a = (case a of LA_I \<Rightarrow> lim_input_bytes lim | LA_Q \<Rightarrow> lim_output_bytes lim
     | LA_M \<Rightarrow> lim_memory_bytes lim)"

text \<open>\<open>first_bit\<close> and \<open>last_bit\<close> of a declaration, both inclusive.\<close>

definition first_bit :: "LocatedDecl \<Rightarrow> nat" where
  "first_bit d = ld_byte d * 8 + (if ld_width d = LW_X then ld_bit d else 0)"

definition last_bit :: "LocatedDecl \<Rightarrow> nat" where
  "last_bit d = (if ld_width d = LW_X then first_bit d
     else first_bit d + location_width (ld_width d) * 8 - 1)"

definition old_first :: "LocatedVarInfo \<Rightarrow> nat" where
  "old_first v = lv_byte_offset v * 8 + (if lv_bit_address v then lv_bit v else 0)"

definition old_last :: "LocatedVarInfo \<Rightarrow> nat" where
  "old_last v = (if lv_bit_address v then old_first v
     else old_first v + lv_byte_width v * 8 - 1)"

text \<open>The overlap loop: a variable of another area is skipped, a disjoint one accepted, an
  overlapping one accepted only as a compatible input alias.\<close>

definition accepts_old :: "LocatedDecl \<Rightarrow> LocatedVarInfo \<Rightarrow> bool" where
  "accepts_old d v =
     (if lv_area v \<noteq> area_of (ld_area d) then True
      else if last_bit d < old_first v \<or> old_last v < first_bit d then True
      else if ld_area d = LA_I then
        (if ld_width d = LW_X \<and> \<not> lv_bit_address v
         then old_first v \<le> first_bit d \<and> first_bit d \<le> old_last v
         else if ld_width d \<noteq> LW_X \<and> lv_bit_address v
         then first_bit d \<le> old_first v \<and> old_first v \<le> last_bit d
         else first_bit d = old_first v \<and> last_bit d = old_last v)
      else False)"

definition located_of :: "LocatedDecl \<Rightarrow> LocatedVarInfo" where
  "located_of d =
     \<lparr> lv_name = ld_name d, lv_lower = ld_lower d, lv_type_id = ld_type_id d,
       lv_area = area_of (ld_area d), lv_byte_offset = ld_byte d, lv_var_offset = ld_offset d,
       lv_byte_width = location_width (ld_width d), lv_bit = ld_bit d,
       lv_bit_address = (ld_width d = LW_X), lv_retain = ld_retain d,
       lv_persistent = ld_persistent d, lv_shared = False, lv_stable_id = stable_id (ld_lower d) \<rparr>"

definition grow_area :: "LocationArea \<Rightarrow> nat \<Rightarrow> ProcessImageInfo \<Rightarrow> ProcessImageInfo" where
  "grow_area a fin pi = (case a of
     LA_I \<Rightarrow> pi\<lparr> pi_input_bytes := max (pi_input_bytes pi) fin \<rparr>
   | LA_Q \<Rightarrow> pi\<lparr> pi_output_bytes := max (pi_output_bytes pi) fin \<rparr>
   | LA_M \<Rightarrow> pi\<lparr> pi_memory_bytes := max (pi_memory_bytes pi) fin \<rparr>)"

definition register_location ::
  "ImageLimits \<Rightarrow> ProcessImageInfo \<Rightarrow> LocatedDecl \<Rightarrow> LocationError + ProcessImageInfo"
where
  "register_location lim pi d =
     (let width = location_width (ld_width d); kept = ld_retain d \<or> ld_persistent d;
          fin = ld_byte d + width
      in if ld_type_id d \<noteq> location_type (ld_width d) \<or> (ld_width d = LW_X \<and> ld_bit d > 7)
         then Inl LE_type_mismatch
         else if width > 1 \<and> ld_byte d mod width \<noteq> 0 then Inl LE_type_mismatch
         else if kept \<and> ld_area d \<noteq> LA_M then Inl LE_type_mismatch
         else if kept \<and> pi_retain_entries pi \<ge> lim_retain_entries lim then Inl LE_capacity_exceeded
         else if fin > area_limit lim (ld_area d) then Inl LE_capacity_exceeded
         else if \<not> list_all (accepts_old d) (pi_variables pi) then Inl LE_overlap
         else let pi1 = pi\<lparr> pi_variables := pi_variables pi @ [located_of d] \<rparr>;
                  pi2 = grow_area (ld_area d) fin pi1;
                  pi3 = (if kept then pi2\<lparr> pi_retain_entries := pi_retain_entries pi2 + 1 \<rparr> else pi2)
              in Inr (pi3\<lparr> pi_max_force_entries := lim_force_entries lim \<rparr>))"


section \<open>The layout invariant\<close>

definition area_bytes :: "ProcessImageInfo \<Rightarrow> ProcessArea \<Rightarrow> nat" where
  "area_bytes pi a = (case a of PA_input \<Rightarrow> pi_input_bytes pi | PA_output \<Rightarrow> pi_output_bytes pi
     | PA_memory \<Rightarrow> pi_memory_bytes pi)"

definition retained :: "LocatedVarInfo \<Rightarrow> bool" where
  "retained v \<longleftrightarrow> lv_retain v \<or> lv_persistent v"

text \<open>Every variable lies in its area, retained ones in memory; outputs and memory variables do not
  overlap; every width is that of an elementary type and the offset is a multiple of it.\<close>

definition image_layout_wf :: "ProcessImageInfo \<Rightarrow> bool" where
  "image_layout_wf pi \<longleftrightarrow>
     (\<forall>v \<in> set (pi_variables pi). located_in (area_bytes pi (lv_area v)) v \<and>
        (retained v \<longrightarrow> lv_area v = PA_memory) \<and> lv_byte_width v dvd lv_byte_offset v) \<and>
     (\<forall>i < length (pi_variables pi). \<forall>j < i. lv_area (pi_variables pi ! i) \<noteq> PA_input \<longrightarrow>
        disjoint_vars (pi_variables pi ! i) (pi_variables pi ! j))"

text \<open>The compiler also counts the retained variables against its limit.\<close>

definition retain_counted :: "ProcessImageInfo \<Rightarrow> bool" where
  "retain_counted pi \<longleftrightarrow> pi_retain_entries pi = length (filter retained (pi_variables pi))"

lemma disjoint_vars_sym: "disjoint_vars a b \<Longrightarrow> disjoint_vars b a"
  by (auto simp: disjoint_vars_def)

lemma old_bits:
  "located_in n v \<Longrightarrow> old_first v = physical_begin v \<and> old_last v + 1 = physical_end v"
  by (auto simp: old_first_def old_last_def physical_begin_def physical_end_def located_in_def)

lemma decl_bits: "first_bit d = physical_begin (located_of d)" "last_bit d + 1 = physical_end (located_of d)"
  by (auto simp: first_bit_def last_bit_def physical_begin_def physical_end_def located_of_def
      location_width_def split: LocationWidth.splits)

lemma accepts_old_disjoint:
  assumes "accepts_old d v" "located_in n v" "ld_area d \<noteq> LA_I"
  shows "disjoint_vars (located_of d) v"
  using assms old_bits [OF assms(2)] decl_bits [of d]
  by (auto simp: accepts_old_def disjoint_vars_def located_of_def split: if_splits)

lemma located_in_mono: "located_in n v \<Longrightarrow> n \<le> m \<Longrightarrow> located_in m v"
  by (auto simp: located_in_def)

lemma empty_image_wf: "image_layout_wf empty_image" "retain_counted empty_image"
  by (simp_all add: image_layout_wf_def retain_counted_def empty_image_def)

lemma grow_area_simps [simp]:
  "pi_variables (grow_area a fin pi) = pi_variables pi"
  "pi_retain_entries (grow_area a fin pi) = pi_retain_entries pi"
  "area_bytes (grow_area a fin pi) b =
    (if b = area_of a then max (area_bytes pi b) fin else area_bytes pi b)"
  by (cases a; cases b; simp add: grow_area_def area_bytes_def area_of_def)+

lemma area_bytes_simps [simp]:
  "area_bytes (pi\<lparr> pi_variables := vs \<rparr>) a = area_bytes pi a"
  "area_bytes (pi\<lparr> pi_retain_entries := n \<rparr>) a = area_bytes pi a"
  "area_bytes (pi\<lparr> pi_max_force_entries := n \<rparr>) a = area_bytes pi a"
  by (cases a; simp add: area_bytes_def)+

lemma width_narrow: "location_width w \<le> Suc 0 \<Longrightarrow> location_width w = Suc 0"
  by (cases w) (simp_all add: location_width_def)

lemma register_location_cases:
  assumes "register_location lim pi d = Inr pi'"
  shows "pi_variables pi' = pi_variables pi @ [located_of d]"
    and "pi_retain_entries pi' = pi_retain_entries pi + (if ld_retain d \<or> ld_persistent d then 1 else 0)"
    and "area_bytes pi a \<le> area_bytes pi' a"
    and "ld_byte d + location_width (ld_width d) \<le> area_bytes pi' (area_of (ld_area d))"
    and "ld_byte d + location_width (ld_width d) \<le> area_limit lim (ld_area d)"
    and "list_all (accepts_old d) (pi_variables pi)"
    and "ld_width d = LW_X \<longrightarrow> ld_bit d \<le> 7"
    and "ld_retain d \<or> ld_persistent d \<longrightarrow> ld_area d = LA_M"
    and "location_width (ld_width d) dvd ld_byte d"
  using assms
  by (auto simp: register_location_def Let_def dvd_eq_mod_eq_0 not_less dest: width_narrow
      split: if_splits)

lemma located_of_in:
  "ld_width d = LW_X \<longrightarrow> ld_bit d \<le> 7 \<Longrightarrow> ld_byte d + location_width (ld_width d) \<le> n \<Longrightarrow>
    located_in n (located_of d)"
  by (auto simp: located_in_def located_of_def location_width_def split: LocationWidth.splits)

lemma register_location_wf:
  assumes wf: "image_layout_wf pi" and reg: "register_location lim pi d = Inr pi'"
  shows "image_layout_wf pi'"
proof -
  note c = register_location_cases [OF reg]
  let ?v = "located_of d"
  have area: "lv_area ?v = area_of (ld_area d)" by (simp add: located_of_def)
  have old: "located_in (area_bytes pi (lv_area v)) v" if "v \<in> set (pi_variables pi)" for v
    using wf that by (simp add: image_layout_wf_def)
  have new: "located_in (area_bytes pi' (lv_area ?v)) ?v"
    unfolding area by (rule located_of_in) (use c in auto)
  have vars: "located_in (area_bytes pi' (lv_area v)) v \<and> (retained v \<longrightarrow> lv_area v = PA_memory) \<and>
      lv_byte_width v dvd lv_byte_offset v" if "v \<in> set (pi_variables pi')" for v
  proof (cases "v = ?v")
    case True
    with new c(8,9) show ?thesis by (auto simp: retained_def located_of_def area_of_def)
  next
    case False
    with that c(1) have v: "v \<in> set (pi_variables pi)" by auto
    with wf located_in_mono [OF old [OF v] c(3)] show ?thesis by (simp add: image_layout_wf_def)
  qed
  have disj: "disjoint_vars ?v (pi_variables pi ! j)"
    if "j < length (pi_variables pi)" "lv_area ?v \<noteq> PA_input" for j
  proof (rule accepts_old_disjoint)
    show "accepts_old d (pi_variables pi ! j)" using c(6) that(1) by (simp add: list_all_length)
    show "located_in (area_bytes pi (lv_area (pi_variables pi ! j))) (pi_variables pi ! j)"
      using old that(1) by simp
    show "ld_area d \<noteq> LA_I" using that(2) by (auto simp: located_of_def area_of_def)
  qed
  have "\<forall>i < length (pi_variables pi'). \<forall>j < i. lv_area (pi_variables pi' ! i) \<noteq> PA_input \<longrightarrow>
      disjoint_vars (pi_variables pi' ! i) (pi_variables pi' ! j)"
    using wf disj unfolding c(1) image_layout_wf_def by (auto simp: nth_append less_Suc_eq)
  with vars show ?thesis by (simp add: image_layout_wf_def)
qed

lemma register_location_retain:
  assumes "retain_counted pi" and reg: "register_location lim pi d = Inr pi'"
  shows "retain_counted pi'"
proof -
  have "retained (located_of d) \<longleftrightarrow> ld_retain d \<or> ld_persistent d"
    by (simp add: retained_def located_of_def)
  with register_location_cases(1,2) [OF reg] assms(1) show ?thesis by (simp add: retain_counted_def)
qed

text \<open>Any sequence of declarations, rejected ones skipped as the compiler skips them.\<close>

definition register_all :: "ImageLimits \<Rightarrow> LocatedDecl list \<Rightarrow> ProcessImageInfo" where
  "register_all lim ds =
     foldl (\<lambda>pi d. case register_location lim pi d of Inl e \<Rightarrow> pi | Inr pi' \<Rightarrow> pi') empty_image ds"

lemma register_fold_wf:
  "image_layout_wf pi \<and> retain_counted pi \<Longrightarrow> (\<lambda>q. image_layout_wf q \<and> retain_counted q)
    (foldl (\<lambda>pi d. case register_location lim pi d of Inl e \<Rightarrow> pi | Inr pi' \<Rightarrow> pi') pi ds)"
  by (induction ds arbitrary: pi)
    (auto dest: register_location_wf register_location_retain split: sum.splits)

end
