(* ===== verification/ImageForce.thy ===== *)
theory ImageForce
  imports ImageAccess
begin

text \<open>
  A force slot (\<open>ForceState\<close>, \<open>publish_force\<close> and \<open>consume_force\<close> in \<open>core/st/process_image.h\<close>): the
  request a tool publishes under a sequence lock and the state a scan boundary takes over. The
  consumer retries while the sequence is odd; without a publisher in between, an odd sequence is
  never left (\<open>None\<close>).
\<close>

definition wildcard_force_owner :: u32 where "wildcard_force_owner = - 1"
definition wildcard_force_release :: u64 where "wildcard_force_release = 0"

record ForceState =
  fo_active :: bool
  fo_value :: bytes
  fo_applied_sequence :: u64
  fo_pending_sequence :: u64
  fo_pending_value :: u64
  fo_pending_release :: u64
  fo_pending_owner :: u32
  fo_pending_active :: bool
  fo_requested_active :: bool

definition initial_force :: ForceState where
  "initial_force = \<lparr> fo_active = False, fo_value = replicate 8 0, fo_applied_sequence = 0,
     fo_pending_sequence = 0, fo_pending_value = 0, fo_pending_release = wildcard_force_release,
     fo_pending_owner = wildcard_force_owner, fo_pending_active = False,
     fo_requested_active = False \<rparr>"

definition publish_force :: "ForceState \<Rightarrow> bool \<Rightarrow> bytes \<Rightarrow> u32 \<Rightarrow> u64 \<Rightarrow> ForceState" where
  "publish_force st active v owner release =
     (let packed = le_value v;
          st1 = st\<lparr> fo_pending_sequence := fo_pending_sequence st + 1 \<rparr>;
          st2 = st1\<lparr> fo_pending_value := packed, fo_pending_owner := owner,
                     fo_pending_release := release, fo_pending_active := active \<rparr>
      in st2\<lparr> fo_pending_sequence := fo_pending_sequence st2 + 1 \<rparr>)"

definition consume_force :: "ForceState \<Rightarrow> u32 \<Rightarrow> u64 \<Rightarrow> ForceState option" where
  "consume_force st boundary_owner boundary_release =
     (let sequence = fo_pending_sequence st; owner = fo_pending_owner st;
          release = fo_pending_release st; active = fo_pending_active st
      in if odd sequence then None
         else if sequence = fo_applied_sequence st then Some st
         else if (owner \<noteq> wildcard_force_owner \<and> owner \<noteq> boundary_owner) \<or>
                 (release \<noteq> wildcard_force_release \<and> release \<noteq> boundary_release) then Some st
         else let st1 = st\<lparr> fo_active := active \<rparr>;
                  st2 = (if active then st1\<lparr> fo_value := le_bytes 8 (fo_pending_value st) \<rparr> else st1)
              in Some (st2\<lparr> fo_applied_sequence := sequence \<rparr>))"

text \<open>Executable: the parity of a word is its lowest bit.\<close>

lemma consume_force_code [code]:
  "consume_force st boundary_owner boundary_release =
     (let sequence = fo_pending_sequence st; owner = fo_pending_owner st;
          release = fo_pending_release st; active = fo_pending_active st
      in if bit sequence 0 then None
         else if sequence = fo_applied_sequence st then Some st
         else if (owner \<noteq> wildcard_force_owner \<and> owner \<noteq> boundary_owner) \<or>
                 (release \<noteq> wildcard_force_release \<and> release \<noteq> boundary_release) then Some st
         else let st1 = st\<lparr> fo_active := active \<rparr>;
                  st2 = (if active then st1\<lparr> fo_value := le_bytes 8 (fo_pending_value st) \<rparr> else st1)
              in Some (st2\<lparr> fo_applied_sequence := sequence \<rparr>))"
  by (simp add: consume_force_def bit_0)

definition force_wf :: "ForceState \<Rightarrow> bool" where
  "force_wf st \<longleftrightarrow> even (fo_pending_sequence st) \<and> length (fo_value st) = 8"

text \<open>Whether the boundary \<open>(owner, release)\<close> is one the pending request waits for.\<close>

definition force_due :: "ForceState \<Rightarrow> u32 \<Rightarrow> u64 \<Rightarrow> bool" where
  "force_due st owner release \<longleftrightarrow>
     (fo_pending_owner st = wildcard_force_owner \<or> fo_pending_owner st = owner) \<and>
     (fo_pending_release st = wildcard_force_release \<or> fo_pending_release st = release)"

lemma initial_force_wf: "force_wf initial_force"
  by (simp add: force_wf_def initial_force_def)

lemma publish_force_wf: "force_wf st \<Longrightarrow> force_wf (publish_force st active v owner release)"
  by (simp add: force_wf_def publish_force_def Let_def)

lemma consume_force_ok:
  "force_wf st \<Longrightarrow> \<exists>st'. consume_force st owner release = Some st' \<and> force_wf st'"
  by (auto simp: consume_force_def force_wf_def Let_def)

lemma publish_force_new:
  "force_wf st \<Longrightarrow> fo_pending_sequence st = fo_applied_sequence st \<Longrightarrow>
    fo_pending_sequence (publish_force st active v owner release) \<noteq>
    fo_applied_sequence (publish_force st active v owner release)"
  by (simp add: publish_force_def Let_def)

text \<open>A request waits until its boundary and then takes effect once: activation installs the bytes
  (padded to eight), a release only clears the flag.\<close>

lemma consume_published_force:
  assumes "force_wf st" "fo_pending_sequence st = fo_applied_sequence st" "length v \<le> 8"
    and st': "st' = publish_force st active v owner release"
  shows "\<not> force_due st' o' r' \<Longrightarrow> consume_force st' o' r' = Some st'"
    and "force_due st' o' r' \<Longrightarrow> \<exists>st''. consume_force st' o' r' = Some st'' \<and>
      fo_active st'' = active \<and>
      fo_value st'' = (if active then v @ replicate (8 - length v) 0 else fo_value st) \<and>
      fo_pending_sequence st'' = fo_applied_sequence st''"
proof -
  let ?n = "fo_pending_sequence st + 2"
  have e: "even ?n" "even (fo_applied_sequence st)" "?n \<noteq> fo_applied_sequence st"
    using assms(1,2) by (auto simp: force_wf_def)
  have f: "fo_pending_sequence st' = ?n" "fo_applied_sequence st' = fo_applied_sequence st"
    "fo_pending_owner st' = owner" "fo_pending_release st' = release" "fo_value st' = fo_value st"
    "fo_pending_active st' = active" "fo_pending_value st' = le_value v"
    by (simp_all add: st' publish_force_def Let_def)
  show "\<not> force_due st' o' r' \<Longrightarrow> consume_force st' o' r' = Some st'"
    using e f by (simp add: consume_force_def force_due_def Let_def)
  show "force_due st' o' r' \<Longrightarrow> \<exists>st''. consume_force st' o' r' = Some st'' \<and>
      fo_active st'' = active \<and>
      fo_value st'' = (if active then v @ replicate (8 - length v) 0 else fo_value st) \<and>
      fo_pending_sequence st'' = fo_applied_sequence st''"
    using e f le_bytes_pad [OF assms(3)] by (auto simp: consume_force_def force_due_def Let_def)
qed

end
