(* ===== verification/ImageChannel.thy ===== *)
theory ImageChannel
  imports RtError
begin

text \<open>
  The three-slot publication channel inside \<open>ProcessImage\<close> (\<open>core/st/process_image.h\<close>): the input,
  output and memory images and the restore batches all travel through it. First the operations as
  a thread runs them undisturbed, where the two \<open>for(;;)\<close> loops either leave at once or spin for
  ever (\<open>None\<close>); then the same code access by access with any number of threads, where the point is
  that a reader never copies a half-written slot.
\<close>

datatype slot_state = Slot_empty | Slot_writing | Slot_published | Slot_reading

record 'm slot =
  sl_state :: slot_state
  sl_data :: 'm

text \<open>\<open>published\<close> is \<open>-1\<close> before the first publication: \<open>None\<close>.\<close>

record 'm channel =
  ch_slots :: "'m slot list"
  ch_published :: "nat option"

definition set_state :: "'m channel \<Rightarrow> nat \<Rightarrow> slot_state \<Rightarrow> 'm channel" where
  "set_state c i st = c\<lparr> ch_slots := (ch_slots c)[i := (ch_slots c ! i)\<lparr> sl_state := st \<rparr>] \<rparr>"

definition set_data :: "'m channel \<Rightarrow> nat \<Rightarrow> 'm \<Rightarrow> 'm channel" where
  "set_data c i m = c\<lparr> ch_slots := (ch_slots c)[i := (ch_slots c ! i)\<lparr> sl_data := m \<rparr>] \<rparr>"

abbreviation state_at :: "'m channel \<Rightarrow> nat \<Rightarrow> slot_state" where
  "state_at c i \<equiv> sl_state (ch_slots c ! i)"

abbreviation data_at :: "'m channel \<Rightarrow> nat \<Rightarrow> 'm" where
  "data_at c i \<equiv> sl_data (ch_slots c ! i)"

text \<open>\<open>compare_exchange_strong\<close> on a slot's state.\<close>

definition slot_cas :: "'m channel \<Rightarrow> nat \<Rightarrow> slot_state \<Rightarrow> slot_state \<Rightarrow> 'm channel \<times> bool" where
  "slot_cas c i expected desired =
     (if state_at c i = expected then (set_state c i desired, True) else (c, False))"


section \<open>Undisturbed operations\<close>

text \<open>One pass of \<open>claim_empty_slot\<close> over the slots from \<open>index\<close> on; \<open>current\<close> is the published index
  loaded at the start of the pass. A pass that claims nothing leaves every slot as the next pass
  finds it, so an undisturbed caller that fails once spins for ever.\<close>

fun claim_pass :: "'m channel \<Rightarrow> nat option \<Rightarrow> nat list \<Rightarrow> ('m channel \<times> nat) option" where
  "claim_pass c current [] = None"
| "claim_pass c current (i # is) =
     (let c1 = (if Some i \<noteq> current then fst (slot_cas c i Slot_published Slot_empty) else c);
          (c2, claimed) = slot_cas c1 i Slot_empty Slot_writing
      in if claimed then Some (c2, i) else claim_pass c2 current is)"

definition claim_empty_slot :: "'m channel \<Rightarrow> ('m channel \<times> nat) option" where
  "claim_empty_slot c = claim_pass c (ch_published c) [0 ..< length (ch_slots c)]"

definition prepare_channel :: "'m \<Rightarrow> 'm channel" where
  "prepare_channel blank =
     \<lparr> ch_slots = replicate 3 \<lparr> sl_state = Slot_empty, sl_data = blank \<rparr>, ch_published = None \<rparr>"

definition initialize_channel :: "'m channel \<Rightarrow> 'm \<Rightarrow> 'm channel" where
  "initialize_channel c m = (set_state (set_data c 0 m) 0 Slot_published)\<lparr> ch_published := Some 0 \<rparr>"

text \<open>\<open>retire c index old\<close>: the tail of a publication, once the slot is filled.\<close>

definition publish_claimed :: "'m channel \<Rightarrow> nat \<Rightarrow> 'm channel" where
  "publish_claimed c index =
     (let old = ch_published c;
          c1 = c\<lparr> ch_published := Some index \<rparr>;
          c2 = set_state c1 index Slot_published
      in case old of
           None \<Rightarrow> c2
         | Some o' \<Rightarrow> if o' \<noteq> index then fst (slot_cas c2 o' Slot_published Slot_empty) else c2)"

definition publish_channel :: "'m channel \<Rightarrow> 'm \<Rightarrow> 'm channel option" where
  "publish_channel c m = (case claim_empty_slot c of
     None \<Rightarrow> None
   | Some (c1, index) \<Rightarrow> Some (publish_claimed (set_data c1 index m) index))"

definition finish_snapshot_read :: "'m channel \<Rightarrow> nat \<Rightarrow> 'm channel" where
  "finish_snapshot_read c index =
     (if ch_published c \<noteq> Some index then set_state c index Slot_empty
      else let c1 = set_state c index Slot_published
        in if ch_published c1 \<noteq> Some index then fst (slot_cas c1 index Slot_published Slot_empty)
           else c1)"

text \<open>\<open>snapshot_channel\<close> after its argument checks: \<open>Inl\<close> the error of an unpublished channel.\<close>

definition snapshot_slot :: "'m channel \<Rightarrow> (ErrorCode + 'm \<times> 'm channel) option" where
  "snapshot_slot c = (case ch_published c of
     None \<Rightarrow> Some (Inl EC_invalid_argument)
   | Some index \<Rightarrow>
       (let (c1, claimed) = slot_cas c index Slot_published Slot_reading
        in if claimed then Some (Inr (data_at c1 index, finish_snapshot_read c1 index)) else None))"

definition consume_channel :: "'m channel \<Rightarrow> 'm option \<times> 'm channel" where
  "consume_channel c = (case ch_published c of
     None \<Rightarrow> (None, c)
   | Some index \<Rightarrow>
       (let (c1, claimed) = slot_cas c index Slot_published Slot_reading
        in if claimed then (Some (data_at c1 index), set_state c1 index Slot_empty) else (None, c)))"

text \<open>Between operations every slot is empty or published, and only the published index may be
  published. \<open>channel_value\<close> is what a reader would get.\<close>

definition channel_wf :: "'m channel \<Rightarrow> bool" where
  "channel_wf c \<longleftrightarrow> length (ch_slots c) = 3 \<and>
     (\<forall>j < 3. state_at c j = Slot_empty \<or> state_at c j = Slot_published \<and> ch_published c = Some j) \<and>
     (\<forall>i. ch_published c = Some i \<longrightarrow> i < 3)"

definition channel_value :: "'m channel \<Rightarrow> 'm option" where
  "channel_value c = (case ch_published c of None \<Rightarrow> None
     | Some i \<Rightarrow> if state_at c i = Slot_published then Some (data_at c i) else None)"

lemmas channel_defs = set_state_def set_data_def slot_cas_def

lemma set_state_simps [simp]:
  "ch_published (set_state c i st) = ch_published c"
  "length (ch_slots (set_state c i st)) = length (ch_slots c)"
  "j < length (ch_slots c) \<Longrightarrow> state_at (set_state c i st) j = (if i = j then st else state_at c j)"
  "data_at (set_state c i st) j = data_at c j"
  by (auto simp: set_state_def nth_list_update) (cases "i < length (ch_slots c)"; cases "i = j"; simp add: list_update_beyond)

lemma set_data_simps [simp]:
  "ch_published (set_data c i m) = ch_published c"
  "length (ch_slots (set_data c i m)) = length (ch_slots c)"
  "state_at (set_data c i m) j = state_at c j"
  "j < length (ch_slots c) \<Longrightarrow> data_at (set_data c i m) j = (if i = j then m else data_at c j)"
  by (auto simp: set_data_def nth_list_update) (cases "i < length (ch_slots c)"; cases "i = j"; simp add: list_update_beyond)

lemma published_simps [simp]:
  "ch_slots (c\<lparr> ch_published := p \<rparr>) = ch_slots c" "ch_published (c\<lparr> ch_published := p \<rparr>) = p"
  by simp_all

lemma prepare_channel_wf: "channel_wf (prepare_channel b)" "channel_value (prepare_channel b) = None"
  by (auto simp: channel_wf_def channel_value_def prepare_channel_def nth_Cons' numeral_3_eq_3)

lemma initialize_channel_wf:
  "channel_wf (initialize_channel (prepare_channel b) m)"
  "channel_value (initialize_channel (prepare_channel b) m) = Some m"
  by (auto simp: channel_wf_def channel_value_def prepare_channel_def initialize_channel_def
      set_state_def set_data_def nth_Cons' numeral_3_eq_3)

text \<open>An undisturbed publication never spins: one of slots 0 and 1 is free or stale.\<close>

lemma claim_empty_slot_ok:
  assumes "channel_wf c"
  obtains c1 i where "claim_empty_slot c = Some (c1, i)" "i < 3" "length (ch_slots c1) = 3"
    "ch_published c1 = ch_published c" "state_at c1 i = Slot_writing"
    "\<And>j. j < 3 \<Longrightarrow> j \<noteq> i \<Longrightarrow> state_at c1 j = state_at c j"
    "\<And>j. data_at c1 j = data_at c j"
    "\<And>j. j < 3 \<Longrightarrow> ch_published c = Some j \<Longrightarrow> state_at c j = Slot_published \<Longrightarrow> i \<noteq> j"
proof -
  from assms have len: "length (ch_slots c) = 3" by (simp add: channel_wf_def)
  then have l: "[0 ..< length (ch_slots c)] = [0, 1, 2]" by (simp add: upt_rec)
  have st: "state_at c j = Slot_empty \<or> state_at c j = Slot_published \<and> ch_published c = Some j"
    if "j < 3" for j using assms that by (simp add: channel_wf_def)
  show ?thesis
  proof (cases "state_at c 0 = Slot_empty")
    case True
    then have "claim_empty_slot c = Some (set_state c 0 Slot_writing, 0)"
      by (simp add: claim_empty_slot_def l slot_cas_def)
    with True len show ?thesis
      by (intro that [of "set_state c 0 Slot_writing" 0]) (auto intro: gr0I)
  next
    case False
    with st [of 0] have p: "ch_published c = Some 0" "state_at c 0 = Slot_published" by auto
    with st [of 1] have e: "state_at c 1 = Slot_empty" by auto
    with p have "claim_empty_slot c = Some (set_state c 1 Slot_writing, 1)"
      by (simp add: claim_empty_slot_def l slot_cas_def)
    with p e len show ?thesis by (intro that [of "set_state c 1 Slot_writing" 1]) auto
  qed
qed

lemma publish_channel_ok:
  assumes wf: "channel_wf c"
  shows "\<exists>c'. publish_channel c m = Some c' \<and> channel_wf c' \<and> channel_value c' = Some m"
proof -
  obtain c1 i where cl: "claim_empty_slot c = Some (c1, i)" "i < 3" "length (ch_slots c1) = 3"
    "ch_published c1 = ch_published c" "state_at c1 i = Slot_writing"
    and oth: "\<And>j. j < 3 \<Longrightarrow> j \<noteq> i \<Longrightarrow> state_at c1 j = state_at c j"
    using claim_empty_slot_ok [OF wf] by metis
  let ?c = "publish_claimed (set_data c1 i m) i"
  have st: "state_at c1 j = Slot_empty \<or> state_at c1 j = Slot_published \<and> ch_published c = Some j"
    if "j < 3" "j \<noteq> i" for j using wf oth [OF that] that by (simp add: channel_wf_def)
  have bnd: "ch_published c = Some k \<Longrightarrow> k < 3" for k using wf by (simp add: channel_wf_def)
  have "channel_wf ?c \<and> channel_value ?c = Some m"
    using cl st bnd
    by (auto simp: publish_claimed_def channel_wf_def channel_value_def slot_cas_def Let_def
        split: option.splits) (metis option.inject)+
  with cl show ?thesis by (simp add: publish_channel_def)
qed

lemma data_at_publish_claimed [simp]: "data_at (publish_claimed c i) j = data_at c j"
  by (auto simp: publish_claimed_def slot_cas_def Let_def split: option.splits)

lemma data_at_consume [simp]: "data_at (snd (consume_channel c)) j = data_at c j"
  by (auto simp: consume_channel_def slot_cas_def Let_def split: option.splits)

text \<open>A claim can be given up: the slot goes back to empty and the reader's view is unchanged.\<close>

lemma claim_released:
  assumes wf: "channel_wf c" and cl: "claim_empty_slot c = Some (c1, i)"
    and c': "c' = set_state (set_data c1 i m) i Slot_empty"
  shows "channel_wf c' \<and> channel_value c' = channel_value c \<and>
    (\<forall>j < 3. data_at c' j = (if j = i then m else data_at c j))"
proof -
  obtain c2 k where k: "claim_empty_slot c = Some (c2, k)" "k < 3" "length (ch_slots c2) = 3"
    "ch_published c2 = ch_published c"
    "\<And>j. j < 3 \<Longrightarrow> j \<noteq> k \<Longrightarrow> state_at c2 j = state_at c j" "\<And>j. data_at c2 j = data_at c j"
    "\<And>j. j < 3 \<Longrightarrow> ch_published c = Some j \<Longrightarrow> state_at c j = Slot_published \<Longrightarrow> k \<noteq> j"
    using claim_empty_slot_ok [OF wf] by metis
  with cl have e: "c2 = c1" "k = i" by auto
  have "channel_wf c'" using wf k by (auto simp: channel_wf_def c' e)
  moreover have "channel_value c' = channel_value c"
    using wf k by (auto simp: channel_value_def channel_wf_def c' e split: option.splits)
  moreover have "\<forall>j < 3. data_at c' j = (if j = i then m else data_at c j)"
    using k by (auto simp: c' e)
  ultimately show ?thesis by blast
qed

lemma snapshot_slot_ok:
  assumes "channel_wf c" "channel_value c = Some m"
  shows "\<exists>c'. snapshot_slot c = Some (Inr (m, c')) \<and> channel_wf c' \<and> channel_value c' = Some m"
  using assms
  by (auto simp: snapshot_slot_def finish_snapshot_read_def channel_value_def channel_wf_def
      slot_cas_def Let_def split: option.splits if_splits)

lemma consume_channel_ok:
  assumes "channel_wf c"
  shows "fst (consume_channel c) = channel_value c \<and> channel_wf (snd (consume_channel c)) \<and>
    channel_value (snd (consume_channel c)) = None"
  using assms
  by (auto simp: consume_channel_def channel_value_def channel_wf_def slot_cas_def Let_def
      split: option.splits if_splits)


section \<open>Latest-value mailboxes\<close>

text \<open>What the scan cycle relies on: a publication always succeeds, the scan boundary takes the
  latest one, and takes it once.\<close>

primrec put_all :: "('c \<Rightarrow> 'm \<Rightarrow> 'c option) \<Rightarrow> 'm list \<Rightarrow> 'c \<Rightarrow> 'c option" where
  "put_all put [] c = Some c"
| "put_all put (m # ms) c = (case put c m of None \<Rightarrow> None | Some c' \<Rightarrow> put_all put ms c')"

locale mailbox =
  fixes put :: "'c \<Rightarrow> 'm \<Rightarrow> 'c option"
    and get :: "'c \<Rightarrow> 'm option \<times> 'c"
    and held :: "'c \<Rightarrow> 'm option"
    and wf :: "'c \<Rightarrow> bool"
  assumes put_ok: "wf c \<Longrightarrow> \<exists>c'. put c m = Some c' \<and> wf c' \<and> held c' = Some m"
    and get_ok: "wf c \<Longrightarrow> fst (get c) = held c \<and> wf (snd (get c)) \<and> held (snd (get c)) = None"
begin

lemma put_all_ok:
  "wf c \<Longrightarrow> \<exists>c'. put_all put ms c = Some c' \<and> wf c' \<and>
    held c' = (if ms = [] then held c else Some (last ms))"
proof (induction ms arbitrary: c)
  case Nil
  then show ?case by simp
next
  case (Cons m ms)
  from put_ok [OF Cons.prems, of m] obtain c1
    where c1: "put c m = Some c1" "wf c1" "held c1 = Some m" by blast
  from Cons.IH [OF c1(2)] c1 show ?case by auto
qed

lemma get_latest:
  assumes "wf c" "ms \<noteq> []"
  shows "\<exists>c' c''. put_all put ms c = Some c' \<and> get c' = (Some (last ms), c'') \<and> fst (get c'') = None"
proof -
  from put_all_ok [OF assms(1), of ms] assms(2) obtain c'
    where c': "put_all put ms c = Some c'" "wf c'" "held c' = Some (last ms)" by auto
  from get_ok [OF c'(2)] c'(3) have "get c' = (Some (last ms), snd (get c'))"
    by (simp add: prod_eq_iff)
  moreover have "fst (get (snd (get c'))) = None"
    using get_ok [OF c'(2)] get_ok [of "snd (get c')"] by simp
  ultimately show ?thesis using c'(1) by blast
qed

end

interpretation image_mailbox: mailbox publish_channel consume_channel channel_value channel_wf
  using publish_channel_ok consume_channel_ok by unfold_locales


section \<open>Access by access\<close>

text \<open>Any number of threads run \<open>publish_channel\<close>, \<open>snapshot_channel\<close> and \<open>consume_channel\<close> on one
  channel; a program counter says which atomic access or which cell copy comes next. A payload is a
  list of cells (bytes, then the version). \<open>submitted\<close> collects the payloads given to a publication,
  \<open>delivered\<close> the payloads a reader returned.\<close>

datatype 'b pc =
    Idle
  | Claim_load "'b list"
  | Claim_stale "'b list" "nat option" nat
  | Claim_try "'b list" "nat option" nat
  | Copy_in "'b list" nat nat
  | Exchange "'b list" nat
  | Set_published "'b list" nat "nat option"
  | Retire nat
  | Read_load bool
  | Read_claim bool nat
  | Copy_out bool nat nat "'b list"
  | Fin_load nat
  | Fin_empty nat
  | Fin_publish nat
  | Fin_recheck nat

record 'b threads =
  th_chan :: "'b list channel"
  th_pc :: "nat \<Rightarrow> 'b pc"
  th_submitted :: "'b list set"
  th_delivered :: "'b list list"

definition move :: "'b threads \<Rightarrow> nat \<Rightarrow> 'b list channel \<Rightarrow> 'b pc \<Rightarrow> 'b threads" where
  "move s t c p = s\<lparr> th_chan := c, th_pc := (th_pc s)(t := p) \<rparr>"

text \<open>\<open>claim_next\<close>: where a claim goes after slot \<open>i\<close> was not free (three slots, then a new pass).\<close>

definition claim_next :: "'b list \<Rightarrow> nat option \<Rightarrow> nat \<Rightarrow> 'b pc" where
  "claim_next m cur i = (if i < 2 then Claim_stale m cur (i + 1) else Claim_load m)"

inductive channel_step :: "nat \<Rightarrow> 'b threads \<Rightarrow> 'b threads \<Rightarrow> bool" for n :: nat where
  call_publish: "th_pc s t = Idle \<Longrightarrow> length m = n \<Longrightarrow>
    channel_step n s ((move s t (th_chan s) (Claim_load m))\<lparr> th_submitted := insert m (th_submitted s) \<rparr>)"
| claim_load: "th_pc s t = Claim_load m \<Longrightarrow>
    channel_step n s (move s t (th_chan s) (Claim_stale m (ch_published (th_chan s)) 0))"
| claim_stale: "th_pc s t = Claim_stale m cur i \<Longrightarrow>
    c' = (if Some i \<noteq> cur then fst (slot_cas (th_chan s) i Slot_published Slot_empty) else th_chan s) \<Longrightarrow>
    channel_step n s (move s t c' (Claim_try m cur i))"
| claim_try: "th_pc s t = Claim_try m cur i \<Longrightarrow>
    slot_cas (th_chan s) i Slot_empty Slot_writing = (c', ok) \<Longrightarrow>
    channel_step n s (move s t c' (if ok then Copy_in m i 0 else claim_next m cur i))"
| copy_in: "th_pc s t = Copy_in m i k \<Longrightarrow> k < n \<Longrightarrow>
    channel_step n s (move s t (set_data (th_chan s) i ((data_at (th_chan s) i)[k := m ! k])) (Copy_in m i (k + 1)))"
| copy_in_done: "th_pc s t = Copy_in m i n \<Longrightarrow>
    channel_step n s (move s t (th_chan s) (Exchange m i))"
| exchange: "th_pc s t = Exchange m i \<Longrightarrow>
    channel_step n s (move s t ((th_chan s)\<lparr> ch_published := Some i \<rparr>)
      (Set_published m i (ch_published (th_chan s))))"
| set_published: "th_pc s t = Set_published m i old \<Longrightarrow>
    channel_step n s (move s t (set_state (th_chan s) i Slot_published)
      (case old of None \<Rightarrow> Idle | Some o' \<Rightarrow> if o' \<noteq> i then Retire o' else Idle))"
| retire: "th_pc s t = Retire j \<Longrightarrow>
    channel_step n s (move s t (fst (slot_cas (th_chan s) j Slot_published Slot_empty)) Idle)"
| call_read: "th_pc s t = Idle \<Longrightarrow> channel_step n s (move s t (th_chan s) (Read_load consuming))"
| read_load: "th_pc s t = Read_load consuming \<Longrightarrow>
    channel_step n s (move s t (th_chan s)
      (case ch_published (th_chan s) of None \<Rightarrow> Idle | Some i \<Rightarrow> Read_claim consuming i))"
| read_claim: "th_pc s t = Read_claim consuming i \<Longrightarrow>
    slot_cas (th_chan s) i Slot_published Slot_reading = (c', ok) \<Longrightarrow>
    channel_step n s (move s t c' (if ok then Copy_out consuming i 0 []
      else if consuming then Idle else Read_load consuming))"
| copy_out: "th_pc s t = Copy_out consuming i k buf \<Longrightarrow> k < n \<Longrightarrow>
    channel_step n s (move s t (th_chan s) (Copy_out consuming i (k + 1) (buf @ [data_at (th_chan s) i ! k])))"
| copy_out_done: "th_pc s t = Copy_out consuming i n buf \<Longrightarrow>
    channel_step n s ((move s t (th_chan s) (if consuming then Fin_empty i else Fin_load i))
      \<lparr> th_delivered := th_delivered s @ [buf] \<rparr>)"
| fin_load: "th_pc s t = Fin_load i \<Longrightarrow>
    channel_step n s (move s t (th_chan s)
      (if ch_published (th_chan s) \<noteq> Some i then Fin_empty i else Fin_publish i))"
| fin_empty: "th_pc s t = Fin_empty i \<Longrightarrow>
    channel_step n s (move s t (set_state (th_chan s) i Slot_empty) Idle)"
| fin_publish: "th_pc s t = Fin_publish i \<Longrightarrow>
    channel_step n s (move s t (set_state (th_chan s) i Slot_published) (Fin_recheck i))"
| fin_recheck: "th_pc s t = Fin_recheck i \<Longrightarrow>
    channel_step n s (move s t (th_chan s)
      (if ch_published (th_chan s) \<noteq> Some i then Retire i else Idle))"

text \<open>The threads start idle on a prepared channel, possibly initialized with a first payload.\<close>

inductive channel_reach :: "nat \<Rightarrow> 'b list channel \<Rightarrow> 'b list set \<Rightarrow> 'b threads \<Rightarrow> bool"
  for n :: nat and c0 :: "'b list channel" and H0 :: "'b list set" where
  start: "channel_reach n c0 H0 \<lparr> th_chan = c0, th_pc = (\<lambda>_. Idle), th_submitted = H0, th_delivered = [] \<rparr>"
| step: "channel_reach n c0 H0 s \<Longrightarrow> channel_step n s s' \<Longrightarrow> channel_reach n c0 H0 s'"

text \<open>The slot a thread owns, and the state it owns it in.\<close>

fun holds :: "'b pc \<Rightarrow> (nat \<times> slot_state) option" where
  "holds (Copy_in m i k) = Some (i, Slot_writing)"
| "holds (Exchange m i) = Some (i, Slot_writing)"
| "holds (Set_published m i old) = Some (i, Slot_writing)"
| "holds (Copy_out consuming i k buf) = Some (i, Slot_reading)"
| "holds (Fin_load i) = Some (i, Slot_reading)"
| "holds (Fin_empty i) = Some (i, Slot_reading)"
| "holds (Fin_publish i) = Some (i, Slot_reading)"
| "holds _ = None"

fun pc_ok :: "nat \<Rightarrow> 'b list channel \<Rightarrow> 'b list set \<Rightarrow> 'b pc \<Rightarrow> bool" where
  "pc_ok n c H (Claim_load m) = (m \<in> H \<and> length m = n)"
| "pc_ok n c H (Claim_stale m cur i) = (m \<in> H \<and> length m = n \<and> i < 3)"
| "pc_ok n c H (Claim_try m cur i) = (m \<in> H \<and> length m = n \<and> i < 3)"
| "pc_ok n c H (Copy_in m i k) = (m \<in> H \<and> length m = n \<and> i < 3 \<and> k \<le> n \<and>
     take k (data_at c i) = take k m)"
| "pc_ok n c H (Exchange m i) = (m \<in> H \<and> i < 3 \<and> data_at c i = m)"
| "pc_ok n c H (Set_published m i old) = (m \<in> H \<and> i < 3 \<and> data_at c i = m \<and> (\<forall>j. old = Some j \<longrightarrow> j < 3))"
| "pc_ok n c H (Retire j) = (j < 3)"
| "pc_ok n c H (Read_claim consuming i) = (i < 3)"
| "pc_ok n c H (Copy_out consuming i k buf) = (i < 3 \<and> k \<le> n \<and> buf = take k (data_at c i))"
| "pc_ok n c H (Fin_load i) = (i < 3)"
| "pc_ok n c H (Fin_empty i) = (i < 3)"
| "pc_ok n c H (Fin_publish i) = (i < 3)"
| "pc_ok n c H (Fin_recheck i) = (i < 3)"
| "pc_ok n c H _ = True"

definition slots_ok :: "nat \<Rightarrow> 'b list channel \<Rightarrow> 'b list set \<Rightarrow> bool" where
  "slots_ok n c H \<longleftrightarrow> length (ch_slots c) = 3 \<and> (\<forall>i < 3. length (data_at c i) = n) \<and>
     (\<forall>i. ch_published c = Some i \<longrightarrow> i < 3) \<and>
     (\<forall>i < 3. state_at c i \<in> {Slot_published, Slot_reading} \<longrightarrow> data_at c i \<in> H)"

definition channel_inv :: "nat \<Rightarrow> 'b threads \<Rightarrow> bool" where
  "channel_inv n s \<longleftrightarrow> slots_ok n (th_chan s) (th_submitted s) \<and>
     (\<forall>t. pc_ok n (th_chan s) (th_submitted s) (th_pc s t)) \<and>
     (\<forall>t i st. holds (th_pc s t) = Some (i, st) \<longrightarrow> i < 3 \<and> state_at (th_chan s) i = st) \<and>
     (\<forall>t t' i st st'. holds (th_pc s t) = Some (i, st) \<longrightarrow> holds (th_pc s t') = Some (i, st') \<longrightarrow> t = t') \<and>
     set (th_delivered s) \<subseteq> th_submitted s"

lemma pc_ok_frame:
  "pc_ok n c H p \<Longrightarrow> H \<subseteq> H' \<Longrightarrow>
    (\<And>i st. holds p = Some (i, st) \<Longrightarrow> ch_slots c' ! i = ch_slots c ! i) \<Longrightarrow> pc_ok n c' H' p"
  by (cases p) auto

text \<open>One access of thread \<open>t\<close> touches at most slot \<open>j\<close>, and either \<open>t\<close> owns \<open>j\<close> or nobody does.\<close>

lemma channel_inv_access:
  assumes inv: "channel_inv n s"
    and others: "\<And>i. i \<noteq> j \<Longrightarrow> ch_slots c' ! i = ch_slots (th_chan s) ! i"
    and owned: "(\<exists>st. holds (th_pc s t) = Some (j, st)) \<or>
      state_at (th_chan s) j \<in> {Slot_empty, Slot_published} \<or> ch_slots c' = ch_slots (th_chan s)"
    and slots: "slots_ok n c' H'" and H: "th_submitted s \<subseteq> H'"
    and p': "pc_ok n c' H' p'"
    and hold: "\<And>i st. holds p' = Some (i, st) \<Longrightarrow> i < 3 \<and> state_at c' i = st \<and>
      (i = j \<and> state_at (th_chan s) j \<in> {Slot_empty, Slot_published} \<or>
       (\<exists>st'. holds (th_pc s t) = Some (i, st')))"
    and D: "set D \<subseteq> H'"
  shows "channel_inv n (s\<lparr> th_chan := c', th_pc := (th_pc s)(t := p'), th_submitted := H', th_delivered := D \<rparr>)"
proof -
  let ?c = "th_chan s"
  from inv have old: "\<And>u i st. holds (th_pc s u) = Some (i, st) \<Longrightarrow> i < 3 \<and> state_at ?c i = st"
    and uniq: "\<And>u u' i st st'. holds (th_pc s u) = Some (i, st) \<Longrightarrow>
      holds (th_pc s u') = Some (i, st') \<Longrightarrow> u = u'"
    and pcs: "\<And>u. pc_ok n ?c (th_submitted s) (th_pc s u)"
    unfolding channel_inv_def by blast+
  have busy: "st = Slot_writing \<or> st = Slot_reading" if "holds p = Some (i, st)" for p :: "'b pc" and i st
    using that by (cases p) auto
  have same: "ch_slots c' ! i = ch_slots ?c ! i" if u: "u \<noteq> t" "holds (th_pc s u) = Some (i, st)" for u i st
  proof (cases "i = j")
    case True
    with owned u uniq old busy show ?thesis by fastforce
  next
    case False
    then show ?thesis by (rule others)
  qed
  have clash: False
    if u: "u \<noteq> t" "holds p' = Some (i, st)" "holds (th_pc s u) = Some (i, st')" for u i st st'
    using hold [OF u(2)]
  proof (elim conjE disjE)
    assume "i = j" "state_at ?c j \<in> {Slot_empty, Slot_published}"
    with old [OF u(3)] busy [OF u(3)] show False by auto
  next
    assume "\<exists>st'. holds (th_pc s t) = Some (i, st')"
    with uniq [OF u(3)] u(1) show False by blast
  qed
  have "pc_ok n c' H' (((th_pc s)(t := p')) u)" for u
    using p' pc_ok_frame [OF pcs H same, of u] by (cases "u = t") auto
  moreover have "i < 3 \<and> state_at c' i = st"
    if "holds (((th_pc s)(t := p')) u) = Some (i, st)" for u i st
    using that hold old same by (cases "u = t") auto
  moreover have "u = u'" if "holds (((th_pc s)(t := p')) u) = Some (i, st)"
    "holds (((th_pc s)(t := p')) u') = Some (i, st')" for u u' i st st'
  proof (rule ccontr)
    assume ne: "u \<noteq> u'"
    consider "u = t" "u' \<noteq> t" | "u \<noteq> t" "u' = t" | "u \<noteq> t" "u' \<noteq> t" using ne by blast
    then show False
    proof cases
      case 1
      with that clash [of u' i st st'] show False by simp
    next
      case 2
      with that clash [of u i st' st] show False by simp
    next
      case 3
      with that uniq [of u i st u' st'] ne show False by simp
    qed
  qed
  moreover have "channel_inv n (s\<lparr> th_chan := c', th_pc := (th_pc s)(t := p'), th_submitted := H',
      th_delivered := D \<rparr>) \<longleftrightarrow> slots_ok n c' H' \<and>
    (\<forall>u. pc_ok n c' H' (((th_pc s)(t := p')) u)) \<and>
    (\<forall>u i st. holds (((th_pc s)(t := p')) u) = Some (i, st) \<longrightarrow> i < 3 \<and> state_at c' i = st) \<and>
    (\<forall>u u' i st st'. holds (((th_pc s)(t := p')) u) = Some (i, st) \<longrightarrow>
      holds (((th_pc s)(t := p')) u') = Some (i, st') \<longrightarrow> u = u') \<and> set D \<subseteq> H'"
    by (simp add: channel_inv_def)
  ultimately show ?thesis
    using slots D by blast
qed

lemma set_state_other: "i \<noteq> j \<Longrightarrow> ch_slots (set_state c j st) ! i = ch_slots c ! i"
  by (simp add: set_state_def)

lemma set_data_other: "i \<noteq> j \<Longrightarrow> ch_slots (set_data c j m) ! i = ch_slots c ! i"
  by (simp add: set_data_def)

lemma slots_ok_state:
  "slots_ok n c H \<Longrightarrow> j < 3 \<Longrightarrow>
    (st \<in> {Slot_published, Slot_reading} \<Longrightarrow> data_at c j \<in> H) \<Longrightarrow> slots_ok n (set_state c j st) H"
  by (auto simp: slots_ok_def)

lemma slots_ok_data:
  "slots_ok n c H \<Longrightarrow> j < 3 \<Longrightarrow> length m = n \<Longrightarrow> state_at c j = Slot_writing \<Longrightarrow>
    slots_ok n (set_data c j m) H"
  by (auto simp: slots_ok_def)

lemma slots_ok_publish: "slots_ok n c H \<Longrightarrow> j < 3 \<Longrightarrow> slots_ok n (c\<lparr> ch_published := Some j \<rparr>) H"
  by (auto simp: slots_ok_def)

lemma slots_ok_more: "slots_ok n c H \<Longrightarrow> H \<subseteq> H' \<Longrightarrow> slots_ok n c H'"
  by (fastforce simp: slots_ok_def)

lemma take_Suc_update:
  "take k xs = take k ys \<Longrightarrow> k < length xs \<Longrightarrow> length xs = length ys \<Longrightarrow>
    take (Suc k) (xs[k := ys ! k]) = take (Suc k) ys"
  by (simp add: take_Suc_conv_app_nth)

text \<open>The accesses that leave the channel alone, and those that rewrite the state of one slot.\<close>

lemma channel_inv_local:
  assumes inv: "channel_inv n s" and p': "pc_ok n (th_chan s) H' p'" and H: "th_submitted s \<subseteq> H'"
    and hold: "holds p' = None \<or> holds p' = holds (th_pc s t)" and D: "set D \<subseteq> H'"
  shows "channel_inv n (s\<lparr> th_chan := th_chan s, th_pc := (th_pc s)(t := p'), th_submitted := H',
    th_delivered := D \<rparr>)"
  using inv
proof (rule channel_inv_access [where j = 0])
  show "slots_ok n (th_chan s) H'"
    using inv H by (auto simp: channel_inv_def intro: slots_ok_more)
  show "i < 3 \<and> state_at (th_chan s) i = st \<and>
      (i = 0 \<and> state_at (th_chan s) 0 \<in> {Slot_empty, Slot_published} \<or>
       (\<exists>st'. holds (th_pc s t) = Some (i, st')))" if "holds p' = Some (i, st)" for i st
  proof -
    from that hold have "holds (th_pc s t) = Some (i, st)" by auto
    moreover from this inv have "i < 3 \<and> state_at (th_chan s) i = st"
      unfolding channel_inv_def by blast
    ultimately show ?thesis by blast
  qed
qed (simp_all add: p' H D)

lemma channel_inv_state:
  assumes inv: "channel_inv n s" and j: "j < 3"
    and own: "holds (th_pc s t) = Some (j, st0) \<or> holds (th_pc s t) = None \<and>
      state_at (th_chan s) j \<in> {Slot_empty, Slot_published}"
    and data: "st \<in> {Slot_published, Slot_reading} \<Longrightarrow> data_at (th_chan s) j \<in> th_submitted s"
    and p': "pc_ok n (set_state (th_chan s) j st) (th_submitted s) p'"
    and hold: "holds p' = None \<or> holds p' = Some (j, st)"
  shows "channel_inv n (s\<lparr> th_chan := set_state (th_chan s) j st, th_pc := (th_pc s)(t := p') \<rparr>)"
proof -
  have "channel_inv n (s\<lparr> th_chan := set_state (th_chan s) j st, th_pc := (th_pc s)(t := p'),
    th_submitted := th_submitted s, th_delivered := th_delivered s \<rparr>)"
    using inv
  proof (rule channel_inv_access [where j = j])
    have ok: "slots_ok n (th_chan s) (th_submitted s)" using inv by (simp add: channel_inv_def)
    then show "slots_ok n (set_state (th_chan s) j st) (th_submitted s)"
      using j data by (rule slots_ok_state)
    show "i < 3 \<and> state_at (set_state (th_chan s) j st) i = st' \<and>
        (i = j \<and> state_at (th_chan s) j \<in> {Slot_empty, Slot_published} \<or>
         (\<exists>st'. holds (th_pc s t) = Some (i, st')))" if "holds p' = Some (i, st')" for i st'
    proof -
      from that hold have e: "i = j" "st' = st" by auto
      have "length (ch_slots (th_chan s)) = 3" using ok by (simp add: slots_ok_def)
      with j have "state_at (set_state (th_chan s) j st) j = st" by simp
      with e j own show ?thesis by blast
    qed
    show "(\<exists>st. holds (th_pc s t) = Some (j, st)) \<or>
        state_at (th_chan s) j \<in> {Slot_empty, Slot_published} \<or>
        ch_slots (set_state (th_chan s) j st) = ch_slots (th_chan s)"
      using own by blast
    show "set (th_delivered s) \<subseteq> th_submitted s" using inv by (simp add: channel_inv_def)
  qed (simp_all add: p' set_state_other)
  then show ?thesis by simp
qed

lemma channel_inv_idle_access:
  assumes "channel_inv n s" "pc_ok n (th_chan s) (th_submitted s) p'"
    and "holds p' = None \<or> holds p' = holds (th_pc s t)"
  shows "channel_inv n (move s t (th_chan s) p')"
proof -
  have "set (th_delivered s) \<subseteq> th_submitted s" using assms(1) by (simp add: channel_inv_def)
  from channel_inv_local [OF assms(1,2) subset_refl assms(3) this] show ?thesis
    by (simp add: move_def)
qed

lemma channel_inv_pc: "channel_inv n s \<Longrightarrow> th_pc s t = p \<Longrightarrow> pc_ok n (th_chan s) (th_submitted s) p"
  by (auto simp: channel_inv_def)

lemma channel_inv_holds:
  assumes "channel_inv n s" "holds (th_pc s t) = Some (i, st)"
  shows "i < 3" "state_at (th_chan s) i = st"
  using assms unfolding channel_inv_def by blast+

lemma channel_inv_slots: "channel_inv n s \<Longrightarrow> slots_ok n (th_chan s) (th_submitted s)"
  by (simp add: channel_inv_def)

lemma slot_data_submitted:
  "slots_ok n c H \<Longrightarrow> i < 3 \<Longrightarrow> state_at c i = Slot_published \<or> state_at c i = Slot_reading \<Longrightarrow> data_at c i \<in> H"
  by (auto simp: slots_ok_def)

lemma slots_ok_published: "slots_ok n c H \<Longrightarrow> ch_published c = Some i \<Longrightarrow> i < 3"
  by (simp add: slots_ok_def)

text \<open>A compare-and-swap by a thread that owns nothing.\<close>

lemma channel_inv_cas:
  assumes inv: "channel_inv n s" and j: "j < 3" and free: "holds (th_pc s t) = None"
    and cas: "slot_cas (th_chan s) j expected desired = (c', ok)"
    and exp: "expected \<in> {Slot_empty, Slot_published}"
    and des: "desired \<in> {Slot_published, Slot_reading} \<Longrightarrow> expected = Slot_published"
    and p': "pc_ok n c' (th_submitted s) p'"
    and hold: "holds p' = None \<or> ok \<and> holds p' = Some (j, desired)"
  shows "channel_inv n (move s t c' p')"
proof (cases ok)
  case True
  with cas have st: "state_at (th_chan s) j = expected" and c': "c' = set_state (th_chan s) j desired"
    by (auto simp: slot_cas_def split: if_splits)
  have "channel_inv n (s\<lparr> th_chan := set_state (th_chan s) j desired, th_pc := (th_pc s)(t := p') \<rparr>)"
  proof (rule channel_inv_state [OF inv j])
    show "holds (th_pc s t) = Some (j, expected) \<or> holds (th_pc s t) = None \<and>
        state_at (th_chan s) j \<in> {Slot_empty, Slot_published}"
      using free st exp by simp
    show "data_at (th_chan s) j \<in> th_submitted s" if "desired \<in> {Slot_published, Slot_reading}"
      using slot_data_submitted [OF channel_inv_slots [OF inv] j] des [OF that] st by simp
  qed (use p' c' hold in auto)
  then show ?thesis by (simp add: move_def c')
next
  case False
  with cas have "c' = th_chan s" by (auto simp: slot_cas_def split: if_splits)
  with False p' hold show ?thesis by (simp add: channel_inv_idle_access [OF inv])
qed

lemma slot_cas_pair: "slot_cas c i e d = (fst (slot_cas c i e d), snd (slot_cas c i e d))"
  by simp

lemma channel_inv_owned_state:
  assumes inv: "channel_inv n s" and own: "holds (th_pc s t) = Some (j, st0)"
    and data: "data_at (th_chan s) j \<in> th_submitted s"
    and p': "holds p' = None" "pc_ok n (set_state (th_chan s) j st) (th_submitted s) p'"
  shows "channel_inv n (move s t (set_state (th_chan s) j st) p')"
  using channel_inv_state [OF inv channel_inv_holds(1) [OF inv own], of t st0 st p'] own data p'
  by (simp add: move_def)

lemma channel_inv_copy_in:
  assumes inv: "channel_inv n s" and pc: "th_pc s t = Copy_in m i k" and k: "k < n"
  shows "channel_inv n (move s t (set_data (th_chan s) i ((data_at (th_chan s) i)[k := m ! k]))
    (Copy_in m i (k + 1)))"
proof -
  let ?c = "th_chan s" and ?d = "(data_at (th_chan s) i)[k := m ! k]"
  from channel_inv_pc [OF inv pc] have m: "m \<in> th_submitted s" "length m = n" "i < 3"
    "take k (data_at ?c i) = take k m" by auto
  have w: "state_at ?c i = Slot_writing" using channel_inv_holds(2) [OF inv, of t] pc by simp
  have ok: "slots_ok n ?c (th_submitted s)" by (rule channel_inv_slots [OF inv])
  then have l: "length (data_at ?c i) = n" "length (ch_slots ?c) = 3" using m(3) by (auto simp: slots_ok_def)
  have "channel_inv n (s\<lparr> th_chan := set_data ?c i ?d, th_pc := (th_pc s)(t := Copy_in m i (k + 1)),
    th_submitted := th_submitted s, th_delivered := th_delivered s \<rparr>)"
    using inv
  proof (rule channel_inv_access [where j = i])
    show "slots_ok n (set_data ?c i ?d) (th_submitted s)"
      using ok m(3) l w by (intro slots_ok_data) auto
    show "pc_ok n (set_data ?c i ?d) (th_submitted s) (Copy_in m i (k + 1))"
      using m k l take_Suc_update [of k "data_at ?c i" m] by simp
    show "set (th_delivered s) \<subseteq> th_submitted s" using inv by (simp add: channel_inv_def)
  qed (use pc m w l in \<open>auto simp: set_data_other\<close>)
  then show ?thesis by (simp add: move_def)
qed

lemma channel_inv_exchange:
  assumes inv: "channel_inv n s" and pc: "th_pc s t = Exchange m i"
  shows "channel_inv n (move s t ((th_chan s)\<lparr> ch_published := Some i \<rparr>)
    (Set_published m i (ch_published (th_chan s))))"
proof -
  let ?c = "(th_chan s)\<lparr> ch_published := Some i \<rparr>"
  from channel_inv_pc [OF inv pc] have m: "m \<in> th_submitted s" "i < 3" "data_at (th_chan s) i = m" by auto
  have w: "state_at (th_chan s) i = Slot_writing" using channel_inv_holds(2) [OF inv, of t] pc by simp
  have ok: "slots_ok n (th_chan s) (th_submitted s)" by (rule channel_inv_slots [OF inv])
  have "channel_inv n (s\<lparr> th_chan := ?c, th_pc := (th_pc s)(t := Set_published m i (ch_published (th_chan s))),
    th_submitted := th_submitted s, th_delivered := th_delivered s \<rparr>)"
    using inv
  proof (rule channel_inv_access [where j = i])
    show "slots_ok n ?c (th_submitted s)" using ok m(2) by (rule slots_ok_publish)
    show "pc_ok n ?c (th_submitted s) (Set_published m i (ch_published (th_chan s)))"
      using m slots_ok_published [OF ok] by simp
    show "set (th_delivered s) \<subseteq> th_submitted s" using inv by (simp add: channel_inv_def)
  qed (use pc m w in auto)
  then show ?thesis by (simp add: move_def)
qed

lemma channel_step_inv: "channel_step n s s' \<Longrightarrow> channel_inv n s \<Longrightarrow> channel_inv n s'"
proof (induction rule: channel_step.induct)
  case (call_publish s t m)
  have "set (th_delivered s) \<subseteq> insert m (th_submitted s)"
    using call_publish.prems by (auto simp: channel_inv_def)
  from channel_inv_local [OF call_publish.prems _ _ _ this, of "Claim_load m" t] call_publish.hyps
  have "channel_inv n (s\<lparr> th_chan := th_chan s, th_pc := (th_pc s)(t := Claim_load m),
      th_submitted := insert m (th_submitted s), th_delivered := th_delivered s \<rparr>)" by auto
  then show ?case by (simp add: move_def)
next
  case (claim_load s t m)
  show ?case
    by (rule channel_inv_idle_access) (use claim_load channel_inv_pc [OF claim_load.prems claim_load.hyps] in auto)
next
  case (claim_stale s t m cur i c')
  from channel_inv_pc [OF claim_stale.prems claim_stale.hyps(1)] have i: "i < 3" by simp
  show ?case
  proof (cases "Some i = cur")
    case True
    with claim_stale show ?thesis
      using channel_inv_pc [OF claim_stale.prems claim_stale.hyps(1)]
      by (auto intro: channel_inv_idle_access)
  next
    case False
    with claim_stale have c': "c' = fst (slot_cas (th_chan s) i Slot_published Slot_empty)" by simp
    show ?thesis unfolding c'
      by (rule channel_inv_cas [OF claim_stale.prems i _ slot_cas_pair])
        (use claim_stale.hyps channel_inv_pc [OF claim_stale.prems claim_stale.hyps(1)] in auto)
  qed
next
  case (claim_try s t m cur i c' ok)
  from channel_inv_pc [OF claim_try.prems claim_try.hyps(1)] have i: "i < 3" by simp
  show ?case
    by (rule channel_inv_cas [OF claim_try.prems i _ claim_try.hyps(2)])
      (use claim_try.hyps channel_inv_pc [OF claim_try.prems claim_try.hyps(1)] in
        \<open>auto simp: claim_next_def split: if_splits\<close>)
next
  case (copy_in s t m i k)
  then show ?case by (blast intro: channel_inv_copy_in)
next
  case (copy_in_done s t m i)
  have "length (data_at (th_chan s) i) = n"
    using channel_inv_slots [OF copy_in_done.prems] channel_inv_pc [OF copy_in_done.prems copy_in_done.hyps]
    by (simp add: slots_ok_def)
  then show ?case
    by (intro channel_inv_idle_access)
      (use copy_in_done channel_inv_pc [OF copy_in_done.prems copy_in_done.hyps] in auto)
next
  case (exchange s t m i)
  then show ?case by (blast intro: channel_inv_exchange)
next
  case (set_published s t m i old)
  show ?case
    by (rule channel_inv_owned_state [OF set_published.prems, of t i Slot_writing])
      (use set_published.hyps channel_inv_pc [OF set_published.prems set_published.hyps] in
        \<open>auto split: option.splits\<close>)
next
  case (retire s t j)
  from channel_inv_pc [OF retire.prems retire.hyps] have j: "j < 3" by simp
  show ?case
    by (rule channel_inv_cas [OF retire.prems j _ slot_cas_pair]) (use retire.hyps in auto)
next
  case (call_read s t consuming)
  show ?case by (rule channel_inv_idle_access) (use call_read in auto)
next
  case (read_load s t consuming)
  show ?case
    by (rule channel_inv_idle_access)
      (use read_load slots_ok_published [OF channel_inv_slots [OF read_load.prems]] in
        \<open>auto split: option.splits\<close>)
next
  case (read_claim s t consuming i c' ok)
  from channel_inv_pc [OF read_claim.prems read_claim.hyps(1)] have i: "i < 3" by simp
  show ?case
    by (rule channel_inv_cas [OF read_claim.prems i _ read_claim.hyps(2)])
      (use read_claim.hyps i in \<open>auto split: if_splits\<close>)
next
  case (copy_out s t consuming i k buf)
  have "length (data_at (th_chan s) i) = n"
    using channel_inv_slots [OF copy_out.prems] channel_inv_pc [OF copy_out.prems copy_out.hyps(1)]
    by (simp add: slots_ok_def)
  then show ?case
    by (intro channel_inv_idle_access)
      (use copy_out channel_inv_pc [OF copy_out.prems copy_out.hyps(1)] in
        \<open>auto simp: take_Suc_conv_app_nth\<close>)
next
  case (copy_out_done s t consuming i buf)
  let ?p = "if consuming then Fin_empty i else Fin_load i"
  from channel_inv_pc [OF copy_out_done.prems copy_out_done.hyps]
  have b: "i < 3" "buf = take n (data_at (th_chan s) i)" by auto
  have "length (data_at (th_chan s) i) = n" "data_at (th_chan s) i \<in> th_submitted s"
    using channel_inv_slots [OF copy_out_done.prems] b(1)
      channel_inv_holds(2) [OF copy_out_done.prems, of t] copy_out_done.hyps
    by (auto simp: slots_ok_def)
  with b copy_out_done.prems have D: "set (th_delivered s @ [buf]) \<subseteq> th_submitted s"
    by (auto simp: channel_inv_def)
  have "pc_ok n (th_chan s) (th_submitted s) ?p" "holds ?p = holds (th_pc s t)"
    using b copy_out_done.hyps by auto
  from channel_inv_local [OF copy_out_done.prems this(1) subset_refl disjI2 [OF this(2)] D]
  show ?case by (cases consuming) (simp_all add: move_def)
next
  case (fin_load s t i)
  show ?case
    by (rule channel_inv_idle_access)
      (use fin_load channel_inv_pc [OF fin_load.prems fin_load.hyps] in auto)
next
  case (fin_empty s t i)
  from channel_inv_pc [OF fin_empty.prems fin_empty.hyps] have i: "i < 3" by simp
  have "data_at (th_chan s) i \<in> th_submitted s"
    using slot_data_submitted [OF channel_inv_slots [OF fin_empty.prems] i]
      channel_inv_holds(2) [OF fin_empty.prems, of t] fin_empty.hyps by simp
  then show ?case
    by (intro channel_inv_owned_state [OF fin_empty.prems, of t i Slot_reading])
      (use fin_empty.hyps in auto)
next
  case (fin_publish s t i)
  from channel_inv_pc [OF fin_publish.prems fin_publish.hyps] have i: "i < 3" by simp
  have "data_at (th_chan s) i \<in> th_submitted s"
    using slot_data_submitted [OF channel_inv_slots [OF fin_publish.prems] i]
      channel_inv_holds(2) [OF fin_publish.prems, of t] fin_publish.hyps by simp
  then show ?case
    by (intro channel_inv_owned_state [OF fin_publish.prems, of t i Slot_reading])
      (use fin_publish.hyps i in auto)
next
  case (fin_recheck s t i)
  show ?case
    by (rule channel_inv_idle_access)
      (use fin_recheck channel_inv_pc [OF fin_recheck.prems fin_recheck.hyps] in auto)
qed

lemma channel_reach_inv:
  assumes "channel_reach n c0 H0 s" "slots_ok n c0 H0"
  shows "channel_inv n s"
  using assms(1)
proof (induction rule: channel_reach.induct)
  case start
  with assms(2) show ?case by (simp add: channel_inv_def)
next
  case (step s s')
  then show ?case by (blast intro: channel_step_inv)
qed

end
