(* ===== verification/ProcessImage.thy ===== *)
theory ProcessImage
  imports ImageLayout ImageForce ImageChannel "HOL-Library.Monad_Syntax"
begin

text \<open>
  \<open>class ProcessImage\<close> of \<open>core/st/process_image.h\<close>: the input, output and memory images of a
  resource, their publication channels, forces, retained-variable snapshots, and the scan and
  transaction operations the VM and the configuration runtime call. The three pointers into the
  caller's buffer are three byte lists. An operation that can only fail to return by spinning on
  a channel or a force slot has an option result; \<open>image_wf\<close> excludes that outcome.
\<close>

datatype SnapshotKind = SK_retain | SK_persistent

datatype SnapshotError =
    SE_ok | SE_invalid_argument | SE_capacity_exceeded | SE_malformed | SE_version_mismatch
  | SE_fingerprint_mismatch

record SnapshotReport =
  sr_restored :: u16
  sr_rejected :: u16
  sr_defaulted :: u16
  sr_fingerprint_match :: bool

definition empty_report :: SnapshotReport where
  "empty_report = \<lparr> sr_restored = 0, sr_rejected = 0, sr_defaulted = 0, sr_fingerprint_match = False \<rparr>"

record RestoreState =
  re_pending :: bool
  re_seen :: bool
  re_value :: bytes

definition empty_restore :: RestoreState where
  "empty_restore = \<lparr> re_pending = False, re_seen = False, re_value = replicate 8 0 \<rparr>"

type_synonym image_message = "bytes \<times> u64"

record ProcessImage =
  im_program :: "Program option"
  im_input :: bytes
  im_output :: bytes
  im_memory :: bytes
  im_output_shadow :: bytes
  im_memory_shadow :: bytes
  im_current_output_dirty :: bytes
  im_current_memory_dirty :: bytes
  im_transaction_output_dirty :: bytes
  im_transaction_memory_dirty :: bytes
  im_forces :: "ForceState list"
  im_input_channel :: "image_message channel"
  im_output_channel :: "image_message channel"
  im_memory_channel :: "image_message channel"
  im_restore_channel :: "RestoreState list channel"
  im_input_version :: u64
  im_output_version :: u64
  im_memory_version :: u64
  im_force_queue_version :: u64
  im_transaction_active :: bool

abbreviation image_vars :: "ProcessImage \<Rightarrow> LocatedVarInfo list" where
  "image_vars im \<equiv> located_vars (the (im_program im))"

definition image_of :: "ProcessImage \<Rightarrow> ProcessArea \<Rightarrow> bytes" where
  "image_of im a = (case a of PA_input \<Rightarrow> im_input im | PA_output \<Rightarrow> im_output im | PA_memory \<Rightarrow> im_memory im)"


section \<open>Loading\<close>

text \<open>The loop of \<open>load\<close> that writes the initial values; \<open>write_initial\<close> is one round, for a pair
  of output and memory images.\<close>

definition write_var :: "LocatedVarInfo \<Rightarrow> bytes \<Rightarrow> bytes \<times> bytes \<Rightarrow> bytes \<times> bytes" where
  "write_var var v om = (case lv_area var of
     PA_input \<Rightarrow> om
   | PA_output \<Rightarrow> (write_image_value (fst om) var v, snd om)
   | PA_memory \<Rightarrow> (fst om, write_image_value (snd om) var v))"

definition var_bytes :: "bytes \<Rightarrow> LocatedVarInfo \<Rightarrow> bytes" where
  "var_bytes vars var = seg vars (lv_var_offset var) (lv_byte_width var)"

definition write_initials :: "bytes \<Rightarrow> LocatedVarInfo list \<Rightarrow> bytes \<times> bytes \<Rightarrow> bytes \<times> bytes" where
  "write_initials data vars om = fold (\<lambda>var. write_var var (var_bytes data var)) vars om"

definition load_image :: "ProcessImage \<Rightarrow> Program \<Rightarrow> bool \<Rightarrow> nat \<Rightarrow> ProcessImage \<times> ErrorCode" where
  "load_image im p has_buffer buffer_bytes =
     (let pi = process_image p;
          required = pi_input_bytes pi + pi_output_bytes pi + pi_memory_bytes pi
      in if (required \<noteq> 0 \<and> \<not> has_buffer) \<or> buffer_bytes < required
         then (im, if required > buffer_bytes then EC_capacity_exceeded else EC_invalid_argument)
         else let zo = replicate (pi_output_bytes pi) 0; zm = replicate (pi_memory_bytes pi) 0;
                  (out, mem) = write_initials (initial_data p) (pi_variables pi) (zo, zm)
              in (\<lparr> im_program = Some p, im_input = replicate (pi_input_bytes pi) 0,
                    im_output = out, im_memory = mem,
                    im_output_shadow = zo, im_memory_shadow = zm,
                    im_current_output_dirty = zo, im_current_memory_dirty = zm,
                    im_transaction_output_dirty = zo, im_transaction_memory_dirty = zm,
                    im_forces = replicate (length (pi_variables pi)) initial_force,
                    im_input_channel = prepare_channel (replicate (pi_input_bytes pi) 0, 0),
                    im_output_channel = initialize_channel (prepare_channel (zo, 0)) (out, 0),
                    im_memory_channel = initialize_channel (prepare_channel (zm, 0)) (mem, 0),
                    im_restore_channel =
                      prepare_channel (replicate (length (pi_variables pi)) empty_restore),
                    im_input_version = 0, im_output_version = 0, im_memory_version = 0,
                    im_force_queue_version = 0, im_transaction_active = False \<rparr>, EC_ok))"

definition supports :: "ProcessImage \<Rightarrow> Program \<Rightarrow> bool" where
  "supports im p = (case im_program im of None \<Rightarrow> False
     | Some q \<Rightarrow> pi_input_bytes (process_image p) \<le> pi_input_bytes (process_image q) \<and>
         pi_output_bytes (process_image p) \<le> pi_output_bytes (process_image q) \<and>
         pi_memory_bytes (process_image p) \<le> pi_memory_bytes (process_image q))"


section \<open>Host side: inputs and published images\<close>

definition submit_input :: "ProcessImage \<Rightarrow> bytes option \<Rightarrow> nat \<Rightarrow> u64 \<Rightarrow> (ProcessImage \<times> ErrorCode) option" where
  "submit_input im data size' version =
     (case im_program im of
        None \<Rightarrow> Some (im, EC_invalid_argument)
      | Some p \<Rightarrow>
          if size' \<noteq> pi_input_bytes (process_image p) \<or> (size' \<noteq> 0 \<and> data = None)
          then Some (im, EC_invalid_argument)
          else do {
            c \<leftarrow> publish_channel (im_input_channel im)
              (if size' = 0 then [] else take size' (the data), version);
            Some (im\<lparr> im_input_channel := c \<rparr>, EC_ok)
          })"

definition snapshot_channel ::
  "image_message channel \<Rightarrow> nat \<Rightarrow> bool \<Rightarrow> nat \<Rightarrow> (ErrorCode + image_message \<times> image_message channel) option"
where
  "snapshot_channel c size' has_bytes capacity =
     (if capacity < size' then Some (Inl EC_capacity_exceeded)
      else if size' \<noteq> 0 \<and> \<not> has_bytes then Some (Inl EC_invalid_argument)
      else snapshot_slot c)"

definition output_snapshot ::
  "ProcessImage \<Rightarrow> bool \<Rightarrow> nat \<Rightarrow> (ErrorCode + image_message \<times> ProcessImage) option"
where
  "output_snapshot im has_bytes capacity =
     do { r \<leftarrow> snapshot_channel (im_output_channel im)
            (case im_program im of None \<Rightarrow> 0 | Some p \<Rightarrow> pi_output_bytes (process_image p)) has_bytes capacity;
          Some (case r of Inl e \<Rightarrow> Inl e | Inr (m, c) \<Rightarrow> Inr (m, im\<lparr> im_output_channel := c \<rparr>)) }"

definition memory_snapshot ::
  "ProcessImage \<Rightarrow> bool \<Rightarrow> nat \<Rightarrow> (ErrorCode + image_message \<times> ProcessImage) option"
where
  "memory_snapshot im has_bytes capacity =
     do { r \<leftarrow> snapshot_channel (im_memory_channel im)
            (case im_program im of None \<Rightarrow> 0 | Some p \<Rightarrow> pi_memory_bytes (process_image p)) has_bytes capacity;
          Some (case r of Inl e \<Rightarrow> Inl e | Inr (m, c) \<Rightarrow> Inr (m, im\<lparr> im_memory_channel := c \<rparr>)) }"


section \<open>Forces\<close>

definition find_located :: "ProcessImage \<Rightarrow> string option \<Rightarrow> nat option" where
  "find_located im name = (case im_program im of None \<Rightarrow> None
     | Some p \<Rightarrow> (case name of None \<Rightarrow> None
         | Some n \<Rightarrow> index_where (\<lambda>v. name_walk (lv_lower v) n) (located_vars p)))"

definition located_index :: "ProcessImage \<Rightarrow> SymbolInfo \<Rightarrow> nat option" where
  "located_index im s = (case im_program im of None \<Rightarrow> None
     | Some p \<Rightarrow> if \<not> sy_located s then None
         else index_where (\<lambda>v. area_code (lv_area v) = sy_physical_area s \<and>
             lv_byte_offset v = sy_physical_byte_offset s \<and> lv_bit v = sy_physical_bit s \<and>
             lv_byte_width v = sy_physical_width s \<and>
             lv_bit_address v = sy_physical_bit_address s \<and> lv_type_id v = sy_type_id s)
           (located_vars p))"

definition requested_count :: "ForceState list \<Rightarrow> nat" where
  "requested_count fs = length (filter fo_requested_active fs)"

definition queue_force_index ::
  "ProcessImage \<Rightarrow> nat \<Rightarrow> TypeId \<Rightarrow> bytes option \<Rightarrow> nat \<Rightarrow> u32 \<Rightarrow> u64 \<Rightarrow> ProcessImage \<times> ErrorCode \<times> u64 option"
where
  "queue_force_index im index ty v size' owner release =
     (if im_program im = None \<or> index \<ge> length (im_forces im) \<or> v = None
      then (im, EC_invalid_argument, None)
      else let var = image_vars im ! index; st = im_forces im ! index
        in if lv_type_id var \<noteq> ty \<or> size' \<noteq> lv_byte_width var
           then (im, EC_invalid_argument, None)
           else if \<not> fo_requested_active st \<and>
               requested_count (im_forces im) \<ge> pi_max_force_entries (process_image (the (im_program im)))
           then (im, EC_capacity_exceeded, None)
           else let version = im_force_queue_version im + 1;
                    st' = (publish_force st True (take size' (the v)) owner release)
                      \<lparr> fo_requested_active := True \<rparr>
                in (im\<lparr> im_force_queue_version := version, im_forces := (im_forces im)[index := st'] \<rparr>,
                    EC_ok, Some version))"

definition queue_force ::
  "ProcessImage \<Rightarrow> string option \<Rightarrow> TypeId \<Rightarrow> bytes option \<Rightarrow> nat \<Rightarrow> ProcessImage \<times> ErrorCode"
where
  "queue_force im name ty v size' = (case find_located im name of
     None \<Rightarrow> (im, EC_invalid_argument)
   | Some i \<Rightarrow> (let (im', e, _) = queue_force_index im i ty v size' wildcard_force_owner
       wildcard_force_release in (im', e)))"

definition queue_release_index ::
  "ProcessImage \<Rightarrow> nat \<Rightarrow> u32 \<Rightarrow> u64 \<Rightarrow> ProcessImage \<times> ErrorCode \<times> u64 option"
where
  "queue_release_index im index owner release =
     (if im_program im = None \<or> index \<ge> length (im_forces im)
      then (im, EC_invalid_argument, None)
      else let version = im_force_queue_version im + 1;
               st' = (publish_force (im_forces im ! index) False [] owner release)
                 \<lparr> fo_requested_active := False \<rparr>
           in (im\<lparr> im_force_queue_version := version, im_forces := (im_forces im)[index := st'] \<rparr>,
               EC_ok, Some version))"

definition queue_release :: "ProcessImage \<Rightarrow> string option \<Rightarrow> ProcessImage \<times> ErrorCode" where
  "queue_release im name = (case find_located im name of
     None \<Rightarrow> (im, EC_invalid_argument)
   | Some i \<Rightarrow> (let (im', e, _) = queue_release_index im i wildcard_force_owner
       wildcard_force_release in (im', e)))"

definition same_place :: "LocatedVarInfo \<Rightarrow> LocatedVarInfo \<Rightarrow> bool" where
  "same_place a b \<longleftrightarrow> lv_area a = lv_area b \<and> lv_byte_offset a = lv_byte_offset b \<and>
     lv_bit a = lv_bit b \<and> lv_bit_address a = lv_bit_address b \<and> lv_type_id a = lv_type_id b \<and>
     lv_byte_width a = lv_byte_width b"

definition active_force :: "ProcessImage \<Rightarrow> LocatedVarInfo \<Rightarrow> ForceState option" where
  "active_force im layout =
     map_option snd (find (\<lambda>(v, f). fo_active f \<and> same_place v layout)
       (zip (image_vars im) (im_forces im)))"

definition forced_store :: "ProcessImage \<Rightarrow> Program \<Rightarrow> nat \<Rightarrow> TypeId \<Rightarrow> u64 option" where
  "forced_store im layout offset ty =
     (case find (\<lambda>v. lv_var_offset v = offset \<and> lv_type_id v = ty \<and> active_force im v \<noteq> None)
        (located_vars layout) of
        None \<Rightarrow> None
      | Some v \<Rightarrow> Some (le_value (take (lv_byte_width v) (fo_value (the (active_force im v))))))"


section \<open>Scan boundary\<close>

text \<open>\<open>apply_pending_restore\<close>: the published batch, once, into the memory image.\<close>

definition apply_entries :: "LocatedVarInfo list \<Rightarrow> RestoreState list \<Rightarrow> bytes \<Rightarrow> bytes" where
  "apply_entries vars es mem =
     fold (\<lambda>(v, e) m. if re_pending e then write_image_value m v (take (lv_byte_width v) (re_value e))
       else m) (zip vars es) mem"

definition apply_pending_restore :: "ProcessImage \<Rightarrow> ProcessImage" where
  "apply_pending_restore im =
     (case consume_channel (im_restore_channel im) of
        (None, c) \<Rightarrow> im
      | (Some es, c) \<Rightarrow> im\<lparr> im_memory := apply_entries (image_vars im) es (im_memory im),
          im_restore_channel := c \<rparr>)"

primrec consume_forces :: "ForceState list \<Rightarrow> u32 \<Rightarrow> u64 \<Rightarrow> ForceState list option" where
  "consume_forces [] owner release = Some []"
| "consume_forces (f # fs) owner release =
     do { f' \<leftarrow> consume_force f owner release; fs' \<leftarrow> consume_forces fs owner release; Some (f' # fs') }"

definition prepare_scan_boundary :: "ProcessImage \<Rightarrow> u32 \<Rightarrow> u64 \<Rightarrow> ProcessImage option" where
  "prepare_scan_boundary im owner release =
     do { fs \<leftarrow> consume_forces (im_forces im) owner release;
          let im1 = (apply_pending_restore im)\<lparr> im_forces := fs \<rparr>;
              (m, c) = consume_channel (im_input_channel im1)
          in Some (case m of None \<Rightarrow> im1
                   | Some (data, version) \<Rightarrow>
                       im1\<lparr> im_input := data, im_input_version := version, im_input_channel := c \<rparr>) }"

definition mark_physical :: "LocatedVarInfo \<Rightarrow> bool \<Rightarrow> ProcessImage \<Rightarrow> ProcessImage" where
  "mark_physical var task_write im = (case lv_area var of
     PA_input \<Rightarrow> im
   | PA_output \<Rightarrow> im\<lparr> im_current_output_dirty := mark_bytes var (im_current_output_dirty im),
       im_transaction_output_dirty := (if task_write
         then mark_bytes var (im_transaction_output_dirty im) else im_transaction_output_dirty im) \<rparr>
   | PA_memory \<Rightarrow> im\<lparr> im_current_memory_dirty := mark_bytes var (im_current_memory_dirty im),
       im_transaction_memory_dirty := (if task_write
         then mark_bytes var (im_transaction_memory_dirty im) else im_transaction_memory_dirty im) \<rparr>)"

definition current_dirty :: "ProcessImage \<Rightarrow> LocatedVarInfo \<Rightarrow> bool" where
  "current_dirty im var = dirty_in var
     (if lv_area var = PA_output then im_current_output_dirty im else im_current_memory_dirty im)"

text \<open>One round of the \<open>begin_scan\<close> loop: the image value, then an active force over it.\<close>

definition scan_var :: "LocatedVarInfo \<Rightarrow> bytes \<times> ProcessImage \<Rightarrow> bytes \<times> ProcessImage" where
  "scan_var var vi =
     (let im = snd vi;
          vars1 = blit (lv_var_offset var) (read_image_value (image_of im (lv_area var)) var) (fst vi)
      in case active_force im var of
           None \<Rightarrow> (vars1, im)
         | Some f \<Rightarrow> (blit (lv_var_offset var) (take (lv_byte_width var) (fo_value f)) vars1,
                      mark_physical var False im))"

definition clear_current :: "ProcessImage \<Rightarrow> ProcessImage" where
  "clear_current im =
     im\<lparr> im_current_output_dirty := map (\<lambda>_. 0) (im_current_output_dirty im),
         im_current_memory_dirty := map (\<lambda>_. 0) (im_current_memory_dirty im) \<rparr>"

definition begin_scan :: "ProcessImage \<Rightarrow> Program \<Rightarrow> bytes \<Rightarrow> (bytes \<times> ProcessImage) option" where
  "begin_scan im layout vars =
     do { im1 \<leftarrow> (if im_transaction_active im then Some im
            else prepare_scan_boundary im wildcard_force_owner wildcard_force_release);
          Some (fold scan_var (located_vars layout) (vars, clear_current im1)) }"

definition begin_transaction :: "ProcessImage \<Rightarrow> u32 \<Rightarrow> u64 \<Rightarrow> ProcessImage option" where
  "begin_transaction im owner release =
     do { im1 \<leftarrow> prepare_scan_boundary im owner release;
          Some (im1\<lparr> im_transaction_output_dirty := map (\<lambda>_. 0) (im_transaction_output_dirty im1),
                     im_transaction_memory_dirty := map (\<lambda>_. 0) (im_transaction_memory_dirty im1),
                     im_transaction_active := True \<rparr>) }"

definition mark_store :: "ProcessImage \<Rightarrow> Program \<Rightarrow> nat \<Rightarrow> TypeId \<Rightarrow> ProcessImage" where
  "mark_store im layout offset ty =
     (case find (\<lambda>v. lv_var_offset v = offset \<and> lv_type_id v = ty) (located_vars layout) of
        None \<Rightarrow> im | Some v \<Rightarrow> mark_physical v True im)"

definition transaction_dirty :: "ProcessImage \<Rightarrow> ProcessArea \<Rightarrow> nat \<Rightarrow> u8" where
  "transaction_dirty im a byte = (case a of
     PA_input \<Rightarrow> 0
   | PA_output \<Rightarrow> if byte < length (im_transaction_output_dirty im)
       then im_transaction_output_dirty im ! byte else 0
   | PA_memory \<Rightarrow> if byte < length (im_transaction_memory_dirty im)
       then im_transaction_memory_dirty im ! byte else 0)"


section \<open>Commit, publish, discard\<close>

definition publish_scan :: "ProcessImage \<Rightarrow> ProcessImage option" where
  "publish_scan im =
     do { let im1 = im\<lparr> im_output_version := im_output_version im + 1,
                im_memory_version := im_memory_version im + 1 \<rparr>
          in do { oc \<leftarrow> publish_channel (im_output_channel im1) (im_output im1, im_output_version im1);
                  mc \<leftarrow> publish_channel (im_memory_channel im1) (im_memory im1, im_memory_version im1);
                  Some (im1\<lparr> im_output_channel := oc, im_memory_channel := mc \<rparr>) } }"

text \<open>The write-back loop of \<open>commit_scan\<close>, on the shadow pair.\<close>

definition commit_vars :: "ProcessImage \<Rightarrow> LocatedVarInfo list \<Rightarrow> bytes \<Rightarrow> bytes \<times> bytes \<Rightarrow> bytes \<times> bytes" where
  "commit_vars im lvs vars om =
     fold (\<lambda>v. if lv_area v = PA_input \<or> (im_transaction_active im \<and> \<not> current_dirty im v) then id
       else write_var v (var_bytes vars v)) lvs om"

definition commit_scan :: "ProcessImage \<Rightarrow> Program \<Rightarrow> bytes \<Rightarrow> bool \<Rightarrow> ProcessImage option" where
  "commit_scan im layout vars publish =
     (let (os, ms) = commit_vars im (located_vars layout) vars (im_output im, im_memory im);
          im1 = im\<lparr> im_output_shadow := os, im_memory_shadow := ms, im_output := os, im_memory := ms \<rparr>
      in if publish then publish_scan im1 else Some im1)"

definition commit_transaction :: "ProcessImage \<Rightarrow> ProcessImage option" where
  "commit_transaction im =
     do { im1 \<leftarrow> publish_scan im; Some (im1\<lparr> im_transaction_active := False \<rparr>) }"

definition discard_scan :: "ProcessImage \<Rightarrow> ProcessImage option" where
  "discard_scan im =
     do { ro \<leftarrow> snapshot_channel (im_output_channel im) (length (im_output_shadow im)) True
            (length (im_output_shadow im));
          let im1 = (case ro of Inl e \<Rightarrow> im
            | Inr ((data, version), c) \<Rightarrow> im\<lparr> im_output_shadow := data, im_output := data,
                im_output_version := version, im_output_channel := c \<rparr>)
          in do { rm \<leftarrow> snapshot_channel (im_memory_channel im1) (length (im_memory_shadow im1)) True
                    (length (im_memory_shadow im1));
                  let im2 = (case rm of Inl e \<Rightarrow> im1
                    | Inr ((data, version), c) \<Rightarrow> im1\<lparr> im_memory_shadow := data, im_memory := data,
                        im_memory_version := version, im_memory_channel := c \<rparr>)
                  in Some (im2\<lparr> im_transaction_active := False \<rparr>) } }"


section \<open>Parking a paused transaction\<close>

record ParkedImage =
  pk_output :: bytes
  pk_output_dirty :: bytes
  pk_memory :: bytes
  pk_memory_dirty :: bytes

definition park_transaction :: "ProcessImage \<Rightarrow> nat \<Rightarrow> nat \<Rightarrow> ParkedImage option" where
  "park_transaction im output_size memory_size =
     (if \<not> im_transaction_active im \<or> output_size \<noteq> length (im_output_shadow im) \<or>
         memory_size \<noteq> length (im_memory_shadow im) then None
      else Some \<lparr> pk_output = take output_size (im_output im),
        pk_output_dirty = take output_size (im_transaction_output_dirty im),
        pk_memory = take memory_size (im_memory im),
        pk_memory_dirty = take memory_size (im_transaction_memory_dirty im) \<rparr>)"

definition merge_parked :: "bytes \<Rightarrow> bytes \<Rightarrow> bytes \<Rightarrow> bytes" where
  "merge_parked destination parked masks =
     map (\<lambda>(d, p, m). (d AND NOT m) OR (p AND m)) (zip destination (zip parked masks))"

definition restore_transaction :: "ProcessImage \<Rightarrow> ParkedImage \<Rightarrow> nat \<Rightarrow> nat \<Rightarrow> ProcessImage \<times> bool" where
  "restore_transaction im pk output_size memory_size =
     (if \<not> im_transaction_active im \<or> output_size \<noteq> length (im_output_shadow im) \<or>
         memory_size \<noteq> length (im_memory_shadow im) then (im, False)
      else (im\<lparr> im_output := merge_parked (im_output im) (pk_output pk) (pk_output_dirty pk),
                im_transaction_output_dirty := pk_output_dirty pk,
                im_memory := merge_parked (im_memory im) (pk_memory pk) (pk_memory_dirty pk),
                im_transaction_memory_dirty := pk_memory_dirty pk \<rparr>, True))"

end
