(* ===== verification/ProcessImageProps.thy ===== *)
theory ProcessImageProps
  imports ProcessImage
begin

text \<open>
  The laws of \<open>ProcessImage\<close>: the representation invariant and its preservation (no operation ever
  spins on a well-formed image), what a scan reads, what a commit writes and publishes, and what a
  discard restores.
\<close>

section \<open>Writing a set of variables\<close>

definition area_image :: "bytes \<times> bytes \<Rightarrow> ProcessArea \<Rightarrow> bytes" where
  "area_image om a = (case a of PA_input \<Rightarrow> [] | PA_output \<Rightarrow> fst om | PA_memory \<Rightarrow> snd om)"

definition writable :: "bytes \<times> bytes \<Rightarrow> LocatedVarInfo \<Rightarrow> bool" where
  "writable om v \<longleftrightarrow> lv_area v \<noteq> PA_input \<longrightarrow> located_in (length (area_image om (lv_area v))) v"

definition separated :: "LocatedVarInfo list \<Rightarrow> bool" where
  "separated vs \<longleftrightarrow> sorted_wrt (\<lambda>v u. lv_area v \<noteq> PA_input \<longrightarrow> disjoint_vars v u) vs"

definition write_selected ::
  "(LocatedVarInfo \<Rightarrow> bool) \<Rightarrow> (LocatedVarInfo \<Rightarrow> bytes) \<Rightarrow> LocatedVarInfo list \<Rightarrow> bytes \<times> bytes \<Rightarrow> bytes \<times> bytes"
where
  "write_selected P val vs om = fold (\<lambda>v. if P v then write_var v (val v) else id) vs om"

lemma length_write_var:
  assumes "writable om v" "length x = lv_byte_width v"
  shows "length (fst (write_var v x om)) = length (fst om)"
    and "length (snd (write_var v x om)) = length (snd om)"
  using assms by (auto simp: write_var_def writable_def area_image_def split: ProcessArea.splits)

lemma writable_write_var:
  "writable om v \<Longrightarrow> length x = lv_byte_width v \<Longrightarrow> writable (write_var v x om) u \<longleftrightarrow> writable om u"
  by (auto simp: writable_def area_image_def length_write_var split: ProcessArea.splits)

lemma read_write_var_same:
  "writable om v \<Longrightarrow> lv_area v \<noteq> PA_input \<Longrightarrow> length x = lv_byte_width v \<Longrightarrow>
    read_image_value (area_image (write_var v x om) (lv_area v)) v = stored_value v x"
  by (auto simp: write_var_def writable_def area_image_def read_write_same split: ProcessArea.splits)

lemma read_write_var_other:
  "writable om v \<Longrightarrow> writable om u \<Longrightarrow> lv_area u \<noteq> PA_input \<Longrightarrow> disjoint_vars v u \<Longrightarrow>
    length x = lv_byte_width v \<Longrightarrow>
    read_image_value (area_image (write_var v x om) (lv_area u)) u =
    read_image_value (area_image om (lv_area u)) u"
  by (auto simp: write_var_def writable_def area_image_def disjoint_vars_def read_write_other
      split: ProcessArea.splits)

lemma length_write_selected:
  "\<forall>v \<in> set vs. writable om v \<Longrightarrow> \<forall>v \<in> set vs. length (val v) = lv_byte_width v \<Longrightarrow>
    length (fst (write_selected P val vs om)) = length (fst om) \<and>
    length (snd (write_selected P val vs om)) = length (snd om)"
proof (induction vs arbitrary: om)
  case Nil
  then show ?case by (simp add: write_selected_def)
next
  case (Cons v vs)
  then show ?case
    using Cons.IH [of "write_var v (val v) om"] Cons.IH [of om]
    by (auto simp: write_selected_def writable_write_var length_write_var)
qed

lemma writable_cong:
  "length (fst om') = length (fst om) \<Longrightarrow> length (snd om') = length (snd om) \<Longrightarrow>
    writable om' v = writable om v"
  by (cases "lv_area v") (simp_all add: writable_def area_image_def)

text \<open>A variable apart from all the written ones keeps its value.\<close>

lemma write_selected_apart:
  assumes "\<forall>v \<in> set vs. writable om v" "\<forall>v \<in> set vs. length (val v) = lv_byte_width v"
    and "writable om u" "lv_area u \<noteq> PA_input" "\<forall>v \<in> set vs. P v \<longrightarrow> disjoint_vars v u"
  shows "read_image_value (area_image (write_selected P val vs om) (lv_area u)) u =
    read_image_value (area_image om (lv_area u)) u"
  using assms
proof (induction vs arbitrary: om)
  case Nil
  then show ?case by (simp add: write_selected_def)
next
  case (Cons v vs)
  show ?case
  proof (cases "P v")
    case True
    let ?om = "write_var v (val v) om"
    have "read_image_value (area_image (write_selected P val vs ?om) (lv_area u)) u =
        read_image_value (area_image ?om (lv_area u)) u"
      using Cons.prems by (intro Cons.IH) (auto simp: writable_write_var)
    also have "\<dots> = read_image_value (area_image om (lv_area u)) u"
      using Cons.prems True by (intro read_write_var_other) auto
    finally show ?thesis using True by (simp add: write_selected_def)
  next
    case False
    with Cons show ?thesis by (simp add: write_selected_def)
  qed
qed

text \<open>Every selected variable reads back what was stored, every other one its old value.\<close>

lemma write_selected_read:
  assumes "\<forall>v \<in> set vs. writable om v" "\<forall>v \<in> set vs. length (val v) = lv_byte_width v"
    and "separated vs" "u \<in> set vs" "lv_area u \<noteq> PA_input"
  shows "read_image_value (area_image (write_selected P val vs om) (lv_area u)) u =
    (if P u then stored_value u (val u) else read_image_value (area_image om (lv_area u)) u)"
  using assms
proof (induction vs arbitrary: om)
  case Nil
  then show ?case by simp
next
  case (Cons v vs)
  let ?om = "if P v then write_var v (val v) om else om"
  have w: "\<forall>w \<in> set vs. writable ?om w" "writable om v" "writable ?om u"
    using Cons.prems by (auto simp: writable_write_var)
  have step: "write_selected P val (v # vs) om = write_selected P val vs ?om"
    by (simp add: write_selected_def)
  show ?case
  proof (cases "u \<in> set vs")
    case True
    have rec: "read_image_value (area_image (write_selected P val vs ?om) (lv_area u)) u =
        (if P u then stored_value u (val u) else read_image_value (area_image ?om (lv_area u)) u)"
      using Cons.prems w True by (intro Cons.IH) (auto simp: separated_def)
    have "read_image_value (area_image ?om (lv_area u)) u =
        read_image_value (area_image om (lv_area u)) u"
    proof (cases "P v")
      case Pv: True
      have "lv_area v = PA_input \<or> disjoint_vars v u"
        using Cons.prems(3) True by (auto simp: separated_def)
      then show ?thesis
      proof
        assume "lv_area v = PA_input"
        then show ?thesis by (simp add: write_var_def)
      next
        assume "disjoint_vars v u"
        with Cons.prems Pv w(2) show ?thesis by (auto intro: read_write_var_other)
      qed
    qed simp
    with rec step show ?thesis by simp
  next
    case False
    with Cons.prems(4) have u: "u = v" by simp
    have "read_image_value (area_image (write_selected P val vs ?om) (lv_area u)) u =
        read_image_value (area_image ?om (lv_area u)) u"
    proof (rule write_selected_apart)
      show "\<forall>w \<in> set vs. P w \<longrightarrow> disjoint_vars w u"
        using Cons.prems(3,5) u by (auto simp: separated_def intro: disjoint_vars_sym)
    qed (use Cons.prems w in auto)
    also have "\<dots> = (if P u then stored_value u (val u)
        else read_image_value (area_image om (lv_area u)) u)"
      using Cons.prems w(2) u by (simp add: read_write_var_same)
    finally show ?thesis by (simp add: step)
  qed
qed

lemma layout_separated:
  assumes "image_layout_wf pi"
  shows "separated (pi_variables pi)"
  unfolding separated_def sorted_wrt_iff_nth_less
proof (intro allI impI)
  fix i j assume ij: "i < j" "j < length (pi_variables pi)"
    and a: "lv_area (pi_variables pi ! i) \<noteq> PA_input"
  show "disjoint_vars (pi_variables pi ! i) (pi_variables pi ! j)"
  proof (cases "lv_area (pi_variables pi ! j) = PA_input")
    case True
    with a show ?thesis by (simp add: disjoint_vars_def)
  next
    case False
    with assms ij have "disjoint_vars (pi_variables pi ! j) (pi_variables pi ! i)"
      by (simp add: image_layout_wf_def)
    then show ?thesis by (rule disjoint_vars_sym)
  qed
qed


section \<open>The representation invariant\<close>

definition batch_shape :: "LocatedVarInfo list \<Rightarrow> RestoreState list \<Rightarrow> bool" where
  "batch_shape vs es \<longleftrightarrow> length es = length vs \<and> (\<forall>i < length vs. length (re_value (es ! i)) = 8)"

definition batch_ok :: "LocatedVarInfo list \<Rightarrow> RestoreState list \<Rightarrow> bool" where
  "batch_ok vs es \<longleftrightarrow> length es = length vs \<and>
     (\<forall>i < length vs. length (re_value (es ! i)) = 8 \<and>
        (re_pending (es ! i) \<longrightarrow> lv_area (vs ! i) = PA_memory))"

definition channel_holds :: "nat \<Rightarrow> image_message channel \<Rightarrow> bool" where
  "channel_holds n c \<longleftrightarrow> channel_wf c \<and> (\<forall>m. channel_value c = Some m \<longrightarrow> length (fst m) = n)"

definition sizes_ok :: "ProcessImage \<Rightarrow> ProcessImageInfo \<Rightarrow> bool" where
  "sizes_ok im pi \<longleftrightarrow> length (im_input im) = pi_input_bytes pi \<and>
     length (im_output im) = pi_output_bytes pi \<and> length (im_memory im) = pi_memory_bytes pi \<and>
     length (im_output_shadow im) = pi_output_bytes pi \<and>
     length (im_memory_shadow im) = pi_memory_bytes pi \<and>
     length (im_current_output_dirty im) = pi_output_bytes pi \<and>
     length (im_current_memory_dirty im) = pi_memory_bytes pi \<and>
     length (im_transaction_output_dirty im) = pi_output_bytes pi \<and>
     length (im_transaction_memory_dirty im) = pi_memory_bytes pi"

definition channels_ok :: "ProcessImage \<Rightarrow> ProcessImageInfo \<Rightarrow> bool" where
  "channels_ok im pi \<longleftrightarrow> channel_holds (pi_input_bytes pi) (im_input_channel im) \<and>
     channel_holds (pi_output_bytes pi) (im_output_channel im) \<and>
     channel_value (im_output_channel im) \<noteq> None \<and>
     channel_holds (pi_memory_bytes pi) (im_memory_channel im) \<and>
     channel_value (im_memory_channel im) \<noteq> None \<and>
     channel_wf (im_restore_channel im) \<and>
     (\<forall>j < 3. batch_shape (pi_variables pi) (data_at (im_restore_channel im) j)) \<and>
     (\<forall>es. channel_value (im_restore_channel im) = Some es \<longrightarrow> batch_ok (pi_variables pi) es)"

definition forces_ok :: "ProcessImage \<Rightarrow> ProcessImageInfo \<Rightarrow> bool" where
  "forces_ok im pi \<longleftrightarrow> length (im_forces im) = length (pi_variables pi) \<and>
     (\<forall>f \<in> set (im_forces im). force_wf f) \<and>
     requested_count (im_forces im) \<le> pi_max_force_entries pi"

definition image_wf :: "ProcessImage \<Rightarrow> bool" where
  "image_wf im \<longleftrightarrow> (\<exists>p. im_program im = Some p \<and> image_layout_wf (process_image p) \<and>
     sizes_ok im (process_image p) \<and> channels_ok im (process_image p) \<and>
     forces_ok im (process_image p))"

text \<open>A layout a scan may run with: its variables lie in the images and in the variable area, and
  write to separate places (\<open>n\<close> the size of the variable area).\<close>

definition slots_apart :: "LocatedVarInfo list \<Rightarrow> bool" where
  "slots_apart vs \<longleftrightarrow> sorted_wrt (\<lambda>v u. lv_var_offset v + lv_byte_width v \<le> lv_var_offset u \<or>
     lv_var_offset u + lv_byte_width u \<le> lv_var_offset v) vs"

definition scan_layout :: "ProcessImageInfo \<Rightarrow> nat \<Rightarrow> LocatedVarInfo list \<Rightarrow> bool" where
  "scan_layout pi n vs \<longleftrightarrow>
     (\<forall>v \<in> set vs. located_in (area_bytes pi (lv_area v)) v \<and> lv_var_offset v + lv_byte_width v \<le> n) \<and>
     separated vs \<and> slots_apart vs"

lemmas image_wf_defs = image_wf_def sizes_ok_def channels_ok_def forces_ok_def channel_holds_def

lemma scan_layout_writable:
  "scan_layout pi n vs \<Longrightarrow> length out = pi_output_bytes pi \<Longrightarrow> length mem = pi_memory_bytes pi \<Longrightarrow>
    v \<in> set vs \<Longrightarrow> writable (out, mem) v"
  by (auto simp: scan_layout_def writable_def area_image_def area_bytes_def split: ProcessArea.splits)

lemma length_var_bytes: "lv_var_offset v + lv_byte_width v \<le> length vars \<Longrightarrow>
    length (var_bytes vars v) = lv_byte_width v"
  by (simp add: var_bytes_def)


section \<open>Forces at the boundary\<close>

lemma consume_force_requested:
  "consume_force f owner release = Some f' \<Longrightarrow> fo_requested_active f' = fo_requested_active f"
  by (auto simp: consume_force_def Let_def split: if_splits)

lemma consume_forces_ok:
  "\<forall>f \<in> set fs. force_wf f \<Longrightarrow> \<exists>fs'. consume_forces fs owner release = Some fs' \<and>
    length fs' = length fs \<and> (\<forall>f \<in> set fs'. force_wf f) \<and> requested_count fs' = requested_count fs \<and>
    (\<forall>i < length fs. consume_force (fs ! i) owner release = Some (fs' ! i))"
proof (induction fs)
  case Nil
  then show ?case by (simp add: requested_count_def)
next
  case (Cons f fs)
  from Cons.prems obtain f' where f': "consume_force f owner release = Some f'" "force_wf f'"
    using consume_force_ok by fastforce
  from Cons obtain fs' where fs': "consume_forces fs owner release = Some fs'" "length fs' = length fs"
    "\<forall>f \<in> set fs'. force_wf f" "requested_count fs' = requested_count fs"
    "\<forall>i < length fs. consume_force (fs ! i) owner release = Some (fs' ! i)" by auto
  show ?case
    using f' fs' consume_force_requested [OF f'(1)]
    by (intro exI [of _ "f' # fs'"]) (auto simp: requested_count_def nth_Cons split: nat.splits)
qed

lemma length_apply_entries:
  assumes "\<forall>i < length vs. re_pending (es ! i) \<longrightarrow> located_in (length mem) (vs ! i)"
    and "length es = length vs" "\<forall>i < length vs. length (re_value (es ! i)) = 8"
  shows "length (apply_entries vs es mem) = length mem"
  using assms
proof (induction vs arbitrary: es mem)
  case Nil
  then show ?case by (simp add: apply_entries_def)
next
  case (Cons v vs)
  then obtain e es' where es: "es = e # es'" by (cases es) auto
  let ?m = "if re_pending e then write_image_value mem v (take (lv_byte_width v) (re_value e)) else mem"
  have "length ?m = length mem"
  proof (cases "re_pending e")
    case True
    with Cons.prems(1) es have l: "located_in (length mem) v" by force
    moreover have "length (re_value e) = 8" using Cons.prems(3) es by force
    ultimately have "length (take (lv_byte_width v) (re_value e)) = lv_byte_width v"
      by (simp add: located_in_def)
    with l True show ?thesis by simp
  qed simp
  moreover have "length (apply_entries vs es' ?m) = length ?m"
  proof (rule Cons.IH)
    show "\<forall>i < length vs. re_pending (es' ! i) \<longrightarrow> located_in (length ?m) (vs ! i)"
      using Cons.prems(1) es \<open>length ?m = length mem\<close> by force
    show "length es' = length vs" using Cons.prems(2) es by simp
    show "\<forall>i < length vs. length (re_value (es' ! i)) = 8" using Cons.prems(3) es by force
  qed
  ultimately show ?case by (simp add: apply_entries_def es)
qed

lemma consume_channel_holds:
  "channel_holds n c \<Longrightarrow> channel_holds n (snd (consume_channel c))"
  using consume_channel_ok [of c] by (simp add: channel_holds_def)

lemma batch_applies:
  assumes "image_layout_wf pi" "batch_ok (pi_variables pi) es" "length mem = pi_memory_bytes pi"
  shows "length (apply_entries (pi_variables pi) es mem) = length mem"
proof (rule length_apply_entries)
  show "\<forall>i < length (pi_variables pi). re_pending (es ! i) \<longrightarrow>
      located_in (length mem) (pi_variables pi ! i)"
  proof (intro allI impI)
    fix i assume i: "i < length (pi_variables pi)" "re_pending (es ! i)"
    with assms(2) have "lv_area (pi_variables pi ! i) = PA_memory" by (simp add: batch_ok_def)
    moreover have "located_in (area_bytes pi (lv_area (pi_variables pi ! i))) (pi_variables pi ! i)"
      using assms(1) i(1) by (simp add: image_layout_wf_def)
    ultimately show "located_in (length mem) (pi_variables pi ! i)"
      using assms(3) by (simp add: area_bytes_def)
  qed
qed (use assms in \<open>auto simp: batch_ok_def\<close>)

lemma apply_pending_restore_wf:
  assumes wf: "image_wf im"
  shows "image_wf (apply_pending_restore im)"
proof -
  obtain p where p: "im_program im = Some p" "image_layout_wf (process_image p)"
    "sizes_ok im (process_image p)" "channels_ok im (process_image p)" "forces_ok im (process_image p)"
    using wf by (auto simp: image_wf_def)
  obtain r c where rc: "consume_channel (im_restore_channel im) = (r, c)" by fastforce
  from consume_channel_ok [of "im_restore_channel im"] p(4) rc
  have c: "r = channel_value (im_restore_channel im)" "channel_wf c" "channel_value c = None"
    by (auto simp: channels_ok_def)
  show ?thesis
  proof (cases r)
    case None
    with rc wf show ?thesis by (simp add: apply_pending_restore_def)
  next
    case (Some es)
    with c(1) p(4) have "batch_ok (located_vars p) es" by (simp add: channels_ok_def)
    with p(2,3) have l: "length (apply_entries (located_vars p) es (im_memory im)) = length (im_memory im)"
      by (intro batch_applies) (auto simp: sizes_ok_def)
    have "\<forall>j < 3. batch_shape (located_vars p) (data_at c j)"
      using p(4) data_at_consume [of "im_restore_channel im"] rc by (simp add: channels_ok_def)
    then show ?thesis
      using Some rc c p l
      by (auto simp: apply_pending_restore_def image_wf_def sizes_ok_def channels_ok_def forces_ok_def)
  qed
qed

lemma prepare_scan_boundary_ok:
  assumes wf: "image_wf im"
  shows "\<exists>im'. prepare_scan_boundary im owner release = Some im' \<and> image_wf im' \<and>
    im_program im' = im_program im \<and> im_output im' = im_output im \<and>
    im_transaction_active im' = im_transaction_active im \<and>
    im_output_channel im' = im_output_channel im \<and> im_memory_channel im' = im_memory_channel im \<and>
    im_memory im' = im_memory (apply_pending_restore im) \<and>
    (\<forall>i < length (im_forces im). consume_force (im_forces im ! i) owner release = Some (im_forces im' ! i))"
proof -
  let ?im1 = "apply_pending_restore im"
  obtain p where p: "im_program im = Some p" "forces_ok im (process_image p)"
    using wf by (auto simp: image_wf_def)
  obtain fs where fs: "consume_forces (im_forces im) owner release = Some fs"
    "length fs = length (im_forces im)" "\<forall>f \<in> set fs. force_wf f"
    "requested_count fs = requested_count (im_forces im)"
    "\<forall>i < length (im_forces im). consume_force (im_forces im ! i) owner release = Some (fs ! i)"
    using consume_forces_ok [of "im_forces im" owner release] p(2) by (auto simp: forces_ok_def)
  have same: "im_program ?im1 = im_program im" "im_output ?im1 = im_output im"
    "im_transaction_active ?im1 = im_transaction_active im" "im_forces ?im1 = im_forces im"
    "im_output_channel ?im1 = im_output_channel im" "im_memory_channel ?im1 = im_memory_channel im"
    by (auto simp: apply_pending_restore_def split: option.splits prod.splits)
  have wf1: "image_wf ?im1" by (rule apply_pending_restore_wf [OF wf])
  obtain m c where mc: "consume_channel (im_input_channel ?im1) = (m, c)" by fastforce
  have ch: "channel_holds (pi_input_bytes (process_image p)) (im_input_channel ?im1)"
    using wf1 same p by (auto simp: image_wf_def channels_ok_def)
  with consume_channel_holds [OF ch] consume_channel_ok [of "im_input_channel ?im1"] mc
  have c: "channel_holds (pi_input_bytes (process_image p)) c" "m = channel_value (im_input_channel ?im1)"
    by (auto simp: channel_holds_def)
  let ?im' = "case m of None \<Rightarrow> ?im1\<lparr> im_forces := fs \<rparr>
    | Some (data, version) \<Rightarrow> (?im1\<lparr> im_forces := fs \<rparr>)
        \<lparr> im_input := data, im_input_version := version, im_input_channel := c \<rparr>"
  have eq: "prepare_scan_boundary im owner release = Some ?im'"
    using fs(1) mc by (simp add: prepare_scan_boundary_def Let_def split: option.splits prod.splits)
  have len: "m = Some (data, version) \<Longrightarrow> length data = pi_input_bytes (process_image p)" for data version
    using c(2) ch unfolding channel_holds_def by (metis fst_conv)
  have "image_wf ?im'"
    using wf1 same p fs(2,3,4) c(1) len
    by (auto simp: image_wf_def sizes_ok_def channels_ok_def forces_ok_def split: option.splits)
  then show ?thesis
    using eq same fs(5) by (auto split: option.splits)
qed


section \<open>What a scan reads\<close>

text \<open>The value \<open>begin_scan\<close> gives a variable: the active force at its place, else the image.\<close>

definition scan_value :: "ProcessImage \<Rightarrow> LocatedVarInfo \<Rightarrow> bytes" where
  "scan_value im v = (case active_force im v of
     None \<Rightarrow> read_image_value (image_of im (lv_area v)) v
   | Some f \<Rightarrow> take (lv_byte_width v) (fo_value f))"

definition with_current :: "ProcessImage \<Rightarrow> bytes \<times> bytes \<Rightarrow> ProcessImage" where
  "with_current im d = im\<lparr> im_current_output_dirty := fst d, im_current_memory_dirty := snd d \<rparr>"

lemma blit_blit:
  "length a = length b \<Longrightarrow> off + length b \<le> length xs \<Longrightarrow> blit off a (blit off b xs) = blit off a xs"
  by (intro nth_equalityI) (auto simp: nth_blit)

lemma active_force_in:
  assumes "active_force im v = Some f" "image_wf im"
  shows "f \<in> set (im_forces im)" "length (fo_value f) = 8"
proof -
  from assms(1) obtain u where "(u, f) \<in> set (zip (image_vars im) (im_forces im))"
    by (auto simp: active_force_def find_Some_iff in_set_conv_nth) (metis length_zip nth_zip)
  then show "f \<in> set (im_forces im)" by (rule set_zip_rightD)
  with assms(2) show "length (fo_value f) = 8"
    by (auto simp: image_wf_def forces_ok_def force_wf_def)
qed

lemma length_image_of:
  "image_wf im \<Longrightarrow> im_program im = Some p \<Longrightarrow> length (image_of im a) = area_bytes (process_image p) a"
  by (cases a) (auto simp: image_wf_def sizes_ok_def image_of_def area_bytes_def)

lemma length_scan_value:
  assumes "image_wf im" "im_program im = Some p" "located_in (area_bytes (process_image p) (lv_area v)) v"
  shows "length (scan_value im v) = lv_byte_width v"
  using assms length_image_of [OF assms(1,2)] active_force_in [OF _ assms(1)] length_read_image_value
  by (auto simp: scan_value_def located_in_def split: option.splits)

lemma image_of_cong:
  "im_input a = im_input b \<Longrightarrow> im_output a = im_output b \<Longrightarrow> im_memory a = im_memory b \<Longrightarrow>
    image_of a = image_of b"
  by (rule ext) (simp add: image_of_def split: ProcessArea.split)

text \<open>The dirty masks do not matter to \<open>scan_value\<close>, and a round changes nothing else.\<close>

lemma with_current_simps [simp]:
  "scan_value (with_current im d) v = scan_value im v"
  "with_current (with_current im d) e = with_current im e"
  "active_force (with_current im d) v = active_force im v"
  "image_of (with_current im d) a = image_of im a"
proof -
  show i: "image_of (with_current im d) a = image_of im a" for a
    by (simp add: with_current_def image_of_def split: ProcessArea.split)
  show f: "active_force (with_current im d) v = active_force im v"
    by (simp add: with_current_def active_force_def)
  show "scan_value (with_current im d) v = scan_value im v" by (simp add: scan_value_def i f split: option.split)
  show "with_current (with_current im d) e = with_current im e" by (simp add: with_current_def)
qed

definition force_marks :: "ProcessImage \<Rightarrow> LocatedVarInfo \<Rightarrow> bytes \<times> bytes \<Rightarrow> bytes \<times> bytes" where
  "force_marks im v d = (if active_force im v = None then d
     else case lv_area v of PA_input \<Rightarrow> d | PA_output \<Rightarrow> (mark_bytes v (fst d), snd d)
       | PA_memory \<Rightarrow> (fst d, mark_bytes v (snd d)))"

lemma scan_var_eq:
  assumes wf: "image_wf im" "im_program im = Some p"
    and v: "located_in (area_bytes (process_image p) (lv_area v)) v"
    and off: "lv_var_offset v + lv_byte_width v \<le> length vars"
  shows "scan_var v (vars, with_current im d) =
    (blit (lv_var_offset v) (scan_value im v) vars, with_current im (force_marks im v d))"
proof (cases "active_force im v")
  case None
  then show ?thesis by (simp add: scan_var_def scan_value_def force_marks_def Let_def)
next
  case (Some f)
  have l: "length (read_image_value (image_of im (lv_area v)) v) = lv_byte_width v"
    using v length_image_of [OF wf] by (simp add: length_read_image_value)
  have lf: "length (take (lv_byte_width v) (fo_value f)) = lv_byte_width v"
    using length_scan_value [OF wf v] Some by (simp add: scan_value_def)
  have "mark_physical v False (with_current im d) = with_current im (force_marks im v d)"
    using Some by (simp add: mark_physical_def with_current_def force_marks_def split: ProcessArea.split)
  with Some l lf off show ?thesis
    by (simp add: scan_var_def scan_value_def Let_def blit_blit)
qed

lemma length_force_marks:
  "length (fst (force_marks im v d)) = length (fst d)" "length (snd (force_marks im v d)) = length (snd d)"
  by (auto simp: force_marks_def split: ProcessArea.splits)

definition put_values :: "(LocatedVarInfo \<Rightarrow> bytes) \<Rightarrow> LocatedVarInfo list \<Rightarrow> bytes \<Rightarrow> bytes" where
  "put_values val vs vars = fold (\<lambda>v. blit (lv_var_offset v) (val v)) vs vars"

lemma put_values_apart:
  assumes "\<forall>v \<in> set vs. length (val v) = lv_byte_width v \<and> lv_var_offset v + lv_byte_width v \<le> length vars"
    and "off + n \<le> length vars"
    and "\<forall>v \<in> set vs. lv_var_offset v + lv_byte_width v \<le> off \<or> off + n \<le> lv_var_offset v"
  shows "seg (put_values val vs vars) off n = seg vars off n"
  using assms
proof (induction vs arbitrary: vars)
  case Nil
  then show ?case by (simp add: put_values_def)
next
  case (Cons v vs)
  let ?vars = "blit (lv_var_offset v) (val v) vars"
  have "seg (put_values val vs ?vars) off n = seg ?vars off n"
    using Cons.prems by (intro Cons.IH) auto
  also have "\<dots> = seg vars off n"
    using Cons.prems by (intro seg_blit_other) auto
  finally show ?case by (simp add: put_values_def)
qed

lemma length_put_values:
  "\<forall>v \<in> set vs. length (val v) = lv_byte_width v \<and> lv_var_offset v + lv_byte_width v \<le> length vars \<Longrightarrow>
    length (put_values val vs vars) = length vars"
  by (induction vs arbitrary: vars) (auto simp: put_values_def)

lemma put_values_read:
  assumes "\<forall>v \<in> set vs. length (val v) = lv_byte_width v \<and> lv_var_offset v + lv_byte_width v \<le> length vars"
    and "slots_apart vs" "u \<in> set vs"
  shows "var_bytes (put_values val vs vars) u = val u"
  using assms
proof (induction vs arbitrary: vars)
  case Nil
  then show ?case by simp
next
  case (Cons v vs)
  let ?vars = "blit (lv_var_offset v) (val v) vars"
  have step: "put_values val (v # vs) vars = put_values val vs ?vars" by (simp add: put_values_def)
  show ?case
  proof (cases "u \<in> set vs")
    case True
    with Cons show ?thesis unfolding step by (intro Cons.IH) (auto simp: slots_apart_def)
  next
    case False
    with Cons.prems(3) have u: "u = v" by simp
    have "seg (put_values val vs ?vars) (lv_var_offset v) (lv_byte_width v) =
        seg ?vars (lv_var_offset v) (lv_byte_width v)"
      using Cons.prems by (intro put_values_apart) (auto simp: slots_apart_def)
    also have "\<dots> = val v" using Cons.prems by (intro seg_blit_same) auto
    finally show ?thesis by (simp add: step u var_bytes_def)
  qed
qed

lemma scan_fold_eq:
  assumes wf: "image_wf im" "im_program im = Some p"
    and vs: "\<forall>v \<in> set vs. located_in (area_bytes (process_image p) (lv_area v)) v \<and>
      lv_var_offset v + lv_byte_width v \<le> length vars"
  shows "fold scan_var vs (vars, with_current im d) =
    (put_values (scan_value im) vs vars, with_current im (fold (force_marks im) vs d))"
  using vs
proof (induction vs arbitrary: vars d)
  case Nil
  then show ?case by (simp add: put_values_def)
next
  case (Cons v vs)
  have l: "length (scan_value im v) = lv_byte_width v"
    using length_scan_value [OF wf] Cons.prems by simp
  show ?case
    using Cons.prems l
    by (simp add: scan_var_eq [OF wf] Cons.IH put_values_def)
qed

lemma length_fold_marks:
  "length (fst (fold (force_marks im) vs d)) = length (fst d)"
  "length (snd (fold (force_marks im) vs d)) = length (snd d)"
  by (induction vs arbitrary: d) (simp_all add: length_force_marks)

lemma with_current_wf:
  "image_wf im \<Longrightarrow> length (fst d) = length (im_output im) \<Longrightarrow> length (snd d) = length (im_memory im) \<Longrightarrow>
    image_wf (with_current im d)"
  by (auto simp: image_wf_def sizes_ok_def channels_ok_def forces_ok_def with_current_def)

definition zero_dirty :: "ProcessImage \<Rightarrow> bytes \<times> bytes" where
  "zero_dirty im = (map (\<lambda>_. 0) (im_current_output_dirty im), map (\<lambda>_. 0) (im_current_memory_dirty im))"

lemma clear_current_eq: "clear_current im = with_current im (zero_dirty im)"
  by (simp add: clear_current_def with_current_def zero_dirty_def)

text \<open>The scan boundary as one function: inside a transaction it has been passed already.\<close>

definition scan_boundary :: "ProcessImage \<Rightarrow> ProcessImage option" where
  "scan_boundary im = (if im_transaction_active im then Some im
     else prepare_scan_boundary im wildcard_force_owner wildcard_force_release)"

lemma scan_boundary_ok:
  assumes "image_wf im"
  shows "\<exists>im1. scan_boundary im = Some im1 \<and> image_wf im1 \<and> im_program im1 = im_program im \<and>
    im_output im1 = im_output im \<and> im_transaction_active im1 = im_transaction_active im"
  using prepare_scan_boundary_ok [OF assms, of wildcard_force_owner wildcard_force_release] assms
  by (auto simp: scan_boundary_def)

lemma begin_scan_ok:
  assumes wf: "image_wf im" and p: "im_program im = Some p"
    and lay: "scan_layout (process_image p) (length vars) (located_vars layout)"
    and im1: "scan_boundary im = Some im1"
  shows "\<exists>vars' im2. begin_scan im layout vars = Some (vars', im2) \<and> image_wf im2 \<and>
    im_program im2 = Some p \<and> image_of im2 = image_of im1 \<and>
    im_transaction_active im2 = im_transaction_active im \<and>
    vars' = put_values (scan_value im1) (located_vars layout) vars \<and>
    im2 = with_current im1 (fold (force_marks im1) (located_vars layout) (zero_dirty im1))"
proof -
  have p1: "image_wf im1" "im_program im1 = Some p"
    "im_transaction_active im1 = im_transaction_active im"
    using scan_boundary_ok [OF wf] im1 p by auto
  have vs: "\<forall>v \<in> set (located_vars layout). located_in (area_bytes (process_image p) (lv_area v)) v \<and>
      lv_var_offset v + lv_byte_width v \<le> length vars"
    using lay by (simp add: scan_layout_def)
  let ?d = "fold (force_marks im1) (located_vars layout) (zero_dirty im1)"
  have "begin_scan im layout vars =
      Some (put_values (scan_value im1) (located_vars layout) vars, with_current im1 ?d)"
    using im1 scan_fold_eq [OF p1(1,2) vs]
    by (auto simp: begin_scan_def scan_boundary_def clear_current_eq split: if_splits)
  moreover have "image_wf (with_current im1 ?d)"
    using p1(1,2) by (intro with_current_wf)
      (auto simp: length_fold_marks zero_dirty_def image_wf_def sizes_ok_def)
  moreover have "image_of (with_current im1 ?d) = image_of im1" by (rule ext) simp
  ultimately show ?thesis using p1 by (auto simp: with_current_def)
qed


section \<open>Publishing and discarding\<close>

lemma publish_holds:
  assumes "channel_holds n c" "length (fst m) = n"
  shows "\<exists>c'. publish_channel c m = Some c' \<and> channel_holds n c' \<and> channel_value c' = Some m"
  using publish_channel_ok [of c m] assms by (auto simp: channel_holds_def)

lemma publish_scan_ok:
  assumes wf: "image_wf im"
  shows "\<exists>im'. publish_scan im = Some im' \<and> image_wf im' \<and> im_program im' = im_program im \<and>
    image_of im' = image_of im \<and>
    channel_value (im_output_channel im') = Some (im_output im, im_output_version im + 1) \<and>
    channel_value (im_memory_channel im') = Some (im_memory im, im_memory_version im + 1) \<and>
    im_output_version im' = im_output_version im + 1 \<and>
    im_memory_version im' = im_memory_version im + 1 \<and>
    im_transaction_active im' = im_transaction_active im \<and> im_forces im' = im_forces im \<and>
    im_restore_channel im' = im_restore_channel im \<and> im_input_channel im' = im_input_channel im"
proof -
  obtain p where p: "im_program im = Some p" "channels_ok im (process_image p)"
    "sizes_ok im (process_image p)" using wf by (auto simp: image_wf_def)
  have h: "channel_holds (pi_output_bytes (process_image p)) (im_output_channel im)"
    "channel_holds (pi_memory_bytes (process_image p)) (im_memory_channel im)"
    "length (im_output im) = pi_output_bytes (process_image p)"
    "length (im_memory im) = pi_memory_bytes (process_image p)"
    using p(2,3) by (simp_all add: channels_ok_def sizes_ok_def)
  obtain oc where oc: "publish_channel (im_output_channel im) (im_output im, im_output_version im + 1) = Some oc"
    "channel_holds (pi_output_bytes (process_image p)) oc"
    "channel_value oc = Some (im_output im, im_output_version im + 1)"
    using publish_holds [OF h(1), of "(im_output im, im_output_version im + 1)"] h(3) by auto
  obtain mc where mc: "publish_channel (im_memory_channel im) (im_memory im, im_memory_version im + 1) = Some mc"
    "channel_holds (pi_memory_bytes (process_image p)) mc"
    "channel_value mc = Some (im_memory im, im_memory_version im + 1)"
    using publish_holds [OF h(2), of "(im_memory im, im_memory_version im + 1)"] h(4) by auto
  let ?im = "im\<lparr> im_output_version := im_output_version im + 1,
    im_memory_version := im_memory_version im + 1, im_output_channel := oc, im_memory_channel := mc \<rparr>"
  have "publish_scan im = Some ?im"
    using oc(1) mc(1) by (simp add: publish_scan_def Let_def)
  moreover have "image_wf ?im"
    using wf p oc mc by (auto simp: image_wf_def sizes_ok_def channels_ok_def forces_ok_def)
  moreover have "image_of ?im = image_of im" by (rule image_of_cong) simp_all
  ultimately show ?thesis using oc(3) mc(3) by simp
qed

lemma snapshot_holds:
  assumes "channel_holds n c" "channel_value c = Some m" "n \<le> capacity"
  shows "\<exists>c'. snapshot_channel c n True capacity = Some (Inr (m, c')) \<and> channel_holds n c' \<and>
    channel_value c' = Some m"
  using snapshot_slot_ok [of c m] assms by (auto simp: snapshot_channel_def channel_holds_def)

text \<open>A discard returns both images to what was last published; nothing of the scan is left.\<close>

lemma discard_scan_ok:
  assumes wf: "image_wf im"
    and out: "channel_value (im_output_channel im) = Some (out, ov)"
    and mem: "channel_value (im_memory_channel im) = Some (mem, mv)"
  shows "\<exists>im'. discard_scan im = Some im' \<and> image_wf im' \<and> im_program im' = im_program im \<and>
    im_output im' = out \<and> im_memory im' = mem \<and> im_output_version im' = ov \<and> im_memory_version im' = mv \<and>
    \<not> im_transaction_active im' \<and> im_input im' = im_input im \<and> im_forces im' = im_forces im \<and>
    channel_value (im_output_channel im') = Some (out, ov) \<and>
    channel_value (im_memory_channel im') = Some (mem, mv) \<and>
    im_restore_channel im' = im_restore_channel im \<and> im_input_channel im' = im_input_channel im"
proof -
  obtain p where p: "im_program im = Some p" "channels_ok im (process_image p)"
    "sizes_ok im (process_image p)" using wf by (auto simp: image_wf_def)
  obtain oc where oc: "snapshot_channel (im_output_channel im) (pi_output_bytes (process_image p)) True
      (pi_output_bytes (process_image p)) = Some (Inr ((out, ov), oc))"
    "channel_holds (pi_output_bytes (process_image p)) oc" "channel_value oc = Some (out, ov)"
    using snapshot_holds [OF _ out] p(2) by (force simp: channels_ok_def)
  obtain mc where mc: "snapshot_channel (im_memory_channel im) (pi_memory_bytes (process_image p)) True
      (pi_memory_bytes (process_image p)) = Some (Inr ((mem, mv), mc))"
    "channel_holds (pi_memory_bytes (process_image p)) mc" "channel_value mc = Some (mem, mv)"
    using snapshot_holds [OF _ mem] p(2) by (force simp: channels_ok_def)
  have lens: "length out = pi_output_bytes (process_image p)" "length mem = pi_memory_bytes (process_image p)"
    using oc(2,3) mc(2,3) by (auto simp: channel_holds_def)
  let ?im = "im\<lparr> im_output_shadow := out, im_output := out, im_output_version := ov,
    im_output_channel := oc, im_memory_shadow := mem, im_memory := mem, im_memory_version := mv,
    im_memory_channel := mc, im_transaction_active := False \<rparr>"
  have "discard_scan im = Some ?im"
    using oc(1) mc(1) p(3) by (simp add: discard_scan_def Let_def sizes_ok_def)
  moreover have "image_wf ?im"
    using wf p oc mc lens by (auto simp: image_wf_def sizes_ok_def channels_ok_def forces_ok_def)
  ultimately show ?thesis using oc(3) mc(3) by simp
qed

lemma image_wf_published:
  assumes "image_wf im"
  obtains out ov mem mv where "channel_value (im_output_channel im) = Some (out, ov)"
    "channel_value (im_memory_channel im) = Some (mem, mv)"
  using assms by (auto simp: image_wf_def channels_ok_def)


section \<open>What a commit writes\<close>

definition commits :: "ProcessImage \<Rightarrow> LocatedVarInfo \<Rightarrow> bool" where
  "commits im v \<longleftrightarrow> lv_area v \<noteq> PA_input \<and> (im_transaction_active im \<longrightarrow> current_dirty im v)"

lemma commit_vars_eq: "commit_vars im vs vars om = write_selected (commits im) (var_bytes vars) vs om"
proof -
  have "(\<lambda>v. if lv_area v = PA_input \<or> (im_transaction_active im \<and> \<not> current_dirty im v) then id
      else write_var v (var_bytes vars v)) = (\<lambda>v. if commits im v then write_var v (var_bytes vars v) else id)"
    by (rule ext) (auto simp: commits_def)
  then show ?thesis by (simp add: commit_vars_def write_selected_def)
qed

lemma commit_scan_ok:
  assumes wf: "image_wf im" and p: "im_program im = Some p"
    and lay: "scan_layout (process_image p) (length vars) (located_vars layout)"
  shows "\<exists>im'. commit_scan im layout vars publish = Some im' \<and> image_wf im' \<and>
    im_program im' = Some p \<and> im_transaction_active im' = im_transaction_active im \<and>
    (im_output im', im_memory im') =
      write_selected (commits im) (var_bytes vars) (located_vars layout) (im_output im, im_memory im) \<and>
    (publish \<longrightarrow> channel_value (im_output_channel im') = Some (im_output im', im_output_version im + 1) \<and>
      channel_value (im_memory_channel im') = Some (im_memory im', im_memory_version im + 1)) \<and>
    (\<not> publish \<longrightarrow> im_output_channel im' = im_output_channel im \<and> im_memory_channel im' = im_memory_channel im)"
proof -
  let ?om = "write_selected (commits im) (var_bytes vars) (located_vars layout) (im_output im, im_memory im)"
  have sz: "length (im_output im) = pi_output_bytes (process_image p)"
    "length (im_memory im) = pi_memory_bytes (process_image p)"
    using wf p by (auto simp: image_wf_def sizes_ok_def)
  have "\<forall>v \<in> set (located_vars layout). writable (im_output im, im_memory im) v"
    using scan_layout_writable [OF lay sz] by blast
  moreover have "\<forall>v \<in> set (located_vars layout). length (var_bytes vars v) = lv_byte_width v"
    using lay by (auto simp: scan_layout_def length_var_bytes)
  ultimately have len: "length (fst ?om) = length (im_output im)" "length (snd ?om) = length (im_memory im)"
    using length_write_selected by fastforce+
  let ?im = "im\<lparr> im_output_shadow := fst ?om, im_memory_shadow := snd ?om, im_output := fst ?om,
    im_memory := snd ?om \<rparr>"
  have wf1: "image_wf ?im"
    using wf len p sz by (auto simp: image_wf_def sizes_ok_def channels_ok_def forces_ok_def)
  have eq: "commit_scan im layout vars publish = (if publish then publish_scan ?im else Some ?im)"
    by (simp add: commit_scan_def commit_vars_eq split: prod.splits)
  show ?thesis
  proof (cases publish)
    case True
    obtain im' where im': "publish_scan ?im = Some im'" "image_wf im'" "im_program im' = im_program ?im"
      "image_of im' = image_of ?im" "im_transaction_active im' = im_transaction_active ?im"
      "channel_value (im_output_channel im') = Some (im_output ?im, im_output_version ?im + 1)"
      "channel_value (im_memory_channel im') = Some (im_memory ?im, im_memory_version ?im + 1)"
      using publish_scan_ok [OF wf1] by blast
    from im'(4) have "image_of im' PA_output = fst ?om" "image_of im' PA_memory = snd ?om"
      by (simp_all add: image_of_def)
    then have "im_output im' = fst ?om" "im_memory im' = snd ?om" by (simp_all add: image_of_def)
    with im' True eq p show ?thesis by simp
  next
    case False
    with eq wf1 p show ?thesis by simp
  qed
qed

lemma begin_scan_values:
  assumes wf: "image_wf im" and p: "im_program im = Some p"
    and lay: "scan_layout (process_image p) (length vars) (located_vars layout)"
    and im1: "scan_boundary im = Some im1"
  shows "\<exists>vars' im2. begin_scan im layout vars = Some (vars', im2) \<and> image_wf im2 \<and>
    image_of im2 = image_of im1 \<and> length vars' = length vars \<and>
    (\<forall>v \<in> set (located_vars layout). var_bytes vars' v = scan_value im1 v) \<and>
    (\<forall>off n. off + n \<le> length vars \<longrightarrow>
      (\<forall>v \<in> set (located_vars layout). lv_var_offset v + lv_byte_width v \<le> off \<or> off + n \<le> lv_var_offset v) \<longrightarrow>
      seg vars' off n = seg vars off n)"
proof -
  have im1': "image_wf im1" "im_program im1 = Some p" using scan_boundary_ok [OF wf] im1 p by auto
  have fits: "\<forall>v \<in> set (located_vars layout). length (scan_value im1 v) = lv_byte_width v \<and>
      lv_var_offset v + lv_byte_width v \<le> length vars"
    using lay length_scan_value [OF im1'] by (simp add: scan_layout_def)
  have apart: "slots_apart (located_vars layout)" using lay by (simp add: scan_layout_def)
  show ?thesis
    using begin_scan_ok [OF assms] length_put_values [OF fits] put_values_read [OF fits apart]
      put_values_apart [OF fits] by blast
qed

end
