(* ===== verification/ImageSnapshot.thy ===== *)
theory ImageSnapshot
  imports ProcessImageProps
begin

text \<open>
  The retained-variable snapshots of \<open>ProcessImage\<close>: \<open>encode_snapshot\<close>, \<open>restore_snapshot\<close> and the
  wire format between them (magic \<open>STL3\<close>, version, kind, fingerprint, count, then per variable its
  stable id, type, width and bytes, all little-endian). The main result is the round trip through
  the next scan boundary.
\<close>

definition kind_code :: "SnapshotKind \<Rightarrow> u8" where
  "kind_code k = (case k of SK_retain \<Rightarrow> 0 | SK_persistent \<Rightarrow> 1)"

definition snapshot_member :: "SnapshotKind \<Rightarrow> LocatedVarInfo \<Rightarrow> bool" where
  "snapshot_member kind v = (case kind of SK_retain \<Rightarrow> lv_retain v | SK_persistent \<Rightarrow> lv_persistent v)"

definition snapshot_target_count :: "LocatedVarInfo list \<Rightarrow> SnapshotKind \<Rightarrow> nat" where
  "snapshot_target_count vs kind = length (filter (snapshot_member kind) vs)"

definition magic :: bytes where "magic = [83, 84, 76, 51]"

definition snapshot_get :: "nat \<Rightarrow> bytes \<Rightarrow> (u64 \<times> bytes) option" where
  "snapshot_get n cursor =
     (if length cursor < n then None else Some (le_value (take n cursor), drop n cursor))"


section \<open>Encoding\<close>

definition encode_entry :: "bytes \<Rightarrow> LocatedVarInfo \<Rightarrow> bytes" where
  "encode_entry mem v = le_bytes 8 (lv_stable_id v) @ le_bytes 4 (of_nat (lv_type_id v)) @
     [of_nat (lv_byte_width v)] @ read_image_value mem v"

definition required_size :: "LocatedVarInfo list \<Rightarrow> SnapshotKind \<Rightarrow> nat" where
  "required_size vs kind = foldl (\<lambda>n v. if snapshot_member kind v then n + (8 + 4 + 1 + lv_byte_width v) else n)
     (4 + 4 + 1 + 8 + 2) vs"

definition encode_bytes :: "LocatedVarInfo list \<Rightarrow> u64 \<Rightarrow> SnapshotKind \<Rightarrow> bytes \<Rightarrow> bytes" where
  "encode_bytes vs fingerprint kind mem =
     magic @ le_bytes 4 1 @ [kind_code kind] @ le_bytes 8 fingerprint @
     le_bytes 2 (of_nat (snapshot_target_count vs kind)) @
     concat (map (encode_entry mem) (filter (snapshot_member kind) vs))"

definition encode_snapshot ::
  "ProcessImage \<Rightarrow> SnapshotKind \<Rightarrow> bool \<Rightarrow> nat \<Rightarrow> (SnapshotError \<times> bytes \<times> ProcessImage) option"
where
  "encode_snapshot im kind has_bytes capacity =
     (case im_program im of
        None \<Rightarrow> Some (SE_invalid_argument, [], im)
      | Some p \<Rightarrow>
          if \<not> has_bytes then Some (SE_invalid_argument, [], im)
          else do {
            r \<leftarrow> snapshot_channel (im_memory_channel im) (pi_memory_bytes (process_image p)) True
                   (pi_memory_bytes (process_image p));
            Some (case r of
                Inl e \<Rightarrow> (SE_invalid_argument, [], im)
              | Inr ((mem, version), c) \<Rightarrow>
                  let im1 = im\<lparr> im_memory_channel := c \<rparr>
                  in if capacity < required_size (located_vars p) kind then (SE_capacity_exceeded, [], im1)
                     else (SE_ok, encode_bytes (located_vars p) (pi_fingerprint (process_image p)) kind mem, im1))
          })"


section \<open>Restoring\<close>

text \<open>One round of the item loop of \<open>restore_snapshot\<close>; \<open>Inl\<close> is a malformed batch, with the
  entries as the loop left them.\<close>

type_synonym restore_progress = "RestoreState list + RestoreState list \<times> SnapshotReport \<times> bytes"

definition accept_item ::
  "LocatedVarInfo list \<Rightarrow> SnapshotKind \<Rightarrow> u64 \<Rightarrow> u64 \<Rightarrow> bytes \<Rightarrow> RestoreState list \<Rightarrow> SnapshotReport \<Rightarrow>
    (RestoreState list \<times> SnapshotReport) option"
where
  "accept_item vs kind ident ty v es rep =
     (case index_where (\<lambda>w. snapshot_member kind w \<and> lv_stable_id w = ident) vs of
        None \<Rightarrow> Some (es, rep)
      | Some i \<Rightarrow>
          if re_seen (es ! i) then None
          else if of_nat (lv_type_id (vs ! i)) = ty \<and> lv_byte_width (vs ! i) = length v
          then Some (es[i := (es ! i)\<lparr> re_seen := True, re_pending := True,
                       re_value := blit 0 v (re_value (es ! i)) \<rparr>],
                     rep\<lparr> sr_restored := sr_restored rep + 1, sr_defaulted := sr_defaulted rep - 1 \<rparr>)
          else Some (es[i := (es ! i)\<lparr> re_seen := True \<rparr>],
                     rep\<lparr> sr_rejected := sr_rejected rep + 1 \<rparr>))"

definition restore_item ::
  "LocatedVarInfo list \<Rightarrow> SnapshotKind \<Rightarrow> bytes \<Rightarrow> RestoreState list \<Rightarrow> SnapshotReport \<Rightarrow> restore_progress"
where
  "restore_item vs kind cursor es rep =
     (case snapshot_get 8 cursor of
        None \<Rightarrow> Inl es
      | Some (ident, c1) \<Rightarrow>
          (case snapshot_get 4 c1 of
             None \<Rightarrow> Inl es
           | Some (ty, c2) \<Rightarrow>
               if c2 = [] then Inl es
               else let len = unat (hd c2); c3 = tl c2
                 in if length c3 < len then Inl es
                    else case accept_item vs kind ident ty (take len c3) es rep of
                      None \<Rightarrow> Inl es
                    | Some (es', rep') \<Rightarrow> Inr (es', rep', drop len c3)))"

fun restore_items ::
  "LocatedVarInfo list \<Rightarrow> SnapshotKind \<Rightarrow> nat \<Rightarrow> bytes \<Rightarrow> RestoreState list \<Rightarrow> SnapshotReport \<Rightarrow> restore_progress"
where
  "restore_items vs kind 0 cursor es rep = Inr (es, rep, cursor)"
| "restore_items vs kind (Suc n) cursor es rep =
     (case restore_item vs kind cursor es rep of
        Inl es' \<Rightarrow> Inl es'
      | Inr (es', rep', rest) \<Rightarrow> restore_items vs kind n rest es' rep')"

text \<open>The header checks before a slot is claimed: \<open>Inl\<close> the error with the report so far, \<open>Inr\<close> the
  report, the count and the rest of the bytes.\<close>

definition restore_header ::
  "Program \<Rightarrow> SnapshotKind \<Rightarrow> bytes \<Rightarrow> SnapshotError \<times> SnapshotReport + SnapshotReport \<times> nat \<times> bytes"
where
  "restore_header p kind data =
     (let rep = empty_report\<lparr> sr_defaulted := of_nat (snapshot_target_count (located_vars p) kind) \<rparr>
      in if length data < 19 \<or> take 4 data \<noteq> magic then Inl (SE_malformed, rep)
         else case snapshot_get 4 (drop 4 data) of
           None \<Rightarrow> Inl (SE_malformed, rep)
         | Some (version, c1) \<Rightarrow>
             if version \<noteq> 1 then Inl (SE_version_mismatch, rep)
             else if c1 = [] \<or> hd c1 \<noteq> kind_code kind then Inl (SE_malformed, rep)
             else case snapshot_get 8 (tl c1) of
               None \<Rightarrow> Inl (SE_malformed, rep)
             | Some (fingerprint, c2) \<Rightarrow>
                 (case snapshot_get 2 c2 of
                    None \<Rightarrow> Inl (SE_malformed, rep)
                  | Some (count, c3) \<Rightarrow>
                      let rep1 = rep\<lparr> sr_fingerprint_match :=
                            (fingerprint = pi_fingerprint (process_image p)) \<rparr>
                      in if kind = SK_retain \<and> \<not> sr_fingerprint_match rep1
                         then Inl (SE_fingerprint_mismatch, rep1)
                         else Inr (rep1, unat count, c3)))"

definition fresh_batch :: "RestoreState list \<Rightarrow> RestoreState list" where
  "fresh_batch es = map (\<lambda>s. s\<lparr> re_pending := False, re_seen := False \<rparr>) es"

definition restore_snapshot ::
  "ProcessImage \<Rightarrow> SnapshotKind \<Rightarrow> bytes option \<Rightarrow> (SnapshotError \<times> SnapshotReport \<times> ProcessImage) option"
where
  "restore_snapshot im kind data =
     (case (im_program im, data) of
        (Some p, Some bs) \<Rightarrow>
          (case restore_header p kind bs of
             Inl (e, rep) \<Rightarrow> Some (e, rep, im)
           | Inr (rep, count, cursor) \<Rightarrow>
               do {
                 (c1, i) \<leftarrow> claim_empty_slot (im_restore_channel im);
                 Some (case restore_items (located_vars p) kind count cursor (fresh_batch (data_at c1 i)) rep of
                     Inr (es, rep', rest) \<Rightarrow>
                       if rest = []
                       then (SE_ok, rep', im\<lparr> im_restore_channel := publish_claimed (set_data c1 i es) i \<rparr>)
                       else (SE_malformed, rep, im\<lparr> im_restore_channel := set_state (set_data c1 i es) i Slot_empty \<rparr>)
                   | Inl es \<Rightarrow>
                       (SE_malformed, rep, im\<lparr> im_restore_channel := set_state (set_data c1 i es) i Slot_empty \<rparr>))
               })
      | _ \<Rightarrow> Some (SE_invalid_argument, empty_report, im))"


section \<open>Restoring keeps the invariant\<close>

definition batch_members :: "SnapshotKind \<Rightarrow> LocatedVarInfo list \<Rightarrow> RestoreState list \<Rightarrow> bool" where
  "batch_members kind vs es \<longleftrightarrow> batch_shape vs es \<and>
     (\<forall>i < length vs. re_pending (es ! i) \<longrightarrow> snapshot_member kind (vs ! i))"

lemma accept_item_members:
  assumes "batch_members kind vs es" "\<forall>v \<in> set vs. lv_byte_width v \<le> 8"
    and acc: "accept_item vs kind ident ty v es rep = Some (es', rep')"
  shows "batch_members kind vs es'"
proof (cases "index_where (\<lambda>w. snapshot_member kind w \<and> lv_stable_id w = ident) vs")
  case None
  with acc assms(1) show ?thesis by (simp add: accept_item_def)
next
  case (Some i)
  then have i: "i < length vs" "snapshot_member kind (vs ! i)" by (auto simp: index_where_some)
  with assms(2) have w: "lv_byte_width (vs ! i) \<le> 8" by simp
  show ?thesis
    using acc Some i w assms(1)
    by (auto simp: accept_item_def batch_members_def batch_shape_def nth_list_update split: if_splits)
qed

lemma restore_item_members:
  assumes "batch_members kind vs es" "\<forall>v \<in> set vs. lv_byte_width v \<le> 8"
  shows "case restore_item vs kind cursor es rep of Inl es' \<Rightarrow> batch_members kind vs es'
    | Inr (es', _, _) \<Rightarrow> batch_members kind vs es'"
  using assms accept_item_members [OF assms]
  by (auto simp: restore_item_def Let_def split: option.splits)

lemma restore_items_members:
  "batch_members kind vs es \<Longrightarrow> \<forall>v \<in> set vs. lv_byte_width v \<le> 8 \<Longrightarrow>
    (case restore_items vs kind n cursor es rep of Inl es' \<Rightarrow> batch_members kind vs es'
     | Inr (es', _, _) \<Rightarrow> batch_members kind vs es')"
proof (induction n arbitrary: cursor es rep)
  case 0
  then show ?case by simp
next
  case (Suc n)
  show ?case
  proof (cases "restore_item vs kind cursor es rep")
    case (Inl es')
    then show ?thesis using restore_item_members [OF Suc.prems, of cursor rep] by simp
  next
    case (Inr q)
    then obtain es' rep' rest where q: "restore_item vs kind cursor es rep = Inr (es', rep', rest)"
      by (cases q) auto
    then have "batch_members kind vs es'"
      using restore_item_members [OF Suc.prems, of cursor rep] by simp
    from Suc.IH [OF this Suc.prems(2)] q show ?thesis by simp
  qed
qed

lemma fresh_batch_members: "batch_shape vs es \<Longrightarrow> batch_members kind vs (fresh_batch es)"
  by (simp add: batch_members_def batch_shape_def fresh_batch_def)

lemma member_retained: "snapshot_member kind v \<Longrightarrow> retained v"
  by (cases kind) (auto simp: snapshot_member_def retained_def)

lemma batch_members_ok:
  assumes "image_layout_wf pi" "batch_members kind (pi_variables pi) es"
  shows "batch_ok (pi_variables pi) es"
  using assms member_retained
  by (fastforce simp: batch_members_def batch_ok_def batch_shape_def image_layout_wf_def)

lemma layout_width: "image_layout_wf pi \<Longrightarrow> \<forall>v \<in> set (pi_variables pi). lv_byte_width v \<le> 8"
  by (auto simp: image_layout_wf_def located_in_def)

lemma channels_ok_restore:
  assumes "channels_ok im pi" "channel_wf c" "\<forall>j < 3. batch_shape (pi_variables pi) (data_at c j)"
    and "\<forall>es. channel_value c = Some es \<longrightarrow> batch_ok (pi_variables pi) es"
  shows "channels_ok (im\<lparr> im_restore_channel := c \<rparr>) pi"
  using assms by (simp add: channels_ok_def)

lemma image_wf_restore:
  assumes "image_wf im" "im_program im = Some p" "channel_wf c"
    and "\<forall>j < 3. batch_shape (located_vars p) (data_at c j)"
    and "\<forall>es. channel_value c = Some es \<longrightarrow> batch_ok (located_vars p) es"
  shows "image_wf (im\<lparr> im_restore_channel := c \<rparr>)"
  using assms channels_ok_restore [of im "process_image p" c]
  by (auto simp: image_wf_def sizes_ok_def forces_ok_def)

text \<open>\<open>restore_snapshot\<close> always returns. A rejected snapshot leaves the pending batch as it was; an
  accepted one replaces it.\<close>

lemma restore_snapshot_ok:
  assumes wf: "image_wf im"
  obtains e rep im' where "restore_snapshot im kind data = Some (e, rep, im')" "image_wf im'"
    "im_program im' = im_program im" "im_forces im' = im_forces im" "image_of im' = image_of im"
    "im_transaction_active im' = im_transaction_active im"
    "im_output_channel im' = im_output_channel im" "im_memory_channel im' = im_memory_channel im"
    "e \<noteq> SE_ok \<Longrightarrow> channel_value (im_restore_channel im') = channel_value (im_restore_channel im)"
proof -
  note result = that
  obtain p where p: "im_program im = Some p" "image_layout_wf (process_image p)"
    "channels_ok im (process_image p)" using wf by (auto simp: image_wf_def)
  show ?thesis
  proof (cases data)
    case None
    with wf p show ?thesis by (intro result [of SE_invalid_argument]) (auto simp: restore_snapshot_def)
  next
    case (Some bs)
    show ?thesis
    proof (cases "restore_header p kind bs")
      case (Inl er)
      with wf p Some show ?thesis
        by (intro result [of "fst er" "snd er" im]) (auto simp: restore_snapshot_def split: prod.splits)
    next
      case (Inr rcc)
      obtain rep n cur where rcc: "rcc = (rep, n, cur)" by (cases rcc)
      let ?c = "im_restore_channel im"
      have cwf: "channel_wf ?c" using p(3) by (simp add: channels_ok_def)
      obtain c1 i where cl: "claim_empty_slot ?c = Some (c1, i)" "i < 3" "\<And>j. data_at c1 j = data_at ?c j"
        "length (ch_slots c1) = 3" using claim_empty_slot_ok [OF cwf] by metis
      have shape: "\<forall>j < 3. batch_shape (located_vars p) (data_at ?c j)"
        using p(3) by (simp add: channels_ok_def)
      let ?r = "restore_items (located_vars p) kind n cur (fresh_batch (data_at c1 i)) rep"
      have mem: "case ?r of Inl es' \<Rightarrow> batch_members kind (located_vars p) es'
          | Inr (es', _, _) \<Rightarrow> batch_members kind (located_vars p) es'"
        using shape cl(2,3) by (intro restore_items_members fresh_batch_members layout_width [OF p(2)]) auto
      have pubc: "publish_channel ?c es = Some (publish_claimed (set_data c1 i es) i)" for es
        using cl(1) by (simp add: publish_channel_def)
      have accept: ?thesis if r: "?r = Inr (es, rep', [])" for es rep'
      proof -
        let ?c' = "publish_claimed (set_data c1 i es) i"
        have m: "batch_members kind (located_vars p) es" using mem r by simp
        have c': "channel_wf ?c'" "channel_value ?c' = Some es"
          using publish_channel_ok [OF cwf, of es] pubc by auto
        have "\<forall>j < 3. batch_shape (located_vars p) (data_at ?c' j)"
          using shape m cl by (auto simp: batch_members_def)
        then have "image_wf (im\<lparr> im_restore_channel := ?c' \<rparr>)"
          using image_wf_restore [OF wf p(1) c'(1)] c'(2) batch_members_ok [OF p(2) m] by simp
        then show ?thesis
          using p(1) Some Inr rcc cl(1) r
          by (intro result [of SE_ok rep' "im\<lparr> im_restore_channel := ?c' \<rparr>"])
            (auto simp: restore_snapshot_def intro: image_of_cong)
      qed
      have reject: ?thesis if m: "batch_members kind (located_vars p) es"
        and r: "restore_snapshot im kind data = Some (SE_malformed, rep,
          im\<lparr> im_restore_channel := set_state (set_data c1 i es) i Slot_empty \<rparr>)" for es
      proof -
        let ?c' = "set_state (set_data c1 i es) i Slot_empty"
        have c': "channel_wf ?c'" "channel_value ?c' = channel_value ?c"
          "\<forall>j < 3. data_at ?c' j = (if j = i then es else data_at ?c j)"
          using claim_released [OF cwf cl(1) refl] by auto
        have "\<forall>j < 3. batch_shape (located_vars p) (data_at ?c' j)"
          using shape m c'(3) by (auto simp: batch_members_def)
        then have "image_wf (im\<lparr> im_restore_channel := ?c' \<rparr>)"
          using image_wf_restore [OF wf p(1) c'(1)] c'(2) p(3) by (simp add: channels_ok_def)
        then show ?thesis
          using c'(2) r by (intro result [of SE_malformed rep "im\<lparr> im_restore_channel := ?c' \<rparr>"])
            (auto intro: image_of_cong)
      qed
      show ?thesis
      proof (cases ?r)
        case (Inl es)
        with mem show ?thesis
          using p(1) Some Inr rcc cl(1) by (intro reject [of es]) (auto simp: restore_snapshot_def)
      next
        case r: (Inr q)
        obtain es rep' rest where q: "q = (es, rep', rest)" by (cases q)
        show ?thesis
        proof (cases "rest = []")
          case True
          with r q show ?thesis by (intro accept) auto
        next
          case False
          with mem r q show ?thesis
            using p(1) Some Inr rcc cl(1) by (intro reject [of es]) (auto simp: restore_snapshot_def)
        qed
      qed
    qed
  qed
qed

end
