(* ===== verification/ImageRoundTrip.thy ===== *)
theory ImageRoundTrip
  imports ImageSnapshot
begin

text \<open>
  The round trip of the retained variables: a snapshot written by \<open>encode_snapshot\<close> is accepted by
  \<open>restore_snapshot\<close> of the same program, and the next scan boundary puts every variable of its
  kind back to the value it had in the published memory image.
\<close>

section \<open>A batch in the memory image\<close>

lemma stored_value_read: "stored_value v (read_image_value img v) = read_image_value img v"
proof (cases "lv_bit_address v")
  case True
  have "drop_bit b (x :: u8) AND 1 = 0 \<or> drop_bit b x AND 1 = 1" for b x
    by (simp add: and_one_eq mod_2_eq_odd)
  with True show ?thesis by (auto simp: stored_value_def read_image_value_def)
qed (simp add: stored_value_def read_image_value_def seg_def)

definition batch_fits :: "LocatedVarInfo list \<Rightarrow> RestoreState list \<Rightarrow> nat \<Rightarrow> bool" where
  "batch_fits vs es n \<longleftrightarrow> length es = length vs \<and> (\<forall>(v, e) \<in> set (zip vs es). re_pending e \<longrightarrow>
     lv_area v = PA_memory \<and> located_in n v \<and> length (re_value e) = 8)"

definition apply_entry :: "LocatedVarInfo \<Rightarrow> RestoreState \<Rightarrow> bytes \<Rightarrow> bytes" where
  "apply_entry v e m =
     (if re_pending e then write_image_value m v (take (lv_byte_width v) (re_value e)) else m)"

lemma apply_entries_simps [simp]:
  "apply_entries [] es mem = mem"
  "apply_entries (v # vs) (e # es) mem = apply_entries vs es (apply_entry v e mem)"
  by (simp_all add: apply_entries_def apply_entry_def)

lemma batch_fits_simps [simp]:
  "batch_fits [] es n \<longleftrightarrow> es = []"
  "batch_fits (v # vs) (e # es) n \<longleftrightarrow> (re_pending e \<longrightarrow> lv_area v = PA_memory \<and> located_in n v \<and>
     length (re_value e) = 8) \<and> batch_fits vs es n"
  by (auto simp: batch_fits_def)

lemma length_apply_entry:
  "batch_fits (v # vs) (e # es) (length mem) \<Longrightarrow> length (apply_entry v e mem) = length mem"
  by (auto simp: apply_entry_def located_in_def intro!: length_write_image_value)

lemma apply_entry_other:
  assumes "batch_fits (v # vs) (e # es) (length mem)" "located_in (length mem) u" "lv_area u = PA_memory"
    and "re_pending e \<longrightarrow> disjoint_vars v u"
  shows "read_image_value (apply_entry v e mem) u = read_image_value mem u"
  using assms
  by (auto simp: apply_entry_def disjoint_vars_def located_in_def intro!: read_write_other)

lemma apply_entries_other:
  assumes "batch_fits vs es (length mem)" "located_in (length mem) u" "lv_area u = PA_memory"
    and "\<forall>v \<in> set vs. lv_area v = PA_memory \<longrightarrow> disjoint_vars v u"
  shows "read_image_value (apply_entries vs es mem) u = read_image_value mem u"
  using assms
proof (induction vs arbitrary: es mem)
  case Nil
  then show ?case by simp
next
  case (Cons v vs)
  then obtain e es' where es: "es = e # es'" by (cases es) (auto simp: batch_fits_def)
  note len = length_apply_entry [OF Cons.prems(1) [unfolded es]]
  have "read_image_value (apply_entries vs es' (apply_entry v e mem)) u =
      read_image_value (apply_entry v e mem) u"
    using Cons.prems es len by (intro Cons.IH) auto
  also have "\<dots> = read_image_value mem u"
    using Cons.prems es by (intro apply_entry_other) auto
  finally show ?case by (simp add: es)
qed

lemma apply_entries_read:
  assumes "batch_fits vs es (length mem)" "separated vs" "i < length vs"
    and "located_in (length mem) (vs ! i)" "lv_area (vs ! i) = PA_memory"
  shows "read_image_value (apply_entries vs es mem) (vs ! i) =
    (if re_pending (es ! i) then stored_value (vs ! i) (take (lv_byte_width (vs ! i)) (re_value (es ! i)))
     else read_image_value mem (vs ! i))"
  using assms
proof (induction vs arbitrary: es mem i)
  case Nil
  then show ?case by simp
next
  case (Cons v vs)
  then obtain e es' where es: "es = e # es'" by (cases es) (auto simp: batch_fits_def)
  note len = length_apply_entry [OF Cons.prems(1) [unfolded es]]
  show ?case
  proof (cases i)
    case 0
    have "read_image_value (apply_entries vs es' (apply_entry v e mem)) v =
        read_image_value (apply_entry v e mem) v"
      using Cons.prems es len 0
      by (intro apply_entries_other) (auto simp: separated_def intro: disjoint_vars_sym)
    also have "\<dots> = (if re_pending e then stored_value v (take (lv_byte_width v) (re_value e))
        else read_image_value mem v)"
      using Cons.prems es 0 by (auto simp: apply_entry_def located_in_def intro!: read_write_same)
    finally show ?thesis by (simp add: es 0)
  next
    case (Suc k)
    have "read_image_value (apply_entry v e mem) (vs ! k) = read_image_value mem (vs ! k)"
      using Cons.prems es Suc by (intro apply_entry_other) (auto simp: separated_def)
    moreover have "read_image_value (apply_entries vs es' (apply_entry v e mem)) (vs ! k) =
      (if re_pending (es' ! k) then stored_value (vs ! k) (take (lv_byte_width (vs ! k)) (re_value (es' ! k)))
       else read_image_value (apply_entry v e mem) (vs ! k))"
      using Cons.prems es Suc len by (intro Cons.IH) (auto simp: separated_def)
    ultimately show ?thesis by (simp add: es Suc)
  qed
qed


section \<open>Parsing what was written\<close>

definition snapshot_format :: "LocatedVarInfo list \<Rightarrow> SnapshotKind \<Rightarrow> bool" where
  "snapshot_format vs kind \<longleftrightarrow> distinct (map lv_stable_id (filter (snapshot_member kind) vs)) \<and>
     snapshot_target_count vs kind < 65536 \<and> (\<forall>v \<in> set vs. lv_type_id v < 4294967296)"

lemma snapshot_get_append: "length a = n \<Longrightarrow> snapshot_get n (a @ b) = Some (le_value a, b)"
  by (simp add: snapshot_get_def)

lemma le_value_le_bytes_small:
  "k < 2 ^ (8 * n) \<Longrightarrow> n \<le> 8 \<Longrightarrow> le_value (le_bytes n (of_nat k)) = (of_nat k :: u64)"
  by (simp add: le_value_le_bytes take_bit_of_nat take_bit_nat_eq_self)

text \<open>One accepted item.\<close>

definition accepted :: "bytes \<Rightarrow> LocatedVarInfo list \<Rightarrow> nat \<Rightarrow> RestoreState list \<Rightarrow> RestoreState list" where
  "accepted mem vs i es = es[i := (es ! i)\<lparr> re_seen := True, re_pending := True,
     re_value := blit 0 (read_image_value mem (vs ! i)) (re_value (es ! i)) \<rparr>]"

lemma accepted_other: "j \<noteq> i \<Longrightarrow> accepted mem vs i es ! j = es ! j"
  by (simp add: accepted_def)

definition count_accepted :: "SnapshotReport \<Rightarrow> SnapshotReport" where
  "count_accepted rep = rep\<lparr> sr_restored := sr_restored rep + 1, sr_defaulted := sr_defaulted rep - 1 \<rparr>"

lemma distinct_member_index:
  assumes "distinct (map lv_stable_id (filter (snapshot_member kind) vs))"
    and "i < length vs" "snapshot_member kind (vs ! i)"
  shows "index_where (\<lambda>w. snapshot_member kind w \<and> lv_stable_id w = lv_stable_id (vs ! i)) vs = Some i"
  using assms
proof (induction vs arbitrary: i)
  case Nil
  then show ?case by simp
next
  case (Cons v vs)
  show ?case
  proof (cases i)
    case 0
    with Cons.prems show ?thesis by simp
  next
    case (Suc k)
    with Cons.prems have k: "k < length vs" "snapshot_member kind (vs ! k)" by auto
    then have "lv_stable_id (vs ! k) \<in> lv_stable_id ` set (filter (snapshot_member kind) vs)" by simp
    with Cons.prems(1) Suc have "\<not> (snapshot_member kind v \<and> lv_stable_id v = lv_stable_id (vs ! k))"
      by auto
    moreover have "index_where (\<lambda>w. snapshot_member kind w \<and> lv_stable_id w = lv_stable_id (vs ! k)) vs
        = Some k" using Cons.prems(1) k by (intro Cons.IH) (auto split: if_splits)
    ultimately show ?thesis using Suc by simp
  qed
qed

lemma restore_item_entry:
  assumes fmt: "snapshot_format vs kind" and i: "i < length vs" "snapshot_member kind (vs ! i)"
    and len: "length (read_image_value mem (vs ! i)) = lv_byte_width (vs ! i)" "lv_byte_width (vs ! i) \<le> 8"
    and seen: "\<not> re_seen (es ! i)"
  shows "restore_item vs kind (encode_entry mem (vs ! i) @ rest) es rep =
    Inr (accepted mem vs i es, count_accepted rep, rest)"
proof -
  let ?v = "vs ! i"
  have ix: "index_where (\<lambda>w. snapshot_member kind w \<and> lv_stable_id w = lv_stable_id ?v) vs = Some i"
    using fmt i by (intro distinct_member_index) (simp_all add: snapshot_format_def)
  have ty: "le_value (le_bytes 4 (of_nat (lv_type_id ?v))) = (of_nat (lv_type_id ?v) :: u64)"
    using fmt i by (intro le_value_le_bytes_small) (auto simp: snapshot_format_def)
  have w: "unat (of_nat (lv_byte_width ?v) :: u8) = lv_byte_width ?v"
    using len by (intro unat_of_nat_small) simp
  show ?thesis
    using ix ty w len seen
    by (simp add: restore_item_def encode_entry_def snapshot_get_append Let_def accept_item_def
        accepted_def count_accepted_def)
qed

lemma restore_items_entries:
  assumes fmt: "snapshot_format vs kind" and d: "distinct is"
    and m: "\<forall>i \<in> set is. i < length vs \<and> snapshot_member kind (vs ! i) \<and>
      length (read_image_value mem (vs ! i)) = lv_byte_width (vs ! i) \<and> lv_byte_width (vs ! i) \<le> 8"
    and seen: "\<forall>i \<in> set is. \<not> re_seen (es ! i)"
  shows "restore_items vs kind (length is) (concat (map (\<lambda>i. encode_entry mem (vs ! i)) is) @ rest) es rep =
    Inr (fold (accepted mem vs) is es, (count_accepted ^^ length is) rep, rest)"
  using d m seen
proof (induction "is" arbitrary: es rep)
  case Nil
  then show ?case by simp
next
  case (Cons i "is")
  have "restore_item vs kind (encode_entry mem (vs ! i) @
      (concat (map (\<lambda>i. encode_entry mem (vs ! i)) is) @ rest)) es rep =
    Inr (accepted mem vs i es, count_accepted rep, concat (map (\<lambda>i. encode_entry mem (vs ! i)) is) @ rest)"
    using Cons.prems by (intro restore_item_entry [OF fmt]) auto
  moreover have "restore_items vs kind (length is) (concat (map (\<lambda>i. encode_entry mem (vs ! i)) is) @ rest)
      (accepted mem vs i es) (count_accepted rep) =
    Inr (fold (accepted mem vs) is (accepted mem vs i es), (count_accepted ^^ length is) (count_accepted rep), rest)"
  proof (rule Cons.IH)
    show "\<forall>j \<in> set is. \<not> re_seen (accepted mem vs i es ! j)"
    proof
      fix j assume j: "j \<in> set is"
      with Cons.prems(1) have "j \<noteq> i" by auto
      with j show "\<not> re_seen (accepted mem vs i es ! j)"
        using Cons.prems(3) by (simp add: accepted_other)
    qed
  qed (use Cons.prems in auto)
  ultimately show ?case by (simp add: funpow_swap1)
qed

lemma count_accepted_many: "(count_accepted ^^ n) rep =
    rep\<lparr> sr_restored := sr_restored rep + of_nat n, sr_defaulted := sr_defaulted rep - of_nat n \<rparr>"
  by (induction n) (simp_all add: count_accepted_def algebra_simps)

lemma length_fold_accepted [simp]: "length (fold (accepted mem vs) is es) = length es"
  by (induction "is" arbitrary: es) (simp_all add: accepted_def)

lemma fold_accepted_other: "j \<notin> set is \<Longrightarrow> fold (accepted mem vs) is es ! j = es ! j"
  by (induction "is" arbitrary: es) (simp_all add: accepted_other)

lemma fold_accepted_nth:
  "distinct is \<Longrightarrow> j < length es \<Longrightarrow> j \<in> set is \<Longrightarrow> fold (accepted mem vs) is es ! j =
    (es ! j)\<lparr> re_seen := True, re_pending := True,
       re_value := blit 0 (read_image_value mem (vs ! j)) (re_value (es ! j)) \<rparr>"
proof (induction "is" arbitrary: es)
  case Nil
  then show ?case by simp
next
  case (Cons i "is")
  show ?case
  proof (cases "j = i")
    case True
    with Cons.prems show ?thesis
      by (simp add: fold_accepted_other) (simp add: accepted_def)
  next
    case False
    with Cons.prems Cons.IH [of "accepted mem vs i es"] show ?thesis
      by (simp add: accepted_other) (simp add: accepted_def)
  qed
qed


section \<open>The round trip\<close>

definition member_indices :: "LocatedVarInfo list \<Rightarrow> SnapshotKind \<Rightarrow> nat list" where
  "member_indices vs kind = filter (\<lambda>i. snapshot_member kind (vs ! i)) [0..<length vs]"

lemma members_by_index: "filter (snapshot_member kind) vs = map ((!) vs) (member_indices vs kind)"
  by (metis (no_types, lifting) comp_def filter_cong filter_map map_nth member_indices_def)

lemma set_member_indices: "i \<in> set (member_indices vs kind) \<longleftrightarrow> i < length vs \<and> snapshot_member kind (vs ! i)"
  by (simp add: member_indices_def)

lemma distinct_member_indices: "distinct (member_indices vs kind)"
  by (simp add: member_indices_def)

lemma length_member_indices: "length (member_indices vs kind) = snapshot_target_count vs kind"
  using members_by_index [of kind vs] by (simp add: snapshot_target_count_def)

lemma restore_header_encoded:
  assumes "snapshot_format (located_vars p) kind"
  shows "restore_header p kind
      (encode_bytes (located_vars p) (pi_fingerprint (process_image p)) kind mem) =
    Inr (empty_report\<lparr> sr_defaulted := of_nat (snapshot_target_count (located_vars p) kind),
        sr_fingerprint_match := True \<rparr>, snapshot_target_count (located_vars p) kind,
      concat (map (\<lambda>i. encode_entry mem (located_vars p ! i)) (member_indices (located_vars p) kind)))"
proof -
  let ?n = "snapshot_target_count (located_vars p) kind"
  have n: "?n < 65536" using assms by (simp add: snapshot_format_def)
  have c: "le_value (le_bytes 2 (of_nat ?n)) = (of_nat ?n :: u64)"
    by (rule le_value_le_bytes_small) (use n in auto)
  have u: "unat (of_nat ?n :: u64) = ?n" by (rule unat_of_nat_small) (use n in simp)
  have v: "le_value (le_bytes 4 1) = 1"
    using le_value_le_bytes_small [of 1 4] by simp
  define E where "E = concat (map (encode_entry mem) (filter (snapshot_member kind) (located_vars p)))"
  have E: "E = concat (map (\<lambda>i. encode_entry mem (located_vars p ! i)) (member_indices (located_vars p) kind))"
    by (simp add: E_def members_by_index comp_def)
  have enc: "encode_bytes (located_vars p) (pi_fingerprint (process_image p)) kind mem =
      magic @ le_bytes 4 1 @ [kind_code kind] @ le_bytes 8 (pi_fingerprint (process_image p)) @
      le_bytes 2 (of_nat ?n) @ E"
    by (simp add: encode_bytes_def E_def)
  have m: "length magic = 4" by (simp add: magic_def)
  have g: "snapshot_get 4 (le_bytes 4 1 @ xs) = Some (1, xs)"
    "snapshot_get 8 (le_bytes 8 f @ xs) = Some (f, xs)"
    "snapshot_get 2 (le_bytes 2 (of_nat ?n) @ xs) = Some (of_nat ?n, xs)" for xs f
    using snapshot_get_append [of "le_bytes 4 1" 4 xs] snapshot_get_append [of "le_bytes 8 f" 8 xs]
      snapshot_get_append [of "le_bytes 2 (of_nat ?n)" 2 xs] c v by simp_all
  have h: "drop 4 (magic @ xs) = xs" "take 4 (magic @ xs) = magic" for xs
    by (simp_all add: m)
  have l: "\<not> length (magic @ le_bytes 4 1 @ [kind_code kind] @ le_bytes 8 f @ le_bytes 2 x @ E) < 19" for f x
    by (simp add: m)
  show ?thesis
    unfolding restore_header_def Let_def enc E [symmetric] h
    using l by (simp add: g u)
qed

lemma encode_snapshot_ok:
  assumes "image_wf im" "im_program im = Some p"
    and "encode_snapshot im kind True capacity = Some (SE_ok, bs, im')"
    and "channel_value (im_memory_channel im) = Some (mem, version)"
  shows "bs = encode_bytes (located_vars p) (pi_fingerprint (process_image p)) kind mem"
proof -
  have cwf: "channel_wf (im_memory_channel im)"
    using assms(1,2) by (auto simp: image_wf_def channels_ok_def channel_holds_def)
  obtain c' where "snapshot_slot (im_memory_channel im) = Some (Inr ((mem, version), c'))"
    using snapshot_slot_ok [OF cwf assms(4)] by auto
  then have "snapshot_channel (im_memory_channel im) n True n = Some (Inr ((mem, version), c'))" for n
    by (simp add: snapshot_channel_def)
  with assms(2) have "encode_snapshot im kind True capacity =
      (let im1 = im\<lparr> im_memory_channel := c' \<rparr>
       in Some (if capacity < required_size (located_vars p) kind then (SE_capacity_exceeded, [], im1)
         else (SE_ok, encode_bytes (located_vars p) (pi_fingerprint (process_image p)) kind mem, im1)))"
    by (simp add: encode_snapshot_def Let_def)
  with assms(3) show ?thesis
    by (cases "capacity < required_size (located_vars p) kind") (simp_all add: Let_def)
qed

text \<open>The batch the restore leaves for the scan boundary.\<close>

definition restored_batch :: "bytes \<Rightarrow> LocatedVarInfo list \<Rightarrow> SnapshotKind \<Rightarrow> RestoreState list \<Rightarrow> RestoreState list" where
  "restored_batch mem vs kind es = fold (accepted mem vs) (member_indices vs kind) (fresh_batch es)"

definition full_report :: "nat \<Rightarrow> SnapshotReport" where
  "full_report n = \<lparr> sr_restored = of_nat n, sr_rejected = 0, sr_defaulted = 0, sr_fingerprint_match = True \<rparr>"

lemma restore_encoded:
  assumes wf: "image_wf im" and p: "im_program im = Some p"
    and fmt: "snapshot_format (located_vars p) kind"
    and mem: "length mem = pi_memory_bytes (process_image p)"
  shows "\<exists>im' es. restore_snapshot im kind (Some (encode_bytes (located_vars p)
      (pi_fingerprint (process_image p)) kind mem)) =
        Some (SE_ok, full_report (snapshot_target_count (located_vars p) kind), im') \<and>
      batch_shape (located_vars p) es \<and> im_memory im' = im_memory im \<and> im_program im' = im_program im \<and>
      channel_wf (im_restore_channel im') \<and>
      channel_value (im_restore_channel im') = Some (restored_batch mem (located_vars p) kind es)"
proof -
  let ?vs = "located_vars p" and ?c = "im_restore_channel im"
  have ok: "image_layout_wf (process_image p)" "channels_ok im (process_image p)"
    using wf p by (auto simp: image_wf_def)
  then have cwf: "channel_wf ?c" by (simp add: channels_ok_def)
  obtain c1 i where cl: "claim_empty_slot ?c = Some (c1, i)" "i < 3" "\<And>j. data_at c1 j = data_at ?c j"
    using claim_empty_slot_ok [OF cwf] by metis
  let ?es = "data_at c1 i"
  have shape: "batch_shape ?vs ?es" using ok(2) cl(2,3) by (simp add: channels_ok_def)
  have in_mem: "located_in (length mem) (?vs ! j)" if "j < length ?vs" "snapshot_member kind (?vs ! j)" for j
    using ok(1) that member_retained [OF that(2)] mem
    by (auto simp: image_layout_wf_def area_bytes_def dest!: bspec [where x = "?vs ! j"])
  have items: "restore_items ?vs kind (snapshot_target_count ?vs kind)
      (concat (map (\<lambda>i. encode_entry mem (?vs ! i)) (member_indices ?vs kind))) (fresh_batch ?es) rep =
    Inr (restored_batch mem ?vs kind ?es, (count_accepted ^^ snapshot_target_count ?vs kind) rep, [])" for rep
  proof -
    have "\<forall>i \<in> set (member_indices ?vs kind). i < length ?vs \<and> snapshot_member kind (?vs ! i) \<and>
        length (read_image_value mem (?vs ! i)) = lv_byte_width (?vs ! i) \<and> lv_byte_width (?vs ! i) \<le> 8"
      using in_mem by (auto simp: set_member_indices length_read_image_value located_in_def)
    moreover have "\<forall>i \<in> set (member_indices ?vs kind). \<not> re_seen (fresh_batch ?es ! i)"
      using shape by (auto simp: set_member_indices fresh_batch_def batch_shape_def)
    ultimately show ?thesis
      using restore_items_entries [OF fmt distinct_member_indices, where rest = "[]"]
      by (simp add: restored_batch_def length_member_indices)
  qed
  have pub: "publish_channel ?c es = Some (publish_claimed (set_data c1 i es) i)" for es
    using cl(1) by (simp add: publish_channel_def)
  have rep: "(count_accepted ^^ n) (empty_report\<lparr> sr_defaulted := of_nat n, sr_fingerprint_match := True \<rparr>) =
      full_report n" for n
    by (simp add: count_accepted_many full_report_def empty_report_def)
  show ?thesis
    using publish_channel_ok [OF cwf, of "restored_batch mem ?vs kind ?es"] pub shape
    by (intro exI [where x = "im\<lparr> im_restore_channel :=
        publish_claimed (set_data c1 i (restored_batch mem ?vs kind ?es)) i \<rparr>"] exI [where x = ?es])
      (simp add: restore_snapshot_def p restore_header_encoded [OF fmt] cl(1) items rep)
qed

lemma restored_batch_fits:
  assumes "image_layout_wf pi" "batch_shape (pi_variables pi) es" "length mem = pi_memory_bytes pi"
    and "n = pi_memory_bytes pi"
  shows "batch_fits (pi_variables pi) (restored_batch mem (pi_variables pi) kind es) n"
  unfolding batch_fits_def
proof (intro conjI ballI)
  let ?vs = "pi_variables pi"
  have len: "length (fresh_batch es) = length ?vs" using assms(2) by (simp add: batch_shape_def fresh_batch_def)
  then show "length (restored_batch mem ?vs kind es) = length ?vs" by (simp add: restored_batch_def)
  fix x assume "x \<in> set (zip ?vs (restored_batch mem ?vs kind es))"
  then obtain i where i: "i < length ?vs" "x = (?vs ! i, restored_batch mem ?vs kind es ! i)"
    by (auto simp: set_zip)
  have wf: "located_in (area_bytes pi (lv_area (?vs ! i))) (?vs ! i)"
    "retained (?vs ! i) \<Longrightarrow> lv_area (?vs ! i) = PA_memory"
    using assms(1) i(1) by (simp_all add: image_layout_wf_def)
  show "case x of (v, e) \<Rightarrow> re_pending e \<longrightarrow>
      lv_area v = PA_memory \<and> located_in n v \<and> length (re_value e) = 8"
  proof (cases "i \<in> set (member_indices ?vs kind)")
    case True
    then have m: "lv_area (?vs ! i) = PA_memory"
      using member_retained wf(2) by (auto simp: set_member_indices)
    with wf(1) have loc: "located_in (length mem) (?vs ! i)" using assms(3) by (simp add: area_bytes_def)
    have "re_value (restored_batch mem ?vs kind es ! i) =
        blit 0 (read_image_value mem (?vs ! i)) (re_value (fresh_batch es ! i))"
      using True i(1) len by (simp add: restored_batch_def fold_accepted_nth distinct_member_indices)
    moreover have "length (re_value (fresh_batch es ! i)) = 8" using assms(2) i(1)
      by (simp add: batch_shape_def fresh_batch_def)
    moreover have "length (read_image_value mem (?vs ! i)) \<le> 8"
      using loc by (simp add: length_read_image_value located_in_def)
    ultimately show ?thesis using m loc assms(3,4) i(2) by simp
  next
    case False
    then show ?thesis
      using i assms(2) by (simp add: restored_batch_def fold_accepted_other fresh_batch_def batch_shape_def)
  qed
qed

lemma restored_batch_read:
  assumes wf: "image_layout_wf pi" and shape: "batch_shape (pi_variables pi) es"
    and mem: "length mem = pi_memory_bytes pi" "length old = pi_memory_bytes pi"
    and v: "v \<in> set (pi_variables pi)" "lv_area v = PA_memory"
  shows "read_image_value (apply_entries (pi_variables pi) (restored_batch mem (pi_variables pi) kind es) old) v =
    (if snapshot_member kind v then read_image_value mem v else read_image_value old v)"
proof -
  let ?vs = "pi_variables pi"
  obtain i where i: "i < length ?vs" "v = ?vs ! i" using v(1) by (auto simp: in_set_conv_nth)
  have loc: "located_in (length old) v" "located_in (length mem) v"
    using wf v mem by (auto simp: image_layout_wf_def area_bytes_def dest!: bspec [where x = v])
  have fits: "batch_fits ?vs (restored_batch mem ?vs kind es) (length old)"
    using restored_batch_fits [OF wf shape mem(1) mem(2)] .
  have len: "length (fresh_batch es) = length ?vs" using shape by (simp add: batch_shape_def fresh_batch_def)
  note read = apply_entries_read [OF fits layout_separated [OF wf] i(1)]
  show ?thesis
  proof (cases "snapshot_member kind v")
    case True
    then have "i \<in> set (member_indices ?vs kind)" using i by (simp add: set_member_indices)
    then have e: "restored_batch mem ?vs kind es ! i = (fresh_batch es ! i)\<lparr> re_seen := True, re_pending := True,
        re_value := blit 0 (read_image_value mem v) (re_value (fresh_batch es ! i)) \<rparr>"
      using i len by (simp add: restored_batch_def fold_accepted_nth distinct_member_indices)
    have "take (lv_byte_width v) (blit 0 (read_image_value mem v) xs) = read_image_value mem v" for xs
      using loc(2) by (simp add: blit_def length_read_image_value)
    with e read loc(1) v(2) i(2) True show ?thesis by (simp add: stored_value_read)
  next
    case False
    then have "restored_batch mem ?vs kind es ! i = fresh_batch es ! i"
      using i by (simp add: restored_batch_def fold_accepted_other set_member_indices)
    with read loc(1) v(2) i len False show ?thesis by (simp add: fresh_batch_def)
  qed
qed

text \<open>The whole path: encoding \<open>im\<close>, restoring into \<open>im2\<close> (the same program, any contents), then
  the scan boundary.\<close>

lemma round_trip:
  assumes wf: "image_wf im" "image_wf im2" and p: "im_program im = Some p" "im_program im2 = Some p"
    and fmt: "snapshot_format (located_vars p) kind"
    and enc: "encode_snapshot im kind True capacity = Some (SE_ok, bs, im')"
    and mem: "channel_value (im_memory_channel im) = Some (mem, version)"
  shows "\<exists>im3. restore_snapshot im2 kind (Some bs) =
      Some (SE_ok, full_report (snapshot_target_count (located_vars p) kind), im3) \<and>
    (\<forall>v \<in> set (located_vars p). lv_area v = PA_memory \<longrightarrow>
      read_image_value (im_memory (apply_pending_restore im3)) v =
      (if snapshot_member kind v then read_image_value mem v else read_image_value (im_memory im2) v))"
proof -
  have bs: "bs = encode_bytes (located_vars p) (pi_fingerprint (process_image p)) kind mem"
    by (rule encode_snapshot_ok [OF wf(1) p(1) enc mem])
  have lay: "image_layout_wf (process_image p)" using wf(1) p(1) by (auto simp: image_wf_def)
  have len: "length mem = pi_memory_bytes (process_image p)" "length (im_memory im2) = pi_memory_bytes (process_image p)"
    using wf p mem by (auto simp: image_wf_def channels_ok_def channel_holds_def sizes_ok_def)
  obtain im3 es where r: "restore_snapshot im2 kind (Some bs) =
      Some (SE_ok, full_report (snapshot_target_count (located_vars p) kind), im3)"
    "batch_shape (located_vars p) es" "im_memory im3 = im_memory im2" "im_program im3 = im_program im2"
    "channel_wf (im_restore_channel im3)"
    "channel_value (im_restore_channel im3) = Some (restored_batch mem (located_vars p) kind es)"
    using restore_encoded [OF wf(2) p(2) fmt len(1)] bs by metis
  have "im_memory (apply_pending_restore im3) =
      apply_entries (located_vars p) (restored_batch mem (located_vars p) kind es) (im_memory im2)"
    using consume_channel_ok [OF r(5)] r(3,4,6) p(2)
    by (auto simp: apply_pending_restore_def split: option.splits prod.splits)
  with r(1) restored_batch_read [OF lay r(2) len] show ?thesis by simp
qed

end
