(* ===== verification/ImageOps.thy ===== *)
theory ImageOps
  imports ImageRoundTrip
begin

text \<open>
  The remaining operations of \<open>ProcessImage\<close> keep its representation invariant, and with the lemmas
  on scans and snapshots this gives the step relation of the whole class: \<open>image_step\<close> has one rule
  per public operation, and every image reachable from a successful \<open>load\<close> is well formed, so no
  operation on it spins.
\<close>

section \<open>Loading\<close>

definition loadable :: "Program \<Rightarrow> bool" where
  "loadable p \<longleftrightarrow> image_layout_wf (process_image p) \<and>
     (\<forall>v \<in> set (located_vars p). lv_var_offset v + lv_byte_width v \<le> length (initial_data p))"

lemma write_initials_eq: "write_initials data vs om = write_selected (\<lambda>_. True) (var_bytes data) vs om"
  by (simp add: write_initials_def write_selected_def)

lemma layout_writable:
  assumes "image_layout_wf pi" "v \<in> set (pi_variables pi)" "length (fst om) = pi_output_bytes pi"
    "length (snd om) = pi_memory_bytes pi"
  shows "writable om v"
  using assms by (cases "lv_area v") (auto simp: image_layout_wf_def writable_def area_image_def area_bytes_def
      dest!: bspec [where x = v])

lemma requested_none: "requested_count (replicate n initial_force) = 0"
  by (simp add: requested_count_def initial_force_def)

lemma load_image_ok:
  assumes p: "loadable p" and ok: "load_image im p has_buffer n = (im', EC_ok)"
  shows "image_wf im' \<and> im_program im' = Some p \<and> \<not> im_transaction_active im' \<and>
    (\<forall>v \<in> set (located_vars p). lv_area v \<noteq> PA_input \<longrightarrow>
      read_image_value (image_of im' (lv_area v)) v = stored_value v (var_bytes (initial_data p) v))"
proof -
  let ?pi = "process_image p"
  let ?zo = "replicate (pi_output_bytes ?pi) (0 :: u8)" and ?zm = "replicate (pi_memory_bytes ?pi) (0 :: u8)"
  let ?om = "write_initials (initial_data p) (pi_variables ?pi) (?zo, ?zm)"
  have lay: "image_layout_wf ?pi" using p by (simp add: loadable_def)
  have w: "\<forall>v \<in> set (pi_variables ?pi). writable (?zo, ?zm) v"
    using layout_writable [OF lay, of _ "(?zo, ?zm)"] by simp
  have l: "\<forall>v \<in> set (pi_variables ?pi). length (var_bytes (initial_data p) v) = lv_byte_width v"
    using p by (auto simp: loadable_def var_bytes_def)
  have len: "length (fst ?om) = pi_output_bytes ?pi" "length (snd ?om) = pi_memory_bytes ?pi"
    using length_write_selected [OF w l] by (simp_all add: write_initials_eq)
  have fits: "\<not> ((pi_input_bytes ?pi + pi_output_bytes ?pi + pi_memory_bytes ?pi \<noteq> 0 \<and> \<not> has_buffer) \<or>
      n < pi_input_bytes ?pi + pi_output_bytes ?pi + pi_memory_bytes ?pi)"
    using ok by (auto simp: load_image_def Let_def split: if_splits prod.splits)
  then have im': "im_program im' = Some p" "im_input im' = replicate (pi_input_bytes ?pi) 0"
    "im_output im' = fst ?om" "im_memory im' = snd ?om" "\<not> im_transaction_active im'"
    "sizes_ok im' ?pi" "forces_ok im' ?pi" "channels_ok im' ?pi"
    using ok len unfolding load_image_def
    by (auto simp: Let_def sizes_ok_def forces_ok_def channels_ok_def channel_holds_def
        requested_none initial_force_wf prepare_channel_wf initialize_channel_wf
        prod_eq_iff split: prod.splits)
       (auto simp: prepare_channel_def batch_shape_def empty_restore_def nth_Cons' numeral_3_eq_3)
  have "read_image_value (area_image ?om (lv_area v)) v = stored_value v (var_bytes (initial_data p) v)"
    if "v \<in> set (pi_variables ?pi)" "lv_area v \<noteq> PA_input" for v
    using write_selected_read [OF w l layout_separated [OF lay] that] by (simp add: write_initials_eq)
  moreover have "image_of im' a = area_image ?om a" if "a \<noteq> PA_input" for a
    using that im' by (cases a) (simp_all add: image_of_def area_image_def)
  ultimately show ?thesis using im' lay by (auto simp: image_wf_def)
qed


section \<open>Forces\<close>

lemma requested_update:
  "i < length fs \<Longrightarrow> requested_count (fs[i := f]) =
    requested_count fs + (if fo_requested_active f then 1 else 0) - (if fo_requested_active (fs ! i) then 1 else 0)"
proof (induction fs arbitrary: i)
  case Nil
  then show ?case by simp
next
  case (Cons g fs)
  have "fo_requested_active (fs ! j) \<Longrightarrow> j < length fs \<Longrightarrow> 0 < requested_count fs" for j
    by (auto simp: requested_count_def filter_empty_conv)
  with Cons show ?case
    by (cases i) (fastforce simp: requested_count_def)+
qed

lemma image_wf_forces:
  assumes "image_wf im" "im_program im = Some p" "forces_ok (im\<lparr> im_forces := fs \<rparr>) (process_image p)"
  shows "image_wf (im\<lparr> im_force_queue_version := n, im_forces := fs \<rparr>)"
  using assms by (auto simp: image_wf_def sizes_ok_def channels_ok_def forces_ok_def)

lemma queue_force_index_wf:
  assumes wf: "image_wf im" and r: "queue_force_index im i ty v n owner release = (im', e, ver)"
  shows "image_wf im' \<and> im_program im' = im_program im \<and> im_transaction_active im' = im_transaction_active im"
proof -
  obtain p where p: "im_program im = Some p" "forces_ok im (process_image p)"
    using wf by (auto simp: image_wf_def)
  show ?thesis
  proof (cases "e = EC_ok")
    case False
    then have "im' = im" using r by (auto simp: queue_force_index_def Let_def split: if_splits)
    with wf show ?thesis by simp
  next
    case True
    let ?st = "(publish_force (im_forces im ! i) True (take n (the v)) owner release)
      \<lparr> fo_requested_active := True \<rparr>"
    from r True p have g: "i < length (im_forces im)"
      "fo_requested_active (im_forces im ! i) \<or> requested_count (im_forces im) < pi_max_force_entries (process_image p)"
      "im' = im\<lparr> im_force_queue_version := im_force_queue_version im + 1, im_forces := (im_forces im)[i := ?st] \<rparr>"
      by (auto simp: queue_force_index_def Let_def not_le split: if_splits)
    have "force_wf (im_forces im ! i)" using p(2) g(1) by (simp add: forces_ok_def)
    then have "force_wf ?st" using publish_force_wf by (auto simp: force_wf_def)
    moreover have "requested_count ((im_forces im)[i := ?st]) \<le> pi_max_force_entries (process_image p)"
      using g(1,2) p(2) by (auto simp: requested_update forces_ok_def)
    ultimately have "forces_ok (im\<lparr> im_forces := (im_forces im)[i := ?st] \<rparr>) (process_image p)"
      using p(2) set_update_subset_insert [of "im_forces im" i ?st] by (auto simp: forces_ok_def)
    with wf p(1) g(3) show ?thesis by (simp add: image_wf_forces)
  qed
qed

lemma queue_release_index_wf:
  assumes wf: "image_wf im" and r: "queue_release_index im i owner release = (im', e, ver)"
  shows "image_wf im' \<and> im_program im' = im_program im \<and> im_transaction_active im' = im_transaction_active im"
proof -
  obtain p where p: "im_program im = Some p" "forces_ok im (process_image p)"
    using wf by (auto simp: image_wf_def)
  show ?thesis
  proof (cases "e = EC_ok")
    case False
    then have "im' = im" using r by (auto simp: queue_release_index_def Let_def split: if_splits)
    with wf show ?thesis by simp
  next
    case True
    let ?st = "(publish_force (im_forces im ! i) False [] owner release)\<lparr> fo_requested_active := False \<rparr>"
    from r True p have g: "i < length (im_forces im)"
      "im' = im\<lparr> im_force_queue_version := im_force_queue_version im + 1, im_forces := (im_forces im)[i := ?st] \<rparr>"
      by (auto simp: queue_release_index_def Let_def split: if_splits)
    have "force_wf (im_forces im ! i)" using p(2) g(1) by (simp add: forces_ok_def)
    then have "force_wf ?st" using publish_force_wf by (auto simp: force_wf_def)
    moreover have "requested_count ((im_forces im)[i := ?st]) \<le> pi_max_force_entries (process_image p)"
      using g(1) p(2) by (auto simp: requested_update forces_ok_def)
    ultimately have "forces_ok (im\<lparr> im_forces := (im_forces im)[i := ?st] \<rparr>) (process_image p)"
      using p(2) set_update_subset_insert [of "im_forces im" i ?st] by (auto simp: forces_ok_def)
    with wf p(1) g(2) show ?thesis by (simp add: image_wf_forces)
  qed
qed

lemma queue_force_wf:
  assumes "image_wf im" "queue_force im name ty v n = (im', e)"
  shows "image_wf im' \<and> im_program im' = im_program im"
  using assms queue_force_index_wf [OF assms(1)]
  by (auto simp: queue_force_def Let_def split: option.splits prod.splits)

lemma queue_release_wf:
  assumes "image_wf im" "queue_release im name = (im', e)"
  shows "image_wf im' \<and> im_program im' = im_program im"
  using assms queue_release_index_wf [OF assms(1)]
  by (auto simp: queue_release_def Let_def split: option.splits prod.splits)


section \<open>Host access, stores and transactions\<close>

lemma submit_input_ok:
  assumes wf: "image_wf im" and d: "\<forall>bs. data = Some bs \<longrightarrow> n \<le> length bs"
  shows "\<exists>im' e. submit_input im data n version = Some (im', e) \<and> image_wf im' \<and>
    im_program im' = im_program im \<and> im_transaction_active im' = im_transaction_active im \<and>
    (e = EC_ok \<longrightarrow> channel_value (im_input_channel im') =
      Some (if n = 0 then [] else take n (the data), version))"
proof -
  obtain p where p: "im_program im = Some p" "channels_ok im (process_image p)"
    using wf by (auto simp: image_wf_def)
  show ?thesis
  proof (cases "n \<noteq> pi_input_bytes (process_image p) \<or> (n \<noteq> 0 \<and> data = None)")
    case True
    with p wf show ?thesis by (auto simp: submit_input_def)
  next
    case False
    let ?m = "(if n = 0 then [] else take n (the data), version)"
    have len: "length (fst ?m) = pi_input_bytes (process_image p)" using False d by auto
    have "channel_holds (pi_input_bytes (process_image p)) (im_input_channel im)"
      using p(2) by (simp add: channels_ok_def)
    from publish_holds [OF this len] obtain c' where c': "publish_channel (im_input_channel im) ?m = Some c'"
      "channel_holds (pi_input_bytes (process_image p)) c'" "channel_value c' = Some ?m" by blast
    have "image_wf (im\<lparr> im_input_channel := c' \<rparr>)"
      using wf p c'(2) by (auto simp: image_wf_def sizes_ok_def channels_ok_def forces_ok_def)
    then show ?thesis using p(1) False c' by (auto simp: submit_input_def)
  qed
qed

lemma mark_physical_wf: "image_wf im \<Longrightarrow> image_wf (mark_physical v tw im) \<and>
    im_program (mark_physical v tw im) = im_program im \<and>
    im_transaction_active (mark_physical v tw im) = im_transaction_active im"
  by (auto simp: mark_physical_def image_wf_def sizes_ok_def channels_ok_def forces_ok_def
      split: ProcessArea.splits)

lemma mark_store_wf: "image_wf im \<Longrightarrow> image_wf (mark_store im layout offset ty) \<and>
    im_program (mark_store im layout offset ty) = im_program im \<and>
    im_transaction_active (mark_store im layout offset ty) = im_transaction_active im"
  by (auto simp: mark_store_def mark_physical_wf split: option.splits)

lemma begin_transaction_ok:
  assumes wf: "image_wf im"
  shows "\<exists>im'. begin_transaction im owner release = Some im' \<and> image_wf im' \<and>
    im_program im' = im_program im \<and> im_transaction_active im' \<and>
    (\<forall>a byte. transaction_dirty im' a byte = 0)"
proof -
  obtain im1 where im1: "prepare_scan_boundary im owner release = Some im1" "image_wf im1"
    "im_program im1 = im_program im" using prepare_scan_boundary_ok [OF wf] by blast
  let ?im = "im1\<lparr> im_transaction_output_dirty := map (\<lambda>_. 0) (im_transaction_output_dirty im1),
    im_transaction_memory_dirty := map (\<lambda>_. 0) (im_transaction_memory_dirty im1),
    im_transaction_active := True \<rparr>"
  have "image_wf ?im"
    using im1(2) by (auto simp: image_wf_def sizes_ok_def channels_ok_def forces_ok_def)
  moreover have "transaction_dirty ?im a byte = 0" for a byte
    by (simp add: transaction_dirty_def split: ProcessArea.splits)
  ultimately show ?thesis using im1 by (simp add: begin_transaction_def)
qed

lemma image_wf_inactive: "image_wf im \<Longrightarrow> image_wf (im\<lparr> im_transaction_active := b \<rparr>)"
  by (auto simp: image_wf_def sizes_ok_def channels_ok_def forces_ok_def)

lemma commit_transaction_ok:
  assumes "image_wf im"
  shows "\<exists>im'. commit_transaction im = Some im' \<and> image_wf im' \<and> im_program im' = im_program im \<and>
    \<not> im_transaction_active im' \<and>
    channel_value (im_output_channel im') = Some (im_output im, im_output_version im + 1) \<and>
    channel_value (im_memory_channel im') = Some (im_memory im, im_memory_version im + 1)"
  using publish_scan_ok [OF assms] image_wf_inactive
  by (force simp: commit_transaction_def)

lemma snapshot_image_ok:
  assumes "image_wf im"
  shows "\<exists>r. output_snapshot im hb n = Some r \<and> (case r of Inl e \<Rightarrow> e \<noteq> EC_ok
      | Inr (m, im') \<Rightarrow> channel_value (im_output_channel im) = Some m \<and> image_wf im' \<and>
          im_program im' = im_program im)"
    and "\<exists>r. memory_snapshot im hb n = Some r \<and> (case r of Inl e \<Rightarrow> e \<noteq> EC_ok
      | Inr (m, im') \<Rightarrow> channel_value (im_memory_channel im) = Some m \<and> image_wf im' \<and>
          im_program im' = im_program im)"
proof -
  obtain p out mem where p: "im_program im = Some p" "channels_ok im (process_image p)"
    "channel_value (im_output_channel im) = Some out" "channel_value (im_memory_channel im) = Some mem"
    using assms by (auto simp: image_wf_def channels_ok_def)
  have oh: "channel_holds (pi_output_bytes (process_image p)) (im_output_channel im)"
    and mh: "channel_holds (pi_memory_bytes (process_image p)) (im_memory_channel im)"
    using p(2) by (simp_all add: channels_ok_def)
  obtain oc where oc: "snapshot_slot (im_output_channel im) = Some (Inr (out, oc))"
    "channel_holds (pi_output_bytes (process_image p)) oc" "channel_value oc = Some out"
    using snapshot_slot_ok [OF _ p(3)] oh p(3) by (force simp: channel_holds_def)
  obtain mc where mc: "snapshot_slot (im_memory_channel im) = Some (Inr (mem, mc))"
    "channel_holds (pi_memory_bytes (process_image p)) mc" "channel_value mc = Some mem"
    using snapshot_slot_ok [OF _ p(4)] mh p(4) by (force simp: channel_holds_def)
  have w: "image_wf (im\<lparr> im_output_channel := oc \<rparr>)" "image_wf (im\<lparr> im_memory_channel := mc \<rparr>)"
    using assms p oc mc by (auto simp: image_wf_def sizes_ok_def channels_ok_def forces_ok_def)
  show "\<exists>r. output_snapshot im hb n = Some r \<and> (case r of Inl e \<Rightarrow> e \<noteq> EC_ok
      | Inr (m, im') \<Rightarrow> channel_value (im_output_channel im) = Some m \<and> image_wf im' \<and>
          im_program im' = im_program im)"
    using p oc w by (simp add: output_snapshot_def snapshot_channel_def)
  show "\<exists>r. memory_snapshot im hb n = Some r \<and> (case r of Inl e \<Rightarrow> e \<noteq> EC_ok
      | Inr (m, im') \<Rightarrow> channel_value (im_memory_channel im) = Some m \<and> image_wf im' \<and>
          im_program im' = im_program im)"
    using p mc w by (simp add: memory_snapshot_def snapshot_channel_def)
qed

lemma encode_snapshot_wf:
  assumes "image_wf im"
  shows "\<exists>e bs im'. encode_snapshot im kind hb n = Some (e, bs, im') \<and> image_wf im' \<and>
    im_program im' = im_program im"
proof -
  obtain p mem where p: "im_program im = Some p" "channels_ok im (process_image p)"
    "channel_value (im_memory_channel im) = Some mem"
    using assms by (auto simp: image_wf_def channels_ok_def)
  have mh: "channel_holds (pi_memory_bytes (process_image p)) (im_memory_channel im)"
    using p(2) by (simp add: channels_ok_def)
  obtain m mc where mc: "snapshot_slot (im_memory_channel im) = Some (Inr (m, mc))"
    "channel_holds (pi_memory_bytes (process_image p)) mc" "channel_value mc = Some mem"
    using snapshot_slot_ok [OF _ p(3)] mh p(3) by (force simp: channel_holds_def)
  have "image_wf (im\<lparr> im_memory_channel := mc \<rparr>)"
    using assms p mc by (auto simp: image_wf_def sizes_ok_def channels_ok_def forces_ok_def)
  then show ?thesis
    using p assms mc(1) by (cases m) (simp add: encode_snapshot_def snapshot_channel_def Let_def)
qed


section \<open>Parking\<close>

lemma length_merge_parked [simp]:
  "length (merge_parked d p m) = min (length d) (min (length p) (length m))"
  by (simp add: merge_parked_def)

definition parked_fits :: "ProcessImage \<Rightarrow> ParkedImage \<Rightarrow> bool" where
  "parked_fits im pk \<longleftrightarrow> length (pk_output pk) = length (im_output im) \<and>
     length (pk_output_dirty pk) = length (im_output im) \<and>
     length (pk_memory pk) = length (im_memory im) \<and> length (pk_memory_dirty pk) = length (im_memory im)"

lemma park_transaction_fits:
  "image_wf im \<Longrightarrow> park_transaction im os ms = Some pk \<Longrightarrow> parked_fits im pk"
  by (auto simp: park_transaction_def parked_fits_def image_wf_def sizes_ok_def split: if_splits)

lemma restore_transaction_wf:
  assumes "image_wf im" "parked_fits im pk" "restore_transaction im pk os ms = (im', ok)"
  shows "image_wf im' \<and> im_program im' = im_program im \<and> im_transaction_active im' = im_transaction_active im"
proof (cases ok)
  case True
  then have "im' = im\<lparr> im_output := merge_parked (im_output im) (pk_output pk) (pk_output_dirty pk),
      im_transaction_output_dirty := pk_output_dirty pk,
      im_memory := merge_parked (im_memory im) (pk_memory pk) (pk_memory_dirty pk),
      im_transaction_memory_dirty := pk_memory_dirty pk \<rparr>"
    using assms(3) by (auto simp: restore_transaction_def split: if_splits)
  with assms(1,2) show ?thesis
    by (auto simp: image_wf_def sizes_ok_def channels_ok_def forces_ok_def parked_fits_def)
next
  case False
  then have "im' = im" using assms(3) by (auto simp: restore_transaction_def split: if_splits)
  with assms(1) show ?thesis by simp
qed

text \<open>Parking and restoring: bit by bit, what the parked transaction had written comes back and
  everything else is the image the other tasks left.\<close>

lemma merge_parked_bit:
  assumes "j < length d" "length p = length d" "length m = length d" "k < 8"
  shows "bit (merge_parked d p m ! j) k = (if bit (m ! j) k then bit (p ! j) k else bit (d ! j) k)"
  using assms by (auto simp: merge_parked_def bit_or_iff bit_and_iff bit_not_iff)


section \<open>The class as a state machine\<close>

text \<open>One rule per public operation. A state pairs the image with the transactions parked so far;
  \<open>layout\<close> in the scan operations is any program whose located variables fit the image and the
  variable area it comes with.\<close>

inductive image_step ::
  "ProcessImage \<times> ParkedImage list \<Rightarrow> ProcessImage \<times> ParkedImage list \<Rightarrow> bool"
where
  step_submit: "\<forall>bs. data = Some bs \<longrightarrow> n \<le> length bs \<Longrightarrow> submit_input im data n version = Some (im', e) \<Longrightarrow>
    image_step (im, pks) (im', pks)"
| step_output: "output_snapshot im hb n = Some (Inr (m, im')) \<Longrightarrow> image_step (im, pks) (im', pks)"
| step_memory: "memory_snapshot im hb n = Some (Inr (m, im')) \<Longrightarrow> image_step (im, pks) (im', pks)"
| step_force: "queue_force_index im i ty v n owner release = (im', e, ver) \<Longrightarrow> image_step (im, pks) (im', pks)"
| step_release: "queue_release_index im i owner release = (im', e, ver) \<Longrightarrow> image_step (im, pks) (im', pks)"
| step_encode: "encode_snapshot im kind hb n = Some (se, bs, im') \<Longrightarrow> image_step (im, pks) (im', pks)"
| step_restore: "restore_snapshot im kind bytes = Some (se, rep, im') \<Longrightarrow> image_step (im, pks) (im', pks)"
| step_begin: "scan_layout (process_image (the (im_program im))) (length vars) (located_vars layout) \<Longrightarrow>
    begin_scan im layout vars = Some (vars', im') \<Longrightarrow> image_step (im, pks) (im', pks)"
| step_store: "image_step (im, pks) (mark_store im layout offset ty, pks)"
| step_commit: "scan_layout (process_image (the (im_program im))) (length vars) (located_vars layout) \<Longrightarrow>
    commit_scan im layout vars publish = Some im' \<Longrightarrow> image_step (im, pks) (im', pks)"
| step_discard: "discard_scan im = Some im' \<Longrightarrow> image_step (im, pks) (im', pks)"
| step_begin_tx: "begin_transaction im owner release = Some im' \<Longrightarrow> image_step (im, pks) (im', pks)"
| step_commit_tx: "commit_transaction im = Some im' \<Longrightarrow> image_step (im, pks) (im', pks)"
| step_park: "park_transaction im os ms = Some pk \<Longrightarrow> image_step (im, pks) (im, pk # pks)"
| step_unpark: "pk \<in> set pks \<Longrightarrow> restore_transaction im pk os ms = (im', ok) \<Longrightarrow>
    image_step (im, pks) (im', pks)"

inductive image_reach :: "Program \<Rightarrow> ProcessImage \<times> ParkedImage list \<Rightarrow> bool" for p where
  reach_load: "load_image im p has_buffer n = (im', EC_ok) \<Longrightarrow> image_reach p (im', [])"
| reach_step: "image_reach p s \<Longrightarrow> image_step s s' \<Longrightarrow> image_reach p s'"

definition parked_sizes :: "ProcessImageInfo \<Rightarrow> ParkedImage \<Rightarrow> bool" where
  "parked_sizes pi pk \<longleftrightarrow> length (pk_output pk) = pi_output_bytes pi \<and>
     length (pk_output_dirty pk) = pi_output_bytes pi \<and> length (pk_memory pk) = pi_memory_bytes pi \<and>
     length (pk_memory_dirty pk) = pi_memory_bytes pi"

definition machine_wf :: "Program \<Rightarrow> ProcessImage \<times> ParkedImage list \<Rightarrow> bool" where
  "machine_wf p s \<longleftrightarrow> image_wf (fst s) \<and> im_program (fst s) = Some p \<and>
     (\<forall>pk \<in> set (snd s). parked_sizes (process_image p) pk)"

lemma parked_fits_sizes:
  "image_wf im \<Longrightarrow> im_program im = Some p \<Longrightarrow> parked_fits im pk = parked_sizes (process_image p) pk"
  by (auto simp: image_wf_def sizes_ok_def parked_fits_def parked_sizes_def)

lemma image_step_wf:
  assumes "image_step s s'" "machine_wf p s"
  shows "machine_wf p s'"
  using assms
proof (induction rule: image_step.induct)
  case (step_submit data n im version im' e pks)
  then show ?case using submit_input_ok [of im data n version] by (auto simp: machine_wf_def)
next
  case (step_output im hb n m im' pks)
  then show ?case using snapshot_image_ok(1) [of im hb n] by (auto simp: machine_wf_def)
next
  case (step_memory im hb n m im' pks)
  then show ?case using snapshot_image_ok(2) [of im hb n] by (auto simp: machine_wf_def)
next
  case (step_force im i ty v n owner release im' e ver pks)
  then show ?case using queue_force_index_wf [OF _ step_force(1)] by (simp add: machine_wf_def)
next
  case (step_release im i owner release im' e ver pks)
  then show ?case using queue_release_index_wf [OF _ step_release(1)] by (simp add: machine_wf_def)
next
  case (step_encode im kind hb n se bs im' pks)
  then show ?case using encode_snapshot_wf [of im kind hb n] by (auto simp: machine_wf_def)
next
  case (step_restore im kind bytes se rep im' pks)
  then have "image_wf im" by (simp add: machine_wf_def)
  then obtain e' rep' im'' where r: "restore_snapshot im kind bytes = Some (e', rep', im'')"
    "image_wf im''" "im_program im'' = im_program im" by (rule restore_snapshot_ok)
  with step_restore show ?case by (simp add: machine_wf_def)
next
  case (step_begin im vars layout vars' im' pks)
  then have w: "image_wf im" "im_program im = Some p" by (simp_all add: machine_wf_def)
  obtain im1 where "scan_boundary im = Some im1" using scan_boundary_ok [OF w(1)] by blast
  have lay: "scan_layout (process_image p) (length vars) (located_vars layout)" using step_begin(1) w by simp
  from begin_scan_ok [OF w lay \<open>scan_boundary im = Some im1\<close>] step_begin show ?case
    by (auto simp: machine_wf_def)
next
  case (step_store im pks layout offset ty)
  then show ?case using mark_store_wf by (simp add: machine_wf_def)
next
  case (step_commit im vars layout publish im' pks)
  then have w: "image_wf im" "im_program im = Some p" by (simp_all add: machine_wf_def)
  have lay: "scan_layout (process_image p) (length vars) (located_vars layout)" using step_commit(1) w by simp
  from commit_scan_ok [OF w lay, of publish] step_commit show ?case by (auto simp: machine_wf_def)
next
  case (step_discard im im' pks)
  then have w: "image_wf im" by (simp add: machine_wf_def)
  obtain out ov mem mv where "channel_value (im_output_channel im) = Some (out, ov)"
    "channel_value (im_memory_channel im) = Some (mem, mv)" by (rule image_wf_published [OF w])
  from discard_scan_ok [OF w this] step_discard show ?case by (auto simp: machine_wf_def)
next
  case (step_begin_tx im owner release im' pks)
  then show ?case using begin_transaction_ok [of im owner release] by (auto simp: machine_wf_def)
next
  case (step_commit_tx im im' pks)
  then show ?case using commit_transaction_ok [of im] by (auto simp: machine_wf_def)
next
  case (step_park im os ms pk pks)
  then have "parked_fits im pk" by (simp add: machine_wf_def park_transaction_fits)
  with step_park show ?case by (simp add: machine_wf_def parked_fits_sizes)
next
  case (step_unpark pk pks im os ms im' ok)
  then have "parked_fits im pk" by (simp add: machine_wf_def parked_fits_sizes)
  with step_unpark show ?case using restore_transaction_wf [OF _ _ step_unpark(2)] by (simp add: machine_wf_def)
qed

lemma image_reach_wf:
  assumes "image_reach p s" "loadable p"
  shows "machine_wf p s"
  using assms
proof (induction rule: image_reach.induct)
  case (reach_load im has_buffer n im')
  with load_image_ok show ?case by (simp add: machine_wf_def)
next
  case (reach_step s s')
  then show ?case using image_step_wf by blast
qed

text \<open>No operation spins on a reachable image.\<close>

lemma image_never_spins:
  assumes "image_wf im"
  shows "\<forall>bs. data = Some bs \<longrightarrow> n \<le> length bs \<Longrightarrow> submit_input im data n version \<noteq> None"
    and "output_snapshot im hb n \<noteq> None" and "memory_snapshot im hb n \<noteq> None"
    and "encode_snapshot im kind hb n \<noteq> None" and "restore_snapshot im kind bytes \<noteq> None"
    and "begin_scan im layout vars \<noteq> None" and "commit_transaction im \<noteq> None"
    and "begin_transaction im owner release \<noteq> None" and "discard_scan im \<noteq> None"
proof -
  show "submit_input im data n version \<noteq> None" if "\<forall>bs. data = Some bs \<longrightarrow> n \<le> length bs"
    using submit_input_ok [OF assms that, of version] by auto
  show "output_snapshot im hb n \<noteq> None" "memory_snapshot im hb n \<noteq> None"
    using snapshot_image_ok [OF assms, of hb n] by auto
  show "encode_snapshot im kind hb n \<noteq> None" using encode_snapshot_wf [OF assms, of kind hb n] by auto
  show "restore_snapshot im kind bytes \<noteq> None"
    by (rule restore_snapshot_ok [OF assms, of kind bytes]) simp
  show "begin_scan im layout vars \<noteq> None"
    using scan_boundary_ok [OF assms] by (auto simp: begin_scan_def scan_boundary_def split: if_splits)
  show "commit_transaction im \<noteq> None" using commit_transaction_ok [OF assms] by auto
  show "begin_transaction im owner release \<noteq> None"
    using begin_transaction_ok [OF assms, of owner release] by auto
  obtain out ov mem mv where "channel_value (im_output_channel im) = Some (out, ov)"
    "channel_value (im_memory_channel im) = Some (mem, mv)" by (rule image_wf_published [OF assms])
  from discard_scan_ok [OF assms this] show "discard_scan im \<noteq> None" by auto
qed

end
