(* ===== verification/Plant.thy ===== *)
theory Plant
  imports ImageOps ImageRoundTrip
begin

text \<open>
  A small compiled program on which the general theorems are instantiated: an input bit, an output
  byte, a retained memory word, and its loaded process image.
\<close>

definition plant_input :: LocatedVarInfo where
  "plant_input = \<lparr> lv_name = ''Start'', lv_lower = ''start'', lv_type_id = 1, lv_area = PA_input,
     lv_byte_offset = 0, lv_var_offset = 4, lv_byte_width = 1, lv_bit = 3, lv_bit_address = True,
     lv_retain = False, lv_persistent = False, lv_shared = False, lv_stable_id = 11 \<rparr>"

definition plant_output :: LocatedVarInfo where
  "plant_output = \<lparr> lv_name = ''Valve'', lv_lower = ''valve'', lv_type_id = 13, lv_area = PA_output,
     lv_byte_offset = 0, lv_var_offset = 0, lv_byte_width = 1, lv_bit = 0, lv_bit_address = False,
     lv_retain = False, lv_persistent = False, lv_shared = False, lv_stable_id = 12 \<rparr>"

definition plant_counter :: LocatedVarInfo where
  "plant_counter = \<lparr> lv_name = ''Count'', lv_lower = ''count'', lv_type_id = 14, lv_area = PA_memory,
     lv_byte_offset = 0, lv_var_offset = 2, lv_byte_width = 2, lv_bit = 0, lv_bit_address = False,
     lv_retain = True, lv_persistent = False, lv_shared = False, lv_stable_id = 13 \<rparr>"

definition plant_image :: ProcessImageInfo where
  "plant_image = \<lparr> pi_variables = [plant_input, plant_output, plant_counter], pi_input_bytes = 1,
     pi_output_bytes = 1, pi_memory_bytes = 2, pi_max_force_entries = 1, pi_retain_entries = 1,
     pi_fingerprint = 99 \<rparr>"

definition plant :: Program where
  "plant = Program (empty_body\<lparr> pb_process_image := plant_image,
     pb_initial_data := [5, 0, 52, 18, 0, 0, 0, 0], pb_vars_bytes := 8 \<rparr>) []"

text \<open>The default-constructed image of \<open>process_image.h\<close>, and the image loaded for the program.\<close>

definition unloaded_image :: ProcessImage where
  "unloaded_image = \<lparr> im_program = None, im_input = [], im_output = [], im_memory = [],
     im_output_shadow = [], im_memory_shadow = [], im_current_output_dirty = [],
     im_current_memory_dirty = [], im_transaction_output_dirty = [], im_transaction_memory_dirty = [],
     im_forces = [], im_input_channel = prepare_channel ([], 0), im_output_channel = prepare_channel ([], 0),
     im_memory_channel = prepare_channel ([], 0), im_restore_channel = prepare_channel [],
     im_input_version = 0, im_output_version = 0, im_memory_version = 0, im_force_queue_version = 0,
     im_transaction_active = False \<rparr>"

definition fresh_machine :: ProcessImage where
  "fresh_machine = fst (load_image unloaded_image plant True 4)"

lemmas plant_defs = plant_def plant_image_def plant_input_def plant_output_def plant_counter_def

lemma plant_loadable: "loadable plant"
  by (auto simp: loadable_def image_layout_wf_def plant_defs located_in_def area_bytes_def retained_def
      disjoint_vars_def less_Suc_eq)

lemma plant_loads: "load_image unloaded_image plant True 4 = (fresh_machine, EC_ok)"
  by (simp add: fresh_machine_def prod_eq_iff) (simp add: load_image_def plant_defs Let_def split_beta)

lemma fresh_machine_wf:
  "image_wf fresh_machine" "im_program fresh_machine = Some plant" "\<not> im_transaction_active fresh_machine"
  using load_image_ok [OF plant_loadable plant_loads] by simp_all

lemma plant_layout: "scan_layout (process_image plant) 8 (located_vars plant)"
  by (simp add: scan_layout_def plant_defs located_in_def area_bytes_def separated_def slots_apart_def
      disjoint_vars_def)

lemma plant_machine:
  "im_output fresh_machine = [5]" "im_memory fresh_machine = [52, 18]"
  "channel_value (im_output_channel fresh_machine) = Some ([5], 0)"
  "channel_value (im_memory_channel fresh_machine) = Some ([52, 18], 0)"
  by (simp_all add: fresh_machine_def load_image_def plant_defs Let_def split_beta write_initials_def
      write_var_def var_bytes_def seg_def write_image_value_def blit_def initialize_channel_def
      prepare_channel_def channel_value_def set_state_def set_data_def)

text \<open>One payload delivered by a channel of one cell.\<close>

lemma fresh_channel_slots_ok: "slots_ok 1 (initialize_channel (prepare_channel [0]) [42 :: nat]) {[42]}"
  by (auto simp: slots_ok_def initialize_channel_def prepare_channel_def set_state_def set_data_def less_Suc_eq
      numeral_3_eq_3)

lemma plant_encodes: "\<exists>bs im'. encode_snapshot fresh_machine SK_retain True 64 = Some (SE_ok, bs, im')"
proof -
  have "channel_wf (im_memory_channel fresh_machine)"
    using fresh_machine_wf(1) by (auto simp: image_wf_def channels_ok_def channel_holds_def)
  from snapshot_slot_ok [OF this plant_machine(4)] obtain c
    where "snapshot_slot (im_memory_channel fresh_machine) = Some (Inr (([52, 18], 0), c))" by blast
  then show ?thesis
    by (simp add: encode_snapshot_def fresh_machine_wf snapshot_channel_def required_size_def snapshot_member_def
        plant_defs Let_def)
qed


lemma one_delivery:
  "\<exists>s. channel_reach 1 (initialize_channel (prepare_channel [0]) [42 :: nat]) {[42]} s \<and> th_delivered s = [[42]]"
proof -
  let ?c = "initialize_channel (prepare_channel [0]) [42 :: nat]"
  let ?c3 = "fst (slot_cas ?c 0 Slot_published Slot_reading)"
  let ?s0 = "\<lparr> th_chan = ?c, th_pc = (\<lambda>_. Idle), th_submitted = {[42]}, th_delivered = [] \<rparr>"
  let ?s1 = "move ?s0 0 ?c (Read_load True)"
  let ?s2 = "move ?s1 0 ?c (Read_claim True 0)"
  let ?s3 = "move ?s2 0 ?c3 (Copy_out True 0 0 [])"
  let ?s4 = "move ?s3 0 ?c3 (Copy_out True 0 1 [42])"
  let ?s5 = "(move ?s4 0 (th_chan ?s4) (Fin_empty 0))\<lparr> th_delivered := [[42]] \<rparr>"
  let ?reach = "channel_reach 1 ?c {[42]}"
  have c: "ch_published ?c = Some 0" "slot_cas ?c 0 Slot_published Slot_reading = (?c3, True)" "data_at ?c3 0 = [42]"
    by (simp_all add: initialize_channel_def prepare_channel_def set_state_def set_data_def slot_cas_def)
  from channel_reach.step [OF channel_reach.start channel_step.call_read [of ?s0 0 1 True]]
  have s1: "?reach ?s1" by simp
  from channel_reach.step [OF s1 channel_step.read_load [of ?s1 0 True 1]]
  have s2: "?reach ?s2" by (simp add: move_def c(1))
  have cas: "slot_cas (th_chan ?s2) 0 Slot_published Slot_reading = (?c3, True)"
    using c(2) by (simp add: move_def)
  from channel_reach.step [OF s2 channel_step.read_claim [of ?s2 0 True 0 ?c3 True 1, OF _ cas]]
  have s3: "?reach ?s3" by (simp add: move_def)
  from channel_reach.step [OF s3 channel_step.copy_out [of ?s3 0 True 0 0 "[]" 1]]
  have s4: "?reach ?s4" by (simp add: move_def c(3))
  from channel_reach.step [OF s4 channel_step.copy_out_done [of ?s4 0 True 0 1 "[42]"]]
  have "?reach ?s5" by (simp add: move_def)
  moreover have "th_delivered ?s5 = [[42]]" by simp
  ultimately show ?thesis by blast
qed

end
