(* ===== verification/ScanInstance.thy ===== *)
theory ScanInstance
  imports ImageOps
begin

text \<open>
  What the configuration runtime sees of a program instance (\<open>Instance\<close> in \<open>core/st/vm.h\<close>): the scan
  errors and the operations it calls, as a record of functions over an abstract instance state, so
  that the scheduler can be stated for any instance and applied to the interpreter. An operation
  that touches the process image takes and returns it; \<open>None\<close> is a call that never returns.
\<close>

datatype ScanError =
    Scan_ok | Scan_not_loaded | Scan_division_by_zero | Scan_for_step_zero | Scan_budget_exceeded
  | Scan_invalid_bytecode | Scan_conversion_invalid | Scan_range_violation
  | Scan_string_capacity_exceeded | Scan_date_time_range_violation | Scan_alias_violation
  | Scan_invalid_argument | Scan_paused

primrec scan_error_to_string :: "ScanError \<Rightarrow> string" where
  "scan_error_to_string Scan_ok = ''ok''"
| "scan_error_to_string Scan_not_loaded = ''not_loaded''"
| "scan_error_to_string Scan_division_by_zero = ''division_by_zero''"
| "scan_error_to_string Scan_for_step_zero = ''for_step_zero''"
| "scan_error_to_string Scan_budget_exceeded = ''budget_exceeded''"
| "scan_error_to_string Scan_invalid_bytecode = ''invalid_bytecode''"
| "scan_error_to_string Scan_conversion_invalid = ''conversion_invalid''"
| "scan_error_to_string Scan_range_violation = ''range_violation''"
| "scan_error_to_string Scan_string_capacity_exceeded = ''string_capacity_exceeded''"
| "scan_error_to_string Scan_date_time_range_violation = ''date_time_range_violation''"
| "scan_error_to_string Scan_alias_violation = ''alias_violation''"
| "scan_error_to_string Scan_invalid_argument = ''invalid_argument''"
| "scan_error_to_string Scan_paused = ''paused''"

record 'v instance_ops =
  op_new :: 'v
  op_load :: "'v \<Rightarrow> Program \<Rightarrow> nat \<Rightarrow> int \<Rightarrow> ProcessImage \<Rightarrow> 'v \<times> ErrorCode"
  op_defer :: "'v \<Rightarrow> bool \<Rightarrow> 'v"
  op_begin :: "'v \<Rightarrow> int \<Rightarrow> ProcessImage \<Rightarrow> ('v \<times> ProcessImage \<times> ScanError) option"
  op_resume :: "'v \<Rightarrow> int \<Rightarrow> ProcessImage \<Rightarrow> ('v \<times> ProcessImage \<times> int \<times> ScanError) option"
  op_abort :: "'v \<Rightarrow> 'v"
  op_reset :: "'v \<Rightarrow> 'v"
  op_running :: "'v \<Rightarrow> bool"
  op_complete :: "'v \<Rightarrow> bool"
  op_remaining_budget :: "'v \<Rightarrow> int"
  op_instruction_offset :: "'v \<Rightarrow> nat"
  op_fault_sfc_network_index :: "'v \<Rightarrow> nat"
  op_fault_sfc_element_index :: "'v \<Rightarrow> nat"
  op_fault_sfc_element_kind :: "'v \<Rightarrow> TaskFaultElementKind"


section \<open>The contract of an instance\<close>

definition published :: "ProcessImage \<Rightarrow> image_message option \<times> image_message option" where
  "published im = (channel_value (im_output_channel im), channel_value (im_memory_channel im))"

text \<open>\<open>fits ip c\<close>: the program \<open>c\<close> may run on an image loaded for \<open>ip\<close>. \<open>inv ip v\<close>: the instance
  state \<open>v\<close> may run against the image described by \<open>ip\<close> and defers its publication. A begun or
  resumed scan returns, keeps the image well formed, leaves the published images alone and reports
  between zero and \<open>q\<close> executed instructions; a running instance that reports no error has executed one.\<close>

definition keeps_image :: "ProcessImage \<Rightarrow> ProcessImage \<Rightarrow> bool" where
  "keeps_image im im' \<longleftrightarrow> image_wf im' \<and> im_program im' = im_program im \<and>
     im_transaction_active im' = im_transaction_active im \<and> published im' = published im"

locale scan_instance =
  fixes ops :: "'v instance_ops" and inv :: "Program \<Rightarrow> 'v \<Rightarrow> bool" and fits :: "Program \<Rightarrow> Program \<Rightarrow> bool"
  assumes inv_abort: "inv ip v \<Longrightarrow> inv ip (op_abort ops v)"
    and inv_reset: "inv ip v \<Longrightarrow> inv ip (op_reset ops v)"
    and inv_new: "inv ip (op_new ops)"
    and inv_load: "inv ip v \<Longrightarrow> fits ip c \<Longrightarrow> image_wf im \<Longrightarrow> im_program im = Some ip \<Longrightarrow>
      inv ip (op_defer ops (fst (op_load ops v c n period im)) True)"
    and begin_ok: "inv ip v \<Longrightarrow> image_wf im \<Longrightarrow> im_program im = Some ip \<Longrightarrow> im_transaction_active im \<Longrightarrow>
      \<exists>v' im' e. op_begin ops v budget im = Some (v', im', e) \<and> inv ip v' \<and> keeps_image im im' \<and>
        (e = Scan_ok \<longrightarrow> op_remaining_budget ops v' \<le> budget \<and> op_running ops v')"
    and resume_ok: "inv ip v \<Longrightarrow> image_wf im \<Longrightarrow> im_program im = Some ip \<Longrightarrow> im_transaction_active im \<Longrightarrow> 0 < q \<Longrightarrow>
      \<exists>v' im' n e. op_resume ops v q im = Some (v', im', n, e) \<and> inv ip v' \<and> keeps_image im im' \<and>
        0 \<le> n \<and> n \<le> q \<and> (op_running ops v \<and> e = Scan_ok \<longrightarrow> 0 < n)"

end
