(* ===== verification/VmMemory.thy ===== *)
theory VmMemory
  imports ScanInstance Ieee
begin

text \<open>
  What an instruction reads and writes (\<open>core/st/vm.h\<close>): operands of the code stream, STRING and
  WSTRING objects, and typed values of the variable area. Offsets are naturals, a \<open>const unsigned
  char *\<close> to an object is the rest of its byte area from that offset on, and a read that fails is
  \<open>None\<close>.
\<close>

section \<open>Operands of the code stream\<close>

definition rd16 :: "bytes \<Rightarrow> nat \<Rightarrow> (nat \<times> nat) option" where
  "rd16 code pc = (if pc + 2 > length code then None
     else Some (unat (le_value (seg code pc 2)), pc + 2))"

definition rd32 :: "bytes \<Rightarrow> nat \<Rightarrow> (nat \<times> nat) option" where
  "rd32 code pc = (if pc + 4 > length code then None
     else Some (unat (le_value (seg code pc 4)), pc + 4))"

definition rd64 :: "bytes \<Rightarrow> nat \<Rightarrow> (u64 \<times> nat) option" where
  "rd64 code pc = (case rd32 code pc of
     None \<Rightarrow> None
   | Some (low, pc1) \<Rightarrow> (case rd32 code pc1 of
       None \<Rightarrow> None
     | Some (high, pc2) \<Rightarrow> Some (of_nat low OR push_bit 32 (of_nat high), pc2)))"

definition read_le32 :: "bytes \<Rightarrow> nat" where
  "read_le32 bs = unat (le_value (seg bs 0 4))"


section \<open>Strings\<close>

text \<open>\<open>next_utf8 bs n at\<close>: the scalar of the UTF-8 sequence at \<open>at\<close> and the position after it, for a
  text of \<open>n\<close> bytes. \<open>utf8_tail\<close> is the loop over the continuation bytes.\<close>

fun utf8_tail :: "bytes \<Rightarrow> u8 \<Rightarrow> nat \<Rightarrow> bool \<Rightarrow> nat \<Rightarrow> u32 \<Rightarrow> (u32 \<times> nat) option" where
  "utf8_tail bs lead 0 first at scalar = Some (scalar, at)"
| "utf8_tail bs lead (Suc n) first at scalar =
     (let part = bs ! at
      in if part AND 0xC0 \<noteq> 0x80 then None
         else if first \<and> ((lead = 0xE0 \<and> part < 0xA0) \<or> (lead = 0xED \<and> part > 0x9F) \<or>
                          (lead = 0xF0 \<and> part < 0x90) \<or> (lead = 0xF4 \<and> part > 0x8F)) then None
         else utf8_tail bs lead n False (at + 1) (push_bit 6 scalar OR ucast (part AND 0x3F)))"

definition surrogate :: "u32 \<Rightarrow> bool" where
  "surrogate c \<longleftrightarrow> 0xD800 \<le> c \<and> c \<le> 0xDFFF"

definition next_utf8 :: "bytes \<Rightarrow> nat \<Rightarrow> nat \<Rightarrow> (u32 \<times> nat) option" where
  "next_utf8 bs n at =
     (if at \<ge> n then None
      else let lead = bs ! at; at1 = at + 1
        in if lead < 0x80 then Some (ucast lead, at1)
           else let form = (if 0xC2 \<le> lead \<and> lead \<le> 0xDF then Some (ucast (lead AND 0x1F), 1)
                  else if 0xE0 \<le> lead \<and> lead \<le> 0xEF then Some (ucast (lead AND 0x0F), 2)
                  else if 0xF0 \<le> lead \<and> lead \<le> 0xF4 then Some (ucast (lead AND 0x07), 3)
                  else None)
             in case form of
                  None \<Rightarrow> None
                | Some (scalar, count) \<Rightarrow>
                    if count > n - at1 then None
                    else case utf8_tail bs lead count True at1 scalar of
                      None \<Rightarrow> None
                    | Some (s, at2) \<Rightarrow> if s \<le> 0x10FFFF \<and> \<not> surrogate s then Some (s, at2) else None)"

lemma utf8_tail_at: "utf8_tail bs lead n first at scalar = Some (s, at') \<Longrightarrow> at' = at + n"
  by (induction bs lead n first at scalar rule: utf8_tail.induct)
    (auto simp: Let_def split: if_splits)

lemma next_utf8_at: "next_utf8 bs n at = Some (s, at') \<Longrightarrow> at < at' \<and> at' \<le> n"
  by (auto simp: next_utf8_def Let_def split: if_splits option.splits dest!: utf8_tail_at)

text \<open>The scalars of a text, or \<open>None\<close> when it is not valid UTF-8: the loop of \<open>valid_string_object\<close>.\<close>

function utf8_scalars :: "bytes \<Rightarrow> nat \<Rightarrow> nat \<Rightarrow> u32 list option" where
  "utf8_scalars bs n at =
     (if at \<ge> n then Some []
      else case next_utf8 bs n at of
        None \<Rightarrow> None
      | Some (s, at') \<Rightarrow> (case utf8_scalars bs n at' of None \<Rightarrow> None | Some ss \<Rightarrow> Some (s # ss)))"
  by pat_completeness auto

termination utf8_scalars
  by (relation "measure (\<lambda>(bs, n, at). n - at)") (auto dest: next_utf8_at)

declare utf8_scalars.simps [simp del]

abbreviation is_text :: "TypeDesc \<Rightarrow> bool" where
  "is_text d \<equiv> td_kind d = TK_string \<or> td_kind d = TK_wstring"

definition wide_unit :: "bytes \<Rightarrow> nat \<Rightarrow> u32" where
  "wide_unit obj i = of_nat (read_le32 (drop (4 + i * 4) obj))"

definition valid_scalar :: "u32 \<Rightarrow> bool" where
  "valid_scalar c \<longleftrightarrow> c \<le> 0x10FFFF \<and> \<not> surrogate c"

definition valid_string_object :: "bytes \<Rightarrow> TypeDesc \<Rightarrow> bool" where
  "valid_string_object obj d =
     (let n = read_le32 obj
      in if n > td_capacity d then False
         else if td_kind d = TK_wstring then list_all (\<lambda>i. valid_scalar (wide_unit obj i)) [0..<n]
         else if td_kind d \<noteq> TK_string then False
         else utf8_scalars (drop 4 obj) n 0 \<noteq> None)"

text \<open>\<open>compare_strings\<close>: \<open>None\<close> is its result 2.\<close>

fun compare_wide :: "bytes \<Rightarrow> bytes \<Rightarrow> nat \<Rightarrow> nat \<Rightarrow> nat \<Rightarrow> nat \<Rightarrow> int" where
  "compare_wide l r nl nr i 0 = (if nl = nr then 0 else if nl < nr then -1 else 1)"
| "compare_wide l r nl nr i (Suc k) =
     (let a = wide_unit l i; b = wide_unit r i
      in if a \<noteq> b then (if a < b then -1 else 1) else compare_wide l r nl nr (i + 1) k)"

function compare_utf8 :: "bytes \<Rightarrow> bytes \<Rightarrow> nat \<Rightarrow> nat \<Rightarrow> nat \<Rightarrow> nat \<Rightarrow> int option" where
  "compare_utf8 l r nl nr al ar =
     (if al < nl \<and> ar < nr
      then (case next_utf8 l nl al of
              None \<Rightarrow> None
            | Some (a, al') \<Rightarrow>
                (case next_utf8 r nr ar of
                   None \<Rightarrow> None
                 | Some (b, ar') \<Rightarrow>
                     if a \<noteq> b then Some (if a < b then -1 else 1)
                     else compare_utf8 l r nl nr al' ar'))
      else Some (if al = nl \<and> ar = nr then 0 else if al = nl then -1 else 1))"
  by pat_completeness auto

termination compare_utf8
  by (relation "measure (\<lambda>(l, r, nl, nr, al, ar). nl - al)") (auto dest: next_utf8_at)

declare compare_utf8.simps [simp del]

definition compare_strings :: "bytes \<Rightarrow> TypeDesc \<Rightarrow> bytes \<Rightarrow> TypeDesc \<Rightarrow> int option" where
  "compare_strings l dl r dr =
     (if \<not> valid_string_object l dl \<or> \<not> valid_string_object r dr then None
      else let nl = read_le32 l; nr = read_le32 r
        in if td_kind dl = TK_wstring then Some (compare_wide l r nl nr 0 (min nl nr))
           else compare_utf8 (drop 4 l) (drop 4 r) nl nr 0 0)"


section \<open>Typed values\<close>

abbreviation types :: "Program \<Rightarrow> TypeTable" where "types p \<equiv> pb_types (body p)"
abbreviation vars_bytes :: "Program \<Rightarrow> nat" where "vars_bytes p \<equiv> pb_vars_bytes (body p)"

definition in_vars :: "Program \<Rightarrow> nat \<Rightarrow> nat \<Rightarrow> bool" where
  "in_vars p offset n \<longleftrightarrow> offset \<le> vars_bytes p \<and> n \<le> vars_bytes p - offset"

definition load_raw64 :: "Program \<Rightarrow> bytes \<Rightarrow> nat \<Rightarrow> u64 option" where
  "load_raw64 p xs offset = (if in_vars p offset 8 then Some (le_value (seg xs offset 8)) else None)"

definition store_raw64 :: "Program \<Rightarrow> bytes \<Rightarrow> nat \<Rightarrow> u64 \<Rightarrow> bytes option" where
  "store_raw64 p xs offset v = (if in_vars p offset 8 then Some (blit offset (le_bytes 8 v) xs) else None)"

text \<open>The types a slot can hold, and the base that decides how it is read.\<close>

definition slot_access :: "Program \<Rightarrow> TypeDesc \<Rightarrow> nat \<Rightarrow> bool" where
  "slot_access p d offset \<longleftrightarrow> td_kind d \<noteq> TK_array \<and> td_kind d \<noteq> TK_struct \<and> td_size d \<noteq> 0 \<and>
     td_size d \<le> 8 \<and> in_vars p offset (td_size d)"

definition slot_base :: "TypeId \<Rightarrow> TypeDesc \<Rightarrow> Type" where
  "slot_base ty d = type_from_id (if td_kind d = TK_enum then td_enum_base d
     else if td_kind d = TK_subrange then sr_base (td_subrange d) else ty)"

definition widen_raw :: "Type \<Rightarrow> nat \<Rightarrow> u64 \<Rightarrow> u64" where
  "widen_raw t n raw =
     (if t = T_real then double_bits (raw_float (ucast raw))
      else if (is_signed_int t \<or> t = T_date) \<and> n < 8
      then let sign = push_bit (n * 8 - 1) 1 in (raw XOR sign) - sign
      else raw)"

definition load_value :: "Program \<Rightarrow> bytes \<Rightarrow> nat \<Rightarrow> TypeId \<Rightarrow> u64 option" where
  "load_value p xs offset ty =
     (case get_type (types p) ty of
        None \<Rightarrow> if ty = invalid_type_id then load_raw64 p xs offset else None
      | Some d \<Rightarrow>
          if \<not> slot_access p d offset then None
          else Some (widen_raw (slot_base ty d) (td_size d) (le_value (seg xs offset (td_size d)))))"

definition narrow_raw :: "Type \<Rightarrow> u64 \<Rightarrow> u64" where
  "narrow_raw t v = (if t = T_real then ucast (float_raw (bits_double v)) else v)"

definition store_value ::
  "Program \<Rightarrow> bytes \<Rightarrow> ProcessImage option \<Rightarrow> nat \<Rightarrow> TypeId \<Rightarrow> u64 \<Rightarrow> (bytes \<times> ProcessImage option) option"
where
  "store_value p xs im offset ty v =
     (let v1 = (case im of None \<Rightarrow> v
                | Some i \<Rightarrow> (case forced_store i p offset ty of None \<Rightarrow> v | Some forced \<Rightarrow> forced))
      in case get_type (types p) ty of
           None \<Rightarrow> if ty = invalid_type_id
             then map_option (\<lambda>xs'. (xs', im)) (store_raw64 p xs offset v1) else None
         | Some d \<Rightarrow>
             if \<not> slot_access p d offset then None
             else Some (blit offset (le_bytes (td_size d) (narrow_raw (slot_base ty d) v1)) xs,
                        map_option (\<lambda>i. mark_store i p offset ty) im))"

end
