(* ===== verification/VmMachine.thy ===== *)
theory VmMachine
  imports VmMemory
begin

text \<open>
  The machine the instructions of \<open>core/st/vm.h\<close> act on: the variable area, the bound process image,
  the evaluation stack (top first, so \<open>sp\<close> is its length), the program counters, the remaining
  budget and the state behind the native function blocks. The body of one instruction is built from
  combinators that stand for the recurring guards of the switch: a failed guard latches a scan error
  in the machine reached so far.

  The native function blocks are generated C++ over the motion library; they are the record
  \<open>native_ops\<close> over an abstract state, which also holds the debug hooks.
\<close>

record 'n native_ops =
  nv_pin_count :: "nat \<Rightarrow> nat"
  nv_store_pin :: "'n \<Rightarrow> Program \<Rightarrow> FbInfo \<Rightarrow> nat \<Rightarrow> u64 \<Rightarrow> 'n option"
  nv_load_pin :: "'n \<Rightarrow> Program \<Rightarrow> FbInfo \<Rightarrow> nat \<Rightarrow> u64 option"
  nv_store_object :: "'n \<Rightarrow> FbInfo \<Rightarrow> nat \<Rightarrow> bytes \<Rightarrow> TypeId \<Rightarrow> 'n option"
  nv_load_object :: "'n \<Rightarrow> FbInfo \<Rightarrow> nat \<Rightarrow> TypeId \<Rightarrow> nat \<Rightarrow> (nat \<Rightarrow> u8) option"
  nv_cycle :: "'n \<Rightarrow> FbInfo \<Rightarrow> int \<Rightarrow> 'n"
  nv_on_probe :: "'n \<Rightarrow> nat \<Rightarrow> nat \<Rightarrow> nat \<Rightarrow> 'n \<times> bool"

record 'n machine =
  mc_vars :: bytes
  mc_image :: "ProcessImage option"
  mc_stack :: "u64 list"
  mc_pc :: nat
  mc_instruction_pc :: nat
  mc_remaining :: int
  mc_executed :: int
  mc_last_probe :: "(nat \<times> nat) option"
  mc_native :: 'n

text \<open>What stays fixed while a slice runs: the program, the selected code with its constants and stack
  limit, the number of its source-map entries, the task period, the debug attachment, and what
  the slots above the stack hold.\<close>

record 'n vm_context =
  cx_program :: Program
  cx_code :: bytes
  cx_constants :: "u64 list"
  cx_stack_limit :: nat
  cx_source_entries :: nat
  cx_period :: int
  cx_hooks :: bool
  cx_mapping :: nat
  cx_native :: "'n native_ops"
  cx_libm :: libm
  cx_stale :: "nat \<Rightarrow> u64"

datatype 'n outcome = Next "'n machine" | Fault ScanError "'n machine"


section \<open>Guards and operands\<close>

definition require :: "bool \<Rightarrow> ScanError \<Rightarrow> 'n machine \<Rightarrow> 'n outcome \<Rightarrow> 'n outcome" where
  "require ok e m k = (if ok then k else Fault e m)"

abbreviation valid :: "bool \<Rightarrow> 'n machine \<Rightarrow> 'n outcome \<Rightarrow> 'n outcome" where
  "valid ok m k \<equiv> require ok Scan_invalid_bytecode m k"

definition the_or :: "'a option \<Rightarrow> ScanError \<Rightarrow> 'n machine \<Rightarrow> ('a \<Rightarrow> 'n outcome) \<Rightarrow> 'n outcome" where
  "the_or x e m k = (case x of None \<Rightarrow> Fault e m | Some v \<Rightarrow> k v)"

abbreviation some :: "'a option \<Rightarrow> 'n machine \<Rightarrow> ('a \<Rightarrow> 'n outcome) \<Rightarrow> 'n outcome" where
  "some x m k \<equiv> the_or x Scan_invalid_bytecode m k"

definition operand ::
  "(bytes \<Rightarrow> nat \<Rightarrow> ('a \<times> nat) option) \<Rightarrow> 'n vm_context \<Rightarrow> 'n machine \<Rightarrow> ('a \<Rightarrow> 'n machine \<Rightarrow> 'n outcome) \<Rightarrow> 'n outcome"
where
  "operand rd cx m k = (case rd (cx_code cx) (mc_pc m) of
     None \<Rightarrow> Fault Scan_invalid_bytecode m | Some (v, pc) \<Rightarrow> k v (m\<lparr> mc_pc := pc \<rparr>))"

definition rd8 :: "bytes \<Rightarrow> nat \<Rightarrow> (u8 \<times> nat) option" where
  "rd8 code pc = (if pc \<ge> length code then None else Some (code ! pc, pc + 1))"

abbreviation operand8 :: "'n vm_context \<Rightarrow> 'n machine \<Rightarrow> (u8 \<Rightarrow> 'n machine \<Rightarrow> 'n outcome) \<Rightarrow> 'n outcome" where
  "operand8 \<equiv> operand rd8"
abbreviation operand16 :: "'n vm_context \<Rightarrow> 'n machine \<Rightarrow> (nat \<Rightarrow> 'n machine \<Rightarrow> 'n outcome) \<Rightarrow> 'n outcome" where
  "operand16 \<equiv> operand rd16"
abbreviation operand32 :: "'n vm_context \<Rightarrow> 'n machine \<Rightarrow> (nat \<Rightarrow> 'n machine \<Rightarrow> 'n outcome) \<Rightarrow> 'n outcome" where
  "operand32 \<equiv> operand rd32"
abbreviation operand64 :: "'n vm_context \<Rightarrow> 'n machine \<Rightarrow> (u64 \<Rightarrow> 'n machine \<Rightarrow> 'n outcome) \<Rightarrow> 'n outcome" where
  "operand64 \<equiv> operand rd64"

definition pop :: "'n machine \<Rightarrow> (u64 \<Rightarrow> 'n machine \<Rightarrow> 'n outcome) \<Rightarrow> 'n outcome" where
  "pop m k = (case mc_stack m of [] \<Rightarrow> Fault Scan_invalid_bytecode m
     | a # st \<Rightarrow> k a (m\<lparr> mc_stack := st \<rparr>))"

definition pop2 :: "'n machine \<Rightarrow> (u64 \<Rightarrow> u64 \<Rightarrow> 'n machine \<Rightarrow> 'n outcome) \<Rightarrow> 'n outcome" where
  "pop2 m k = (case mc_stack m of b # a # st \<Rightarrow> k a b (m\<lparr> mc_stack := st \<rparr>)
     | _ \<Rightarrow> Fault Scan_invalid_bytecode m)"

definition push :: "u64 \<Rightarrow> 'n machine \<Rightarrow> 'n machine" where
  "push v m = m\<lparr> mc_stack := v # mc_stack m \<rparr>"

definition room :: "'n vm_context \<Rightarrow> 'n machine \<Rightarrow> bool" where
  "room cx m \<longleftrightarrow> length (mc_stack m) < cx_stack_limit cx"

text \<open>\<open>charge_operation\<close>: the weight of an instruction beyond the one unit it always costs.\<close>

definition charge :: "nat \<Rightarrow> ScanError \<Rightarrow> 'n machine \<Rightarrow> ('n machine \<Rightarrow> 'n outcome) \<Rightarrow> 'n outcome" where
  "charge cost e m k =
     (let extra = int (cost - 1)
      in if mc_remaining m < extra then Fault e m
         else k (m\<lparr> mc_remaining := mc_remaining m - extra \<rparr>))"

definition as_i64 :: "u64 \<Rightarrow> int" where "as_i64 v = sint v"

definition flag :: "bool \<Rightarrow> u64" where "flag b = (if b then 1 else 0)"

text \<open>\<open>static_cast<Type>\<close> of an operand byte. A byte that is no enumerator takes the default branch of
  every function on types, as \<open>TIME\<close> does.\<close>

definition type_code :: "u8 \<Rightarrow> Type" where
  "type_code b =
     (let table = [T_bool, T_int, T_dint, T_real, T_lreal, T_time, T_sint, T_lint, T_usint, T_uint,
            T_udint, T_ulint, T_byte, T_word, T_dword, T_lword, T_axis_ref, T_char, T_wchar, T_string,
            T_wstring, T_date, T_tod, T_dt, T_group_ref]
      in if unat b < length table then table ! unat b else T_time)"

end
