(* ===== verification/VmMove.thy ===== *)
theory VmMove
  imports VmMachine
begin

text \<open>
  The instructions that move values and steer control (\<open>Instance::resume\<close> in \<open>core/st/vm.h\<close>):
  constants, variables, indexed access, block copies, the staged commit of outputs, jumps, FOR loops
  and the traffic with function blocks. Address arithmetic on indices is modulo $2^{64}$ as in the
  code, with its guard against leaving 32 bits.
\<close>

section \<open>Variables\<close>

definition push_const :: "'n vm_context \<Rightarrow> 'n machine \<Rightarrow> 'n outcome" where
  "push_const cx m = operand16 cx m (\<lambda>index m1.
     valid (index < length (cx_constants cx) \<and> room cx m1) m1
       (Next (push (cx_constants cx ! index) m1)))"

definition load_into :: "'n vm_context \<Rightarrow> nat \<Rightarrow> TypeId \<Rightarrow> 'n machine \<Rightarrow> 'n outcome" where
  "load_into cx offset ty m =
     some (load_value (cx_program cx) (mc_vars m) offset ty) m (\<lambda>v. Next (push v m))"

definition store_to :: "'n vm_context \<Rightarrow> nat \<Rightarrow> TypeId \<Rightarrow> u64 \<Rightarrow> 'n machine \<Rightarrow> 'n outcome" where
  "store_to cx offset ty v m =
     some (store_value (cx_program cx) (mc_vars m) (mc_image m) offset ty v) m
       (\<lambda>(vars, im). Next (m\<lparr> mc_vars := vars, mc_image := im \<rparr>))"

definition load_var :: "'n vm_context \<Rightarrow> 'n machine \<Rightarrow> 'n outcome" where
  "load_var cx m = operand32 cx m (\<lambda>offset m1. operand32 cx m1 (\<lambda>ty m2.
     valid (room cx m2) m2 (load_into cx offset ty m2)))"

definition store_var :: "'n vm_context \<Rightarrow> 'n machine \<Rightarrow> 'n outcome" where
  "store_var cx m = operand32 cx m (\<lambda>offset m1. operand32 cx m1 (\<lambda>ty m2.
     pop m2 (\<lambda>v m3. store_to cx offset ty v m3)))"


section \<open>Indexed access\<close>

text \<open>One round per index: the bounds and the stride follow in the code, the indices lie on the stack
  in source order. The offset stays within 32 bits.\<close>

primrec indexed ::
  "'n vm_context \<Rightarrow> u64 list \<Rightarrow> nat \<Rightarrow> 'n machine \<Rightarrow> (nat \<Rightarrow> 'n machine \<Rightarrow> 'n outcome) \<Rightarrow> 'n outcome"
where
  "indexed cx [] offset m k = k offset m"
| "indexed cx (v # vs) offset m k =
     operand64 cx m (\<lambda>lower m1. operand64 cx m1 (\<lambda>upper m2. operand64 cx m2 (\<lambda>stride m3.
       require (as_i64 lower \<le> as_i64 v \<and> as_i64 v \<le> as_i64 upper) Scan_range_violation m3
         (let delta = unat ((v - lower) * stride)
          in valid (delta \<le> u32_max - offset) m3 (indexed cx vs (offset + delta) m3 k)))))"

definition load_access :: "'n vm_context \<Rightarrow> 'n machine \<Rightarrow> 'n outcome" where
  "load_access cx m = operand32 cx m (\<lambda>offset m1. operand32 cx m1 (\<lambda>ty m2. operand8 cx m2 (\<lambda>cb m3.
     let count = unat cb; st = mc_stack m3
     in valid (count \<le> length st \<and> length st - count < cx_stack_limit cx) m3
          (indexed cx (rev (take count st)) offset m3 (\<lambda>at m4.
            load_into cx at ty (m4\<lparr> mc_stack := drop count st \<rparr>))))))"

definition store_access :: "'n vm_context \<Rightarrow> 'n machine \<Rightarrow> 'n outcome" where
  "store_access cx m = operand32 cx m (\<lambda>offset m1. operand32 cx m1 (\<lambda>ty m2. operand8 cx m2 (\<lambda>cb m3.
     let count = unat cb; st = mc_stack m3
     in valid (count + 1 \<le> length st) m3
          (indexed cx (rev (take count st)) offset m3 (\<lambda>at m4.
            store_to cx at ty (st ! count) (m4\<lparr> mc_stack := drop (count + 1) st \<rparr>))))))"


section \<open>Copies and the commit of outputs\<close>

definition copy_within :: "bytes \<Rightarrow> nat \<times> nat \<times> nat \<Rightarrow> bytes" where
  "copy_within xs c = (case c of (destination, source, n) \<Rightarrow> blit destination (seg xs source n) xs)"

definition copy_bytes :: "'n vm_context \<Rightarrow> 'n machine \<Rightarrow> 'n outcome" where
  "copy_bytes cx m = operand32 cx m (\<lambda>destination m1. operand32 cx m1 (\<lambda>source m2.
     operand32 cx m2 (\<lambda>count m3.
       valid (in_vars (cx_program cx) destination count \<and> in_vars (cx_program cx) source count) m3
         (Next (m3\<lparr> mc_vars := copy_within (mc_vars m3) (destination, source, count) \<rparr>)))))"

text \<open>The items checked so far, as destination, source and size.\<close>

definition clashes :: "nat \<Rightarrow> nat \<Rightarrow> nat \<times> nat \<times> nat \<Rightarrow> bool" where
  "clashes destination n prior = (case prior of (d, s, k) \<Rightarrow> destination < d + k \<and> d < destination + n)"

definition commit_item ::
  "'n vm_context \<Rightarrow> u64 list \<Rightarrow> (nat \<times> nat \<times> nat) list \<Rightarrow> 'n machine \<Rightarrow>
    (u64 list \<Rightarrow> (nat \<times> nat \<times> nat) list \<Rightarrow> 'n machine \<Rightarrow> 'n outcome) \<Rightarrow> 'n outcome"
where
  "commit_item cx idx items m k =
     operand32 cx m (\<lambda>source m1. operand32 cx m1 (\<lambda>source_type m2. operand32 cx m2 (\<lambda>destination m3.
     operand32 cx m3 (\<lambda>destination_type m4. operand8 cx m4 (\<lambda>ib m5.
       let indices = unat ib
       in valid (indices \<le> length idx) m5
            (indexed cx (take indices idx) destination m5 (\<lambda>at m6.
              valid (source_type = destination_type) m6
                (some (get_type (types (cx_program cx)) destination_type) m6 (\<lambda>d.
                  valid (td_size d \<noteq> 0 \<and> in_vars (cx_program cx) source (td_size d) \<and>
                      in_vars (cx_program cx) at (td_size d)) m6
                    (require (\<not> list_ex (clashes at (td_size d)) items) Scan_alias_violation m6
                      (k (drop indices idx) (items @ [(at, source, td_size d)]) m6)))))))))))"

primrec commit_items ::
  "'n vm_context \<Rightarrow> nat \<Rightarrow> u64 list \<Rightarrow> (nat \<times> nat \<times> nat) list \<Rightarrow> 'n machine \<Rightarrow>
    (u64 list \<Rightarrow> (nat \<times> nat \<times> nat) list \<Rightarrow> 'n machine \<Rightarrow> 'n outcome) \<Rightarrow> 'n outcome"
where
  "commit_items cx 0 idx items m k = k idx items m"
| "commit_items cx (Suc n) idx items m k =
     commit_item cx idx items m (\<lambda>idx' items' m'. commit_items cx n idx' items' m' k)"

definition commit_outputs :: "'n vm_context \<Rightarrow> 'n machine \<Rightarrow> 'n outcome" where
  "commit_outputs cx m = operand16 cx m (\<lambda>count m1. operand16 cx m1 (\<lambda>dynamic_count m2.
     let st = mc_stack m2
     in valid (count \<le> 256 \<and> dynamic_count \<le> length st) m2
          (charge count Scan_budget_exceeded m2 (\<lambda>m3.
            require (mc_remaining m3 > 0) Scan_budget_exceeded m3
              (commit_items cx count (rev (take dynamic_count st)) [] m3 (\<lambda>idx items m4.
                valid (idx = []) m4
                  (Next (m4\<lparr> mc_vars := fold (\<lambda>c xs. copy_within xs c) items (mc_vars m4),
                             mc_stack := drop dynamic_count st \<rparr>))))))))"


section \<open>Control\<close>

definition jmp :: "'n vm_context \<Rightarrow> 'n machine \<Rightarrow> 'n outcome" where
  "jmp cx m = operand32 cx m (\<lambda>target m1.
     valid (target \<le> length (cx_code cx)) m1 (Next (m1\<lparr> mc_pc := target \<rparr>)))"

definition jmp_if_false :: "'n vm_context \<Rightarrow> 'n machine \<Rightarrow> 'n outcome" where
  "jmp_if_false cx m = operand32 cx m (\<lambda>target m1.
     valid (target \<le> length (cx_code cx)) m1
       (pop m1 (\<lambda>v m2. Next (if v = 0 then m2\<lparr> mc_pc := target \<rparr> else m2))))"

definition for_guard :: "'n vm_context \<Rightarrow> 'n machine \<Rightarrow> 'n outcome" where
  "for_guard cx m = operand32 cx m (\<lambda>offset m1.
     some (load_raw64 (cx_program cx) (mc_vars m1) offset) m1 (\<lambda>v.
       require (as_i64 v \<noteq> 0) Scan_for_step_zero m1 (Next m1)))"

definition for_test :: "'n vm_context \<Rightarrow> 'n machine \<Rightarrow> 'n outcome" where
  "for_test cx m = operand32 cx m (\<lambda>ctrl m1. operand32 cx m1 (\<lambda>to m2. operand32 cx m2 (\<lambda>by m3.
     operand32 cx m3 (\<lambda>ty m4.
       let p = cx_program cx; xs = mc_vars m4
       in valid (room cx m4) m4
            (some (load_value p xs ctrl ty) m4 (\<lambda>control.
             some (load_value p xs to ty) m4 (\<lambda>bound.
             some (load_value p xs by ty) m4 (\<lambda>step.
               Next (push (flag (if as_i64 step \<ge> 0 then as_i64 control \<le> as_i64 bound
                 else as_i64 control \<ge> as_i64 bound)) m4)))))))))"

definition for_step :: "(u64 \<Rightarrow> u64) \<Rightarrow> 'n vm_context \<Rightarrow> 'n machine \<Rightarrow> 'n outcome" where
  "for_step wrap cx m = operand32 cx m (\<lambda>ctrl m1. operand32 cx m1 (\<lambda>by m2. operand32 cx m2 (\<lambda>ty m3.
     some (load_value (cx_program cx) (mc_vars m3) ctrl ty) m3 (\<lambda>control.
     some (load_value (cx_program cx) (mc_vars m3) by ty) m3 (\<lambda>step.
       store_to cx ctrl ty (wrap (wrap_add64 control step)) m3)))))"


section \<open>Function blocks\<close>

abbreviation fbs :: "'n vm_context \<Rightarrow> FbInfo list" where
  "fbs cx \<equiv> pb_fbs (body (cx_program cx))"

definition block_pin ::
  "'n vm_context \<Rightarrow> 'n machine \<Rightarrow> (FbInfo \<Rightarrow> nat \<Rightarrow> 'n machine \<Rightarrow> 'n outcome) \<Rightarrow> 'n outcome"
where
  "block_pin cx m k = operand16 cx m (\<lambda>fb m1. operand8 cx m1 (\<lambda>pin m2.
     valid (fb < length (fbs cx) \<and> unat pin < nv_pin_count (cx_native cx) (fb_type (fbs cx ! fb))) m2
       (k (fbs cx ! fb) (unat pin) m2)))"

definition fb_store_in :: "'n vm_context \<Rightarrow> 'n machine \<Rightarrow> 'n outcome" where
  "fb_store_in cx m = block_pin cx m (\<lambda>fb pin m1. pop m1 (\<lambda>v m2.
     some (nv_store_pin (cx_native cx) (mc_native m2) (cx_program cx) fb pin v) m2 (\<lambda>n.
       Next (m2\<lparr> mc_native := n \<rparr>))))"

definition fb_load_out :: "'n vm_context \<Rightarrow> 'n machine \<Rightarrow> 'n outcome" where
  "fb_load_out cx m = block_pin cx m (\<lambda>fb pin m1. valid (room cx m1) m1
     (some (nv_load_pin (cx_native cx) (mc_native m1) (cx_program cx) fb pin) m1 (\<lambda>v.
       Next (push v m1))))"

definition fb_call :: "'n vm_context \<Rightarrow> 'n machine \<Rightarrow> 'n outcome" where
  "fb_call cx m = operand16 cx m (\<lambda>fb m1.
     valid (fb < length (fbs cx)) m1
       (Next (m1\<lparr> mc_native := nv_cycle (cx_native cx) (mc_native m1) (fbs cx ! fb) (cx_period cx) \<rparr>)))"

text \<open>An exhausted budget latches \<open>invalid_bytecode\<close> here, unlike every other weighted operation.\<close>

definition fb_object ::
  "TypeKind list \<Rightarrow> 'n vm_context \<Rightarrow> 'n machine \<Rightarrow>
    (FbInfo \<Rightarrow> nat \<Rightarrow> nat \<Rightarrow> TypeId \<Rightarrow> nat \<Rightarrow> 'n machine \<Rightarrow> 'n outcome) \<Rightarrow> 'n outcome"
where
  "fb_object kinds cx m k = block_pin cx m (\<lambda>fb pin m1. operand32 cx m1 (\<lambda>offset m2.
     operand32 cx m2 (\<lambda>ty m3.
       some (get_type (types (cx_program cx)) ty) m3 (\<lambda>d.
         valid (td_kind d \<in> set kinds \<and> in_vars (cx_program cx) offset (td_size d)) m3
           (charge (td_size d) Scan_invalid_bytecode m3 (k fb pin offset ty (td_size d)))))))"

definition fb_store_object :: "'n vm_context \<Rightarrow> 'n machine \<Rightarrow> 'n outcome" where
  "fb_store_object cx m = fb_object [TK_array, TK_struct, TK_string, TK_wstring] cx m
     (\<lambda>fb pin offset ty n m1.
       some (nv_store_object (cx_native cx) (mc_native m1) fb pin (seg (mc_vars m1) offset n) ty) m1
         (\<lambda>nat. Next (m1\<lparr> mc_native := nat \<rparr>)))"

definition fb_load_object :: "'n vm_context \<Rightarrow> 'n machine \<Rightarrow> 'n outcome" where
  "fb_load_object cx m = fb_object [TK_array, TK_struct] cx m
     (\<lambda>fb pin offset ty n m1.
       some (nv_load_object (cx_native cx) (mc_native m1) fb pin ty n) m1
         (\<lambda>f. Next (m1\<lparr> mc_vars := blit offset (map f [0..<n]) (mc_vars m1) \<rparr>)))"

end
