(* ===== verification/VmScalar.thy ===== *)
theory VmScalar
  imports VmMachine
begin

text \<open>
  The instructions that compute on the evaluation stack only (\<open>Instance::resume\<close> in
  \<open>core/st/vm.h\<close>): integer, bit, boolean and floating-point arithmetic, comparisons, conversions,
  range checks and date arithmetic. A \<open>std::int64_t\<close> operand is \<open>as_i64\<close> of its slot; the sums and
  products that C++ forms without a guard are exact integers here.
\<close>

section \<open>Integers of the first profile\<close>

text \<open>\<open>add_int\<close> to \<open>sub_time\<close>, the value by the width of the family.\<close>

datatype IntWidth = IW_16 | IW_32 | IW_64

definition wrap_width :: "IntWidth \<Rightarrow> u64 \<Rightarrow> u64" where
  "wrap_width w v = (case w of IW_16 \<Rightarrow> wrap16 v | IW_32 \<Rightarrow> wrap32 v | IW_64 \<Rightarrow> v)"

definition int_binary :: "IntWidth \<Rightarrow> ArithOp \<Rightarrow> u64 \<Rightarrow> u64 \<Rightarrow> ScanError + u64" where
  "int_binary w k a b = (case k of
     A_add \<Rightarrow> Inr (wrap_width w (wrap_add64 a b))
   | A_sub \<Rightarrow> Inr (wrap_width w (wrap_sub64 a b))
   | A_mul \<Rightarrow> Inr (wrap_width w (wrap_mul64 a b))
   | A_div \<Rightarrow> if b = 0 then Inl Scan_division_by_zero
       else Inr (wrap_width w (word_of_int (c_div (as_i64 a) (as_i64 b))))
   | A_mod \<Rightarrow> if b = 0 then Inl Scan_division_by_zero
       else Inr (wrap_width w (word_of_int (c_mod (as_i64 a) (as_i64 b))))
   | A_neg \<Rightarrow> Inl Scan_invalid_bytecode)"

definition give :: "ScanError + u64 \<Rightarrow> 'n machine \<Rightarrow> 'n outcome" where
  "give r m = (case r of Inl e \<Rightarrow> Fault e m | Inr v \<Rightarrow> Next (push v m))"

definition int_arith :: "IntWidth \<Rightarrow> ArithOp \<Rightarrow> 'n machine \<Rightarrow> 'n outcome" where
  "int_arith w k m =
     (if k = A_neg then pop m (\<lambda>a m1. Next (push (wrap_width w (wrap_sub64 0 a)) m1))
      else pop2 m (\<lambda>a b m1. give (int_binary w k a b) m1))"


section \<open>Floating point\<close>

definition real_arith :: "ArithOp \<Rightarrow> 'n machine \<Rightarrow> 'n outcome" where
  "real_arith k m =
     (if k = A_neg then pop m (\<lambda>a m1. Next (push (double_bits (fp_neg (to_float (bits_double a)))) m1))
      else pop2 m (\<lambda>a b m1. Next (push (double_bits
        (fp_op Single k (to_float (bits_double a)) (to_float (bits_double b)))) m1)))"

definition lreal_arith :: "ArithOp \<Rightarrow> 'n machine \<Rightarrow> 'n outcome" where
  "lreal_arith k m =
     (if k = A_neg then pop m (\<lambda>a m1. Next (push (double_bits (fp_neg (bits_double a))) m1))
      else pop2 m (\<lambda>a b m1. Next (push (double_bits
        (fp_op Double k (bits_double a) (bits_double b))) m1)))"


section \<open>Booleans, bits and comparisons\<close>

definition bool_op :: "BoolOp \<Rightarrow> 'n machine \<Rightarrow> 'n outcome" where
  "bool_op k m =
     (if k = B_not then pop m (\<lambda>a m1. Next (push (flag (a = 0)) m1))
      else pop2 m (\<lambda>a b m1. Next (push (flag (case k of
         B_and \<Rightarrow> a \<noteq> 0 \<and> b \<noteq> 0 | B_or \<Rightarrow> a \<noteq> 0 \<or> b \<noteq> 0 | _ \<Rightarrow> (a \<noteq> 0) \<noteq> (b \<noteq> 0))) m1)))"

definition compare_i :: "CmpOp \<Rightarrow> int \<Rightarrow> int \<Rightarrow> bool" where
  "compare_i c a b = (case c of C_eq \<Rightarrow> a = b | C_ne \<Rightarrow> a \<noteq> b | C_lt \<Rightarrow> a < b | C_gt \<Rightarrow> a > b
     | C_le \<Rightarrow> a \<le> b | C_ge \<Rightarrow> a \<ge> b)"

definition compare_f :: "CmpOp \<Rightarrow> fp \<Rightarrow> fp \<Rightarrow> bool" where
  "compare_f c a b = (case c of C_eq \<Rightarrow> fp_equal a b | C_ne \<Rightarrow> \<not> fp_equal a b | C_lt \<Rightarrow> fp_less a b
     | C_gt \<Rightarrow> fp_less b a | C_le \<Rightarrow> fp_less a b \<or> fp_equal a b | C_ge \<Rightarrow> fp_less b a \<or> fp_equal a b)"

definition cmp_i :: "CmpOp \<Rightarrow> 'n machine \<Rightarrow> 'n outcome" where
  "cmp_i c m = pop2 m (\<lambda>a b m1. Next (push (flag (compare_i c (as_i64 a) (as_i64 b))) m1))"

definition cmp_f :: "CmpOp \<Rightarrow> 'n machine \<Rightarrow> 'n outcome" where
  "cmp_f c m = pop2 m (\<lambda>a b m1. Next (push (flag (compare_f c (bits_double a) (bits_double b))) m1))"

definition cmp_u :: "'n vm_context \<Rightarrow> 'n machine \<Rightarrow> 'n outcome" where
  "cmp_u cx m = operand8 cx m (\<lambda>sub m1. pop2 m1 (\<lambda>a b m2.
     if sub = 0 then Next (push (flag (a < b)) m2)
     else if sub = 1 then Next (push (flag (a > b)) m2)
     else if sub = 2 then Next (push (flag (a \<le> b)) m2)
     else if sub = 3 then Next (push (flag (a \<ge> b)) m2)
     else Fault Scan_invalid_bytecode m2))"

definition bit_op :: "'n vm_context \<Rightarrow> BoolOp \<Rightarrow> 'n machine \<Rightarrow> 'n outcome" where
  "bit_op cx k m =
     (if k = B_not
      then operand8 cx m (\<lambda>t m1. pop m1 (\<lambda>a m2. Next (push (canon (type_code t) (NOT a)) m2)))
      else pop2 m (\<lambda>a b m1. Next (push (case k of
        B_and \<Rightarrow> a AND b | B_or \<Rightarrow> a OR b | _ \<Rightarrow> a XOR b) m1)))"


section \<open>Typed integer arithmetic\<close>

definition iarith_unsigned :: "u8 \<Rightarrow> u64 \<Rightarrow> u64 \<Rightarrow> ScanError + u64" where
  "iarith_unsigned sub a b =
     (if sub = 0 then Inr (a + b)
      else if sub = 1 then Inr (a - b)
      else if sub = 2 then Inr (a * b)
      else if sub = 3 then (if b = 0 then Inl Scan_division_by_zero else Inr (a div b))
      else if sub = 4 then (if b = 0 then Inl Scan_division_by_zero else Inr (a mod b))
      else Inl Scan_invalid_bytecode)"

definition iarith_signed :: "u8 \<Rightarrow> u64 \<Rightarrow> u64 \<Rightarrow> ScanError + u64" where
  "iarith_signed sub a b =
     (if sub = 0 then Inr (wrap_add64 a b)
      else if sub = 1 then Inr (wrap_sub64 a b)
      else if sub = 2 then Inr (wrap_mul64 a b)
      else if sub = 3 then
        (if b = 0 then Inl Scan_division_by_zero
         else Inr (if as_i64 b = -1 then wrap_sub64 0 a else word_of_int (c_div (as_i64 a) (as_i64 b))))
      else if sub = 4 then
        (if b = 0 then Inl Scan_division_by_zero
         else Inr (if as_i64 b = -1 then 0 else word_of_int (c_mod (as_i64 a) (as_i64 b))))
      else Inl Scan_invalid_bytecode)"

definition iarith_binary :: "Type \<Rightarrow> u8 \<Rightarrow> u64 \<Rightarrow> u64 \<Rightarrow> ScanError + u64" where
  "iarith_binary t sub a b =
     (case (if is_unsigned_int t then iarith_unsigned sub a b else iarith_signed sub a b) of
        Inl e \<Rightarrow> Inl e | Inr v \<Rightarrow> Inr (canon t v))"

definition iarith :: "'n vm_context \<Rightarrow> 'n machine \<Rightarrow> 'n outcome" where
  "iarith cx m =
     operand8 cx m (\<lambda>sub m1. operand8 cx m1 (\<lambda>tb m2.
       let t = type_code tb
       in if sub = 5 then pop m2 (\<lambda>a m3. Next (push (canon t (wrap_sub64 0 a)) m3))
          else pop2 m2 (\<lambda>a b m3. give (iarith_binary t sub a b) m3)))"


section \<open>Times, powers and conversions\<close>

definition scaled_time :: "u8 \<Rightarrow> u64 \<Rightarrow> u64 \<Rightarrow> ScanError + u64" where
  "scaled_time sub t s =
     (if sub = 0 then Inr (wrap_mul64 t s)
      else if sub = 1 then
        (if s = 0 then Inl Scan_division_by_zero
         else Inr (if as_i64 s = -1 then wrap_sub64 0 t else word_of_int (c_div (as_i64 t) (as_i64 s))))
      else if sub = 2 \<or> sub = 3 then
        (let x = bits_double (double_bits (fp_of_int (as_i64 t)));
             v = fp_op Double (if sub = 2 then A_mul else A_div) x (bits_double s)
         in if \<not> fp_finite v then Inl Scan_conversion_invalid
            else Inr (wrap_double_to_u64 (fp_trunc v)))
      else Inl Scan_invalid_bytecode)"

definition time_scale :: "'n vm_context \<Rightarrow> 'n machine \<Rightarrow> 'n outcome" where
  "time_scale cx m = operand8 cx m (\<lambda>sub m1. pop2 m1 (\<lambda>t s m2. give (scaled_time sub t s) m2))"

definition power_op :: "'n vm_context \<Rightarrow> 'n machine \<Rightarrow> 'n outcome" where
  "power_op cx m = operand8 cx m (\<lambda>t m1. pop2 m1 (\<lambda>a b m2.
     let v = lm_pow (cx_libm cx) a b
     in Next (push (if type_code t = T_real then double_bits (to_float (bits_double v)) else v) m2)))"

definition conv :: "'n vm_context \<Rightarrow> ConvOp \<Rightarrow> 'n machine \<Rightarrow> 'n outcome" where
  "conv cx k m = (case k of
     CV_wrap \<Rightarrow> operand8 cx m (\<lambda>t m1. pop m1 (\<lambda>a m2. Next (push (canon (type_code t) a) m2)))
   | CV_i2d \<Rightarrow> pop m (\<lambda>a m1. Next (push (double_bits (fp_of_int (as_i64 a))) m1))
   | CV_u2d \<Rightarrow> pop m (\<lambda>a m1. Next (push (double_bits (fp_of_int (uint a))) m1))
   | CV_f_narrow \<Rightarrow> pop m (\<lambda>a m1. Next (push (double_bits (to_float (bits_double a))) m1))
   | CV_to_bool \<Rightarrow> pop m (\<lambda>a m1. Next (push (flag (a \<noteq> 0)) m1))
   | CV_f_to_bool \<Rightarrow> pop m (\<lambda>a m1. Next (push (flag (\<not> fp_equal (bits_double a) (FP_fin False 0 0))) m1))
   | _ \<Rightarrow> operand8 cx m (\<lambda>t m1. pop m1 (\<lambda>a m2.
       let v = bits_double a
       in require (fp_finite v) Scan_conversion_invalid m2
            (Next (push (canon (type_code t)
              (wrap_double_to_u64 (if k = CV_trunc then fp_trunc v else fp_nearbyint v))) m2)))))"


section \<open>Checks\<close>

definition in_type_range :: "TypeDesc \<Rightarrow> u64 \<Rightarrow> bool" where
  "in_type_range d v =
     (if td_kind d = TK_enum then list_ex (\<lambda>i. word_of_int (iv_signed (ei_value i)) = v) (td_items d)
      else if td_sign d = IS_signed
      then iv_signed (sr_lower (td_subrange d)) \<le> as_i64 v \<and> as_i64 v \<le> iv_signed (sr_upper (td_subrange d))
      else iv_unsigned (sr_lower (td_subrange d)) \<le> unat v \<and>
           unat v \<le> iv_unsigned (sr_upper (td_subrange d)))"

definition check_range :: "'n vm_context \<Rightarrow> 'n machine \<Rightarrow> 'n outcome" where
  "check_range cx m = operand32 cx m (\<lambda>ident m1. pop m1 (\<lambda>v m2.
     some (get_type (types (cx_program cx)) ident) m1 (\<lambda>d.
       valid (td_kind d = TK_enum \<or> td_kind d = TK_subrange) m1
         (require (in_type_range d v) Scan_range_violation m1 (Next m1)))))"

definition alias_guard :: "'n machine \<Rightarrow> 'n outcome" where
  "alias_guard m = pop m (\<lambda>v m1. require (v \<noteq> 0) Scan_alias_violation m (Next m))"

definition check_unicode :: "'n machine \<Rightarrow> 'n outcome" where
  "check_unicode m = pop m (\<lambda>v m1.
     require (\<not> (v > 0x10FFFF \<or> (v \<ge> 0xD800 \<and> v \<le> 0xDFFF))) Scan_conversion_invalid m (Next m))"


section \<open>Dates\<close>

definition day_ns :: int where "day_ns = 86400000000000"

definition date_value :: "u8 \<Rightarrow> int \<Rightarrow> int \<Rightarrow> ScanError + u64" where
  "date_value kind left right =
     (if kind \<le> 1 then
        (let v = left + (if kind = 0 then right else - right)
         in if v < -2147483648 \<or> v > 2147483647 then Inl Scan_date_time_range_violation
            else Inr (word_of_int v))
      else if kind \<le> 3 then
        (let delta = c_mod right day_ns;
             v = c_mod (if kind = 2 then left + delta else left - delta) day_ns
         in Inr (word_of_int (if v < 0 then v + day_ns else v)))
      else if kind \<le> 5 then
        (if (kind = 4 \<and> ((right > 0 \<and> left > int64_max - right) \<or> (right < 0 \<and> left < int64_min - right))) \<or>
            (kind = 5 \<and> ((right < 0 \<and> left > int64_max + right) \<or> (right > 0 \<and> left < int64_min + right)))
         then Inl Scan_date_time_range_violation
         else Inr (word_of_int (if kind = 4 then left + right else left - right)))
      else Inl Scan_invalid_bytecode)"

definition date_arith :: "'n vm_context \<Rightarrow> 'n machine \<Rightarrow> 'n outcome" where
  "date_arith cx m = operand8 cx m (\<lambda>kind m1. pop2 m1 (\<lambda>left right m2.
     give (date_value kind (as_i64 left) (as_i64 right)) m2))"

end
