(* ===== verification/VmStandard.thy ===== *)
theory VmStandard
  imports VmScalar
begin

text \<open>
  The scalar standard functions (\<open>standard_scalar\<close> of \<open>core/st/vm.h\<close>, with the enumeration of
  \<open>core/st/standard_functions.h\<close>). A function is its code, the arguments are the top \<open>argc\<close> slots in
  call order. Compiled code passes the arity of the function; the interpreter does not check it, and
  an argument beyond \<open>argc\<close> is whatever the slots above the stack hold: the argument \<open>stale\<close>.
\<close>

section \<open>The enumeration\<close>

abbreviation (input) "sf_abs \<equiv> 0 :: nat"
abbreviation (input) "sf_sqrt \<equiv> 1 :: nat"
abbreviation (input) "sf_ln \<equiv> 2 :: nat"
abbreviation (input) "sf_log \<equiv> 3 :: nat"
abbreviation (input) "sf_exp \<equiv> 4 :: nat"
abbreviation (input) "sf_sin \<equiv> 5 :: nat"
abbreviation (input) "sf_cos \<equiv> 6 :: nat"
abbreviation (input) "sf_tan \<equiv> 7 :: nat"
abbreviation (input) "sf_asin \<equiv> 8 :: nat"
abbreviation (input) "sf_acos \<equiv> 9 :: nat"
abbreviation (input) "sf_atan \<equiv> 10 :: nat"
abbreviation (input) "sf_add \<equiv> 11 :: nat"
abbreviation (input) "sf_sub \<equiv> 12 :: nat"
abbreviation (input) "sf_mul \<equiv> 13 :: nat"
abbreviation (input) "sf_div \<equiv> 14 :: nat"
abbreviation (input) "sf_mod \<equiv> 15 :: nat"
abbreviation (input) "sf_expt \<equiv> 16 :: nat"
abbreviation (input) "sf_min \<equiv> 17 :: nat"
abbreviation (input) "sf_max \<equiv> 18 :: nat"
abbreviation (input) "sf_limit \<equiv> 19 :: nat"
abbreviation (input) "sf_sel \<equiv> 20 :: nat"
abbreviation (input) "sf_mux \<equiv> 21 :: nat"
abbreviation (input) "sf_gt \<equiv> 22 :: nat"
abbreviation (input) "sf_ge \<equiv> 23 :: nat"
abbreviation (input) "sf_eq \<equiv> 24 :: nat"
abbreviation (input) "sf_le \<equiv> 25 :: nat"
abbreviation (input) "sf_lt \<equiv> 26 :: nat"
abbreviation (input) "sf_ne \<equiv> 27 :: nat"
abbreviation (input) "sf_shl \<equiv> 28 :: nat"
abbreviation (input) "sf_shr \<equiv> 29 :: nat"
abbreviation (input) "sf_rol \<equiv> 30 :: nat"
abbreviation (input) "sf_ror \<equiv> 31 :: nat"
abbreviation (input) "sf_len \<equiv> 32 :: nat"
abbreviation (input) "sf_left \<equiv> 33 :: nat"
abbreviation (input) "sf_right \<equiv> 34 :: nat"
abbreviation (input) "sf_mid \<equiv> 35 :: nat"
abbreviation (input) "sf_concat \<equiv> 36 :: nat"
abbreviation (input) "sf_insert \<equiv> 37 :: nat"
abbreviation (input) "sf_delete \<equiv> 38 :: nat"
abbreviation (input) "sf_replace \<equiv> 39 :: nat"
abbreviation (input) "sf_find \<equiv> 40 :: nat"
abbreviation (input) "sf_add_time \<equiv> 41 :: nat"
abbreviation (input) "sf_add_tod_time \<equiv> 42 :: nat"
abbreviation (input) "sf_add_dt_time \<equiv> 43 :: nat"
abbreviation (input) "sf_sub_time \<equiv> 44 :: nat"
abbreviation (input) "sf_sub_date_date \<equiv> 45 :: nat"
abbreviation (input) "sf_sub_tod_time \<equiv> 46 :: nat"
abbreviation (input) "sf_sub_dt_dt \<equiv> 47 :: nat"
abbreviation (input) "sf_multime \<equiv> 48 :: nat"
abbreviation (input) "sf_divtime \<equiv> 49 :: nat"
abbreviation (input) "sf_concat_date_tod \<equiv> 50 :: nat"
abbreviation (input) "sf_count \<equiv> 51 :: nat"


section \<open>Operations on one or two slots\<close>

definition put_real :: "Type \<Rightarrow> fp \<Rightarrow> u64" where
  "put_real t v = double_bits (if t = T_real then to_float v else v)"

definition slot_less :: "Type \<Rightarrow> u64 \<Rightarrow> u64 \<Rightarrow> bool" where
  "slot_less t a b =
     (if is_real_family t then fp_less (bits_double a) (bits_double b)
      else if is_unsigned_int t \<or> is_bitstring t then a < b
      else as_i64 a < as_i64 b)"

definition slot_equal :: "Type \<Rightarrow> u64 \<Rightarrow> u64 \<Rightarrow> bool" where
  "slot_equal t a b = (if is_real_family t then fp_equal (bits_double a) (bits_double b) else a = b)"

definition std_abs :: "Type \<Rightarrow> u64 \<Rightarrow> u64" where
  "std_abs t v =
     (if is_real_family t then put_real t (fp_abs (bits_double v))
      else if as_i64 v < 0 then canon t (0 - v) else v)"

definition std_math :: "libm \<Rightarrow> nat \<Rightarrow> u64 \<Rightarrow> u64" where
  "std_math lm f x =
     (if f = sf_sqrt then lm_sqrt lm x else if f = sf_ln then lm_log lm x
      else if f = sf_log then lm_log10 lm x else if f = sf_exp then lm_exp lm x
      else if f = sf_sin then lm_sin lm x else if f = sf_cos then lm_cos lm x
      else if f = sf_tan then lm_tan lm x else if f = sf_asin then lm_asin lm x
      else if f = sf_acos then lm_acos lm x else if f = sf_atan then lm_atan lm x else x)"

text \<open>The lambda \<open>apply\<close> on integers.\<close>

definition std_apply :: "Type \<Rightarrow> nat \<Rightarrow> u64 \<Rightarrow> u64 \<Rightarrow> u64" where
  "std_apply t f b a =
     (if f = sf_add then canon t (a + b)
      else if f = sf_sub then canon t (a - b)
      else if f = sf_mul then canon t (a * b)
      else if is_unsigned_int t then canon t (if f = sf_div then a div b else a mod b)
      else if as_i64 a = int64_min \<and> as_i64 b = -1 then canon t (if f = sf_div then a else 0)
      else canon t (word_of_int (if f = sf_div then c_div (as_i64 a) (as_i64 b)
             else c_mod (as_i64 a) (as_i64 b))))"

definition std_arith :: "Type \<Rightarrow> nat \<Rightarrow> u64 list \<Rightarrow> u64 \<Rightarrow> u64 \<Rightarrow> ScanError + u64" where
  "std_arith t f xs v0 v1 =
     (if f = sf_min then Inr (fold (\<lambda>x v. if slot_less t x v then x else v) (tl xs) v0)
      else if f = sf_max then Inr (fold (\<lambda>x v. if slot_less t v x then x else v) (tl xs) v0)
      else if is_real_family t then
        (let y = bits_double v0; rhs = bits_double v1
         in Inr (put_real t
              (if f = sf_add then fold (\<lambda>x y. fp_op Double A_add y (bits_double x)) (tl xs) y
               else if f = sf_mul then fold (\<lambda>x y. fp_op Double A_mul y (bits_double x)) (tl xs) y
               else if f = sf_sub then fp_op Double A_sub y rhs
               else if f = sf_div then fp_op Double A_div y rhs
               else fp_mod y rhs)))
      else if (f = sf_div \<or> f = sf_mod) \<and> v1 = 0 then Inl Scan_division_by_zero
      else Inr (fold (std_apply t f) (tl xs) v0))"


section \<open>Selection and comparison\<close>

definition std_limit :: "Type \<Rightarrow> u64 \<Rightarrow> u64 \<Rightarrow> u64 \<Rightarrow> ScanError + u64" where
  "std_limit t low v high =
     (if slot_less t high low then Inl Scan_invalid_argument
      else Inr (if slot_less t v low then low else if slot_less t high v then high else v))"

definition std_mux :: "u64 list \<Rightarrow> u64 \<Rightarrow> ScanError + u64" where
  "std_mux xs v0 =
     (let index = as_i64 v0
      in if index < 0 \<or> index \<ge> int (length xs) - 1 then Inl Scan_range_violation
         else Inr (xs ! (1 + nat index)))"

definition std_relation :: "Type \<Rightarrow> nat \<Rightarrow> u64 \<Rightarrow> u64 \<Rightarrow> bool" where
  "std_relation t f a b =
     (let lt = slot_less t a b; eq = slot_equal t a b
      in if f = sf_gt then \<not> lt \<and> \<not> eq else if f = sf_ge then \<not> lt else if f = sf_eq then eq
         else if f = sf_le then lt \<or> eq else if f = sf_lt then lt else \<not> eq)"

fun std_chain :: "Type \<Rightarrow> nat \<Rightarrow> u64 list \<Rightarrow> bool" where
  "std_chain t f (a # b # xs) = (std_relation t f a b \<and> std_chain t f (b # xs))"
| "std_chain t f xs = True"


section \<open>Shifts\<close>

definition std_shift :: "Type \<Rightarrow> nat \<Rightarrow> u64 \<Rightarrow> u64 \<Rightarrow> ScanError + u64" where
  "std_shift t f v0 v1 =
     (let count = as_i64 v1; width = width_bits t; msk = mask width :: u64; input = v0 AND msk
      in if count < 0 then Inl Scan_range_violation
         else if f = sf_shl \<or> f = sf_shr then
           Inr (if count \<ge> int width then 0
                else if f = sf_shl then push_bit (nat count) input AND msk
                else drop_bit (nat count) input)
         else let rotate = nat (count mod int width)
           in Inr (if rotate = 0 then input
                else if f = sf_rol
                then (push_bit rotate input OR drop_bit (width - rotate) input) AND msk
                else (drop_bit rotate input OR push_bit (width - rotate) input) AND msk))"


section \<open>Times and dates\<close>

definition add_checked :: "int \<Rightarrow> int \<Rightarrow> int option" where
  "add_checked x y =
     (if (y > 0 \<and> x > int64_max - y) \<or> (y < 0 \<and> x < int64_min - y) then None else Some (x + y))"

definition sub_checked :: "int \<Rightarrow> int \<Rightarrow> int option" where
  "sub_checked x y =
     (if (y > 0 \<and> x < int64_min + y) \<or> (y < 0 \<and> x > int64_max + y) then None else Some (x - y))"

definition mul_checked :: "int \<Rightarrow> int \<Rightarrow> int option" where
  "mul_checked x y =
     (if x = 0 \<or> y = 0 then Some 0
      else if (x = -1 \<and> y = int64_min) \<or> (y = -1 \<and> x = int64_min) then None
      else if (if x > 0 then (y > 0 \<and> x > c_div int64_max y) \<or> (y < 0 \<and> y < c_div int64_min x)
               else (y > 0 \<and> x < c_div int64_min y) \<or> (y < 0 \<and> x < c_div int64_max y)) then None
      else Some (x * y))"

definition in_date_range :: "int option \<Rightarrow> ScanError + int" where
  "in_date_range v = (case v of None \<Rightarrow> Inl Scan_date_time_range_violation | Some x \<Rightarrow> Inr x)"

definition std_date :: "nat \<Rightarrow> int \<Rightarrow> int \<Rightarrow> ScanError + int" where
  "std_date f a b =
     (if f = sf_add_time \<or> f = sf_add_dt_time then in_date_range (add_checked a b)
      else if f = sf_sub_time \<or> f = sf_sub_dt_dt then in_date_range (sub_checked a b)
      else if f = sf_add_tod_time then
        Inr (c_mod (c_mod (a + c_mod b day_ns) day_ns + day_ns) day_ns)
      else if f = sf_sub_tod_time then
        Inr (c_mod (c_mod (a - c_mod b day_ns) day_ns + day_ns) day_ns)
      else if f = sf_sub_date_date then
        in_date_range (case sub_checked a b of None \<Rightarrow> None | Some days \<Rightarrow> mul_checked days day_ns)
      else if f = sf_multime then in_date_range (mul_checked a b)
      else if f = sf_divtime then
        (if b = 0 then Inl Scan_division_by_zero
         else if a = int64_min \<and> b = -1 then Inl Scan_date_time_range_violation
         else Inr (c_div a b))
      else if f = sf_concat_date_tod then
        in_date_range (case mul_checked a day_ns of None \<Rightarrow> None | Some date \<Rightarrow> add_checked date b)
      else Inl Scan_invalid_bytecode)"


section \<open>The instruction\<close>

definition std_value :: "libm \<Rightarrow> (nat \<Rightarrow> u64) \<Rightarrow> Type \<Rightarrow> nat \<Rightarrow> u64 list \<Rightarrow> ScanError + u64" where
  "std_value lm stale t f xs =
     (let arg = (\<lambda>i. if i < length xs then xs ! i else stale i)
      in if f \<le> sf_atan then
           Inr (if f = sf_abs then std_abs t (arg 0)
                else put_real t (bits_double (std_math lm f (arg 0))))
         else if f \<le> sf_max then
           (if f = sf_expt then Inr (put_real t (bits_double (lm_pow lm (arg 0) (arg 1))))
            else std_arith t f xs (arg 0) (arg 1))
         else if f = sf_limit then std_limit t (arg 0) (arg 1) (arg 2)
         else if f = sf_sel then Inr (if arg 0 \<noteq> 0 then arg 2 else arg 1)
         else if f = sf_mux then std_mux xs (arg 0)
         else if f \<le> sf_ne then Inr (flag (std_chain t f xs))
         else if f \<le> sf_ror then std_shift t f (arg 0) (arg 1)
         else (case std_date f (as_i64 (arg 0)) (as_i64 (arg 1)) of
                 Inl e \<Rightarrow> Inl e | Inr v \<Rightarrow> Inr (word_of_int v)))"

definition standard_scalar :: "'n vm_context \<Rightarrow> 'n machine \<Rightarrow> 'n outcome" where
  "standard_scalar cx m =
     operand8 cx m (\<lambda>fb m1. operand8 cx m1 (\<lambda>ab m2. operand8 cx m2 (\<lambda>tb m3.
       let argc = unat ab; st = mc_stack m3
       in valid (argc \<noteq> 0 \<and> argc \<le> length st \<and> unat fb < sf_count) m3
            (charge argc Scan_budget_exceeded m3 (\<lambda>m4.
               give (std_value (cx_libm cx) (cx_stale cx) (type_code tb) (unat fb) (rev (take argc st)))
                 (m4\<lparr> mc_stack := drop argc st \<rparr>))))))"

end
