(* ===== verification/VmString.thy ===== *)
theory VmString
  imports VmStandard
begin

text \<open>
  The string instructions (\<open>core/st/vm.h\<close>) with the cost function of
  \<open>core/st/standard_functions.h\<close>: copy, compare, index, length and the string standard functions.
  Objects are validated before they are used; an object in the variable area is the rest of that area.
  Scalar positions and lengths are 32-bit values, so sums of them wrap.
\<close>

abbreviation string_constants :: "'n vm_context \<Rightarrow> bytes" where
  "string_constants cx \<equiv> pb_string_constants (body (cx_program cx))"

definition unit_width :: "TypeDesc \<Rightarrow> nat" where
  "unit_width d = (if td_kind d = TK_wstring then 4 else 1)"

definition constant_header :: "'n vm_context \<Rightarrow> nat \<Rightarrow> bool" where
  "constant_header cx offset \<longleftrightarrow> offset \<le> length (string_constants cx) \<and>
     4 \<le> length (string_constants cx) - offset"

definition text_type :: "'n vm_context \<Rightarrow> TypeId \<Rightarrow> TypeDesc option" where
  "text_type cx ty = (case get_type (types (cx_program cx)) ty of
     None \<Rightarrow> None | Some d \<Rightarrow> if is_text d then Some d else None)"


section \<open>Copy, compare, index, length\<close>

definition string_copy :: "bool \<Rightarrow> 'n vm_context \<Rightarrow> 'n machine \<Rightarrow> 'n outcome" where
  "string_copy constant cx m =
     operand32 cx m (\<lambda>destination m1. operand32 cx m1 (\<lambda>destination_type m2.
     operand32 cx m2 (\<lambda>source m3. operand32 cx m3 (\<lambda>source_type m4.
       let p = cx_program cx
       in some (get_type (types p) destination_type) m4 (\<lambda>dst.
          some (get_type (types p) source_type) m4 (\<lambda>src.
          valid (td_kind dst = td_kind src \<and> is_text dst \<and> in_vars p destination (td_size dst)) m4
          (charge (max (td_capacity dst) (td_capacity src)) Scan_budget_exceeded m4 (\<lambda>m5.
            let obj = drop source (if constant then string_constants cx else mc_vars m5);
                n = read_le32 obj; count = 4 + unit_width dst * n;
                cleared = blit destination (replicate (td_size dst) 0) (mc_vars m5)
            in valid (if constant then constant_header cx source else in_vars p source (td_size src)) m5
               (valid (n \<le> td_capacity src) m5
               (valid (constant \<longrightarrow> count \<le> length (string_constants cx) - source) m5
               (valid (valid_string_object obj src) m5
               (require (n \<le> td_capacity dst) Scan_string_capacity_exceeded m5
                 (Next (if \<not> constant \<and> source = destination then m5
                   else m5\<lparr> mc_vars := blit destination
                     (if constant then take count obj else seg cleared source count) cleared \<rparr>))))))))))))))"

definition compared_object ::
  "'n vm_context \<Rightarrow> 'n machine \<Rightarrow> (bytes \<Rightarrow> TypeDesc \<Rightarrow> 'n machine \<Rightarrow> 'n outcome) \<Rightarrow> 'n outcome"
where
  "compared_object cx m k =
     operand8 cx m (\<lambda>constant m1. operand32 cx m1 (\<lambda>offset m2. operand32 cx m2 (\<lambda>ty m3.
       some (text_type cx ty) m3 (\<lambda>d.
         if constant \<noteq> 0
         then let obj = drop offset (string_constants cx); n = read_le32 obj
           in valid (constant_header cx offset \<and> n \<le> td_capacity d \<and>
                  4 + n * unit_width d \<le> length (string_constants cx) - offset) m3 (k obj d m3)
         else valid (in_vars (cx_program cx) offset (td_size d)) m3
                (k (drop offset (mc_vars m3)) d m3)))))"

definition string_relation :: "u8 \<Rightarrow> int \<Rightarrow> bool option" where
  "string_relation c order =
     (if c = 8 then Some (order = 0) else if c = 9 then Some (order \<noteq> 0)
      else if c = 10 then Some (order < 0) else if c = 11 then Some (order > 0)
      else if c = 12 then Some (order \<le> 0) else if c = 13 then Some (order \<ge> 0) else None)"

definition string_compare :: "'n vm_context \<Rightarrow> 'n machine \<Rightarrow> 'n outcome" where
  "string_compare cx m =
     operand8 cx m (\<lambda>comparison m1.
       compared_object cx m1 (\<lambda>left dl m2. compared_object cx m2 (\<lambda>right dr m3.
         valid (td_kind dl = td_kind dr \<and> room cx m3) m3
           (charge (max (td_capacity dl) (td_capacity dr)) Scan_budget_exceeded m3 (\<lambda>m4.
             some (compare_strings left dl right dr) m4 (\<lambda>order.
             some (string_relation comparison order) m4 (\<lambda>b. Next (push (flag b) m4))))))))"

definition string_unit :: "bytes \<Rightarrow> TypeDesc \<Rightarrow> nat \<Rightarrow> u64" where
  "string_unit obj d i =
     (if td_kind d = TK_wstring then of_nat (read_le32 (drop (4 + i * 4) obj))
      else ucast (obj ! (4 + i)))"

definition string_index :: "'n vm_context \<Rightarrow> 'n machine \<Rightarrow> 'n outcome" where
  "string_index cx m =
     operand32 cx m (\<lambda>offset m1. operand32 cx m1 (\<lambda>ty m2. pop m2 (\<lambda>i m3.
       some (text_type cx ty) m2 (\<lambda>d.
         valid (in_vars (cx_program cx) offset (td_size d)) m2
           (charge (td_capacity d) Scan_budget_exceeded m2 (\<lambda>m4.
             let obj = drop offset (mc_vars m4); index = as_i64 i
             in valid (valid_string_object obj d) m4
                  (require (1 \<le> index \<and> index \<le> int (read_le32 obj)) Scan_range_violation m4
                    (Next (m4\<lparr> mc_stack := string_unit obj d (nat index - 1) # tl (mc_stack m4) \<rparr>)))))))))"

definition string_length :: "'n vm_context \<Rightarrow> 'n machine \<Rightarrow> 'n outcome" where
  "string_length cx m =
     operand8 cx m (\<lambda>constant m1. operand32 cx m1 (\<lambda>offset m2. operand32 cx m2 (\<lambda>ty m3.
       valid (room cx m3) m3
         (some (text_type cx ty) m3 (\<lambda>d.
           let area = (if constant \<noteq> 0 then string_constants cx else mc_vars m3);
               obj = drop offset area
           in valid (if constant \<noteq> 0 then offset \<le> length area \<and> td_size d \<le> length area - offset
                  else in_vars (cx_program cx) offset (td_size d)) m3
                (valid (valid_string_object obj d) m3
                  (charge (read_le32 obj) Scan_budget_exceeded m3 (\<lambda>m4.
                    Next (push (of_nat (read_le32 obj)) m4)))))))))"


section \<open>Cost of the string functions\<close>

definition saturating_cost_add :: "nat \<Rightarrow> nat \<Rightarrow> nat" where
  "saturating_cost_add l r = (if r > u32_max - l then u32_max else l + r)"

definition saturating_cost_mul :: "nat \<Rightarrow> nat \<Rightarrow> nat" where
  "saturating_cost_mul l r = (if l \<noteq> 0 \<and> r > u32_max div l then u32_max else l * r)"

definition standard_string_cost :: "nat \<Rightarrow> nat list \<Rightarrow> nat \<Rightarrow> nat" where
  "standard_string_cost f caps dest =
     (if caps = [] then 1
      else if f = sf_len then max 1 (saturating_cost_mul (caps ! 0) 2)
      else if f = sf_find \<and> length caps \<ge> 2 then
        max 1 (saturating_cost_add (saturating_cost_mul (caps ! 0) (caps ! 1))
          (saturating_cost_add (caps ! 0) (caps ! 1)))
      else max 1 (saturating_cost_mul (fold (\<lambda>c total. saturating_cost_add total c) caps dest) 4))"


section \<open>Scalar positions\<close>

text \<open>The counting loops over a validated text; both stop at an invalid sequence. \<open>utf8_skip\<close> returns
  the position after \<open>k\<close> scalars, \<open>utf8_count\<close> the number of scalars before the position \<open>stop\<close>.\<close>

primrec utf8_skip :: "bytes \<Rightarrow> nat \<Rightarrow> nat \<Rightarrow> nat \<Rightarrow> nat" where
  "utf8_skip bs n 0 at = at"
| "utf8_skip bs n (Suc k) at = (if at \<ge> n then at
     else case next_utf8 bs n at of None \<Rightarrow> at | Some (s, at') \<Rightarrow> utf8_skip bs n k at')"

function utf8_count :: "bytes \<Rightarrow> nat \<Rightarrow> nat \<Rightarrow> nat \<Rightarrow> nat" where
  "utf8_count bs n stop at = (if at \<ge> stop then 0
     else case next_utf8 bs n at of None \<Rightarrow> 0 | Some (s, at') \<Rightarrow> Suc (utf8_count bs n stop at'))"
  by pat_completeness auto

termination utf8_count
  by (relation "measure (\<lambda>(bs, n, stop, at). stop - at)") (auto dest: next_utf8_at)

declare utf8_count.simps [simp del]

definition scalar_length :: "bytes \<Rightarrow> TypeDesc \<Rightarrow> nat" where
  "scalar_length obj d =
     (if td_kind d = TK_wstring then read_le32 obj
      else utf8_count (drop 4 obj) (read_le32 obj) (read_le32 obj) 0)"

definition unit_at :: "bytes \<Rightarrow> TypeDesc \<Rightarrow> nat \<Rightarrow> nat" where
  "unit_at obj d i =
     (if td_kind d = TK_wstring then i * 4 else utf8_skip (drop 4 obj) (read_le32 obj) i 0)"

definition find_text :: "bytes \<Rightarrow> TypeDesc \<Rightarrow> bytes \<Rightarrow> nat" where
  "find_text hay d needle =
     (let nh = read_le32 hay; nn = read_le32 needle
      in if nn = 0 then 1
         else case find (\<lambda>pos. list_all (\<lambda>i. string_unit hay d (pos + i) = string_unit needle d i) [0..<nn])
                [0 ..< nh + 1 - nn] of
           None \<Rightarrow> 0
         | Some pos \<Rightarrow> if td_kind d = TK_wstring then pos + 1
             else utf8_count (drop 4 hay) nh pos 0 + 1)"


section \<open>Building the result\<close>

definition u32_of :: "nat \<Rightarrow> nat" where "u32_of n = n mod 2 ^ 32"

type_synonym text_arg = "(bytes \<times> TypeDesc) option"

definition output_bytes :: nat where "output_bytes = 16388"

text \<open>The lambda \<open>append\<close>: the scalars \<open>first\<close> to \<open>last\<close> of an object, within \<open>cap\<close> bytes.\<close>

definition append_text :: "nat \<Rightarrow> bytes \<times> TypeDesc \<Rightarrow> nat \<Rightarrow> nat \<Rightarrow> bytes \<Rightarrow> ScanError + bytes" where
  "append_text cap od first to out =
     (let b = unit_at (fst od) (snd od) first; e = unit_at (fst od) (snd od) to;
          n = u32_of (e + 2 ^ 32 - b)
      in if n > cap - length out \<or> 4 + length out + n > output_bytes
         then Inl Scan_string_capacity_exceeded
         else Inr (out @ seg (fst od) (4 + b) n))"

definition then_append :: "ScanError + bytes \<Rightarrow> (bytes \<Rightarrow> ScanError + bytes) \<Rightarrow> ScanError + bytes" where
  "then_append r f = (case r of Inl e \<Rightarrow> Inl e | Inr out \<Rightarrow> f out)"

definition append_whole :: "nat \<Rightarrow> bytes \<times> TypeDesc \<Rightarrow> bytes \<Rightarrow> ScanError + bytes" where
  "append_whole cap od = append_text cap od 0 (scalar_length (fst od) (snd od))"

definition concat_texts :: "nat \<Rightarrow> (bytes \<times> TypeDesc) list \<Rightarrow> ScanError + bytes" where
  "concat_texts cap ods = fold (\<lambda>od r. then_append r (append_whole cap od)) ods (Inr [])"

text \<open>\<open>s i\<close> is the scalar argument \<open>i\<close>, \<open>a\<close> and \<open>b\<close> the first two text arguments.\<close>

definition text_result ::
  "nat \<Rightarrow> nat \<Rightarrow> (bytes \<times> TypeDesc) list \<Rightarrow> (nat \<Rightarrow> int) \<Rightarrow> ScanError + bytes"
where
  "text_result f cap ods s =
     (let a = ods ! 0; b = ods ! 1; n = scalar_length (fst a) (snd a);
          reject = Inl Scan_range_violation;
          bad_range = (\<lambda>count position. count < 0 \<or> position < 1 \<or> position > int n + 1)
      in if f = sf_concat then concat_texts cap ods
         else if f = sf_left then
           (if s 1 < 0 then reject else append_text cap a 0 (min n (u32_of (nat (s 1)))) [])
         else if f = sf_right then
           (if s 1 < 0 then reject else append_text cap a (n - min n (u32_of (nat (s 1)))) n [])
         else if f = sf_mid then
           (if bad_range (s 1) (s 2) then reject
            else let begin = nat (s 2 - 1)
              in append_text cap a begin (min n (u32_of (begin + u32_of (nat (s 1))))) [])
         else if f = sf_insert then
           (if bad_range 0 (s 2) then reject
            else let at = nat (s 2 - 1)
              in then_append (then_append (append_text cap a 0 at []) (append_whole cap b))
                   (append_text cap a at n))
         else if f = sf_delete then
           (if bad_range (s 1) (s 2) then reject
            else let at = nat (s 2 - 1); e = min n (u32_of (at + u32_of (nat (s 1))))
              in then_append (append_text cap a 0 at []) (append_text cap a e n))
         else if f = sf_replace then
           (if bad_range (s 2) (s 3) then reject
            else let at = nat (s 3 - 1); e = min n (u32_of (at + u32_of (nat (s 2))))
              in then_append (then_append (append_text cap a 0 at []) (append_whole cap b))
                   (append_text cap a e n))
         else Inl Scan_invalid_bytecode)"


section \<open>The instruction\<close>

primrec text_args ::
  "'n vm_context \<Rightarrow> nat \<Rightarrow> text_arg list \<Rightarrow> 'n machine \<Rightarrow> (text_arg list \<Rightarrow> 'n machine \<Rightarrow> 'n outcome) \<Rightarrow>
    'n outcome"
where
  "text_args cx 0 args m k = k args m"
| "text_args cx (Suc i) args m k =
     operand8 cx m (\<lambda>is_string m1.
       if is_string = 0 then text_args cx i (args @ [None]) m1 k
       else operand8 cx m1 (\<lambda>constant m2. operand32 cx m2 (\<lambda>offset m3. operand32 cx m3 (\<lambda>ty m4.
         some (text_type cx ty) m4 (\<lambda>d.
           let obj = drop offset (if constant \<noteq> 0 then string_constants cx else mc_vars m4)
           in valid (if constant \<noteq> 0
                  then constant_header cx offset \<and>
                    4 + read_le32 obj * unit_width d \<le> length (string_constants cx) - offset
                  else in_vars (cx_program cx) offset (td_size d)) m4
                (valid (valid_string_object obj d) m4
                  (text_args cx i (args @ [Some (obj, d)]) m4 k)))))))"

text \<open>The argument kinds a function accepts: \<open>True\<close> is a string, \<open>False\<close> a scalar.\<close>

definition valid_signature :: "nat \<Rightarrow> bool list \<Rightarrow> bool" where
  "valid_signature f kinds =
     (if f = sf_len then kinds = [True]
      else if f = sf_left \<or> f = sf_right then kinds = [True, False]
      else if f = sf_mid \<or> f = sf_delete then kinds = [True, False, False]
      else if f = sf_concat then length kinds \<ge> 2 \<and> list_all (\<lambda>b. b) kinds
      else if f = sf_insert then kinds = [True, True, False]
      else if f = sf_replace then kinds = [True, True, False, False]
      else if f = sf_find then kinds = [True, True]
      else False)"

definition text_args_of :: "text_arg list \<Rightarrow> (bytes \<times> TypeDesc) list" where
  "text_args_of args = map the (filter (\<lambda>a. a \<noteq> None) args)"

definition scalar_count :: "text_arg list \<Rightarrow> nat" where
  "scalar_count args = length (filter (\<lambda>a. a = None) args)"

definition scalar_result :: "nat \<Rightarrow> (bytes \<times> TypeDesc) list \<Rightarrow> nat" where
  "scalar_result f ods =
     (if f = sf_len then scalar_length (fst (ods ! 0)) (snd (ods ! 0))
      else find_text (fst (ods ! 0)) (snd (ods ! 0)) (fst (ods ! 1)))"

definition store_text :: "nat \<Rightarrow> TypeDesc \<Rightarrow> bytes \<Rightarrow> 'n machine \<Rightarrow> 'n outcome" where
  "store_text destination d out m =
     (let units = length out div unit_width d
      in require (units \<le> td_capacity d) Scan_string_capacity_exceeded m
           (Next (m\<lparr> mc_vars := blit destination (le_bytes 4 (of_nat units) @ out)
              (blit destination (replicate (td_size d) 0) (mc_vars m)) \<rparr>)))"

text \<open>The part after the charge: \<open>dst\<close> is the type of the destination, \<open>None\<close> for a scalar result.\<close>

definition string_result ::
  "'n vm_context \<Rightarrow> nat \<Rightarrow> text_arg list \<Rightarrow> nat \<Rightarrow> TypeDesc option \<Rightarrow> 'n machine \<Rightarrow> 'n outcome"
where
  "string_result cx f args destination dst m =
     (let ods = text_args_of args; sc = scalar_count args; st = mc_stack m;
          s = (\<lambda>i. as_i64 (rev (take sc st) ! scalar_count (take i args)));
          m1 = m\<lparr> mc_stack := drop sc st \<rparr>
      in if f = sf_len \<or> f = sf_find
         then valid (room cx m1) m1 (Next (push (of_nat (scalar_result f ods)) m1))
         else some dst m (\<lambda>d.
           valid (in_vars (cx_program cx) destination (td_size d)) m
             (case text_result f (td_capacity d * unit_width d) ods s of
                Inl e \<Rightarrow> Fault e m
              | Inr out \<Rightarrow> store_text destination d out m1)))"

definition destination_type :: "'n vm_context \<Rightarrow> nat \<Rightarrow> TypeId \<Rightarrow> TypeDesc option" where
  "destination_type cx destination ty = (if destination = u32_max then None else text_type cx ty)"

definition standard_string :: "'n vm_context \<Rightarrow> 'n machine \<Rightarrow> 'n outcome" where
  "standard_string cx m =
     operand8 cx m (\<lambda>fb m1. operand8 cx m1 (\<lambda>ab m2.
     valid (ab \<noteq> 0 \<and> ab \<le> 32) m2
     (operand32 cx m2 (\<lambda>destination m3. operand32 cx m3 (\<lambda>ty m4.
     text_args cx (unat ab) [] m4 (\<lambda>args m5.
       let f = unat fb; dst = destination_type cx destination ty
       in valid (valid_signature f (map (\<lambda>a. a \<noteq> None) args) \<and>
              (f = sf_len \<or> f = sf_find) = (destination = u32_max)) m5
          (valid (destination = u32_max \<or> dst \<noteq> None) m5
          (valid (scalar_count args \<le> length (mc_stack m5)) m5
          (charge (standard_string_cost f (map (\<lambda>od. td_capacity (snd od)) (text_args_of args))
              (case dst of None \<Rightarrow> 0 | Some d \<Rightarrow> td_capacity d)) Scan_budget_exceeded m5
            (string_result cx f args destination dst))))))))))"

end
