(* ===== verification/VmExec.thy ===== *)
theory VmExec
  imports VmMove VmString
begin

text \<open>
  One instruction (the switch of \<open>Instance::resume\<close> in \<open>core/st/vm.h\<close>, but for \<open>halt\<close> and
  \<open>debug_probe\<close>, which end or pause a slice), and what every instruction keeps. The locale
  \<open>machine_property\<close> lists the primitive changes an instruction is made of; a property closed under
  them holds after every instruction on arbitrary bytecode. It is interpreted on the budget, on the
  memory the instructions may write and on the image.
\<close>

definition exec_op :: "'n vm_context \<Rightarrow> Op \<Rightarrow> 'n machine \<Rightarrow> 'n outcome" where
  "exec_op cx op m = (case op of
     Op_push_const \<Rightarrow> push_const cx m
   | Op_load_var \<Rightarrow> load_var cx m
   | Op_store_var \<Rightarrow> store_var cx m
   | Op_load_access \<Rightarrow> load_access cx m
   | Op_store_access \<Rightarrow> store_access cx m
   | Op_copy_bytes \<Rightarrow> copy_bytes cx m
   | Op_string S_copy \<Rightarrow> string_copy False cx m
   | Op_string S_copy_const \<Rightarrow> string_copy True cx m
   | Op_string S_compare \<Rightarrow> string_compare cx m
   | Op_string S_index \<Rightarrow> string_index cx m
   | Op_string S_check_unicode \<Rightarrow> check_unicode m
   | Op_string S_length \<Rightarrow> string_length cx m
   | Op_string S_standard \<Rightarrow> standard_string cx m
   | Op_date_arith \<Rightarrow> date_arith cx m
   | Op_int k \<Rightarrow> int_arith IW_16 k m
   | Op_dint k \<Rightarrow> int_arith IW_32 k m
   | Op_time k \<Rightarrow> int_arith IW_64 k m
   | Op_real k \<Rightarrow> real_arith k m
   | Op_lreal k \<Rightarrow> lreal_arith k m
   | Op_bool k \<Rightarrow> bool_op k m
   | Op_cmp_i c \<Rightarrow> cmp_i c m
   | Op_cmp_f c \<Rightarrow> cmp_f c m
   | Op_jmp \<Rightarrow> jmp cx m
   | Op_jmp_if_false \<Rightarrow> jmp_if_false cx m
   | Op_for F_guard \<Rightarrow> for_guard cx m
   | Op_for F_test \<Rightarrow> for_test cx m
   | Op_for F_step_int \<Rightarrow> for_step wrap16 cx m
   | Op_for F_step_dint \<Rightarrow> for_step wrap32 cx m
   | Op_fb FB_store_in \<Rightarrow> fb_store_in cx m
   | Op_fb FB_store_object \<Rightarrow> fb_store_object cx m
   | Op_fb FB_call \<Rightarrow> fb_call cx m
   | Op_fb FB_load_out \<Rightarrow> fb_load_out cx m
   | Op_fb FB_load_object \<Rightarrow> fb_load_object cx m
   | Op_iarith \<Rightarrow> iarith cx m
   | Op_cmp_u \<Rightarrow> cmp_u cx m
   | Op_bit k \<Rightarrow> bit_op cx k m
   | Op_time_scale \<Rightarrow> time_scale cx m
   | Op_power \<Rightarrow> power_op cx m
   | Op_conv k \<Rightarrow> conv cx k m
   | Op_check_range \<Rightarrow> check_range cx m
   | Op_commit_outputs \<Rightarrow> commit_outputs cx m
   | Op_alias_guard \<Rightarrow> alias_guard m
   | Op_standard_scalar \<Rightarrow> standard_scalar cx m
   | _ \<Rightarrow> Fault Scan_invalid_bytecode m)"


section \<open>What an instruction may change\<close>

definition text_types_ok :: "Program \<Rightarrow> bool" where
  "text_types_ok p \<longleftrightarrow> (\<forall>ty d. get_type (types p) ty = Some d \<longrightarrow> is_text d \<longrightarrow>
     4 + td_capacity d * unit_width d \<le> td_size d)"

text \<open>\<open>xs\<close> is \<open>ys\<close> after writes within the variables.\<close>

definition writes_within :: "Program \<Rightarrow> bytes \<Rightarrow> bytes \<Rightarrow> bool" where
  "writes_within p ys xs \<longleftrightarrow> (text_types_ok p \<longrightarrow> vars_bytes p \<le> length ys \<longrightarrow>
     length xs = length ys \<and> drop (vars_bytes p) xs = drop (vars_bytes p) ys)"

definition holds_after :: "('n machine \<Rightarrow> bool) \<Rightarrow> 'n outcome \<Rightarrow> bool" where
  "holds_after Q out = (case out of Next m \<Rightarrow> Q m | Fault e m \<Rightarrow> Q m)"

lemma holds_after_simps [simp]:
  "holds_after Q (Next m) = Q m" "holds_after Q (Fault e m) = Q m"
  by (simp_all add: holds_after_def)

lemma writes_within_refl [simp]: "writes_within p ys ys"
  by (simp add: writes_within_def)

lemma writes_within_trans: "writes_within p ys xs \<Longrightarrow> writes_within p xs zs \<Longrightarrow> writes_within p ys zs"
  by (auto simp: writes_within_def)

lemma drop_blit: "off + length src \<le> n \<Longrightarrow> n \<le> length dst \<Longrightarrow> drop n (blit off src dst) = drop n dst"
  by (simp add: blit_def)

lemma writes_within_blit:
  assumes "text_types_ok p \<Longrightarrow> in_vars p offset (length bs)"
  shows "writes_within p ys (blit offset bs ys)"
  unfolding writes_within_def
proof (intro impI)
  assume "text_types_ok p" "vars_bytes p \<le> length ys"
  with assms have "offset + length bs \<le> vars_bytes p" "offset + length bs \<le> length ys"
    by (auto simp: in_vars_def)
  with \<open>vars_bytes p \<le> length ys\<close>
  show "length (blit offset bs ys) = length ys \<and> drop (vars_bytes p) (blit offset bs ys) = drop (vars_bytes p) ys"
    by (simp add: drop_blit)
qed

lemma length_seg_in_vars:
  "in_vars p offset n \<Longrightarrow> vars_bytes p \<le> length ys \<Longrightarrow> length (seg ys offset n) = n"
  by (auto simp: in_vars_def)

lemma writes_within_copy:
  assumes "in_vars p d n" "in_vars p s n"
  shows "writes_within p ys (copy_within ys (d, s, n))"
proof -
  have "vars_bytes p \<le> length ys \<Longrightarrow> length (seg ys s n) = n" by (rule length_seg_in_vars [OF assms(2)])
  with assms(1) show ?thesis
    by (auto simp: copy_within_def writes_within_def in_vars_def drop_blit)
qed

lemma writes_within_copies:
  assumes "list_all (\<lambda>(d, s, n). in_vars p d n \<and> in_vars p s n) items"
  shows "writes_within p ys (fold (\<lambda>c xs. copy_within xs c) items ys)"
  using assms
proof (induction items arbitrary: ys)
  case Nil
  then show ?case by simp
next
  case (Cons c items)
  obtain d s n where c: "c = (d, s, n)" by (cases c)
  with Cons show ?case by (auto intro: writes_within_trans [OF writes_within_copy])
qed

lemma store_value_within:
  assumes "store_value p xs im offset ty v = Some (ys, im')"
  shows "writes_within p xs ys" and "im' = im \<or> im' = map_option (\<lambda>i. mark_store i p offset ty) im"
  using assms
  by (auto simp: store_value_def store_raw64_def Let_def slot_access_def split: option.splits if_splits
      intro!: writes_within_blit)


lemma append_text_length:
  "append_text cap od first to out = Inr r \<Longrightarrow> length out \<le> cap \<Longrightarrow> length r \<le> cap"
  by (auto simp: append_text_def Let_def seg_def split: if_splits)

lemma then_append_length:
  "then_append r f = Inr s \<Longrightarrow> (\<And>out. r = Inr out \<Longrightarrow> length out \<le> cap) \<Longrightarrow>
    (\<And>out. length out \<le> cap \<Longrightarrow> f out = Inr s \<Longrightarrow> length s \<le> cap) \<Longrightarrow> length s \<le> cap"
  by (cases r) (auto simp: then_append_def)

lemma concat_texts_length: "concat_texts cap ods = Inr r \<Longrightarrow> length r \<le> cap"
proof -
  have fold: "fold (\<lambda>od r. then_append r (append_whole cap od)) ods r0 = Inr r \<Longrightarrow>
      (\<And>out. r0 = Inr out \<Longrightarrow> length out \<le> cap) \<Longrightarrow> length r \<le> cap" for r0
  proof (induction ods arbitrary: r0)
    case (Cons od ods)
    show ?case
      by (rule Cons.IH [OF Cons.prems(1) [simplified]], erule then_append_length)
        (use Cons.prems(2) in \<open>auto simp: append_whole_def dest: append_text_length\<close>)
  qed simp
  then show "concat_texts cap ods = Inr r \<Longrightarrow> length r \<le> cap"
    using fold [of "Inr []"] by (simp add: concat_texts_def)
qed

lemma text_result_length:
  assumes "text_result f cap ods s = Inr out"
  shows "length out \<le> cap"
  using assms unfolding text_result_def Let_def append_whole_def
  by (auto split: if_splits dest!: concat_texts_length elim!: then_append_length
      dest: append_text_length)


text \<open>The instructions that cost nothing beyond their dispatch.\<close>

definition weightless :: "Op \<Rightarrow> bool" where
  "weightless op = (case op of
     Op_string k \<Rightarrow> k = S_check_unicode | Op_fb k \<Rightarrow> k \<notin> {FB_store_object, FB_load_object}
   | Op_commit_outputs \<Rightarrow> False | Op_standard_scalar \<Rightarrow> False | _ \<Rightarrow> True)"


section \<open>Properties closed under the primitive changes\<close>

locale machine_frame =
  fixes cx :: "'n vm_context" and Q :: "'n machine \<Rightarrow> bool"
  assumes pc: "Q m \<Longrightarrow> Q (m\<lparr> mc_pc := n \<rparr>)"
    and stack: "Q m \<Longrightarrow> length st \<le> length (mc_stack m) \<or> length st \<le> cx_stack_limit cx \<Longrightarrow>
      Q (m\<lparr> mc_stack := st \<rparr>)"
    and writing: "Q m \<Longrightarrow> writes_within (cx_program cx) (mc_vars m) xs \<Longrightarrow> Q (m\<lparr> mc_vars := xs \<rparr>)"
    and mark: "Q m \<Longrightarrow> Q (m\<lparr> mc_image := map_option (\<lambda>i. mark_store i (cx_program cx) offset ty) (mc_image m) \<rparr>)"
    and native: "Q m \<Longrightarrow> Q (m\<lparr> mc_native := k \<rparr>)"
begin

lemma req: "Q m \<Longrightarrow> (ok \<Longrightarrow> holds_after Q k) \<Longrightarrow> holds_after Q (require ok e m k)"
  by (simp add: require_def)

lemma given_some: "Q m \<Longrightarrow> (\<And>v. x = Some v \<Longrightarrow> holds_after Q (k v)) \<Longrightarrow> holds_after Q (the_or x e m k)"
  by (simp add: the_or_def split: option.split)

lemma opnd: "Q m \<Longrightarrow> (\<And>v n. Q (m\<lparr> mc_pc := n \<rparr>) \<Longrightarrow> holds_after Q (k v (m\<lparr> mc_pc := n \<rparr>))) \<Longrightarrow>
    holds_after Q (operand rd cx m k)"
  by (simp add: operand_def pc split: option.split)

lemma popped: "Q m \<Longrightarrow> (\<And>a st. mc_stack m = a # st \<Longrightarrow> Q (m\<lparr> mc_stack := st \<rparr>) \<Longrightarrow>
    holds_after Q (k a (m\<lparr> mc_stack := st \<rparr>))) \<Longrightarrow> holds_after Q (pop m k)"
  by (simp add: pop_def stack split: list.split)

lemma popped2: "Q m \<Longrightarrow> (\<And>a b st. mc_stack m = b # a # st \<Longrightarrow> Q (m\<lparr> mc_stack := st \<rparr>) \<Longrightarrow>
    holds_after Q (k a b (m\<lparr> mc_stack := st \<rparr>))) \<Longrightarrow> holds_after Q (pop2 m k)"
  by (simp add: pop2_def stack split: list.split)

text \<open>A push onto what is left of a stack.\<close>

lemma push_on: "Q m \<Longrightarrow> length st < length (mc_stack m) \<or> length st < cx_stack_limit cx \<Longrightarrow>
    Q (m\<lparr> mc_stack := v # st \<rparr>)"
  by (rule stack) auto

lemma push_room: "Q m \<Longrightarrow> room cx m \<Longrightarrow> Q (push v m)"
  by (simp add: push_def push_on room_def)

lemmas moves = req given_some opnd popped popped2

lemma given: "Q m \<Longrightarrow> (\<And>v. Q (push v m)) \<Longrightarrow> holds_after Q (give r m)"
  by (cases r) (simp_all add: give_def)

lemma scalar_ops:
  assumes "Q m"
  shows "holds_after Q (int_arith w k m)" "holds_after Q (real_arith k m)"
    "holds_after Q (lreal_arith k m)" "holds_after Q (bool_op b m)" "holds_after Q (cmp_i c m)"
    "holds_after Q (cmp_f c m)" "holds_after Q (alias_guard m)" "holds_after Q (check_unicode m)"
  using assms
  by (auto simp: int_arith_def real_arith_def lreal_arith_def bool_op_def cmp_i_def cmp_f_def
      alias_guard_def check_unicode_def push_def intro!: moves given push_on)

lemma typed_ops:
  assumes "Q m"
  shows "holds_after Q (cmp_u cx m)" "holds_after Q (bit_op cx b m)" "holds_after Q (iarith cx m)"
    "holds_after Q (time_scale cx m)" "holds_after Q (power_op cx m)" "holds_after Q (conv cx k m)"
    "holds_after Q (check_range cx m)" "holds_after Q (date_arith cx m)"
  using assms
  by (auto simp: cmp_u_def bit_op_def iarith_def time_scale_def power_op_def conv_def check_range_def
      date_arith_def push_def Let_def split: ConvOp.split intro!: moves given push_on)

lemma loaded: "Q (m\<lparr> mc_stack := st \<rparr>) \<Longrightarrow> (\<And>v. Q (m\<lparr> mc_stack := v # st \<rparr>)) \<Longrightarrow>
    holds_after Q (load_into cx offset ty (m\<lparr> mc_stack := st \<rparr>))"
  by (auto simp: load_into_def push_def intro: moves)

lemma stored: "Q m \<Longrightarrow> holds_after Q (store_to cx offset ty v m)"
proof -
  assume m: "Q m"
  have "Q (m\<lparr> mc_vars := xs, mc_image := im \<rparr>)"
    if s: "store_value (cx_program cx) (mc_vars m) (mc_image m) offset ty v = Some (xs, im)" for xs im
  proof -
    from m store_value_within(1) [OF s] have "Q (m\<lparr> mc_vars := xs \<rparr>)" by (rule writing)
    from this mark [OF this, of offset ty] store_value_within(2) [OF s] show ?thesis
      by auto
  qed
  with m show ?thesis by (auto simp: store_to_def intro!: moves)
qed

lemma variable_ops:
  assumes "Q m"
  shows "holds_after Q (push_const cx m)" "holds_after Q (load_var cx m)" "holds_after Q (store_var cx m)"
    "holds_after Q (jmp cx m)" "holds_after Q (for_guard cx m)"
    "holds_after Q (for_test cx m)" "holds_after Q (for_step f cx m)"
  using assms
  by (auto simp: push_const_def load_var_def store_var_def jmp_def for_guard_def
      for_test_def for_step_def load_into_def Let_def intro!: moves stored push_room pc)

lemma jump_if: "Q m \<Longrightarrow> holds_after Q (jmp_if_false cx m)"
  by (auto simp: jmp_if_false_def intro!: moves pc stack)

lemma indexed_keeps:
  assumes "Q m" "\<And>at n. Q (m\<lparr> mc_pc := n \<rparr>) \<Longrightarrow> holds_after Q (k at (m\<lparr> mc_pc := n \<rparr>))"
  shows "holds_after Q (indexed cx vs offset m k)"
  using assms
proof (induction vs arbitrary: offset m)
  case Nil
  from Nil.prems(2) [of "mc_pc m" offset] Nil.prems(1) show ?case by simp
next
  case (Cons v vs)
  then show ?case by (auto simp: Let_def intro!: moves Cons.IH)
qed

lemma access_ops:
  assumes "Q m"
  shows "holds_after Q (load_access cx m)" "holds_after Q (store_access cx m)" "holds_after Q (copy_bytes cx m)"
  using assms
  by (auto simp: load_access_def store_access_def copy_bytes_def Let_def
      intro!: moves indexed_keeps loaded stored stack push_on writing writes_within_copy)

abbreviation copies_ok :: "(nat \<times> nat \<times> nat) list \<Rightarrow> bool" where
  "copies_ok \<equiv> list_all (\<lambda>(d, s, n). in_vars (cx_program cx) d n \<and> in_vars (cx_program cx) s n)"

lemma commit_item_keeps:
  assumes "Q m" "copies_ok items"
    and "\<And>idx items n. Q (m\<lparr> mc_pc := n \<rparr>) \<Longrightarrow> copies_ok items \<Longrightarrow> holds_after Q (k idx items (m\<lparr> mc_pc := n \<rparr>))"
  shows "holds_after Q (commit_item cx idx items m k)"
  using assms
  by (auto simp: commit_item_def Let_def intro!: moves indexed_keeps)

lemma commit_items_keeps:
  assumes "Q m" "copies_ok items"
    and "\<And>idx items n. Q (m\<lparr> mc_pc := n \<rparr>) \<Longrightarrow> copies_ok items \<Longrightarrow> holds_after Q (k idx items (m\<lparr> mc_pc := n \<rparr>))"
  shows "holds_after Q (commit_items cx c idx items m k)"
  using assms
proof (induction c arbitrary: idx items m)
  case 0
  from 0(3) [of "mc_pc m" items idx] 0(1,2) show ?case by simp
next
  case (Suc c)
  then show ?case by (auto intro!: commit_item_keeps Suc.IH)
qed

lemma block_pin_keeps:
  "Q m \<Longrightarrow> (\<And>fb pin n. Q (m\<lparr> mc_pc := n \<rparr>) \<Longrightarrow> holds_after Q (k fb pin (m\<lparr> mc_pc := n \<rparr>))) \<Longrightarrow>
    holds_after Q (block_pin cx m k)"
  by (auto simp: block_pin_def intro!: moves)

lemma compared_keeps:
  "Q m \<Longrightarrow> (\<And>obj d n. Q (m\<lparr> mc_pc := n \<rparr>) \<Longrightarrow> holds_after Q (k obj d (m\<lparr> mc_pc := n \<rparr>))) \<Longrightarrow>
    holds_after Q (compared_object cx m k)"
  by (auto simp: compared_object_def Let_def intro!: moves)

lemma text_args_keeps:
  assumes "Q m" "\<And>args n. Q (m\<lparr> mc_pc := n \<rparr>) \<Longrightarrow> holds_after Q (k args (m\<lparr> mc_pc := n \<rparr>))"
  shows "holds_after Q (text_args cx c args m k)"
  using assms
proof (induction c arbitrary: args m)
  case 0
  from 0(2) [of "mc_pc m" args] 0(1) show ?case by simp
next
  case (Suc c)
  then show ?case by (auto simp: Let_def intro!: moves Suc.IH)
qed

lemma text_write:
  assumes "in_vars (cx_program cx) d (td_size dst)" "is_text dst"
    and "get_type (types (cx_program cx)) ty = Some dst" "length ys \<le> 4 + td_capacity dst * unit_width dst"
  shows "writes_within (cx_program cx) xs (blit d ys (blit d (replicate (td_size dst) 0) xs))"
proof (rule writes_within_trans)
  show "writes_within (cx_program cx) xs (blit d (replicate (td_size dst) 0) xs)"
    using assms(1) by (intro writes_within_blit) simp
  have "text_types_ok (cx_program cx) \<Longrightarrow> length ys \<le> td_size dst"
    using assms(2-4) unfolding text_types_ok_def by (meson le_trans)
  with assms(1) show "writes_within (cx_program cx) (blit d (replicate (td_size dst) 0) xs)
      (blit d ys (blit d (replicate (td_size dst) 0) xs))"
    by (intro writes_within_blit) (auto simp: in_vars_def)
qed

lemma store_text_keeps:
  assumes "Q m" "in_vars (cx_program cx) destination (td_size d)" "is_text d"
    "get_type (types (cx_program cx)) ty = Some d" "length out \<le> td_capacity d * unit_width d"
  shows "holds_after Q (store_text destination d out m)"
proof -
  have "length (le_bytes 4 x @ out) \<le> 4 + td_capacity d * unit_width d" for x using assms(5) by simp
  from writing [OF assms(1) text_write [OF assms(2-4) this]] show ?thesis
    using assms(1) by (auto simp: store_text_def Let_def intro!: moves)
qed

lemma string_result_keeps:
  assumes "Q m" "dst = destination_type cx destination ty"
  shows "holds_after Q (string_result cx f args destination dst m)"
proof -
  have d: "get_type (types (cx_program cx)) ty = Some d \<and> is_text d" if "dst = Some d" for d
    using that assms(2) by (auto simp: destination_type_def text_type_def split: if_splits option.splits)
  have "Q (m\<lparr> mc_stack := drop k (mc_stack m) \<rparr>)" for k by (rule stack) (simp_all add: assms)
  then show ?thesis
    using assms(1) d
    by (auto simp: string_result_def Let_def room_def push_def split: sum.split
        intro!: moves store_text_keeps push_on dest!: text_result_length)
qed

lemma block_calls:
  assumes "Q m"
  shows "holds_after Q (fb_store_in cx m)" "holds_after Q (fb_load_out cx m)" "holds_after Q (fb_call cx m)"
  using assms
  by (auto simp: fb_store_in_def fb_load_out_def fb_call_def
      intro!: moves block_pin_keeps native push_room writing writes_within_blit)

lemma weightless_instruction: "Q m \<Longrightarrow> weightless op \<Longrightarrow> holds_after Q (exec_op cx op m)"
  by (simp add: exec_op_def weightless_def scalar_ops typed_ops variable_ops jump_if access_ops block_calls
      split: Op.split_asm Op.split StringOp.split ForOp.split FbOp.split)

end

text \<open>With the budget, every instruction.\<close>

locale machine_property = machine_frame +
  assumes spend: "Q m \<Longrightarrow> 0 \<le> c \<Longrightarrow> c \<le> mc_remaining m \<Longrightarrow> Q (m\<lparr> mc_remaining := mc_remaining m - c \<rparr>)"
begin

lemma charged: "Q m \<Longrightarrow> (\<And>r. Q (m\<lparr> mc_remaining := r \<rparr>) \<Longrightarrow> holds_after Q (k (m\<lparr> mc_remaining := r \<rparr>))) \<Longrightarrow>
    holds_after Q (charge c e m k)"
  using spend [of m "int (c - 1)"] by (simp add: charge_def Let_def)

lemmas keep = moves charged

lemma standard_scalar: "Q m \<Longrightarrow> holds_after Q (standard_scalar cx m)"
  by (auto simp: standard_scalar_def push_def Let_def intro!: keep given push_on stack)

lemma commit_outputs: "Q m \<Longrightarrow> holds_after Q (commit_outputs cx m)"
  by (auto simp: commit_outputs_def Let_def
      intro!: keep commit_items_keeps writing stack writes_within_copies)

lemma fb_object_keeps:
  "Q m \<Longrightarrow> (\<And>fb pin offset ty c n r. Q (m\<lparr> mc_pc := n, mc_remaining := r \<rparr>) \<Longrightarrow>
      in_vars (cx_program cx) offset c \<Longrightarrow>
      holds_after Q (k fb pin offset ty c (m\<lparr> mc_pc := n, mc_remaining := r \<rparr>))) \<Longrightarrow>
    holds_after Q (fb_object kinds cx m k)"
  by (auto simp: fb_object_def intro!: keep block_pin_keeps)

lemma block_ops:
  assumes "Q m"
  shows "holds_after Q (fb_store_object cx m)" "holds_after Q (fb_load_object cx m)"
  using assms
  by (auto simp: fb_store_object_def fb_load_object_def intro!: keep fb_object_keeps native push_room writing writes_within_blit)

lemma text_queries:
  assumes "Q m"
  shows "holds_after Q (string_compare cx m)" "holds_after Q (string_length cx m)"
  using assms
  by (auto simp: string_compare_def string_length_def Let_def push_def room_def
      intro!: keep compared_keeps push_on)

lemma string_index: "Q m \<Longrightarrow> holds_after Q (string_index cx m)"
  by (auto simp: string_index_def Let_def intro!: keep stack)

lemma string_copy:
  assumes "Q m"
  shows "holds_after Q (string_copy constant cx m)"
proof -
  have last: "holds_after Q (Next (if \<not> constant \<and> source = d then M else M\<lparr> mc_vars := blit d
      (if constant then take c obj else seg ys source c) (blit d (replicate (td_size dst) 0) (mc_vars M)) \<rparr>))"
    if "Q M" "in_vars (cx_program cx) d (td_size dst)" "is_text dst"
      "get_type (types (cx_program cx)) ty = Some dst" "c = 4 + unit_width dst * n" "n \<le> td_capacity dst"
    for M source d c obj ys dst ty n
  proof -
    have "length (if constant then take c obj else seg ys source c) \<le> 4 + td_capacity dst * unit_width dst"
      using that(5,6) by (auto simp: seg_def mult.commute min_le_iff_disj)
    from writing [OF that(1) text_write [OF that(2-4) this]] that(1) show ?thesis by auto
  qed
  show ?thesis
    unfolding string_copy_def Let_def
    by (intro keep last) (auto simp: assms pc)
qed

lemma standard_string: "Q m \<Longrightarrow> holds_after Q (standard_string cx m)"
  by (auto simp: standard_string_def Let_def intro!: keep text_args_keeps string_result_keeps)

theorem instruction: "Q m \<Longrightarrow> holds_after Q (exec_op cx op m)"
  by (simp add: exec_op_def scalar_ops typed_ops standard_scalar variable_ops jump_if access_ops
      commit_outputs block_calls block_ops text_queries string_index string_copy standard_string
      split: Op.split StringOp.split ForOp.split FbOp.split)

end

end
