(* ===== verification/VmInstance.thy ===== *)
theory VmInstance
  imports VmMachine
begin

text \<open>
  The program instance of \<open>core/st/vm.h\<close>: its memory, the runner of its SFC networks, loading, the
  start and the end of a scan, and the queries. \<open>execution_vars_\<close> and \<open>visible_vars_\<close> point either
  to the variables or into the SFC runtime area; the instance keeps the choice. The caller's trace
  array is the list of the records written so far. What an instance needs from outside (native
  blocks, mathematical functions, the size of its source maps, the ABI) is the record \<open>vm_env\<close>.
\<close>

record 'n vm_env =
  ve_native :: "'n native_ops"
  ve_init :: "Program \<Rightarrow> int \<Rightarrow> 'n"
  ve_none :: 'n
  ve_libm :: libm
  ve_stale :: "nat \<Rightarrow> u64"
  ve_source_entries :: "Program \<Rightarrow> SfcRegionInfo option \<Rightarrow> nat"
  ve_abi :: abi

datatype InstanceState = VS_idle | VS_running | VS_complete | VS_faulted

datatype SfcRunnerPhase =
    Ph_none | Ph_stage_vars | Ph_base | Ph_stage_active | Ph_stage_firing | Ph_stage_blocks
  | Ph_stage_actions | Ph_stage_direct | Ph_transitions | Ph_active_updates | Ph_qualifier_blocks
  | Ph_qualifier_actions | Ph_actions | Ph_trace_exits | Ph_trace_transitions | Ph_trace_enters
  | Ph_trace_qualifiers | Ph_trace_actions | Ph_commit_vars | Ph_commit_active | Ph_commit_blocks
  | Ph_commit_actions | Ph_finish

datatype SfcEventKind =
    Ev_step_exit | Ev_transition_fire | Ev_step_enter | Ev_qualifier_update | Ev_action_execute

text \<open>A trace record: \<open>entity\<close> is the field (step, transition, block or action) its kind selects.\<close>

record SfcTraceRecord =
  tc_scan :: u64
  tc_line :: int
  tc_column :: int
  tc_end_line :: int
  tc_end_column :: int
  tc_network :: nat
  tc_entity :: nat
  tc_kind :: SfcEventKind
  tc_qualifier :: nat

record SfcRunnerStorage =
  sfr_region :: "SfcRegionInfo option"
  sfr_trace :: "SfcTraceRecord list"
  sfr_trace_capacity :: nat
  sfr_network :: nat
  sfr_item :: nat
  sfr_subitem :: nat
  sfr_begin_size :: nat
  sfr_scan :: u64
  sfr_work :: nat
  sfr_dropped :: nat
  sfr_begin_dropped :: nat
  sfr_fault_network :: nat
  sfr_fault_element :: nat
  sfr_phase :: SfcRunnerPhase
  sfr_fault_kind :: TaskFaultElementKind
  sfr_reducer :: u8
  sfr_suppressed :: bool

definition initial_runner :: SfcRunnerStorage where
  "initial_runner = \<lparr> sfr_region = None, sfr_trace = [], sfr_trace_capacity = 0, sfr_network = 0,
     sfr_item = 0, sfr_subitem = 0, sfr_begin_size = 0, sfr_scan = 0, sfr_work = 0, sfr_dropped = 0,
     sfr_begin_dropped = 0, sfr_fault_network = u32_max, sfr_fault_element = u32_max,
     sfr_phase = Ph_none, sfr_fault_kind = FE_none, sfr_reducer = 0, sfr_suppressed = False \<rparr>"

record 'n Instance =
  vm_program :: "Program option"
  vm_image_bound :: bool
  vm_vars :: bytes
  vm_staged :: bool
  vm_shadow_visible :: bool
  vm_sfc :: bytes
  vm_runner :: SfcRunnerStorage
  vm_stack :: "u64 list"
  vm_native :: 'n
  vm_fault :: ScanError
  vm_state :: InstanceState
  vm_pc :: nat
  vm_instruction_pc :: nat
  vm_remaining :: int
  vm_scan_started :: bool
  vm_defer :: bool
  vm_period :: int
  vm_hooks :: bool
  vm_mapping :: nat
  vm_last_probe :: "(nat \<times> nat) option"

definition unload_instance :: "'n vm_env \<Rightarrow> 'n Instance" where
  "unload_instance env = \<lparr> vm_program = None, vm_image_bound = False, vm_vars = [], vm_staged = False,
     vm_shadow_visible = False, vm_sfc = [], vm_runner = initial_runner, vm_stack = [],
     vm_native = ve_none env, vm_fault = Scan_ok, vm_state = VS_idle, vm_pc = 0,
     vm_instruction_pc = 0, vm_remaining = 0, vm_scan_started = False, vm_defer = False,
     vm_period = 0, vm_hooks = False, vm_mapping = 0, vm_last_probe = None \<rparr>"

abbreviation the_program :: "'n Instance \<Rightarrow> Program" where
  "the_program v \<equiv> the (vm_program v)"

abbreviation networks :: "'n Instance \<Rightarrow> SfcNetworkInfo list" where
  "networks v \<equiv> pb_sfc_networks (body (the_program v))"

definition upd_runner :: "(SfcRunnerStorage \<Rightarrow> SfcRunnerStorage) \<Rightarrow> 'n Instance \<Rightarrow> 'n Instance" where
  "upd_runner f v = v\<lparr> vm_runner := f (vm_runner v) \<rparr>"


section \<open>The SFC runtime area\<close>

definition sfc_get :: "'n Instance \<Rightarrow> nat \<Rightarrow> nat \<Rightarrow> u8" where
  "sfc_get v offset i = vm_sfc v ! (offset + i)"

definition sfc_set :: "nat \<Rightarrow> nat \<Rightarrow> u8 \<Rightarrow> 'n Instance \<Rightarrow> 'n Instance" where
  "sfc_set offset i b v = v\<lparr> vm_sfc := (vm_sfc v)[offset + i := b] \<rparr>"

definition sfc_copy :: "nat \<Rightarrow> nat \<Rightarrow> nat \<Rightarrow> 'n Instance \<Rightarrow> 'n Instance" where
  "sfc_copy destination source n v =
     v\<lparr> vm_sfc := blit destination (seg (vm_sfc v) source n) (vm_sfc v) \<rparr>"

definition sfc_fill :: "nat \<Rightarrow> bytes \<Rightarrow> 'n Instance \<Rightarrow> 'n Instance" where
  "sfc_fill destination bs v = v\<lparr> vm_sfc := blit destination bs (vm_sfc v) \<rparr>"

definition sfc_block_bytes :: nat where "sfc_block_bytes = 16"

definition sfc_committed_shadow_offset :: "Program \<Rightarrow> nat" where
  "sfc_committed_shadow_offset p = align8 (vars_bytes p)"

definition reset_sfc_network :: "SfcNetworkInfo \<Rightarrow> 'n Instance \<Rightarrow> 'n Instance" where
  "reset_sfc_network n v =
     (let zero = (\<lambda>offset count. sfc_fill offset (replicate count 0));
          steps = length (sn_steps n); actions = length (sn_actions n);
          blocks = length (sn_action_blocks n) * sfc_block_bytes;
          v1 = zero (sn_direct_action_offset n) actions
            (zero (sn_staged_action_offset n) actions
            (zero (sn_committed_action_offset n) actions
            (zero (sn_staged_block_offset n) blocks
            (zero (sn_committed_block_offset n) blocks
            (zero (sn_firing_offset n) (length (sn_transitions n))
            (zero (sn_staged_active_offset n) steps
            (zero (sn_committed_active_offset n) steps v)))))))
      in fold (\<lambda>i u. if ss_initial (sn_steps n ! i)
           then sfc_set (sn_staged_active_offset n) i 1 (sfc_set (sn_committed_active_offset n) i 1 u)
           else u) [0..<steps] v1)"

definition initialize_sfc_runtime :: "'n Instance \<Rightarrow> 'n Instance" where
  "initialize_sfc_runtime v =
     (if vm_program v = None \<or> pb_sfc_runtime_bytes (body (the_program v)) = 0 then v
      else fold reset_sfc_network (networks v)
        (v\<lparr> vm_sfc := replicate (pb_sfc_runtime_bytes (body (the_program v))) 0 \<rparr>))"

definition sfc_commit_started :: "'n Instance \<Rightarrow> bool" where
  "sfc_commit_started v \<longleftrightarrow> sfr_phase (vm_runner v) \<in>
     {Ph_commit_vars, Ph_commit_active, Ph_commit_blocks, Ph_commit_actions, Ph_finish}"

definition rollback_network :: "SfcNetworkInfo \<Rightarrow> 'n Instance \<Rightarrow> 'n Instance" where
  "rollback_network n v =
     sfc_copy (sn_committed_action_offset n) (sn_shadow_action_offset n) (length (sn_actions n))
       (sfc_copy (sn_committed_block_offset n) (sn_shadow_block_offset n)
          (length (sn_action_blocks n) * sfc_block_bytes)
         (sfc_copy (sn_committed_active_offset n) (sn_shadow_active_offset n) (length (sn_steps n)) v))"

definition rollback_sfc_commit :: "'n Instance \<Rightarrow> 'n Instance" where
  "rollback_sfc_commit v =
     (case vm_program v of
        None \<Rightarrow> v
      | Some p \<Rightarrow> fold rollback_network (pb_sfc_networks (body p))
          (v\<lparr> vm_vars := blit 0 (seg (vm_sfc v) (sfc_committed_shadow_offset p) (vars_bytes p)) (vm_vars v) \<rparr>))"


section \<open>Loading\<close>

definition strings_valid :: "Program \<Rightarrow> bytes \<Rightarrow> bool" where
  "strings_valid p vars = list_all (\<lambda>v. case get_type (types p) (vi_type_id v) of
       None \<Rightarrow> True
     | Some d \<Rightarrow> is_text d \<longrightarrow>
         in_vars p (vi_offset v) (td_size d) \<and> valid_string_object (drop (vi_offset v) vars) d)
     (pb_vars (body p))"

definition load ::
  "'n vm_env \<Rightarrow> Program \<Rightarrow> bool \<Rightarrow> bool \<Rightarrow> nat \<Rightarrow> int \<Rightarrow> 'n Instance \<times> ErrorCode"
where
  "load env p has_buffer aligned buffer_bytes period =
     (let blank = unload_instance env;
          vars = blit 0 (initial_data p) (replicate (vars_bytes p) 0)
      in if pb_format_version (body p) \<noteq> bytecode_format_version then (blank, EC_bytecode_version_mismatch)
         else if \<not> has_buffer \<or> period \<le> 0 then (blank, EC_invalid_argument)
         else if \<not> aligned then (blank, EC_invalid_argument)
         else if buffer_bytes < required_bytes (ve_abi env) p then (blank, EC_capacity_exceeded)
         else if length (initial_data p) > vars_bytes p then (blank, EC_invalid_argument)
         else if \<not> strings_valid p vars then (blank, EC_invalid_argument)
         else (initialize_sfc_runtime
             (blank\<lparr> vm_program := Some p, vm_vars := vars, vm_native := ve_init env p period,
                     vm_period := period \<rparr>), EC_ok))"

definition load_with_image ::
  "'n vm_env \<Rightarrow> 'n Instance \<Rightarrow> Program \<Rightarrow> bool \<Rightarrow> bool \<Rightarrow> nat \<Rightarrow> int \<Rightarrow> ProcessImage option \<Rightarrow>
    'n Instance \<times> ErrorCode"
where
  "load_with_image env v p has_buffer aligned buffer_bytes period im =
     (case im of
        None \<Rightarrow> (v, EC_invalid_argument)
      | Some i \<Rightarrow>
          if \<not> supports i p then (v, EC_invalid_argument)
          else case load env p has_buffer aligned buffer_bytes period of
            (v', e) \<Rightarrow> (if e = EC_ok then v'\<lparr> vm_image_bound := True \<rparr> else v', e))"

definition load_named ::
  "'n vm_env \<Rightarrow> 'n Instance \<Rightarrow> Program \<Rightarrow> string option \<Rightarrow> bool \<Rightarrow> bool \<Rightarrow> nat \<Rightarrow> int \<Rightarrow>
    'n Instance \<times> ErrorCode"
where
  "load_named env v p name has_buffer aligned buffer_bytes period =
     (case name of
        None \<Rightarrow> (v, EC_invalid_argument)
      | Some n \<Rightarrow>
          (let selected =
             (if programs p \<noteq> [] then find (\<lambda>c. name_walk (program_name c) n) (programs p)
              else if program_name p \<noteq> [] \<and> \<not> name_walk (program_name p) n then None
              else Some p)
           in case selected of None \<Rightarrow> (v, EC_invalid_argument)
              | Some s \<Rightarrow> load env s has_buffer aligned buffer_bytes period))"


section \<open>Scans\<close>

definition begin_instance ::
  "'n Instance \<Rightarrow> int \<Rightarrow> ProcessImage option \<Rightarrow> ('n Instance \<times> ProcessImage option \<times> ScanError) option"
where
  "begin_instance v budget im =
     (case vm_program v of
        None \<Rightarrow> Some (v, im, Scan_not_loaded)
      | Some p \<Rightarrow>
          if vm_fault v \<noteq> Scan_ok then Some (v, im, vm_fault v)
          else if vm_state v = VS_running then Some (v, im, Scan_invalid_argument)
          else do {
            (vars, im1) \<leftarrow> (case im of
               None \<Rightarrow> Some (vm_vars v, None)
             | Some i \<Rightarrow> do { (xs, i1) \<leftarrow> begin_scan i p (vm_vars v); Some (xs, Some i1) });
            let sfc = (pb_sfc_networks (body p) \<noteq> []) in
            Some (upd_runner (\<lambda>r. r\<lparr> sfr_region := None,
                sfr_phase := (if \<not> sfc then Ph_none else if vars_bytes p = 0 then Ph_base else Ph_stage_vars),
                sfr_network := 0, sfr_item := 0, sfr_subitem := 0, sfr_work := 0, sfr_reducer := 0,
                sfr_suppressed := False, sfr_fault_network := u32_max, sfr_fault_element := u32_max,
                sfr_fault_kind := FE_none, sfr_begin_size := length (sfr_trace r),
                sfr_begin_dropped := sfr_dropped r \<rparr>)
              (v\<lparr> vm_vars := vars, vm_staged := sfc, vm_scan_started := True, vm_state := VS_running,
                  vm_pc := 0, vm_instruction_pc := 0, vm_stack := [], vm_remaining := budget \<rparr>),
              im1, Scan_ok) })"

definition restore_trace :: "SfcRunnerStorage \<Rightarrow> SfcRunnerStorage" where
  "restore_trace r = r\<lparr> sfr_trace := take (sfr_begin_size r) (sfr_trace r), sfr_dropped := sfr_begin_dropped r \<rparr>"

definition abort :: "'n Instance \<Rightarrow> 'n Instance" where
  "abort v =
     (let v1 = (if vm_state v = VS_running
            then upd_runner restore_trace (if sfc_commit_started v then rollback_sfc_commit v else v)
            else v)
      in upd_runner (\<lambda>r. r\<lparr> sfr_region := None, sfr_phase := Ph_none, sfr_subitem := 0, sfr_work := 0,
             sfr_reducer := 0, sfr_suppressed := False \<rparr>)
           (v1\<lparr> vm_state := VS_idle, vm_pc := 0, vm_instruction_pc := 0, vm_stack := [],
                vm_remaining := 0, vm_staged := False, vm_shadow_visible := False \<rparr>))"

definition reset :: "'n Instance \<Rightarrow> 'n Instance" where
  "reset v = abort (v\<lparr> vm_fault := Scan_ok \<rparr>)"

definition latch :: "ScanError \<Rightarrow> 'n Instance \<Rightarrow> 'n Instance" where
  "latch e v =
     (let r = vm_runner v;
          v1 = (if sfr_region r \<noteq> None \<and> sfr_network r < length (networks v)
            then upd_runner (\<lambda>r. r\<lparr> sfr_fault_network := sfr_network r, sfr_fault_element := sfr_item r,
                   sfr_fault_kind := (if sfr_phase r = Ph_transitions then FE_transition else FE_action) \<rparr>) v
            else v);
          v2 = (if sfc_commit_started v1 then rollback_sfc_commit v1 else v1)
      in upd_runner (\<lambda>r. (restore_trace r)\<lparr> sfr_region := None \<rparr>)
           (v2\<lparr> vm_staged := False, vm_shadow_visible := False, vm_fault := e, vm_state := VS_faulted \<rparr>))"


section \<open>Queries\<close>

definition visible_vars :: "'n Instance \<Rightarrow> bytes" where
  "visible_vars v = (if vm_shadow_visible v
     then seg (vm_sfc v) (sfc_committed_shadow_offset (the_program v)) (vars_bytes (the_program v))
     else vm_vars v)"

definition read_variable :: "'n Instance \<Rightarrow> nat \<Rightarrow> nat \<Rightarrow> bytes option" where
  "read_variable v offset n = (case vm_program v of None \<Rightarrow> None
     | Some p \<Rightarrow> if in_vars p offset n then Some (seg (visible_vars v) offset n) else None)"

definition variable_count :: "'n Instance \<Rightarrow> nat" where
  "variable_count v = (case vm_program v of None \<Rightarrow> 0 | Some p \<Rightarrow> length (pb_vars (body p)))"

definition find_variable :: "'n Instance \<Rightarrow> string option \<Rightarrow> nat option" where
  "find_variable v name = (case (vm_program v, name) of
     (Some p, Some n) \<Rightarrow> index_where (\<lambda>x. name_walk (vi_lower x) n) (pb_vars (body p)) | _ \<Rightarrow> None)"

definition value_i64 :: "'n Instance \<Rightarrow> nat \<Rightarrow> int" where
  "value_i64 v index = (case vm_program v of
     None \<Rightarrow> 0
   | Some p \<Rightarrow> if index \<ge> length (pb_vars (body p)) then 0
       else let x = pb_vars (body p) ! index
         in case load_value p (visible_vars v) (vi_offset x) (vi_type_id x) of
              None \<Rightarrow> 0 | Some raw \<Rightarrow> as_i64 raw)"

definition value_bool :: "'n Instance \<Rightarrow> nat \<Rightarrow> bool" where
  "value_bool v index = (value_i64 v index \<noteq> 0)"

definition sfc_step_active :: "'n Instance \<Rightarrow> string option \<Rightarrow> string option \<Rightarrow> bool \<times> ErrorCode" where
  "sfc_step_active v network step = (case (vm_program v, network, step) of
     (Some p, Some nn, Some sn) \<Rightarrow>
       (case find (\<lambda>n. name_walk (sn_lower n) nn) (pb_sfc_networks (body p)) of
          None \<Rightarrow> (False, EC_invalid_argument)
        | Some n \<Rightarrow> (case index_where (\<lambda>s. name_walk (ss_lower s) sn) (sn_steps n) of
            None \<Rightarrow> (False, EC_invalid_argument)
          | Some i \<Rightarrow>
              (sfc_get v (if vm_state v = VS_running \<and> sfr_phase (vm_runner v) \<noteq> Ph_stage_vars
                 then sn_shadow_active_offset n else sn_committed_active_offset n) i \<noteq> 0, EC_ok)))
   | _ \<Rightarrow> (False, EC_invalid_argument))"

definition configure_sfc_trace :: "'n Instance \<Rightarrow> bool \<Rightarrow> nat \<Rightarrow> 'n Instance \<times> ErrorCode" where
  "configure_sfc_trace v has_records capacity =
     (if (\<not> has_records) \<noteq> (capacity = 0) \<or> vm_state v = VS_running then (v, EC_invalid_argument)
      else (upd_runner (\<lambda>r. r\<lparr> sfr_trace := [], sfr_trace_capacity := capacity, sfr_dropped := 0,
              sfr_begin_size := 0, sfr_begin_dropped := 0 \<rparr>) v, EC_ok))"

definition restart_sfc :: "'n Instance \<Rightarrow> string option \<Rightarrow> 'n Instance \<times> ErrorCode" where
  "restart_sfc v network = (case (vm_program v, network) of
     (Some p, Some nn) \<Rightarrow>
       if vm_state v = VS_running then (v, EC_invalid_argument)
       else (case find (\<lambda>n. name_walk (sn_lower n) nn) (pb_sfc_networks (body p)) of
               None \<Rightarrow> (v, EC_invalid_argument)
             | Some n \<Rightarrow> (reset_sfc_network n v, EC_ok))
   | _ \<Rightarrow> (v, EC_invalid_argument))"

definition set_debug_hooks :: "'n Instance \<Rightarrow> bool \<Rightarrow> nat \<Rightarrow> 'n Instance" where
  "set_debug_hooks v attached mapping =
     (let v1 = v\<lparr> vm_hooks := attached \<rparr>
      in if attached \<and> vm_program v \<noteq> None \<and> pb_debug_enabled (body (the_program v))
         then v1\<lparr> vm_mapping := mapping \<rparr> else v1)"

end
