(* ===== verification/SfcRunner.thy ===== *)
theory SfcRunner
  imports VmInstance "HOL-Library.Monad_Syntax"
begin

text \<open>
  The runner of the SFC networks (\<open>core/st/vm.h\<close>): one unit of budget moves it by one byte copied, one
  transition or block examined, one trace record or one commit step. A scan stages the variables and
  the step, block and action states, evaluates the transitions, moves the tokens, updates the action
  qualifiers, runs the actions and commits. One round of the two loops is a \<open>move\<close>: \<open>Continue\<close> is
  \<open>continue\<close>, \<open>Return\<close> is \<open>return\<close>.
\<close>

datatype 'n move = Continue "'n Instance" | Return "'n Instance"

definition start_sfc_phase :: "SfcRunnerPhase \<Rightarrow> 'n Instance \<Rightarrow> 'n Instance" where
  "start_sfc_phase ph = upd_runner (\<lambda>r. r\<lparr> sfr_phase := ph, sfr_network := 0, sfr_item := 0,
     sfr_subitem := 0, sfr_work := 0 \<rparr>)"

definition begin_sfc_regions :: "'n Instance \<Rightarrow> 'n Instance" where
  "begin_sfc_regions = upd_runner (\<lambda>r. r\<lparr> sfr_phase := Ph_stage_active, sfr_network := 0, sfr_item := 0,
     sfr_subitem := 0, sfr_region := None, sfr_work := 0, sfr_reducer := 0 \<rparr>)"

abbreviation item_of :: "'n Instance \<Rightarrow> nat" where "item_of v \<equiv> sfr_item (vm_runner v)"
abbreviation subitem_of :: "'n Instance \<Rightarrow> nat" where "subitem_of v \<equiv> sfr_subitem (vm_runner v)"

definition next_item :: "'n Instance \<Rightarrow> 'n Instance" where
  "next_item = upd_runner (\<lambda>r. r\<lparr> sfr_item := sfr_item r + 1, sfr_subitem := 0 \<rparr>)"

definition next_subitem :: "'n Instance \<Rightarrow> 'n Instance" where
  "next_subitem = upd_runner (\<lambda>r. r\<lparr> sfr_subitem := sfr_subitem r + 1 \<rparr>)"

definition step_item :: "'n Instance \<Rightarrow> 'n Instance" where
  "step_item = upd_runner (\<lambda>r. r\<lparr> sfr_item := sfr_item r + 1 \<rparr>)"

text \<open>A phase that visits the items of every network: past the last network the next phase starts, past
  the last item of a network the next network.\<close>

definition each_item ::
  "('n Instance \<Rightarrow> 'n Instance) \<Rightarrow> (SfcNetworkInfo \<Rightarrow> nat) \<Rightarrow>
    (SfcRunnerStorage \<Rightarrow> SfcRunnerStorage) \<Rightarrow>
    (SfcNetworkInfo \<Rightarrow> 'n Instance \<Rightarrow> 'n Instance) \<Rightarrow> 'n Instance \<Rightarrow> 'n move"
where
  "each_item over count clear visit v =
     (let r = vm_runner v
      in if sfr_network r \<ge> length (networks v) then Continue (over v)
         else let n = networks v ! sfr_network r
           in if sfr_item r \<ge> count n
              then Continue (upd_runner (\<lambda>r. clear (r\<lparr> sfr_network := sfr_network r + 1, sfr_item := 0 \<rparr>)) v)
              else Return (visit n v))"


section \<open>Staging\<close>

definition shadow_offset :: "'n Instance \<Rightarrow> nat" where
  "shadow_offset v = sfc_committed_shadow_offset (the_program v)"

definition leave_stage_vars :: "'n Instance \<Rightarrow> 'n Instance" where
  "leave_stage_vars v = upd_runner (\<lambda>r. r\<lparr> sfr_phase := Ph_base, sfr_item := 0, sfr_subitem := 0 \<rparr>)
     (v\<lparr> vm_shadow_visible := True \<rparr>)"

definition stage_vars :: "'n Instance \<Rightarrow> 'n Instance" where
  "stage_vars v =
     (let i = item_of v; n = vars_bytes (the_program v)
      in if i \<ge> n then leave_stage_vars v
         else if subitem_of v = 0
         then upd_runner (\<lambda>r. r\<lparr> sfr_subitem := 1 \<rparr>) (sfc_set 0 i (vm_vars v ! i) v)
         else let v1 = next_item (sfc_set (shadow_offset v) i (vm_vars v ! i) v)
           in if i + 1 \<ge> n then leave_stage_vars v1 else v1)"

text \<open>An item copied first to its staged place, then to its shadow.\<close>

definition stage_item :: "nat \<Rightarrow> nat \<Rightarrow> nat \<Rightarrow> 'n Instance \<Rightarrow> 'n Instance" where
  "stage_item committed staged shadow v =
     (let i = item_of v; b = sfc_get v committed i
      in if subitem_of v = 0 then upd_runner (\<lambda>r. r\<lparr> sfr_subitem := 1 \<rparr>) (sfc_set staged i b v)
         else next_item (sfc_set shadow i b v))"

definition stage_active :: "SfcNetworkInfo \<Rightarrow> 'n Instance \<Rightarrow> 'n Instance" where
  "stage_active n = stage_item (sn_committed_active_offset n) (sn_staged_active_offset n)
     (sn_shadow_active_offset n)"

definition stage_action :: "SfcNetworkInfo \<Rightarrow> 'n Instance \<Rightarrow> 'n Instance" where
  "stage_action n = stage_item (sn_committed_action_offset n) (sn_staged_action_offset n)
     (sn_shadow_action_offset n)"

definition stage_firing :: "SfcNetworkInfo \<Rightarrow> 'n Instance \<Rightarrow> 'n Instance" where
  "stage_firing n v = step_item (sfc_set (sn_firing_offset n) (item_of v) 0 v)"

definition stage_direct :: "SfcNetworkInfo \<Rightarrow> 'n Instance \<Rightarrow> 'n Instance" where
  "stage_direct n v = step_item (sfc_set (sn_direct_action_offset n) (item_of v) 0 v)"

definition stage_block :: "SfcNetworkInfo \<Rightarrow> 'n Instance \<Rightarrow> 'n Instance" where
  "stage_block n v =
     (let byte = subitem_of v; offset = item_of v * sfc_block_bytes + byte div 2;
          b = sfc_get v (sn_committed_block_offset n) offset;
          v1 = sfc_set (if even byte then sn_staged_block_offset n else sn_shadow_block_offset n) offset b v
      in if byte + 1 = sfc_block_bytes * 2 then next_item v1 else next_subitem v1)"


section \<open>Transitions\<close>

definition transition_eligible :: "'n Instance \<Rightarrow> SfcNetworkInfo \<Rightarrow> nat \<Rightarrow> bool" where
  "transition_eligible v n i =
     (let t = sn_transitions n ! i
      in if (length (sx_sources t) > 1 \<or> length (sx_targets t) > 1) \<and> \<not> sx_simultaneous t then False
         else list_all (\<lambda>s. s < length (sn_steps n) \<and> sfc_get v (sn_committed_active_offset n) s \<noteq> 0)
                (sx_sources t) \<and>
              list_all (\<lambda>j. sfc_get v (sn_firing_offset n) j = 0 \<or>
                  list_all (\<lambda>s. s \<notin> set (sx_sources (sn_transitions n ! j))) (sx_sources t)) [0..<i])"

definition try_transition :: "SfcNetworkInfo \<Rightarrow> 'n Instance \<Rightarrow> 'n Instance" where
  "try_transition n v =
     (let i = item_of v; w = sfr_work (vm_runner v);
          work = (if w = 0 then transition_check_cost (sn_transitions n) i else w) - 1;
          v1 = upd_runner (\<lambda>r. r\<lparr> sfr_work := work \<rparr>) v
      in if work \<noteq> 0 then v1
         else if transition_eligible v n i
         then upd_runner (\<lambda>r. r\<lparr> sfr_region := Some (sx_condition (sn_transitions n ! i)) \<rparr>) v1
         else step_item v1)"

text \<open>\<open>finish_sfc_region\<close>, at the \<open>halt\<close> of a condition or an action.\<close>

definition note_firing :: "SfcNetworkInfo \<Rightarrow> 'n Instance \<Rightarrow> 'n Instance" where
  "note_firing n v =
     (if sfr_phase (vm_runner v) = Ph_transitions \<and> item_of v < length (sn_transitions n)
      then (case load_value (the_program v) (if vm_staged v then vm_sfc v else vm_vars v)
              (rg_result_offset (sx_condition (sn_transitions n ! item_of v))) ty_bool of
              None \<Rightarrow> v
            | Some raw \<Rightarrow> if raw \<noteq> 0 then sfc_set (sn_firing_offset n) (item_of v) 1 v else v)
      else v)"

definition finish_sfc_region :: "'n Instance \<Rightarrow> 'n Instance" where
  "finish_sfc_region v =
     (let r = vm_runner v
      in if sfr_network r \<ge> length (networks v) then upd_runner (\<lambda>r. r\<lparr> sfr_region := None \<rparr>) v
         else upd_runner (\<lambda>r. r\<lparr> sfr_item := sfr_item r + 1, sfr_work := 0, sfr_region := None \<rparr>)
           (note_firing (networks v ! sfr_network r) v))"

definition move_tokens :: "SfcNetworkInfo \<Rightarrow> 'n Instance \<Rightarrow> 'n Instance" where
  "move_tokens n v =
     (let t = sn_transitions n ! item_of v; firing = (sfc_get v (sn_firing_offset n) (item_of v) \<noteq> 0);
          k = subitem_of v; target = k - length (sx_sources t) - 1;
          put = (\<lambda>s b. if firing then sfc_set (sn_staged_active_offset n) s b v else v)
      in if k = 0 then next_subitem v
         else if k \<le> length (sx_sources t) then next_subitem (put (sx_sources t ! (k - 1)) 0)
         else if target < length (sx_targets t) then
           (let v1 = next_subitem (put (sx_targets t ! target) 1)
            in if target + 1 < length (sx_targets t) then v1 else next_item v1)
         else next_item v)"


section \<open>Qualifiers and actions\<close>

abbreviation (input) "action_direct \<equiv> 1 :: u8"
abbreviation (input) "action_store \<equiv> 2 :: u8"
abbreviation (input) "action_reset \<equiv> 4 :: u8"
abbreviation (input) "action_expire \<equiv> 8 :: u8"

text \<open>The state of a block: elapsed time, pending, previous signal, latched. The codes of
  \<open>SfcQualifier\<close> are its positions: N, S, R, L, D, P, SD, DS, SL.\<close>

record block_state =
  bs_elapsed :: int
  bs_pending :: bool
  bs_previous :: bool
  bs_latched :: bool

definition saturating_add_ns :: "int \<Rightarrow> int \<Rightarrow> int" where
  "saturating_add_ns l r = (if r > 0 \<and> l > int64_max - r then int64_max else l + r)"

definition update_qualifier ::
  "nat \<Rightarrow> int \<Rightarrow> int \<Rightarrow> bool \<Rightarrow> bool \<Rightarrow> block_state \<Rightarrow> block_state \<times> u8"
where
  "update_qualifier q duration period signal was_active s =
     (let activation = (signal \<or> was_active); rising = (activation \<and> \<not> bs_previous s);
          longer = saturating_add_ns (bs_elapsed s) period;
          run = (if rising then period else longer);
          stored = (\<lambda>t. (t, if bs_latched t then action_store else 0))
      in if q = 0 then (s, if signal then action_direct else 0)
         else if q = 1 then stored (if rising then s\<lparr> bs_latched := True \<rparr> else s)
         else if q = 2 then (s, if signal then action_reset else 0)
         else if q = 5 then (s, if rising then action_direct else 0)
         else if q = 3 then
           (if \<not> signal then (s\<lparr> bs_elapsed := 0 \<rparr>, 0)
            else (s\<lparr> bs_elapsed := run \<rparr>, if duration > 0 \<and> run \<le> duration then action_direct else 0))
         else if q = 4 then
           (if \<not> signal then (s\<lparr> bs_elapsed := 0 \<rparr>, 0)
            else (s\<lparr> bs_elapsed := run \<rparr>, if run \<ge> duration then action_direct else 0))
         else if q = 6 then
           (let s1 = (if rising \<and> \<not> bs_latched s then s\<lparr> bs_pending := True \<rparr> else s)
            in stored (if bs_pending s1
                 then if longer \<ge> duration
                      then s1\<lparr> bs_elapsed := longer, bs_pending := False, bs_latched := True \<rparr>
                      else s1\<lparr> bs_elapsed := longer \<rparr>
                 else s1))
         else if q = 7 then
           stored (if \<not> activation \<and> \<not> bs_latched s then s\<lparr> bs_elapsed := 0, bs_pending := False \<rparr>
             else if activation \<and> \<not> bs_latched s
             then if run \<ge> duration
                  then s\<lparr> bs_elapsed := run, bs_pending := False, bs_latched := True \<rparr>
                  else s\<lparr> bs_elapsed := run, bs_pending := True \<rparr>
             else s)
         else if q = 8 then
           (let s1 = (if rising then s\<lparr> bs_latched := True, bs_elapsed := period \<rparr>
                  else if bs_latched s then s\<lparr> bs_elapsed := longer \<rparr> else s);
                expired = (bs_latched s1 \<and> bs_elapsed s1 \<ge> duration)
            in if expired
               then (s1\<lparr> bs_latched := False \<rparr>,
                     (if rising then action_store else 0) OR action_expire)
               else stored s1)
         else (s, 0))"

definition block_at :: "'n Instance \<Rightarrow> nat \<Rightarrow> block_state" where
  "block_at v offset =
     \<lparr> bs_elapsed = sint (le_value (seg (vm_sfc v) offset 8)), bs_pending = (vm_sfc v ! (offset + 8) \<noteq> 0),
       bs_previous = (vm_sfc v ! (offset + 9) \<noteq> 0), bs_latched = (vm_sfc v ! (offset + 10) \<noteq> 0) \<rparr>"

definition put_block :: "nat \<Rightarrow> block_state \<Rightarrow> bool \<Rightarrow> u8 \<Rightarrow> 'n Instance \<Rightarrow> 'n Instance" where
  "put_block offset s signal contribution v =
     sfc_fill offset (le_bytes 8 (word_of_int (bs_elapsed s)) @
       [of_bool (bs_pending s), of_bool signal, of_bool (bs_latched s), contribution]) v"

definition update_sfc_qualifier_block :: "SfcNetworkInfo \<Rightarrow> nat \<Rightarrow> 'n Instance \<Rightarrow> 'n Instance" where
  "update_sfc_qualifier_block n i v =
     (let b = sn_action_blocks n ! i; offset = sn_staged_block_offset n + i * sfc_block_bytes;
          known = (sb_step b < length (sn_steps n));
          signal = (known \<and> sfc_get v (sn_staged_active_offset n) (sb_step b) \<noteq> 0);
          was_active = (known \<and> sfc_get v (sn_committed_active_offset n) (sb_step b) \<noteq> 0)
      in case update_qualifier (sb_qualifier b) (sb_duration_ns b) (vm_period v) signal was_active
                (block_at v offset) of
           (s, contribution) \<Rightarrow> put_block offset s signal contribution v)"

definition qualifier_block :: "SfcNetworkInfo \<Rightarrow> 'n Instance \<Rightarrow> 'n Instance" where
  "qualifier_block n v = update_sfc_qualifier_block n (item_of v) (step_item v)"

definition reset_block :: "SfcNetworkInfo \<Rightarrow> nat \<Rightarrow> 'n Instance \<Rightarrow> 'n Instance" where
  "reset_block n i v =
     (let offset = sn_staged_block_offset n + i * sfc_block_bytes
      in sfc_set offset 9 (vm_sfc v ! (offset + 9)) (sfc_fill offset (replicate sfc_block_bytes 0) v))"

definition qualifier_action :: "SfcNetworkInfo \<Rightarrow> 'n Instance \<Rightarrow> 'n Instance" where
  "qualifier_action n v =
     (let k = subitem_of v; a = item_of v; blocks = length (sn_action_blocks n);
          red = sfr_reducer (vm_runner v); stored = sn_staged_action_offset n
      in if k = 0 then next_subitem (upd_runner (\<lambda>r. r\<lparr> sfr_reducer := 0 \<rparr>) v)
         else if k \<le> blocks then
           next_subitem (if sb_action (sn_action_blocks n ! (k - 1)) = a
             then upd_runner (\<lambda>r. r\<lparr> sfr_reducer := red OR
               sfc_get v (sn_staged_block_offset n) ((k - 1) * sfc_block_bytes + 11) \<rparr>) v else v)
         else if k = blocks + 1 then
           (let suppressed = (red AND (action_reset OR action_expire) \<noteq> 0);
                v1 = upd_runner (\<lambda>r. r\<lparr> sfr_suppressed := suppressed \<rparr>) v
            in next_subitem (if suppressed then sfc_set stored a 0 v1
                 else if red AND action_store \<noteq> 0 then sfc_set stored a 1 v1 else v1))
         else if k - blocks - 2 < blocks then
           next_subitem (if red AND action_reset \<noteq> 0 \<and>
                sb_action (sn_action_blocks n ! (k - blocks - 2)) = a
             then reset_block n (k - blocks - 2) v else v)
         else next_item (sfc_set (sn_direct_action_offset n) a
           (of_bool (\<not> sfr_suppressed (vm_runner v) \<and>
             (sfc_get v stored a \<noteq> 0 \<or> red AND action_direct \<noteq> 0))) v))"

definition run_action :: "SfcNetworkInfo \<Rightarrow> 'n Instance \<Rightarrow> 'n Instance" where
  "run_action n v =
     (if sfc_get v (sn_direct_action_offset n) (item_of v) \<noteq> 0
      then upd_runner (\<lambda>r. r\<lparr> sfr_region := Some (sa_region (sn_actions n ! item_of v)) \<rparr>) v
      else step_item v)"


section \<open>The first loop\<close>

text \<open>\<open>None\<close> leaves the loop for the trace and commit phases.\<close>

definition advance_once :: "'n Instance \<Rightarrow> 'n move option" where
  "advance_once v =
     (let steps = (\<lambda>n. length (sn_steps n)); transitions = (\<lambda>n. length (sn_transitions n));
          blocks = (\<lambda>n. length (sn_action_blocks n)); actions = (\<lambda>n. length (sn_actions n));
          keep = (\<lambda>r. r)
      in case sfr_phase (vm_runner v) of
           Ph_stage_vars \<Rightarrow> Some (Return (stage_vars v))
         | Ph_stage_active \<Rightarrow> Some (each_item (start_sfc_phase Ph_stage_firing) steps keep stage_active v)
         | Ph_stage_firing \<Rightarrow> Some (each_item (start_sfc_phase Ph_stage_blocks) transitions keep stage_firing v)
         | Ph_stage_blocks \<Rightarrow> Some (each_item (start_sfc_phase Ph_stage_actions) blocks keep stage_block v)
         | Ph_stage_actions \<Rightarrow> Some (each_item (start_sfc_phase Ph_stage_direct) actions keep stage_action v)
         | Ph_stage_direct \<Rightarrow> Some (each_item (start_sfc_phase Ph_transitions) actions keep stage_direct v)
         | Ph_transitions \<Rightarrow> Some (each_item (start_sfc_phase Ph_active_updates) transitions
             (\<lambda>r. r\<lparr> sfr_work := 0 \<rparr>) try_transition v)
         | Ph_active_updates \<Rightarrow> Some (each_item (start_sfc_phase Ph_qualifier_blocks) transitions
             (\<lambda>r. r\<lparr> sfr_subitem := 0 \<rparr>) move_tokens v)
         | Ph_qualifier_blocks \<Rightarrow> Some (each_item (start_sfc_phase Ph_qualifier_actions) blocks keep
             qualifier_block v)
         | Ph_qualifier_actions \<Rightarrow> Some (each_item (start_sfc_phase Ph_actions) actions
             (\<lambda>r. r\<lparr> sfr_subitem := 0 \<rparr>) qualifier_action v)
         | Ph_actions \<Rightarrow> Some (each_item (start_sfc_phase Ph_trace_exits) actions keep run_action v)
         | _ \<Rightarrow> None)"


section \<open>Trace and commit\<close>

definition append_sfc_trace ::
  "SfcEventKind \<Rightarrow> nat \<Rightarrow> nat \<Rightarrow> int \<times> int \<times> int \<times> int \<Rightarrow> 'n Instance \<Rightarrow> 'n Instance"
where
  "append_sfc_trace kind entity qualifier place v =
     (case place of (line, column, end_line, end_column) \<Rightarrow>
       upd_runner (\<lambda>r. if length (sfr_trace r) \<ge> sfr_trace_capacity r
         then r\<lparr> sfr_dropped := sfr_dropped r + 1 \<rparr>
         else r\<lparr> sfr_trace := sfr_trace r @ [\<lparr> tc_scan = sfr_scan r, tc_line = line,
           tc_column = column, tc_end_line = end_line, tc_end_column = end_column,
           tc_network = sfr_network r, tc_entity = entity, tc_kind = kind,
           tc_qualifier = qualifier \<rparr>] \<rparr>) v)"

definition trace_step :: "bool \<Rightarrow> SfcNetworkInfo \<Rightarrow> 'n Instance \<Rightarrow> 'n Instance" where
  "trace_step exits n v =
     (let i = item_of v; s = sn_steps n ! i; v1 = step_item v;
          was_on = (sfc_get v (sn_committed_active_offset n) i \<noteq> 0);
          is_on = (sfc_get v (sn_staged_active_offset n) i \<noteq> 0)
      in if (if exits then was_on \<and> \<not> is_on else \<not> was_on \<and> is_on)
         then append_sfc_trace (if exits then Ev_step_exit else Ev_step_enter) i 0
           (ss_line s, ss_column s, ss_end_line s, ss_end_column s) v1
         else v1)"

definition trace_transition :: "SfcNetworkInfo \<Rightarrow> 'n Instance \<Rightarrow> 'n Instance" where
  "trace_transition n v =
     (let i = item_of v; t = sn_transitions n ! i; v1 = step_item v
      in if sfc_get v (sn_firing_offset n) i \<noteq> 0
         then append_sfc_trace Ev_transition_fire i 0
           (sx_line t, sx_column t, sx_end_line t, sx_end_column t) v1
         else v1)"

definition trace_qualifier :: "SfcNetworkInfo \<Rightarrow> 'n Instance \<Rightarrow> 'n Instance" where
  "trace_qualifier n v =
     (let i = item_of v; b = sn_action_blocks n ! i
      in append_sfc_trace Ev_qualifier_update i (sb_qualifier b)
           (sb_line b, sb_column b, sb_end_line b, sb_end_column b) (step_item v))"

definition trace_action :: "SfcNetworkInfo \<Rightarrow> 'n Instance \<Rightarrow> 'n Instance" where
  "trace_action n v =
     (let i = item_of v; a = sn_actions n ! i; v1 = step_item v
      in if sfc_get v (sn_direct_action_offset n) i \<noteq> 0
         then append_sfc_trace Ev_action_execute i 0
           (sa_line a, sa_column a, sa_end_line a, sa_end_column a) v1
         else v1)"

definition commit_item_byte :: "nat \<Rightarrow> nat \<Rightarrow> 'n Instance \<Rightarrow> 'n Instance" where
  "commit_item_byte committed staged v =
     step_item (sfc_set committed (item_of v) (sfc_get v staged (item_of v)) v)"

definition commit_active :: "SfcNetworkInfo \<Rightarrow> 'n Instance \<Rightarrow> 'n Instance" where
  "commit_active n = commit_item_byte (sn_committed_active_offset n) (sn_staged_active_offset n)"

definition commit_action :: "SfcNetworkInfo \<Rightarrow> 'n Instance \<Rightarrow> 'n Instance" where
  "commit_action n = commit_item_byte (sn_committed_action_offset n) (sn_staged_action_offset n)"

definition commit_block :: "SfcNetworkInfo \<Rightarrow> 'n Instance \<Rightarrow> 'n Instance" where
  "commit_block n v =
     (let offset = item_of v * sfc_block_bytes + subitem_of v;
          v1 = sfc_set (sn_committed_block_offset n) offset (sfc_get v (sn_staged_block_offset n) offset) v
      in if subitem_of v + 1 = sfc_block_bytes then next_item v1 else next_subitem v1)"

definition commit_var :: "'n Instance \<Rightarrow> 'n move" where
  "commit_var v =
     (if item_of v < vars_bytes (the_program v)
      then Return (step_item (v\<lparr> vm_vars := (vm_vars v)[item_of v := vm_sfc v ! item_of v] \<rparr>))
      else Continue (start_sfc_phase Ph_commit_active v))"

text \<open>The phase after the last network, \<open>finish\<close> by default.\<close>

definition next_phase :: "SfcRunnerPhase \<Rightarrow> SfcRunnerPhase" where
  "next_phase ph = (case ph of
     Ph_trace_exits \<Rightarrow> Ph_trace_transitions | Ph_trace_transitions \<Rightarrow> Ph_trace_enters
   | Ph_trace_enters \<Rightarrow> Ph_trace_qualifiers | Ph_trace_qualifiers \<Rightarrow> Ph_trace_actions
   | Ph_trace_actions \<Rightarrow> Ph_commit_vars | Ph_commit_active \<Rightarrow> Ph_commit_blocks
   | Ph_commit_blocks \<Rightarrow> Ph_commit_actions | Ph_commit_actions \<Rightarrow> Ph_finish | _ \<Rightarrow> Ph_finish)"

definition finish_scan ::
  "'n Instance \<Rightarrow> ProcessImage option \<Rightarrow> ('n Instance \<times> ProcessImage option) option"
where
  "finish_scan v im =
     (let v1 = upd_runner (\<lambda>r. r\<lparr> sfr_scan := sfr_scan r + 1, sfr_phase := Ph_none \<rparr>)
            (v\<lparr> vm_staged := False, vm_shadow_visible := False \<rparr>)
      in case im of None \<Rightarrow> Some (v1, None)
         | Some i \<Rightarrow> do { i' \<leftarrow> commit_scan i (the_program v) (vm_vars v) (\<not> vm_defer v);
                          Some (v1, Some i') })"

definition trace_once :: "'n Instance \<Rightarrow> 'n move" where
  "trace_once v =
     (let steps = (\<lambda>n. length (sn_steps n)); transitions = (\<lambda>n. length (sn_transitions n));
          blocks = (\<lambda>n. length (sn_action_blocks n)); actions = (\<lambda>n. length (sn_actions n));
          keep = (\<lambda>r. r); ph = sfr_phase (vm_runner v); over = start_sfc_phase (next_phase ph)
      in case ph of
           Ph_commit_vars \<Rightarrow> commit_var v
         | Ph_trace_exits \<Rightarrow> each_item over steps keep (trace_step True) v
         | Ph_trace_transitions \<Rightarrow> each_item over transitions keep trace_transition v
         | Ph_trace_enters \<Rightarrow> each_item over steps keep (trace_step False) v
         | Ph_trace_qualifiers \<Rightarrow> each_item over blocks keep trace_qualifier v
         | Ph_trace_actions \<Rightarrow> each_item over actions keep trace_action v
         | Ph_commit_active \<Rightarrow> each_item over steps keep commit_active v
         | Ph_commit_blocks \<Rightarrow> each_item over blocks keep commit_block v
         | Ph_commit_actions \<Rightarrow> each_item over actions keep commit_action v
         | _ \<Rightarrow> Continue (if sfr_network (vm_runner v) \<ge> length (networks v) then over v else v))"

text \<open>Both loops; \<open>finish\<close> ends the scan. A program without networks spins between \<open>finish\<close> and
  \<open>finish\<close>, one in the phases \<open>none\<close> and \<open>base\<close> without moving: the slice loop calls the runner in
  neither case.\<close>

partial_function (option) advance_sfc_runner ::
  "'n Instance \<Rightarrow> ProcessImage option \<Rightarrow> ('n Instance \<times> ProcessImage option) option"
where
  [code]: "advance_sfc_runner v im =
     (if sfr_phase (vm_runner v) = Ph_finish \<and> sfr_network (vm_runner v) < length (networks v)
      then finish_scan v im
      else case (case advance_once v of Some mv \<Rightarrow> mv | None \<Rightarrow> trace_once v) of
        Return v' \<Rightarrow> Some (v', im)
      | Continue v' \<Rightarrow> advance_sfc_runner v' im)"

end
