(* ===== verification/VmRun.thy ===== *)
theory VmRun
  imports VmExec SfcRunner
begin

text \<open>
  The slice loop of \<open>Instance::resume\<close> and \<open>Instance::scan\<close> (\<open>core/st/vm.h\<close>). \<open>slice_step\<close> is one
  round of the loop: a step of the SFC runner or one instruction. The image argument is the bound
  process image, or \<open>None\<close> when the instance has none; a \<open>None\<close> result is an image call that never
  returns. Each round either charges the budget or, for a debug probe, moves on in the code, so the
  loop ends.
\<close>

datatype 'n progress =
    More "'n Instance" "ProcessImage option" int
  | Done "'n Instance" "ProcessImage option" int ScanError

definition selected_code :: "'n Instance \<Rightarrow> bytes" where
  "selected_code v = (case sfr_region (vm_runner v) of
     Some r \<Rightarrow> rg_code r | None \<Rightarrow> pb_code (body (the_program v)))"

definition context_of :: "'n vm_env \<Rightarrow> 'n Instance \<Rightarrow> 'n vm_context" where
  "context_of env v =
     (let b = body (the_program v); r = sfr_region (vm_runner v)
      in \<lparr> cx_program = the_program v, cx_code = selected_code v,
           cx_constants = (case r of Some r \<Rightarrow> rg_constants r | None \<Rightarrow> pb_constants b),
           cx_stack_limit = (case r of Some r \<Rightarrow> rg_stack_slots r | None \<Rightarrow> pb_stack_slots b),
           cx_source_entries = ve_source_entries env (the_program v) r,
           cx_period = vm_period v, cx_hooks = vm_hooks v, cx_mapping = vm_mapping v,
           cx_native = ve_native env, cx_libm = ve_libm env, cx_stale = ve_stale env \<rparr>)"

text \<open>The machine of an instance, \<open>execution_vars_\<close> being its variables or the staged copy, and the
  instance after the machine has run.\<close>

definition machine_of :: "'n Instance \<Rightarrow> ProcessImage option \<Rightarrow> int \<Rightarrow> 'n machine" where
  "machine_of v im executed =
     \<lparr> mc_vars = (if vm_staged v then vm_sfc v else vm_vars v), mc_image = im, mc_stack = vm_stack v,
       mc_pc = vm_pc v, mc_instruction_pc = vm_instruction_pc v, mc_remaining = vm_remaining v,
       mc_executed = executed, mc_last_probe = vm_last_probe v, mc_native = vm_native v \<rparr>"

definition with_machine :: "'n machine \<Rightarrow> 'n Instance \<Rightarrow> 'n Instance" where
  "with_machine m v =
     (let v1 = (if vm_staged v then v\<lparr> vm_sfc := mc_vars m \<rparr> else v\<lparr> vm_vars := mc_vars m \<rparr>)
      in v1\<lparr> vm_stack := mc_stack m, vm_pc := mc_pc m, vm_instruction_pc := mc_instruction_pc m,
             vm_remaining := mc_remaining m, vm_last_probe := mc_last_probe m,
             vm_native := mc_native m \<rparr>)"


section \<open>Probe and halt\<close>

text \<open>A probe costs nothing: the unit charged for it is given back.\<close>

definition debug_probe ::
  "'n vm_context \<Rightarrow> 'n Instance \<Rightarrow> ProcessImage option \<Rightarrow> 'n machine \<Rightarrow> 'n progress"
where
  "debug_probe cx v im m =
     (let bad = Done (latch Scan_invalid_bytecode (with_machine m v)) im (mc_executed m) Scan_invalid_bytecode
      in case rd32 (cx_code cx) (mc_pc m) of
           None \<Rightarrow> bad
         | Some (probe, pc) \<Rightarrow>
             if probe \<ge> cx_source_entries cx then bad
             else if \<not> pb_debug_enabled (body (cx_program cx)) then bad
             else let m1 = m\<lparr> mc_pc := pc, mc_remaining := mc_remaining m + 1,
                        mc_executed := mc_executed m - 1,
                        mc_last_probe := Some (probe, mc_instruction_pc m) \<rparr>
               in if cx_hooks cx
                  then (case nv_on_probe (cx_native cx) (mc_native m1) (cx_mapping cx) probe
                          (mc_instruction_pc m) of
                     (n, pause) \<Rightarrow>
                       (let m2 = m1\<lparr> mc_native := n \<rparr>
                        in if pause
                           then Done (with_machine (m2\<lparr> mc_pc := mc_instruction_pc m \<rparr>) v) im
                                  (mc_executed m2) Scan_paused
                           else More (with_machine m2 v) im (mc_executed m2)))
                  else More (with_machine m1 v) im (mc_executed m1))"

definition halt ::
  "'n Instance \<Rightarrow> ProcessImage option \<Rightarrow> int \<Rightarrow> 'n progress option"
where
  "halt v im executed =
     (if networks v \<noteq> []
      then Some (More (if sfr_region (vm_runner v) \<noteq> None then finish_sfc_region v
             else if sfr_phase (vm_runner v) = Ph_base then begin_sfc_regions v else v) im executed)
      else do {
        im1 \<leftarrow> (case im of None \<Rightarrow> Some None
          | Some i \<Rightarrow> map_option Some (commit_scan i (the_program v) (vm_vars v) (\<not> vm_defer v)));
        Some (Done (v\<lparr> vm_state := VS_complete \<rparr>) im1 executed Scan_ok) })"


section \<open>One round\<close>

definition sfc_round ::
  "'n Instance \<Rightarrow> ProcessImage option \<Rightarrow> int \<Rightarrow> 'n progress option"
where
  "sfc_round v im executed =
     (if vm_remaining v \<le> 0
      then Some (Done (latch Scan_budget_exceeded v) im executed Scan_budget_exceeded)
      else do {
        (v1, im1) \<leftarrow> advance_sfc_runner (v\<lparr> vm_remaining := vm_remaining v - 1 \<rparr>) im;
        Some (if sfr_region (vm_runner v1) \<noteq> None
              then More (v1\<lparr> vm_pc := 0, vm_stack := [] \<rparr>) im1 (executed + 1)
              else if sfr_phase (vm_runner v1) = Ph_none
              then Done (v1\<lparr> vm_state := VS_complete \<rparr>) im1 (executed + 1) Scan_ok
              else More v1 im1 (executed + 1)) })"

definition code_round ::
  "'n vm_env \<Rightarrow> 'n Instance \<Rightarrow> ProcessImage option \<Rightarrow> int \<Rightarrow> 'n progress option"
where
  "code_round env v im executed =
     (if vm_remaining v \<le> 0
      then Some (Done (latch Scan_budget_exceeded v) im executed Scan_budget_exceeded)
      else let v1 = v\<lparr> vm_remaining := vm_remaining v - 1 \<rparr>; code = selected_code v
        in if vm_pc v \<ge> length code
           then Some (Done (latch Scan_invalid_bytecode v1) im (executed + 1) Scan_invalid_bytecode)
           else let v2 = v1\<lparr> vm_instruction_pc := vm_pc v, vm_pc := vm_pc v + 1 \<rparr>;
                    cx = context_of env v2; m = machine_of v2 im (executed + 1)
             in case op_of_byte (code ! vm_pc v) of
                  None \<Rightarrow> Some (Done (latch Scan_invalid_bytecode v2) im (executed + 1) Scan_invalid_bytecode)
                | Some Op_debug_probe \<Rightarrow> Some (debug_probe cx v2 im m)
                | Some Op_halt \<Rightarrow> halt v2 im (executed + 1)
                | Some op \<Rightarrow> Some (case exec_op cx op m of
                    Next m' \<Rightarrow> More (with_machine m' v2) (mc_image m') (executed + 1)
                  | Fault e m' \<Rightarrow> Done (latch e (with_machine m' v2)) (mc_image m') (executed + 1) e))"

definition sfc_turn :: "'n Instance \<Rightarrow> bool" where
  "sfc_turn v \<longleftrightarrow> networks v \<noteq> [] \<and> sfr_phase (vm_runner v) \<noteq> Ph_none \<and>
     sfr_phase (vm_runner v) \<noteq> Ph_base \<and> sfr_region (vm_runner v) = None"

definition slice_step ::
  "'n vm_env \<Rightarrow> int \<Rightarrow> 'n Instance \<Rightarrow> ProcessImage option \<Rightarrow> int \<Rightarrow> 'n progress option"
where
  "slice_step env quantum v im executed =
     (if executed \<ge> quantum then Some (Done v im executed Scan_ok)
      else if sfc_turn v then sfc_round v im executed
      else code_round env v im executed)"


section \<open>The loop ends\<close>

text \<open>What the runner of the networks leaves alone: everything but the contents of the variables, the
  SFC area, the runner and the pointers.\<close>

definition beside_sfc :: "'n Instance \<Rightarrow> 'n Instance" where
  "beside_sfc v = v\<lparr> vm_vars := replicate (length (vm_vars v)) 0, vm_sfc := [],
     vm_runner := initial_runner, vm_staged := False,
     vm_shadow_visible := False \<rparr>"

lemma beside_sfc_simps [simp]:
  "beside_sfc (upd_runner f v) = beside_sfc v" "beside_sfc (sfc_set a b c v) = beside_sfc v"
  "beside_sfc (sfc_fill a bs v) = beside_sfc v" "beside_sfc (sfc_copy a b k v) = beside_sfc v"
  "length xs = length (vm_vars v) \<Longrightarrow> beside_sfc (v\<lparr> vm_vars := xs \<rparr>) = beside_sfc v"
  "beside_sfc (v\<lparr> vm_staged := g \<rparr>) = beside_sfc v"
  "beside_sfc (v\<lparr> vm_shadow_visible := g \<rparr>) = beside_sfc v"
  by (simp_all add: beside_sfc_def upd_runner_def sfc_set_def sfc_fill_def sfc_copy_def)

lemma beside_runner [simp]:
  "beside_sfc (next_item v) = beside_sfc v" "beside_sfc (next_subitem v) = beside_sfc v"
  "beside_sfc (step_item v) = beside_sfc v" "beside_sfc (start_sfc_phase ph v) = beside_sfc v"
  "beside_sfc (append_sfc_trace k e q pl v) = beside_sfc v"
  by (simp_all add: next_item_def next_subitem_def step_item_def start_sfc_phase_def
      append_sfc_trace_def split: prod.split)

lemma beside_stages [simp]:
  "beside_sfc (stage_vars v) = beside_sfc v" "beside_sfc (stage_active n v) = beside_sfc v"
  "beside_sfc (stage_action n v) = beside_sfc v" "beside_sfc (stage_firing n v) = beside_sfc v"
  "beside_sfc (stage_direct n v) = beside_sfc v" "beside_sfc (stage_block n v) = beside_sfc v"
  "beside_sfc (try_transition n v) = beside_sfc v" "beside_sfc (move_tokens n v) = beside_sfc v"
  "beside_sfc (qualifier_block n v) = beside_sfc v" "beside_sfc (qualifier_action n v) = beside_sfc v"
  "beside_sfc (run_action n v) = beside_sfc v"
  by (simp_all add: stage_vars_def leave_stage_vars_def stage_active_def stage_action_def stage_item_def
      stage_firing_def stage_direct_def stage_block_def try_transition_def move_tokens_def
      qualifier_block_def update_sfc_qualifier_block_def put_block_def qualifier_action_def
      reset_block_def run_action_def Let_def split: prod.split)

lemma beside_commits [simp]:
  "beside_sfc (trace_step b n v) = beside_sfc v" "beside_sfc (trace_transition n v) = beside_sfc v"
  "beside_sfc (trace_qualifier n v) = beside_sfc v" "beside_sfc (trace_action n v) = beside_sfc v"
  "beside_sfc (commit_active n v) = beside_sfc v" "beside_sfc (commit_action n v) = beside_sfc v"
  "beside_sfc (commit_block n v) = beside_sfc v" "beside_sfc (finish_sfc_region v) = beside_sfc v"
  "beside_sfc (begin_sfc_regions v) = beside_sfc v"
  by (simp_all add: trace_step_def trace_transition_def trace_qualifier_def trace_action_def
      commit_active_def commit_action_def commit_item_byte_def commit_block_def finish_sfc_region_def
      note_firing_def begin_sfc_regions_def Let_def split: option.split)

primrec moved :: "'n move \<Rightarrow> 'n Instance" where
  "moved (Continue v) = v"
| "moved (Return v) = v"

lemma beside_each_item:
  "(\<And>u. beside_sfc (over u) = beside_sfc u) \<Longrightarrow> (\<And>n u. beside_sfc (visit n u) = beside_sfc u) \<Longrightarrow>
    beside_sfc (moved (each_item over count clear visit v)) = beside_sfc v"
  by (simp add: each_item_def Let_def)

lemma beside_advance_once: "advance_once v = Some mv \<Longrightarrow> beside_sfc (moved mv) = beside_sfc v"
  by (auto simp: advance_once_def Let_def beside_each_item split: SfcRunnerPhase.splits)

lemma beside_trace_once: "beside_sfc (moved (trace_once v)) = beside_sfc v"
  by (simp add: trace_once_def commit_var_def Let_def beside_each_item split: SfcRunnerPhase.split)

lemma beside_finish: "finish_scan v im = Some (v', im') \<Longrightarrow> beside_sfc v' = beside_sfc v"
  by (auto simp: finish_scan_def Let_def split: option.splits Option.bind_splits)

lemma beside_advance:
  assumes "advance_sfc_runner v im = Some r"
  shows "beside_sfc (fst r) = beside_sfc v"
  using assms
proof (induction rule: advance_sfc_runner.raw_induct [rotated, consumes 1, case_names round])
  case (round f v im r)
  show ?case
  proof (cases "sfr_phase (vm_runner v) = Ph_finish \<and> sfr_network (vm_runner v) < length (networks v)")
    case True
    with round(2) show ?thesis by (cases r) (auto dest: beside_finish)
  next
    case False
    let ?mv = "case advance_once v of Some mv \<Rightarrow> mv | None \<Rightarrow> trace_once v"
    have mv: "beside_sfc (moved ?mv) = beside_sfc v"
      by (auto simp: beside_trace_once dest: beside_advance_once split: option.split)
    show ?thesis
    proof (cases ?mv)
      case (Continue v1)
      with round(2) False have "f v1 im = Some r" by simp
      from round(1) [OF this] mv Continue show ?thesis by simp
    next
      case (Return v1)
      with round(2) False mv show ?thesis by auto
    qed
  qed
qed

lemma beside_remaining: "beside_sfc v' = beside_sfc v \<Longrightarrow> vm_remaining v' = vm_remaining v"
  unfolding beside_sfc_def by (cases v; cases v') simp

lemma besideD:
  assumes "beside_sfc v' = beside_sfc v"
  shows "vm_program v' = vm_program v" "length (vm_vars v') = length (vm_vars v)"
    "vm_defer v' = vm_defer v" "vm_state v' = vm_state v" "vm_stack v' = vm_stack v" "vm_pc v' = vm_pc v"
    "vm_image_bound v' = vm_image_bound v" "vm_fault v' = vm_fault v"
  using assms unfolding beside_sfc_def by (cases v; cases v'; simp add: list_eq_iff_nth_eq)+

interpretation frugal: machine_property cx "\<lambda>m. mc_remaining m \<le> r"
  for cx :: "'n vm_context" and r
  by unfold_locales simp_all

lemma remaining_simps [simp]:
  "vm_remaining (with_machine m v) = mc_remaining m" "mc_remaining (machine_of v im e) = vm_remaining v"
  by (simp_all add: with_machine_def machine_of_def Let_def)

lemma exec_op_budget: "exec_op cx op m = Next m' \<Longrightarrow> mc_remaining m' \<le> mc_remaining m"
  using frugal.instruction [of m "mc_remaining m" cx op] by simp

lemma halt_more: "halt v im e = Some (More v' im' e') \<Longrightarrow> vm_remaining v' = vm_remaining v"
  by (auto simp: halt_def begin_sfc_regions_def intro!: beside_remaining split: if_splits option.splits
      Option.bind_splits)

definition code_left :: "'n Instance \<Rightarrow> nat" where
  "code_left v = length (selected_code v) - vm_pc v"

lemma with_machine_selected:
  "selected_code (with_machine m v) = selected_code v" "vm_pc (with_machine m v) = mc_pc m"
  by (simp_all add: selected_code_def with_machine_def Let_def split: option.split)

lemma selected_code_upd [simp]:
  "selected_code (v\<lparr> vm_remaining := a \<rparr>) = selected_code v" "selected_code (v\<lparr> vm_pc := n \<rparr>) = selected_code v"
  "selected_code (v\<lparr> vm_instruction_pc := n \<rparr>) = selected_code v"
  by (simp_all add: selected_code_def split: option.split)

text \<open>Every round that goes on has spent budget, or has moved on in the code for the same budget.\<close>

lemma slice_step_progress:
  assumes "slice_step env quantum v im e = Some (More v' im' e')"
  shows "0 < vm_remaining v \<and> (vm_remaining v' < vm_remaining v \<or>
    vm_remaining v' = vm_remaining v \<and> code_left v' < code_left v)"
proof -
  have pos: "0 < vm_remaining v"
    using assms by (auto simp: slice_step_def sfc_round_def code_round_def split: if_splits)
  show ?thesis
  proof (cases "sfc_turn v")
    case True
    then obtain v1 im1 where v1: "advance_sfc_runner (v\<lparr> vm_remaining := vm_remaining v - 1 \<rparr>) im = Some (v1, im1)"
      and v': "vm_remaining v' = vm_remaining v1"
      using assms pos by (auto simp: slice_step_def sfc_round_def split: if_splits Option.bind_splits)
    from beside_remaining [OF beside_advance [OF v1]] v' pos show ?thesis by simp
  next
    case False
    let ?v2 = "v\<lparr> vm_remaining := vm_remaining v - 1, vm_instruction_pc := vm_pc v, vm_pc := vm_pc v + 1 \<rparr>"
    let ?cx = "context_of env ?v2" let ?m = "machine_of ?v2 im (e + 1)"
    have in_code: "vm_pc v < length (selected_code v)"
      using assms False pos by (auto simp: slice_step_def code_round_def Let_def split: if_splits)
    from assms False pos in_code obtain op where op: "op_of_byte (selected_code v ! vm_pc v) = Some op"
      by (auto simp: slice_step_def code_round_def Let_def split: option.splits if_splits)
    show ?thesis
    proof (cases "op = Op_debug_probe")
      case True
      with assms False pos in_code op have "debug_probe ?cx ?v2 im ?m = More v' im' e'"
        by (auto simp: slice_step_def code_round_def Let_def split: if_splits)
      then have "vm_remaining v' = vm_remaining v" "selected_code v' = selected_code v"
        "vm_pc v < vm_pc v'" "vm_pc v < length (selected_code v)"
        using in_code
        by (auto simp: debug_probe_def Let_def rd32_def machine_of_def with_machine_selected
            split: option.splits if_splits prod.splits)
      then show ?thesis using pos by (simp add: code_left_def)
    next
      case False
      note no_probe = this
      have "vm_remaining v' \<le> vm_remaining v - 1"
      proof (cases "op = Op_halt")
        case True
        with assms \<open>\<not> sfc_turn v\<close> pos in_code op have "halt ?v2 im (e + 1) = Some (More v' im' e')"
          by (auto simp: slice_step_def code_round_def Let_def split: if_splits)
        from halt_more [OF this] show ?thesis by simp
      next
        case False
        with assms \<open>\<not> sfc_turn v\<close> pos in_code op no_probe
        obtain m' where "exec_op ?cx op ?m = Next m'" "v' = with_machine m' ?v2"
          by (auto simp: slice_step_def code_round_def Let_def split: if_splits Op.splits outcome.splits)
        from exec_op_budget [OF this(1)] this(2) show ?thesis by simp
      qed
      with pos show ?thesis by simp
    qed
  qed
qed

function run_slice ::
  "'n vm_env \<Rightarrow> int \<Rightarrow> 'n Instance \<Rightarrow> ProcessImage option \<Rightarrow> int \<Rightarrow>
    ('n Instance \<times> ProcessImage option \<times> int \<times> ScanError) option"
where
  "run_slice env quantum v im executed =
     (case slice_step env quantum v im executed of
        None \<Rightarrow> None
      | Some (Done v' im' e' r) \<Rightarrow> Some (v', im', e', r)
      | Some (More v' im' e') \<Rightarrow> run_slice env quantum v' im' e')"
  by pat_completeness auto

termination run_slice
  by (relation "measures [\<lambda>(env, q, v, im, e). nat (vm_remaining v), \<lambda>(env, q, v, im, e). code_left v]")
    (auto dest: slice_step_progress)

declare run_slice.simps [simp del]


section \<open>Resume and scan\<close>

definition resume ::
  "'n vm_env \<Rightarrow> 'n Instance \<Rightarrow> int \<Rightarrow> ProcessImage option \<Rightarrow>
    ('n Instance \<times> ProcessImage option \<times> int \<times> ScanError) option"
where
  "resume env v quantum im =
     (if vm_program v = None then Some (v, im, 0, Scan_not_loaded)
      else if vm_fault v \<noteq> Scan_ok then Some (v, im, 0, vm_fault v)
      else if vm_state v \<noteq> VS_running
      then Some (v, im, 0, if vm_state v = VS_complete then Scan_ok else Scan_invalid_argument)
      else if quantum \<le> 0 then Some (v, im, 0, Scan_ok)
      else run_slice env quantum v im 0)"

definition scan ::
  "'n vm_env \<Rightarrow> 'n Instance \<Rightarrow> int \<Rightarrow> ProcessImage option \<Rightarrow>
    ('n Instance \<times> ProcessImage option \<times> ScanError) option"
where
  "scan env v budget im =
     do { (v1, im1, e) \<leftarrow> begin_instance v budget im;
          if e \<noteq> Scan_ok then Some (v1, im1, e)
          else do { (v2, im2, n, r) \<leftarrow> resume env v1 int64_max im1; Some (v2, im2, r) } }"


section \<open>The operations the scheduler calls\<close>

definition bound_image :: "'n Instance \<Rightarrow> ProcessImage \<Rightarrow> ProcessImage option" where
  "bound_image v im = (if vm_image_bound v then Some im else None)"

definition vm_ops :: "'n vm_env \<Rightarrow> 'n Instance instance_ops" where
  "vm_ops env = \<lparr> op_new = unload_instance env,
     op_load = (\<lambda>v p bytes period im. load_with_image env v p True True bytes period (Some im)),
     op_defer = (\<lambda>v d. v\<lparr> vm_defer := d \<rparr>),
     op_begin = (\<lambda>v budget im.
       do { (v', im', e) \<leftarrow> begin_instance v budget (bound_image v im);
            Some (v', case im' of None \<Rightarrow> im | Some i \<Rightarrow> i, e) }),
     op_resume = (\<lambda>v quantum im.
       do { (v', im', n, e) \<leftarrow> resume env v quantum (bound_image v im);
            Some (v', case im' of None \<Rightarrow> im | Some i \<Rightarrow> i, n, e) }),
     op_abort = abort, op_reset = reset, op_running = (\<lambda>v. vm_state v = VS_running),
     op_complete = (\<lambda>v. vm_state v = VS_complete), op_remaining_budget = vm_remaining,
     op_instruction_offset = vm_instruction_pc,
     op_fault_sfc_network_index = (\<lambda>v. sfr_fault_network (vm_runner v)),
     op_fault_sfc_element_index = (\<lambda>v. sfr_fault_element (vm_runner v)),
     op_fault_sfc_element_kind = (\<lambda>v. sfr_fault_kind (vm_runner v)) \<rparr>"

end
