(* ===== verification/VmProps.thy ===== *)
theory VmProps
  imports VmRun
begin

text \<open>
  What the interpreter guarantees for arbitrary bytecode: an instruction writes only the variables and
  keeps the stack within its limit, the process image changes in its dirty marks only until the scan
  commits, and a resumed scan returns. The instance invariant \<open>instance_wf\<close> and the contract the
  scheduler needs follow.
\<close>

section \<open>Memory and image under one instruction\<close>

interpretation confined: machine_property cx
  "\<lambda>m. writes_within (cx_program cx) xs (mc_vars m) \<and> length (mc_stack m) \<le> cx_stack_limit cx"
  for cx :: "'n vm_context" and xs
  by unfold_locales (auto intro: writes_within_trans)

definition erase_marks :: "ProcessImage \<Rightarrow> ProcessImage" where
  "erase_marks im = im\<lparr> im_current_output_dirty := map (\<lambda>_. 0) (im_current_output_dirty im),
     im_current_memory_dirty := map (\<lambda>_. 0) (im_current_memory_dirty im),
     im_transaction_output_dirty := map (\<lambda>_. 0) (im_transaction_output_dirty im),
     im_transaction_memory_dirty := map (\<lambda>_. 0) (im_transaction_memory_dirty im) \<rparr>"

lemma erase_mark_physical [simp]: "erase_marks (mark_physical v b im) = erase_marks im"
  by (simp add: mark_physical_def erase_marks_def map_replicate_const split: ProcessArea.split)

lemma erase_mark_store [simp]: "erase_marks (mark_store im p offset ty) = erase_marks im"
  by (simp add: mark_store_def split: option.split)

interpretation imaged: machine_property cx "\<lambda>m. map_option erase_marks (mc_image m) = im"
  for cx :: "'n vm_context" and im
  by unfold_locales (auto simp: option.map_comp o_def)

lemma erase_marksD:
  assumes "erase_marks a = erase_marks b"
  shows "im_program a = im_program b" "im_transaction_active a = im_transaction_active b"
    "im_output_channel a = im_output_channel b" "im_memory_channel a = im_memory_channel b"
    "im_output a = im_output b" "im_memory a = im_memory b" "im_input a = im_input b"
  using assms unfolding erase_marks_def by (cases a; cases b; simp)+

lemma erase_marks_wf: "image_wf (erase_marks im) = image_wf im"
  by (simp add: image_wf_def erase_marks_def sizes_ok_def channels_ok_def forces_ok_def)

lemma same_marks_wf: "erase_marks a = erase_marks b \<Longrightarrow> image_wf a = image_wf b"
  using erase_marks_wf [of a] erase_marks_wf [of b] by simp

lemma exec_op_confined:
  assumes "exec_op cx op m = Next m'" "length (mc_stack m) \<le> cx_stack_limit cx"
  shows "length (mc_stack m') \<le> cx_stack_limit cx" "writes_within (cx_program cx) (mc_vars m) (mc_vars m')"
    "map_option erase_marks (mc_image m') = map_option erase_marks (mc_image m)"
  using confined.instruction [of cx "mc_vars m" m op] imaged.instruction [of m _ cx op] assms by simp_all

lemma exec_op_confined_fault:
  assumes "exec_op cx op m = Fault e m'" "length (mc_stack m) \<le> cx_stack_limit cx"
  shows "writes_within (cx_program cx) (mc_vars m) (mc_vars m')"
    "map_option erase_marks (mc_image m') = map_option erase_marks (mc_image m)"
  using confined.instruction [of cx "mc_vars m" m op] imaged.instruction [of m _ cx op] assms by simp_all


section \<open>The runner of the networks returns\<close>

primrec phase_rank :: "SfcRunnerPhase \<Rightarrow> nat" where
  "phase_rank Ph_none = 0" | "phase_rank Ph_stage_vars = 1" | "phase_rank Ph_base = 2"
| "phase_rank Ph_stage_active = 3" | "phase_rank Ph_stage_firing = 4" | "phase_rank Ph_stage_blocks = 5"
| "phase_rank Ph_stage_actions = 6" | "phase_rank Ph_stage_direct = 7" | "phase_rank Ph_transitions = 8"
| "phase_rank Ph_active_updates = 9" | "phase_rank Ph_qualifier_blocks = 10"
| "phase_rank Ph_qualifier_actions = 11" | "phase_rank Ph_actions = 12" | "phase_rank Ph_trace_exits = 13"
| "phase_rank Ph_trace_transitions = 14" | "phase_rank Ph_trace_enters = 15"
| "phase_rank Ph_trace_qualifiers = 16" | "phase_rank Ph_trace_actions = 17" | "phase_rank Ph_commit_vars = 18"
| "phase_rank Ph_commit_active = 19" | "phase_rank Ph_commit_blocks = 20" | "phase_rank Ph_commit_actions = 21"
| "phase_rank Ph_finish = 22"

definition networks_left :: "'n Instance \<Rightarrow> nat" where
  "networks_left v = (let r = vm_runner v; n = length (networks v)
     in if sfr_phase r = Ph_finish then (if sfr_network r < n then 0 else 1) else n - sfr_network r)"

lemma runner_upd [simp]: "vm_runner (upd_runner f v) = f (vm_runner v)"
  "vm_program (upd_runner f v) = vm_program v"
  by (simp_all add: upd_runner_def)

definition advance_measure where
  "advance_measure = measures [\<lambda>v :: 'n Instance. 22 - phase_rank (sfr_phase (vm_runner v)), networks_left]"

lemma wf_advance_measure: "wf advance_measure"
  by (simp add: advance_measure_def)

lemma phase_rank_le: "phase_rank ph \<le> 22"
  by (cases ph) simp_all

lemma started_later:
  assumes "phase_rank (sfr_phase (vm_runner v)) < phase_rank ph"
  shows "(start_sfc_phase ph v, v) \<in> advance_measure"
  using assms phase_rank_le [of ph] by (auto simp: advance_measure_def start_sfc_phase_def)

lemma each_item_continue:
  assumes "each_item (start_sfc_phase ph) count clear visit v = Continue v'"
    and "\<And>r. sfr_phase (clear r) = sfr_phase r \<and> sfr_network (clear r) = sfr_network r"
    and "phase_rank (sfr_phase (vm_runner v)) < phase_rank ph"
  shows "(v', v) \<in> advance_measure"
proof (cases "sfr_network (vm_runner v) \<ge> length (networks v)")
  case True
  with assms(1) have "v' = start_sfc_phase ph v" by (simp add: each_item_def)
  with started_later [OF assms(3)] show ?thesis by simp
next
  case False
  have "sfr_phase (vm_runner v) \<noteq> Ph_finish" using assms(3) phase_rank_le [of ph] by auto
  with False assms(1,2) show ?thesis
    by (auto simp: each_item_def Let_def advance_measure_def networks_left_def split: if_splits)
qed

lemma advance_once_continue:
  assumes "advance_once v = Some (Continue v')"
  shows "(v', v) \<in> advance_measure"
  using assms
  by (cases "sfr_phase (vm_runner v)")
    (auto simp: advance_once_def Let_def elim!: each_item_continue)

lemma trace_once_continue:
  assumes "trace_once v = Continue v'" "networks v \<noteq> []"
    and "\<not> (sfr_phase (vm_runner v) = Ph_finish \<and> sfr_network (vm_runner v) < length (networks v))"
    and "advance_once v = None" "2 < phase_rank (sfr_phase (vm_runner v))"
  shows "(v', v) \<in> advance_measure"
proof (cases "sfr_phase (vm_runner v) = Ph_finish")
  case True
  with assms have "v' = start_sfc_phase Ph_finish v" "\<not> sfr_network (vm_runner v) < length (networks v)"
    by (auto simp: trace_once_def Let_def next_phase_def)
  with True assms(2) show ?thesis by (auto simp: advance_measure_def networks_left_def start_sfc_phase_def)
next
  case False
  with assms(1,4,5) show ?thesis
    by (cases "sfr_phase (vm_runner v)";
      simp add: trace_once_def advance_once_def commit_var_def Let_def next_phase_def split: if_splits)
      (auto intro: started_later each_item_continue)
qed

text \<open>A commit never spins on a well-formed image whose layout the program fits.\<close>

definition image_fits :: "'n Instance \<Rightarrow> ProcessImage option \<Rightarrow> bool" where
  "image_fits v im \<longleftrightarrow> (\<forall>i. im = Some i \<longrightarrow> image_wf i \<and> (\<exists>p. im_program i = Some p \<and>
     scan_layout (process_image p) (length (vm_vars v)) (located_vars (the_program v))))"

lemma image_fits_beside:
  assumes "beside_sfc v' = beside_sfc v"
  shows "image_fits v' im = image_fits v im"
  using besideD(1,2) [OF assms] by (simp add: image_fits_def)

lemma finish_scan_returns: "image_fits v im \<Longrightarrow> finish_scan v im \<noteq> None"
proof (cases im)
  case None
  then show ?thesis by (simp add: finish_scan_def)
next
  case (Some i)
  assume "image_fits v im"
  with Some obtain p where "image_wf i" "im_program i = Some p"
    "scan_layout (process_image p) (length (vm_vars v)) (located_vars (the_program v))"
    by (auto simp: image_fits_def)
  from commit_scan_ok [OF this, of "\<not> vm_defer v"] Some show ?thesis by (auto simp: finish_scan_def)
qed

lemma advance_measure_rank:
  "(v', v) \<in> advance_measure \<Longrightarrow> phase_rank (sfr_phase (vm_runner v)) \<le> phase_rank (sfr_phase (vm_runner v'))"
  using phase_rank_le [of "sfr_phase (vm_runner v)"] by (auto simp: advance_measure_def)

definition runs_networks :: "SfcRunnerPhase \<Rightarrow> bool" where
  "runs_networks ph \<longleftrightarrow> ph \<noteq> Ph_none \<and> ph \<noteq> Ph_base"

lemma runs_networks_rank: "runs_networks ph \<Longrightarrow> ph \<noteq> Ph_stage_vars \<longleftrightarrow> 2 < phase_rank ph"
  by (cases ph) (simp_all add: runs_networks_def)

lemma rank_runs_networks: "2 < phase_rank ph \<Longrightarrow> runs_networks ph"
  by (auto simp: runs_networks_def)

lemma advance_returns:
  assumes "networks v \<noteq> []" "image_fits v im" "runs_networks (sfr_phase (vm_runner v))"
  shows "advance_sfc_runner v im \<noteq> None"
  using assms
proof (induction v rule: wf_induct_rule [OF wf_advance_measure])
  case (1 v)
  show ?case
  proof (cases "sfr_phase (vm_runner v) = Ph_finish \<and> sfr_network (vm_runner v) < length (networks v)")
    case True
    with finish_scan_returns [OF "1.prems"(2)] advance_sfc_runner.simps [of v im] show ?thesis by simp
  next
    case False
    let ?mv = "case advance_once v of Some mv \<Rightarrow> mv | None \<Rightarrow> trace_once v"
    have b: "beside_sfc (moved ?mv) = beside_sfc v"
      by (auto simp: beside_trace_once dest: beside_advance_once split: option.split)
    show ?thesis
    proof (cases ?mv)
      case (Continue v1)
      then have "sfr_phase (vm_runner v) \<noteq> Ph_stage_vars" by (auto simp: advance_once_def)
      then have rank: "2 < phase_rank (sfr_phase (vm_runner v))" using runs_networks_rank "1.prems"(3) by simp
      with Continue have less: "(v1, v) \<in> advance_measure"
        using advance_once_continue trace_once_continue [OF _ "1.prems"(1) False]
        by (auto split: option.splits)
      then have "runs_networks (sfr_phase (vm_runner v1))"
        using rank advance_measure_rank [OF less] by (simp add: rank_runs_networks)
      moreover have "networks v1 \<noteq> []" "image_fits v1 im"
        using b Continue "1.prems" besideD(1) [of v1 v] image_fits_beside [of v1 v] by simp_all
      moreover note less
      ultimately have "advance_sfc_runner v1 im \<noteq> None" by (intro "1.IH")
      with Continue False advance_sfc_runner.simps [of v im] show ?thesis by auto
    next
      case (Return v1)
      with False advance_sfc_runner.simps [of v im] show ?thesis by auto
    qed
  qed
qed


section \<open>The SFC area never shrinks, the pointers and the region stay consistent\<close>

lemma length_blit_le: "length dst \<le> length (blit off src dst)"
  by (simp add: blit_def)

definition holds_bytes :: "nat \<Rightarrow> 'n Instance \<Rightarrow> bool" where
  "holds_bytes n v \<longleftrightarrow> n \<le> length (vm_sfc v)"

lemma holds_bytes_simps [simp]:
  "holds_bytes k (upd_runner f v) = holds_bytes k v" "holds_bytes k (sfc_set a b c v) = holds_bytes k v"
  "holds_bytes k (next_item v) = holds_bytes k v" "holds_bytes k (next_subitem v) = holds_bytes k v"
  "holds_bytes k (step_item v) = holds_bytes k v" "holds_bytes k (start_sfc_phase ph v) = holds_bytes k v"
  "holds_bytes k (append_sfc_trace ev e q pl v) = holds_bytes k v"
  "holds_bytes k (v\<lparr> vm_shadow_visible := g \<rparr>) = holds_bytes k v"
  "holds_bytes k (v\<lparr> vm_staged := g \<rparr>) = holds_bytes k v"
  by (simp_all add: holds_bytes_def upd_runner_def sfc_set_def next_item_def next_subitem_def
      step_item_def start_sfc_phase_def append_sfc_trace_def split: prod.split)

lemma holds_bytes_fill: "holds_bytes k v \<Longrightarrow> holds_bytes k (sfc_fill a bs v)"
  unfolding holds_bytes_def sfc_fill_def using length_blit_le [of "vm_sfc v" a bs] by simp

lemmas runner_defs = stage_vars_def leave_stage_vars_def stage_active_def stage_action_def stage_item_def
  stage_firing_def stage_direct_def stage_block_def try_transition_def move_tokens_def
  qualifier_block_def update_sfc_qualifier_block_def put_block_def qualifier_action_def
  reset_block_def run_action_def

lemmas commit_defs = trace_step_def trace_transition_def trace_qualifier_def trace_action_def
  commit_active_def commit_action_def commit_item_byte_def commit_block_def

text \<open>A visit keeps the size of the area and the staging; only a due transition or an enabled action
  selects a region.\<close>

definition tidy :: "nat \<Rightarrow> 'n Instance \<Rightarrow> 'n Instance \<Rightarrow> bool" where
  "tidy k v v' \<longleftrightarrow> (holds_bytes k v \<longrightarrow> holds_bytes k v') \<and> (vm_staged v' \<longrightarrow> vm_staged v) \<and>
     (sfr_region (vm_runner v') = sfr_region (vm_runner v) \<or>
      sfr_phase (vm_runner v') \<in> {Ph_transitions, Ph_actions})"

lemma staged_simps [simp]:
  "vm_staged (upd_runner f v) = vm_staged v" "vm_staged (sfc_set a b c v) = vm_staged v"
  "vm_staged (sfc_fill a bs v) = vm_staged v"
  "vm_runner (sfc_set a b c v) = vm_runner v" "vm_runner (sfc_fill a bs v) = vm_runner v"
  by (simp_all add: upd_runner_def sfc_set_def sfc_fill_def)

lemma region_simps [simp]:
  "vm_staged (next_item v) = vm_staged v" "vm_staged (next_subitem v) = vm_staged v"
  "vm_staged (step_item v) = vm_staged v" "vm_staged (start_sfc_phase ph v) = vm_staged v"
  "vm_staged (append_sfc_trace ev e q pl v) = vm_staged v"
  "sfr_region (vm_runner (next_item v)) = sfr_region (vm_runner v)"
  "sfr_region (vm_runner (next_subitem v)) = sfr_region (vm_runner v)"
  "sfr_region (vm_runner (step_item v)) = sfr_region (vm_runner v)"
  "sfr_region (vm_runner (start_sfc_phase ph v)) = sfr_region (vm_runner v)"
  "sfr_region (vm_runner (append_sfc_trace ev e q pl v)) = sfr_region (vm_runner v)"
  by (simp_all add: next_item_def next_subitem_def step_item_def start_sfc_phase_def
      append_sfc_trace_def split: prod.split)

lemma tidy_stages:
  "tidy k v (stage_vars v)" "tidy k v (stage_active n v)" "tidy k v (stage_action n v)"
  "tidy k v (stage_firing n v)" "tidy k v (stage_direct n v)" "tidy k v (stage_block n v)"
  "tidy k v (move_tokens n v)" "tidy k v (qualifier_block n v)" "tidy k v (qualifier_action n v)"
  by (simp_all add: tidy_def runner_defs Let_def holds_bytes_fill split: prod.split)

lemma tidy_commits:
  "tidy k v (trace_step b n v)" "tidy k v (trace_transition n v)" "tidy k v (trace_qualifier n v)"
  "tidy k v (trace_action n v)" "tidy k v (commit_active n v)" "tidy k v (commit_action n v)"
  "tidy k v (commit_block n v)"
  by (simp_all add: tidy_def commit_defs Let_def)

lemma tidy_regions:
  "sfr_phase (vm_runner v) = Ph_transitions \<Longrightarrow> tidy k v (try_transition n v)"
  "sfr_phase (vm_runner v) = Ph_actions \<Longrightarrow> tidy k v (run_action n v)"
  by (simp_all add: tidy_def try_transition_def run_action_def step_item_def Let_def)

lemma tidy_start: "tidy k v (start_sfc_phase ph v)"
  by (simp add: tidy_def)

lemma tidy_each_item:
  assumes "\<And>n. tidy k v (visit n v)" "\<And>r. sfr_region (clear r) = sfr_region r"
  shows "tidy k v (moved (each_item (start_sfc_phase ph) count clear visit v))"
  using assms by (simp add: each_item_def Let_def tidy_start) (simp add: tidy_def)

lemma tidy_advance_once: "advance_once v = Some mv \<Longrightarrow> tidy k v (moved mv)"
  by (cases "sfr_phase (vm_runner v)")
    (auto simp: advance_once_def Let_def tidy_stages tidy_regions intro!: tidy_each_item)

lemma tidy_trace_once: "tidy k v (moved (trace_once v))"
  by (cases "sfr_phase (vm_runner v)")
    (auto simp: trace_once_def commit_var_def Let_def tidy_commits tidy_start intro!: tidy_each_item,
      auto simp: tidy_def holds_bytes_def step_item_def upd_runner_def)

text \<open>A return keeps the phase, leaves the staging for the base code, or ends the scan; going on keeps
  the region.\<close>

definition next_ok :: "'n Instance \<Rightarrow> 'n Instance \<Rightarrow> bool" where
  "next_ok v v' \<longleftrightarrow>
     (let ph = sfr_phase (vm_runner v)
      in if ph = Ph_stage_vars then sfr_phase (vm_runner v') \<in> {Ph_stage_vars, Ph_base}
         else 2 < phase_rank (sfr_phase (vm_runner v')) \<or> sfr_phase (vm_runner v') = Ph_none)"

lemma phase_simps [simp]:
  "sfr_phase (vm_runner (next_item v)) = sfr_phase (vm_runner v)"
  "sfr_phase (vm_runner (next_subitem v)) = sfr_phase (vm_runner v)"
  "sfr_phase (vm_runner (step_item v)) = sfr_phase (vm_runner v)"
  "sfr_phase (vm_runner (start_sfc_phase ph v)) = ph"
  "sfr_phase (vm_runner (append_sfc_trace ev e q pl v)) = sfr_phase (vm_runner v)"
  by (simp_all add: next_item_def next_subitem_def step_item_def start_sfc_phase_def
      append_sfc_trace_def split: prod.split)

lemma visit_phase:
  "sfr_phase (vm_runner (stage_active n v)) = sfr_phase (vm_runner v)"
  "sfr_phase (vm_runner (stage_action n v)) = sfr_phase (vm_runner v)"
  "sfr_phase (vm_runner (stage_firing n v)) = sfr_phase (vm_runner v)"
  "sfr_phase (vm_runner (stage_direct n v)) = sfr_phase (vm_runner v)"
  "sfr_phase (vm_runner (stage_block n v)) = sfr_phase (vm_runner v)"
  "sfr_phase (vm_runner (try_transition n v)) = sfr_phase (vm_runner v)"
  "sfr_phase (vm_runner (move_tokens n v)) = sfr_phase (vm_runner v)"
  "sfr_phase (vm_runner (qualifier_block n v)) = sfr_phase (vm_runner v)"
  "sfr_phase (vm_runner (qualifier_action n v)) = sfr_phase (vm_runner v)"
  "sfr_phase (vm_runner (run_action n v)) = sfr_phase (vm_runner v)"
  by (simp_all add: runner_defs Let_def split: prod.split)

lemma commit_phase:
  "sfr_phase (vm_runner (trace_step b n v)) = sfr_phase (vm_runner v)"
  "sfr_phase (vm_runner (trace_transition n v)) = sfr_phase (vm_runner v)"
  "sfr_phase (vm_runner (trace_qualifier n v)) = sfr_phase (vm_runner v)"
  "sfr_phase (vm_runner (trace_action n v)) = sfr_phase (vm_runner v)"
  "sfr_phase (vm_runner (commit_active n v)) = sfr_phase (vm_runner v)"
  "sfr_phase (vm_runner (commit_action n v)) = sfr_phase (vm_runner v)"
  "sfr_phase (vm_runner (commit_block n v)) = sfr_phase (vm_runner v)"
  by (simp_all add: commit_defs Let_def)

lemma each_item_return_phase:
  assumes "each_item over count clear visit v = Return v'"
    and "\<And>n. sfr_phase (vm_runner (visit n v)) = sfr_phase (vm_runner v)"
  shows "sfr_phase (vm_runner v') = sfr_phase (vm_runner v)"
  using assms by (auto simp: each_item_def Let_def split: if_splits)

lemma advance_once_return:
  assumes "advance_once v = Some (Return v')" "sfr_phase (vm_runner v) \<noteq> Ph_stage_vars"
  shows "sfr_phase (vm_runner v') = sfr_phase (vm_runner v)"
  using assms
  by (cases "sfr_phase (vm_runner v)")
    (auto simp: advance_once_def Let_def visit_phase dest!: each_item_return_phase)

lemma trace_once_return:
  assumes "trace_once v = Return v'"
  shows "sfr_phase (vm_runner v') = sfr_phase (vm_runner v)"
  using assms
  by (cases "sfr_phase (vm_runner v)")
    (auto simp: trace_once_def commit_var_def Let_def commit_phase split: if_splits
      dest!: each_item_return_phase)

lemma each_item_region:
  assumes "each_item (start_sfc_phase ph) count clear visit v = Continue v'"
    and "\<And>r. sfr_region (clear r) = sfr_region r"
  shows "sfr_region (vm_runner v') = sfr_region (vm_runner v)"
  using assms by (auto simp: each_item_def Let_def split: if_splits)

lemma advance_once_region:
  "advance_once v = Some (Continue v') \<Longrightarrow> sfr_region (vm_runner v') = sfr_region (vm_runner v)"
  by (cases "sfr_phase (vm_runner v)") (auto simp: advance_once_def Let_def dest!: each_item_region)

lemma trace_once_region:
  "trace_once v = Continue v' \<Longrightarrow> sfr_region (vm_runner v') = sfr_region (vm_runner v)"
  by (cases "sfr_phase (vm_runner v)")
    (auto simp: trace_once_def commit_var_def Let_def split: if_splits dest!: each_item_region)

lemma advance_tidy:
  assumes "advance_sfc_runner v im = Some r"
  shows "(holds_bytes k v \<longrightarrow> holds_bytes k (fst r)) \<and> (vm_staged (fst r) \<longrightarrow> vm_staged v) \<and>
    (sfr_region (vm_runner v) = None \<longrightarrow> sfr_region (vm_runner (fst r)) = None \<or>
       sfr_phase (vm_runner (fst r)) \<in> {Ph_transitions, Ph_actions}) \<and>
    (networks v \<noteq> [] \<longrightarrow> runs_networks (sfr_phase (vm_runner v)) \<longrightarrow> next_ok v (fst r))"
  using assms
proof (induction rule: advance_sfc_runner.raw_induct [rotated, consumes 1, case_names round])
  case (round f v im r)
  show ?case
  proof (cases "sfr_phase (vm_runner v) = Ph_finish \<and> sfr_network (vm_runner v) < length (networks v)")
    case True
    with round(2) have "finish_scan v im = Some r" by simp
    then show ?thesis using True
      by (auto simp: finish_scan_def next_ok_def Let_def split: option.splits Option.bind_splits)
  next
    case False
    let ?mv = "case advance_once v of Some mv \<Rightarrow> mv | None \<Rightarrow> trace_once v"
    have t: "tidy k v (moved ?mv)"
      using tidy_advance_once tidy_trace_once by (cases "advance_once v") auto
    show ?thesis
    proof (cases ?mv)
      case (Continue v1)
      with round(2) False have "f v1 im = Some r" by simp
      note IH = round(1) [OF this]
      have reg: "sfr_region (vm_runner v1) = sfr_region (vm_runner v)"
        using Continue advance_once_region trace_once_region by (auto split: option.splits)
      have nx: "next_ok v (fst r)" if "networks v \<noteq> []" "runs_networks (sfr_phase (vm_runner v))"
      proof -
        have "sfr_phase (vm_runner v) \<noteq> Ph_stage_vars" using Continue by (auto simp: advance_once_def)
        then have rank: "2 < phase_rank (sfr_phase (vm_runner v))" using runs_networks_rank that(2) by simp
        have less: "(v1, v) \<in> advance_measure"
          using Continue advance_once_continue trace_once_continue [OF _ that(1) False _ rank]
          by (auto split: option.splits)
        from advance_measure_rank [OF less] rank have rank1: "2 < phase_rank (sfr_phase (vm_runner v1))" by simp
        have "beside_sfc v1 = beside_sfc v"
          using Continue beside_advance_once [of v ?mv] beside_trace_once [of v] by (auto split: option.splits)
        then have "networks v1 \<noteq> []" using that(1) besideD(1) [of v1 v] by simp
        with IH rank1 have "next_ok v1 (fst r)" by (simp add: rank_runs_networks)
        with rank rank1 show ?thesis by (auto simp: next_ok_def Let_def split: if_splits)
      qed
      from IH t Continue reg nx show ?thesis by (auto simp: tidy_def)
    next
      case (Return v1)
      with round(2) False have r: "r = (v1, im)" by simp
      have "next_ok v v1" if "runs_networks (sfr_phase (vm_runner v))"
      proof (cases "sfr_phase (vm_runner v) = Ph_stage_vars")
        case True
        with Return have "v1 = stage_vars v" by (simp add: advance_once_def)
        with True show ?thesis by (simp add: next_ok_def stage_vars_def leave_stage_vars_def Let_def)
      next
        case no: False
        with Return advance_once_return trace_once_return have "sfr_phase (vm_runner v1) = sfr_phase (vm_runner v)"
          by (auto split: option.splits)
        with no that runs_networks_rank show ?thesis by (simp add: next_ok_def)
      qed
      with t Return r show ?thesis by (auto simp: tidy_def)
    qed
  qed
qed


section \<open>The instance invariant\<close>

definition stack_room :: "'n Instance \<Rightarrow> nat" where
  "stack_room v = (case sfr_region (vm_runner v) of
     Some r \<Rightarrow> rg_stack_slots r | None \<Rightarrow> pb_stack_slots (body (the_program v)))"

definition shadow_end :: "Program \<Rightarrow> nat" where
  "shadow_end p = sfc_committed_shadow_offset p + vars_bytes p"

definition runs_code :: "'n Instance \<Rightarrow> bool" where
  "runs_code v \<longleftrightarrow> \<not> sfc_turn v \<or> sfr_phase (vm_runner v) = Ph_stage_vars"

definition sized :: "'n Instance \<Rightarrow> bool" where
  "sized v \<longleftrightarrow> text_types_ok (the_program v) \<and> length (vm_vars v) = vars_bytes (the_program v) \<and>
     (networks v \<noteq> [] \<longrightarrow> holds_bytes (shadow_end (the_program v)) v) \<and>
     (networks v = [] \<longrightarrow> \<not> vm_staged v \<and> sfr_phase (vm_runner v) = Ph_none) \<and>
     (sfr_region (vm_runner v) \<noteq> None \<longrightarrow> sfr_phase (vm_runner v) \<in> {Ph_transitions, Ph_actions})"

definition instance_wf :: "'n Instance \<Rightarrow> bool" where
  "instance_wf v \<longleftrightarrow> (vm_program v \<noteq> None \<longrightarrow> sized v \<and>
     (vm_state v = VS_running \<longrightarrow> runs_code v \<longrightarrow> length (vm_stack v) \<le> stack_room v))"

definition frame :: "'n Instance \<Rightarrow> Program option \<times> bool \<times> bool \<times> int" where
  "frame v = (vm_program v, vm_image_bound v, vm_defer v, vm_period v)"

text \<open>What a call may do to the bound image: with a deferred publication nothing is published.\<close>

definition image_kept :: "bool \<Rightarrow> ProcessImage option \<Rightarrow> ProcessImage option \<Rightarrow> bool" where
  "image_kept d im im' \<longleftrightarrow> (case (im, im') of
     (None, None) \<Rightarrow> True
   | (Some i, Some i') \<Rightarrow> image_wf i' \<and> im_program i' = im_program i \<and>
       im_transaction_active i' = im_transaction_active i \<and> (d \<longrightarrow> published i' = published i)
   | _ \<Rightarrow> False)"

lemma frame_beside: "beside_sfc v' = beside_sfc v \<Longrightarrow> frame v' = frame v"
  unfolding beside_sfc_def frame_def by (cases v; cases v') simp

lemma rollback_network_keeps:
  "beside_sfc (rollback_network n v) = beside_sfc v" "vm_runner (rollback_network n v) = vm_runner v"
  "vm_staged (rollback_network n v) = vm_staged v" "vm_vars (rollback_network n v) = vm_vars v"
  "holds_bytes k v \<Longrightarrow> holds_bytes k (rollback_network n v)"
  by (auto simp: rollback_network_def sfc_copy_def beside_sfc_def holds_bytes_def intro: order_trans [OF _ length_blit_le])

lemma rollback_networks_keep:
  "beside_sfc (fold rollback_network ns v) = beside_sfc v \<and>
   vm_runner (fold rollback_network ns v) = vm_runner v \<and>
   vm_staged (fold rollback_network ns v) = vm_staged v \<and> vm_vars (fold rollback_network ns v) = vm_vars v \<and>
   (holds_bytes k v \<longrightarrow> holds_bytes k (fold rollback_network ns v))"
  by (induction ns arbitrary: v) (auto simp: rollback_network_keeps)

lemma rollback_keeps:
  assumes "holds_bytes (shadow_end (the_program v)) v" "length (vm_vars v) = vars_bytes (the_program v)"
  shows "beside_sfc (rollback_sfc_commit v) = beside_sfc v" "vm_runner (rollback_sfc_commit v) = vm_runner v"
    "vm_staged (rollback_sfc_commit v) = vm_staged v"
    "length (vm_vars (rollback_sfc_commit v)) = length (vm_vars v)"
    "holds_bytes k v \<Longrightarrow> holds_bytes k (rollback_sfc_commit v)"
proof -
  have "beside_sfc (rollback_sfc_commit v) = beside_sfc v \<and> vm_runner (rollback_sfc_commit v) = vm_runner v \<and>
      vm_staged (rollback_sfc_commit v) = vm_staged v \<and>
      length (vm_vars (rollback_sfc_commit v)) = length (vm_vars v) \<and>
      (holds_bytes k v \<longrightarrow> holds_bytes k (rollback_sfc_commit v))"
  proof (cases "vm_program v")
    case None
    then show ?thesis by (simp add: rollback_sfc_commit_def)
  next
    case (Some p)
    let ?v = "v\<lparr> vm_vars := blit 0 (seg (vm_sfc v) (sfc_committed_shadow_offset p) (vars_bytes p)) (vm_vars v) \<rparr>"
    have "length (vm_vars ?v) = length (vm_vars v)"
      using assms Some by (simp add: holds_bytes_def shadow_end_def)
    then have "beside_sfc ?v = beside_sfc v" "length (vm_vars ?v) = length (vm_vars v)" by simp_all
    with rollback_networks_keep [of "pb_sfc_networks (body p)" ?v k] Some show ?thesis
      by (simp add: rollback_sfc_commit_def holds_bytes_def)
  qed
  then show "beside_sfc (rollback_sfc_commit v) = beside_sfc v" "vm_runner (rollback_sfc_commit v) = vm_runner v"
    "vm_staged (rollback_sfc_commit v) = vm_staged v"
    "length (vm_vars (rollback_sfc_commit v)) = length (vm_vars v)"
    "holds_bytes k v \<Longrightarrow> holds_bytes k (rollback_sfc_commit v)" by blast+
qed

lemma sizedI_beside:
  assumes "sized v" "beside_sfc v' = beside_sfc v" "\<And>k. holds_bytes k v \<Longrightarrow> holds_bytes k v'"
    and "networks v = [] \<Longrightarrow> \<not> vm_staged v' \<and> sfr_phase (vm_runner v') = Ph_none"
    and "sfr_region (vm_runner v') \<noteq> None \<Longrightarrow> sfr_phase (vm_runner v') \<in> {Ph_transitions, Ph_actions}"
  shows "sized v'"
  using assms besideD(1,2) [OF assms(2)] by (simp add: sized_def)

lemma rollback_if_started:
  assumes "sized v"
  shows "sized (if sfc_commit_started v then rollback_sfc_commit v else v) \<and>
    beside_sfc (if sfc_commit_started v then rollback_sfc_commit v else v) = beside_sfc v \<and>
    vm_runner (if sfc_commit_started v then rollback_sfc_commit v else v) = vm_runner v"
proof (cases "sfc_commit_started v")
  case True
  then have "networks v \<noteq> []" using assms by (auto simp: sfc_commit_started_def sized_def)
  then have h: "holds_bytes (shadow_end (the_program v)) v" "length (vm_vars v) = vars_bytes (the_program v)"
    using assms by (simp_all add: sized_def)
  note k = rollback_keeps [OF h]
  have "sized (rollback_sfc_commit v)"
    using assms by (intro sizedI_beside [OF assms k(1) k(5)]) (auto simp: k(2,3) sized_def)
  with True k show ?thesis by simp
qed (simp add: assms)

lemma frame_simps [simp]:
  "frame (v\<lparr> vm_fault := e \<rparr>) = frame v" "frame (v\<lparr> vm_state := s \<rparr>) = frame v"
  "frame (v\<lparr> vm_pc := n \<rparr>) = frame v" "frame (v\<lparr> vm_instruction_pc := n \<rparr>) = frame v"
  "frame (v\<lparr> vm_stack := st \<rparr>) = frame v" "frame (v\<lparr> vm_remaining := z \<rparr>) = frame v"
  "frame (v\<lparr> vm_staged := g \<rparr>) = frame v" "frame (v\<lparr> vm_shadow_visible := g \<rparr>) = frame v"
  "frame (v\<lparr> vm_vars := xs \<rparr>) = frame v" "frame (v\<lparr> vm_sfc := xs \<rparr>) = frame v"
  "frame (v\<lparr> vm_scan_started := g \<rparr>) = frame v"
  "frame (v\<lparr> vm_last_probe := pr \<rparr>) = frame v" "frame (v\<lparr> vm_native := k \<rparr>) = frame v"
  "frame (upd_runner f v) = frame v"
  by (simp_all add: frame_def upd_runner_def)

lemma sized_simps [simp]:
  "sized (v\<lparr> vm_fault := e \<rparr>) = sized v" "sized (v\<lparr> vm_state := s \<rparr>) = sized v"
  "sized (v\<lparr> vm_pc := n \<rparr>) = sized v" "sized (v\<lparr> vm_instruction_pc := n \<rparr>) = sized v"
  "sized (v\<lparr> vm_stack := st \<rparr>) = sized v" "sized (v\<lparr> vm_remaining := z \<rparr>) = sized v"
  "sized (v\<lparr> vm_shadow_visible := g \<rparr>) = sized v" "sized (v\<lparr> vm_scan_started := g \<rparr>) = sized v"
  "sized (v\<lparr> vm_last_probe := pr \<rparr>) = sized v" "sized (v\<lparr> vm_native := k \<rparr>) = sized v"
  "sized (v\<lparr> vm_defer := g \<rparr>) = sized v" "sized (v\<lparr> vm_image_bound := g \<rparr>) = sized v"
  by (simp_all add: sized_def holds_bytes_def)

lemma room_simps [simp]:
  "stack_room (v\<lparr> vm_fault := e \<rparr>) = stack_room v" "stack_room (v\<lparr> vm_state := s \<rparr>) = stack_room v"
  "stack_room (v\<lparr> vm_pc := n \<rparr>) = stack_room v" "stack_room (v\<lparr> vm_instruction_pc := n \<rparr>) = stack_room v"
  "stack_room (v\<lparr> vm_stack := st \<rparr>) = stack_room v" "stack_room (v\<lparr> vm_remaining := z \<rparr>) = stack_room v"
  "stack_room (v\<lparr> vm_defer := g \<rparr>) = stack_room v" "stack_room (v\<lparr> vm_image_bound := g \<rparr>) = stack_room v"
  by (simp_all add: stack_room_def split: option.split)

lemma runs_code_simps [simp]:
  "runs_code (v\<lparr> vm_fault := e \<rparr>) = runs_code v" "runs_code (v\<lparr> vm_state := s \<rparr>) = runs_code v"
  "runs_code (v\<lparr> vm_pc := n \<rparr>) = runs_code v" "runs_code (v\<lparr> vm_instruction_pc := n \<rparr>) = runs_code v"
  "runs_code (v\<lparr> vm_stack := st \<rparr>) = runs_code v" "runs_code (v\<lparr> vm_remaining := z \<rparr>) = runs_code v"
  "runs_code (v\<lparr> vm_defer := g \<rparr>) = runs_code v" "runs_code (v\<lparr> vm_image_bound := g \<rparr>) = runs_code v"
  by (simp_all add: runs_code_def sfc_turn_def)

lemma sized_unstage: "sized v \<Longrightarrow> sized (v\<lparr> vm_staged := False \<rparr>)"
  by (simp add: sized_def)

lemma sized_runner:
  assumes "sized v" "networks v = [] \<Longrightarrow> sfr_phase (f (vm_runner v)) = Ph_none"
    and "sfr_region (f (vm_runner v)) \<noteq> None \<Longrightarrow> sfr_phase (f (vm_runner v)) \<in> {Ph_transitions, Ph_actions}"
  shows "sized (upd_runner f v)"
  using assms by (auto simp: sized_def upd_runner_def holds_bytes_def)

lemma latch_ok:
  assumes "sized v"
  shows "sized (latch e v)" "frame (latch e v) = frame v" "vm_state (latch e v) = VS_faulted"
proof -
  let ?v1 = "if sfr_region (vm_runner v) \<noteq> None \<and> sfr_network (vm_runner v) < length (networks v)
      then upd_runner (\<lambda>r. r\<lparr> sfr_fault_network := sfr_network r, sfr_fault_element := sfr_item r,
        sfr_fault_kind := (if sfr_phase r = Ph_transitions then FE_transition else FE_action) \<rparr>) v else v"
  have v1: "sized ?v1" "frame ?v1 = frame v" using assms by (auto intro!: sized_runner) (auto simp: sized_def)
  let ?v2 = "if sfc_commit_started ?v1 then rollback_sfc_commit ?v1 else ?v1"
  have v2: "sized ?v2" "frame ?v2 = frame v"
    using rollback_if_started [OF v1(1)] v1(2) frame_beside [of ?v2 ?v1] by simp_all
  have l: "latch e v = upd_runner (\<lambda>r. (restore_trace r)\<lparr> sfr_region := None \<rparr>)
      (?v2\<lparr> vm_staged := False, vm_shadow_visible := False, vm_fault := e, vm_state := VS_faulted \<rparr>)"
    by (simp add: latch_def Let_def)
  have "sized (?v2\<lparr> vm_staged := False \<rparr>)" by (rule sized_unstage [OF v2(1)])
  then show "sized (latch e v)" unfolding l
    by (intro sized_runner) (simp_all, auto simp: sized_def restore_trace_def)
  show "frame (latch e v) = frame v" unfolding l using v2(2) by simp
  show "vm_state (latch e v) = VS_faulted" unfolding l by (simp add: upd_runner_def)
qed

lemma frame_program: "frame v' = frame v \<Longrightarrow> vm_program v' = vm_program v"
  by (simp add: frame_def)

lemma abort_ok:
  assumes "instance_wf v"
  shows "instance_wf (abort v)" "frame (abort v) = frame v" "vm_state (abort v) = VS_idle"
proof -
  let ?r = "if sfc_commit_started v then rollback_sfc_commit v else v"
  let ?v1 = "if vm_state v = VS_running then upd_runner restore_trace ?r else v"
  have a: "abort v = upd_runner (\<lambda>r. r\<lparr> sfr_region := None, sfr_phase := Ph_none, sfr_subitem := 0,
      sfr_work := 0, sfr_reducer := 0, sfr_suppressed := False \<rparr>)
    (?v1\<lparr> vm_state := VS_idle, vm_pc := 0, vm_instruction_pc := 0, vm_stack := [],
      vm_remaining := 0, vm_staged := False, vm_shadow_visible := False \<rparr>)"
    by (simp add: abort_def)
  show st: "vm_state (abort v) = VS_idle" by (simp add: a upd_runner_def)
  have v1: "frame ?v1 = frame v \<and> (vm_program v \<noteq> None \<longrightarrow> sized ?v1)"
  proof (cases "vm_program v")
    case None
    then show ?thesis by (simp add: rollback_sfc_commit_def)
  next
    case (Some p)
    with assms have s: "sized v" by (simp add: instance_wf_def)
    from rollback_if_started [OF s] have r: "sized ?r" "frame ?r = frame v" "vm_runner ?r = vm_runner v"
      using frame_beside [of ?r v] by simp_all
    have "sized (upd_runner restore_trace ?r)"
      using r(1) by (intro sized_runner [OF r(1)]) (simp_all add: restore_trace_def sized_def)
    with r s show ?thesis by simp
  qed
  then show "frame (abort v) = frame v" unfolding a by simp
  with st v1 show "instance_wf (abort v)"
    unfolding instance_wf_def frame_program [OF \<open>frame (abort v) = frame v\<close>]
    by (auto simp: a intro!: sized_runner sized_unstage)
qed

lemma reset_ok:
  assumes "instance_wf v"
  shows "instance_wf (reset v)" "frame (reset v) = frame v" "vm_state (reset v) = VS_idle"
proof -
  have wf: "instance_wf (v\<lparr> vm_fault := Scan_ok \<rparr>)"
    using assms by (simp add: instance_wf_def)
  from abort_ok [OF wf] show "instance_wf (reset v)" "frame (reset v) = frame v" "vm_state (reset v) = VS_idle"
    by (simp_all add: reset_def)
qed


section \<open>One round of the slice loop\<close>

lemma image_kept_refl: "image_fits v im \<Longrightarrow> image_kept d im im"
  by (auto simp: image_kept_def image_fits_def split: option.split)

lemma image_kept_marks:
  assumes "image_fits v im" "map_option erase_marks im' = map_option erase_marks im"
  shows "image_kept d im im'"
proof (cases im)
  case None
  with assms(2) show ?thesis by (simp add: image_kept_def)
next
  case (Some i)
  with assms(2) obtain i' where i': "im' = Some i'" "erase_marks i' = erase_marks i" by (cases im') auto
  from assms(1) Some have "image_wf i" by (simp add: image_fits_def)
  with i' Some erase_marksD [OF i'(2)] same_marks_wf [OF i'(2)] show ?thesis
    by (simp add: image_kept_def published_def)
qed

lemma commit_kept:
  assumes "image_fits v (Some i)"
  shows "\<exists>i'. commit_scan i (the_program v) (vm_vars v) (\<not> vm_defer v) = Some i' \<and>
    image_kept (vm_defer v) (Some i) (Some i')"
proof -
  obtain p where "image_wf i" "im_program i = Some p"
    "scan_layout (process_image p) (length (vm_vars v)) (located_vars (the_program v))"
    using assms by (auto simp: image_fits_def)
  from commit_scan_ok [OF this, of "\<not> vm_defer v"] \<open>im_program i = Some p\<close> show ?thesis
    by (auto simp: image_kept_def published_def)
qed

lemma image_fits_frame:
  assumes "frame v' = frame v" "length (vm_vars v') = length (vm_vars v)"
  shows "image_fits v' im = image_fits v im"
  using assms by (simp add: image_fits_def frame_def)

lemma image_fits_kept: "image_fits v im \<Longrightarrow> image_kept d im im' \<Longrightarrow> image_fits v im'"
  by (auto simp: image_fits_def image_kept_def split: option.splits)

lemma image_kept_trans: "image_kept d a b \<Longrightarrow> image_kept d b c \<Longrightarrow> image_kept d a c"
  by (auto simp: image_kept_def split: option.splits)

lemma finish_kept:
  assumes "finish_scan v im = Some (v', im')" "image_fits v im"
  shows "image_kept (vm_defer v) im im'"
proof (cases im)
  case None
  with assms(1) show ?thesis by (auto simp: finish_scan_def image_kept_def)
next
  case (Some i)
  with commit_kept [of v i] assms show ?thesis by (auto simp: finish_scan_def Let_def)
qed

lemma advance_image:
  assumes "advance_sfc_runner v im = Some r" "image_fits v im"
  shows "image_kept (vm_defer v) im (snd r)"
  using assms
proof (induction rule: advance_sfc_runner.raw_induct [rotated, consumes 1, case_names round])
  case (round f v im r)
  show ?case
  proof (cases "sfr_phase (vm_runner v) = Ph_finish \<and> sfr_network (vm_runner v) < length (networks v)")
    case True
    with round(2,3) finish_kept [of v im "fst r" "snd r"] show ?thesis by simp
  next
    case False
    let ?mv = "case advance_once v of Some mv \<Rightarrow> mv | None \<Rightarrow> trace_once v"
    have b: "beside_sfc (moved ?mv) = beside_sfc v"
      by (auto simp: beside_trace_once dest: beside_advance_once split: option.split)
    show ?thesis
    proof (cases ?mv)
      case (Continue v1)
      with b have b1: "beside_sfc v1 = beside_sfc v" by simp
      from Continue round(2) False have "f v1 im = Some r" by simp
      from round(1) [OF this] round(3) image_fits_beside [OF b1] besideD(3) [OF b1] show ?thesis by simp
    next
      case (Return v1)
      with round(2) False image_kept_refl [OF round(3)] show ?thesis by auto
    qed
  qed
qed

definition round_ok :: "'n Instance \<Rightarrow> ProcessImage option \<Rightarrow> int \<Rightarrow> 'n progress \<Rightarrow> bool" where
  "round_ok v im e pr =
     (let P = (\<lambda>v' im' e'. instance_wf v' \<and> frame v' = frame v \<and> length (vm_vars v') = length (vm_vars v) \<and>
        image_kept (vm_defer v) im im' \<and> e \<le> e' \<and> e' \<le> e + 1)
      in case pr of More v' im' e' \<Rightarrow> P v' im' e' \<and> vm_state v' = VS_running
         | Done v' im' e' r \<Rightarrow> P v' im' e')"

lemma round_More [simp]: "round_ok v im e (More v' im' e') \<longleftrightarrow> instance_wf v' \<and> frame v' = frame v \<and>
    length (vm_vars v') = length (vm_vars v) \<and> image_kept (vm_defer v) im im' \<and> e \<le> e' \<and> e' \<le> e + 1 \<and>
    vm_state v' = VS_running"
  by (auto simp: round_ok_def)

lemma round_Done [simp]: "round_ok v im e (Done v' im' e' r) \<longleftrightarrow> instance_wf v' \<and> frame v' = frame v \<and>
    length (vm_vars v') = length (vm_vars v) \<and> image_kept (vm_defer v) im im' \<and> e \<le> e' \<and> e' \<le> e + 1"
  by (auto simp: round_ok_def)

lemma latched_ok:
  assumes "sized u" "frame u = frame v" "length (vm_vars u) = length (vm_vars v)" "vm_program v \<noteq> None"
  shows "instance_wf (latch e u) \<and> frame (latch e u) = frame v \<and> length (vm_vars (latch e u)) = length (vm_vars v)"
proof -
  note l = latch_ok [OF assms(1), of e]
  have "vm_program (latch e u) = vm_program u" by (rule frame_program [OF l(2)])
  then have "length (vm_vars (latch e u)) = length (vm_vars u)" using l(1) assms(1) by (simp add: sized_def)
  with l assms show ?thesis by (simp add: instance_wf_def)
qed

lemma machine_simps [simp]:
  "frame (with_machine m v) = frame v" "vm_state (with_machine m v) = vm_state v"
  "vm_runner (with_machine m v) = vm_runner v" "vm_staged (with_machine m v) = vm_staged v"
  "stack_room (with_machine m v) = stack_room v" "runs_code (with_machine m v) = runs_code v"
  "vm_program (with_machine m v) = vm_program v" "vm_stack (with_machine m v) = mc_stack m"
  by (simp_all add: with_machine_def frame_def stack_room_def runs_code_def sfc_turn_def Let_def split: option.split)

lemma sized_machine:
  assumes "sized v" "writes_within (the_program v) (mc_vars (machine_of v im e)) (mc_vars m)"
  shows "sized (with_machine m v)" "length (vm_vars (with_machine m v)) = length (vm_vars v)"
proof -
  have "shadow_end (the_program v) \<ge> vars_bytes (the_program v)" by (simp add: shadow_end_def)
  then have "sized (with_machine m v) \<and> length (vm_vars (with_machine m v)) = length (vm_vars v)"
    using assms by (auto simp: sized_def holds_bytes_def with_machine_def machine_of_def writes_within_def Let_def)
  then show "sized (with_machine m v)" "length (vm_vars (with_machine m v)) = length (vm_vars v)" by blast+
qed

lemma context_simps [simp]:
  "cx_program (context_of env v) = the_program v" "cx_stack_limit (context_of env v) = stack_room v"
  by (simp_all add: context_of_def stack_room_def Let_def split: option.split)

lemma machine_of_simps [simp]: "mc_stack (machine_of v im e) = vm_stack v" "mc_image (machine_of v im e) = im"
  "mc_executed (machine_of v im e) = e"
  by (simp_all add: machine_of_def)

text \<open>One instruction.\<close>

lemma instruction_ok:
  assumes "sized v" "vm_program v \<noteq> None" "image_fits v im" "length (vm_stack v) \<le> stack_room v"
    "vm_state v = VS_running"
  shows "round_ok v im e (case exec_op (context_of env v) op (machine_of v im (e + 1)) of
      Next m' \<Rightarrow> More (with_machine m' v) (mc_image m') (e + 1)
    | Fault er m' \<Rightarrow> Done (latch er (with_machine m' v)) (mc_image m') (e + 1) er)"
proof (cases "exec_op (context_of env v) op (machine_of v im (e + 1))")
  case (Next m')
  have st: "length (mc_stack (machine_of v im (e + 1))) \<le> cx_stack_limit (context_of env v)"
    using assms(4) by simp
  note c = exec_op_confined [OF Next st]
  from c sized_machine [OF assms(1), of im "e + 1" m'] image_kept_marks [OF assms(3), of "mc_image m'"] assms Next
  show ?thesis by (simp add: instance_wf_def)
next
  case (Fault er m')
  have st: "length (mc_stack (machine_of v im (e + 1))) \<le> cx_stack_limit (context_of env v)"
    using assms(4) by simp
  note c = exec_op_confined_fault [OF Fault st]
  from c sized_machine [OF assms(1), of im "e + 1" m'] image_kept_marks [OF assms(3), of "mc_image m'"] assms Fault
    latched_ok [of "with_machine m' v" v er]
  show ?thesis by simp
qed

lemma probe_ok:
  assumes "sized v" "vm_program v \<noteq> None" "image_fits v im" "length (vm_stack v) \<le> stack_room v"
    "vm_state v = VS_running"
  shows "round_ok v im e (debug_probe (context_of env v) v im (machine_of v im (e + 1)))"
proof -
  have k: "round_ok v im e (Done (latch er (with_machine m v)) im (e + 1) er')"
    "sized (with_machine m v)" "length (vm_vars (with_machine m v)) = length (vm_vars v)"
    if "mc_vars m = mc_vars (machine_of v im (e + 1))" for m er er'
    using sized_machine [OF assms(1), of im "e + 1" m] that assms image_kept_refl
      latched_ok [of "with_machine m v" v er] by simp_all
  show ?thesis
    using assms image_kept_refl [OF assms(3)] k
    by (auto simp: debug_probe_def Let_def instance_wf_def split: option.splits prod.splits)
qed

lemma sfc_turn_phase:
  "networks v \<noteq> [] \<Longrightarrow> sfr_region (vm_runner v) = None \<Longrightarrow> runs_networks (sfr_phase (vm_runner v)) \<Longrightarrow>
    sfr_phase (vm_runner v) \<noteq> Ph_stage_vars \<Longrightarrow> \<not> runs_code v"
  by (simp add: runs_code_def sfc_turn_def runs_networks_def)

lemma finish_region_ok:
  assumes "sized v" "sfr_region (vm_runner v) \<noteq> None" "networks v \<noteq> []"
  shows "sized (finish_sfc_region v)" "\<not> runs_code (finish_sfc_region v)"
proof -
  have b: "beside_sfc (finish_sfc_region v) = beside_sfc v" by simp
  have ph: "sfr_phase (vm_runner v) \<in> {Ph_transitions, Ph_actions}" using assms by (simp add: sized_def)
  have r: "sfr_region (vm_runner (finish_sfc_region v)) = None"
    "sfr_phase (vm_runner (finish_sfc_region v)) = sfr_phase (vm_runner v)"
    "holds_bytes k v \<Longrightarrow> holds_bytes k (finish_sfc_region v)" for k
    by (simp_all add: finish_sfc_region_def note_firing_def Let_def split: option.split)
  show "sized (finish_sfc_region v)" using assms(3) r by (intro sizedI_beside [OF assms(1) b]) auto
  have "networks (finish_sfc_region v) \<noteq> []" using besideD(1) [OF b] assms(3) by simp
  then show "\<not> runs_code (finish_sfc_region v)"
    using r ph by (intro sfc_turn_phase) (auto simp: runs_networks_def)
qed

lemma begin_regions_ok:
  assumes "sized v" "networks v \<noteq> []"
  shows "sized (begin_sfc_regions v)" "\<not> runs_code (begin_sfc_regions v)"
proof -
  show "sized (begin_sfc_regions v)"
    unfolding begin_sfc_regions_def using assms(2) by (intro sized_runner [OF assms(1)]) simp_all
  show "\<not> runs_code (begin_sfc_regions v)"
    using assms(2) by (simp add: begin_sfc_regions_def runs_code_def sfc_turn_def)
qed

lemma state_beside: "beside_sfc v' = beside_sfc v \<Longrightarrow> vm_state v' = vm_state v"
  by (rule besideD(4))

lemma halt_ok:
  assumes "sized v" "vm_program v \<noteq> None" "image_fits v im" "length (vm_stack v) \<le> stack_room v"
    "vm_state v = VS_running"
  shows "\<exists>pr. halt v im (e + 1) = Some pr \<and> round_ok v im e pr"
proof (cases "networks v = []")
  case False
  let ?u = "if sfr_region (vm_runner v) \<noteq> None then finish_sfc_region v
    else if sfr_phase (vm_runner v) = Ph_base then begin_sfc_regions v else v"
  have b: "beside_sfc ?u = beside_sfc v" by simp
  have "sized ?u \<and> (runs_code ?u \<longrightarrow> length (vm_stack ?u) \<le> stack_room ?u)"
    using assms False finish_region_ok [OF assms(1) _ False] begin_regions_ok [OF assms(1) False] by simp
  with False b frame_beside [OF b] besideD(1,2) [OF b] state_beside [OF b] assms(3,5) image_kept_refl [OF assms(3)]
  show ?thesis by (simp add: halt_def instance_wf_def)
next
  case True
  have wf: "instance_wf (v\<lparr> vm_state := VS_complete \<rparr>)" using assms by (simp add: instance_wf_def)
  show ?thesis
  proof (cases im)
    case None
    with True wf image_kept_refl [OF assms(3)] show ?thesis by (simp add: halt_def)
  next
    case (Some i)
    with commit_kept [of v i] assms(3) True wf show ?thesis by (auto simp: halt_def)
  qed
qed

lemma code_round_op_cases:
  "code_round env v im e =
     (if vm_remaining v \<le> 0
      then Some (Done (latch Scan_budget_exceeded v) im e Scan_budget_exceeded)
      else let v1 = v\<lparr> vm_remaining := vm_remaining v - 1 \<rparr>
        in if vm_pc v \<ge> length (selected_code v)
           then Some (Done (latch Scan_invalid_bytecode v1) im (e + 1) Scan_invalid_bytecode)
           else let v2 = v1\<lparr> vm_instruction_pc := vm_pc v, vm_pc := vm_pc v + 1 \<rparr>
             in case op_of_byte (selected_code v ! vm_pc v) of
                  None \<Rightarrow> Some (Done (latch Scan_invalid_bytecode v2) im (e + 1) Scan_invalid_bytecode)
                | Some op \<Rightarrow>
                    if op = Op_debug_probe then Some (debug_probe (context_of env v2) v2 im (machine_of v2 im (e + 1)))
                    else if op = Op_halt then halt v2 im (e + 1)
                    else Some (case exec_op (context_of env v2) op (machine_of v2 im (e + 1)) of
                        Next m' \<Rightarrow> More (with_machine m' v2) (mc_image m') (e + 1)
                      | Fault er m' \<Rightarrow> Done (latch er (with_machine m' v2)) (mc_image m') (e + 1) er))"
  by (simp add: code_round_def Let_def split: option.split Op.split del: One_nat_def)

lemma code_round_ok:
  assumes wf: "instance_wf v" and run: "vm_state v = VS_running" and p: "vm_program v \<noteq> None"
    and fits: "image_fits v im" and turn: "\<not> sfc_turn v"
  shows "\<exists>pr. code_round env v im e = Some pr \<and> round_ok v im e pr"
proof -
  have s: "sized v" "length (vm_stack v) \<le> stack_room v"
    using wf run p turn by (simp_all add: instance_wf_def runs_code_def)
  let ?v1 = "v\<lparr> vm_remaining := vm_remaining v - 1 \<rparr>"
  let ?v2 = "?v1\<lparr> vm_instruction_pc := vm_pc v, vm_pc := vm_pc v + 1 \<rparr>"
  have v2: "sized ?v2" "vm_program ?v2 \<noteq> None" "image_fits ?v2 im" "length (vm_stack ?v2) \<le> stack_room ?v2"
    "vm_state ?v2 = VS_running"
    using s p fits run by (simp_all add: image_fits_def)
  have step: "round_ok ?v2 im e pr \<Longrightarrow> round_ok v im e pr" for pr by (cases pr) simp_all
  have bad: "round_ok v im e (Done (latch er u) im e' er)" if "sized u" "frame u = frame v"
    "length (vm_vars u) = length (vm_vars v)" "e \<le> e'" "e' \<le> e + 1" for er u e'
    using latched_ok [OF that(1-3) p] image_kept_refl [OF fits] that by simp
  show ?thesis
  proof (cases "vm_remaining v \<le> 0 \<or> vm_pc v \<ge> length (selected_code v)")
    case True
    with bad [of v e] bad [of ?v1 "e + 1"] s show ?thesis by (cases "vm_remaining v \<le> 0") (simp_all add: code_round_def Let_def)
  next
    case False
    then have in_code: "\<not> vm_remaining v \<le> 0" "\<not> vm_pc v \<ge> length (selected_code v)" by simp_all
    show ?thesis
    proof (cases "op_of_byte (selected_code v ! vm_pc v)")
      case None
      with in_code bad [of ?v2 "e + 1"] s show ?thesis by (simp add: code_round_def Let_def)
    next
      case (Some op)
      note in_op = in_code Some
      show ?thesis
      proof (cases "op = Op_debug_probe \<or> op = Op_halt")
        case True
        with in_op probe_ok [OF v2, of e env] halt_ok [OF v2, of e] step show ?thesis
          by (auto simp: code_round_op_cases Let_def)
      next
        case False
        with in_op have "code_round env v im e =
            Some (case exec_op (context_of env ?v2) op (machine_of ?v2 im (e + 1)) of
              Next m' \<Rightarrow> More (with_machine m' ?v2) (mc_image m') (e + 1)
            | Fault er m' \<Rightarrow> Done (latch er (with_machine m' ?v2)) (mc_image m') (e + 1) er)"
          by (simp add: code_round_op_cases Let_def del: One_nat_def)
        with step [OF instruction_ok [OF v2, of e env op]] show ?thesis by blast
      qed
    qed
  qed
qed

lemma sfc_round_ok:
  assumes wf: "instance_wf v" and run: "vm_state v = VS_running" and p: "vm_program v \<noteq> None"
    and fits: "image_fits v im" and turn: "sfc_turn v"
  shows "\<exists>pr. sfc_round v im e = Some pr \<and> round_ok v im e pr"
proof (cases "vm_remaining v \<le> 0")
  case True
  have "sized v" using wf p by (simp add: instance_wf_def)
  from latched_ok [OF this refl refl p] True image_kept_refl [OF fits] show ?thesis by (simp add: sfc_round_def)
next
  case False
  let ?u = "v\<lparr> vm_remaining := vm_remaining v - 1 \<rparr>"
  have u: "networks ?u \<noteq> []" "image_fits ?u im" "runs_networks (sfr_phase (vm_runner ?u))"
    "sfr_region (vm_runner ?u) = None" "sized ?u"
    using turn fits wf p by (auto simp: sfc_turn_def runs_networks_def image_fits_def instance_wf_def)
  from advance_returns [OF u(1-3)] obtain r where r: "advance_sfc_runner ?u im = Some r" by auto
  obtain v1 im1 where v1: "r = (v1, im1)" by (cases r)
  have b: "beside_sfc v1 = beside_sfc ?u" using beside_advance [OF r] v1 by simp
  note bd = besideD [OF b] and fr = frame_beside [OF b]
  have t: "holds_bytes k ?u \<Longrightarrow> holds_bytes k v1" "vm_staged v1 \<Longrightarrow> vm_staged ?u"
    "sfr_region (vm_runner v1) \<noteq> None \<Longrightarrow> sfr_phase (vm_runner v1) \<in> {Ph_transitions, Ph_actions}"
    "next_ok ?u v1" for k
    using advance_tidy [OF r, of k] u v1 by auto
  have im: "image_kept (vm_defer v) im im1" using advance_image [OF r u(2)] v1 by simp
  have s1: "sized v1" using u(1) t by (intro sizedI_beside [OF u(5) b]) auto
  have base: "frame v1 = frame v" "vm_state v1 = VS_running" "length (vm_vars v1) = length (vm_vars v)"
    using fr bd(2,4) run by simp_all
  show ?thesis
  proof (cases "sfr_region (vm_runner v1) \<noteq> None \<or> sfr_phase (vm_runner v1) = Ph_none")
    case True
    have wf1: "instance_wf (v1\<lparr> vm_pc := 0, vm_stack := [] \<rparr>)" "instance_wf (v1\<lparr> vm_state := VS_complete \<rparr>)"
      using s1 by (simp_all add: instance_wf_def)
    with True False r v1 base im show ?thesis by (auto simp: sfc_round_def)
  next
    case no: False
    have "length (vm_stack v1) \<le> stack_room v1" if "runs_code v1"
    proof -
      have "networks v1 \<noteq> []" using u(1) bd(1) by simp
      with no that have "sfr_phase (vm_runner v1) \<in> {Ph_base, Ph_stage_vars}"
        by (auto simp: runs_code_def sfc_turn_def)
      with t(4) have "sfr_phase (vm_runner v) = Ph_stage_vars" by (auto simp: next_ok_def split: if_splits)
      then have "length (vm_stack v) \<le> stack_room v" using wf run p by (simp add: instance_wf_def runs_code_def)
      moreover have "stack_room v1 = stack_room v" using no u(4) bd(1) by (simp add: stack_room_def)
      ultimately show ?thesis using bd(5) by simp
    qed
    with s1 have "instance_wf v1" by (simp add: instance_wf_def)
    with no False r v1 base im show ?thesis by (simp add: sfc_round_def)
  qed
qed

text \<open>A slice returns, keeps the invariant and the published images, and executes no more than it may.\<close>

lemma run_slice_ok:
  assumes "instance_wf v" "vm_state v = VS_running" "vm_program v \<noteq> None" "image_fits v im" "e \<le> quantum"
  shows "\<exists>v' im' n r. run_slice env quantum v im e = Some (v', im', n, r) \<and> instance_wf v' \<and>
    frame v' = frame v \<and> length (vm_vars v') = length (vm_vars v) \<and> image_kept (vm_defer v) im im' \<and>
    e \<le> n \<and> n \<le> quantum"
  using assms
proof (induction env quantum v im e rule: run_slice.induct)
  case (1 env quantum v im e)
  show ?case
  proof (cases "e \<ge> quantum")
    case True
    then have "run_slice env quantum v im e = Some (v, im, e, Scan_ok)"
      by (simp add: run_slice.simps [of env quantum v im e] slice_step_def)
    with "1.prems" image_kept_refl [OF "1.prems"(4)] show ?thesis by blast
  next
    case False
    then have step: "slice_step env quantum v im e =
        (if sfc_turn v then sfc_round v im e else code_round env v im e)"
      by (simp add: slice_step_def)
    obtain pr where pr: "slice_step env quantum v im e = Some pr" "round_ok v im e pr"
    proof (cases "sfc_turn v")
      case True
      from sfc_round_ok [OF "1.prems"(1-4) this, of e] obtain pr where
        "sfc_round v im e = Some pr" "round_ok v im e pr" by (elim exE conjE)
      with that show ?thesis unfolding step if_P [OF True] by blast
    next
      case turn: False
      from code_round_ok [OF "1.prems"(1-4) this, of env e] obtain pr where
        "code_round env v im e = Some pr" "round_ok v im e pr" by (elim exE conjE)
      with that show ?thesis unfolding step if_not_P [OF turn] by blast
    qed
    show ?thesis
    proof (cases pr)
      case (Done v' im' e' r)
      with pr(1) have eq: "run_slice env quantum v im e = Some (v', im', e', r)"
        by (simp add: run_slice.simps [of env quantum v im e])
      from pr(2) Done have "round_ok v im e (Done v' im' e' r)" by simp
      note ok = this [unfolded round_Done]
      with False have "e' \<le> quantum" by linarith
      with ok eq show ?thesis by blast
    next
      case (More v' im' e')
      have v': "instance_wf v'" "frame v' = frame v" "length (vm_vars v') = length (vm_vars v)"
        "image_kept (vm_defer v) im im'" "e \<le> e'" "e' \<le> e + 1" "vm_state v' = VS_running"
        using pr(2) unfolding More round_More by blast+
      have p': "vm_program v' \<noteq> None" using "1.prems"(3) frame_program [OF v'(2)] by simp
      have f': "image_fits v' im'"
        using image_fits_kept [OF "1.prems"(4) v'(4)] image_fits_frame [OF v'(2,3)] by simp
      have d': "vm_defer v' = vm_defer v" using v'(2) by (simp add: frame_def)
      have le: "e' \<le> quantum" using v'(6) False by simp
      obtain w im2 n r where w: "run_slice env quantum v' im' e' = Some (w, im2, n, r)" "instance_wf w"
        "frame w = frame v'" "length (vm_vars w) = length (vm_vars v')" "image_kept (vm_defer v') im' im2"
        "e' \<le> n" "n \<le> quantum"
        using "1.IH" [OF pr(1) More v'(1,7) p' f' le] by blast
      have "run_slice env quantum v im e = Some (w, im2, n, r)"
        using pr(1) More w(1) by (simp add: run_slice.simps [of env quantum v im e])
      with w v' d' image_kept_trans [OF v'(4), of im2] show ?thesis by simp
    qed
  qed
qed

text \<open>A slice that ends without an error has executed an instruction.\<close>

lemma probe_executes:
  fixes cx :: "'n vm_context"
  shows "case debug_probe cx v im m of More w i k \<Rightarrow> k = mc_executed m - 1
    | Done w i k r \<Rightarrow> r \<noteq> Scan_ok"
  by (auto simp: debug_probe_def Let_def split: option.split prod.split)

lemma halt_executes: "halt v im e = Some pr \<Longrightarrow> (case pr of More w i k \<Rightarrow> k = e | Done w i k r \<Rightarrow> k = e)"
  by (auto simp: halt_def split: if_splits Option.bind_splits)

lemma sfc_round_executes: "sfc_round v im e = Some pr \<Longrightarrow>
    (case pr of More w i k \<Rightarrow> k = e + 1 | Done w i k r \<Rightarrow> r = Scan_ok \<longrightarrow> k = e + 1)"
  by (auto simp: sfc_round_def split: if_splits Option.bind_splits)

lemma code_round_executes: "code_round env v im e = Some pr \<Longrightarrow>
    (case pr of More w i k \<Rightarrow> e \<le> k | Done w i k r \<Rightarrow> r = Scan_ok \<longrightarrow> k = e + 1)"
proof -
  let ?v2 = "v\<lparr> vm_remaining := vm_remaining v - 1, vm_instruction_pc := vm_pc v, vm_pc := vm_pc v + 1 \<rparr>"
  assume "code_round env v im e = Some pr"
  then show ?thesis
    using probe_executes [where cx = "context_of env ?v2" and v = ?v2 and im = im and m = "machine_of ?v2 im (e + 1)"] halt_executes [of ?v2 im "e + 1" pr]
    by (cases pr) (auto simp: code_round_op_cases machine_of_def Let_def
        split: if_splits option.splits outcome.splits progress.splits)
qed

lemma slice_ok_executes:
  "run_slice env quantum v im e = Some (v', im', n, Scan_ok) \<Longrightarrow> e < quantum \<Longrightarrow> e < n"
proof (induction env quantum v im e rule: run_slice.induct)
  case (1 env quantum v im e)
  then obtain pr where pr: "slice_step env quantum v im e = Some pr"
    by (cases "slice_step env quantum v im e") (simp_all add: run_slice.simps [of env quantum v im e])
  have x: "case pr of More w i k \<Rightarrow> e \<le> k | Done w i k r \<Rightarrow> r = Scan_ok \<longrightarrow> k = e + 1"
    using pr "1.prems"(2) sfc_round_executes [of v im e pr] code_round_executes [of env v im e pr]
    by (cases pr) (auto simp: slice_step_def split: if_splits)
  show ?case
  proof (cases pr)
    case (Done w i k r)
    with pr x "1.prems" show ?thesis by (simp add: run_slice.simps [of env quantum v im e])
  next
    case (More w i k)
    have r: "run_slice env quantum w i k = Some (v', im', n, Scan_ok)"
      using pr More "1.prems"(1) by (simp add: run_slice.simps [of env quantum v im e])
    show ?thesis
    proof (cases "k < quantum")
      case True
      with "1.IH" [OF pr More r] x More show ?thesis by simp
    next
      case False
      with r "1.prems"(2) show ?thesis by (simp add: run_slice.simps [of env quantum w i k] slice_step_def)
    qed
  qed
qed


section \<open>Resume, begin and load\<close>

lemma resume_returns:
  assumes "instance_wf v" "image_fits v im"
  shows "\<exists>v' im' n r. resume env v quantum im = Some (v', im', n, r) \<and> instance_wf v' \<and>
    frame v' = frame v \<and> length (vm_vars v') = length (vm_vars v) \<and> image_kept (vm_defer v) im im' \<and>
    0 \<le> n \<and> n \<le> max 0 quantum \<and> (vm_state v = VS_running \<and> 0 < quantum \<and> r = Scan_ok \<longrightarrow> 0 < n)"
proof (cases "vm_program v \<noteq> None \<and> vm_fault v = Scan_ok \<and> vm_state v = VS_running \<and> 0 < quantum")
  case True
  with run_slice_ok [of v im 0 quantum env] assms slice_ok_executes [of env quantum v im 0]
  show ?thesis by (fastforce simp: resume_def)
next
  case False
  then have "\<exists>e. resume env v quantum im = Some (v, im, 0, e) \<and>
      \<not> (vm_state v = VS_running \<and> 0 < quantum \<and> e = Scan_ok)" by (auto simp: resume_def)
  with assms image_kept_refl [OF assms(2)] show ?thesis by fastforce
qed

lemma begin_returns:
  assumes "instance_wf v" "image_fits v im"
  shows "\<exists>v' im' r. begin_instance v budget im = Some (v', im', r) \<and> instance_wf v' \<and>
    frame v' = frame v \<and> length (vm_vars v') = length (vm_vars v) \<and> image_kept d im im' \<and>
    (r = Scan_ok \<longrightarrow> vm_remaining v' = budget \<and> vm_state v' = VS_running)"
proof (cases "vm_program v = None \<or> vm_fault v \<noteq> Scan_ok \<or> vm_state v = VS_running")
  case True
  then have "\<exists>r. begin_instance v budget im = Some (v, im, r) \<and> r \<noteq> Scan_ok"
    by (auto simp: begin_instance_def split: option.split)
  with assms image_kept_refl [OF assms(2)] show ?thesis by fastforce
next
  case False
  then obtain p where p: "vm_program v = Some p" "vm_fault v = Scan_ok" "vm_state v \<noteq> VS_running" by auto
  have s: "sized v" using assms(1) p by (simp add: instance_wf_def)
  obtain vars im1 where b: "(case im of None \<Rightarrow> Some (vm_vars v, None)
      | Some i \<Rightarrow> do { (xs, i1) \<leftarrow> begin_scan i p (vm_vars v); Some (xs, Some i1) }) = Some (vars, im1)"
    "length vars = length (vm_vars v)" "image_kept d im im1"
  proof (cases im)
    case None
    with that show ?thesis by (simp add: image_kept_def)
  next
    case (Some i)
    with assms(2) p obtain ip where i: "image_wf i" "im_program i = Some ip"
      "scan_layout (process_image ip) (length (vm_vars v)) (located_vars p)" by (auto simp: image_fits_def)
    obtain i1 where i1: "scan_boundary i = Some i1" "image_wf i1" "published i1 = published i"
      using i(1) prepare_scan_boundary_ok [OF i(1), of wildcard_force_owner wildcard_force_release]
      by (cases "im_transaction_active i") (auto simp: scan_boundary_def published_def)
    obtain xs i2 where "begin_scan i p (vm_vars v) = Some (xs, i2)" "image_wf i2" "length xs = length (vm_vars v)"
      "im_program i2 = Some ip" "im_transaction_active i2 = im_transaction_active i" "published i2 = published i"
      using begin_scan_ok [OF i i1(1)] begin_scan_values [OF i i1(1)] i1(3)
      by (auto simp: published_def with_current_def)
    with Some i that show ?thesis by (simp add: image_kept_def)
  qed
  let ?sfc = "pb_sfc_networks (body p) \<noteq> []"
  define u where "u = v\<lparr> vm_vars := vars, vm_staged := ?sfc, vm_scan_started := True, vm_state := VS_running,
      vm_pc := 0, vm_instruction_pc := 0, vm_stack := [], vm_remaining := budget \<rparr>"
  define start where "start = (\<lambda>r :: SfcRunnerStorage. r\<lparr> sfr_region := None,
      sfr_phase := (if \<not> ?sfc then Ph_none else if vars_bytes p = 0 then Ph_base else Ph_stage_vars),
      sfr_network := 0, sfr_item := 0, sfr_subitem := 0, sfr_work := 0, sfr_reducer := 0,
      sfr_suppressed := False, sfr_fault_network := u32_max, sfr_fault_element := u32_max,
      sfr_fault_kind := FE_none, sfr_begin_size := length (sfr_trace r), sfr_begin_dropped := sfr_dropped r \<rparr>)"
  have "begin_instance v budget im = Some (upd_runner start u, im1, Scan_ok)"
    unfolding begin_instance_def p option.case b(1) u_def start_def using p(2,3) by simp
  moreover have "sized (upd_runner start u)"
    using s b(2) p(1) by (simp add: sized_def u_def start_def upd_runner_def holds_bytes_def)
  ultimately show ?thesis using b p(1)
    by (simp add: u_def instance_wf_def) (simp add: upd_runner_def)
qed

lemma reset_network_keeps:
  "vm_vars (reset_sfc_network n v) = vm_vars v \<and> beside_sfc (reset_sfc_network n v) = beside_sfc v \<and>
   vm_runner (reset_sfc_network n v) = vm_runner v \<and> vm_staged (reset_sfc_network n v) = vm_staged v \<and>
   (holds_bytes k v \<longrightarrow> holds_bytes k (reset_sfc_network n v))"
proof -
  have f: "vm_vars (fold (\<lambda>i u. if ss_initial (sn_steps n ! i)
        then sfc_set a i 1 (sfc_set b i 1 u) else u) is u) = vm_vars u \<and>
      beside_sfc (fold (\<lambda>i u. if ss_initial (sn_steps n ! i)
        then sfc_set a i 1 (sfc_set b i 1 u) else u) is u) = beside_sfc u \<and>
      vm_runner (fold (\<lambda>i u. if ss_initial (sn_steps n ! i)
        then sfc_set a i 1 (sfc_set b i 1 u) else u) is u) = vm_runner u \<and>
      vm_staged (fold (\<lambda>i u. if ss_initial (sn_steps n ! i)
        then sfc_set a i 1 (sfc_set b i 1 u) else u) is u) = vm_staged u \<and>
      holds_bytes k (fold (\<lambda>i u. if ss_initial (sn_steps n ! i)
        then sfc_set a i 1 (sfc_set b i 1 u) else u) is u) = holds_bytes k u" for a b "is" and u :: "'a Instance"
    by (induction "is" arbitrary: u) (simp_all, simp_all add: sfc_set_def)
  show ?thesis
    unfolding reset_sfc_network_def Let_def using f
    by (simp add: holds_bytes_fill) (simp add: sfc_fill_def)
qed

lemma initialize_keeps:
  assumes "vm_program v = Some p" "length (vm_vars v) = vars_bytes p"
  shows "vm_vars (initialize_sfc_runtime v) = vm_vars v" "frame (initialize_sfc_runtime v) = frame v"
    "vm_runner (initialize_sfc_runtime v) = vm_runner v" "vm_staged (initialize_sfc_runtime v) = vm_staged v"
    "vm_state (initialize_sfc_runtime v) = vm_state v"
    "holds_bytes (pb_sfc_runtime_bytes (body p)) (initialize_sfc_runtime v)"
proof -
  let ?u = "v\<lparr> vm_sfc := replicate (pb_sfc_runtime_bytes (body p)) 0 \<rparr>"
  have keep: "vm_vars (fold reset_sfc_network ns u) = vm_vars u \<and> beside_sfc (fold reset_sfc_network ns u) = beside_sfc u \<and>
      vm_runner (fold reset_sfc_network ns u) = vm_runner u \<and> vm_staged (fold reset_sfc_network ns u) = vm_staged u \<and>
      (holds_bytes k u \<longrightarrow> holds_bytes k (fold reset_sfc_network ns u))" for ns k and u :: "'a Instance"
    by (induction ns arbitrary: u) (simp_all add: reset_network_keeps)
  have "vm_vars (initialize_sfc_runtime v) = vm_vars v \<and> frame (initialize_sfc_runtime v) = frame v \<and>
    vm_runner (initialize_sfc_runtime v) = vm_runner v \<and> vm_staged (initialize_sfc_runtime v) = vm_staged v \<and>
    vm_state (initialize_sfc_runtime v) = vm_state v \<and>
    holds_bytes (pb_sfc_runtime_bytes (body p)) (initialize_sfc_runtime v)"
  proof (cases "pb_sfc_runtime_bytes (body p) = 0")
    case True
    with assms show ?thesis by (simp add: initialize_sfc_runtime_def holds_bytes_def)
  next
    case False
    have i: "initialize_sfc_runtime v = fold reset_sfc_network (networks v) ?u"
      using assms False by (simp add: initialize_sfc_runtime_def)
    note k = keep [of "networks v" ?u "pb_sfc_runtime_bytes (body p)"]
    have "holds_bytes (pb_sfc_runtime_bytes (body p)) ?u" by (simp add: holds_bytes_def)
    with k i frame_beside [of "initialize_sfc_runtime v" ?u] state_beside [of "initialize_sfc_runtime v" ?u]
    show ?thesis by simp
  qed
  then show "vm_vars (initialize_sfc_runtime v) = vm_vars v" "frame (initialize_sfc_runtime v) = frame v"
    "vm_runner (initialize_sfc_runtime v) = vm_runner v" "vm_staged (initialize_sfc_runtime v) = vm_staged v"
    "vm_state (initialize_sfc_runtime v) = vm_state v"
    "holds_bytes (pb_sfc_runtime_bytes (body p)) (initialize_sfc_runtime v)" by blast+
qed

text \<open>What the compiler guarantees of a program.\<close>

definition program_ok :: "Program \<Rightarrow> bool" where
  "program_ok p \<longleftrightarrow> text_types_ok p \<and>
     (pb_sfc_networks (body p) \<noteq> [] \<longrightarrow> shadow_end p \<le> pb_sfc_runtime_bytes (body p))"

lemma unload_wf: "instance_wf (unload_instance env)"
  by (simp add: instance_wf_def unload_instance_def)

lemma load_ok:
  assumes "program_ok p" "load env p has_buffer aligned n period = (v, e)"
  shows "instance_wf v" "\<not> vm_image_bound v" "vm_program v = (if e = EC_ok then Some p else None)"
proof -
  have blank: "instance_wf (unload_instance env)" "\<not> vm_image_bound (unload_instance env)"
    "vm_program (unload_instance env) = None"
    by (simp_all add: unload_wf) (simp_all add: unload_instance_def)
  have "instance_wf v \<and> \<not> vm_image_bound v \<and> vm_program v = (if e = EC_ok then Some p else None)"
  proof (cases "e = EC_ok")
    case False
    with assms(2) blank show ?thesis by (auto simp: load_def Let_def split: if_splits)
  next
    case True
    let ?u = "(unload_instance env)\<lparr> vm_program := Some p,
      vm_vars := blit 0 (initial_data p) (replicate (vars_bytes p) 0), vm_native := ve_init env p period,
      vm_period := period \<rparr>"
    from True assms(2) have v: "v = initialize_sfc_runtime ?u" and len: "length (initial_data p) \<le> vars_bytes p"
      by (auto simp: load_def Let_def split: if_splits)
    have u: "vm_program ?u = Some p" "length (vm_vars ?u) = vars_bytes p" using len by simp_all
    note k = initialize_keeps [OF u]
    have f: "vm_program v = Some p" "\<not> vm_image_bound v"
      using k(2) v by (auto simp: frame_def unload_instance_def)
    have r: "vm_runner v = initial_runner" "\<not> vm_staged v" "vm_state v = VS_idle"
      using k(3-5) v by (simp_all add: unload_instance_def)
    have "sized v"
      using assms(1) k(1,6) u v f(1) r(1,2)
      by (auto simp: sized_def program_ok_def holds_bytes_def initial_runner_def)
    with f r True show ?thesis by (simp add: instance_wf_def)
  qed
  then show "instance_wf v" "\<not> vm_image_bound v" "vm_program v = (if e = EC_ok then Some p else None)" by blast+
qed

end
