(* ===== verification/ConfigRuntime.thy ===== *)
theory ConfigRuntime
  imports ScanInstance "HOL-Library.Product_Lexorder"
begin

text \<open>
  The scheduler of a configuration (\<open>core/st/configuration_runtime.h\<close>): resources with their tasks,
  program instances and process image, tick boundaries, cooperative execution and the task faults.
  Pointers into the arrays are indices, \<open>invalid_task_owner\<close> is \<open>None\<close>, and the debug hooks are not
  attached. Functions that reach the process image return \<open>None\<close> where the image call spins.
\<close>

section \<open>State\<close>

record 'v MappingRuntime =
  mr_info :: ProgramMappingInfo
  mr_program :: Program
  mr_instance :: 'v
  mr_bytes :: nat

record TaskRuntime =
  tk_info :: TaskInfo
  tk_storage :: TaskRuntimeStorage
  tk_parked_image :: ParkedImage
  tk_output_bytes :: nat
  tk_memory_bytes :: nat
  tk_parked :: bool

record 'v ResourceRuntime =
  rn_info :: ResourceInfo
  rn_storage :: ResourceRuntimeStorage
  rn_image_program :: Program
  rn_image :: ProcessImage
  rn_tasks :: "TaskRuntime list"
  rn_mappings :: "'v MappingRuntime list"
  rn_schedule :: "nat list"
  rn_write_stamps :: "nat list"
  rn_write_owners :: "nat list"
  rn_owner :: "nat option"

record 'v ConfigurationRuntime =
  cr_program :: "Program option"
  cr_resources :: "'v ResourceRuntime list"
  cr_base_tick_ns :: int
  cr_loaded :: bool
  cr_have_boundary :: bool
  cr_last_boundary :: nat

definition unload :: "'v ConfigurationRuntime" where
  "unload = \<lparr> cr_program = None, cr_resources = [], cr_base_tick_ns = 0, cr_loaded = False,
     cr_have_boundary = False, cr_last_boundary = 0 \<rparr>"

definition upd_task :: "nat \<Rightarrow> (TaskRuntime \<Rightarrow> TaskRuntime) \<Rightarrow> 'v ResourceRuntime \<Rightarrow> 'v ResourceRuntime" where
  "upd_task t f res = res\<lparr> rn_tasks := (rn_tasks res)[t := f (rn_tasks res ! t)] \<rparr>"

definition upd_storage ::
  "nat \<Rightarrow> (TaskRuntimeStorage \<Rightarrow> TaskRuntimeStorage) \<Rightarrow> 'v ResourceRuntime \<Rightarrow> 'v ResourceRuntime"
where
  "upd_storage t f = upd_task t (\<lambda>tk. tk\<lparr> tk_storage := f (tk_storage tk) \<rparr>)"

definition upd_status :: "nat \<Rightarrow> (TaskStatus \<Rightarrow> TaskStatus) \<Rightarrow> 'v ResourceRuntime \<Rightarrow> 'v ResourceRuntime" where
  "upd_status t f = upd_storage t (\<lambda>s. s\<lparr> ts_status := f (ts_status s) \<rparr>)"

definition upd_instance :: "nat \<Rightarrow> ('v \<Rightarrow> 'v) \<Rightarrow> 'v ResourceRuntime \<Rightarrow> 'v ResourceRuntime" where
  "upd_instance m f res = res\<lparr> rn_mappings := (rn_mappings res)
     [m := (rn_mappings res ! m)\<lparr> mr_instance := f (mr_instance (rn_mappings res ! m)) \<rparr>] \<rparr>"

abbreviation storage_at :: "'v ResourceRuntime \<Rightarrow> nat \<Rightarrow> TaskRuntimeStorage" where
  "storage_at res t \<equiv> tk_storage (rn_tasks res ! t)"

abbreviation status_at :: "'v ResourceRuntime \<Rightarrow> nat \<Rightarrow> TaskStatus" where
  "status_at res t \<equiv> ts_status (storage_at res t)"

abbreviation task_mappings :: "'v ResourceRuntime \<Rightarrow> nat \<Rightarrow> nat list" where
  "task_mappings res t \<equiv> ti_mappings (tk_info (rn_tasks res ! t))"

abbreviation resource_status :: "'v ResourceRuntime \<Rightarrow> ResourceStatus" where
  "resource_status res \<equiv> rr_status (rn_storage res)"


section \<open>Transactions\<close>

definition discard_transaction :: "'v ResourceRuntime \<Rightarrow> nat \<Rightarrow> 'v ResourceRuntime option" where
  "discard_transaction res t =
     do { res1 \<leftarrow> (if rn_owner res = Some t
            then do { im \<leftarrow> discard_scan (rn_image res); Some (res\<lparr> rn_image := im, rn_owner := None \<rparr>) }
            else Some res);
          Some (upd_storage t (\<lambda>s. s\<lparr> ts_transaction_active := False \<rparr>) res1) }"

text \<open>\<open>record_writes\<close>: one round per dirty bit, over the stamps, the owners and the conflict flag.\<close>

definition saturating_next :: "nat \<Rightarrow> nat" where
  "saturating_next tick = (if tick = max_u64 then tick else tick + 1)"

definition record_bit ::
  "nat \<Rightarrow> nat \<Rightarrow> nat \<Rightarrow> nat list \<times> nat list \<times> bool \<Rightarrow> nat list \<times> nat list \<times> bool"
where
  "record_bit stamp owner slot soc = (case soc of (stamps, owners, conflict) \<Rightarrow>
     (stamps[slot := stamp], owners[slot := owner],
      conflict \<or> (stamps ! slot = stamp \<and> owners ! slot \<noteq> owner)))"

definition dirty_slots :: "'v ResourceRuntime \<Rightarrow> nat list" where
  "dirty_slots res =
     (let pi = process_image (rn_image_program res)
      in concat (map (\<lambda>(area, bytes, base). concat (map (\<lambda>byte.
           map (\<lambda>k. (base + byte) * 8 + k)
             (filter (\<lambda>k. bit (transaction_dirty (rn_image res) area byte) k) [0..<8])) [0..<bytes]))
         [(PA_output, pi_output_bytes pi, 0), (PA_memory, pi_memory_bytes pi, pi_output_bytes pi)]))"

definition record_writes :: "'v ResourceRuntime \<Rightarrow> nat \<Rightarrow> nat \<Rightarrow> 'v ResourceRuntime" where
  "record_writes res t tick =
     (case fold (record_bit (saturating_next tick) (t + 1)) (dirty_slots res)
        (rn_write_stamps res, rn_write_owners res, False) of
        (stamps, owners, conflict) \<Rightarrow>
          let res1 = res\<lparr> rn_write_stamps := stamps, rn_write_owners := owners \<rparr>
          in if conflict
             then res1\<lparr> rn_storage := (rn_storage res1)\<lparr> rr_status := (resource_status res1)
               \<lparr> rs_write_conflict_count := rs_write_conflict_count (resource_status res1) + 1 \<rparr> \<rparr> \<rparr>
             else res1)"

definition complete_task :: "'v ResourceRuntime \<Rightarrow> nat \<Rightarrow> 'v ResourceRuntime option" where
  "complete_task res t =
     do { res1 \<leftarrow> (if ts_transaction_active (storage_at res t)
            then let r = record_writes res t (ts_release_tick (storage_at res t))
              in do { im \<leftarrow> commit_transaction (rn_image r);
                      Some (upd_storage t (\<lambda>s. s\<lparr> ts_transaction_active := False \<rparr>)
                        (r\<lparr> rn_image := im, rn_owner := None \<rparr>)) }
            else Some res);
          Some (upd_task t (\<lambda>tk. tk\<lparr> tk_parked := False \<rparr>)
            (upd_status t (\<lambda>s. s\<lparr> st_state := TS_idle, st_remaining_budget := 0,
               st_completed_count := st_completed_count s + 1 \<rparr>) res1)) }"


section \<open>Faults\<close>

definition fault_location ::
  "'v instance_ops \<Rightarrow> Program \<Rightarrow> 'v MappingRuntime \<Rightarrow> TaskStatus \<Rightarrow> TaskStatus"
where
  "fault_location ops p m s =
     (let inst = mr_instance m;
          s1 = (case index_where (\<lambda>po. po_lower po = program_name (mr_program m)) (pb_pous (body p)) of
                  None \<Rightarrow> s | Some i \<Rightarrow> s\<lparr> st_fault_pou_index := i \<rparr>);
          s2 = s1\<lparr> st_fault_instruction := op_instruction_offset ops inst,
                   st_fault_sfc_index := op_fault_sfc_network_index ops inst,
                   st_fault_element_kind := op_fault_sfc_element_kind ops inst \<rparr>
      in case st_fault_element_kind s2 of
           FE_transition \<Rightarrow> s2\<lparr> st_fault_transition_index := op_fault_sfc_element_index ops inst \<rparr>
         | FE_action \<Rightarrow> s2\<lparr> st_fault_action_index := op_fault_sfc_element_index ops inst \<rparr>
         | FE_none \<Rightarrow> s2)"

definition current_mapping :: "'v ResourceRuntime \<Rightarrow> nat \<Rightarrow> nat option" where
  "current_mapping res t =
     (let cursor = ts_mapping_cursor (storage_at res t); ms = task_mappings res t
      in if cursor < length ms \<and> ms ! cursor < length (rn_mappings res) then Some (ms ! cursor) else None)"

definition abort_mappings :: "'v instance_ops \<Rightarrow> nat \<Rightarrow> 'v ResourceRuntime \<Rightarrow> 'v ResourceRuntime" where
  "abort_mappings ops t res =
     fold (\<lambda>m r. if m < length (rn_mappings r) then upd_instance m (op_abort ops) r else r)
       (task_mappings res t) res"

definition fault_task ::
  "'v instance_ops \<Rightarrow> Program \<Rightarrow> 'v ResourceRuntime \<Rightarrow> nat \<Rightarrow> TaskFault \<Rightarrow> nat option \<Rightarrow>
    'v ResourceRuntime option"
where
  "fault_task ops p res t fault mapping =
     do { res1 \<leftarrow> discard_transaction (upd_status t (\<lambda>s. s\<lparr> st_state := TS_faulted, st_fault := fault,
            st_fault_count := st_fault_count s + 1 \<rparr>) res) t;
          let res2 = upd_task t (\<lambda>tk. tk\<lparr> tk_parked := False \<rparr>) res1;
              m = (case mapping of None \<Rightarrow> current_mapping res2 t | Some i \<Rightarrow> Some i);
              res3 = (case m of None \<Rightarrow> res2
                | Some i \<Rightarrow> upd_status t (fault_location ops p (rn_mappings res2 ! i)) res2)
          in Some (abort_mappings ops t res3) }"

definition abort_task :: "'v instance_ops \<Rightarrow> nat \<Rightarrow> 'v ResourceRuntime \<Rightarrow> 'v ResourceRuntime" where
  "abort_task ops t res =
     upd_storage t (\<lambda>s. s\<lparr> ts_status := (if st_state (ts_status s) = TS_running
         then (ts_status s)\<lparr> st_state := TS_idle \<rparr> else ts_status s), ts_transaction_active := False \<rparr>)
       (abort_mappings ops t res)"

definition abort_resource :: "'v instance_ops \<Rightarrow> 'v ResourceRuntime \<Rightarrow> 'v ResourceRuntime option" where
  "abort_resource ops res =
     do { res1 \<leftarrow> (case rn_owner res of
            None \<Rightarrow> Some res
          | Some _ \<Rightarrow> do { im \<leftarrow> discard_scan (rn_image res);
                           Some (res\<lparr> rn_image := im, rn_owner := None \<rparr>) });
          Some (fold (abort_task ops) [0..<length (rn_tasks res1)] res1) }"


section \<open>Tick boundaries\<close>

definition task_period :: "int \<Rightarrow> 'v ResourceRuntime \<Rightarrow> ProgramMappingInfo \<Rightarrow> int" where
  "task_period base res m =
     (case find (\<lambda>t. ti_lower t = pm_task m) (ri_tasks (rn_info res)) of
        None \<Rightarrow> 0
      | Some t \<Rightarrow>
          (case ti_kind t of
             TK_event \<Rightarrow> base
           | TK_periodic \<Rightarrow> if int (ti_interval_ticks t) > int64_max div base then 0
               else int (ti_interval_ticks t) * base))"

text \<open>One mapping of a task being reset or restarted.\<close>

definition renew_mapping ::
  "'v instance_ops \<Rightarrow> int \<Rightarrow> bool \<Rightarrow> nat \<Rightarrow> 'v ResourceRuntime \<Rightarrow> 'v ResourceRuntime"
where
  "renew_mapping ops base restart m res =
     (if m \<ge> length (rn_mappings res) then res
      else if restart
      then let mr = rn_mappings res ! m
        in upd_instance m (\<lambda>v. op_defer ops (fst (op_load ops v (mr_program mr) (mr_bytes mr)
             (task_period base res (mr_info mr)) (rn_image res))) True) res
      else upd_instance m (op_reset ops) res)"

definition renew_task ::
  "'v instance_ops \<Rightarrow> int \<Rightarrow> bool \<Rightarrow> 'v ResourceRuntime \<Rightarrow> nat \<Rightarrow> nat \<Rightarrow> 'v ResourceRuntime option"
where
  "renew_task ops base restart res t tick =
     do { res1 \<leftarrow> discard_transaction res t;
          let res2 = fold (renew_mapping ops base restart) (task_mappings res1 t) res1;
              old = status_at res t;
              st = initial_task_status\<lparr> st_release_count := st_release_count old,
                st_completed_count := st_completed_count old, st_fault_count := st_fault_count old \<rparr>
          in Some (upd_task t (\<lambda>tk. tk\<lparr> tk_storage := initial_task_storage
                 \<lparr> ts_status := st, ts_eligible_tick := saturating_next tick \<rparr>, tk_parked := False \<rparr>) res2) }"

definition apply_pending ::
  "'v instance_ops \<Rightarrow> Program \<Rightarrow> int \<Rightarrow> nat \<Rightarrow> nat \<Rightarrow> 'v ResourceRuntime \<Rightarrow> 'v ResourceRuntime option"
where
  "apply_pending ops p base tick t res =
     do { res1 \<leftarrow> (if ts_pending_wallclock_fault (storage_at res t)
            then let r = upd_storage t (\<lambda>s. s\<lparr> ts_pending_wallclock_fault := False \<rparr>) res
              in if st_state (status_at r t) = TS_running
                 then fault_task ops p r t TF_task_wallclock_exceeded None else Some r
            else Some res);
          if \<not> ts_pending_reset (storage_at res1 t) \<and> \<not> ts_pending_restart (storage_at res1 t)
          then Some res1
          else renew_task ops base (ts_pending_restart (storage_at res1 t))
            (upd_storage t (\<lambda>s. s\<lparr> ts_pending_reset := False, ts_pending_restart := False \<rparr>) res1) t tick }"

definition event_level :: "ResourceInfo \<Rightarrow> TaskInfo \<Rightarrow> EventSample list \<Rightarrow> bool" where
  "event_level ri ti events = foldl (\<lambda>level e.
     if same_name (ri_lower ri) (es_resource e) \<and> same_name (ti_event ti) (es_event e)
     then es_level e else level) False events"

text \<open>Whether a task is due, and the event level to remember.\<close>

definition task_due :: "ResourceInfo \<Rightarrow> TaskInfo \<Rightarrow> bool \<Rightarrow> nat \<Rightarrow> EventSample list \<Rightarrow> bool \<times> bool" where
  "task_due ri ti prior tick events =
     (case ti_kind ti of
        TK_periodic \<Rightarrow> (tick \<ge> ti_phase_ticks ti \<and>
          (tick - ti_phase_ticks ti) mod ti_interval_ticks ti = 0, prior)
      | TK_event \<Rightarrow> (event_level ri ti events \<and> \<not> prior, event_level ri ti events))"

definition release ::
  "nat \<Rightarrow> EventSample list \<Rightarrow> nat \<Rightarrow> 'v ResourceRuntime \<Rightarrow> 'v ResourceRuntime option"
where
  "release tick events t res =
     (let ti = tk_info (rn_tasks res ! t);
          (due, level) = task_due (rn_info res) ti (ts_last_event_level (storage_at res t)) tick events;
          res1 = upd_storage t (\<lambda>s. s\<lparr> ts_last_event_level := level \<rparr>) res;
          st = st_state (status_at res1 t)
      in if \<not> due \<or> st = TS_faulted \<or> st = TS_paused \<or> tick < ts_eligible_tick (storage_at res1 t)
         then Some res1
         else if st = TS_running
         then Some (upd_status t (\<lambda>s. s\<lparr> st_missed_release_count := st_missed_release_count s + 1 \<rparr>) res1)
         else let res2 = upd_storage t (\<lambda>s. s\<lparr> ts_status := (ts_status s)\<lparr> st_state := TS_running,
                    st_remaining_budget := ti_instruction_budget ti,
                    st_release_count := st_release_count (ts_status s) + 1 \<rparr>,
                  ts_release_tick := tick, ts_mapping_cursor := 0 \<rparr>) res1
           in if ti_mappings ti = [] then complete_task res2 t else Some res2)"

definition boundary_resource ::
  "'v instance_ops \<Rightarrow> Program \<Rightarrow> int \<Rightarrow> nat \<Rightarrow> EventSample list \<Rightarrow> 'v ResourceRuntime \<Rightarrow>
    'v ResourceRuntime option"
where
  "boundary_resource ops p base tick events res =
     do { let st = (rn_storage res)\<lparr> rr_boundary_tick := tick \<rparr>;
              fault = rr_pending_fault st
          in do {
            res1 \<leftarrow> (if fault \<noteq> RF_none
              then abort_resource ops (res\<lparr> rn_storage := st\<lparr> rr_status := (rr_status st)\<lparr> rs_fault := fault,
                     rs_fault_count := rs_fault_count (rr_status st) + 1 \<rparr>, rr_pending_fault := RF_none \<rparr> \<rparr>)
              else Some (res\<lparr> rn_storage := st \<rparr>));
            res2 \<leftarrow> fold_some (apply_pending ops p base tick) [0..<length (rn_tasks res1)] res1;
            if rs_fault (resource_status res2) \<noteq> RF_none then Some res2
            else fold_some (release tick events) [0..<length (rn_tasks res2)] res2 } }"

definition boundary ::
  "'v instance_ops \<Rightarrow> 'v ConfigurationRuntime \<Rightarrow> nat \<Rightarrow> EventSample list option \<Rightarrow> nat \<Rightarrow>
    ('v ConfigurationRuntime \<times> ErrorCode) option"
where
  "boundary ops cr tick events n =
     (if \<not> cr_loaded cr \<or> (n \<noteq> 0 \<and> events = None) \<or> (cr_have_boundary cr \<and> tick \<le> cr_last_boundary cr)
      then Some (cr, EC_invalid_argument)
      else do {
        rs \<leftarrow> map_some (boundary_resource ops (the (cr_program cr)) (cr_base_tick_ns cr) tick
               (if n = 0 then [] else take n (the events))) (cr_resources cr);
        Some (cr\<lparr> cr_have_boundary := True, cr_last_boundary := tick, cr_resources := rs \<rparr>, EC_ok) })"


section \<open>Execution\<close>

definition runnable :: "'v ResourceRuntime \<Rightarrow> nat \<Rightarrow> bool" where
  "runnable res t \<longleftrightarrow> st_state (status_at res t) = TS_running"

text \<open>\<open>next_runnable\<close> for one resource: the resource (a stale transaction discarded on the way) and the
  task it offers.\<close>

definition runnable_in :: "'v ResourceRuntime \<Rightarrow> ('v ResourceRuntime \<times> nat option) option" where
  "runnable_in res =
     (if rs_fault (resource_status res) \<noteq> RF_none then Some (res, None)
      else case rn_owner res of
        Some t \<Rightarrow>
          if t < length (rn_tasks res) \<and> runnable res t then Some (res, Some t)
          else do { im \<leftarrow> discard_scan (rn_image res);
                    let res1 = res\<lparr> rn_image := im, rn_owner := None \<rparr>
                    in Some (res1, find (runnable res1) (rn_schedule res1)) }
      | None \<Rightarrow> Some (res, find (runnable res) (rn_schedule res)))"

primrec next_runnable ::
  "'v ResourceRuntime list \<Rightarrow> ('v ResourceRuntime list \<times> (nat \<times> nat) option) option"
where
  "next_runnable [] = Some ([], None)"
| "next_runnable (res # rs) =
     do { (res', t) \<leftarrow> runnable_in res;
          case t of
            Some i \<Rightarrow> Some (res' # rs, Some (0, i))
          | None \<Rightarrow> do { (rs', next) \<leftarrow> next_runnable rs;
                      Some (res' # rs', map_option (\<lambda>(r, i). (Suc r, i)) next) } }"

datatype run_control = Run_continue | Run_break | Run_return ErrorCode

text \<open>The start of a task's transaction, resumed from its parked image where it has one. \<open>Inr\<close> is the
  resource to run on, \<open>Inl\<close> the resource after a fault.\<close>

definition open_transaction ::
  "'v instance_ops \<Rightarrow> Program \<Rightarrow> 'v ResourceRuntime \<Rightarrow> nat \<Rightarrow> ('v ResourceRuntime + 'v ResourceRuntime) option"
where
  "open_transaction ops p res t =
     do { im \<leftarrow> begin_transaction (rn_image res) (of_nat t) (of_nat (st_release_count (status_at res t)));
          let res1 = upd_storage t (\<lambda>s. s\<lparr> ts_transaction_active := True \<rparr>)
                (res\<lparr> rn_image := im, rn_owner := Some t \<rparr>);
              tk = rn_tasks res1 ! t
          in if \<not> tk_parked tk then Some (Inr res1)
             else case restore_transaction (rn_image res1) (tk_parked_image tk)
                 (tk_output_bytes tk) (tk_memory_bytes tk) of
               (im2, True) \<Rightarrow> Some (Inr (upd_task t (\<lambda>tk. tk\<lparr> tk_parked := False \<rparr>) (res1\<lparr> rn_image := im2 \<rparr>)))
             | (im2, False) \<Rightarrow> map_option Inl (fault_task ops p (res1\<lparr> rn_image := im2 \<rparr>) t
                 TF_task_runtime_fault None) }"

definition pause_task :: "'v ResourceRuntime \<Rightarrow> nat \<Rightarrow> 'v ResourceRuntime option" where
  "pause_task res t =
     (let tk = rn_tasks res ! t;
          parked = park_transaction (rn_image res) (tk_output_bytes tk) (tk_memory_bytes tk);
          res1 = upd_task t (\<lambda>tk. tk\<lparr> tk_parked := (parked \<noteq> None),
            tk_parked_image := (case parked of None \<Rightarrow> tk_parked_image tk | Some pk \<Rightarrow> pk) \<rparr>) res
      in discard_transaction (upd_status t (\<lambda>s. s\<lparr> st_state := TS_paused \<rparr>) res1) t)"

definition scan_fault :: "ScanError \<Rightarrow> TaskFault" where
  "scan_fault e = (if e = Scan_budget_exceeded then TF_task_budget_exceeded else TF_task_runtime_fault)"

text \<open>After the transaction is open: start the instance of the current mapping if it is not running,
  then give it the rest of the quantum.\<close>

definition start_mapping ::
  "'v instance_ops \<Rightarrow> 'v ResourceRuntime \<Rightarrow> nat \<Rightarrow> nat \<Rightarrow> ('v ResourceRuntime \<times> ScanError) option"
where
  "start_mapping ops res t m =
     (if op_running ops (mr_instance (rn_mappings res ! m)) then Some (res, Scan_ok)
      else do { (v, im, e) \<leftarrow> op_begin ops (mr_instance (rn_mappings res ! m))
                  (st_remaining_budget (status_at res t)) (rn_image res);
                Some (upd_instance m (\<lambda>_. v) (res\<lparr> rn_image := im \<rparr>), e) })"

definition resume_mapping ::
  "'v instance_ops \<Rightarrow> Program \<Rightarrow> 'v ResourceRuntime \<Rightarrow> nat \<Rightarrow> nat \<Rightarrow> int \<Rightarrow>
    ('v ResourceRuntime \<times> int \<times> run_control) option"
where
  "resume_mapping ops p res t m quantum =
     do { (v, im, executed, result) \<leftarrow>
            op_resume ops (mr_instance (rn_mappings res ! m)) quantum (rn_image res);
          let res1 = upd_status t (\<lambda>s. s\<lparr> st_remaining_budget := op_remaining_budget ops v \<rparr>)
                (upd_instance m (\<lambda>_. v) (res\<lparr> rn_image := im \<rparr>));
              quantum1 = quantum - executed
          in if result = Scan_paused
             then do { res2 \<leftarrow> pause_task res1 t; Some (res2, quantum1, Run_continue) }
             else if result \<noteq> Scan_ok
             then do { res2 \<leftarrow> fault_task ops p res1 t (scan_fault result) (Some m);
                       Some (res2, quantum1, Run_continue) }
             else do {
               res2 \<leftarrow> (if op_complete ops v
                 then let r = upd_storage t (\<lambda>s. s\<lparr> ts_mapping_cursor := ts_mapping_cursor s + 1 \<rparr>) res1
                   in if ts_mapping_cursor (storage_at r t) \<ge> length (task_mappings r t)
                      then complete_task r t else Some r
                 else Some res1);
               Some (res2, quantum1, if executed = 0 then Run_break else Run_continue) } }"

text \<open>One round of the \<open>run\<close> loop for the task \<open>t\<close> of one resource.\<close>

definition run_task ::
  "'v instance_ops \<Rightarrow> Program \<Rightarrow> 'v ResourceRuntime \<Rightarrow> nat \<Rightarrow> int \<Rightarrow>
    ('v ResourceRuntime \<times> int \<times> run_control) option"
where
  "run_task ops p res t quantum =
     (if ts_mapping_cursor (storage_at res t) \<ge> length (task_mappings res t)
      then do { res1 \<leftarrow> complete_task res t; Some (res1, quantum, Run_continue) }
      else if \<not> ts_transaction_active (storage_at res t) \<and> rn_owner res \<noteq> None \<and> rn_owner res \<noteq> Some t
      then Some (res, quantum, Run_return EC_invalid_argument)
      else do {
        opened \<leftarrow> (if ts_transaction_active (storage_at res t) then Some (Inr res)
          else open_transaction ops p res t);
        case opened of
          Inl res1 \<Rightarrow> Some (res1, quantum, Run_continue)
        | Inr res1 \<Rightarrow>
            let m = task_mappings res1 t ! ts_mapping_cursor (storage_at res1 t)
            in if m \<ge> length (rn_mappings res1)
               then do { res2 \<leftarrow> fault_task ops p res1 t TF_task_runtime_fault None;
                         Some (res2, quantum, Run_continue) }
               else do {
                 (res2, started) \<leftarrow> start_mapping ops res1 t m;
                 if started \<noteq> Scan_ok
                 then do { res3 \<leftarrow> fault_task ops p res2 t (scan_fault started) (Some m);
                           Some (res3, quantum, Run_continue) }
                 else resume_mapping ops p res2 t m quantum } })"

definition run_round ::
  "'v instance_ops \<Rightarrow> 'v ConfigurationRuntime \<Rightarrow> int \<Rightarrow> ('v ConfigurationRuntime \<times> int \<times> run_control) option"
where
  "run_round ops cr quantum =
     do { (rs, next) \<leftarrow> next_runnable (cr_resources cr);
          let cr1 = cr\<lparr> cr_resources := rs \<rparr>
          in case next of
               None \<Rightarrow> Some (cr1, quantum, Run_break)
             | Some (r, t) \<Rightarrow>
                 do { (res, quantum1, c) \<leftarrow> run_task ops (the (cr_program cr1)) (rs ! r) t quantum;
                      Some (cr1\<lparr> cr_resources := rs[r := res] \<rparr>, quantum1, c) } }"

text \<open>The loop, with fuel; \<open>run\<close> takes the fuel that always suffices.\<close>

fun run_loop ::
  "'v instance_ops \<Rightarrow> nat \<Rightarrow> 'v ConfigurationRuntime \<Rightarrow> int \<Rightarrow> ('v ConfigurationRuntime \<times> ErrorCode) option"
where
  "run_loop ops fuel cr quantum =
     (if quantum \<le> 0 then Some (cr, EC_ok)
      else case fuel of
        0 \<Rightarrow> None
      | Suc n \<Rightarrow>
          (case run_round ops cr quantum of
             None \<Rightarrow> None
           | Some (cr1, quantum1, Run_continue) \<Rightarrow> run_loop ops n cr1 quantum1
           | Some (cr1, quantum1, Run_break) \<Rightarrow> Some (cr1, EC_ok)
           | Some (cr1, quantum1, Run_return e) \<Rightarrow> Some (cr1, e)))"

definition running_tasks :: "'v ResourceRuntime \<Rightarrow> nat" where
  "running_tasks res = length (filter (runnable res) [0..<length (rn_tasks res)])"

definition run_fuel :: "'v ConfigurationRuntime \<Rightarrow> int \<Rightarrow> nat" where
  "run_fuel cr quantum = nat quantum + sum_list (map running_tasks (cr_resources cr)) + 1"

definition run ::
  "'v instance_ops \<Rightarrow> 'v ConfigurationRuntime \<Rightarrow> int \<Rightarrow> ('v ConfigurationRuntime \<times> ErrorCode) option"
where
  "run ops cr quantum =
     (if \<not> cr_loaded cr \<or> quantum < 0 then Some (cr, EC_invalid_argument)
      else run_loop ops (run_fuel cr quantum) cr quantum)"

declare run_loop.simps [simp del]


section \<open>Queries and requests by name\<close>

definition find_resource :: "'v ConfigurationRuntime \<Rightarrow> string option \<Rightarrow> nat option" where
  "find_resource cr name = (if name = None then None
     else index_where (\<lambda>r. same_name (ri_lower (rn_info r)) name) (cr_resources cr))"

definition find_task :: "'v ResourceRuntime \<Rightarrow> string option \<Rightarrow> nat option" where
  "find_task res name = (if name = None then None
     else index_where (\<lambda>tk. same_name (ti_lower (tk_info tk)) name) (rn_tasks res))"

definition find_both ::
  "'v ConfigurationRuntime \<Rightarrow> string option \<Rightarrow> string option \<Rightarrow> (nat \<times> nat) option"
where
  "find_both cr resource task = (case find_resource cr resource of None \<Rightarrow> None
     | Some r \<Rightarrow> map_option (Pair r) (find_task (cr_resources cr ! r) task))"

definition task_status ::
  "'v ConfigurationRuntime \<Rightarrow> string option \<Rightarrow> string option \<Rightarrow> ErrorCode + TaskStatus"
where
  "task_status cr resource task = (case find_both cr resource task of
     None \<Rightarrow> Inl EC_invalid_argument | Some (r, t) \<Rightarrow> Inr (status_at (cr_resources cr ! r) t))"

definition query_resource_status ::
  "'v ConfigurationRuntime \<Rightarrow> string option \<Rightarrow> ErrorCode + ResourceStatus"
where
  "query_resource_status cr resource = (case find_resource cr resource of
     None \<Rightarrow> Inl EC_invalid_argument | Some r \<Rightarrow> Inr (resource_status (cr_resources cr ! r)))"

definition upd_resource ::
  "nat \<Rightarrow> ('v ResourceRuntime \<Rightarrow> 'v ResourceRuntime) \<Rightarrow> 'v ConfigurationRuntime \<Rightarrow> 'v ConfigurationRuntime"
where
  "upd_resource r f cr = cr\<lparr> cr_resources := (cr_resources cr)[r := f (cr_resources cr ! r)] \<rparr>"

definition resource_output_snapshot ::
  "'v ConfigurationRuntime \<Rightarrow> string option \<Rightarrow> bool \<Rightarrow> nat \<Rightarrow>
    (ErrorCode + image_message \<times> 'v ConfigurationRuntime) option"
where
  "resource_output_snapshot cr name has_bytes capacity = (case find_resource cr name of
     None \<Rightarrow> Some (Inl EC_invalid_argument)
   | Some r \<Rightarrow> do { s \<leftarrow> output_snapshot (rn_image (cr_resources cr ! r)) has_bytes capacity;
       Some (case s of Inl e \<Rightarrow> Inl e
         | Inr (m, im) \<Rightarrow> Inr (m, upd_resource r (\<lambda>res. res\<lparr> rn_image := im \<rparr>) cr)) })"

definition resource_memory_snapshot ::
  "'v ConfigurationRuntime \<Rightarrow> string option \<Rightarrow> bool \<Rightarrow> nat \<Rightarrow>
    (ErrorCode + image_message \<times> 'v ConfigurationRuntime) option"
where
  "resource_memory_snapshot cr name has_bytes capacity = (case find_resource cr name of
     None \<Rightarrow> Some (Inl EC_invalid_argument)
   | Some r \<Rightarrow> do { s \<leftarrow> memory_snapshot (rn_image (cr_resources cr ! r)) has_bytes capacity;
       Some (case s of Inl e \<Rightarrow> Inl e
         | Inr (m, im) \<Rightarrow> Inr (m, upd_resource r (\<lambda>res. res\<lparr> rn_image := im \<rparr>) cr)) })"

definition resource_submit_input ::
  "'v ConfigurationRuntime \<Rightarrow> string option \<Rightarrow> bytes option \<Rightarrow> nat \<Rightarrow> u64 \<Rightarrow>
    ('v ConfigurationRuntime \<times> ErrorCode) option"
where
  "resource_submit_input cr name data n version = (case find_resource cr name of
     None \<Rightarrow> Some (cr, EC_invalid_argument)
   | Some r \<Rightarrow> do { (im, e) \<leftarrow> submit_input (rn_image (cr_resources cr ! r)) data n version;
       Some (upd_resource r (\<lambda>res. res\<lparr> rn_image := im \<rparr>) cr, e) })"

definition report_wallclock_exceeded ::
  "'v ConfigurationRuntime \<Rightarrow> string option \<Rightarrow> string option \<Rightarrow> 'v ConfigurationRuntime \<times> ErrorCode"
where
  "report_wallclock_exceeded cr resource task = (case find_both cr resource task of
     None \<Rightarrow> (cr, EC_invalid_argument)
   | Some (r, t) \<Rightarrow>
       (upd_resource r (upd_storage t (\<lambda>s. s\<lparr> ts_pending_wallclock_fault := True \<rparr>)) cr, EC_ok))"

definition resource_force_queue_version :: "'v ConfigurationRuntime \<Rightarrow> string option \<Rightarrow> u64" where
  "resource_force_queue_version cr name = (case find_resource cr name of
     None \<Rightarrow> 0 | Some r \<Rightarrow> im_force_queue_version (rn_image (cr_resources cr ! r)))"

definition queue_task_action ::
  "'v ConfigurationRuntime \<Rightarrow> string option \<Rightarrow> string option \<Rightarrow> bool \<Rightarrow> 'v ConfigurationRuntime \<times> ErrorCode"
where
  "queue_task_action cr resource task restart = (case find_both cr resource task of
     None \<Rightarrow> (cr, EC_invalid_argument)
   | Some (r, t) \<Rightarrow> (upd_resource r (upd_storage t (\<lambda>s. if restart
       then s\<lparr> ts_pending_restart := True \<rparr> else s\<lparr> ts_pending_reset := True \<rparr>)) cr, EC_ok))"

definition reset_task where "reset_task cr resource task = queue_task_action cr resource task False"
definition restart_task where "restart_task cr resource task = queue_task_action cr resource task True"

definition report_resource_fault ::
  "'v ConfigurationRuntime \<Rightarrow> string option \<Rightarrow> ResourceFault \<Rightarrow> 'v ConfigurationRuntime \<times> ErrorCode"
where
  "report_resource_fault cr name fault = (case find_resource cr name of
     None \<Rightarrow> (cr, EC_invalid_argument)
   | Some r \<Rightarrow> if fault = RF_none then (cr, EC_invalid_argument)
       else (upd_resource r (\<lambda>res. res\<lparr> rn_storage := (rn_storage res)\<lparr> rr_pending_fault := fault \<rparr> \<rparr>) cr, EC_ok))"

end
