(* ===== verification/ConfigLoad.thy ===== *)
theory ConfigLoad
  imports ConfigRuntime
begin

text \<open>
  Loading a configuration (\<open>load\<close>, \<open>take\<close>, \<open>build_image_program\<close> and the location predicates of
  \<open>core/st/configuration_runtime.h\<close>). The caller's buffer is its size; \<open>take\<close> moves a cursor through
  it. The merged process image of a resource combines the located variables of its programs.
\<close>

section \<open>Carving the buffer\<close>

definition take_bytes :: "nat \<Rightarrow> nat \<Rightarrow> nat \<Rightarrow> nat option" where
  "take_bytes limit cursor bytes =
     (let aligned = align_runtime bytes
      in if cursor > limit \<or> aligned > limit - cursor then None else Some (cursor + aligned))"

text \<open>A \<open>take\<close> whose null result is looked at later: the cursor and whether it succeeded.\<close>

definition try_take :: "nat \<Rightarrow> nat \<times> bool \<Rightarrow> nat \<Rightarrow> nat \<times> bool" where
  "try_take limit co bytes = (case take_bytes limit (fst co) bytes of
     None \<Rightarrow> (fst co, False) | Some c \<Rightarrow> (c, snd co))"


section \<open>Locations\<close>

definition same_location :: "LocatedVarInfo \<Rightarrow> LocatedVarInfo \<Rightarrow> bool" where
  "same_location a b \<longleftrightarrow> lv_area a = lv_area b \<and> lv_byte_offset a = lv_byte_offset b \<and>
     lv_bit a = lv_bit b \<and> lv_bit_address a = lv_bit_address b \<and> lv_type_id a = lv_type_id b \<and>
     lv_byte_width a = lv_byte_width b"

definition overlaps :: "LocatedVarInfo \<Rightarrow> LocatedVarInfo \<Rightarrow> bool" where
  "overlaps a b \<longleftrightarrow> lv_area a = lv_area b \<and> physical_begin a < physical_end b \<and>
     physical_begin b < physical_end a"

definition compatible_input_alias :: "LocatedVarInfo \<Rightarrow> LocatedVarInfo \<Rightarrow> bool" where
  "compatible_input_alias a b =
     (if lv_area a \<noteq> PA_input \<or> lv_area b \<noteq> PA_input \<or> \<not> overlaps a b then False
      else if physical_begin a = physical_begin b \<and> physical_end a = physical_end b then True
      else if lv_bit_address a \<and> \<not> lv_bit_address b
      then physical_begin a \<ge> physical_begin b \<and> physical_begin a < physical_end b
      else if \<not> lv_bit_address a \<and> lv_bit_address b
      then physical_begin b \<ge> physical_begin a \<and> physical_begin b < physical_end a
      else False)"

definition same_initial_value :: "bytes \<Rightarrow> LocatedVarInfo \<Rightarrow> bytes \<Rightarrow> LocatedVarInfo \<Rightarrow> bool" where
  "same_initial_value data var merged_data merged \<longleftrightarrow>
     lv_var_offset var + lv_byte_width var \<le> length data \<and>
     lv_var_offset merged + lv_byte_width merged \<le> length merged_data \<and>
     seg data (lv_var_offset var) (lv_byte_width var) =
     seg merged_data (lv_var_offset merged) (lv_byte_width var)"


section \<open>The merged image\<close>

text \<open>The search of one variable among those of earlier programs: \<open>None\<close> is the incompatible overlap
  (\<open>return false\<close>), \<open>Some\<close> tells whether the variable is there already.\<close>

fun find_merged ::
  "bytes \<Rightarrow> bytes \<Rightarrow> LocatedVarInfo \<Rightarrow> LocatedVarInfo list \<Rightarrow> bool option"
where
  "find_merged data merged_data var [] = Some False"
| "find_merged data merged_data var (existing # rest) =
     (if \<not> overlaps existing var then find_merged data merged_data var rest
      else if lv_area var = PA_input
      then if \<not> compatible_input_alias existing var then None
           else if same_location existing var then Some True
           else find_merged data merged_data var rest
      else if \<not> (lv_shared existing \<and> lv_shared var \<and> lv_stable_id existing = lv_stable_id var) \<or>
              \<not> same_location existing var \<or> \<not> same_initial_value data var merged_data existing
      then None else Some True)"

text \<open>The merged image so far: its variables and its initial data. \<open>prior\<close> are the variables of the
  programs before the current one.\<close>

definition merge_var ::
  "bytes \<Rightarrow> LocatedVarInfo list \<Rightarrow> LocatedVarInfo \<Rightarrow> LocatedVarInfo list \<times> bytes \<Rightarrow>
    (LocatedVarInfo list \<times> bytes) option"
where
  "merge_var data prior var vd =
     (case find_merged data (snd vd) var prior of
        None \<Rightarrow> None
      | Some True \<Rightarrow> Some vd
      | Some False \<Rightarrow>
          if length (snd vd) > u32_max then None
          else if lv_var_offset var + lv_byte_width var > length data then None
          else Some (fst vd @ [var\<lparr> lv_var_offset := length (snd vd) \<rparr>],
                     snd vd @ seg data (lv_var_offset var) (lv_byte_width var)))"

definition merge_program ::
  "Program \<Rightarrow> ProcessImageInfo \<times> bytes \<Rightarrow> (ProcessImageInfo \<times> bytes) option"
where
  "merge_program p acc =
     (let img = fst acc; pi = process_image p;
          img1 = img\<lparr> pi_input_bytes := max (pi_input_bytes img) (pi_input_bytes pi),
            pi_output_bytes := max (pi_output_bytes img) (pi_output_bytes pi),
            pi_memory_bytes := max (pi_memory_bytes img) (pi_memory_bytes pi),
            pi_max_force_entries := max (pi_max_force_entries img) (pi_max_force_entries pi),
            pi_fingerprint := xor (pi_fingerprint img) (pi_fingerprint pi) \<rparr>
      in case fold_some (merge_var (initial_data p) (pi_variables img)) (pi_variables pi)
            (pi_variables img, snd acc) of
           None \<Rightarrow> None
         | Some (vs, data) \<Rightarrow> Some (img1\<lparr> pi_variables := vs \<rparr>, data))"

definition build_image_program :: "Program list \<Rightarrow> Program option" where
  "build_image_program ps =
     (case fold_some merge_program ps (empty_image\<lparr> pi_max_force_entries := 0 \<rparr>, []) of
        None \<Rightarrow> None
      | Some (img, data) \<Rightarrow>
          Some (Program (empty_body\<lparr> pb_process_image := img, pb_initial_data := data \<rparr>) []))"


section \<open>Loading\<close>

definition load_task :: "abi \<Rightarrow> nat \<Rightarrow> TaskInfo \<Rightarrow> TaskRuntime list \<times> nat \<Rightarrow> (TaskRuntime list \<times> nat) option" where
  "load_task a limit ti tc =
     (case take_bytes limit (snd tc) (sizeof_task_storage a) of
        None \<Rightarrow> None
      | Some c \<Rightarrow> Some (fst tc @ [\<lparr> tk_info = ti, tk_storage = initial_task_storage,
          tk_parked_image = \<lparr> pk_output = [], pk_output_dirty = [], pk_memory = [], pk_memory_dirty = [] \<rparr>,
          tk_output_bytes = 0, tk_memory_bytes = 0, tk_parked = False \<rparr>], c))"

definition load_mapping ::
  "'v instance_ops \<Rightarrow> abi \<Rightarrow> Program \<Rightarrow> nat \<Rightarrow> ProgramMappingInfo \<Rightarrow> 'v MappingRuntime list \<times> nat \<Rightarrow>
    ('v MappingRuntime list \<times> nat) option"
where
  "load_mapping ops a p limit mi mc =
     (case find_child p (pm_program mi) of
        None \<Rightarrow> None
      | Some c \<Rightarrow>
          (case take_bytes limit (snd mc) (required_bytes a c) of
             None \<Rightarrow> None
           | Some cursor \<Rightarrow> Some (fst mc @ [\<lparr> mr_info = mi, mr_program = c, mr_instance = op_new ops,
               mr_bytes = required_bytes a c \<rparr>], cursor)))"

definition load_parked :: "nat \<Rightarrow> nat \<Rightarrow> nat \<Rightarrow> TaskRuntime \<Rightarrow> TaskRuntime list \<times> nat \<Rightarrow> (TaskRuntime list \<times> nat) option" where
  "load_parked limit out mem tk tc =
     (let (c1, ok1) = try_take limit (try_take limit (snd tc, True) out) out;
          (c2, ok2) = try_take limit (try_take limit (c1, True) mem) mem
      in if (out \<noteq> 0 \<and> \<not> ok1) \<or> (mem \<noteq> 0 \<and> \<not> ok2) then None
         else Some (fst tc @ [tk\<lparr> tk_output_bytes := out, tk_memory_bytes := mem,
           tk_parked_image := \<lparr> pk_output = replicate out 0, pk_output_dirty = replicate out 0,
             pk_memory = replicate mem 0, pk_memory_dirty = replicate mem 0 \<rparr> \<rparr>], c2))"

definition load_instance ::
  "'v instance_ops \<Rightarrow> int \<Rightarrow> 'v ResourceRuntime \<Rightarrow> 'v MappingRuntime \<Rightarrow> 'v MappingRuntime option"
where
  "load_instance ops base res m =
     (let period = task_period base res (mr_info m)
      in if period \<le> 0 then None
         else case op_load ops (mr_instance m) (mr_program m) (mr_bytes m) period (rn_image res) of
           (v, e) \<Rightarrow> if e \<noteq> EC_ok then None else Some (m\<lparr> mr_instance := op_defer ops v True \<rparr>))"

definition task_schedule :: "TaskInfo list \<Rightarrow> nat list" where
  "task_schedule tis =
     sort_key (\<lambda>i. (ti_priority (tis ! i), ti_declaration_order (tis ! i))) [0..<length tis]"

definition image_total :: "Program \<Rightarrow> nat" where
  "image_total p = pi_input_bytes (process_image p) + pi_output_bytes (process_image p) +
     pi_memory_bytes (process_image p)"

definition load_resource ::
  "'v instance_ops \<Rightarrow> abi \<Rightarrow> Program \<Rightarrow> int \<Rightarrow> nat \<Rightarrow> ProcessImage \<Rightarrow> ResourceInfo \<Rightarrow>
    'v ResourceRuntime list \<times> nat \<Rightarrow> ('v ResourceRuntime list \<times> nat) option"
where
  "load_resource ops a p base limit blank ri rc =
     do { c0 \<leftarrow> take_bytes limit (snd rc) (sizeof_resource_storage a);
          (tasks, c1) \<leftarrow> fold_some (load_task a limit) (ri_tasks ri) ([], c0);
          (maps, c2) \<leftarrow> fold_some (load_mapping ops a p limit) (ri_mappings ri) ([], c1);
          ip \<leftarrow> build_image_program (map mr_program maps);
          c3 \<leftarrow> take_bytes limit c2 (image_total ip);
          case load_image blank ip True (image_total ip) of
            (im, e) \<Rightarrow>
              if e \<noteq> EC_ok then None
              else do {
                let out = pi_output_bytes (process_image ip); mem = pi_memory_bytes (process_image ip)
                in do {
                  (tasks', c4) \<leftarrow> fold_some (load_parked limit out mem) tasks ([], c3);
                  let res = \<lparr> rn_info = ri, rn_storage = initial_resource_storage, rn_image_program = ip,
                        rn_image = im, rn_tasks = tasks', rn_mappings = maps,
                        rn_schedule = task_schedule (ri_tasks ri),
                        rn_write_stamps = replicate ((out + mem) * 8) 0,
                        rn_write_owners = replicate ((out + mem) * 8) 0, rn_owner = None \<rparr>
                  in do {
                    maps' \<leftarrow> map_some (load_instance ops base res) maps;
                    Some (fst rc @ [res\<lparr> rn_mappings := maps' \<rparr>], c4) } } } }"

definition load_configuration ::
  "'v instance_ops \<Rightarrow> abi \<Rightarrow> ProcessImage \<Rightarrow> Program \<Rightarrow> string option \<Rightarrow> bool \<Rightarrow> bool \<Rightarrow> nat \<Rightarrow> int \<Rightarrow>
    'v ConfigurationRuntime \<times> ErrorCode"
where
  "load_configuration ops a blank p name has_buffer aligned buffer_bytes base =
     (if name = None \<or> \<not> has_buffer \<or> base \<le> 0 \<or> \<not> aligned then (unload, EC_invalid_argument)
      else case find (\<lambda>c. same_name (ci_lower c) name) (pb_configurations (body p)) of
        None \<Rightarrow> (unload, EC_invalid_argument)
      | Some c \<Rightarrow>
          if int (ci_base_tick_ns c) \<noteq> base then (unload, EC_invalid_argument)
          else case tasking_report a p name of
            Inl e \<Rightarrow> (unload, e)
          | Inr rep \<Rightarrow>
              if tr_required_runtime_bytes rep > buffer_bytes then (unload, EC_capacity_exceeded)
              else case fold_some (load_resource ops a p base buffer_bytes blank) (ci_resources c) ([], 0) of
                None \<Rightarrow> (unload, EC_invalid_argument)
              | Some (rs, cursor) \<Rightarrow>
                  (\<lparr> cr_program = Some p, cr_resources = rs, cr_base_tick_ns = base, cr_loaded = True,
                     cr_have_boundary = False, cr_last_boundary = 0 \<rparr>, EC_ok))"

end
