(* ===== verification/ConfigProps.thy ===== *)
theory ConfigProps
  imports ConfigLoad
begin

text \<open>
  The scheduler relies on its instances only through the contract \<open>scan_instance\<close>. Under it every
  operation of the configuration runtime returns, keeps the resource invariant, publishes an image
  only when a task completes, and the \<open>run\<close> loop ends within the fuel given by the quantum and the
  running tasks.
\<close>

section \<open>Frames\<close>

abbreviation layout_of :: "'v ResourceRuntime \<Rightarrow> ProcessImageInfo" where
  "layout_of res \<equiv> process_image (rn_image_program res)"

text \<open>What no operation changes.\<close>

definition static_part where
  "static_part res = (rn_info res, rn_image_program res, map tk_info (rn_tasks res),
     map mr_program (rn_mappings res), rn_schedule res, resource_status res)"

lemma upd_task_simps [simp]:
  "rn_info (upd_task t f res) = rn_info res"
  "rn_storage (upd_task t f res) = rn_storage res"
  "rn_image_program (upd_task t f res) = rn_image_program res"
  "rn_image (upd_task t f res) = rn_image res"
  "rn_mappings (upd_task t f res) = rn_mappings res"
  "rn_schedule (upd_task t f res) = rn_schedule res"
  "rn_write_stamps (upd_task t f res) = rn_write_stamps res"
  "rn_write_owners (upd_task t f res) = rn_write_owners res"
  "rn_owner (upd_task t f res) = rn_owner res"
  "length (rn_tasks (upd_task t f res)) = length (rn_tasks res)"
  by (simp_all add: upd_task_def)

lemma upd_task_at: "t < length (rn_tasks res) \<Longrightarrow>
    rn_tasks (upd_task t f res) ! u = (if u = t then f (rn_tasks res ! t) else rn_tasks res ! u)"
  by (simp add: upd_task_def)

lemma upd_storage_simps [simp]:
  "rn_info (upd_storage t f res) = rn_info res"
  "rn_storage (upd_storage t f res) = rn_storage res"
  "rn_image_program (upd_storage t f res) = rn_image_program res"
  "rn_image (upd_storage t f res) = rn_image res"
  "rn_mappings (upd_storage t f res) = rn_mappings res"
  "rn_schedule (upd_storage t f res) = rn_schedule res"
  "rn_write_stamps (upd_storage t f res) = rn_write_stamps res"
  "rn_write_owners (upd_storage t f res) = rn_write_owners res"
  "rn_owner (upd_storage t f res) = rn_owner res"
  "length (rn_tasks (upd_storage t f res)) = length (rn_tasks res)"
  by (simp_all add: upd_storage_def)

lemma upd_instance_simps [simp]:
  "rn_info (upd_instance m g res) = rn_info res"
  "rn_storage (upd_instance m g res) = rn_storage res"
  "rn_image_program (upd_instance m g res) = rn_image_program res"
  "rn_image (upd_instance m g res) = rn_image res"
  "rn_tasks (upd_instance m g res) = rn_tasks res"
  "rn_schedule (upd_instance m g res) = rn_schedule res"
  "rn_write_stamps (upd_instance m g res) = rn_write_stamps res"
  "rn_write_owners (upd_instance m g res) = rn_write_owners res"
  "rn_owner (upd_instance m g res) = rn_owner res"
  "length (rn_mappings (upd_instance m g res)) = length (rn_mappings res)"
  by (simp_all add: upd_instance_def)

lemma upd_instance_programs [simp]:
  "map mr_program (rn_mappings (upd_instance m g res)) = map mr_program (rn_mappings res)"
  by (cases "m < length (rn_mappings res)") (simp_all add: upd_instance_def map_update list_update_same_conv list_update_beyond)

lemma static_upd_task: "t < length (rn_tasks res) \<Longrightarrow> (\<And>tk. tk_info (f tk) = tk_info tk) \<Longrightarrow>
    static_part (upd_task t f res) = static_part res"
  by (simp add: static_part_def upd_task_def map_update list_update_same_conv)

lemma static_upd_storage: "t < length (rn_tasks res) \<Longrightarrow> static_part (upd_storage t f res) = static_part res"
  by (simp add: upd_storage_def static_upd_task)

lemma static_length: "static_part res' = static_part res \<Longrightarrow>
    length (rn_tasks res') = length (rn_tasks res) \<and> length (rn_mappings res') = length (rn_mappings res) \<and>
    rn_image_program res' = rn_image_program res \<and> rn_schedule res' = rn_schedule res \<and>
    rn_info res' = rn_info res \<and> resource_status res' = resource_status res \<and>
    map tk_info (rn_tasks res') = map tk_info (rn_tasks res) \<and>
    map mr_program (rn_mappings res') = map mr_program (rn_mappings res)"
  unfolding static_part_def by (metis (no_types, lifting) Pair_inject length_map)


section \<open>Images under the scheduler\<close>

lemma begin_transaction_published:
  assumes "image_wf im"
  shows "\<exists>im'. begin_transaction im owner rel = Some im' \<and> image_wf im' \<and> im_program im' = im_program im \<and>
    im_transaction_active im' \<and> published im' = published im"
  using begin_transaction_ok [OF assms, of owner rel] prepare_scan_boundary_ok [OF assms, of owner rel]
  by (auto simp: begin_transaction_def published_def)

lemma restore_transaction_ok:
  assumes "image_wf im" "im_program im = Some p" "im_transaction_active im" "parked_sizes (process_image p) pk"
  shows "\<exists>im'. restore_transaction im pk (pi_output_bytes (process_image p)) (pi_memory_bytes (process_image p)) =
      (im', True) \<and> image_wf im' \<and> im_program im' = im_program im \<and> im_transaction_active im' \<and>
      published im' = published im \<and>
      im_output im' = merge_parked (im_output im) (pk_output pk) (pk_output_dirty pk) \<and>
      im_memory im' = merge_parked (im_memory im) (pk_memory pk) (pk_memory_dirty pk)"
proof -
  have sz: "length (im_output_shadow im) = pi_output_bytes (process_image p)"
    "length (im_memory_shadow im) = pi_memory_bytes (process_image p)"
    using assms(1,2) by (auto simp: image_wf_def sizes_ok_def)
  let ?r = "restore_transaction im pk (pi_output_bytes (process_image p)) (pi_memory_bytes (process_image p))"
  have r: "snd ?r" "published (fst ?r) = published im"
    "im_output (fst ?r) = merge_parked (im_output im) (pk_output pk) (pk_output_dirty pk)"
    "im_memory (fst ?r) = merge_parked (im_memory im) (pk_memory pk) (pk_memory_dirty pk)"
    using assms(3) sz by (simp_all add: restore_transaction_def published_def)
  have "parked_fits im pk" using assms(1,2,4) by (simp add: parked_fits_sizes)
  from restore_transaction_wf [OF assms(1) this, of _ _ "fst ?r" "snd ?r"] r assms(3) show ?thesis
    by (intro exI [where x = "fst ?r"]) (simp add: prod_eq_iff)
qed

lemma discard_image:
  assumes "image_wf im"
  shows "\<exists>im'. discard_scan im = Some im' \<and> image_wf im' \<and> im_program im' = im_program im \<and>
    \<not> im_transaction_active im' \<and> published im' = published im"
proof -
  obtain out ov mem mv where "channel_value (im_output_channel im) = Some (out, ov)"
    "channel_value (im_memory_channel im) = Some (mem, mv)" by (rule image_wf_published [OF assms])
  from discard_scan_ok [OF assms this] this show ?thesis by (auto simp: published_def)
qed


section \<open>The resource invariant\<close>

context scan_instance
begin

definition task_wf :: "ProcessImageInfo \<Rightarrow> TaskRuntime \<Rightarrow> bool" where
  "task_wf pi tk \<longleftrightarrow> tk_output_bytes tk = pi_output_bytes pi \<and> tk_memory_bytes tk = pi_memory_bytes pi \<and>
     parked_sizes pi (tk_parked_image tk)"

definition base_wf :: "'v ResourceRuntime \<Rightarrow> bool" where
  "base_wf res \<longleftrightarrow> image_wf (rn_image res) \<and> im_program (rn_image res) = Some (rn_image_program res) \<and>
     (\<forall>t < length (rn_tasks res). task_wf (layout_of res) (rn_tasks res ! t)) \<and>
     (\<forall>t \<in> set (rn_schedule res). t < length (rn_tasks res)) \<and>
     (\<forall>m < length (rn_mappings res). inv (rn_image_program res) (mr_instance (rn_mappings res ! m)) \<and>
       fits (rn_image_program res) (mr_program (rn_mappings res ! m))) \<and>
     (\<forall>t < length (rn_tasks res). ts_transaction_active (storage_at res t) \<longleftrightarrow> rn_owner res = Some t) \<and>
     (\<forall>t. rn_owner res = Some t \<longrightarrow> t < length (rn_tasks res)) \<and>
     (im_transaction_active (rn_image res) \<longleftrightarrow> rn_owner res \<noteq> None)"

lemma base_wfD:
  assumes "base_wf res"
  shows "image_wf (rn_image res)" "im_program (rn_image res) = Some (rn_image_program res)"
    and "t < length (rn_tasks res) \<Longrightarrow> task_wf (layout_of res) (rn_tasks res ! t)"
    and "t < length (rn_tasks res) \<Longrightarrow> ts_transaction_active (storage_at res t) \<longleftrightarrow> rn_owner res = Some t"
    and "m < length (rn_mappings res) \<Longrightarrow> inv (rn_image_program res) (mr_instance (rn_mappings res ! m))"
    and "m < length (rn_mappings res) \<Longrightarrow> fits (rn_image_program res) (mr_program (rn_mappings res ! m))"
    and "rn_owner res = Some t \<Longrightarrow> t < length (rn_tasks res)"
    and "im_transaction_active (rn_image res) \<longleftrightarrow> rn_owner res \<noteq> None"
    and "t \<in> set (rn_schedule res) \<Longrightarrow> t < length (rn_tasks res)"
  using assms unfolding base_wf_def by blast+

text \<open>Between operations an open transaction belongs to a running task.\<close>

definition resource_wf :: "'v ResourceRuntime \<Rightarrow> bool" where
  "resource_wf res \<longleftrightarrow> base_wf res \<and> (\<forall>t. rn_owner res = Some t \<longrightarrow> runnable res t)"

lemma base_wf_upd_task:
  assumes "base_wf res" "t < length (rn_tasks res)" "task_wf (layout_of res) (f (rn_tasks res ! t))"
    and "ts_transaction_active (tk_storage (f (rn_tasks res ! t))) = ts_transaction_active (storage_at res t)"
  shows "base_wf (upd_task t f res)"
  using assms by (simp add: base_wf_def upd_task_at)

lemma base_wf_upd_storage:
  assumes "base_wf res" "t < length (rn_tasks res)"
    and "ts_transaction_active (f (storage_at res t)) = ts_transaction_active (storage_at res t)"
  shows "base_wf (upd_storage t f res)"
  unfolding upd_storage_def using assms
  by (intro base_wf_upd_task) (simp_all add: base_wf_def task_wf_def)

lemma base_wf_upd_status: "base_wf res \<Longrightarrow> t < length (rn_tasks res) \<Longrightarrow> base_wf (upd_status t f res)"
  unfolding upd_status_def by (rule base_wf_upd_storage) simp_all

lemma base_wf_upd_instance:
  assumes "base_wf res" "m < length (rn_mappings res)"
    and "inv (rn_image_program res) (g (mr_instance (rn_mappings res ! m)))"
  shows "base_wf (upd_instance m g res)"
  using assms by (auto simp: base_wf_def upd_instance_def nth_list_update)

lemma base_wf_image:
  assumes "base_wf res" "keeps_image (rn_image res) im"
  shows "base_wf (res\<lparr> rn_image := im \<rparr>)"
  using assms by (auto simp: base_wf_def keeps_image_def)


text \<open>What a step on task \<open>t\<close> may change.\<close>

definition task_step :: "nat \<Rightarrow> 'v ResourceRuntime \<Rightarrow> 'v ResourceRuntime \<Rightarrow> bool" where
  "task_step t res res' \<longleftrightarrow> base_wf res' \<and> map tk_info (rn_tasks res') = map tk_info (rn_tasks res) \<and>
     rn_info res' = rn_info res \<and> rn_image_program res' = rn_image_program res \<and>
     rn_schedule res' = rn_schedule res \<and> rs_fault (resource_status res') = rs_fault (resource_status res) \<and>
     map mr_program (rn_mappings res') = map mr_program (rn_mappings res) \<and>
     (\<forall>u. u \<noteq> t \<longrightarrow> rn_tasks res' ! u = rn_tasks res ! u)"

lemma task_step_length: "task_step t res res' \<Longrightarrow>
    length (rn_tasks res') = length (rn_tasks res) \<and> length (rn_mappings res') = length (rn_mappings res)"
  unfolding task_step_def by (metis length_map)

lemma task_step_trans: "task_step t a b \<Longrightarrow> task_step t b c \<Longrightarrow> task_step t a c"
  by (simp add: task_step_def)

lemma task_step_refl: "base_wf res \<Longrightarrow> task_step t res res"
  by (simp add: task_step_def)

lemma task_step_upd_task:
  assumes "base_wf (upd_task t f res)" "t < length (rn_tasks res)" "\<And>tk. tk_info (f tk) = tk_info tk"
  shows "task_step t res (upd_task t f res)"
  using assms by (simp add: task_step_def upd_task_at)
    (simp add: upd_task_def map_update list_update_same_conv)

lemma task_step_upd_storage:
  "base_wf (upd_storage t f res) \<Longrightarrow> t < length (rn_tasks res) \<Longrightarrow> task_step t res (upd_storage t f res)"
  unfolding upd_storage_def by (rule task_step_upd_task) simp_all

lemma task_step_upd_status: "base_wf res \<Longrightarrow> t < length (rn_tasks res) \<Longrightarrow> task_step t res (upd_status t f res)"
  using base_wf_upd_status unfolding upd_status_def by (intro task_step_upd_storage) simp_all

lemma storage_upd_storage [simp]: "t < length (rn_tasks res) \<Longrightarrow>
    storage_at (upd_storage t f res) u = (if u = t then f (storage_at res t) else storage_at res u)"
  by (simp add: upd_storage_def upd_task_at)

lemma storage_upd_status [simp]: "t < length (rn_tasks res) \<Longrightarrow>
    storage_at (upd_status t f res) u =
      (if u = t then (storage_at res t)\<lparr> ts_status := f (status_at res t) \<rparr> else storage_at res u)"
  by (simp add: upd_status_def)

lemma upd_status_simps [simp]:
  "rn_image (upd_status t f res) = rn_image res" "rn_owner (upd_status t f res) = rn_owner res"
  "length (rn_tasks (upd_status t f res)) = length (rn_tasks res)"
  "rn_mappings (upd_status t f res) = rn_mappings res"
  "rn_image_program (upd_status t f res) = rn_image_program res"
  by (simp_all add: upd_status_def)

text \<open>Closing the transaction of the owner.\<close>

lemma close_wf:
  assumes wf: "base_wf res" and o: "rn_owner res = Some t"
    and im: "image_wf im" "im_program im = im_program (rn_image res)" "\<not> im_transaction_active im"
  shows "base_wf (upd_storage t (\<lambda>s. s\<lparr> ts_transaction_active := False \<rparr>) (res\<lparr> rn_image := im, rn_owner := None \<rparr>))"
proof -
  have t: "t < length (rn_tasks res)" using wf o by (simp add: base_wf_def)
  then show ?thesis
    using wf o im by (auto simp: base_wf_def upd_storage_def upd_task_def nth_list_update task_wf_def)
qed

lemma discard_transaction_ok:
  assumes wf: "base_wf res" and t: "t < length (rn_tasks res)"
  shows "\<exists>res'. discard_transaction res t = Some res' \<and> task_step t res res' \<and>
    rn_owner res' = (if rn_owner res = Some t then None else rn_owner res) \<and>
    \<not> ts_transaction_active (storage_at res' t) \<and>
    (storage_at res' t)\<lparr> ts_transaction_active := True \<rparr> = (storage_at res t)\<lparr> ts_transaction_active := True \<rparr> \<and>
    published (rn_image res') = published (rn_image res) \<and> rn_mappings res' = rn_mappings res"
proof (cases "rn_owner res = Some t")
  case True
  obtain im where im: "discard_scan (rn_image res) = Some im" "image_wf im"
    "im_program im = im_program (rn_image res)" "\<not> im_transaction_active im"
    "published im = published (rn_image res)" using discard_image [OF base_wfD(1) [OF wf]] by blast
  let ?r = "upd_storage t (\<lambda>s. s\<lparr> ts_transaction_active := False \<rparr>) (res\<lparr> rn_image := im, rn_owner := None \<rparr>)"
  have "discard_transaction res t = Some ?r" using True im(1) by (simp add: discard_transaction_def)
  moreover have "base_wf ?r" using close_wf [OF wf True im(2-4)] .
  moreover from this have "task_step t res ?r"
    using t by (simp add: task_step_def upd_storage_def upd_task_at)
      (simp add: upd_task_def map_update list_update_same_conv)
  ultimately show ?thesis using True im(5) t by simp
next
  case False
  let ?r = "upd_storage t (\<lambda>s. s\<lparr> ts_transaction_active := False \<rparr>) res"
  have "\<not> ts_transaction_active (storage_at res t)" using wf False t by (simp add: base_wf_def)
  then have "base_wf ?r" using wf t by (intro base_wf_upd_storage) simp_all
  then have "task_step t res ?r" using t by (rule task_step_upd_storage)
  then show ?thesis using False t by (simp add: discard_transaction_def)
qed


lemma record_writes_simps:
  "rn_info (record_writes res t tick) = rn_info res"
  "rn_image_program (record_writes res t tick) = rn_image_program res"
  "rn_image (record_writes res t tick) = rn_image res"
  "rn_tasks (record_writes res t tick) = rn_tasks res"
  "rn_mappings (record_writes res t tick) = rn_mappings res"
  "rn_schedule (record_writes res t tick) = rn_schedule res"
  "rn_owner (record_writes res t tick) = rn_owner res"
  "rs_fault (resource_status (record_writes res t tick)) = rs_fault (resource_status res)"
  by (auto simp: record_writes_def Let_def split: prod.splits)

lemma record_writes_wf: "base_wf res \<Longrightarrow> base_wf (record_writes res t tick)"
  by (simp add: base_wf_def record_writes_simps)

text \<open>Completing a task publishes its transaction.\<close>

lemma complete_task_ok:
  assumes wf: "base_wf res" and t: "t < length (rn_tasks res)"
  shows "\<exists>res'. complete_task res t = Some res' \<and> task_step t res res' \<and>
    rn_owner res' = (if rn_owner res = Some t then None else rn_owner res) \<and>
    status_at res' t = (status_at res t)\<lparr> st_state := TS_idle, st_remaining_budget := 0,
      st_completed_count := st_completed_count (status_at res t) + 1 \<rparr> \<and>
    ts_mapping_cursor (storage_at res' t) = ts_mapping_cursor (storage_at res t) \<and>
    published (rn_image res') = (if rn_owner res = Some t
      then (Some (im_output (rn_image res), im_output_version (rn_image res) + 1),
            Some (im_memory (rn_image res), im_memory_version (rn_image res) + 1))
      else published (rn_image res))"
proof -
  let ?finish = "\<lambda>r. upd_task t (\<lambda>tk. tk\<lparr> tk_parked := False \<rparr>)
    (upd_status t (\<lambda>s. s\<lparr> st_state := TS_idle, st_remaining_budget := 0,
       st_completed_count := st_completed_count s + 1 \<rparr>) r)"
  have fin: "task_step t r (?finish r)" "status_at (?finish r) t = (status_at r t)\<lparr> st_state := TS_idle,
      st_remaining_budget := 0, st_completed_count := st_completed_count (status_at r t) + 1 \<rparr>"
    "ts_mapping_cursor (storage_at (?finish r) t) = ts_mapping_cursor (storage_at r t)"
    if "base_wf r" "t < length (rn_tasks r)" for r
  proof -
    let ?u = "upd_status t (\<lambda>s. s\<lparr> st_state := TS_idle, st_remaining_budget := 0,
       st_completed_count := st_completed_count s + 1 \<rparr>) r"
    have u: "base_wf ?u" "t < length (rn_tasks ?u)" using that by (simp_all add: base_wf_upd_status)
    then have "base_wf (?finish r)"
      using base_wfD(3) [OF u] by (intro base_wf_upd_task) (simp_all add: task_wf_def)
    then show "task_step t r (?finish r)"
      using task_step_trans [OF task_step_upd_status [OF that] task_step_upd_task] u by simp
    show "status_at (?finish r) t = (status_at r t)\<lparr> st_state := TS_idle, st_remaining_budget := 0,
        st_completed_count := st_completed_count (status_at r t) + 1 \<rparr>"
      "ts_mapping_cursor (storage_at (?finish r) t) = ts_mapping_cursor (storage_at r t)"
      using that(2) by (simp_all add: upd_task_at)
  qed
  show ?thesis
  proof (cases "rn_owner res = Some t")
    case True
    let ?r = "record_writes res t (ts_release_tick (storage_at res t))"
    have rwf: "base_wf ?r" by (rule record_writes_wf [OF wf])
    obtain im where im: "commit_transaction (rn_image ?r) = Some im" "image_wf im"
      "im_program im = im_program (rn_image ?r)" "\<not> im_transaction_active im"
      "published im = (Some (im_output (rn_image res), im_output_version (rn_image res) + 1),
        Some (im_memory (rn_image res), im_memory_version (rn_image res) + 1))"
      using commit_transaction_ok [OF base_wfD(1) [OF rwf]] by (auto simp: published_def record_writes_simps)
    let ?c = "upd_storage t (\<lambda>s. s\<lparr> ts_transaction_active := False \<rparr>) (?r\<lparr> rn_image := im, rn_owner := None \<rparr>)"
    have c: "base_wf ?c" "t < length (rn_tasks ?c)"
      using close_wf [OF rwf _ im(2-4)] True t by (simp_all add: record_writes_simps)
    have "task_step t res ?c"
      using c(1) t by (simp add: task_step_def upd_storage_def upd_task_at record_writes_simps)
        (simp add: upd_task_def map_update list_update_same_conv record_writes_simps)
    from task_step_trans [OF this fin(1) [OF c]] fin(2,3) [OF c]
    show ?thesis using True im(1,5) wf t
      by (simp add: complete_task_def Let_def base_wfD(4) record_writes_simps)
  next
    case False
    then have "\<not> ts_transaction_active (storage_at res t)" using wf t by (simp add: base_wfD(4))
    then show ?thesis using False fin [OF wf t] by (simp add: complete_task_def)
  qed
qed

definition instances_step :: "'v ResourceRuntime \<Rightarrow> 'v ResourceRuntime \<Rightarrow> bool" where
  "instances_step res res' \<longleftrightarrow> base_wf res' \<and> res' = res\<lparr> rn_mappings := rn_mappings res' \<rparr> \<and>
     map mr_program (rn_mappings res') = map mr_program (rn_mappings res)"

lemma instances_step_trans: "instances_step a b \<Longrightarrow> instances_step b c \<Longrightarrow> instances_step a c"
  unfolding instances_step_def by (metis (no_types, lifting) ResourceRuntime.update_convs(6) ResourceRuntime.surjective)

lemma instances_step_fold:
  assumes "\<And>m r. base_wf r \<Longrightarrow> instances_step r (f m r)" and "base_wf res"
  shows "instances_step res (fold f ms res)"
  using assms(2)
proof (induction ms arbitrary: res)
  case Nil
  then show ?case by (simp add: instances_step_def)
next
  case (Cons m ms)
  from assms(1) [OF Cons.prems, of m] have "instances_step res (f m res)" .
  moreover from this have "instances_step (f m res) (fold f ms (f m res))"
    by (intro Cons.IH) (simp add: instances_step_def)
  ultimately show ?case using instances_step_trans by simp
qed

lemma instances_step_upd:
  assumes "base_wf r" "m < length (rn_mappings r)"
    and "inv (rn_image_program r) (g (mr_instance (rn_mappings r ! m)))"
  shows "instances_step r (upd_instance m g r)"
proof -
  have "upd_instance m g r = r\<lparr> rn_mappings := rn_mappings (upd_instance m g r) \<rparr>"
    by (simp add: upd_instance_def)
  with base_wf_upd_instance [of r m g] assms upd_instance_programs show ?thesis
    unfolding instances_step_def by blast
qed

lemma instances_step_refl: "base_wf r \<Longrightarrow> instances_step r r"
  by (simp add: instances_step_def)

lemma abort_mappings_step: "base_wf res \<Longrightarrow> instances_step res (abort_mappings ops t res)"
  unfolding abort_mappings_def
proof (rule instances_step_fold)
  fix m and r :: "'v ResourceRuntime"
  assume r: "base_wf r"
  then show "instances_step r (if m < length (rn_mappings r) then upd_instance m (op_abort ops) r else r)"
    using instances_step_upd [OF r] inv_abort base_wfD(5) [OF r] by (auto intro: instances_step_refl)
qed

lemma instances_step_task: "instances_step res res' \<Longrightarrow> task_step t res res'"
  unfolding instances_step_def task_step_def
  by (metis (no_types, lifting) ResourceRuntime.select_convs(1,2,3,5,7) ResourceRuntime.surjective
      ResourceRuntime.update_convs(6))


lemma resource_wf_closed:
  assumes "resource_wf res" "task_step t res res'"
    and "rn_owner res' = (if rn_owner res = Some t then None else rn_owner res)"
  shows "resource_wf res'"
  using assms unfolding resource_wf_def
  by (auto simp: task_step_def runnable_def split: if_splits)

lemma fault_location_keeps:
  "st_state (fault_location ops p m s) = st_state s" "st_fault (fault_location ops p m s) = st_fault s"
  "st_fault_count (fault_location ops p m s) = st_fault_count s"
  "st_completed_count (fault_location ops p m s) = st_completed_count s"
  "st_release_count (fault_location ops p m s) = st_release_count s"
  "st_remaining_budget (fault_location ops p m s) = st_remaining_budget s"
  "st_missed_release_count (fault_location ops p m s) = st_missed_release_count s"
  by (simp_all add: fault_location_def Let_def split: option.splits TaskFaultElementKind.splits)

lemma status_eq_storage: "s\<lparr> ts_transaction_active := True \<rparr> = r\<lparr> ts_transaction_active := True \<rparr> \<Longrightarrow>
    ts_status s = ts_status r \<and> ts_mapping_cursor s = ts_mapping_cursor r"
  by (cases s; cases r) simp

text \<open>Faulting a task discards its transaction and publishes nothing.\<close>

lemma fault_task_ok:
  assumes wf: "base_wf res" and t: "t < length (rn_tasks res)"
  shows "\<exists>res'. fault_task ops p res t fault mapping = Some res' \<and> task_step t res res' \<and>
    rn_owner res' = (if rn_owner res = Some t then None else rn_owner res) \<and>
    st_state (status_at res' t) = TS_faulted \<and> st_fault (status_at res' t) = fault \<and>
    st_fault_count (status_at res' t) = st_fault_count (status_at res t) + 1 \<and>
    st_completed_count (status_at res' t) = st_completed_count (status_at res t) \<and>
    st_release_count (status_at res' t) = st_release_count (status_at res t) \<and>
    published (rn_image res') = published (rn_image res)"
proof -
  let ?s = "upd_status t (\<lambda>s. s\<lparr> st_state := TS_faulted, st_fault := fault, st_fault_count := st_fault_count s + 1 \<rparr>) res"
  have s: "base_wf ?s" "t < length (rn_tasks ?s)" "task_step t res ?s"
    using base_wf_upd_status [OF wf t] task_step_upd_status [OF wf t] t by simp_all
  obtain d where d: "discard_transaction ?s t = Some d" "task_step t ?s d"
    "rn_owner d = (if rn_owner ?s = Some t then None else rn_owner ?s)"
    "(storage_at d t)\<lparr> ts_transaction_active := True \<rparr> = (storage_at ?s t)\<lparr> ts_transaction_active := True \<rparr>"
    "published (rn_image d) = published (rn_image ?s)"
    using discard_transaction_ok [OF s(1,2)] by blast
  note st = status_eq_storage [OF d(4)]
  let ?u = "upd_task t (\<lambda>tk. tk\<lparr> tk_parked := False \<rparr>) d"
  have dl: "base_wf d" "t < length (rn_tasks d)" using d(2) task_step_length [OF d(2)] t
    by (simp_all add: task_step_def)
  have u: "base_wf ?u" using base_wfD(3) [OF dl] dl by (intro base_wf_upd_task) (simp_all add: task_wf_def)
  then have us: "task_step t d ?u" using dl(2) by (intro task_step_upd_task) simp_all
  define m where "m = (case mapping of None \<Rightarrow> current_mapping ?u t | Some i \<Rightarrow> Some i)"
  let ?l = "case m of None \<Rightarrow> ?u | Some i \<Rightarrow> upd_status t (fault_location ops p (rn_mappings ?u ! i)) ?u"
  have l: "task_step t ?u ?l" using u dl(2) by (auto intro: task_step_refl task_step_upd_status split: option.splits)
  have keep: "st_state (status_at ?l t) = st_state (status_at d t)" "st_fault (status_at ?l t) = st_fault (status_at d t)"
    "st_fault_count (status_at ?l t) = st_fault_count (status_at d t)"
    "st_completed_count (status_at ?l t) = st_completed_count (status_at d t)"
    "st_release_count (status_at ?l t) = st_release_count (status_at d t)"
    "rn_image ?l = rn_image d" "rn_owner ?l = rn_owner d"
    using dl(2) by (simp_all add: upd_task_at fault_location_keeps split: option.splits)
  let ?a = "abort_mappings ops t ?l"
  have ai: "instances_step ?l ?a" using l by (intro abort_mappings_step) (simp add: task_step_def)
  then have a: "rn_tasks ?a = rn_tasks ?l" "rn_image ?a = rn_image ?l" "rn_owner ?a = rn_owner ?l"
    unfolding instances_step_def
    by (metis (no_types, lifting) ResourceRuntime.select_convs(4,5,10) ResourceRuntime.surjective
        ResourceRuntime.update_convs(6))+
  have "fault_task ops p res t fault mapping = Some ?a"
    unfolding fault_task_def d(1) m_def by (simp add: Let_def)
  moreover have "task_step t res ?a"
    using task_step_trans [OF s(3) task_step_trans [OF d(2) task_step_trans [OF us
      task_step_trans [OF l instances_step_task [OF ai]]]]] .
  ultimately show ?thesis
    using a keep st d(3,5) t by simp
qed

lemma pause_task_ok:
  assumes wf: "base_wf res" and t: "t < length (rn_tasks res)"
  shows "\<exists>res'. pause_task res t = Some res' \<and> task_step t res res' \<and>
    rn_owner res' = (if rn_owner res = Some t then None else rn_owner res) \<and>
    status_at res' t = (status_at res t)\<lparr> st_state := TS_paused \<rparr> \<and>
    published (rn_image res') = published (rn_image res)"
proof -
  define parked where "parked = park_transaction (rn_image res) (tk_output_bytes (rn_tasks res ! t))
    (tk_memory_bytes (rn_tasks res ! t))"
  let ?u = "upd_task t (\<lambda>tk. tk\<lparr> tk_parked := (parked \<noteq> None),
    tk_parked_image := (case parked of None \<Rightarrow> tk_parked_image tk | Some pk \<Rightarrow> pk) \<rparr>) res"
  have "parked_sizes (layout_of res) pk" if "parked = Some pk" for pk
    using park_transaction_fits [OF base_wfD(1) [OF wf]] that base_wfD(1,2) [OF wf]
    by (simp add: parked_def parked_fits_sizes)
  then have u: "base_wf ?u" using wf base_wfD(3) [OF wf t] t
    by (intro base_wf_upd_task) (auto simp: task_wf_def split: option.splits)
  have us: "task_step t res ?u" using u t by (intro task_step_upd_task) simp_all
  let ?s = "upd_status t (\<lambda>s. s\<lparr> st_state := TS_paused \<rparr>) ?u"
  have s: "base_wf ?s" "t < length (rn_tasks ?s)" "task_step t ?u ?s"
    using base_wf_upd_status [OF u] task_step_upd_status [OF u] t by simp_all
  obtain d where d: "discard_transaction ?s t = Some d" "task_step t ?s d"
    "rn_owner d = (if rn_owner ?s = Some t then None else rn_owner ?s)"
    "(storage_at d t)\<lparr> ts_transaction_active := True \<rparr> = (storage_at ?s t)\<lparr> ts_transaction_active := True \<rparr>"
    "published (rn_image d) = published (rn_image ?s)"
    using discard_transaction_ok [OF s(1,2)] by blast
  have "pause_task res t = Some d" using d(1) by (simp add: pause_task_def Let_def parked_def)
  moreover have "task_step t res d" using task_step_trans [OF us task_step_trans [OF s(3) d(2)]] .
  moreover have "status_at ?s t = (status_at res t)\<lparr> st_state := TS_paused \<rparr>" using t by (simp add: upd_task_at)
  ultimately show ?thesis using d(3,5) status_eq_storage [OF d(4)] by simp
qed


section \<open>One round of the scheduler\<close>

lemma open_transaction_ok:
  assumes wf: "base_wf res" and t: "t < length (rn_tasks res)" and free: "rn_owner res = None"
  shows "\<exists>res'. open_transaction ops p res t = Some (Inr res') \<and> task_step t res res' \<and>
    rn_owner res' = Some t \<and> status_at res' t = status_at res t \<and>
    ts_mapping_cursor (storage_at res' t) = ts_mapping_cursor (storage_at res t) \<and>
    published (rn_image res') = published (rn_image res)"
proof -
  obtain im where im: "begin_transaction (rn_image res) (of_nat t) (of_nat (st_release_count (status_at res t))) = Some im"
    "image_wf im" "im_program im = im_program (rn_image res)" "im_transaction_active im"
    "published im = published (rn_image res)"
    using begin_transaction_published [OF base_wfD(1) [OF wf]] by blast
  let ?r = "upd_storage t (\<lambda>s. s\<lparr> ts_transaction_active := True \<rparr>) (res\<lparr> rn_image := im, rn_owner := Some t \<rparr>)"
  have r: "base_wf ?r"
    using wf t free im(2-4)
    by (auto simp: base_wf_def upd_storage_def upd_task_def nth_list_update task_wf_def)
  have rs: "task_step t res ?r"
    using r t by (simp add: task_step_def upd_storage_def upd_task_at)
      (simp add: upd_task_def map_update list_update_same_conv)
  let ?tk = "rn_tasks ?r ! t"
  have tk: "tk_parked ?tk = tk_parked (rn_tasks res ! t)" "tk_parked_image ?tk = tk_parked_image (rn_tasks res ! t)"
    using t by (simp_all add: upd_storage_def upd_task_at)
  show ?thesis
  proof (cases "tk_parked ?tk")
    case False
    then have "open_transaction ops p res t = Some (Inr ?r)"
      by (simp add: open_transaction_def im(1) Let_def)
    with rs im(5) t show ?thesis by simp
  next
    case True
    have w: "task_wf (layout_of ?r) ?tk" using base_wfD(3) [OF r, of t] t by simp
    obtain im2 where im2: "restore_transaction (rn_image ?r) (tk_parked_image ?tk)
        (pi_output_bytes (layout_of ?r)) (pi_memory_bytes (layout_of ?r)) = (im2, True)"
      "image_wf im2" "im_program im2 = im_program (rn_image ?r)" "im_transaction_active im2"
      "published im2 = published (rn_image ?r)"
      using restore_transaction_ok [OF base_wfD(1,2) [OF r], of "tk_parked_image ?tk"] w im(4)
      by (auto simp: task_wf_def)
    let ?i = "?r\<lparr> rn_image := im2 \<rparr>"
    let ?u = "upd_task t (\<lambda>tk. tk\<lparr> tk_parked := False \<rparr>) ?i"
    have i: "base_wf ?i" using r im2 im(4) by (intro base_wf_image) (simp_all add: keeps_image_def)
    then have u: "base_wf ?u" using base_wfD(3) [OF i] t by (intro base_wf_upd_task) (simp_all add: task_wf_def)
    have "task_step t ?r ?i" using i by (simp add: task_step_def)
    from task_step_trans [OF rs task_step_trans [OF this task_step_upd_task [OF u]]]
    have "task_step t res ?u" using t by simp
    moreover have "open_transaction ops p res t = Some (Inr ?u)"
      using True im2(1) w by (simp add: open_transaction_def im(1) Let_def task_wf_def)
    ultimately show ?thesis using im(5) im2(5) t by (simp add: upd_task_at)
  qed
qed

lemma start_mapping_ok:
  assumes wf: "base_wf res" and t: "t < length (rn_tasks res)" and o: "rn_owner res = Some t"
    and m: "m < length (rn_mappings res)"
  shows "\<exists>res' e. start_mapping ops res t m = Some (res', e) \<and> task_step t res res' \<and>
    rn_owner res' = Some t \<and> rn_tasks res' = rn_tasks res \<and>
    published (rn_image res') = published (rn_image res) \<and>
    (e = Scan_ok \<longrightarrow> op_running ops (mr_instance (rn_mappings res' ! m)))"
proof (cases "op_running ops (mr_instance (rn_mappings res ! m))")
  case True
  with wf o show ?thesis by (simp add: start_mapping_def task_step_refl)
next
  case False
  have act: "im_transaction_active (rn_image res)" using base_wfD(8) [OF wf] o by simp
  obtain v im e where b: "op_begin ops (mr_instance (rn_mappings res ! m)) (st_remaining_budget (status_at res t))
      (rn_image res) = Some (v, im, e)" "inv (rn_image_program res) v" "keeps_image (rn_image res) im"
    "e = Scan_ok \<longrightarrow> op_running ops v"
    using begin_ok [OF base_wfD(5) [OF wf m] base_wfD(1,2) [OF wf] act] by blast
  let ?i = "res\<lparr> rn_image := im \<rparr>"
  have i: "base_wf ?i" using wf b(3) by (rule base_wf_image)
  have u: "instances_step ?i (upd_instance m (\<lambda>_. v) ?i)"
    using instances_step_upd [OF i, of m "\<lambda>_. v"] m b(2) by simp
  have "task_step t res ?i" using i by (simp add: task_step_def)
  from task_step_trans [OF this instances_step_task [OF u]] False b o m show ?thesis
    by (simp add: start_mapping_def keeps_image_def upd_instance_def)
qed

lemma resume_mapping_ok:
  assumes wf: "base_wf res" and t: "t < length (rn_tasks res)" and o: "rn_owner res = Some t"
    and m: "m < length (rn_mappings res)" and run: "runnable res t" and q: "0 < q"
    and on: "op_running ops (mr_instance (rn_mappings res ! m))"
  shows "\<exists>res' q'. resume_mapping ops p res t m q = Some (res', q', Run_continue) \<and> task_step t res res' \<and>
    resource_wf res' \<and> 0 \<le> q' \<and> q' \<le> q \<and> (q' < q \<or> \<not> runnable res' t) \<and>
    (published (rn_image res') = published (rn_image res) \<and>
       st_completed_count (status_at res' t) = st_completed_count (status_at res t) \<or>
     st_completed_count (status_at res' t) = st_completed_count (status_at res t) + 1)"
proof -
  have act: "im_transaction_active (rn_image res)" using base_wfD(8) [OF wf] o by simp
  obtain v im n e where b: "op_resume ops (mr_instance (rn_mappings res ! m)) q (rn_image res) = Some (v, im, n, e)"
    "inv (rn_image_program res) v" "keeps_image (rn_image res) im" "0 \<le> n" "n \<le> q"
    "e = Scan_ok \<longrightarrow> 0 < n"
    using resume_ok [OF base_wfD(5) [OF wf m] base_wfD(1,2) [OF wf] act q] on by blast
  let ?i = "res\<lparr> rn_image := im \<rparr>"
  have i: "base_wf ?i" using wf b(3) by (rule base_wf_image)
  let ?j = "upd_instance m (\<lambda>_. v) ?i"
  have j: "instances_step ?i ?j"
    using instances_step_upd [OF i, of m "\<lambda>_. v"] m b(2) by simp
  have "task_step t res ?i" using i by (simp add: task_step_def)
  then have js: "task_step t res ?j" using task_step_trans instances_step_task [OF j] by blast
  have jw: "base_wf ?j" using j by (simp add: instances_step_def)
  let ?s = "upd_status t (\<lambda>s. s\<lparr> st_remaining_budget := op_remaining_budget ops v \<rparr>) ?j"
  have s: "base_wf ?s" "t < length (rn_tasks ?s)" "rn_owner ?s = Some t" "task_step t res ?s"
    "published (rn_image ?s) = published (rn_image res)" "runnable ?s t"
    "st_completed_count (status_at ?s t) = st_completed_count (status_at res t)"
    "ts_transaction_active (storage_at ?s t)"
    using base_wf_upd_status [OF jw] task_step_trans [OF js task_step_upd_status [OF jw]] t o b(3) run
      base_wfD(4) [OF wf t]
    by (simp_all add: keeps_image_def runnable_def)
  have q': "0 \<le> q - n" "q - n \<le> q" using b(4,5) by simp_all
  consider (pause) "e = Scan_paused" | (fault) "e \<noteq> Scan_paused" "e \<noteq> Scan_ok"
    | (complete) "e = Scan_ok" "op_complete ops v" "ts_mapping_cursor (storage_at ?s t) + 1 \<ge> length (task_mappings ?s t)"
    | (advance) "e = Scan_ok" "op_complete ops v" "ts_mapping_cursor (storage_at ?s t) + 1 < length (task_mappings ?s t)"
    | (more) "e = Scan_ok" "\<not> op_complete ops v" by linarith
  then show ?thesis
  proof cases
    case pause
    obtain r where r: "pause_task ?s t = Some r" "task_step t ?s r" "rn_owner r = None"
      "status_at r t = (status_at ?s t)\<lparr> st_state := TS_paused \<rparr>" "published (rn_image r) = published (rn_image ?s)"
      using pause_task_ok [OF s(1,2)] s(3) by auto
    have "resume_mapping ops p res t m q = Some (r, q - n, Run_continue)"
      using b(1) pause r(1) by (simp add: resume_mapping_def Let_def)
    with task_step_trans [OF s(4) r(2)] r s(5,7) q' show ?thesis
      by (auto simp: resource_wf_def task_step_def runnable_def)
  next
    case fault
    obtain r where r: "fault_task ops p ?s t (scan_fault e) (Some m) = Some r" "task_step t ?s r" "rn_owner r = None"
      "st_state (status_at r t) = TS_faulted" "published (rn_image r) = published (rn_image ?s)"
      "st_completed_count (status_at r t) = st_completed_count (status_at ?s t)"
      using fault_task_ok [OF s(1,2), of p "scan_fault e" "Some m"] s(3) by auto
    have "resume_mapping ops p res t m q = Some (r, q - n, Run_continue)"
      using b(1) fault r(1) by (simp add: resume_mapping_def Let_def)
    with task_step_trans [OF s(4) r(2)] r s(5,7) q' show ?thesis
      by (auto simp: resource_wf_def task_step_def runnable_def)
  next
    case complete
    let ?c = "upd_storage t (\<lambda>s. s\<lparr> ts_mapping_cursor := ts_mapping_cursor s + 1 \<rparr>) ?s"
    have c: "base_wf ?c" "t < length (rn_tasks ?c)" "task_step t ?s ?c"
      using base_wf_upd_storage [OF s(1,2), of "\<lambda>s. s\<lparr> ts_mapping_cursor := ts_mapping_cursor s + 1 \<rparr>"] s(2)
      by (auto intro: task_step_upd_storage)
    have tm: "task_mappings ?c t = task_mappings ?s t" using s(2) by (simp add: upd_storage_def upd_task_at)
    obtain r where r: "complete_task ?c t = Some r" "task_step t ?c r" "rn_owner r = None"
      "status_at r t = (status_at ?c t)\<lparr> st_state := TS_idle, st_remaining_budget := 0,
        st_completed_count := st_completed_count (status_at ?c t) + 1 \<rparr>"
      using complete_task_ok [OF c(1,2)] s(3) by auto
    have "resume_mapping ops p res t m q = Some (r, q - n, Run_continue)"
      using b(1,6) complete r(1) tm s(2) by (simp add: resume_mapping_def Let_def)
    with task_step_trans [OF s(4) task_step_trans [OF c(3) r(2)]] r s(2,7) q' show ?thesis
      by (auto simp: resource_wf_def task_step_def runnable_def)
  next
    case advance
    let ?c = "upd_storage t (\<lambda>s. s\<lparr> ts_mapping_cursor := ts_mapping_cursor s + 1 \<rparr>) ?s"
    have c: "base_wf ?c" "task_step t ?s ?c"
      using base_wf_upd_storage [OF s(1,2), of "\<lambda>s. s\<lparr> ts_mapping_cursor := ts_mapping_cursor s + 1 \<rparr>"] s(2)
      by (auto intro: task_step_upd_storage)
    have tm: "task_mappings ?c t = task_mappings ?s t" using s(2) by (simp add: upd_storage_def upd_task_at)
    have "resume_mapping ops p res t m q = Some (?c, q - n, Run_continue)"
      using b(1,6) advance tm s(2) by (simp add: resume_mapping_def Let_def)
    with task_step_trans [OF s(4) c(2)] c(1) s(2,3,5,6,7) q' b(4,6) advance(1) show ?thesis
      by (auto simp: resource_wf_def runnable_def)
  next
    case more
    have "resume_mapping ops p res t m q = Some (?s, q - n, Run_continue)"
      using b(1,6) more by (simp add: resume_mapping_def Let_def)
    with s q' b(4,6) more(1) show ?thesis by (auto simp: resource_wf_def)
  qed
qed


lemma run_task_ok:
  assumes rwf: "resource_wf res" and t: "t < length (rn_tasks res)" and run: "runnable res t"
    and own: "rn_owner res = None \<or> rn_owner res = Some t" and q: "0 < q"
  shows "\<exists>res' q'. run_task ops p res t q = Some (res', q', Run_continue) \<and> task_step t res res' \<and>
    resource_wf res' \<and> 0 \<le> q' \<and> q' \<le> q \<and> (q' < q \<or> \<not> runnable res' t) \<and>
    (published (rn_image res') = published (rn_image res) \<and>
       st_completed_count (status_at res' t) = st_completed_count (status_at res t) \<or>
     st_completed_count (status_at res' t) = st_completed_count (status_at res t) + 1)"
proof (cases "ts_mapping_cursor (storage_at res t) \<ge> length (task_mappings res t)")
  case True
  have wf: "base_wf res" using rwf by (simp add: resource_wf_def)
  obtain r where r: "complete_task res t = Some r" "task_step t res r"
    "rn_owner r = (if rn_owner res = Some t then None else rn_owner res)"
    "status_at r t = (status_at res t)\<lparr> st_state := TS_idle, st_remaining_budget := 0,
      st_completed_count := st_completed_count (status_at res t) + 1 \<rparr>"
    using complete_task_ok [OF wf t] by auto
  have "run_task ops p res t q = Some (r, q, Run_continue)" using True r(1) by (simp add: run_task_def)
  with r resource_wf_closed [OF rwf r(2,3)] q show ?thesis by (auto simp: runnable_def)
next
  case False
  have wf: "base_wf res" using rwf by (simp add: resource_wf_def)
  have act: "ts_transaction_active (storage_at res t) \<longleftrightarrow> rn_owner res = Some t" by (rule base_wfD(4) [OF wf t])
  obtain r where r: "(if ts_transaction_active (storage_at res t) then Some (Inr res)
        else open_transaction ops p res t) = Some (Inr r)" "task_step t res r" "rn_owner r = Some t"
    "status_at r t = status_at res t" "ts_mapping_cursor (storage_at r t) = ts_mapping_cursor (storage_at res t)"
    "published (rn_image r) = published (rn_image res)"
  proof (cases "rn_owner res = None")
    case True
    with act open_transaction_ok [OF wf t, of p] that show ?thesis by auto
  next
    case False
    with own act wf that [of res] show ?thesis by (auto intro: task_step_refl)
  qed
  have rl: "base_wf r" "t < length (rn_tasks r)" using r(2) task_step_length [OF r(2)] t
    by (simp_all add: task_step_def)
  define m where "m = task_mappings r t ! ts_mapping_cursor (storage_at r t)"
  have guard: "\<not> (\<not> ts_transaction_active (storage_at res t) \<and> rn_owner res \<noteq> None \<and> rn_owner res \<noteq> Some t)"
    using own by auto
  have rt: "run_task ops p res t q =
      (if m \<ge> length (rn_mappings r)
       then do { res2 \<leftarrow> fault_task ops p r t TF_task_runtime_fault None; Some (res2, q, Run_continue) }
       else do {
         (res2, started) \<leftarrow> start_mapping ops r t m;
         if started \<noteq> Scan_ok
         then do { res3 \<leftarrow> fault_task ops p res2 t (scan_fault started) (Some m); Some (res3, q, Run_continue) }
         else resume_mapping ops p res2 t m q })"
    unfolding run_task_def r(1) if_not_P [OF False] if_not_P [OF guard]
    by (simp only: Let_def m_def bind.bind_lunit sum.case)
  show ?thesis
  proof (cases "m \<ge> length (rn_mappings r)")
    case True
    obtain f where f: "fault_task ops p r t TF_task_runtime_fault None = Some f" "task_step t r f" "rn_owner f = None"
      "st_state (status_at f t) = TS_faulted" "published (rn_image f) = published (rn_image r)"
      "st_completed_count (status_at f t) = st_completed_count (status_at r t)"
      using fault_task_ok [OF rl, of p TF_task_runtime_fault None] r(3) by auto
    with rt True task_step_trans [OF r(2) f(2)] r(4,6) q show ?thesis
      by (auto simp: resource_wf_def task_step_def runnable_def)
  next
    case m: False
    then have ml: "m < length (rn_mappings r)" by simp
    obtain s e where s: "start_mapping ops r t m = Some (s, e)" "task_step t r s" "rn_owner s = Some t"
      "rn_tasks s = rn_tasks r" "published (rn_image s) = published (rn_image r)"
      "e = Scan_ok \<longrightarrow> op_running ops (mr_instance (rn_mappings s ! m))"
      using start_mapping_ok [OF rl r(3) ml] by blast
    have sl: "base_wf s" "t < length (rn_tasks s)" "m < length (rn_mappings s)"
      using s(2) task_step_length [OF s(2)] rl ml by (simp_all add: task_step_def)
    show ?thesis
    proof (cases "e = Scan_ok")
      case True
      have "runnable s t" using run r(4) s(4) by (simp add: runnable_def)
      moreover have "op_running ops (mr_instance (rn_mappings s ! m))" using s(6) True by simp
      ultimately obtain x q' where
        x: "resume_mapping ops p s t m q = Some (x, q', Run_continue)" "task_step t s x" "resource_wf x" "0 \<le> q'" "q' \<le> q"
        "q' < q \<or> \<not> runnable x t"
        "published (rn_image x) = published (rn_image s) \<and>
            st_completed_count (status_at x t) = st_completed_count (status_at s t) \<or>
          st_completed_count (status_at x t) = st_completed_count (status_at s t) + 1"
        using resume_mapping_ok [OF sl(1,2) s(3) sl(3) _ q, of p] by blast
      have "run_task ops p res t q = Some (x, q', Run_continue)" using rt m s(1) True x(1) by simp
      moreover have "task_step t res x" using task_step_trans [OF r(2) task_step_trans [OF s(2) x(2)]] .
      moreover have "published (rn_image s) = published (rn_image res)" "status_at s t = status_at res t"
        using r(4,6) s(4,5) by simp_all
      ultimately show ?thesis using x(3-7) by metis
    next
      case False
      obtain f where f: "fault_task ops p s t (scan_fault e) (Some m) = Some f" "task_step t s f" "rn_owner f = None"
        "st_state (status_at f t) = TS_faulted" "published (rn_image f) = published (rn_image s)"
        "st_completed_count (status_at f t) = st_completed_count (status_at s t)"
        using fault_task_ok [OF sl(1,2), of p "scan_fault e" "Some m"] s(3) by auto
      have "run_task ops p res t q = Some (f, q, Run_continue)" using rt m s(1) False f(1) by simp
      with task_step_trans [OF r(2) task_step_trans [OF s(2) f(2)]] f r(4,6) s(4,5) q show ?thesis
        by (auto simp: resource_wf_def task_step_def runnable_def)
    qed
  qed
qed

text \<open>The choice of the next task: on a well-formed resource nothing is discarded, an open transaction
  goes first, and otherwise the first running task of the schedule.\<close>

definition chosen :: "'v ResourceRuntime \<Rightarrow> nat option" where
  "chosen res = (if rs_fault (resource_status res) \<noteq> RF_none then None
     else case rn_owner res of Some t \<Rightarrow> Some t | None \<Rightarrow> find (runnable res) (rn_schedule res))"

lemma runnable_in_ok: "resource_wf res \<Longrightarrow> runnable_in res = Some (res, chosen res)"
  by (auto simp: runnable_in_def chosen_def resource_wf_def base_wfD(7) split: option.splits)

lemma next_runnable_ok:
  "\<forall>res \<in> set rs. resource_wf res \<Longrightarrow> \<exists>next. next_runnable rs = Some (rs, next) \<and>
    (case next of None \<Rightarrow> \<forall>res \<in> set rs. chosen res = None
     | Some (r, t) \<Rightarrow> r < length rs \<and> chosen (rs ! r) = Some t \<and> (\<forall>q < r. chosen (rs ! q) = None))"
proof (induction rs)
  case Nil
  then show ?case by simp
next
  case (Cons res rs)
  then obtain nxt where n: "next_runnable rs = Some (rs, nxt)"
    "case nxt of None \<Rightarrow> \<forall>res \<in> set rs. chosen res = None
     | Some (r, t) \<Rightarrow> r < length rs \<and> chosen (rs ! r) = Some t \<and> (\<forall>q < r. chosen (rs ! q) = None)" by auto
  show ?case
  proof (cases "chosen res")
    case None
    with n Cons.prems show ?thesis
      by (auto simp: runnable_in_ok less_Suc_eq_0_disj split: option.splits)
  next
    case (Some t)
    with Cons.prems show ?thesis by (auto simp: runnable_in_ok)
  qed
qed

lemma chosen_runnable:
  assumes "resource_wf res" "chosen res = Some t"
  shows "t < length (rn_tasks res)" "runnable res t" "rn_owner res = None \<or> rn_owner res = Some t"
proof -
  have "t < length (rn_tasks res) \<and> runnable res t \<and> (rn_owner res = None \<or> rn_owner res = Some t)"
  proof (cases "rn_owner res")
    case None
    with assms(2) have f: "find (runnable res) (rn_schedule res) = Some t" by (auto simp: chosen_def split: if_splits)
    then have "runnable res t" "t \<in> set (rn_schedule res)" by (auto simp: find_Some_iff)
    with None assms(1) base_wfD(9) show ?thesis by (auto simp: resource_wf_def)
  next
    case (Some u)
    with assms show ?thesis by (auto simp: chosen_def resource_wf_def base_wfD(7) split: if_splits)
  qed
  then show "t < length (rn_tasks res)" "runnable res t" "rn_owner res = None \<or> rn_owner res = Some t" by blast+
qed

definition config_wf :: "'v ConfigurationRuntime \<Rightarrow> bool" where
  "config_wf cr \<longleftrightarrow> (\<forall>res \<in> set (cr_resources cr). resource_wf res)"

definition running_total :: "'v ConfigurationRuntime \<Rightarrow> nat" where
  "running_total cr = sum_list (map running_tasks (cr_resources cr))"

lemma running_tasks_step:
  assumes "task_step t res res'" "t < length (rn_tasks res)" "runnable res t"
  shows "running_tasks res' \<le> running_tasks res"
    and "\<not> runnable res' t \<Longrightarrow> running_tasks res' < running_tasks res"
proof -
  have l: "length (rn_tasks res') = length (rn_tasks res)" using task_step_length [OF assms(1)] by simp
  have o: "runnable res' u = runnable res u" if "u \<noteq> t" for u
    using assms(1) that by (simp add: task_step_def runnable_def)
  have c: "running_tasks r = card {u. u < length (rn_tasks r) \<and> runnable r u}" for r :: "'v ResourceRuntime"
    by (simp add: running_tasks_def length_filter_conv_card) (rule arg_cong [where f = card], auto)
  have sub: "{u. u < length (rn_tasks res') \<and> runnable res' u} \<subseteq> {u. u < length (rn_tasks res) \<and> runnable res u}"
    using l o assms(3) by auto (metis)
  then show "running_tasks res' \<le> running_tasks res" unfolding c by (intro card_mono) auto
  show "running_tasks res' < running_tasks res" if "\<not> runnable res' t"
  proof -
    have "{u. u < length (rn_tasks res') \<and> runnable res' u} \<subset> {u. u < length (rn_tasks res) \<and> runnable res u}"
      using sub that assms(2,3) by auto
    then show ?thesis unfolding c by (intro psubset_card_mono) auto
  qed
qed


text \<open>A publication needs a completion.\<close>

definition completions :: "'v ResourceRuntime \<Rightarrow> nat" where
  "completions res = (\<Sum>t < length (rn_tasks res). st_completed_count (status_at res t))"

definition publishes_completed :: "'v ResourceRuntime \<Rightarrow> 'v ResourceRuntime \<Rightarrow> bool" where
  "publishes_completed res res' \<longleftrightarrow> completions res \<le> completions res' \<and>
     (completions res' = completions res \<longrightarrow> published (rn_image res') = published (rn_image res))"

lemma completions_step:
  assumes "task_step t res res'" "t < length (rn_tasks res)"
    and "st_completed_count (status_at res' t) = st_completed_count (status_at res t) + n"
  shows "completions res' = completions res + n"
proof -
  have l: "length (rn_tasks res') = length (rn_tasks res)" using task_step_length [OF assms(1)] by simp
  have "status_at res' u = status_at res u" if "u \<noteq> t" for u using assms(1) that by (simp add: task_step_def)
  then have "(\<Sum>u \<in> {..<length (rn_tasks res)} - {t}. st_completed_count (status_at res' u)) =
      (\<Sum>u \<in> {..<length (rn_tasks res)} - {t}. st_completed_count (status_at res u))"
    by (intro sum.cong) auto
  then show ?thesis
    using assms(2,3) unfolding completions_def l
    by (simp add: sum.remove [of "{..<length (rn_tasks res)}" t])
qed

lemma publishes_refl: "publishes_completed res res"
  by (simp add: publishes_completed_def)

text \<open>One round of the loop over all resources.\<close>

definition same_setup :: "'v ResourceRuntime \<Rightarrow> 'v ResourceRuntime \<Rightarrow> bool" where
  "same_setup res res' \<longleftrightarrow> rn_info res' = rn_info res \<and> rn_schedule res' = rn_schedule res \<and>
     map tk_info (rn_tasks res') = map tk_info (rn_tasks res)"

lemma same_setup_refl [simp]: "same_setup res res"
  by (simp add: same_setup_def)

lemma same_setup_trans: "same_setup a b \<Longrightarrow> same_setup b c \<Longrightarrow> same_setup a c"
  by (simp add: same_setup_def)

definition config_step :: "'v ConfigurationRuntime \<Rightarrow> 'v ConfigurationRuntime \<Rightarrow> bool" where
  "config_step cr cr' \<longleftrightarrow> config_wf cr' \<and> cr' = cr\<lparr> cr_resources := cr_resources cr' \<rparr> \<and>
     list_all2 publishes_completed (cr_resources cr) (cr_resources cr') \<and>
     list_all2 same_setup (cr_resources cr) (cr_resources cr')"

lemma publishes_completed_trans:
  "publishes_completed a b \<Longrightarrow> publishes_completed b c \<Longrightarrow> publishes_completed a c"
  by (auto simp: publishes_completed_def)

lemma config_step_refl: "config_wf cr \<Longrightarrow> config_step cr cr"
  by (simp add: config_step_def list_all2_same publishes_completed_def)

lemma config_step_trans: "config_step a b \<Longrightarrow> config_step b c \<Longrightarrow> config_step a c"
proof -
  assume ab: "config_step a b" and bc: "config_step b c"
  have "c = a\<lparr> cr_resources := cr_resources c \<rparr>"
    using ab bc unfolding config_step_def
    by (metis (no_types, lifting) ConfigurationRuntime.surjective ConfigurationRuntime.update_convs(2))
  moreover have "list_all2 publishes_completed (cr_resources a) (cr_resources c)"
    using ab bc list_all2_trans [of publishes_completed publishes_completed publishes_completed]
      publishes_completed_trans unfolding config_step_def by blast
  moreover have "list_all2 same_setup (cr_resources a) (cr_resources c)"
    using ab bc list_all2_trans [of same_setup same_setup same_setup] same_setup_trans
    unfolding config_step_def by blast
  ultimately show ?thesis using bc by (simp add: config_step_def)
qed

lemma run_round_ok:
  assumes wf: "config_wf cr" and q: "0 < q"
  shows "\<exists>cr' q' c. run_round ops cr q = Some (cr', q', c) \<and> config_step cr cr' \<and> 0 \<le> q' \<and> q' \<le> q \<and>
    c = (if \<forall>res \<in> set (cr_resources cr). chosen res = None then Run_break else Run_continue) \<and>
    running_total cr' \<le> running_total cr \<and>
    (c = Run_continue \<longrightarrow> q' < q \<or> running_total cr' < running_total cr)"
proof -
  let ?rs = "cr_resources cr"
  obtain nxt where n: "next_runnable ?rs = Some (?rs, nxt)"
    "case nxt of None \<Rightarrow> \<forall>res \<in> set ?rs. chosen res = None
     | Some (r, t) \<Rightarrow> r < length ?rs \<and> chosen (?rs ! r) = Some t \<and> (\<forall>q < r. chosen (?rs ! q) = None)"
    using next_runnable_ok wf unfolding config_wf_def by blast
  have id: "cr\<lparr> cr_resources := ?rs \<rparr> = cr" by simp
  show ?thesis
  proof (cases nxt)
    case None
    then show ?thesis using n q config_step_refl [OF wf] by (simp add: run_round_def Let_def)
  next
    case (Some rt)
    obtain r t where rt: "rt = (r, t)" by (cases rt)
    let ?res = "?rs ! r"
    have r: "r < length ?rs" "chosen ?res = Some t" using n(2) Some rt by auto
    have rwf: "resource_wf ?res" using wf r(1) by (simp add: config_wf_def)
    note ch = chosen_runnable [OF rwf r(2)]
    obtain x q' where x: "run_task ops (the (cr_program cr)) ?res t q = Some (x, q', Run_continue)" "task_step t ?res x"
      "resource_wf x" "0 \<le> q'" "q' \<le> q" "q' < q \<or> \<not> runnable x t"
      "published (rn_image x) = published (rn_image ?res) \<and>
         st_completed_count (status_at x t) = st_completed_count (status_at ?res t) \<or>
       st_completed_count (status_at x t) = st_completed_count (status_at ?res t) + 1"
      using run_task_ok [OF rwf ch q, of "the (cr_program cr)"] by blast
    let ?cr = "cr\<lparr> cr_resources := ?rs[r := x] \<rparr>"
    have "run_round ops cr q = Some (?cr, q', Run_continue)"
      using n(1) Some rt x(1) by (simp add: run_round_def Let_def)
    moreover have "config_step cr ?cr"
    proof -
      have "publishes_completed ?res x"
        using x(7) completions_step [OF x(2) ch(1), of 0] completions_step [OF x(2) ch(1), of 1]
        by (auto simp: publishes_completed_def)
      then have "list_all2 publishes_completed ?rs (?rs[r := x])"
        using r(1) by (auto simp: list_all2_conv_all_nth nth_list_update publishes_refl)
      moreover have "list_all2 same_setup ?rs (?rs[r := x])" using x(2) r(1)
        by (auto simp: list_all2_conv_all_nth nth_list_update same_setup_def task_step_def)
      moreover have "config_wf ?cr" using wf x(3) set_update_subset_insert [of ?rs r x]
        by (auto simp: config_wf_def)
      ultimately show ?thesis by (simp add: config_step_def)
    qed
    moreover have tot: "running_total ?cr + running_tasks ?res = running_total cr + running_tasks x"
    proof -
      have "sum_list ((map running_tasks ?rs)[r := running_tasks x]) + running_tasks ?res =
          sum_list (map running_tasks ?rs) + running_tasks x"
        using r(1) by (simp add: sum_list_update)
          (metis add.commute elem_le_sum_list le_add_diff_inverse2 length_map nth_map trans_le_add1)
      then show ?thesis by (simp add: running_total_def map_update)
    qed
    moreover have "\<not> (\<forall>res \<in> set ?rs. chosen res = None)" using r nth_mem [OF r(1)] by fastforce
    moreover have "running_total ?cr \<le> running_total cr \<and> (q' < q \<or> running_total ?cr < running_total cr)"
      using tot x(6) running_tasks_step [OF x(2) ch(1,2)] by linarith
    ultimately show ?thesis using x(4,5) by (intro exI conjI) (simp_all only: if_False if_True simp_thms, simp_all)
  qed
qed

lemma run_loop_ok:
  assumes "config_wf cr" "nat q + running_total cr < fuel"
  shows "\<exists>cr'. run_loop ops fuel cr q = Some (cr', EC_ok) \<and> config_step cr cr'"
  using assms
proof (induction fuel arbitrary: cr q)
  case 0
  then show ?case by simp
next
  case (Suc fuel)
  show ?case
  proof (cases "q \<le> 0")
    case True
    with config_step_refl [OF Suc.prems(1)] show ?thesis by (simp add: run_loop.simps [of ops _ cr q])
  next
    case False
    obtain cr1 q1 c where r: "run_round ops cr q = Some (cr1, q1, c)" "config_step cr cr1" "0 \<le> q1" "q1 \<le> q"
      "c = (if \<forall>res \<in> set (cr_resources cr). chosen res = None then Run_break else Run_continue)" "running_total cr1 \<le> running_total cr"
      "c = Run_continue \<longrightarrow> q1 < q \<or> running_total cr1 < running_total cr"
      using run_round_ok [OF Suc.prems(1) _, of q] False not_le by blast
    show ?thesis
    proof (cases c)
      case Run_continue
      have "config_wf cr1" using r(2) by (simp add: config_step_def)
      moreover have "nat q1 + running_total cr1 < fuel" using r Run_continue Suc.prems(2) by auto
      ultimately obtain cr2 where "run_loop ops fuel cr1 q1 = Some (cr2, EC_ok)" "config_step cr1 cr2"
        using Suc.IH by blast
      with r Run_continue False config_step_trans [OF r(2)] show ?thesis
        by (simp add: run_loop.simps [of ops _ cr q])
    next
      case Run_break
      with r False show ?thesis by (simp add: run_loop.simps [of ops _ cr q])
    next
      case (Run_return e)
      with r(5) show ?thesis by (simp split: if_splits)
    qed
  qed
qed

lemma run_ok:
  assumes "config_wf cr" "cr_loaded cr" "0 \<le> q"
  shows "\<exists>cr'. run ops cr q = Some (cr', EC_ok) \<and> config_step cr cr'"
  using run_loop_ok [OF assms(1), of q "run_fuel cr q"] assms(2,3)
  by (simp add: run_def run_fuel_def running_total_def)


section \<open>Boundaries\<close>

text \<open>What a boundary leaves: the invariant, the configuration of the resource and its published images.\<close>

definition settled :: "'v ResourceRuntime \<Rightarrow> 'v ResourceRuntime \<Rightarrow> bool" where
  "settled res res' \<longleftrightarrow> resource_wf res' \<and> map tk_info (rn_tasks res') = map tk_info (rn_tasks res) \<and>
     rn_info res' = rn_info res \<and> rn_image_program res' = rn_image_program res \<and>
     rn_schedule res' = rn_schedule res \<and> map mr_program (rn_mappings res') = map mr_program (rn_mappings res) \<and>
     published (rn_image res') = published (rn_image res)"

lemma settled_refl: "resource_wf res \<Longrightarrow> settled res res"
  by (simp add: settled_def)

lemma settled_trans: "settled a b \<Longrightarrow> settled b c \<Longrightarrow> settled a c"
  by (simp add: settled_def)

lemma settled_length: "settled res res' \<Longrightarrow> length (rn_tasks res') = length (rn_tasks res)"
  unfolding settled_def by (metis length_map)

lemma settled_step:
  assumes "task_step t res res'" "resource_wf res'" "published (rn_image res') = published (rn_image res)"
  shows "settled res res'"
  using assms by (simp add: settled_def task_step_def)

lemma settled_fold:
  assumes "\<And>t r. resource_wf r \<Longrightarrow> t < length (rn_tasks r) \<Longrightarrow> \<exists>r'. f t r = Some r' \<and> settled r r'"
    and "resource_wf res" "\<forall>t \<in> set ts. t < length (rn_tasks res)"
  shows "\<exists>res'. fold_some f ts res = Some res' \<and> settled res res'"
  using assms(2,3)
proof (induction ts arbitrary: res)
  case Nil
  then show ?case by (simp add: settled_refl)
next
  case (Cons t ts)
  then obtain r where r: "f t res = Some r" "settled res r" using assms(1) [of res t] by auto
  then have "resource_wf r" "\<forall>t \<in> set ts. t < length (rn_tasks r)"
    using Cons.prems settled_length [OF r(2)] by (auto simp: settled_def)
  from Cons.IH [OF this] r settled_trans show ?case by auto
qed

lemma settled_storage:
  assumes wf: "resource_wf res" and t: "t < length (rn_tasks res)"
    and "ts_transaction_active (f (storage_at res t)) = ts_transaction_active (storage_at res t)"
    and "st_state (ts_status (f (storage_at res t))) = st_state (status_at res t) \<or> rn_owner res \<noteq> Some t"
  shows "settled res (upd_storage t f res)"
proof -
  have b: "base_wf (upd_storage t f res)"
    using assms(1-3) by (intro base_wf_upd_storage) (simp_all add: resource_wf_def)
  have "runnable (upd_storage t f res) u" if "rn_owner res = Some u" for u
    using assms that by (cases "u = t") (auto simp: resource_wf_def runnable_def)
  with b have "resource_wf (upd_storage t f res)" by (simp add: resource_wf_def)
  then show ?thesis by (rule settled_step [OF task_step_upd_storage [OF b t]]) simp
qed

lemma discard_settled:
  assumes "resource_wf res" "t < length (rn_tasks res)"
  shows "\<exists>res'. discard_transaction res t = Some res' \<and> settled res res' \<and> rn_owner res' \<noteq> Some t"
proof -
  obtain r where r: "discard_transaction res t = Some r" "task_step t res r"
    "rn_owner r = (if rn_owner res = Some t then None else rn_owner res)"
    "published (rn_image r) = published (rn_image res)"
    using discard_transaction_ok assms by (fastforce simp: resource_wf_def)
  then show ?thesis using settled_step [OF r(2) resource_wf_closed [OF assms(1) r(2) r(3)] r(4)] by simp
qed

lemma fault_settled:
  assumes "resource_wf res" "t < length (rn_tasks res)"
  shows "\<exists>res'. fault_task ops p res t fault mapping = Some res' \<and> settled res res'"
proof -
  obtain r where r: "fault_task ops p res t fault mapping = Some r" "task_step t res r"
    "rn_owner r = (if rn_owner res = Some t then None else rn_owner res)"
    "published (rn_image r) = published (rn_image res)"
    using fault_task_ok [of res t p fault mapping] assms by (auto simp: resource_wf_def)
  then show ?thesis using settled_step [OF r(2) resource_wf_closed [OF assms(1) r(2) r(3)] r(4)] by simp
qed

lemma renew_mapping_step: "base_wf r \<Longrightarrow> instances_step r (renew_mapping ops base restart m r)"
  using base_wfD(1,2) [of r] base_wfD(5,6) [of r m]
  by (auto simp: renew_mapping_def Let_def inv_load inv_reset intro!: instances_step_refl instances_step_upd)

lemma renew_settled:
  assumes wf: "resource_wf res" and t: "t < length (rn_tasks res)"
  shows "\<exists>res'. renew_task ops base restart res t tick = Some res' \<and> settled res res'"
proof -
  obtain d where d: "discard_transaction res t = Some d" "settled res d" "rn_owner d \<noteq> Some t"
    using discard_settled [OF assms] by blast
  let ?m = "fold (renew_mapping ops base restart) (task_mappings d t) d"
  have "base_wf d" using d(2) by (simp add: settled_def resource_wf_def)
  then have m: "instances_step d ?m" by (intro instances_step_fold renew_mapping_step)
  then have mt: "rn_tasks ?m = rn_tasks d" "rn_owner ?m = rn_owner d" "rn_image ?m = rn_image d"
    unfolding instances_step_def
    by (metis (no_types, lifting) ResourceRuntime.select_convs(4,5,10) ResourceRuntime.surjective
        ResourceRuntime.update_convs(6))+
  have tl: "t < length (rn_tasks ?m)" using mt(1) settled_length [OF d(2)] t by simp
  let ?f = "\<lambda>tk. tk\<lparr> tk_storage := initial_task_storage
      \<lparr> ts_status := initial_task_status\<lparr> st_release_count := st_release_count (status_at res t),
          st_completed_count := st_completed_count (status_at res t),
          st_fault_count := st_fault_count (status_at res t) \<rparr>,
        ts_eligible_tick := saturating_next tick \<rparr>, tk_parked := False \<rparr>"
  let ?r = "upd_task t ?f ?m"
  have bm: "base_wf ?m" using m by (simp add: instances_step_def)
  have "\<not> ts_transaction_active (storage_at ?m t)" using base_wfD(4) [OF bm tl] mt(2) d(3) by simp
  then have b: "base_wf ?r"
    using base_wfD(3) [OF bm tl] by (intro base_wf_upd_task [OF bm tl])
      (simp_all add: task_wf_def initial_task_storage_def)
  have ts: "task_step t d ?r"
    using task_step_trans [OF instances_step_task [OF m] task_step_upd_task [OF b tl]] by simp
  have rwf: "resource_wf d" using d(2) by (simp add: settled_def)
  have "resource_wf ?r"
    by (rule resource_wf_closed [OF rwf ts]) (use mt(2) d(3) in simp)
  then have "settled d ?r" using ts mt(3) by (intro settled_step) simp_all
  moreover have "renew_task ops base restart res t tick = Some ?r"
    using d(1) by (simp add: renew_task_def Let_def)
  ultimately show ?thesis using settled_trans [OF d(2)] by blast
qed

lemma apply_pending_settled:
  assumes wf: "resource_wf res" and t: "t < length (rn_tasks res)"
  shows "\<exists>res'. apply_pending ops p base tick t res = Some res' \<and> settled res res'"
proof -
  let ?u = "upd_storage t (\<lambda>s. s\<lparr> ts_pending_wallclock_fault := False \<rparr>) res"
  have u: "settled res ?u" by (rule settled_storage [OF wf t]) simp_all
  have "\<exists>r. (if ts_pending_wallclock_fault (storage_at res t)
      then if st_state (status_at ?u t) = TS_running
           then fault_task ops p ?u t TF_task_wallclock_exceeded None else Some ?u
      else Some res) = Some r \<and> settled res r"
  proof -
    have "resource_wf ?u" "t < length (rn_tasks ?u)" using u t by (simp_all add: settled_def)
    then obtain f where "fault_task ops p ?u t TF_task_wallclock_exceeded None = Some f" "settled ?u f"
      using fault_settled by blast
    then show ?thesis using u settled_refl [OF wf] settled_trans [OF u, of f] by simp
  qed
  then obtain r where r: "(if ts_pending_wallclock_fault (storage_at res t)
      then if st_state (status_at ?u t) = TS_running
           then fault_task ops p ?u t TF_task_wallclock_exceeded None else Some ?u
      else Some res) = Some r" "settled res r" by blast
  have rl: "resource_wf r" "t < length (rn_tasks r)" using r(2) settled_length [OF r(2)] t by (simp_all add: settled_def)
  let ?w = "upd_storage t (\<lambda>s. s\<lparr> ts_pending_reset := False, ts_pending_restart := False \<rparr>) r"
  have w: "settled r ?w" by (rule settled_storage [OF rl]) simp_all
  have "resource_wf ?w" "t < length (rn_tasks ?w)" using w rl by (simp_all add: settled_def)
  then obtain n where "renew_task ops base (ts_pending_restart (storage_at r t)) ?w t tick = Some n" "settled ?w n"
    using renew_settled by blast
  then show ?thesis
    unfolding apply_pending_def Let_def r(1)
    using settled_trans [OF r(2) settled_trans [OF w, of n]] r(2) by simp
qed

lemma release_settled:
  assumes wf: "resource_wf res" and t: "t < length (rn_tasks res)"
  shows "\<exists>res'. release tick events t res = Some res' \<and> settled res res'"
proof -
  define due level where dl: "due = fst (task_due (rn_info res) (tk_info (rn_tasks res ! t))
      (ts_last_event_level (storage_at res t)) tick events)"
    "level = snd (task_due (rn_info res) (tk_info (rn_tasks res ! t))
      (ts_last_event_level (storage_at res t)) tick events)"
  let ?a = "upd_storage t (\<lambda>s. s\<lparr> ts_last_event_level := level \<rparr>) res"
  have a: "settled res ?a" by (rule settled_storage [OF wf t]) simp_all
  have al: "resource_wf ?a" "t < length (rn_tasks ?a)" using a t by (simp_all add: settled_def)
  let ?st = "st_state (status_at ?a t)"
  let ?missed = "upd_status t (\<lambda>s. s\<lparr> st_missed_release_count := st_missed_release_count s + 1 \<rparr>) ?a"
  have m: "settled ?a ?missed" unfolding upd_status_def by (rule settled_storage [OF al]) simp_all
  let ?ti = "tk_info (rn_tasks res ! t)"
  let ?go = "upd_storage t (\<lambda>s. s\<lparr> ts_status := (ts_status s)\<lparr> st_state := TS_running,
        st_remaining_budget := ti_instruction_budget ?ti,
        st_release_count := st_release_count (ts_status s) + 1 \<rparr>,
      ts_release_tick := tick, ts_mapping_cursor := 0 \<rparr>) ?a"
  have rel: "release tick events t res =
      (if \<not> due \<or> ?st = TS_faulted \<or> ?st = TS_paused \<or> tick < ts_eligible_tick (storage_at ?a t) then Some ?a
       else if ?st = TS_running then Some ?missed
       else if ti_mappings ?ti = [] then complete_task ?go t else Some ?go)"
    by (simp add: release_def Let_def dl split: prod.split)
  show ?thesis
  proof (cases "?st = TS_running")
    case True
    then show ?thesis using rel a settled_trans [OF a m] by simp
  next
    case False
    then have own: "rn_owner ?a \<noteq> Some t" using al(1) by (auto simp: resource_wf_def runnable_def)
    have g: "settled ?a ?go" by (rule settled_storage [OF al]) (use own in simp_all)
    have gl: "resource_wf ?go" "t < length (rn_tasks ?go)" "rn_owner ?go \<noteq> Some t"
      using g al own by (simp_all add: settled_def)
    obtain c where c: "complete_task ?go t = Some c" "task_step t ?go c"
      "rn_owner c = (if rn_owner ?go = Some t then None else rn_owner ?go)"
      "published (rn_image c) = published (rn_image ?go)"
      using complete_task_ok [of ?go t] gl by (auto simp: resource_wf_def)
    have "settled ?go c" by (rule settled_step [OF c(2) resource_wf_closed [OF gl(1) c(2) c(3)] c(4)])
    with c(1) rel a False settled_trans [OF a g] settled_trans [OF settled_trans [OF a g]] show ?thesis by simp
  qed
qed

text \<open>Aborting a resource: while the tasks are aborted one by one, the flag of the former owner may still
  be set; \<open>quiet\<close> is the resource with all flags cleared.\<close>

definition off :: "TaskRuntime \<Rightarrow> TaskRuntime" where
  "off tk = tk\<lparr> tk_storage := (tk_storage tk)\<lparr> ts_transaction_active := False \<rparr> \<rparr>"

definition quiet :: "'v ResourceRuntime \<Rightarrow> 'v ResourceRuntime" where
  "quiet res = res\<lparr> rn_tasks := map off (rn_tasks res) \<rparr>"

lemma quiet_id:
  assumes "\<forall>t < length (rn_tasks res). \<not> ts_transaction_active (storage_at res t)"
  shows "quiet res = res"
proof -
  have "off tk = tk" if "\<not> ts_transaction_active (tk_storage tk)" for tk
    using that by (simp add: off_def)
  then have "map off (rn_tasks res) = rn_tasks res"
    using assms by (intro map_idI) (auto simp: in_set_conv_nth)
  then show ?thesis by (simp add: quiet_def)
qed

lemma upd_instance_tasks: "upd_instance m g (res\<lparr> rn_tasks := ts \<rparr>) = (upd_instance m g res)\<lparr> rn_tasks := ts \<rparr>"
  by (simp add: upd_instance_def)

lemma abort_mappings_tasks:
  "abort_mappings ops t (res\<lparr> rn_tasks := ts \<rparr>) =
     (fold (\<lambda>m r. if m < length (rn_mappings r) then upd_instance m (op_abort ops) r else r)
       (ti_mappings (tk_info (ts ! t))) res)\<lparr> rn_tasks := ts \<rparr>"
proof -
  have "fold (\<lambda>m r. if m < length (rn_mappings r) then upd_instance m (op_abort ops) r else r) ms
      (r\<lparr> rn_tasks := ts \<rparr>) =
    (fold (\<lambda>m r. if m < length (rn_mappings r) then upd_instance m (op_abort ops) r else r) ms r)
      \<lparr> rn_tasks := ts \<rparr>" for ms and r :: "'v ResourceRuntime"
    by (induction ms arbitrary: r) (simp_all add: upd_instance_tasks)
  then show ?thesis by (simp add: abort_mappings_def)
qed

lemma abort_mappings_quiet:
  assumes "t < length (rn_tasks res)"
  shows "abort_mappings ops t (quiet res) = quiet (abort_mappings ops t res)"
    "rn_tasks (abort_mappings ops t res) = rn_tasks res"
proof -
  show r: "rn_tasks (abort_mappings ops t res) = rn_tasks res"
    using abort_mappings_tasks [of t "rn_tasks res" res] by simp
  have "abort_mappings ops t (quiet res) = (abort_mappings ops t res)\<lparr> rn_tasks := map off (rn_tasks res) \<rparr>"
    using abort_mappings_tasks [of t "map off (rn_tasks res)" res] assms
    by (simp add: quiet_def off_def abort_mappings_def)
  then show "abort_mappings ops t (quiet res) = quiet (abort_mappings ops t res)" by (simp add: quiet_def r)
qed

lemma abort_task_quiet:
  assumes "t < length (rn_tasks res)"
  shows "quiet (abort_task ops t res) = abort_task ops t (quiet res)"
  unfolding abort_task_def abort_mappings_quiet(1) [OF assms]
  using assms abort_mappings_quiet(2) [OF assms]
  by (simp add: quiet_def upd_storage_def upd_task_def map_update off_def)

lemma settled_abort_task:
  assumes "resource_wf res" "rn_owner res = None" "t < length (rn_tasks res)"
  shows "settled res (abort_task ops t res)" "rn_owner (abort_task ops t res) = None"
proof -
  let ?a = "abort_mappings ops t res"
  have wf: "base_wf res" using assms(1) by (simp add: resource_wf_def)
  have i: "instances_step res ?a" by (rule abort_mappings_step [OF wf])
  then have o: "rn_owner ?a = None" "rn_image ?a = rn_image res"
    using assms(2) unfolding instances_step_def
    by (metis (no_types, lifting) ResourceRuntime.select_convs(4,10) ResourceRuntime.surjective
        ResourceRuntime.update_convs(6))+
  have a: "resource_wf ?a" "t < length (rn_tasks ?a)"
    using i o assms(3) abort_mappings_quiet(2) [OF assms(3)] by (simp_all add: instances_step_def resource_wf_def)
  have na: "\<not> ts_transaction_active (storage_at ?a t)"
    using base_wfD(4) [of ?a t] a o by (simp add: resource_wf_def)
  have "settled res ?a" by (rule settled_step [OF instances_step_task [OF i] a(1)]) (simp add: o)
  moreover have "settled ?a (abort_task ops t res)" unfolding abort_task_def
    by (rule settled_storage [OF a]) (simp_all add: na o)
  ultimately show "settled res (abort_task ops t res)" by (rule settled_trans)
  show "rn_owner (abort_task ops t res) = None" by (simp add: abort_task_def o)
qed

lemma settled_abort_tasks:
  assumes "resource_wf res" "rn_owner res = None" "\<forall>t \<in> set ts. t < length (rn_tasks res)"
  shows "settled res (fold (abort_task ops) ts res)"
  using assms
proof (induction ts arbitrary: res)
  case Nil
  then show ?case by (simp add: settled_refl)
next
  case (Cons t ts)
  then have a: "settled res (abort_task ops t res)" "rn_owner (abort_task ops t res) = None"
    using settled_abort_task [of res t] by simp_all
  then have "settled (abort_task ops t res) (fold (abort_task ops) ts (abort_task ops t res))"
    using Cons.prems(3) settled_length [OF a(1)] by (intro Cons.IH) (simp_all add: settled_def)
  with settled_trans [OF a(1)] show ?case by simp
qed

lemma abort_resource_settled:
  assumes wf: "resource_wf res"
  shows "\<exists>res'. abort_resource ops res = Some res' \<and> settled res res'"
proof (cases "rn_owner res")
  case None
  then show ?thesis
    using settled_abort_tasks [OF wf None, of "[0..<length (rn_tasks res)]"]
    by (simp add: abort_resource_def)
next
  case (Some t)
  have t: "t < length (rn_tasks res)" using wf Some by (simp add: resource_wf_def base_wf_def)
  obtain im where im: "discard_scan (rn_image res) = Some im" "image_wf im"
    "im_program im = im_program (rn_image res)" "\<not> im_transaction_active im"
    "published im = published (rn_image res)"
    using discard_image [of "rn_image res"] wf base_wfD(1) by (auto simp: resource_wf_def)
  let ?d = "res\<lparr> rn_image := im, rn_owner := None \<rparr>"
  have len: "length (rn_tasks ?d) = length (rn_tasks res)" by simp
  have "base_wf (quiet ?d)"
    using wf im by (auto simp: resource_wf_def base_wf_def quiet_def off_def task_wf_def)
  then have q: "settled res (quiet ?d)"
    using wf im by (auto simp: settled_def resource_wf_def quiet_def off_def)
  let ?ts = "[0..<length (rn_tasks res)]"
  have fq: "quiet (fold (abort_task ops) ts r) = fold (abort_task ops) ts (quiet r) \<and>
      length (rn_tasks (fold (abort_task ops) ts r)) = length (rn_tasks r) \<and>
      (\<forall>t < length (rn_tasks r). t \<in> set ts \<or> \<not> ts_transaction_active (storage_at r t) \<longrightarrow>
        \<not> ts_transaction_active (storage_at (fold (abort_task ops) ts r) t))"
    if "\<forall>t \<in> set ts. t < length (rn_tasks r)" for ts and r :: "'v ResourceRuntime"
    using that
  proof (induction ts arbitrary: r)
    case Nil
    then show ?case by simp
  next
    case (Cons t ts)
    then have t: "t < length (rn_tasks r)" by simp
    have l: "length (rn_tasks (abort_task ops t r)) = length (rn_tasks r)"
      "\<forall>u < length (rn_tasks r). u = t \<or> \<not> ts_transaction_active (storage_at r u) \<longrightarrow>
        \<not> ts_transaction_active (storage_at (abort_task ops t r) u)"
      using t abort_mappings_quiet(2) [OF t] by (auto simp: abort_task_def)
    then have "\<forall>u \<in> set ts. u < length (rn_tasks (abort_task ops t r))" using Cons.prems by simp
    from Cons.IH [OF this] l abort_task_quiet [OF t] show ?case by auto
  qed
  let ?f = "fold (abort_task ops) ?ts ?d"
  have "quiet ?f = fold (abort_task ops) ?ts (quiet ?d)" "quiet ?f = ?f"
    using fq [of ?ts ?d] quiet_id [of ?f] by simp_all
  moreover have "settled (quiet ?d) (fold (abort_task ops) ?ts (quiet ?d))"
    using q by (intro settled_abort_tasks) (simp_all add: settled_def, simp_all add: quiet_def)
  ultimately have "settled res ?f" using settled_trans [OF q] by simp
  moreover have "abort_resource ops res = Some ?f" using Some im(1) by (simp add: abort_resource_def)
  ultimately show ?thesis by blast
qed

lemma settled_storage_record [simp]:
  "resource_wf (res\<lparr> rn_storage := s \<rparr>) = resource_wf res"
  "settled res (res\<lparr> rn_storage := s \<rparr>) = resource_wf res"
  by (simp_all add: settled_def resource_wf_def base_wf_def runnable_def)

text \<open>A boundary returns, keeps the invariant and publishes nothing.\<close>

lemma boundary_resource_settled:
  assumes wf: "resource_wf res"
  shows "\<exists>res'. boundary_resource ops p base tick events res = Some res' \<and> settled res res'"
proof -
  let ?st = "(rn_storage res)\<lparr> rr_boundary_tick := tick \<rparr>"
  let ?fault = "rr_pending_fault ?st"
  let ?s = "?st\<lparr> rr_status := (rr_status ?st)\<lparr> rs_fault := ?fault,
    rs_fault_count := rs_fault_count (rr_status ?st) + 1 \<rparr>, rr_pending_fault := RF_none \<rparr>"
  have start: "\<exists>r. (if ?fault \<noteq> RF_none then abort_resource ops (res\<lparr> rn_storage := ?s \<rparr>)
      else Some (res\<lparr> rn_storage := ?st \<rparr>)) = Some r \<and> settled res r"
  proof (cases "?fault = RF_none")
    case True
    then show ?thesis using wf by simp
  next
    case False
    have s: "settled res (res\<lparr> rn_storage := ?s \<rparr>)" "resource_wf (res\<lparr> rn_storage := ?s \<rparr>)" using wf by simp_all
    from abort_resource_settled [OF s(2)] obtain a where
      "abort_resource ops (res\<lparr> rn_storage := ?s \<rparr>) = Some a" "settled (res\<lparr> rn_storage := ?s \<rparr>) a" by blast
    with settled_trans [OF s(1)] False show ?thesis by auto
  qed
  then obtain r1 where r1: "(if ?fault \<noteq> RF_none then abort_resource ops (res\<lparr> rn_storage := ?s \<rparr>)
      else Some (res\<lparr> rn_storage := ?st \<rparr>)) = Some r1" "settled res r1" by blast
  have "resource_wf r1" using r1(2) by (simp add: settled_def)
  from settled_fold [of "apply_pending ops p base tick" r1 "[0..<length (rn_tasks r1)]",
      OF apply_pending_settled this] obtain r2 where
    r2: "fold_some (apply_pending ops p base tick) [0..<length (rn_tasks r1)] r1 = Some r2" "settled r1 r2" by auto
  have "resource_wf r2" using r2(2) by (simp add: settled_def)
  from settled_fold [of "release tick events" r2 "[0..<length (rn_tasks r2)]", OF release_settled this] obtain r3 where
    r3: "fold_some (release tick events) [0..<length (rn_tasks r2)] r2 = Some r3" "settled r2 r3" by auto
  have "boundary_resource ops p base tick events res =
      (if rs_fault (resource_status r2) \<noteq> RF_none then Some r2 else Some r3)"
    unfolding boundary_resource_def Let_def r1(1) using r2(1) r3(1) by simp
  with settled_trans [OF r1(2) r2(2)] settled_trans [OF settled_trans [OF r1(2) r2(2)] r3(2)] show ?thesis by simp
qed

lemma map_some_settled:
  assumes "\<And>r. resource_wf r \<Longrightarrow> \<exists>r'. f r = Some r' \<and> settled r r'" "\<forall>r \<in> set rs. resource_wf r"
  shows "\<exists>rs'. map_some f rs = Some rs' \<and> list_all2 settled rs rs'"
  using assms(2)
proof (induction rs)
  case (Cons r rs)
  with assms(1) [of r] show ?case by auto
qed simp

lemma boundary_ok:
  assumes "config_wf cr"
  shows "\<exists>cr' e. boundary ops cr tick events n = Some (cr', e) \<and> config_wf cr' \<and>
    list_all2 settled (cr_resources cr) (cr_resources cr')"
proof -
  have refl: "list_all2 settled (cr_resources cr) (cr_resources cr)"
    using assms by (auto simp: config_wf_def list_all2_same settled_refl)
  obtain rs where rs: "map_some (boundary_resource ops (the (cr_program cr)) (cr_base_tick_ns cr) tick
      (if n = 0 then [] else take n (the events))) (cr_resources cr) = Some rs"
    "list_all2 settled (cr_resources cr) rs"
    using map_some_settled [of "boundary_resource ops (the (cr_program cr)) (cr_base_tick_ns cr) tick
      (if n = 0 then [] else take n (the events))" "cr_resources cr", OF boundary_resource_settled] assms
    unfolding config_wf_def by blast
  then have "\<forall>r \<in> set rs. resource_wf r"
    by (auto simp: list_all2_conv_all_nth in_set_conv_nth settled_def)
  with rs refl assms show ?thesis by (auto simp: boundary_def config_wf_def)
qed

end

end
