(* ===== verification/ConfigLoadProps.thy ===== *)
theory ConfigLoadProps
  imports ConfigProps
begin

text \<open>
  What loading a configuration establishes: the merged image of a resource is well formed when the
  images of its programs are, and a loaded configuration satisfies the invariant of the scheduler.
\<close>

section \<open>Merging\<close>

lemma fold_some_invariant:
  assumes "fold_some f xs s = Some s'" "P s"
    and "\<And>x s s'. x \<in> set xs \<Longrightarrow> P s \<Longrightarrow> f x s = Some s' \<Longrightarrow> P s'"
  shows "P s'"
  using assms
proof (induction xs arbitrary: s)
  case (Cons x xs)
  then obtain s1 where "f x s = Some s1" "fold_some f xs s1 = Some s'" by (auto split: bind_splits)
  with Cons show ?case by auto
qed simp

lemma overlaps_disjoint: "located_in n a \<Longrightarrow> located_in m b \<Longrightarrow> \<not> overlaps a b \<Longrightarrow> disjoint_vars a b"
  by (auto simp: overlaps_def disjoint_vars_def)

lemma find_merged_free:
  assumes "find_merged data md v prior = Some False" "u \<in> set prior" "lv_area v \<noteq> PA_input"
  shows "\<not> overlaps u v"
  using assms by (induction data md v prior rule: find_merged.induct) (auto split: if_splits)

text \<open>The variables merged so far: those of earlier programs, then some of the program's own, at new
  offsets.\<close>

definition in_image :: "ProcessImageInfo \<Rightarrow> LocatedVarInfo \<Rightarrow> bool" where
  "in_image pi v \<longleftrightarrow> located_in (area_bytes pi (lv_area v)) v \<and> (retained v \<longrightarrow> lv_area v = PA_memory) \<and>
     lv_byte_width v dvd lv_byte_offset v"

definition pairwise_apart :: "LocatedVarInfo list \<Rightarrow> bool" where
  "pairwise_apart vs \<longleftrightarrow> sorted_wrt (\<lambda>u v. lv_area v \<noteq> PA_input \<longrightarrow> disjoint_vars v u) vs"

lemma layout_split:
  "image_layout_wf pi \<longleftrightarrow> (\<forall>v \<in> set (pi_variables pi). in_image pi v) \<and> pairwise_apart (pi_variables pi)"
  by (auto simp: image_layout_wf_def in_image_def pairwise_apart_def sorted_wrt_iff_nth_less)

definition at_offset :: "LocatedVarInfo \<Rightarrow> nat \<Rightarrow> LocatedVarInfo" where
  "at_offset v n = v\<lparr> lv_var_offset := n \<rparr>"

lemma at_offset_simps [simp]:
  "disjoint_vars (at_offset v n) u = disjoint_vars v u" "disjoint_vars u (at_offset v n) = disjoint_vars u v"
  "lv_area (at_offset v n) = lv_area v" "in_image pi (at_offset v n) = in_image pi v"
  "lv_byte_width (at_offset v n) = lv_byte_width v" "lv_var_offset (at_offset v n) = n"
  by (simp_all add: at_offset_def disjoint_vars_def physical_begin_def physical_end_def in_image_def
      located_in_def retained_def)

lemma merge_vars_ok:
  assumes "fold_some (merge_var data prior) vs (prior @ new, md) = Some vd"
    and "\<forall>v \<in> set vs. in_image pi v" "pairwise_apart (done @ vs)"
    and "\<forall>v \<in> set prior. in_image pi v"
    and "\<forall>v \<in> set new. \<exists>u \<in> set done. \<exists>n. v = at_offset u n"
    and "\<forall>v \<in> set (prior @ new). in_image pi v \<and> lv_var_offset v + lv_byte_width v \<le> length md"
    and "pairwise_apart (prior @ new)"
  shows "(\<forall>v \<in> set (fst vd). in_image pi v \<and> lv_var_offset v + lv_byte_width v \<le> length (snd vd)) \<and>
    pairwise_apart (fst vd)"
  using assms
proof (induction vs arbitrary: new md "done")
  case Nil
  then show ?case by auto
next
  case (Cons v vs)
  from Cons.prems(1) obtain vd1 where vd1: "merge_var data prior v (prior @ new, md) = Some vd1"
    "fold_some (merge_var data prior) vs vd1 = Some vd" by (auto split: bind_splits)
  have rest: "\<forall>v \<in> set vs. in_image pi v" "pairwise_apart ((done @ [v]) @ vs)"
    using Cons.prems(2,3) by simp_all
  from vd1(1) consider
      (found) "vd1 = (prior @ new, md)"
    | (fresh) "find_merged data md v prior = Some False" "lv_var_offset v + lv_byte_width v \<le> length data"
        "vd1 = (prior @ new @ [at_offset v (length md)], md @ seg data (lv_var_offset v) (lv_byte_width v))"
    by (auto simp: merge_var_def at_offset_def split: option.splits bool.splits if_splits)
  then show ?case
  proof cases
    case found
    show ?thesis
      using Cons.prems(5) by (intro Cons.IH [OF vd1(2) [unfolded found] rest Cons.prems(4) _ Cons.prems(6,7)]) auto
  next
    case fresh
    let ?w = "at_offset v (length md)" and ?md = "md @ seg data (lv_var_offset v) (lv_byte_width v)"
    have v: "in_image pi v" using Cons.prems(2) by simp
    have disj: "disjoint_vars v u" if "u \<in> set (prior @ new)" "lv_area v \<noteq> PA_input" for u
    proof (cases "u \<in> set prior")
      case True
      then have "\<not> overlaps u v" "in_image pi u" using find_merged_free [OF fresh(1)] that Cons.prems(4) by auto
      with v disjoint_vars_sym show ?thesis unfolding in_image_def using overlaps_disjoint by blast
    next
      case False
      with that Cons.prems(5) obtain x n where "u = at_offset x n" "x \<in> set done" by auto
      with Cons.prems(3) that(2) show ?thesis by (auto simp: pairwise_apart_def sorted_wrt_append)
    qed
    have seg: "length ?md = length md + lv_byte_width v" using fresh(2) by simp
    show ?thesis
    proof (rule Cons.IH [of "new @ [?w]" ?md "done @ [v]"])
      show "fold_some (merge_var data prior) vs (prior @ new @ [?w], ?md) = Some vd"
        using vd1(2) fresh(3) by simp
      show "\<forall>u \<in> set (new @ [?w]). \<exists>x \<in> set (done @ [v]). \<exists>n. u = at_offset x n"
        using Cons.prems(5) by auto
      show "\<forall>u \<in> set (prior @ new @ [?w]). in_image pi u \<and> lv_var_offset u + lv_byte_width u \<le> length ?md"
        using Cons.prems(6) v seg by (auto intro: trans_le_add1)
      show "pairwise_apart (prior @ new @ [?w])"
        using Cons.prems(7) disj by (auto simp: pairwise_apart_def sorted_wrt_append)
    qed (use rest Cons.prems(4) in auto)
  qed
qed

definition image_acc_wf :: "ProcessImageInfo \<times> bytes \<Rightarrow> bool" where
  "image_acc_wf acc \<longleftrightarrow> image_layout_wf (fst acc) \<and>
     (\<forall>v \<in> set (pi_variables (fst acc)). lv_var_offset v + lv_byte_width v \<le> length (snd acc))"

definition covers :: "ProcessImageInfo \<Rightarrow> ProcessImageInfo \<Rightarrow> bool" where
  "covers a b \<longleftrightarrow> (\<forall>x. area_bytes b x \<le> area_bytes a x)"

lemma in_image_mono: "in_image b v \<Longrightarrow> covers a b \<Longrightarrow> in_image a v"
  by (auto simp: in_image_def covers_def elim: located_in_mono)

lemma merge_program_ok:
  assumes "merge_program p acc = Some acc'" "loadable p" "image_acc_wf acc"
  shows "image_acc_wf acc' \<and> covers (fst acc') (fst acc) \<and> covers (fst acc') (process_image p)"
proof -
  let ?img = "fst acc" and ?pi = "process_image p"
  let ?img1 = "?img\<lparr> pi_input_bytes := max (pi_input_bytes ?img) (pi_input_bytes ?pi),
    pi_output_bytes := max (pi_output_bytes ?img) (pi_output_bytes ?pi),
    pi_memory_bytes := max (pi_memory_bytes ?img) (pi_memory_bytes ?pi),
    pi_max_force_entries := max (pi_max_force_entries ?img) (pi_max_force_entries ?pi),
    pi_fingerprint := xor (pi_fingerprint ?img) (pi_fingerprint ?pi) \<rparr>"
  obtain vs data where f: "fold_some (merge_var (initial_data p) (pi_variables ?img)) (pi_variables ?pi)
      (pi_variables ?img @ [], snd acc) = Some (vs, data)" "acc' = (?img1\<lparr> pi_variables := vs \<rparr>, data)"
    using assms(1) by (auto simp: merge_program_def Let_def split: option.splits)
  have c: "covers ?img1 ?img" "covers ?img1 ?pi"
    by (auto simp: covers_def area_bytes_def split: ProcessArea.split)
  have own: "\<forall>v \<in> set (pi_variables ?pi). in_image ?pi v" "pairwise_apart (pi_variables ?pi)"
    using assms(2) by (simp_all add: loadable_def layout_split)
  have old: "\<forall>v \<in> set (pi_variables ?img). in_image ?img v" "pairwise_apart (pi_variables ?img)"
    using assms(3) by (simp_all add: image_acc_wf_def layout_split)
  have r: "(\<forall>v \<in> set vs. in_image ?img1 v \<and> lv_var_offset v + lv_byte_width v \<le> length data) \<and> pairwise_apart vs"
    using merge_vars_ok [OF f(1), of ?img1 "[]"] own old in_image_mono [OF _ c(1)] in_image_mono [OF _ c(2)] assms(3)
    by (auto simp: image_acc_wf_def)
  have e: "in_image (?img1\<lparr> pi_variables := vs \<rparr>) v = in_image ?img1 v"
    "covers (?img1\<lparr> pi_variables := vs \<rparr>) b = covers ?img1 b" for v b
    by (simp_all add: in_image_def covers_def)
  show ?thesis using r c by (simp add: image_acc_wf_def layout_split f(2) e)
qed

lemma covers_trans: "covers a b \<Longrightarrow> covers b c \<Longrightarrow> covers a c"
  unfolding covers_def by (meson order_trans)

lemma merge_programs_ok:
  assumes "fold_some merge_program ps acc = Some acc'" "\<forall>p \<in> set ps. loadable p" "image_acc_wf acc"
  shows "image_acc_wf acc' \<and> covers (fst acc') (fst acc) \<and> (\<forall>p \<in> set ps. covers (fst acc') (process_image p))"
  using assms
proof (induction ps arbitrary: acc)
  case Nil
  then show ?case by (simp add: covers_def)
next
  case (Cons p ps)
  then obtain a where a: "merge_program p acc = Some a" "fold_some merge_program ps a = Some acc'"
    by (auto split: bind_splits)
  from merge_program_ok [OF a(1)] Cons.prems have p: "image_acc_wf a" "covers (fst a) (fst acc)"
    "covers (fst a) (process_image p)" by simp_all
  with Cons.IH [OF a(2)] Cons.prems covers_trans show ?case by auto
qed

text \<open>The image of a resource is loadable, and covers the images of its programs.\<close>

lemma build_image_ok:
  assumes "build_image_program ps = Some ip" "\<forall>p \<in> set ps. loadable p"
  shows "loadable ip \<and> (\<forall>p \<in> set ps. covers (process_image ip) (process_image p))"
proof -
  let ?e = "empty_image\<lparr> pi_max_force_entries := 0 \<rparr>"
  obtain img data where f: "fold_some merge_program ps (?e, []) = Some (img, data)"
    "ip = Program (empty_body\<lparr> pb_process_image := img, pb_initial_data := data \<rparr>) []"
    using assms(1) by (auto simp: build_image_program_def split: option.splits)
  have "image_acc_wf (?e, [])" by (simp add: image_acc_wf_def image_layout_wf_def empty_image_def)
  from merge_programs_ok [OF f(1) assms(2) this] f(2) show ?thesis
    by (simp add: loadable_def image_acc_wf_def)
qed


section \<open>A loaded resource\<close>

lemma load_tasks_quiet:
  assumes "fold_some (load_task a limit) tis ([], c) = Some (tasks, c')"
  shows "map tk_info tasks = tis \<and> (\<forall>tk \<in> set tasks. tk_storage tk = initial_task_storage)"
proof -
  have "fold_some (load_task a limit) tis tc = Some (tasks, c') \<Longrightarrow>
      (\<forall>tk \<in> set (fst tc). tk_storage tk = initial_task_storage) \<Longrightarrow>
      map tk_info tasks = map tk_info (fst tc) @ tis \<and> (\<forall>tk \<in> set tasks. tk_storage tk = initial_task_storage)" for tc
  proof (induction tis arbitrary: tc)
    case (Cons ti tis)
    from Cons.prems(1) obtain tc1 where tc1: "load_task a limit ti tc = Some tc1"
      "fold_some (load_task a limit) tis tc1 = Some (tasks, c')" by (auto split: bind_splits)
    then have "map tk_info (fst tc1) = map tk_info (fst tc) @ [ti]"
      "\<forall>tk \<in> set (fst tc1). tk_storage tk = initial_task_storage"
      using Cons.prems(2) by (auto simp: load_task_def split: option.splits)
    with Cons.IH [OF tc1(2)] show ?case by simp
  qed auto
  from this [of "([], c)"] assms show ?thesis by simp
qed

lemma load_parked_ok:
  assumes "fold_some (load_parked limit out mem) tasks ([], c) = Some (tasks', c')"
  shows "map tk_info tasks' = map tk_info tasks \<and> map tk_storage tasks' = map tk_storage tasks \<and>
    (\<forall>tk \<in> set tasks'. tk_output_bytes tk = out \<and> tk_memory_bytes tk = mem \<and>
      tk_parked_image tk = \<lparr> pk_output = replicate out 0, pk_output_dirty = replicate out 0,
        pk_memory = replicate mem 0, pk_memory_dirty = replicate mem 0 \<rparr>)"
proof -
  let ?P = "\<lambda>tk. tk_output_bytes tk = out \<and> tk_memory_bytes tk = mem \<and>
      tk_parked_image tk = \<lparr> pk_output = replicate out 0, pk_output_dirty = replicate out 0,
        pk_memory = replicate mem 0, pk_memory_dirty = replicate mem 0 \<rparr>"
  have "fold_some (load_parked limit out mem) tasks tc = Some (tasks', c') \<Longrightarrow> (\<forall>tk \<in> set (fst tc). ?P tk) \<Longrightarrow>
      map tk_info tasks' = map tk_info (fst tc) @ map tk_info tasks \<and>
      map tk_storage tasks' = map tk_storage (fst tc) @ map tk_storage tasks \<and> (\<forall>tk \<in> set tasks'. ?P tk)" for tc
  proof (induction tasks arbitrary: tc)
    case (Cons tk tasks)
    from Cons.prems(1) obtain tc1 where tc1: "load_parked limit out mem tk tc = Some tc1"
      "fold_some (load_parked limit out mem) tasks tc1 = Some (tasks', c')" by (auto split: bind_splits)
    then have "map tk_info (fst tc1) = map tk_info (fst tc) @ [tk_info tk]"
      "map tk_storage (fst tc1) = map tk_storage (fst tc) @ [tk_storage tk]" "\<forall>tk \<in> set (fst tc1). ?P tk"
      using Cons.prems(2) by (auto simp: load_parked_def Let_def split: prod.splits if_splits)
    with Cons.IH [OF tc1(2)] show ?case by simp
  qed auto
  from this [of "([], c)"] assms show ?thesis by simp
qed

lemma load_mappings_ok:
  assumes "fold_some (load_mapping ops a p limit) mis ([], c) = Some (maps, c')"
  shows "\<forall>m \<in> set maps. mr_program m \<in> set (programs p) \<and> mr_instance m = op_new ops"
proof -
  have "\<forall>m \<in> set (fst (maps, c')). mr_program m \<in> set (programs p) \<and> mr_instance m = op_new ops"
    by (rule fold_some_invariant [OF assms])
      (auto simp: load_mapping_def find_child_def find_Some_iff split: option.splits)
  then show ?thesis by simp
qed

lemma task_schedule_bound: "t \<in> set (task_schedule tis) \<Longrightarrow> t < length tis"
  by (simp add: task_schedule_def)

context scan_instance
begin

lemma load_resource_ok:
  assumes l: "load_resource ops a p base limit blank ri rc = Some rc'"
    and child: "\<forall>c \<in> set (programs p). loadable c"
    and fit: "\<And>ip c. c \<in> set (programs p) \<Longrightarrow> covers (process_image ip) (process_image c) \<Longrightarrow> fits ip c"
  shows "\<exists>res. fst rc' = fst rc @ [res] \<and> resource_wf res \<and> rn_info res = ri \<and> rn_owner res = None \<and>
    rn_schedule res = task_schedule (ri_tasks ri) \<and> map tk_info (rn_tasks res) = ri_tasks ri"
proof -
  obtain c0 tasks c1 maps c2 ip c3 im tasks' c4 maps' where s:
    "fold_some (load_task a limit) (ri_tasks ri) ([], c0) = Some (tasks, c1)"
    "fold_some (load_mapping ops a p limit) (ri_mappings ri) ([], c1) = Some (maps, c2)"
    "build_image_program (map mr_program maps) = Some ip"
    "load_image blank ip True (image_total ip) = (im, EC_ok)"
    "fold_some (load_parked limit (pi_output_bytes (process_image ip)) (pi_memory_bytes (process_image ip)))
       tasks ([], c3) = Some (tasks', c4)"
    "map_some (load_instance ops base \<lparr> rn_info = ri, rn_storage = initial_resource_storage,
       rn_image_program = ip, rn_image = im, rn_tasks = tasks', rn_mappings = maps,
       rn_schedule = task_schedule (ri_tasks ri),
       rn_write_stamps = replicate ((pi_output_bytes (process_image ip) + pi_memory_bytes (process_image ip)) * 8) 0,
       rn_write_owners = replicate ((pi_output_bytes (process_image ip) + pi_memory_bytes (process_image ip)) * 8) 0,
       rn_owner = None \<rparr>) maps = Some maps'"
    "fst rc' = fst rc @ [\<lparr> rn_info = ri, rn_storage = initial_resource_storage,
       rn_image_program = ip, rn_image = im, rn_tasks = tasks', rn_mappings = maps',
       rn_schedule = task_schedule (ri_tasks ri),
       rn_write_stamps = replicate ((pi_output_bytes (process_image ip) + pi_memory_bytes (process_image ip)) * 8) 0,
       rn_write_owners = replicate ((pi_output_bytes (process_image ip) + pi_memory_bytes (process_image ip)) * 8) 0,
       rn_owner = None \<rparr>]"
    using l by (auto simp: load_resource_def Let_def split: bind_splits prod.splits if_splits)
  define pre where "pre = \<lparr> rn_info = ri, rn_storage = initial_resource_storage,
       rn_image_program = ip, rn_image = im, rn_tasks = tasks', rn_mappings = maps,
       rn_schedule = task_schedule (ri_tasks ri),
       rn_write_stamps = replicate ((pi_output_bytes (process_image ip) + pi_memory_bytes (process_image ip)) * 8) 0,
       rn_write_owners = replicate ((pi_output_bytes (process_image ip) + pi_memory_bytes (process_image ip)) * 8) 0,
       rn_owner = None \<rparr>"
  have maps: "\<forall>m \<in> set maps. mr_program m \<in> set (programs p) \<and> mr_instance m = op_new ops"
    by (rule load_mappings_ok [OF s(2)])
  have "\<forall>c \<in> set (map mr_program maps). loadable c" using maps child by auto
  from build_image_ok [OF s(3) this] have ip: "loadable ip"
    "\<forall>m \<in> set maps. covers (process_image ip) (process_image (mr_program m))" by simp_all
  from load_image_ok [OF ip(1) s(4)] have im: "image_wf im" "im_program im = Some ip" "\<not> im_transaction_active im"
    by simp_all
  have inst: "list_all2 (\<lambda>m m'. mr_program m' = mr_program m \<and> inv ip (mr_instance m')) maps maps'"
  proof -
    have "mr_program m' = mr_program m \<and> inv ip (mr_instance m')"
      if "load_instance ops base pre m = Some m'" "m \<in> set maps" for m m'
      using that maps ip(2) inv_new inv_load [OF inv_new fit im(1,2)]
      by (auto simp: load_instance_def pre_def Let_def split: if_splits prod.splits) (metis fst_conv)
    then have "map_some (load_instance ops base pre) ms = Some ms' \<Longrightarrow> set ms \<subseteq> set maps \<Longrightarrow>
        list_all2 (\<lambda>m m'. mr_program m' = mr_program m \<and> inv ip (mr_instance m')) ms ms'" for ms ms'
      by (induction ms arbitrary: ms') (auto split: bind_splits)
    from this [of maps maps'] s(6) show ?thesis by (simp add: pre_def)
  qed
  have t: "map tk_info tasks' = ri_tasks ri" "\<forall>tk \<in> set tasks'. tk_storage tk = initial_task_storage \<and>
      task_wf (process_image ip) tk"
  proof -
    note q = load_tasks_quiet [OF s(1)] and k = load_parked_ok [OF s(5)]
    show "map tk_info tasks' = ri_tasks ri" using q k by simp
    have "tk_storage tk = initial_task_storage" if "tk \<in> set tasks'" for tk
    proof -
      have "tk_storage tk \<in> set (map tk_storage tasks')" using that by simp
      also have "\<dots> = tk_storage ` set tasks" using k by simp
      finally show ?thesis using q by auto
    qed
    with k show "\<forall>tk \<in> set tasks'. tk_storage tk = initial_task_storage \<and> task_wf (process_image ip) tk"
      by (auto simp: task_wf_def parked_sizes_def)
  qed
  let ?res = "pre\<lparr> rn_mappings := maps' \<rparr>"
  have len: "length tasks' = length (ri_tasks ri)" using t(1) by (metis length_map)
  have tt: "\<not> ts_transaction_active (tk_storage (tasks' ! i)) \<and> task_wf (process_image ip) (tasks' ! i)"
    if "i < length tasks'" for i
    using t(2) nth_mem [OF that] by (simp add: initial_task_storage_def)
  have mm: "inv ip (mr_instance (maps' ! i)) \<and> fits ip (mr_program (maps' ! i))" if "i < length maps'" for i
  proof -
    have i: "i < length maps" "mr_program (maps' ! i) = mr_program (maps ! i)" "inv ip (mr_instance (maps' ! i))"
      using inst that by (auto simp: list_all2_conv_all_nth)
    with maps ip(2) nth_mem [OF i(1)] fit show ?thesis by simp
  qed
  have "base_wf ?res"
    using im tt mm task_schedule_bound [of _ "ri_tasks ri"] by (simp add: base_wf_def pre_def len)
  then have "resource_wf ?res" by (simp add: resource_wf_def pre_def)
  with s(7) t(1) show ?thesis by (simp add: pre_def)
qed

lemma load_configuration_ok:
  assumes "load_configuration ops a blank p name has_buffer aligned n base = (cr, e)"
    and child: "\<forall>c \<in> set (programs p). loadable c"
    and fit: "\<And>ip c. c \<in> set (programs p) \<Longrightarrow> covers (process_image ip) (process_image c) \<Longrightarrow> fits ip c"
  shows "config_wf cr \<and> (\<forall>res \<in> set (cr_resources cr). rn_owner res = None \<and>
    rn_schedule res = task_schedule (map tk_info (rn_tasks res)))"
proof -
  have "cr = unload \<or> (\<exists>(c :: ConfigurationInfo) rs k. fold_some (load_resource ops a p base n blank) (ci_resources c) ([], 0) = Some (rs, k) \<and>
      cr_resources cr = rs)"
    using assms(1) unfolding load_configuration_def
    by (auto split: if_splits option.splits sum.splits prod.splits)
  then consider (unloaded) "cr = unload"
    | (loaded) c :: ConfigurationInfo and rs k where "fold_some (load_resource ops a p base n blank) (ci_resources c) ([], 0) = Some (rs, k)"
        "cr_resources cr = rs" by blast
  then show ?thesis
  proof cases
    case unloaded
    then show ?thesis by (simp add: config_wf_def unload_def)
  next
    case loaded
  have "\<forall>res \<in> set (fst (rs, k)). resource_wf res \<and> rn_owner res = None \<and>
      rn_schedule res = task_schedule (map tk_info (rn_tasks res))"
  proof (rule fold_some_invariant [OF loaded(1)])
    fix ri s s'
    assume "\<forall>res \<in> set (fst s). resource_wf res \<and> rn_owner res = None \<and>
        rn_schedule res = task_schedule (map tk_info (rn_tasks res))"
      "load_resource ops a p base n blank ri s = Some s'"
    with load_resource_ok [OF this(2) child fit] show "\<forall>res \<in> set (fst s'). resource_wf res \<and>
        rn_owner res = None \<and> rn_schedule res = task_schedule (map tk_info (rn_tasks res))" by auto
  qed simp
  with loaded(2) show ?thesis by (simp add: config_wf_def)
  qed
qed

end

end
