(* ===== verification/VmScheduler.thy ===== *)
theory VmScheduler
  imports VmProps ConfigLoadProps
begin

text \<open>
  The interpreter as the instances of the scheduler: \<open>vm_inv\<close> is the instance invariant with the
  image, \<open>vm_fits\<close> what the compiler guarantees of a program that runs on a resource's image, and the
  interpretation discharges the contract \<open>scan_instance\<close> for \<open>vm_ops\<close>.
\<close>

definition vm_fits :: "Program \<Rightarrow> Program \<Rightarrow> bool" where
  "vm_fits ip c \<longleftrightarrow> program_ok c \<and> scan_layout (process_image ip) (vars_bytes c) (located_vars c)"

definition vm_inv :: "Program \<Rightarrow> 'n Instance \<Rightarrow> bool" where
  "vm_inv ip v \<longleftrightarrow> instance_wf v \<and> (vm_image_bound v \<longrightarrow> vm_defer v \<and> vm_program v \<noteq> None \<and>
     scan_layout (process_image ip) (vars_bytes (the_program v)) (located_vars (the_program v)))"

lemma vm_inv_fits:
  assumes "vm_inv ip v" "image_wf im" "im_program im = Some ip"
  shows "image_fits v (bound_image v im)"
proof -
  have "length (vm_vars v) = vars_bytes (the_program v)" if "vm_program v \<noteq> None"
    using assms(1) that by (simp add: vm_inv_def instance_wf_def sized_def)
  with assms show ?thesis by (auto simp: image_fits_def bound_image_def vm_inv_def)
qed

lemma vm_inv_frame:
  assumes "vm_inv ip v" "instance_wf v'" "frame v' = frame v"
  shows "vm_inv ip v'"
  using assms by (simp add: vm_inv_def frame_def)

lemma kept_image:
  assumes "image_kept d (bound_image v im) im'" "image_wf im" "vm_image_bound v \<longrightarrow> d"
  shows "keeps_image im (case im' of None \<Rightarrow> im | Some i \<Rightarrow> i)"
  using assms by (auto simp: image_kept_def keeps_image_def bound_image_def split: option.splits if_splits)

lemma load_inv:
  assumes "vm_inv ip v" "vm_fits ip c"
  shows "vm_inv ip ((fst (load_with_image env v c True True n period (Some im)))\<lparr> vm_defer := True \<rparr>)"
proof -
  obtain v1 e where l: "load env c True True n period = (v1, e)" by (cases "load env c True True n period")
  have "program_ok c" using assms(2) by (simp add: vm_fits_def)
  note k = load_ok [OF this l]
  have d: "instance_wf (u\<lparr> vm_defer := True \<rparr>) = instance_wf u" for u :: "'a Instance"
    by (simp add: instance_wf_def)
  have b: "instance_wf (u\<lparr> vm_image_bound := True \<rparr>) = instance_wf u" for u :: "'a Instance"
    by (simp add: instance_wf_def)
  show ?thesis
    using assms k l by (auto simp: load_with_image_def vm_inv_def vm_fits_def d b)
qed

interpretation vm: scan_instance "vm_ops env" vm_inv vm_fits for env :: "'n vm_env"
proof
  fix ip :: Program and v :: "'n Instance"
  assume i: "vm_inv ip v"
  then have wf: "instance_wf v" by (simp add: vm_inv_def)
  show "vm_inv ip (op_abort (vm_ops env) v)"
    using vm_inv_frame [OF i abort_ok(1,2) [OF wf]] by (simp add: vm_ops_def)
  show "vm_inv ip (op_reset (vm_ops env) v)"
    using vm_inv_frame [OF i reset_ok(1,2) [OF wf]] by (simp add: vm_ops_def)
next
  fix ip :: Program
  show "vm_inv ip (op_new (vm_ops env))"
    by (simp add: vm_ops_def vm_inv_def unload_wf) (simp add: unload_instance_def)
next
  fix ip c :: Program and v :: "'n Instance" and im n period
  assume "vm_inv ip v" "vm_fits ip c" "image_wf im" "im_program im = Some ip"
  then show "vm_inv ip (op_defer (vm_ops env) (fst (op_load (vm_ops env) v c n period im)) True)"
    using load_inv by (simp add: vm_ops_def)
next
  fix ip :: Program and v :: "'n Instance" and im budget
  assume a: "vm_inv ip v" "image_wf im" "im_program im = Some ip" "im_transaction_active im"
  have wf: "instance_wf v" using a(1) by (simp add: vm_inv_def)
  obtain v' im' r where b: "begin_instance v budget (bound_image v im) = Some (v', im', r)" "instance_wf v'"
    "frame v' = frame v" "image_kept True (bound_image v im) im'" "r = Scan_ok \<longrightarrow> vm_remaining v' = budget \<and> vm_state v' = VS_running"
    using begin_returns [OF wf vm_inv_fits [OF a(1-3)]] by blast
  then show "\<exists>v' im' e. op_begin (vm_ops env) v budget im = Some (v', im', e) \<and> vm_inv ip v' \<and>
      keeps_image im im' \<and> (e = Scan_ok \<longrightarrow> op_remaining_budget (vm_ops env) v' \<le> budget \<and> op_running (vm_ops env) v')"
    using vm_inv_frame [OF a(1) b(2,3)] kept_image [OF b(4) a(2)] by (auto simp: vm_ops_def)
next
  fix ip :: Program and v :: "'n Instance" and im and q :: int
  assume a: "vm_inv ip v" "image_wf im" "im_program im = Some ip" "im_transaction_active im" "0 < q"
  have wf: "instance_wf v" and d: "vm_image_bound v \<longrightarrow> vm_defer v" using a(1) by (auto simp: vm_inv_def)
  obtain v' im' n r where b: "resume env v q (bound_image v im) = Some (v', im', n, r)" "instance_wf v'"
    "frame v' = frame v" "image_kept (vm_defer v) (bound_image v im) im'" "0 \<le> n" "n \<le> max 0 q"
    "vm_state v = VS_running \<and> 0 < q \<and> r = Scan_ok \<longrightarrow> 0 < n"
    using resume_returns [OF wf vm_inv_fits [OF a(1-3)]] by blast
  then show "\<exists>v' im' n e. op_resume (vm_ops env) v q im = Some (v', im', n, e) \<and> vm_inv ip v' \<and>
      keeps_image im im' \<and> 0 \<le> n \<and> n \<le> q \<and>
      (op_running (vm_ops env) v \<and> e = Scan_ok \<longrightarrow> 0 < n)"
    using vm_inv_frame [OF a(1) b(2,3)] kept_image [OF b(4) a(2) d] a(5) by (auto simp: vm_ops_def)
qed

end
