(* ===== verification/ConfigMachine.thy ===== *)
theory ConfigMachine
  imports VmScheduler
begin

text \<open>
  The machine of a loaded configuration: every state a host can bring a \<open>ConfigurationRuntime\<close> into
  by loading a compiled project, signalling boundaries, giving quanta and calling the requests and
  queries, the instances being those of the interpreter. \<open>config_ok\<close> is what holds in all of them;
  the facts of \<open>scan_instance\<close> are used through its interpretation \<open>vm\<close>.
\<close>

section \<open>Compiled projects and reachable configurations\<close>

text \<open>What the compiler guarantees of every unit of a project: its located variables lie in its
  areas and in its variables, its text types have room for their text, its chart storage is sized.\<close>

definition compiled_unit :: "Program \<Rightarrow> bool" where
  "compiled_unit c \<longleftrightarrow> loadable c \<and> program_ok c \<and>
     scan_layout (process_image c) (vars_bytes c) (located_vars c)"

text \<open>The value of a program variable, found by instance and name.\<close>

definition config_value_i64 ::
  "'n Instance ConfigurationRuntime \<Rightarrow> string option \<Rightarrow> string option \<Rightarrow> string option \<Rightarrow> ErrorCode + int"
where
  "config_value_i64 cr resource instance name =
     (case find_resource cr resource of
        None \<Rightarrow> Inl EC_invalid_argument
      | Some r \<Rightarrow>
          if instance = None \<or> name = None then Inl EC_invalid_argument
          else case find (\<lambda>m. same_name (pm_lower (mr_info m)) instance) (rn_mappings (cr_resources cr ! r)) of
            None \<Rightarrow> Inl EC_invalid_argument
          | Some m \<Rightarrow>
              (case find_variable (mr_instance m) name of
                 None \<Rightarrow> Inl EC_invalid_argument
               | Some i \<Rightarrow> Inr (value_i64 (mr_instance m) i)))"

inductive config_reach :: "'n vm_env \<Rightarrow> 'n Instance ConfigurationRuntime \<Rightarrow> bool" for env where
  reach_load: "\<forall>c \<in> set (programs p). compiled_unit c \<Longrightarrow>
    load_configuration (vm_ops env) a blank p name hb al n base = (cr, e) \<Longrightarrow> config_reach env cr"
| reach_boundary: "config_reach env cr \<Longrightarrow> boundary (vm_ops env) cr tick events n = Some (cr', e) \<Longrightarrow>
    config_reach env cr'"
| reach_run: "config_reach env cr \<Longrightarrow> run (vm_ops env) cr q = Some (cr', e) \<Longrightarrow> config_reach env cr'"
| reach_input: "config_reach env cr \<Longrightarrow> \<forall>bs. data = Some bs \<longrightarrow> n \<le> length bs \<Longrightarrow>
    resource_submit_input cr name data n version = Some (cr', e) \<Longrightarrow> config_reach env cr'"
| reach_output: "config_reach env cr \<Longrightarrow> resource_output_snapshot cr name hb n = Some (Inr (m, cr')) \<Longrightarrow>
    config_reach env cr'"
| reach_memory: "config_reach env cr \<Longrightarrow> resource_memory_snapshot cr name hb n = Some (Inr (m, cr')) \<Longrightarrow>
    config_reach env cr'"
| reach_wallclock: "config_reach env cr \<Longrightarrow> report_wallclock_exceeded cr name task = (cr', e) \<Longrightarrow>
    config_reach env cr'"
| reach_reset: "config_reach env cr \<Longrightarrow> reset_task cr name task = (cr', e) \<Longrightarrow> config_reach env cr'"
| reach_restart: "config_reach env cr \<Longrightarrow> restart_task cr name task = (cr', e) \<Longrightarrow> config_reach env cr'"
| reach_fault: "config_reach env cr \<Longrightarrow> report_resource_fault cr name f = (cr', e) \<Longrightarrow> config_reach env cr'"
| reach_force: "config_reach env cr \<Longrightarrow> r < length (cr_resources cr) \<Longrightarrow>
    queue_force_index (rn_image (cr_resources cr ! r)) i ty v n owner rel = (im', e, version) \<Longrightarrow>
    config_reach env (upd_resource r (\<lambda>res. res\<lparr> rn_image := im' \<rparr>) cr)"
| reach_release: "config_reach env cr \<Longrightarrow> r < length (cr_resources cr) \<Longrightarrow>
    queue_release_index (rn_image (cr_resources cr ! r)) i owner rel = (im', e, version) \<Longrightarrow>
    config_reach env (upd_resource r (\<lambda>res. res\<lparr> rn_image := im' \<rparr>) cr)"


section \<open>The invariant\<close>

definition resource_ok :: "'n Instance ResourceRuntime \<Rightarrow> bool" where
  "resource_ok res \<longleftrightarrow> vm.resource_wf res \<and> rn_schedule res = task_schedule (map tk_info (rn_tasks res))"

definition config_ok :: "'n Instance ConfigurationRuntime \<Rightarrow> bool" where
  "config_ok cr \<longleftrightarrow> (\<forall>res \<in> set (cr_resources cr). resource_ok res)"

lemma config_okI: "vm.config_wf cr \<Longrightarrow> (\<And>res. res \<in> set (cr_resources cr) \<Longrightarrow>
    rn_schedule res = task_schedule (map tk_info (rn_tasks res))) \<Longrightarrow> config_ok cr"
  by (simp add: config_ok_def resource_ok_def vm.config_wf_def)

lemma config_okD: "config_ok cr \<Longrightarrow> vm.config_wf cr"
  by (simp add: config_ok_def resource_ok_def vm.config_wf_def)

lemma compiled_fits: "compiled_unit c \<Longrightarrow> covers (process_image ip) (process_image c) \<Longrightarrow> vm_fits ip c"
  by (auto simp: compiled_unit_def vm_fits_def scan_layout_def covers_def elim!: located_in_mono)

lemma load_config_ok:
  assumes "\<forall>c \<in> set (programs p). compiled_unit c"
    and "load_configuration (vm_ops env) a blank p name hb al n base = (cr, e)"
  shows "config_ok cr"
proof -
  have "\<forall>c \<in> set (programs p). loadable c" using assms(1) by (simp add: compiled_unit_def)
  from vm.load_configuration_ok [OF assms(2) this compiled_fits] assms(1) show ?thesis
    by (auto intro!: config_okI)
qed

lemma schedule_kept:
  assumes "config_ok cr" "vm.config_wf cr'" "list_all2 vm.same_setup (cr_resources cr) (cr_resources cr')"
  shows "config_ok cr'"
proof (rule config_okI [OF assms(2)])
  fix res' assume "res' \<in> set (cr_resources cr')"
  then obtain res where "res \<in> set (cr_resources cr)" "vm.same_setup res res'"
    using assms(3) by (metis in_set_conv_nth list_all2_conv_all_nth)
  with assms(1) show "rn_schedule res' = task_schedule (map tk_info (rn_tasks res'))"
    by (simp add: config_ok_def resource_ok_def vm.same_setup_def)
qed

lemma run_config_ok:
  assumes "config_ok cr" "run (vm_ops env) cr q = Some (cr', e)"
  shows "config_ok cr'"
proof (cases "cr_loaded cr \<and> 0 \<le> q")
  case True
  with vm.run_ok [OF config_okD [OF assms(1)], of q env] assms show ?thesis
    by (auto simp: vm.config_step_def intro: schedule_kept)
next
  case False
  with assms show ?thesis by (auto simp: run_def)
qed

lemma settled_setup: "vm.settled res res' \<Longrightarrow> vm.same_setup res res'"
  by (simp add: vm.settled_def vm.same_setup_def)

lemma boundary_config_ok:
  assumes "config_ok cr" "boundary (vm_ops env) cr tick events n = Some (cr', e)"
  shows "config_ok cr'"
  using vm.boundary_ok [OF config_okD [OF assms(1)], of env tick events n] assms
  by (auto intro: schedule_kept list_all2_mono [OF _ settled_setup])

text \<open>Requests change one resource.\<close>

lemma config_ok_upd:
  assumes "config_ok cr" "r < length (cr_resources cr) \<Longrightarrow> resource_ok (f (cr_resources cr ! r))"
  shows "config_ok (upd_resource r f cr)"
proof (cases "r < length (cr_resources cr)")
  case True
  with assms set_update_subset_insert [of "cr_resources cr" r "f (cr_resources cr ! r)"] show ?thesis
    by (auto simp: config_ok_def upd_resource_def)
qed (use assms(1) in \<open>simp add: upd_resource_def config_ok_def list_update_beyond\<close>)

lemma resource_ok_image:
  assumes "resource_ok res" "image_wf im" "im_program im = im_program (rn_image res)"
    and "im_transaction_active im = im_transaction_active (rn_image res)"
  shows "resource_ok (res\<lparr> rn_image := im \<rparr>)"
  using assms by (simp add: resource_ok_def vm.resource_wf_def vm.base_wf_def runnable_def)

lemma config_ok_image:
  assumes "config_ok cr" "r < length (cr_resources cr)" "image_wf im"
    and "im_program im = im_program (rn_image (cr_resources cr ! r))"
    and "im_transaction_active im = im_transaction_active (rn_image (cr_resources cr ! r))"
  shows "config_ok (upd_resource r (\<lambda>res. res\<lparr> rn_image := im \<rparr>) cr)"
  using assms by (intro config_ok_upd resource_ok_image) (simp_all add: config_ok_def)

lemma config_ok_image_wf:
  "config_ok cr \<Longrightarrow> r < length (cr_resources cr) \<Longrightarrow> image_wf (rn_image (cr_resources cr ! r))"
  by (simp add: config_ok_def resource_ok_def vm.resource_wf_def vm.base_wf_def)

lemma resource_ok_storage:
  assumes "resource_ok res" "t < length (rn_tasks res)"
    and "\<And>s. ts_transaction_active (f s) = ts_transaction_active s \<and> st_state (ts_status (f s)) = st_state (ts_status s)"
  shows "resource_ok (upd_storage t f res)"
proof -
  have "vm.base_wf (upd_storage t f res)"
    using assms by (intro vm.base_wf_upd_storage) (simp_all add: resource_ok_def vm.resource_wf_def)
  moreover have "map tk_info (rn_tasks (upd_storage t f res)) = map tk_info (rn_tasks res)"
    using assms(2) by (simp add: upd_storage_def upd_task_def map_update) (metis list_update_id map_update)
  moreover have "runnable (upd_storage t f res) u = runnable res u" for u
    using assms(2,3) by (cases "u = t") (simp_all add: runnable_def upd_storage_def upd_task_at)
  ultimately show ?thesis using assms(1) by (simp add: resource_ok_def vm.resource_wf_def)
qed

lemma index_where_bound: "index_where P xs = Some i \<Longrightarrow> i < length xs"
  by (induction xs arbitrary: i) (auto split: if_splits)

lemma find_both_bound: "find_both cr r t = Some (i, j) \<Longrightarrow> i < length (cr_resources cr) \<and>
    j < length (rn_tasks (cr_resources cr ! i))"
  by (auto simp: find_both_def find_resource_def find_task_def dest!: index_where_bound
      split: option.splits if_splits)

lemma find_resource_bound: "find_resource cr name = Some r \<Longrightarrow> r < length (cr_resources cr)"
  by (auto simp: find_resource_def dest: index_where_bound split: if_splits)

lemma snapshot_active:
  "output_snapshot im hb n = Some (Inr (m, im')) \<Longrightarrow> im_transaction_active im' = im_transaction_active im"
  "memory_snapshot im hb n = Some (Inr (m, im')) \<Longrightarrow> im_transaction_active im' = im_transaction_active im"
  by (auto simp: output_snapshot_def memory_snapshot_def split: sum.splits Option.bind_splits option.splits if_splits)


theorem config_reach_ok: "config_reach env cr \<Longrightarrow> config_ok cr"
proof (induction rule: config_reach.induct)
  case (reach_load p a blank name hb al n base cr e)
  then show ?case by (rule load_config_ok)
next
  case (reach_boundary cr tick events n cr' e)
  from reach_boundary(3,2) show ?case by (rule boundary_config_ok)
next
  case (reach_run cr q cr' e)
  from reach_run(3,2) show ?case by (rule run_config_ok)
next
  case (reach_input cr data n name version cr' e)
  show ?case
  proof (cases "find_resource cr name")
    case None
    with reach_input show ?thesis by (simp add: resource_submit_input_def)
  next
    case (Some r)
    then have r: "r < length (cr_resources cr)" by (rule find_resource_bound)
    from submit_input_ok [OF config_ok_image_wf [OF reach_input(4) r] reach_input(2), of version] Some reach_input(3)
    show ?thesis by (auto simp: resource_submit_input_def intro!: config_ok_image [OF reach_input(4) r])
  qed
next
  case (reach_output cr name hb n m cr')
  then obtain r im where r: "find_resource cr name = Some r"
    "output_snapshot (rn_image (cr_resources cr ! r)) hb n = Some (Inr (m, im))"
    "cr' = upd_resource r (\<lambda>res. res\<lparr> rn_image := im \<rparr>) cr"
    by (auto simp: resource_output_snapshot_def split: option.splits Option.bind_splits sum.splits)
  note l = find_resource_bound [OF r(1)]
  from snapshot_image_ok(1) [OF config_ok_image_wf [OF reach_output(3) l], of hb n] r(2,3) snapshot_active(1) [OF r(2)]
  show ?case by (auto intro!: config_ok_image [OF reach_output(3) l])
next
  case (reach_memory cr name hb n m cr')
  then obtain r im where r: "find_resource cr name = Some r"
    "memory_snapshot (rn_image (cr_resources cr ! r)) hb n = Some (Inr (m, im))"
    "cr' = upd_resource r (\<lambda>res. res\<lparr> rn_image := im \<rparr>) cr"
    by (auto simp: resource_memory_snapshot_def split: option.splits Option.bind_splits sum.splits)
  note l = find_resource_bound [OF r(1)]
  from snapshot_image_ok(2) [OF config_ok_image_wf [OF reach_memory(3) l], of hb n] r(2,3) snapshot_active(2) [OF r(2)]
  show ?case by (auto intro!: config_ok_image [OF reach_memory(3) l])
next
  case (reach_wallclock cr name task cr' e)
  then show ?case
    by (auto simp: report_wallclock_exceeded_def split: option.splits
        dest!: find_both_bound intro!: config_ok_upd resource_ok_storage) (simp_all add: config_ok_def)
next
  case (reach_reset cr name task cr' e)
  then show ?case
    by (auto simp: reset_task_def queue_task_action_def split: option.splits
        dest!: find_both_bound intro!: config_ok_upd resource_ok_storage) (simp_all add: config_ok_def)
next
  case (reach_restart cr name task cr' e)
  then show ?case
    by (auto simp: restart_task_def queue_task_action_def split: option.splits
        dest!: find_both_bound intro!: config_ok_upd resource_ok_storage) (simp_all add: config_ok_def)
next
  case (reach_fault cr name f cr' e)
  then show ?case
    by (auto simp: report_resource_fault_def split: option.splits if_splits intro!: config_ok_upd)
      (simp_all add: config_ok_def resource_ok_def)
next
  case (reach_force cr r i ty v n owner rel im' e version)
  from queue_force_index_wf [OF config_ok_image_wf [OF reach_force(4,2)] reach_force(3)] show ?case
    by (intro config_ok_image [OF reach_force(4,2)]) simp_all
next
  case (reach_release cr r i owner rel im' e version)
  from queue_release_index_wf [OF config_ok_image_wf [OF reach_release(4,2)] reach_release(3)] show ?case
    by (intro config_ok_image [OF reach_release(4,2)]) simp_all
qed



section \<open>The choice of the next task, and what a round touches\<close>

lemma schedule_all: "t < length tis \<Longrightarrow> t \<in> set (task_schedule tis)"
  by (simp add: task_schedule_def)

lemma running_chosen:
  assumes "config_ok cr" "res \<in> set (cr_resources cr)" "rs_fault (resource_status res) = RF_none"
    and "t < length (rn_tasks res)" "st_state (status_at res t) = TS_running"
  shows "vm.chosen res \<noteq> None"
proof -
  have "t \<in> set (rn_schedule res)"
    using assms(1,2,4) schedule_all [of t "map tk_info (rn_tasks res)"] by (simp add: config_ok_def resource_ok_def)
  then show ?thesis
    using assms(3,5) find_None_iff [of "runnable res" "rn_schedule res"]
    by (auto simp: vm.chosen_def runnable_def simp del: not_None_eq split: option.splits)
qed

lemma find_sorted_least:
  assumes "sorted (map f xs)" "find P xs = Some x" "y \<in> set xs" "P y"
  shows "f x \<le> f y"
  using assms by (induction xs) (auto split: if_splits)

lemma chosen_most_urgent:
  assumes "config_ok cr" "res \<in> set (cr_resources cr)" "vm.chosen res = Some t"
    and "rn_owner res \<noteq> Some t" "u < length (rn_tasks res)" "st_state (status_at res u) = TS_running"
  shows "(ti_priority (tk_info (rn_tasks res ! t)), ti_declaration_order (tk_info (rn_tasks res ! t))) \<le>
    (ti_priority (tk_info (rn_tasks res ! u)), ti_declaration_order (tk_info (rn_tasks res ! u)))"
proof -
  let ?tis = "map tk_info (rn_tasks res)"
  let ?key = "\<lambda>i. (ti_priority (?tis ! i), ti_declaration_order (?tis ! i))"
  have s: "rn_schedule res = task_schedule ?tis" and wf: "vm.resource_wf res"
    using assms(1,2) by (simp_all add: config_ok_def resource_ok_def)
  have t: "t < length (rn_tasks res)" by (rule vm.chosen_runnable(1) [OF wf assms(3)])
  have "find (runnable res) (rn_schedule res) = Some t"
    using assms(3,4) by (auto simp: vm.chosen_def split: if_splits option.splits)
  moreover have "sorted (map ?key (rn_schedule res))" by (simp only: s task_schedule_def sorted_sort_key)
  ultimately have "?key t \<le> ?key u"
    using find_sorted_least [of ?key "rn_schedule res" "runnable res" t u] schedule_all [of u ?tis] assms(5,6) s
    by (simp add: runnable_def)
  then show ?thesis using t assms(5) by simp
qed

lemma round_frame:
  assumes "config_ok cr" "run_round (vm_ops env) cr quantum = Some (cr', left, c)" "0 < quantum"
    and "next_runnable (cr_resources cr) = Some (rs, Some (r, t))"
  shows "\<forall>q. q \<noteq> r \<longrightarrow> cr_resources cr' ! q = cr_resources cr ! q"
    and "\<forall>u. u \<noteq> t \<longrightarrow> rn_tasks (cr_resources cr' ! r) ! u = rn_tasks (cr_resources cr ! r) ! u"
proof -
  have wf: "\<forall>res \<in> set (cr_resources cr). vm.resource_wf res"
    using config_okD [OF assms(1)] by (simp add: vm.config_wf_def)
  from vm.next_runnable_ok [OF wf] assms(4) have n: "rs = cr_resources cr" "r < length rs"
    "vm.chosen (rs ! r) = Some t" by auto
  have rwf: "vm.resource_wf (rs ! r)" using wf n(1,2) by simp
  note ch = vm.chosen_runnable [OF rwf n(3)]
  from vm.run_task_ok [OF rwf ch assms(3), of env "the (cr_program cr)"] obtain x q' where
    x: "run_task (vm_ops env) (the (cr_program cr)) (rs ! r) t quantum = Some (x, q', Run_continue)"
    "vm.task_step t (rs ! r) x" by blast
  with assms(2,4) n(1) have e: "cr_resources cr' = (cr_resources cr)[r := x]"
    by (auto simp: run_round_def Let_def)
  then show "\<forall>q. q \<noteq> r \<longrightarrow> cr_resources cr' ! q = cr_resources cr ! q" by simp
  show "\<forall>u. u \<noteq> t \<longrightarrow> rn_tasks (cr_resources cr' ! r) ! u = rn_tasks (cr_resources cr ! r) ! u"
    using e x(2) n(1,2) by (simp add: vm.task_step_def)
qed

lemma run_keeps_resources:
  assumes "config_reach env cr" "run (vm_ops env) cr q = Some (cr', e)"
  shows "length (cr_resources cr') = length (cr_resources cr)"
proof (cases "cr_loaded cr \<and> 0 \<le> q")
  case True
  with vm.run_ok [OF config_okD [OF config_reach_ok [OF assms(1)]], of q env] assms(2) show ?thesis
    by (auto simp: vm.config_step_def dest: list_all2_lengthD)
next
  case False
  with assms(2) show ?thesis by (auto simp: run_def)
qed

end
