(* ===== verification/PlantConfig.thy ===== *)
theory PlantConfig
  imports Plant ConfigMachine
begin

text \<open>
  A small project around the program of \<open>Plant\<close>: one resource with a fast and a slow periodic task,
  the fast one running a unit that writes a constant to the output byte. The theorems on
  configurations are instantiated on it.
\<close>

definition demo_native :: "unit native_ops" where
  "demo_native = \<lparr> nv_pin_count = (\<lambda>_. 0), nv_store_pin = (\<lambda>n _ _ _ _. None), nv_load_pin = (\<lambda>_ _ _ _. None),
     nv_store_object = (\<lambda>_ _ _ _ _. None), nv_load_object = (\<lambda>_ _ _ _ _. None), nv_cycle = (\<lambda>n _ _. n),
     nv_on_probe = (\<lambda>n _ _ _. (n, False)) \<rparr>"

definition demo_libm :: libm where
  "demo_libm = \<lparr> lm_sqrt = id, lm_log = id, lm_log10 = id, lm_exp = id, lm_sin = id, lm_cos = id, lm_tan = id,
     lm_asin = id, lm_acos = id, lm_atan = id, lm_pow = (\<lambda>a _. a) \<rparr>"

definition demo_abi :: abi where
  "demo_abi = \<lparr> sizeof_sfc_runner = 160, sizeof_debug_runtime = 64, sizeof_resource_storage = 40,
     sizeof_task_storage = 112, binding_bytes = (\<lambda>_. 0) \<rparr>"

definition demo_env :: "unit vm_env" where
  "demo_env = \<lparr> ve_native = demo_native, ve_init = (\<lambda>_ _. ()), ve_none = (), ve_libm = demo_libm,
     ve_stale = (\<lambda>_. 0), ve_source_entries = (\<lambda>_ _. 0), ve_abi = demo_abi \<rparr>"

text \<open>\<open>PUSH_CONST 0; STORE_VAR 0 BYTE; HALT\<close>, and a unit that does nothing.\<close>

definition plant_unit :: Program where
  "plant_unit = Program (empty_body\<lparr> pb_process_image := plant_image,
     pb_initial_data := [5, 0, 52, 18, 0, 0, 0, 0], pb_vars_bytes := 8, pb_program_name := ''fill'',
     pb_code := [1, 0, 0, 3, 0, 0, 0, 0, 13, 0, 0, 0, 0], pb_constants := [7], pb_stack_slots := 1 \<rparr>) []"

definition spare_unit :: Program where
  "spare_unit = Program (empty_body\<lparr> pb_program_name := ''spare'', pb_code := [0] \<rparr>) []"

definition plant_mapping :: "string \<Rightarrow> string \<Rightarrow> nat \<Rightarrow> ProgramMappingInfo" where
  "plant_mapping task unit n = \<lparr> pm_name = task, pm_lower = task, pm_task = task, pm_program = unit,
     pm_declaration_order = n, pm_source_offset = 0 \<rparr>"

definition plant_task :: "string \<Rightarrow> int \<Rightarrow> nat \<Rightarrow> TaskInfo" where
  "plant_task name priority n = \<lparr> ti_name = name, ti_lower = name, ti_kind = TK_periodic, ti_event = [],
     ti_interval_ticks = 1, ti_phase_ticks = 0, ti_priority = priority, ti_instruction_budget = 10,
     ti_declaration_order = n, ti_source_offset = 0, ti_mappings = [n] \<rparr>"

definition plant_resource :: ResourceInfo where
  "plant_resource = \<lparr> ri_name = ''cpu'', ri_lower = ''cpu'', ri_target = ''plc'', ri_source_offset = 0,
     ri_tasks = [plant_task ''slow'' 5 0, plant_task ''fast'' 1 1],
     ri_mappings = [plant_mapping ''slow'' ''spare'' 0, plant_mapping ''fast'' ''fill'' 1] \<rparr>"

definition plant_project :: Program where
  "plant_project = Program (empty_body\<lparr> pb_configurations := [\<lparr> ci_name = ''Line'', ci_lower = ''line'',
     ci_base_tick_ns = 1000000, ci_source_offset = 0, ci_resources = [plant_resource] \<rparr>] \<rparr>) [plant_unit, spare_unit]"

lemmas unit_defs = plant_unit_def plant_image_def plant_input_def plant_output_def plant_counter_def

lemma builtin_text: "get_type [] ty = Some d \<Longrightarrow> \<not> is_text d"
proof -
  assume "get_type [] ty = Some d"
  then have "ty \<noteq> 0" "ty \<le> 19" "d = builtin_types ! (ty - 1)"
    by (auto simp: get_type_def builtin_last_def split: if_splits)
  moreover have "length builtin_types = 19" by (simp add: builtin_types_def)
  ultimately have "d \<in> set builtin_types" using nth_mem [of "ty - 1" builtin_types] by simp
  then show ?thesis by (auto simp: builtin_types_def make_builtin_def)
qed

lemma plant_unit_compiled: "compiled_unit plant_unit"
proof -
  have "loadable plant_unit"
    by (auto simp: loadable_def image_layout_wf_def unit_defs located_in_def area_bytes_def retained_def
        disjoint_vars_def less_Suc_eq)
  moreover have "scan_layout (process_image plant_unit) (vars_bytes plant_unit) (located_vars plant_unit)"
    by (simp add: scan_layout_def unit_defs located_in_def area_bytes_def separated_def slots_apart_def
        disjoint_vars_def)
  moreover have "program_ok plant_unit"
    using builtin_text by (auto simp: program_ok_def text_types_ok_def plant_unit_def empty_body_def)
  ultimately show ?thesis by (simp add: compiled_unit_def)
qed

lemma spare_unit_compiled: "compiled_unit spare_unit"
  using builtin_text
  by (auto simp: compiled_unit_def loadable_def image_layout_wf_def spare_unit_def empty_body_def empty_image_def
      scan_layout_def separated_def slots_apart_def disjoint_vars_def retained_def program_ok_def text_types_ok_def)

definition plant_load :: "unit Instance ConfigurationRuntime \<times> ErrorCode" where
  "plant_load = load_configuration (vm_ops demo_env) demo_abi unloaded_image plant_project (Some ''Line'')
     True True 4096 1000000"

end
