(* ===== verification/VmBudget.thy ===== *)
theory VmBudget
  imports VmProps
begin

text \<open>
  The budget of a scan is an exact count: a scan that completes completes just the same under every
  larger budget, with the surplus left over, and under every smaller one that still covers what it
  spent; below that it faults. \<open>later d\<close> compares an instruction with the same instruction given \<open>d\<close>
  more units (or fewer, for a negative \<open>d\<close>).
\<close>

definition shift :: "int \<Rightarrow> 'n machine \<Rightarrow> 'n machine" where
  "shift d m = m\<lparr> mc_remaining := mc_remaining m + d \<rparr>"

lemma shift_simps [simp]:
  "mc_vars (shift d m) = mc_vars m" "mc_image (shift d m) = mc_image m" "mc_stack (shift d m) = mc_stack m"
  "mc_pc (shift d m) = mc_pc m" "mc_native (shift d m) = mc_native m"
  "mc_remaining (shift d m) = mc_remaining m + d" "mc_instruction_pc (shift d m) = mc_instruction_pc m"
  "(shift d m)\<lparr> mc_pc := n \<rparr> = shift d (m\<lparr> mc_pc := n \<rparr>)"
  "(shift d m)\<lparr> mc_stack := st \<rparr> = shift d (m\<lparr> mc_stack := st \<rparr>)"
  "(shift d m)\<lparr> mc_vars := xs \<rparr> = shift d (m\<lparr> mc_vars := xs \<rparr>)"
  "(shift d m)\<lparr> mc_image := im \<rparr> = shift d (m\<lparr> mc_image := im \<rparr>)"
  "(shift d m)\<lparr> mc_native := k \<rparr> = shift d (m\<lparr> mc_native := k \<rparr>)"
  "push v (shift d m) = shift d (push v m)" "room cx (shift d m) = room cx m"
  by (simp_all add: shift_def push_def room_def)

text \<open>What an instruction that cannot pay reports; the object transfers of the native blocks report
  \<open>invalid_bytecode\<close>.\<close>

definition unpaid :: "ScanError \<Rightarrow> bool" where
  "unpaid e \<longleftrightarrow> e = Scan_budget_exceeded \<or> e = Scan_invalid_bytecode"

lemma unpaid_simps [simp]: "unpaid Scan_budget_exceeded" "unpaid Scan_invalid_bytecode"
  by (simp_all add: unpaid_def)

definition later :: "int \<Rightarrow> int \<Rightarrow> 'n outcome \<Rightarrow> 'n outcome \<Rightarrow> bool" where
  "later d b out out' = (case out of Fault e m \<Rightarrow> True
     | Next m \<Rightarrow> mc_remaining m \<le> b \<and> (out' = Next (shift d m) \<or>
         mc_remaining m + d \<le> 0 \<and> (\<exists>e m'. out' = Fault e m' \<and> unpaid e)))"

lemma later_Next [simp]: "later d b (Next m) out \<longleftrightarrow>
    mc_remaining m \<le> b \<and> (out = Next (shift d m) \<or>
      mc_remaining m + d \<le> 0 \<and> (\<exists>e m'. out = Fault e m' \<and> unpaid e))"
  and later_Fault [simp]: "later d b (Fault e m) out"
  by (simp_all add: later_def)

named_theorems later_intros \<open>the combinators of the instructions under another budget\<close>

lemma later_req [later_intros]:
  "(ok \<Longrightarrow> later d b k k') \<Longrightarrow> later d b (require ok e m k) (require ok e m' k')"
  by (simp add: require_def)

lemma later_given [later_intros]:
  "(\<And>v. x = Some v \<Longrightarrow> later d b (k v) (k' v)) \<Longrightarrow> later d b (the_or x e m k) (the_or x e m' k')"
  by (simp add: the_or_def split: option.split)

lemma later_opnd [later_intros]:
  "(\<And>v n. later d b (k v (m\<lparr> mc_pc := n \<rparr>)) (k' v (shift d (m\<lparr> mc_pc := n \<rparr>)))) \<Longrightarrow>
    later d b (operand rd cx m k) (operand rd cx (shift d m) k')"
  by (simp add: operand_def split: option.split)

lemma later_popped [later_intros]:
  "(\<And>a st. later d b (k a (m\<lparr> mc_stack := st \<rparr>)) (k' a (shift d (m\<lparr> mc_stack := st \<rparr>)))) \<Longrightarrow>
    later d b (pop m k) (pop (shift d m) k')"
  by (simp add: pop_def split: list.split)

lemma later_popped2 [later_intros]:
  "(\<And>a c st. later d b (k a c (m\<lparr> mc_stack := st \<rparr>)) (k' a c (shift d (m\<lparr> mc_stack := st \<rparr>)))) \<Longrightarrow>
    later d b (pop2 m k) (pop2 (shift d m) k')"
  by (simp add: pop2_def split: list.split)

lemma later_charged [later_intros]:
  assumes "mc_remaining m \<le> b" "unpaid e"
    and "\<And>r. r \<le> b \<Longrightarrow> later d r (k (m\<lparr> mc_remaining := r \<rparr>)) (k' (shift d (m\<lparr> mc_remaining := r \<rparr>)))"
  shows "later d b (charge c e m k) (charge c e (shift d m) k')"
proof (cases "mc_remaining m < int (c - 1)")
  case True
  then show ?thesis by (simp add: charge_def Let_def)
next
  case False
  let ?r = "mc_remaining m - int (c - 1)"
  have r: "?r \<le> b" using assms(1) by linarith
  have s: "shift d (m\<lparr> mc_remaining := ?r \<rparr>) = (shift d m)\<lparr> mc_remaining := mc_remaining m + d - int (c - 1) \<rparr>"
    by (simp add: shift_def algebra_simps)
  have l: "later d ?r (k (m\<lparr> mc_remaining := ?r \<rparr>)) (k' (shift d (m\<lparr> mc_remaining := ?r \<rparr>)))"
    by (rule assms(3) [OF r])
  show ?thesis
  proof (cases "mc_remaining m + d < int (c - 1)")
    case True
    with False l r assms(2) show ?thesis
      by (cases "k (m\<lparr> mc_remaining := ?r \<rparr>)") (auto simp: charge_def Let_def)
  next
    case pays: False
    with False l r s show ?thesis
      by (cases "k (m\<lparr> mc_remaining := ?r \<rparr>)") (auto simp: charge_def Let_def)
  qed
qed

lemma later_if [later_intros]:
  "(c \<Longrightarrow> later d b x x') \<Longrightarrow> (\<not> c \<Longrightarrow> later d b y y') \<Longrightarrow> later d b (if c then x else y) (if c then x' else y')"
  by simp

lemma later_give [later_intros]: "mc_remaining m \<le> b \<Longrightarrow> later d b (give r m) (give r (shift d m))"
  by (cases r) (simp_all add: give_def push_def)

lemma remaining_push [simp]: "mc_remaining (push v m) = mc_remaining m"
  by (simp add: push_def)

lemma later_scalar:
  assumes "mc_remaining m \<le> b"
  shows "later d b (int_arith w k m) (int_arith w k (shift d m))"
    "later d b (real_arith k m) (real_arith k (shift d m))"
    "later d b (lreal_arith k m) (lreal_arith k (shift d m))"
    "later d b (bool_op q m) (bool_op q (shift d m))" "later d b (cmp_i c m) (cmp_i c (shift d m))"
    "later d b (cmp_f c m) (cmp_f c (shift d m))" "later d b (alias_guard m) (alias_guard (shift d m))"
    "later d b (check_unicode m) (check_unicode (shift d m))"
  using assms
  by (auto simp: int_arith_def real_arith_def lreal_arith_def bool_op_def cmp_i_def cmp_f_def
      alias_guard_def check_unicode_def intro!: later_intros)

lemma later_typed:
  assumes "mc_remaining m \<le> b"
  shows "later d b (cmp_u cx m) (cmp_u cx (shift d m))" "later d b (bit_op cx q m) (bit_op cx q (shift d m))"
    "later d b (iarith cx m) (iarith cx (shift d m))" "later d b (time_scale cx m) (time_scale cx (shift d m))"
    "later d b (power_op cx m) (power_op cx (shift d m))" "later d b (conv cx k m) (conv cx k (shift d m))"
    "later d b (check_range cx m) (check_range cx (shift d m))"
    "later d b (date_arith cx m) (date_arith cx (shift d m))"
  using assms
  by (auto simp: cmp_u_def bit_op_def iarith_def time_scale_def power_op_def conv_def check_range_def
      date_arith_def Let_def split: ConvOp.split intro!: later_intros)

lemma later_standard_scalar:
  "mc_remaining m \<le> b \<Longrightarrow> later d b (standard_scalar cx m) (standard_scalar cx (shift d m))"
  by (auto simp: standard_scalar_def Let_def intro!: later_intros)

lemma later_loaded [later_intros]:
  "mc_remaining m \<le> b \<Longrightarrow> later d b (load_into cx offset ty m) (load_into cx offset ty (shift d m))"
  by (auto simp: load_into_def intro!: later_intros)

lemma later_stored [later_intros]:
  "mc_remaining m \<le> b \<Longrightarrow> later d b (store_to cx offset ty v m) (store_to cx offset ty v (shift d m))"
  by (auto simp: store_to_def intro!: later_intros)

lemma later_variable:
  assumes "mc_remaining m \<le> b"
  shows "later d b (push_const cx m) (push_const cx (shift d m))" "later d b (load_var cx m) (load_var cx (shift d m))"
    "later d b (store_var cx m) (store_var cx (shift d m))" "later d b (jmp cx m) (jmp cx (shift d m))"
    "later d b (jmp_if_false cx m) (jmp_if_false cx (shift d m))"
    "later d b (for_guard cx m) (for_guard cx (shift d m))" "later d b (for_test cx m) (for_test cx (shift d m))"
    "later d b (for_step f cx m) (for_step f cx (shift d m))"
  using assms
  by (auto simp: push_const_def load_var_def store_var_def jmp_def jmp_if_false_def for_guard_def
      for_test_def for_step_def Let_def intro!: later_intros)

lemma later_indexed [later_intros]:
  assumes "\<And>at n. later d b (k at (m\<lparr> mc_pc := n \<rparr>)) (k' at (shift d (m\<lparr> mc_pc := n \<rparr>)))"
  shows "later d b (indexed cx vs offset m k) (indexed cx vs offset (shift d m) k')"
  using assms
proof (induction vs arbitrary: offset m)
  case Nil
  from Nil [of offset "mc_pc m"] show ?case by simp
next
  case (Cons v vs)
  show ?case by (simp add: Let_def) (intro later_intros, simp add: Cons.IH Cons.prems)
qed


lemma later_access:
  assumes "mc_remaining m \<le> b"
  shows "later d b (load_access cx m) (load_access cx (shift d m))"
    "later d b (store_access cx m) (store_access cx (shift d m))"
    "later d b (copy_bytes cx m) (copy_bytes cx (shift d m))"
  using assms
  by (auto simp: load_access_def store_access_def copy_bytes_def Let_def intro!: later_intros)

text \<open>The commit of outputs asks for one more unit than it spends; a scan that goes on has it.\<close>

lemma later_funds [later_intros]:
  "unpaid e' \<Longrightarrow> later d r k k' \<Longrightarrow> later d r (require (0 < r) e m k) (require (0 < r + d) e' m' k')"
  by (cases k) (auto simp: require_def)

lemma later_commit_item [later_intros]:
  assumes "\<And>idx items n. later d b (k idx items (m\<lparr> mc_pc := n \<rparr>)) (k' idx items (shift d (m\<lparr> mc_pc := n \<rparr>)))"
  shows "later d b (commit_item cx idx items m k) (commit_item cx idx items (shift d m) k')"
  using assms by (auto simp: commit_item_def Let_def intro!: later_intros)

lemma later_commit_items [later_intros]:
  assumes "\<And>idx items n. later d b (k idx items (m\<lparr> mc_pc := n \<rparr>)) (k' idx items (shift d (m\<lparr> mc_pc := n \<rparr>)))"
  shows "later d b (commit_items cx c idx items m k) (commit_items cx c idx items (shift d m) k')"
  using assms
proof (induction c arbitrary: idx items m)
  case 0
  from 0 [of idx items "mc_pc m"] show ?case by simp
next
  case (Suc c)
  show ?case by simp (intro later_intros Suc.IH, simp add: Suc.prems)
qed

lemma later_commit_outputs: "mc_remaining m \<le> b \<Longrightarrow> later d b (commit_outputs cx m) (commit_outputs cx (shift d m))"
  by (auto simp: commit_outputs_def Let_def intro!: later_intros)

lemma later_block_pin [later_intros]:
  "(\<And>fb pin n. later d b (k fb pin (m\<lparr> mc_pc := n \<rparr>)) (k' fb pin (shift d (m\<lparr> mc_pc := n \<rparr>)))) \<Longrightarrow>
    later d b (block_pin cx m k) (block_pin cx (shift d m) k')"
  by (auto simp: block_pin_def intro!: later_intros)

lemma later_blocks:
  assumes "mc_remaining m \<le> b"
  shows "later d b (fb_store_in cx m) (fb_store_in cx (shift d m))"
    "later d b (fb_load_out cx m) (fb_load_out cx (shift d m))" "later d b (fb_call cx m) (fb_call cx (shift d m))"
    "later d b (fb_store_object cx m) (fb_store_object cx (shift d m))"
    "later d b (fb_load_object cx m) (fb_load_object cx (shift d m))"
  using assms
  by (auto simp: fb_store_in_def fb_load_out_def fb_call_def fb_store_object_def fb_load_object_def fb_object_def
      intro!: later_intros)

lemma later_compared [later_intros]:
  "(\<And>obj t n. later d b (k obj t (m\<lparr> mc_pc := n \<rparr>)) (k' obj t (shift d (m\<lparr> mc_pc := n \<rparr>)))) \<Longrightarrow>
    later d b (compared_object cx m k) (compared_object cx (shift d m) k')"
  by (auto simp: compared_object_def Let_def intro!: later_intros)

lemma later_text:
  assumes "mc_remaining m \<le> b"
  shows "later d b (string_copy c cx m) (string_copy c cx (shift d m))"
    "later d b (string_compare cx m) (string_compare cx (shift d m))"
    "later d b (string_length cx m) (string_length cx (shift d m))"
    "later d b (string_index cx m) (string_index cx (shift d m))"
  using assms
  by (auto simp: string_copy_def string_compare_def string_length_def string_index_def Let_def intro!: later_intros)

lemma later_text_args [later_intros]:
  assumes "\<And>args n. later d b (k args (m\<lparr> mc_pc := n \<rparr>)) (k' args (shift d (m\<lparr> mc_pc := n \<rparr>)))"
  shows "later d b (text_args cx c args m k) (text_args cx c args (shift d m) k')"
  using assms
proof (induction c arbitrary: args m)
  case 0
  from 0 [of args "mc_pc m"] show ?case by simp
next
  case (Suc c)
  then show ?case by (auto simp: Let_def intro!: later_intros)
qed

lemma later_string_result [later_intros]:
  "mc_remaining m \<le> b \<Longrightarrow> later d b (string_result cx f args q dst m) (string_result cx f args q dst (shift d m))"
  by (auto simp: string_result_def store_text_def Let_def split: sum.split intro!: later_intros)

lemma later_standard_string:
  "mc_remaining m \<le> b \<Longrightarrow> later d b (standard_string cx m) (standard_string cx (shift d m))"
  by (auto simp: standard_string_def Let_def intro!: later_intros)

theorem exec_op_later: "mc_remaining m \<le> b \<Longrightarrow> later d b (exec_op cx op m) (exec_op cx op (shift d m))"
  by (simp add: exec_op_def later_scalar later_typed later_standard_scalar later_variable later_access
      later_commit_outputs later_blocks later_text later_standard_string
      split: Op.split StringOp.split ForOp.split FbOp.split)



section \<open>The runner of the networks does not look at the budget\<close>

definition afford :: "int \<Rightarrow> 'n Instance \<Rightarrow> 'n Instance" where
  "afford d v = v\<lparr> vm_remaining := vm_remaining v + d \<rparr>"

lemma afford_simps [simp]:
  "vm_remaining (afford d v) = vm_remaining v + d" "vm_runner (afford d v) = vm_runner v"
  "vm_vars (afford d v) = vm_vars v" "vm_sfc (afford d v) = vm_sfc v" "vm_program (afford d v) = vm_program v"
  "vm_state (afford d v) = vm_state v" "vm_pc (afford d v) = vm_pc v" "vm_defer (afford d v) = vm_defer v"
  "vm_stack (afford d v) = vm_stack v" "vm_period (afford d v) = vm_period v"
  "vm_staged (afford d v) = vm_staged v" "vm_fault (afford d v) = vm_fault v"
  "vm_hooks (afford d v) = vm_hooks v" "vm_mapping (afford d v) = vm_mapping v"
  "vm_native (afford d v) = vm_native v" "vm_last_probe (afford d v) = vm_last_probe v"
  "vm_instruction_pc (afford d v) = vm_instruction_pc v" "vm_image_bound (afford d v) = vm_image_bound v"
  by (simp_all add: afford_def)

lemma afford_updates [simp]:
  "upd_runner f (afford d v) = afford d (upd_runner f v)" "sfc_set a i b (afford d v) = afford d (sfc_set a i b v)"
  "sfc_get (afford d v) a i = sfc_get v a i" "sfc_fill a bs (afford d v) = afford d (sfc_fill a bs v)"
  "(afford d v)\<lparr> vm_vars := xs \<rparr> = afford d (v\<lparr> vm_vars := xs \<rparr>)"
  "(afford d v)\<lparr> vm_sfc := xs \<rparr> = afford d (v\<lparr> vm_sfc := xs \<rparr>)"
  "(afford d v)\<lparr> vm_staged := g \<rparr> = afford d (v\<lparr> vm_staged := g \<rparr>)"
  "(afford d v)\<lparr> vm_shadow_visible := g \<rparr> = afford d (v\<lparr> vm_shadow_visible := g \<rparr>)"
  "(afford d v)\<lparr> vm_state := st \<rparr> = afford d (v\<lparr> vm_state := st \<rparr>)"
  "(afford d v)\<lparr> vm_pc := n \<rparr> = afford d (v\<lparr> vm_pc := n \<rparr>)"
  "(afford d v)\<lparr> vm_stack := st' \<rparr> = afford d (v\<lparr> vm_stack := st' \<rparr>)"
  "(afford d v)\<lparr> vm_instruction_pc := n \<rparr> = afford d (v\<lparr> vm_instruction_pc := n \<rparr>)"
  by (simp_all add: afford_def upd_runner_def sfc_set_def sfc_get_def sfc_fill_def)

lemma afford_runner [simp]:
  "next_item (afford d v) = afford d (next_item v)" "next_subitem (afford d v) = afford d (next_subitem v)"
  "step_item (afford d v) = afford d (step_item v)" "start_sfc_phase ph (afford d v) = afford d (start_sfc_phase ph v)"
  "append_sfc_trace kd e q pl (afford d v) = afford d (append_sfc_trace kd e q pl v)"
  "transition_eligible (afford d v) t i = transition_eligible v t i" "block_at (afford d v) k = block_at v k"
  "shadow_offset (afford d v) = shadow_offset v" "selected_code (afford d v) = selected_code v"
  "sfc_turn (afford d v) = sfc_turn v"
  by (simp_all add: next_item_def next_subitem_def step_item_def start_sfc_phase_def append_sfc_trace_def
      transition_eligible_def block_at_def shadow_offset_def selected_code_def sfc_turn_def fun_eq_iff Let_def
      split: prod.split option.split)

lemma afford_block [simp]: "put_block at s g wd (afford d v) = afford d (put_block at s g wd v)"
  "update_sfc_qualifier_block n i (afford d v) = afford d (update_sfc_qualifier_block n i v)"
  "reset_block n i (afford d v) = afford d (reset_block n i v)"
  "leave_stage_vars (afford d v) = afford d (leave_stage_vars v)"
  "stage_item a b c (afford d v) = afford d (stage_item a b c v)"
  "commit_item_byte a b (afford d v) = afford d (commit_item_byte a b v)"
  by (simp_all add: put_block_def update_sfc_qualifier_block_def reset_block_def leave_stage_vars_def
      stage_item_def commit_item_byte_def Let_def split: prod.split)

lemma afford_stages [simp]:
  "stage_vars (afford d v) = afford d (stage_vars v)" "stage_active n (afford d v) = afford d (stage_active n v)"
  "stage_action n (afford d v) = afford d (stage_action n v)" "stage_firing n (afford d v) = afford d (stage_firing n v)"
  "stage_direct n (afford d v) = afford d (stage_direct n v)" "stage_block n (afford d v) = afford d (stage_block n v)"
  "try_transition n (afford d v) = afford d (try_transition n v)"
  "qualifier_block n (afford d v) = afford d (qualifier_block n v)"
  "run_action n (afford d v) = afford d (run_action n v)"
  by (simp_all add: stage_vars_def stage_active_def stage_action_def stage_firing_def stage_direct_def
      stage_block_def try_transition_def qualifier_block_def run_action_def Let_def)

lemma afford_tokens [simp]: "move_tokens n (afford d v) = afford d (move_tokens n v)"
  by (simp add: move_tokens_def Let_def)

lemma afford_actions [simp]: "qualifier_action n (afford d v) = afford d (qualifier_action n v)"
  by (simp add: qualifier_action_def Let_def)

lemma afford_commits [simp]:
  "trace_step b n (afford d v) = afford d (trace_step b n v)"
  "trace_transition n (afford d v) = afford d (trace_transition n v)"
  "trace_qualifier n (afford d v) = afford d (trace_qualifier n v)"
  "trace_action n (afford d v) = afford d (trace_action n v)"
  "commit_active n (afford d v) = afford d (commit_active n v)"
  "commit_action n (afford d v) = afford d (commit_action n v)"
  "commit_block n (afford d v) = afford d (commit_block n v)"
  "finish_sfc_region (afford d v) = afford d (finish_sfc_region v)"
  "begin_sfc_regions (afford d v) = afford d (begin_sfc_regions v)"
  by (simp_all add: trace_step_def trace_transition_def trace_qualifier_def trace_action_def
      commit_active_def commit_action_def commit_block_def finish_sfc_region_def note_firing_def
      begin_sfc_regions_def Let_def split: option.split)

primrec map_move :: "('n Instance \<Rightarrow> 'n Instance) \<Rightarrow> 'n move \<Rightarrow> 'n move" where
  "map_move f (Continue v) = Continue (f v)"
| "map_move f (Return v) = Return (f v)"

lemma afford_each_item:
  assumes "\<And>u. over (afford d u) = afford d (over u)" "\<And>n u. visit n (afford d u) = afford d (visit n u)"
  shows "each_item over count clear visit (afford d v) = map_move (afford d) (each_item over count clear visit v)"
  using assms by (simp add: each_item_def Let_def)

lemma afford_once:
  "advance_once (afford d v) = map_option (map_move (afford d)) (advance_once v)"
  "trace_once (afford d v) = map_move (afford d) (trace_once v)"
  by (simp_all add: advance_once_def trace_once_def commit_var_def Let_def afford_each_item split: SfcRunnerPhase.split)

lemma afford_finish:
  "finish_scan (afford d v) im = map_option (map_prod (afford d) id) (finish_scan v im)"
  by (auto simp: finish_scan_def Let_def split: option.split Option.bind_split)

lemma afford_advance:
  "advance_sfc_runner v im = Some r \<Longrightarrow> advance_sfc_runner (afford d v) im = Some (afford d (fst r), snd r)"
proof (induction rule: advance_sfc_runner.raw_induct [rotated, consumes 1, case_names round])
  case (round f v im r)
  show ?case
  proof (cases "sfr_phase (vm_runner v) = Ph_finish \<and> sfr_network (vm_runner v) < length (networks v)")
    case True
    with round(2) show ?thesis
      by (cases r) (simp add: advance_sfc_runner.simps [of "afford d v"] afford_finish)
  next
    case False
    let ?mv = "case advance_once v of Some mv \<Rightarrow> mv | None \<Rightarrow> trace_once v"
    have mv: "(case advance_once (afford d v) of Some mv \<Rightarrow> mv | None \<Rightarrow> trace_once (afford d v)) =
        map_move (afford d) ?mv"
      by (simp add: afford_once split: option.split)
    show ?thesis
    proof (cases ?mv)
      case (Continue v1)
      with round(2) False have "f v1 im = Some r" by simp
      from round(1) [OF this] mv Continue False show ?thesis
        by (subst advance_sfc_runner.simps) auto
    next
      case (Return v1)
      with round(2) False mv show ?thesis by (subst advance_sfc_runner.simps) auto
    qed
  qed
qed


section \<open>One round\<close>

lemma afford_machine [simp]:
  "context_of env (afford d v) = context_of env v" "machine_of (afford d v) im e = shift d (machine_of v im e)"
  "with_machine (shift d m) (afford d v) = afford d (with_machine m v)"
  "mc_executed (shift d m) = mc_executed m" "mc_last_probe (shift d m) = mc_last_probe m"
  by (simp_all add: context_of_def machine_of_def with_machine_def shift_def Let_def afford_def selected_code_def
      split: option.split)

lemma beside_state: "beside_sfc v' = beside_sfc v \<Longrightarrow> vm_state v' = vm_state v"
  by (rule besideD)

text \<open>A round that goes on, and one that ends the scan.\<close>

definition stalls :: "'n progress option \<Rightarrow> bool" where
  "stalls r \<longleftrightarrow> (\<exists>u i k e. r = Some (Done u i k e) \<and> unpaid e)"

definition completes :: "'n Instance \<Rightarrow> ScanError \<Rightarrow> bool" where
  "completes w e \<longleftrightarrow> e = Scan_ok \<and> vm_state w = VS_complete"

lemma stalls_unpaid [simp]: "unpaid e \<Longrightarrow> stalls (Some (Done u i k e))"
  by (simp add: stalls_def)

lemma latch_never_completes [simp]: "\<not> completes (latch e v) r"
  by (simp add: completes_def latch_def Let_def upd_runner_def)

lemma with_machine_state [simp]: "vm_state (with_machine m v) = vm_state v"
  by (simp add: with_machine_def Let_def)

lemma shift_probe: "(shift d m)\<lparr> mc_remaining := r + d + 1 \<rparr> = shift d (m\<lparr> mc_remaining := r + 1 \<rparr>)"
  "(shift d m)\<lparr> mc_executed := k \<rparr> = shift d (m\<lparr> mc_executed := k \<rparr>)"
  "(shift d m)\<lparr> mc_last_probe := q \<rparr> = shift d (m\<lparr> mc_last_probe := q \<rparr>)"
  by (simp_all add: shift_def)

lemma probe_later:
  assumes "debug_probe cx v im m = More w i k"
  shows "debug_probe cx (afford d v) im (shift d m) = More (afford d w) i k \<and> vm_state w = vm_state v \<and>
    vm_remaining w = mc_remaining m + 1"
  using assms unfolding debug_probe_def Let_def
  by (auto simp: shift_probe split: option.splits if_splits prod.splits)

lemma probe_completes: "debug_probe cx v im m = Done w i k e \<Longrightarrow> \<not> completes w e"
  unfolding debug_probe_def Let_def
  by (auto simp: completes_def split: option.splits if_splits prod.splits)

definition leave_base :: "'n Instance \<Rightarrow> 'n Instance" where
  "leave_base v = (if sfr_region (vm_runner v) \<noteq> None then finish_sfc_region v
     else if sfr_phase (vm_runner v) = Ph_base then begin_sfc_regions v else v)"

definition write_back :: "'n Instance \<Rightarrow> ProcessImage option \<Rightarrow> ProcessImage option option" where
  "write_back v im = (case im of None \<Rightarrow> Some None
     | Some i \<Rightarrow> map_option Some (commit_scan i (the_program v) (vm_vars v) (\<not> vm_defer v)))"

lemma halt_cases: "halt v im e = (if networks v \<noteq> [] then Some (More (leave_base v) im e)
    else map_option (\<lambda>i. Done (v\<lparr> vm_state := VS_complete \<rparr>) i e Scan_ok) (write_back v im))"
  by (simp add: halt_def leave_base_def write_back_def map_conv_bind_option split: option.split)

lemma leave_base_afford [simp]: "leave_base (afford d v) = afford d (leave_base v)"
  "beside_sfc (leave_base v) = beside_sfc v"
  by (simp_all add: leave_base_def)

lemma write_back_afford [simp]: "write_back (afford d v) im = write_back v im"
  by (simp add: write_back_def split: option.split)

lemma halt_more_later:
  assumes "halt v im e = Some (More w i k)"
  shows "halt (afford d v) im e = Some (More (afford d w) i k) \<and> vm_state w = vm_state v \<and>
    vm_remaining w = vm_remaining v"
proof (cases "networks v = []")
  case True
  with assms show ?thesis by (auto simp: halt_cases)
next
  case False
  with assms have w: "leave_base v = w" "im = i" "e = k" by (simp_all add: halt_cases)
  have "beside_sfc w = beside_sfc v" unfolding w(1) [symmetric] by simp
  from besideD(4) [OF this] beside_remaining [OF this] False w show ?thesis by (simp add: halt_cases)
qed

lemma halt_done_later:
  assumes "halt v im e = Some (Done w i k r)"
  shows "halt (afford d v) im e = Some (Done (afford d w) i k r) \<and> vm_remaining w = vm_remaining v"
proof (cases "networks v = []")
  case True
  with assms show ?thesis by (auto simp: halt_cases)
next
  case False
  with assms show ?thesis by (simp add: halt_cases)
qed

text \<open>The runner of the networks: one unit, and it never asks for more.\<close>

lemma sfc_round_later:
  assumes "sfc_round v im e = Some p"
  shows "case p of
      More w i k \<Rightarrow> vm_state w = vm_state v \<and> vm_remaining w = vm_remaining v - 1 \<and>
        (if 0 < vm_remaining v + d then sfc_round (afford d v) im e = Some (More (afford d w) i k)
         else stalls (sfc_round (afford d v) im e))
    | Done w i k r \<Rightarrow> completes w r \<longrightarrow> vm_remaining w = vm_remaining v - 1 \<and>
        (if 0 < vm_remaining v + d then sfc_round (afford d v) im e = Some (Done (afford d w) i k r)
         else stalls (sfc_round (afford d v) im e))"
proof (cases "vm_remaining v \<le> 0")
  case True
  with assms show ?thesis by (auto simp: sfc_round_def)
next
  case False
  let ?u = "v\<lparr> vm_remaining := vm_remaining v - 1 \<rparr>"
  from assms False obtain v1 im1 where a: "advance_sfc_runner ?u im = Some (v1, im1)"
    by (auto simp: sfc_round_def split: Option.bind_splits)
  from beside_advance [OF a] have b: "beside_sfc v1 = beside_sfc ?u" by simp
  have u: "(afford d v)\<lparr> vm_remaining := vm_remaining v + d - 1 \<rparr> = afford d ?u"
    by (simp add: afford_def algebra_simps)
  from besideD(4) [OF b] beside_remaining [OF b] afford_advance [OF a, of d] assms False a
  show ?thesis by (auto simp: sfc_round_def u)
qed

text \<open>An instruction, a probe or a halt.\<close>

definition ran :: "int \<Rightarrow> 'n Instance \<Rightarrow> 'n outcome \<Rightarrow> 'n progress" where
  "ran e v out = (case out of Next m \<Rightarrow> More (with_machine m v) (mc_image m) e
     | Fault q m \<Rightarrow> Done (latch q (with_machine m v)) (mc_image m) e q)"

lemma ran_simps [simp]: "ran e v (Next m) = More (with_machine m v) (mc_image m) e"
  "ran e v (Fault q m) = Done (latch q (with_machine m v)) (mc_image m) e q"
  by (simp_all add: ran_def)

definition fetched :: "'n Instance \<Rightarrow> 'n Instance" where
  "fetched v = v\<lparr> vm_remaining := vm_remaining v - 1, vm_instruction_pc := vm_pc v, vm_pc := vm_pc v + 1 \<rparr>"

lemma fetched_simps [simp]: "fetched (afford d v) = afford d (fetched v)"
  "vm_state (fetched v) = vm_state v" "vm_remaining (fetched v) = vm_remaining v - 1"
  by (simp_all add: fetched_def afford_def algebra_simps)

lemma code_round_ran:
  assumes "0 < vm_remaining v" "vm_pc v < length (selected_code v)"
    "op_of_byte (selected_code v ! vm_pc v) = Some op"
  shows "code_round env v im e = (let v2 = fetched v; cx = context_of env v2; m = machine_of v2 im (e + 1)
    in if op = Op_debug_probe then Some (debug_probe cx v2 im m)
       else if op = Op_halt then halt v2 im (e + 1)
       else Some (ran (e + 1) v2 (exec_op cx op m)))"
  using assms by (cases op) (simp_all add: code_round_def fetched_def ran_def Let_def)

lemma code_round_later:
  assumes "code_round env v im e = Some p"
  shows "case p of
      More w i k \<Rightarrow> vm_state w = vm_state v \<and> vm_remaining w \<le> vm_remaining v \<and>
        (code_round env (afford d v) im e = Some (More (afford d w) i k) \<or>
         vm_remaining w + d \<le> 0 \<and> stalls (code_round env (afford d v) im e))
    | Done w i k r \<Rightarrow> vm_state v = VS_running \<longrightarrow> completes w r \<longrightarrow> vm_remaining w = vm_remaining v - 1 \<and>
        (if 0 < vm_remaining v + d then code_round env (afford d v) im e = Some (Done (afford d w) i k r)
         else stalls (code_round env (afford d v) im e))"
proof (cases "vm_remaining v \<le> 0 \<or> length (selected_code v) \<le> vm_pc v")
  case True
  with assms have "\<exists>u n r. p = Done (latch r u) im n r"
    by (cases "vm_remaining v \<le> 0") (auto simp: code_round_def)
  then show ?thesis by auto
next
  case False
  let ?v2 = "fetched v"
  let ?cx = "context_of env ?v2" and ?m = "machine_of ?v2 im (e + 1)"
  have s: "vm_remaining v + d \<le> 0 \<Longrightarrow> stalls (code_round env (afford d v) im e)"
    by (simp add: code_round_def)
  show ?thesis
  proof (cases "op_of_byte (selected_code v ! vm_pc v)")
    case None
    with assms False show ?thesis by (auto simp: code_round_def Let_def)
  next
    case (Some op)
    with False have r: "code_round env v im e = (if op = Op_debug_probe then Some (debug_probe ?cx ?v2 im ?m)
        else if op = Op_halt then halt ?v2 im (e + 1) else Some (ran (e + 1) ?v2 (exec_op ?cx op ?m)))"
      by (simp add: code_round_ran Let_def)
    from Some False have b: "0 < vm_remaining v + d \<Longrightarrow> code_round env (afford d v) im e =
        (if op = Op_debug_probe then Some (debug_probe ?cx (afford d ?v2) im (shift d ?m))
         else if op = Op_halt then halt (afford d ?v2) im (e + 1)
         else Some (ran (e + 1) (afford d ?v2) (exec_op ?cx op (shift d ?m))))"
      by (simp add: code_round_ran Let_def)
    consider "op = Op_debug_probe" | "op = Op_halt" | "op \<noteq> Op_debug_probe" "op \<noteq> Op_halt" by blast
    then show ?thesis
    proof cases
      case 1
      with assms r have p: "debug_probe ?cx ?v2 im ?m = p" by simp
      show ?thesis
      proof (cases p)
        case (More w i k)
        from probe_later [OF p [unfolded More], of d] b s More 1 show ?thesis
          by (cases "0 < vm_remaining v + d") auto
      next
        case (Done w i k q)
        from probe_completes [OF p [unfolded Done]] Done show ?thesis by simp
      qed
    next
      case 2
      with assms r have p: "halt ?v2 im (e + 1) = Some p" by simp
      show ?thesis
      proof (cases p)
        case (More w i k)
        from halt_more_later [OF p [unfolded More], of d] b s More 2 show ?thesis
          by (cases "0 < vm_remaining v + d") auto
      next
        case (Done w i k q)
        from halt_done_later [OF p [unfolded Done], of d] b s Done 2 show ?thesis
          by (cases "0 < vm_remaining v + d") auto
      qed
    next
      case 3
      with assms r have p: "p = ran (e + 1) ?v2 (exec_op ?cx op ?m)" by simp
      show ?thesis
      proof (cases "exec_op ?cx op ?m")
        case (Fault q m')
        with p show ?thesis by simp
      next
        case (Next m')
        have l: "later d (mc_remaining ?m) (exec_op ?cx op ?m) (exec_op ?cx op (shift d ?m))"
          by (rule exec_op_later) simp
        from l [unfolded Next] p b s Next 3 show ?thesis
          by (cases "0 < vm_remaining v + d") auto
      qed
    qed
  qed
qed


section \<open>A whole scan\<close>

lemma slice_step_later:
  assumes "slice_step env q v im e = Some p" "vm_state v = VS_running"
  shows "case p of
      More w i k \<Rightarrow> vm_state w = VS_running \<and> vm_remaining w \<le> vm_remaining v \<and>
        (slice_step env q (afford d v) im e = Some (More (afford d w) i k) \<or>
         vm_remaining w + d \<le> 0 \<and> stalls (slice_step env q (afford d v) im e))
    | Done w i k r \<Rightarrow> completes w r \<longrightarrow> vm_remaining w = vm_remaining v - 1 \<and>
        (if 0 < vm_remaining v + d then slice_step env q (afford d v) im e = Some (Done (afford d w) i k r)
         else stalls (slice_step env q (afford d v) im e))"
proof (cases "q \<le> e")
  case True
  with assms have "p = Done v im e Scan_ok" by (simp add: slice_step_def)
  with assms(2) show ?thesis by (simp add: completes_def)
next
  case False
  show ?thesis
  proof (cases "sfc_turn v")
    case True
    with assms False have "sfc_round v im e = Some p" by (simp add: slice_step_def)
    from sfc_round_later [OF this, of d] True False assms(2) show ?thesis
      by (cases p) (auto simp: slice_step_def split: if_splits)
  next
    case code: False
    with assms False have "code_round env v im e = Some p" by (simp add: slice_step_def)
    from code_round_later [OF this, of d] code False assms(2) show ?thesis
      by (cases p) (auto simp: slice_step_def)
  qed
qed

definition starves :: "('n Instance \<times> ProcessImage option \<times> int \<times> ScanError) option \<Rightarrow> bool" where
  "starves r \<longleftrightarrow> (\<exists>u i k e. r = Some (u, i, k, e) \<and> unpaid e)"

lemma run_slice_later:
  assumes "run_slice env q v im e = Some (w, i, k, r)" "vm_state v = VS_running" "completes w r"
  shows "vm_remaining w < vm_remaining v \<and>
    (if 0 \<le> vm_remaining w + d then run_slice env q (afford d v) im e = Some (afford d w, i, k, r)
     else starves (run_slice env q (afford d v) im e))"
  using assms
proof (induction env q v im e rule: run_slice.induct)
  case (1 env q v im e)
  from 1(2) obtain p where p: "slice_step env q v im e = Some p"
    by (cases "slice_step env q v im e") (simp_all add: run_slice.simps [of env q v])
  have stall: "stalls (slice_step env q (afford d v) im e) \<Longrightarrow> starves (run_slice env q (afford d v) im e)"
    by (auto simp: stalls_def starves_def run_slice.simps [of env q "afford d v"])
  show ?case
  proof (cases p)
    case (Done w' i' k' r')
    with p 1(2) have "w' = w" "i' = i" "k' = k" "r' = r" by (simp_all add: run_slice.simps [of env q v])
    with slice_step_later [OF p 1(3), of d] Done 1(4) stall show ?thesis
      by (auto simp: run_slice.simps [of env q "afford d v"])
  next
    case (More v' i' k')
    from p More 1(2) have run: "run_slice env q v' i' k' = Some (w, i, k, r)"
      by (simp add: run_slice.simps [of env q v])
    from slice_step_later [OF p 1(3), of d] More have s: "vm_state v' = VS_running"
      "vm_remaining v' \<le> vm_remaining v"
      "slice_step env q (afford d v) im e = Some (More (afford d v') i' k') \<or>
       vm_remaining v' + d \<le> 0 \<and> stalls (slice_step env q (afford d v) im e)" by auto
    from 1(1) [OF p More run s(1) 1(4)] s stall show ?thesis
      by (auto simp: run_slice.simps [of env q "afford d v"])
  qed
qed

lemma begin_later:
  assumes "begin_instance v n im = Some (w, i, Scan_ok)"
  shows "begin_instance v k im = Some (afford (k - n) w, i, Scan_ok) \<and> vm_program w \<noteq> None \<and>
    vm_fault w = Scan_ok \<and> vm_state w = VS_running \<and> vm_remaining w = n"
proof -
  from assms obtain p where p: "vm_program v = Some p" "vm_fault v = Scan_ok" "vm_state v \<noteq> VS_running"
    by (auto simp: begin_instance_def split: option.splits if_splits)
  then show ?thesis using assms
    by (cases im) (auto simp: begin_instance_def Let_def upd_runner_def afford_def split: Option.bind_splits)
qed

lemma afford_0 [simp]: "afford 0 v = v"
  by (simp add: afford_def)

lemma scan_cases:
  assumes "scan env v n im = Some (w, i, Scan_ok)"
  obtains v1 im1 k where "begin_instance v n im = Some (v1, im1, Scan_ok)"
    "run_slice env int64_max v1 im1 0 = Some (w, i, k, Scan_ok)"
proof -
  from assms obtain v1 im1 where b: "begin_instance v n im = Some (v1, im1, Scan_ok)"
    by (auto simp: scan_def split: Option.bind_splits if_splits)
  from begin_later [OF b, of n] assms b that show thesis
    by (auto simp: scan_def resume_def int64_max_def split: Option.bind_splits)
qed

lemma scan_begun:
  "begin_instance v n im = Some (v1, im1, Scan_ok) \<Longrightarrow>
    scan env v n im = map_option (\<lambda>(w, i, k, r). (w, i, r)) (run_slice env int64_max v1 im1 0)"
  using begin_later [of v n im v1 im1 n]
  by (auto simp: scan_def resume_def int64_max_def split: Option.bind_split)

text \<open>A scan that completes spends \<open>n - vm_remaining w\<close> units of its budget \<open>n\<close>.\<close>

theorem scan_later:
  assumes "scan env v n im = Some (w, i, Scan_ok)" "vm_state w = VS_complete"
  shows "vm_remaining w < n \<and>
    (if n - vm_remaining w \<le> k
     then scan env v k im = Some (w\<lparr> vm_remaining := k - (n - vm_remaining w) \<rparr>, i, Scan_ok)
     else \<exists>u j e. scan env v k im = Some (u, j, e) \<and> unpaid e)"
proof -
  from scan_cases [OF assms(1)] obtain v1 im1 c where b: "begin_instance v n im = Some (v1, im1, Scan_ok)"
    "run_slice env int64_max v1 im1 0 = Some (w, i, c, Scan_ok)" .
  note l = begin_later [OF b(1), of k]
  have "completes w Scan_ok" using assms(2) by (simp add: completes_def)
  from run_slice_later [OF b(2) _ this, of "k - n"] l show ?thesis
    by (auto simp: scan_begun starves_def afford_def algebra_simps)
qed

end
