(* ===== verification/PlantRun.thy ===== *)
theory PlantRun
  imports PlantConfig VmBudget "HOL-Library.Code_Target_Numeral"
begin

text \<open>
  The project of \<open>PlantConfig\<close> loaded, started and run by evaluation in the kernel.
\<close>

text \<open>The load succeeds, the boundary at tick 0 releases both tasks, the fast one goes first, and a quantum
  of four instructions completes both of them and publishes the output.\<close>

definition demo_checks :: "unit Instance ConfigurationRuntime \<Rightarrow> bool" where
  "demo_checks cr \<longleftrightarrow> cr_loaded cr \<and> length (cr_resources cr) = 1 \<and>
     rs_fault (resource_status (hd (cr_resources cr))) = RF_none \<and>
     map (\<lambda>t. st_state (ts_status (tk_storage t))) (rn_tasks (hd (cr_resources cr))) = [TS_running, TS_running] \<and>
     map_option snd (next_runnable (cr_resources cr)) = Some (Some (0, 1)) \<and>
     (case run (vm_ops demo_env) cr 4 of None \<Rightarrow> False
      | Some (cr', e) \<Rightarrow> published (rn_image (hd (cr_resources cr'))) \<noteq> published (rn_image (hd (cr_resources cr))))"

text \<open>The unit loaded on its own, without an image, and one scan of it: three instructions.\<close>

definition demo_instance :: "unit Instance" where
  "demo_instance = fst (load demo_env plant_unit True True 4096 1000000)"

definition demo_scanned :: "(unit Instance \<times> ProcessImage option \<times> ScanError) option \<Rightarrow> bool" where
  "demo_scanned r = (case r of None \<Rightarrow> False
     | Some (w, i, e) \<Rightarrow> vm_state w = VS_complete \<and> vm_remaining w = 7 \<and> e = Scan_ok \<and> i = None \<and>
         vm_vars w = [7, 0, 52, 18, 0, 0, 0, 0])"

lemma demo_evaluated:
  "(case boundary (vm_ops demo_env) (fst plant_load) 0 None 0 of None \<Rightarrow> False | Some (cr, e) \<Rightarrow> demo_checks cr) \<and>
   demo_scanned (scan demo_env demo_instance 10 None)"
  by code_simp

lemmas demo_boundary = demo_evaluated [THEN conjunct1] and demo_scan = demo_evaluated [THEN conjunct2]

lemma plant_project_compiled: "\<forall>c \<in> set (programs plant_project). compiled_unit c"
  using plant_unit_compiled spare_unit_compiled by (simp add: plant_project_def)

lemma demo_reached: "\<exists>cr. config_reach demo_env cr \<and> demo_checks cr"
proof -
  have "config_reach demo_env (fst plant_load)"
    unfolding plant_load_def
    by (rule config_reach.reach_load [OF plant_project_compiled prod.collapse [symmetric]])
  moreover obtain cr e where "boundary (vm_ops demo_env) (fst plant_load) 0 None 0 = Some (cr, e)" "demo_checks cr"
    using demo_boundary by (auto split: option.splits)
  ultimately show ?thesis using config_reach.reach_boundary by blast
qed

end
