(* ===== verification/Servo.thy ===== *)
theory Servo
  imports Ieee RtError "HOL-Library.Sublist"
begin

text \<open>
  The hardware interface of the adapters (\<open>core/adapters/servo.h\<close>), the mode manager
  (\<open>mode_manager.h\<close>) and the CiA 402 drive state machine (\<open>cia402.h\<close>). A \<open>double\<close> that is only
  stored or passed on is its 64 bits.
\<close>

section \<open>Setpoints and feedback\<close>

type_synonym double = u64

datatype Direction = Dir_current | Dir_positive | Dir_negative | Dir_shortest_way

record ServoSetpoints =
  sp_position :: double
  sp_velocity :: double
  sp_acceleration :: double
  sp_torque :: double
  sp_torque_limit :: double
  sp_torque_velocity_limit :: double
  sp_torque_acceleration_limit :: double
  sp_torque_deceleration_limit :: double
  sp_torque_jerk_limit :: double
  sp_torque_direction :: Direction
  sp_torque_mode :: bool

record AxisInfoInputs =
  ai_communication_ready :: bool
  ai_ready_for_power_on :: bool
  ai_home_abs_switch :: bool
  ai_limit_switch_pos :: bool
  ai_limit_switch_neg :: bool
  ai_warning :: bool

record ServoFeedback =
  sf_position :: double
  sf_velocity :: double
  sf_acceleration :: double
  sf_torque :: double
  sf_digital_inputs :: "bool list"
  sf_info :: AxisInfoInputs

abbreviation (input) "DigitalInputCount \<equiv> 4 :: nat"

definition empty_setpoints :: ServoSetpoints where
  "empty_setpoints = \<lparr> sp_position = 0, sp_velocity = 0, sp_acceleration = 0, sp_torque = 0,
     sp_torque_limit = 0, sp_torque_velocity_limit = 0, sp_torque_acceleration_limit = 0,
     sp_torque_deceleration_limit = 0, sp_torque_jerk_limit = 0,
     sp_torque_direction = Dir_current, sp_torque_mode = False \<rparr>"

definition default_info :: AxisInfoInputs where
  "default_info = \<lparr> ai_communication_ready = True, ai_ready_for_power_on = True,
     ai_home_abs_switch = False, ai_limit_switch_pos = False, ai_limit_switch_neg = False,
     ai_warning = False \<rparr>"

definition empty_feedback :: ServoFeedback where
  "empty_feedback = \<lparr> sf_position = 0, sf_velocity = 0, sf_acceleration = 0, sf_torque = 0,
     sf_digital_inputs = replicate DigitalInputCount False, sf_info = default_info \<rparr>"

definition double_finite :: "double \<Rightarrow> bool" where
  "double_finite v = fp_finite (bits_double v)"


section \<open>The simulated servo\<close>

record ServoSim =
  ss_state :: ServoSetpoints
  ss_digital_inputs :: "bool list"
  ss_info :: AxisInfoInputs

definition sim_write_setpoints :: "ServoSim \<Rightarrow> ServoSetpoints \<Rightarrow> ServoSim" where
  "sim_write_setpoints s sp = s\<lparr> ss_state := sp \<rparr>"

definition sim_read_feedback :: "ServoSim \<Rightarrow> ServoFeedback" where
  "sim_read_feedback s =
     \<lparr> sf_position = sp_position (ss_state s), sf_velocity = sp_velocity (ss_state s),
       sf_acceleration = sp_acceleration (ss_state s), sf_torque = sp_torque (ss_state s),
       sf_digital_inputs = ss_digital_inputs s, sf_info = ss_info s \<rparr>"

definition sim_set_digital_input :: "ServoSim \<Rightarrow> nat \<Rightarrow> bool \<Rightarrow> ServoSim" where
  "sim_set_digital_input s input level =
     (if input < DigitalInputCount then s\<lparr> ss_digital_inputs := (ss_digital_inputs s)[input := level] \<rparr> else s)"

definition sim_set_info :: "ServoSim \<Rightarrow> AxisInfoInputs \<Rightarrow> ServoSim" where
  "sim_set_info s info = s\<lparr> ss_info := info \<rparr>"


section \<open>The mode manager\<close>

datatype OperationMode = Mode_csp | Mode_csv | Mode_cst

record ModeManager =
  mm_mode :: OperationMode
  mm_last :: ServoSetpoints
  mm_primed :: bool

definition new_mode_manager :: ModeManager where
  "new_mode_manager = \<lparr> mm_mode = Mode_csp, mm_last = empty_setpoints, mm_primed = False \<rparr>"

definition switch_mode :: "ModeManager \<Rightarrow> OperationMode \<Rightarrow> ModeManager \<times> ErrorCode" where
  "switch_mode m nxt =
     (if \<not> mm_primed m then (m, EC_precondition_failed) else (m\<lparr> mm_mode := nxt \<rparr>, EC_ok))"

definition emit :: "ModeManager \<Rightarrow> ServoSetpoints \<Rightarrow> ModeManager \<times> ServoSetpoints" where
  "emit m sp = (m\<lparr> mm_last := sp, mm_primed := True \<rparr>, sp)"

definition primary_channel :: "ModeManager \<Rightarrow> ServoSetpoints \<Rightarrow> double" where
  "primary_channel m sp = (case mm_mode m of
     Mode_csp \<Rightarrow> sp_position sp | Mode_csv \<Rightarrow> sp_velocity sp | Mode_cst \<Rightarrow> sp_torque sp)"


section \<open>The drive state machine\<close>

datatype Cia402State =
    C4_not_ready_to_switch_on | C4_switch_on_disabled | C4_ready_to_switch_on | C4_switched_on
  | C4_operation_enabled | C4_quick_stop_active | C4_fault_reaction_active | C4_fault

datatype Cia402Command =
    Cmd_shutdown | Cmd_switch_on | Cmd_enable_operation | Cmd_disable_voltage | Cmd_quick_stop
  | Cmd_disable_operation | Cmd_fault_reset

definition c4_initialize :: "Cia402State \<Rightarrow> Cia402State" where
  "c4_initialize s = (if s = C4_not_ready_to_switch_on then C4_switch_on_disabled else s)"

definition c4_fault_event :: "Cia402State \<Rightarrow> Cia402State" where
  "c4_fault_event s = (if s \<noteq> C4_fault \<and> s \<noteq> C4_fault_reaction_active then C4_fault_reaction_active else s)"

definition c4_fault_reaction_complete :: "Cia402State \<Rightarrow> Cia402State" where
  "c4_fault_reaction_complete s = (if s = C4_fault_reaction_active then C4_fault else s)"

definition c4_quick_stop_complete :: "Cia402State \<Rightarrow> Cia402State" where
  "c4_quick_stop_complete s = (if s = C4_quick_stop_active then C4_switch_on_disabled else s)"

definition c4_command :: "Cia402State \<Rightarrow> Cia402Command \<Rightarrow> Cia402State \<times> bool" where
  "c4_command s command = (case command of
     Cmd_shutdown \<Rightarrow>
       (if s \<in> {C4_switch_on_disabled, C4_switched_on, C4_operation_enabled}
        then (C4_ready_to_switch_on, True) else (s, False))
   | Cmd_switch_on \<Rightarrow>
       (if s = C4_ready_to_switch_on then (C4_switched_on, True) else (s, False))
   | Cmd_enable_operation \<Rightarrow>
       (if s \<in> {C4_switched_on, C4_quick_stop_active} then (C4_operation_enabled, True) else (s, False))
   | Cmd_disable_voltage \<Rightarrow>
       (if s \<in> {C4_ready_to_switch_on, C4_switched_on, C4_operation_enabled, C4_quick_stop_active}
        then (C4_switch_on_disabled, True) else (s, False))
   | Cmd_quick_stop \<Rightarrow>
       (if s = C4_operation_enabled then (C4_quick_stop_active, True)
        else if s \<in> {C4_ready_to_switch_on, C4_switched_on} then (C4_switch_on_disabled, True)
        else (s, False))
   | Cmd_disable_operation \<Rightarrow>
       (if s = C4_operation_enabled then (C4_switched_on, True) else (s, False))
   | Cmd_fault_reset \<Rightarrow>
       (if s = C4_fault then (C4_switch_on_disabled, True) else (s, False)))"

definition c4_operational :: "Cia402State \<Rightarrow> bool" where
  "c4_operational s \<longleftrightarrow> s = C4_operation_enabled"

text \<open>What can happen to a drive, and a history of it.\<close>

datatype DriveEvent =
    Drive_initialize | Drive_fault | Drive_fault_reaction_complete | Drive_quick_stop_complete
  | Drive_command Cia402Command

definition drive_step :: "DriveEvent \<Rightarrow> Cia402State \<Rightarrow> Cia402State" where
  "drive_step e s = (case e of
     Drive_initialize \<Rightarrow> c4_initialize s
   | Drive_fault \<Rightarrow> c4_fault_event s
   | Drive_fault_reaction_complete \<Rightarrow> c4_fault_reaction_complete s
   | Drive_quick_stop_complete \<Rightarrow> c4_quick_stop_complete s
   | Drive_command c \<Rightarrow> fst (c4_command s c))"

definition drive_run :: "DriveEvent list \<Rightarrow> Cia402State \<Rightarrow> Cia402State" where
  "drive_run = fold drive_step"

lemmas c4_defs = drive_step_def c4_initialize_def c4_fault_event_def c4_fault_reaction_complete_def
  c4_quick_stop_complete_def c4_command_def

text \<open>What it takes to enable the drive from a state. A drive that is still starting has to be initialised
  too, or to go through a fault.\<close>

fun power_up :: "Cia402State \<Rightarrow> DriveEvent list" where
  "power_up C4_operation_enabled = []"
| "power_up C4_switched_on = [Drive_command Cmd_enable_operation]"
| "power_up C4_quick_stop_active = [Drive_command Cmd_enable_operation]"
| "power_up C4_ready_to_switch_on = map Drive_command [Cmd_switch_on, Cmd_enable_operation]"
| "power_up C4_switch_on_disabled = map Drive_command [Cmd_shutdown, Cmd_switch_on, Cmd_enable_operation]"
| "power_up C4_not_ready_to_switch_on =
     map Drive_command [Cmd_shutdown, Cmd_switch_on, Cmd_enable_operation]"
| "power_up C4_fault =
     map Drive_command [Cmd_fault_reset, Cmd_shutdown, Cmd_switch_on, Cmd_enable_operation]"
| "power_up C4_fault_reaction_active =
     Drive_fault_reaction_complete #
     map Drive_command [Cmd_fault_reset, Cmd_shutdown, Cmd_switch_on, Cmd_enable_operation]"

lemma power_up_enables: "s \<noteq> C4_not_ready_to_switch_on \<Longrightarrow> drive_run (power_up s) s = C4_operation_enabled"
  by (cases s) (simp_all add: drive_run_def c4_defs)

lemma power_up_shorter: "power_up s = e # power_up (drive_step e s) \<or> subseq (power_up s) (power_up (drive_step e s))"
proof (cases e)
  case (Drive_command c)
  then show ?thesis by (cases c; cases s; simp add: c4_defs)
qed (cases s; simp add: c4_defs)+

lemma power_up_step: "subseq (power_up (drive_step e s)) es \<Longrightarrow> subseq (power_up s) (e # es)"
  using power_up_shorter [of s e] by (metis subseq_order.trans subseq_Cons' subseq_Cons2)

lemma power_up_needed: "drive_run es s = C4_operation_enabled \<Longrightarrow> subseq (power_up s) es"
proof (induction es arbitrary: s)
  case Nil
  then show ?case by (simp add: drive_run_def)
next
  case (Cons e es)
  then have "subseq (power_up (drive_step e s)) es" by (simp add: drive_run_def)
  then show ?case by (rule power_up_step)
qed

end
