(* ===== verification/IpcTransport.thy ===== *)
theory IpcTransport
  imports Servo RtIpc
begin

unbundle bit_operations_syntax

text \<open>
  The fieldbus transport (\<open>core/adapters/ipc_transport.h\<close>): wire records and frames, their
  conversion, the header of the shared region with its state machine, and the passage of a frame
  through the ring of \<open>RtIpc\<close> as the 64-bit words that the ring copies.
\<close>

abbreviation (input) "TransportMagic \<equiv> 0x49355850 :: u32"
abbreviation (input) "TransportAbiVersion \<equiv> 1 :: u32"
abbreviation (input) "MaxAxes \<equiv> 8 :: nat"

datatype AttachStatus =
    At_ok | At_not_initialized | At_invalid_magic | At_version_mismatch | At_layout_mismatch
  | At_invalid_axis_count

datatype TransportState =
    XS_uninitialized | XS_initializing | XS_priming | XS_running | XS_draining | XS_stopped | XS_faulted

fun transport_state_value :: "TransportState \<Rightarrow> u32" where
  "transport_state_value XS_uninitialized = 0"
| "transport_state_value XS_initializing = 1"
| "transport_state_value XS_priming = 2"
| "transport_state_value XS_running = 3"
| "transport_state_value XS_draining = 4"
| "transport_state_value XS_stopped = 5"
| "transport_state_value XS_faulted = 6"

datatype TransportError =
    TE_none | TE_incompatible_layout | TE_peer_lost | TE_setpoint_starvation | TE_feedback_overflow

fun transport_error_value :: "TransportError \<Rightarrow> u32" where
  "transport_error_value TE_none = 0"
| "transport_error_value TE_incompatible_layout = 1"
| "transport_error_value TE_peer_lost = 2"
| "transport_error_value TE_setpoint_starvation = 3"
| "transport_error_value TE_feedback_overflow = 4"


section \<open>Wire records\<close>

record ServoSetpointWire =
  sw_position :: double
  sw_velocity :: double
  sw_acceleration :: double
  sw_torque :: double
  sw_torque_limit :: double
  sw_torque_velocity_limit :: double
  sw_torque_acceleration_limit :: double
  sw_torque_deceleration_limit :: double
  sw_torque_jerk_limit :: double
  sw_torque_direction :: u32
  sw_torque_mode :: u32

record ServoFeedbackWire =
  fw_position :: double
  fw_velocity :: double
  fw_acceleration :: double
  fw_torque :: double
  fw_digital_inputs :: u32
  fw_axis_info :: u32

record 'w Frame =
  fr_tick :: u64
  fr_axis_count :: u32
  fr_reserved :: u32
  fr_axes :: "'w list"

definition empty_setpoint_wire :: ServoSetpointWire where
  "empty_setpoint_wire = \<lparr> sw_position = 0, sw_velocity = 0, sw_acceleration = 0, sw_torque = 0,
     sw_torque_limit = 0, sw_torque_velocity_limit = 0, sw_torque_acceleration_limit = 0,
     sw_torque_deceleration_limit = 0, sw_torque_jerk_limit = 0, sw_torque_direction = 0,
     sw_torque_mode = 0 \<rparr>"

definition empty_feedback_wire :: ServoFeedbackWire where
  "empty_feedback_wire = \<lparr> fw_position = 0, fw_velocity = 0, fw_acceleration = 0, fw_torque = 0,
     fw_digital_inputs = 0, fw_axis_info = 0 \<rparr>"

definition empty_frame :: "'w \<Rightarrow> 'w Frame" where
  "empty_frame w = \<lparr> fr_tick = 0, fr_axis_count = 0, fr_reserved = 0, fr_axes = replicate MaxAxes w \<rparr>"

abbreviation (input) "CommunicationReady \<equiv> 1 :: u32"
abbreviation (input) "ReadyForPowerOn \<equiv> 2 :: u32"
abbreviation (input) "HomeAbsSwitch \<equiv> 4 :: u32"
abbreviation (input) "LimitSwitchPos \<equiv> 8 :: u32"
abbreviation (input) "LimitSwitchNeg \<equiv> 16 :: u32"
abbreviation (input) "WarningBit \<equiv> 32 :: u32"

definition AxisInfoMask :: u32 where
  "AxisInfoMask = CommunicationReady OR ReadyForPowerOn OR HomeAbsSwitch OR LimitSwitchPos OR
     LimitSwitchNeg OR WarningBit"

definition DigitalInputMask :: u32 where
  "DigitalInputMask = push_bit DigitalInputCount 1 - 1"

definition valid_direction :: "Direction \<Rightarrow> bool" where
  "valid_direction d = (case d of
     Dir_current \<Rightarrow> True | Dir_positive \<Rightarrow> True | Dir_negative \<Rightarrow> True | Dir_shortest_way \<Rightarrow> True)"

definition valid_setpoint_wire :: "ServoSetpointWire \<Rightarrow> bool" where
  "valid_setpoint_wire w \<longleftrightarrow>
     double_finite (sw_position w) \<and> double_finite (sw_velocity w) \<and>
     double_finite (sw_acceleration w) \<and> double_finite (sw_torque w) \<and>
     double_finite (sw_torque_limit w) \<and> double_finite (sw_torque_velocity_limit w) \<and>
     double_finite (sw_torque_acceleration_limit w) \<and>
     double_finite (sw_torque_deceleration_limit w) \<and> double_finite (sw_torque_jerk_limit w) \<and>
     sint (sw_torque_direction w) \<ge> 0 \<and> sint (sw_torque_direction w) \<le> 3 \<and> sw_torque_mode w \<le> 1"

definition valid_feedback_wire :: "ServoFeedbackWire \<Rightarrow> bool" where
  "valid_feedback_wire w \<longleftrightarrow>
     double_finite (fw_position w) \<and> double_finite (fw_velocity w) \<and>
     double_finite (fw_acceleration w) \<and> double_finite (fw_torque w) \<and>
     fw_digital_inputs w AND NOT DigitalInputMask = 0 \<and> fw_axis_info w AND NOT AxisInfoMask = 0"

definition valid_setpoint_source :: "ServoSetpoints \<Rightarrow> bool" where
  "valid_setpoint_source s \<longleftrightarrow>
     double_finite (sp_position s) \<and> double_finite (sp_velocity s) \<and>
     double_finite (sp_acceleration s) \<and> double_finite (sp_torque s) \<and>
     double_finite (sp_torque_limit s) \<and> double_finite (sp_torque_velocity_limit s) \<and>
     double_finite (sp_torque_acceleration_limit s) \<and>
     double_finite (sp_torque_deceleration_limit s) \<and> double_finite (sp_torque_jerk_limit s)"

definition valid_feedback_source :: "ServoFeedback \<Rightarrow> bool" where
  "valid_feedback_source s \<longleftrightarrow>
     double_finite (sf_position s) \<and> double_finite (sf_velocity s) \<and>
     double_finite (sf_acceleration s) \<and> double_finite (sf_torque s)"

definition encode_setpoint :: "ServoSetpoints \<Rightarrow> ServoSetpointWire" where
  "encode_setpoint s =
     \<lparr> sw_position = sp_position s, sw_velocity = sp_velocity s, sw_acceleration = sp_acceleration s,
       sw_torque = sp_torque s, sw_torque_limit = sp_torque_limit s,
       sw_torque_velocity_limit = sp_torque_velocity_limit s,
       sw_torque_acceleration_limit = sp_torque_acceleration_limit s,
       sw_torque_deceleration_limit = sp_torque_deceleration_limit s,
       sw_torque_jerk_limit = sp_torque_jerk_limit s,
       sw_torque_direction = (case sp_torque_direction s of
         Dir_current \<Rightarrow> 0 | Dir_positive \<Rightarrow> 1 | Dir_negative \<Rightarrow> 2 | Dir_shortest_way \<Rightarrow> 3),
       sw_torque_mode = (if sp_torque_mode s then 1 else 0) \<rparr>"

definition decode_setpoint :: "ServoSetpointWire \<Rightarrow> ServoSetpoints" where
  "decode_setpoint w =
     \<lparr> sp_position = sw_position w, sp_velocity = sw_velocity w, sp_acceleration = sw_acceleration w,
       sp_torque = sw_torque w, sp_torque_limit = sw_torque_limit w,
       sp_torque_velocity_limit = sw_torque_velocity_limit w,
       sp_torque_acceleration_limit = sw_torque_acceleration_limit w,
       sp_torque_deceleration_limit = sw_torque_deceleration_limit w,
       sp_torque_jerk_limit = sw_torque_jerk_limit w,
       sp_torque_direction =
         (if sw_torque_direction w = 0 then Dir_current
          else if sw_torque_direction w = 1 then Dir_positive
          else if sw_torque_direction w = 2 then Dir_negative
          else if sw_torque_direction w = 3 then Dir_shortest_way else Dir_current),
       sp_torque_mode = (sw_torque_mode w \<noteq> 0) \<rparr>"

definition bits_of :: "(bool \<times> u32) list \<Rightarrow> u32" where
  "bits_of bs = fold (\<lambda>(b, m) w. if b then w OR m else w) bs 0"

definition encode_feedback_value :: "ServoFeedback \<Rightarrow> ServoFeedbackWire" where
  "encode_feedback_value s =
     \<lparr> fw_position = sf_position s, fw_velocity = sf_velocity s, fw_acceleration = sf_acceleration s,
       fw_torque = sf_torque s,
       fw_digital_inputs =
         bits_of (map (\<lambda>i. (sf_digital_inputs s ! i, push_bit i 1)) [0..<DigitalInputCount]),
       fw_axis_info = (let info = sf_info s in bits_of
         [(ai_communication_ready info, CommunicationReady), (ai_ready_for_power_on info, ReadyForPowerOn),
          (ai_home_abs_switch info, HomeAbsSwitch), (ai_limit_switch_pos info, LimitSwitchPos),
          (ai_limit_switch_neg info, LimitSwitchNeg), (ai_warning info, WarningBit)]) \<rparr>"

definition decode_feedback_value :: "ServoFeedbackWire \<Rightarrow> ServoFeedback" where
  "decode_feedback_value w =
     \<lparr> sf_position = fw_position w, sf_velocity = fw_velocity w, sf_acceleration = fw_acceleration w,
       sf_torque = fw_torque w,
       sf_digital_inputs = map (\<lambda>i. fw_digital_inputs w AND push_bit i 1 \<noteq> 0) [0..<DigitalInputCount],
       sf_info = (let m = fw_axis_info w in
         \<lparr> ai_communication_ready = (m AND CommunicationReady \<noteq> 0),
           ai_ready_for_power_on = (m AND ReadyForPowerOn \<noteq> 0),
           ai_home_abs_switch = (m AND HomeAbsSwitch \<noteq> 0),
           ai_limit_switch_pos = (m AND LimitSwitchPos \<noteq> 0),
           ai_limit_switch_neg = (m AND LimitSwitchNeg \<noteq> 0),
           ai_warning = (m AND WarningBit \<noteq> 0) \<rparr>) \<rparr>"


section \<open>Frames\<close>

text \<open>The encoder fills the frame axis by axis and stops at the first value it refuses; the axes before
  it stay in the frame. \<open>values\<close> is a pointer to an array.\<close>

fun encode_axes :: "('v \<Rightarrow> bool) \<Rightarrow> ('w \<Rightarrow> bool) \<Rightarrow> ('v \<Rightarrow> 'w) \<Rightarrow> 'v list \<Rightarrow> nat \<Rightarrow> 'w Frame \<Rightarrow> bool \<times> 'w Frame" where
  "encode_axes source_ok wire_ok enc [] i frame = (True, frame)"
| "encode_axes source_ok wire_ok enc (v # vs) i frame =
     (if \<not> source_ok v then (False, frame)
      else let wire = enc v
        in if \<not> wire_ok wire then (False, frame)
           else encode_axes source_ok wire_ok enc vs (i + 1) (frame\<lparr> fr_axes := (fr_axes frame)[i := wire] \<rparr>))"

definition encode_frame ::
  "('v \<Rightarrow> bool) \<Rightarrow> ('w \<Rightarrow> bool) \<Rightarrow> ('v \<Rightarrow> 'w) \<Rightarrow> 'w \<Rightarrow> u64 \<Rightarrow> 'v list option \<Rightarrow> nat \<Rightarrow> 'w Frame \<Rightarrow> bool \<times> 'w Frame"
where
  "encode_frame source_ok wire_ok enc wire0 tick vals count frame =
     (case vals of None \<Rightarrow> (False, frame) | Some vs \<Rightarrow>
        if count = 0 \<or> count > MaxAxes then (False, frame)
        else encode_axes source_ok wire_ok enc (take count vs) 0
          ((empty_frame wire0)\<lparr> fr_tick := tick, fr_axis_count := of_nat count \<rparr>))"

definition encode_setpoints ::
  "u64 \<Rightarrow> ServoSetpoints list option \<Rightarrow> nat \<Rightarrow> ServoSetpointWire Frame \<Rightarrow> bool \<times> ServoSetpointWire Frame"
where
  "encode_setpoints =
     encode_frame (\<lambda>v. valid_direction (sp_torque_direction v) \<and> valid_setpoint_source v)
       valid_setpoint_wire encode_setpoint empty_setpoint_wire"

definition encode_feedback ::
  "u64 \<Rightarrow> ServoFeedback list option \<Rightarrow> nat \<Rightarrow> ServoFeedbackWire Frame \<Rightarrow> bool \<times> ServoFeedbackWire Frame"
where
  "encode_feedback =
     encode_frame valid_feedback_source valid_feedback_wire encode_feedback_value empty_feedback_wire"

text \<open>The decoder checks everything before it writes: the values and the tick, or nothing.\<close>

definition frame_refused :: "'w Frame \<Rightarrow> 'v list option \<Rightarrow> nat \<Rightarrow> bool" where
  "frame_refused frame vals count \<longleftrightarrow>
     vals = None \<or> fr_axis_count frame = 0 \<or> unat (fr_axis_count frame) > MaxAxes \<or>
     count \<noteq> unat (fr_axis_count frame) \<or> fr_reserved frame \<noteq> 0"

definition decode_frame ::
  "('w \<Rightarrow> bool) \<Rightarrow> ('w \<Rightarrow> 'v) \<Rightarrow> 'w Frame \<Rightarrow> 'v list option \<Rightarrow> nat \<Rightarrow> u64 \<Rightarrow> bool \<times> 'v list option \<times> u64"
where
  "decode_frame wire_ok dec frame vals count tick =
     (if frame_refused frame vals count then (False, vals, tick)
      else if \<not> list_all wire_ok (take count (fr_axes frame)) then (False, vals, tick)
      else (True, map_option (blit 0 (map dec (take count (fr_axes frame)))) vals, fr_tick frame))"

definition decode_setpoints ::
  "ServoSetpointWire Frame \<Rightarrow> ServoSetpoints list option \<Rightarrow> nat \<Rightarrow> u64 \<Rightarrow>
   bool \<times> ServoSetpoints list option \<times> u64"
where
  "decode_setpoints = decode_frame valid_setpoint_wire decode_setpoint"

definition decode_feedback ::
  "ServoFeedbackWire Frame \<Rightarrow> ServoFeedback list option \<Rightarrow> nat \<Rightarrow> u64 \<Rightarrow>
   bool \<times> ServoFeedback list option \<times> u64"
where
  "decode_feedback = decode_frame valid_feedback_wire decode_feedback_value"


section \<open>Frames as words\<close>

text \<open>What \<open>memcpy\<close> makes of a frame on the little-endian target: two 32-bit members share a word.\<close>

definition pair_word :: "u32 \<Rightarrow> u32 \<Rightarrow> u64" where
  "pair_word lo hi = ucast lo OR push_bit 32 (ucast hi)"

definition lo_word :: "u64 \<Rightarrow> u32" where "lo_word w = ucast w"
definition hi_word :: "u64 \<Rightarrow> u32" where "hi_word w = ucast (drop_bit 32 w)"

definition setpoint_words :: "ServoSetpointWire \<Rightarrow> u64 list" where
  "setpoint_words w = [sw_position w, sw_velocity w, sw_acceleration w, sw_torque w, sw_torque_limit w,
     sw_torque_velocity_limit w, sw_torque_acceleration_limit w, sw_torque_deceleration_limit w,
     sw_torque_jerk_limit w, pair_word (sw_torque_direction w) (sw_torque_mode w)]"

definition setpoint_of_words :: "u64 list \<Rightarrow> ServoSetpointWire" where
  "setpoint_of_words ws = \<lparr> sw_position = ws ! 0, sw_velocity = ws ! 1, sw_acceleration = ws ! 2,
     sw_torque = ws ! 3, sw_torque_limit = ws ! 4, sw_torque_velocity_limit = ws ! 5,
     sw_torque_acceleration_limit = ws ! 6, sw_torque_deceleration_limit = ws ! 7,
     sw_torque_jerk_limit = ws ! 8, sw_torque_direction = lo_word (ws ! 9),
     sw_torque_mode = hi_word (ws ! 9) \<rparr>"

definition feedback_words :: "ServoFeedbackWire \<Rightarrow> u64 list" where
  "feedback_words w = [fw_position w, fw_velocity w, fw_acceleration w, fw_torque w,
     pair_word (fw_digital_inputs w) (fw_axis_info w)]"

definition feedback_of_words :: "u64 list \<Rightarrow> ServoFeedbackWire" where
  "feedback_of_words ws = \<lparr> fw_position = ws ! 0, fw_velocity = ws ! 1, fw_acceleration = ws ! 2,
     fw_torque = ws ! 3, fw_digital_inputs = lo_word (ws ! 4), fw_axis_info = hi_word (ws ! 4) \<rparr>"

definition frame_words :: "('w \<Rightarrow> u64 list) \<Rightarrow> 'w Frame \<Rightarrow> u64 list" where
  "frame_words words f =
     fr_tick f # pair_word (fr_axis_count f) (fr_reserved f) # concat (map words (fr_axes f))"

definition frame_of_words :: "nat \<Rightarrow> (u64 list \<Rightarrow> 'w) \<Rightarrow> u64 list \<Rightarrow> 'w Frame" where
  "frame_of_words k unwords ws =
     \<lparr> fr_tick = ws ! 0, fr_axis_count = lo_word (ws ! 1), fr_reserved = hi_word (ws ! 1),
       fr_axes = map (\<lambda>i. unwords (seg ws (2 + i * k) k)) [0..<MaxAxes] \<rparr>"


section \<open>The shared region\<close>

record TransportHeader =
  hdr_magic :: u32
  hdr_abi_version :: u32
  hdr_header_bytes :: u32
  hdr_region_bytes :: u32
  hdr_max_axes :: u32
  hdr_axis_count :: u32
  hdr_transport_depth :: u32
  hdr_setpoint_frame_bytes :: u32
  hdr_feedback_frame_bytes :: u32
  hdr_status_bytes :: u32
  hdr_reserved0 :: u32
  hdr_reserved1 :: u32
  hdr_generation :: u64
  hdr_period_ns :: u64
  hdr_state :: u32
  hdr_last_error :: u32
  hdr_executor_heartbeat :: u64
  hdr_bus_heartbeat :: u64
  hdr_phase_tick :: u64

text \<open>The region of depth \<open>depth\<close>; its size in bytes is the compiler's \<open>sizeof(*this)\<close>, 9344 for
  depth 8.\<close>

record ServoIpcRegion =
  rr_depth :: nat
  rr_bytes :: u32
  rr_header :: TransportHeader
  rr_setpoints :: IpcSpscRing
  rr_feedback :: IpcSpscRing
  rr_status :: IpcDoubleBuffer

text \<open>The payloads of the channels have 82, 42 and 9 words.\<close>

definition region_initialize :: "ServoIpcRegion \<Rightarrow> nat \<Rightarrow> u64 \<Rightarrow> u64 \<Rightarrow> ServoIpcRegion \<times> bool" where
  "region_initialize r axis_count period_ns generation =
     (if axis_count = 0 \<or> axis_count > MaxAxes \<or> period_ns = 0 \<or> generation = 0 then (r, False)
      else (r\<lparr> rr_header :=
          \<lparr> hdr_magic = TransportMagic, hdr_abi_version = TransportAbiVersion, hdr_header_bytes = 128,
            hdr_region_bytes = rr_bytes r, hdr_max_axes = of_nat MaxAxes, hdr_axis_count = of_nat axis_count,
            hdr_transport_depth = of_nat (rr_depth r), hdr_setpoint_frame_bytes = 656,
            hdr_feedback_frame_bytes = 336, hdr_status_bytes = 72, hdr_reserved0 = 0, hdr_reserved1 = 0,
            hdr_generation = generation, hdr_period_ns = period_ns,
            hdr_state = transport_state_value XS_priming,
            hdr_last_error = transport_error_value TE_none, hdr_executor_heartbeat = 0,
            hdr_bus_heartbeat = 0, hdr_phase_tick = 0 \<rparr>,
          rr_setpoints := ring_initialize 82 (rr_depth r),
          rr_feedback := ring_initialize 42 (rr_depth r),
          rr_status := db_initialize 9 \<rparr>, True))"

definition attach_status :: "ServoIpcRegion \<Rightarrow> AttachStatus" where
  "attach_status r =
     (let h = rr_header r; raw = hdr_state h
      in if raw = transport_state_value XS_uninitialized \<or> raw = transport_state_value XS_initializing
         then At_not_initialized
         else if raw > transport_state_value XS_faulted then At_layout_mismatch
         else if hdr_magic h \<noteq> TransportMagic then At_invalid_magic
         else if hdr_abi_version h \<noteq> TransportAbiVersion then At_version_mismatch
         else if hdr_header_bytes h \<noteq> 128 \<or> hdr_region_bytes h \<noteq> rr_bytes r \<or>
           hdr_max_axes h \<noteq> of_nat MaxAxes \<or> hdr_transport_depth h \<noteq> of_nat (rr_depth r) \<or>
           hdr_setpoint_frame_bytes h \<noteq> 656 \<or> hdr_feedback_frame_bytes h \<noteq> 336 \<or>
           hdr_status_bytes h \<noteq> 72 \<or> hdr_period_ns h = 0 \<or> hdr_generation h = 0
         then At_layout_mismatch
         else if hdr_axis_count h = 0 \<or> unat (hdr_axis_count h) > MaxAxes then At_invalid_axis_count
         else At_ok)"

definition transition :: "ServoIpcRegion \<Rightarrow> TransportState \<Rightarrow> TransportState \<Rightarrow> ServoIpcRegion \<times> bool" where
  "transition r expected desired =
     (if (expected, desired) \<in> {(XS_priming, XS_running), (XS_running, XS_draining), (XS_draining, XS_stopped)}
      then (if hdr_state (rr_header r) = transport_state_value expected
            then (r\<lparr> rr_header := (rr_header r)\<lparr> hdr_state := transport_state_value desired \<rparr> \<rparr>, True)
            else (r, False))
      else (r, False))"

definition set_error :: "ServoIpcRegion \<Rightarrow> TransportError \<Rightarrow> ServoIpcRegion" where
  "set_error r e =
     r\<lparr> rr_header := (rr_header r)\<lparr> hdr_last_error := transport_error_value e,
          hdr_state := transport_state_value XS_faulted \<rparr> \<rparr>"

end
