(* ===== verification/TransportProps.thy ===== *)
theory TransportProps
  imports IpcTransport
begin

unbundle bit_operations_syntax

text \<open>
  The locale \<open>wire_format\<close> states what makes a record type travel: the wire form of an accepted value
  is accepted and gives the value back, as a record and as words. The lemmas about whole frames and
  about the ring as a channel of batches are proved in it once; setpoints and feedback interpret it.
\<close>

section \<open>Words\<close>

lemma lo_pair [simp]: "lo_word (pair_word a b) = a"
  by (rule bit_word_eqI) (auto simp: lo_word_def pair_word_def bit_simps)

lemma hi_pair [simp]: "hi_word (pair_word a b) = b"
  by (rule bit_word_eqI) (auto simp: hi_word_def pair_word_def bit_simps dest: bit_imp_le_length)

lemma seg_concat:
  assumes "\<forall>x \<in> set xs. length (f x) = k" "i < length xs"
  shows "seg (concat (map f xs)) (i * k) k = f (xs ! i)"
  using assms
proof (induction xs arbitrary: i)
  case (Cons x xs)
  show ?case
  proof (cases i)
    case 0
    with Cons show ?thesis by (simp add: seg_def)
  next
    case (Suc j)
    with Cons.prems have "seg (concat (map f (x # xs))) (i * k) k = seg (concat (map f xs)) (j * k) k"
      by (simp add: seg_def)
    with Cons Suc show ?thesis by simp
  qed
qed simp

lemma frame_of_frame_words:
  assumes "\<forall>w \<in> set (fr_axes f). length (words w) = k \<and> unwords (words w) = w" "length (fr_axes f) = MaxAxes"
  shows "frame_of_words k unwords (frame_words words f) = f"
proof -
  have "seg (frame_words words f) (2 + i * k) k = words (fr_axes f ! i)" if "i < MaxAxes" for i
    using seg_concat [of "fr_axes f" words k i] assms that by (simp add: frame_words_def seg_def)
  then have "map (\<lambda>i. unwords (seg (frame_words words f) (2 + i * k) k)) [0..<MaxAxes] =
      map (\<lambda>i. fr_axes f ! i) [0..<MaxAxes]" using assms by (intro map_cong) simp_all
  also have "\<dots> = fr_axes f" using assms(2) map_nth [of "fr_axes f"] by simp
  finally show ?thesis by (simp add: frame_of_words_def) (simp add: frame_words_def)
qed

lemma length_frame_words:
  assumes "\<forall>w \<in> set (fr_axes f). length (words w) = k" "length (fr_axes f) = MaxAxes"
  shows "length (frame_words words f) = 2 + MaxAxes * k"
proof -
  have "map (length \<circ> words) (fr_axes f) = replicate MaxAxes k"
    using assms by (intro replicate_eqI) auto
  then show ?thesis by (simp add: frame_words_def length_concat o_def sum_list_replicate)
qed


section \<open>Batches\<close>

type_synonym 'v batch = "u64 \<times> 'v list"

text \<open>A sender encodes a batch and pushes the words of the frame; a receiver pops words and decodes them
  into an array of as many axes as the frame has.\<close>

definition send_batch ::
  "(u64 \<Rightarrow> 'v list option \<Rightarrow> nat \<Rightarrow> 'w Frame \<Rightarrow> bool \<times> 'w Frame) \<Rightarrow> ('w \<Rightarrow> u64 list) \<Rightarrow> 'w \<Rightarrow>
   IpcSpscRing \<Rightarrow> 'v batch \<Rightarrow> IpcSpscRing \<times> bool"
where
  "send_batch encoder words wire0 r b =
     (case encoder (fst b) (Some (snd b)) (length (snd b)) (empty_frame wire0) of
        (ok, f) \<Rightarrow> if ok then owned_push r (frame_words words f) else (r, False))"

definition decode_words ::
  "('w Frame \<Rightarrow> 'v list option \<Rightarrow> nat \<Rightarrow> u64 \<Rightarrow> bool \<times> 'v list option \<times> u64) \<Rightarrow> nat \<Rightarrow> (u64 list \<Rightarrow> 'w) \<Rightarrow> 'v \<Rightarrow>
   u64 list \<Rightarrow> 'v batch option"
where
  "decode_words decoder k unwords v0 ws =
     (let f = frame_of_words k unwords ws; n = unat (fr_axis_count f)
      in case decoder f (Some (replicate n v0)) n 0 of (True, Some vs, t) \<Rightarrow> Some (t, vs) | _ \<Rightarrow> None)"

definition receive_batch ::
  "('w Frame \<Rightarrow> 'v list option \<Rightarrow> nat \<Rightarrow> u64 \<Rightarrow> bool \<times> 'v list option \<times> u64) \<Rightarrow> nat \<Rightarrow> (u64 list \<Rightarrow> 'w) \<Rightarrow> 'v \<Rightarrow>
   IpcSpscRing \<Rightarrow> IpcSpscRing \<times> 'v batch option"
where
  "receive_batch decoder k unwords v0 r =
     (let (r', ws) = owned_pop r in (r', Option.bind ws (decode_words decoder k unwords v0)))"

locale wire_format =
  fixes source_ok :: "'v \<Rightarrow> bool" and wire_ok :: "'w \<Rightarrow> bool" and enc :: "'v \<Rightarrow> 'w" and dec :: "'w \<Rightarrow> 'v"
    and wire0 :: 'w and words :: "'w \<Rightarrow> u64 list" and unwords :: "u64 list \<Rightarrow> 'w" and k :: nat
    and v0 :: 'v and shaped :: "'v \<Rightarrow> bool"
  assumes enc_ok: "shaped v \<Longrightarrow> source_ok v \<Longrightarrow> wire_ok (enc v) \<and> dec (enc v) = v"
    and words_back: "length (words w) = k \<and> unwords (words w) = w"
begin

definition axes_of :: "'v list \<Rightarrow> 'w list" where
  "axes_of vs = map enc vs @ replicate (MaxAxes - length vs) wire0"

definition frame_of :: "'v batch \<Rightarrow> 'w Frame" where
  "frame_of b = \<lparr> fr_tick = fst b, fr_axis_count = of_nat (length (snd b)), fr_reserved = 0,
     fr_axes = axes_of (snd b) \<rparr>"

definition batch_ok :: "'v batch \<Rightarrow> bool" where
  "batch_ok b \<longleftrightarrow> snd b \<noteq> [] \<and> length (snd b) \<le> MaxAxes \<and> list_all (\<lambda>v. shaped v \<and> source_ok v) (snd b)"

lemma encode_axes_all:
  assumes "list_all (\<lambda>v. shaped v \<and> source_ok v) vs" "i + length vs \<le> length (fr_axes f)"
  shows "encode_axes source_ok wire_ok enc vs i f = (True, f\<lparr> fr_axes := blit i (map enc vs) (fr_axes f) \<rparr>)"
  using assms
proof (induction vs arbitrary: i f)
  case (Cons v vs)
  have "blit (i + 1) (map enc vs) ((fr_axes f)[i := enc v]) = blit i (map enc (v # vs)) (fr_axes f)"
    using Cons.prems by (simp add: blit_def take_Suc_conv_app_nth)
  with Cons enc_ok [of v] show ?case by (simp add: Let_def)
qed simp

lemma encode_axes_refuses:
  assumes "list_all shaped vs" "encode_axes source_ok wire_ok enc vs i f = (True, f')"
  shows "list_all source_ok vs"
  using assms by (induction vs arbitrary: i f) (auto simp: Let_def split: if_splits)

lemma encode_ok:
  assumes "batch_ok b"
  shows "encode_frame source_ok wire_ok enc wire0 (fst b) (Some (snd b)) (length (snd b)) f = (True, frame_of b)"
  using assms
  by (simp add: encode_frame_def batch_ok_def encode_axes_all empty_frame_def frame_of_def axes_of_def blit_def)

lemma encode_ok_iff:
  assumes "list_all shaped (snd b)"
  shows "fst (encode_frame source_ok wire_ok enc wire0 (fst b) (Some (snd b)) (length (snd b)) f) \<longleftrightarrow> batch_ok b"
proof
  assume e: "fst (encode_frame source_ok wire_ok enc wire0 (fst b) (Some (snd b)) (length (snd b)) f)"
  then have n: "snd b \<noteq> []" "length (snd b) \<le> MaxAxes" by (auto simp: encode_frame_def split: if_splits)
  with e have "fst (encode_axes source_ok wire_ok enc (snd b) 0
      ((empty_frame wire0)\<lparr> fr_tick := fst b, fr_axis_count := of_nat (length (snd b)) \<rparr>))"
    by (simp add: encode_frame_def)
  with encode_axes_refuses [OF assms] have "list_all source_ok (snd b)" by (metis prod.collapse)
  with n assms show "batch_ok b" by (auto simp: batch_ok_def list_all_iff)
qed (simp add: encode_ok)

lemma decode_frame_of:
  assumes "batch_ok b" "length old = length (snd b)"
  shows "decode_frame wire_ok dec (frame_of b) (Some old) (length (snd b)) t = (True, Some (snd b), fst b)"
proof -
  have u: "unat (of_nat (length (snd b)) :: u32) = length (snd b)"
    using assms by (simp add: batch_ok_def unat_of_nat_small)
  have z: "(of_nat (length (snd b)) :: u32) \<noteq> 0"
    using u assms by (auto simp: batch_ok_def)
  have w: "take (length (snd b)) (axes_of (snd b)) = map enc (snd b)" by (simp add: axes_of_def)
  have l: "list_all wire_ok (map enc (snd b))" "map dec (map enc (snd b)) = snd b"
    using assms(1) enc_ok by (auto simp: batch_ok_def list_all_iff intro: map_idI)
  show ?thesis
    using assms(1,2) u z l by (simp add: decode_frame_def frame_refused_def frame_of_def w blit_def batch_ok_def)
qed

abbreviation "encoder \<equiv> encode_frame source_ok wire_ok enc wire0"
abbreviation "decoder \<equiv> decode_frame wire_ok dec"

definition in_flight :: "IpcSpscRing \<Rightarrow> 'v batch list" where
  "in_flight r = map (the \<circ> decode_words decoder k unwords v0) (ipc_ring_contents r)"

definition carries :: "IpcSpscRing \<Rightarrow> bool" where
  "carries r \<longleftrightarrow> ipc_ring_owned (2 + MaxAxes * k) r \<and>
     (\<forall>ws \<in> set (ipc_ring_contents r). \<exists>b. batch_ok b \<and> ws = frame_words words (frame_of b))"

lemma frame_of_axes: "batch_ok b \<Longrightarrow> length (fr_axes (frame_of b)) = MaxAxes"
  by (simp add: frame_of_def axes_of_def batch_ok_def)

lemma words_of_batch:
  assumes "batch_ok b"
  shows "length (frame_words words (frame_of b)) = 2 + MaxAxes * k"
    and "frame_of_words k unwords (frame_words words (frame_of b)) = frame_of b"
    and "decode_words decoder k unwords v0 (frame_words words (frame_of b)) = Some b"
proof -
  show "length (frame_words words (frame_of b)) = 2 + MaxAxes * k"
    using words_back frame_of_axes [OF assms] by (intro length_frame_words) auto
  show f: "frame_of_words k unwords (frame_words words (frame_of b)) = frame_of b"
    using words_back frame_of_axes [OF assms] by (intro frame_of_frame_words) auto
  have "unat (fr_axis_count (frame_of b)) = length (snd b)"
    using assms by (simp add: frame_of_def batch_ok_def unat_of_nat_small)
  with decode_frame_of [OF assms] show "decode_words decoder k unwords v0 (frame_words words (frame_of b)) = Some b"
    by (simp add: decode_words_def f Let_def)
qed

lemma send_ok: "batch_ok b \<Longrightarrow> send_batch encoder words wire0 r b = owned_push r (frame_words words (frame_of b))"
  by (simp add: send_batch_def encode_ok)

lemma channel: "bounded_fifo (send_batch encoder words wire0) (receive_batch decoder k unwords v0) in_flight carries (\<lambda>_. batch_ok) ipc_ring_capacity"
proof unfold_locales
  fix r b assume r: "carries r" and b: "batch_ok b"
  note o = r [unfolded carries_def, THEN conjunct1] and w = words_of_batch [OF b]
  show "length (in_flight r) < ipc_ring_capacity r \<Longrightarrow>
      send_batch encoder words wire0 r b = (fst (send_batch encoder words wire0 r b), True) \<and> in_flight (fst (send_batch encoder words wire0 r b)) = in_flight r @ [b]"
    using ipc_ring.push_room [OF o w(1)] w(3) by (auto simp: send_ok [OF b] in_flight_def)
  show "ipc_ring_capacity (fst (send_batch encoder words wire0 r b)) = ipc_ring_capacity r \<and> batch_ok = batch_ok"
    using ipc_ring.push_frame [OF o w(1)] by (simp add: send_ok [OF b])
  have "set (ipc_ring_contents (fst (owned_push r (frame_words words (frame_of b))))) \<subseteq>
      insert (frame_words words (frame_of b)) (set (ipc_ring_contents r))"
  proof (cases "length (ipc_ring_contents r) < ipc_ring_capacity r")
    case True
    then show ?thesis using ipc_ring.push_room [OF o w(1)] by simp
  next
    case False
    with ipc_ring.bound [OF o] show ?thesis using ipc_ring.push_full [OF o] by auto
  qed
  then show "carries (fst (send_batch encoder words wire0 r b))"
    using ipc_ring.push_wf [OF o w(1)] r b unfolding send_ok [OF b] carries_def by blast
next
  fix r b assume r: "carries r" and full: "length (in_flight r) = ipc_ring_capacity r"
  then show "send_batch encoder words wire0 r b = (r, False)"
    using ipc_ring.push_full [of "2 + MaxAxes * k" r] by (auto simp: send_batch_def carries_def in_flight_def split: prod.split)
next
  fix r assume r: "carries r" and e: "in_flight r = []"
  then show "receive_batch decoder k unwords v0 r = (r, None)"
    using ipc_ring.pop_empty [of "2 + MaxAxes * k" r] by (simp add: receive_batch_def carries_def in_flight_def)
next
  fix r b bs assume r: "carries r" and c: "in_flight r = b # bs"
  then obtain ws wss where ws: "ipc_ring_contents r = ws # wss" "b = the (decode_words decoder k unwords v0 ws)"
    "bs = map (the \<circ> decode_words decoder k unwords v0) wss" by (auto simp: in_flight_def)
  with r obtain b' where b': "batch_ok b'" "ws = frame_words words (frame_of b')" by (auto simp: carries_def)
  with ws words_of_batch(3) have "decode_words decoder k unwords v0 ws = Some b" by simp
  then show "receive_batch decoder k unwords v0 r = (fst (receive_batch decoder k unwords v0 r), Some b) \<and> in_flight (fst (receive_batch decoder k unwords v0 r)) = bs"
    using ipc_ring.pop_some [of "2 + MaxAxes * k" r, OF _ ws(1)] r ws(3)
    by (auto simp: receive_batch_def carries_def in_flight_def split: prod.split)
next
  fix r assume r: "carries r"
  note o = r [unfolded carries_def, THEN conjunct1]
  have "set (ipc_ring_contents (fst (owned_pop r))) \<subseteq> set (ipc_ring_contents r)"
    using ipc_ring.pop_empty [OF o] ipc_ring.pop_some [OF o] by (cases "ipc_ring_contents r") auto
  then show "carries (fst (receive_batch decoder k unwords v0 r))"
    using ipc_ring.pop_wf [OF o] r by (auto simp: receive_batch_def carries_def split: prod.split)
  show "ipc_ring_capacity (fst (receive_batch decoder k unwords v0 r)) = ipc_ring_capacity r \<and> batch_ok = batch_ok"
    using ipc_ring.pop_frame [OF o] by (simp add: receive_batch_def split_beta)
  show "length (in_flight r) \<le> ipc_ring_capacity r"
    using ipc_ring.bound [OF o] by (simp add: in_flight_def)
qed

end


section \<open>Setpoints and feedback travel\<close>

interpretation setpoint_wire: wire_format
    "\<lambda>v. valid_direction (sp_torque_direction v) \<and> valid_setpoint_source v" valid_setpoint_wire
    encode_setpoint decode_setpoint empty_setpoint_wire setpoint_words setpoint_of_words 10 empty_setpoints
    "\<lambda>_. True"
proof unfold_locales
  fix v :: ServoSetpoints assume "valid_direction (sp_torque_direction v) \<and> valid_setpoint_source v"
  then show "valid_setpoint_wire (encode_setpoint v) \<and> decode_setpoint (encode_setpoint v) = v"
    by (cases v; cases "sp_torque_direction v")
      (auto simp: valid_setpoint_wire_def encode_setpoint_def decode_setpoint_def valid_setpoint_source_def)
qed (simp add: setpoint_words_def setpoint_of_words_def)

lemma input_bits: "length bs = 4 \<Longrightarrow> \<exists>a b c d. bs = [a, b, c, d]"
  by (auto simp: numeral_eq_Suc length_Suc_conv)

lemma bit_bits_from: "bit (fold (\<lambda>(b, m) w. if b then w OR m else w) bs w0) n \<longleftrightarrow>
    bit w0 n \<or> (\<exists>p \<in> set bs. fst p \<and> bit (snd p) n)"
proof (induction bs arbitrary: w0)
  case (Cons p bs)
  show ?case by (cases p) (simp add: Cons bit_or_iff)
qed simp

lemma bit_bits_of: "bit (bits_of bs) n \<longleftrightarrow> (\<exists>p \<in> set bs. fst p \<and> bit (snd p) n)"
  by (simp add: bits_of_def bit_bits_from)

lemma masked_bit: "(w :: u32) AND 1 \<noteq> 0 \<longleftrightarrow> bit w 0" "w AND 2 \<noteq> 0 \<longleftrightarrow> bit w 1" "w AND 4 \<noteq> 0 \<longleftrightarrow> bit w 2"
  "w AND 8 \<noteq> 0 \<longleftrightarrow> bit w 3" "w AND 16 \<noteq> 0 \<longleftrightarrow> bit w 4" "w AND 32 \<noteq> 0 \<longleftrightarrow> bit w 5"
  using and_exp_eq_0_iff_not_bit [of w 0] and_exp_eq_0_iff_not_bit [of w 1] and_exp_eq_0_iff_not_bit [of w 2]
    and_exp_eq_0_iff_not_bit [of w 3] and_exp_eq_0_iff_not_bit [of w 4] and_exp_eq_0_iff_not_bit [of w 5]
  by simp_all

lemma bit_two_power: "m < 32 \<Longrightarrow> bit ((2 :: u32) ^ m) n \<longleftrightarrow> n = m"
  by (auto simp: bit_exp_iff)

lemma bit_masks: "bit (1 :: u32) n \<longleftrightarrow> n = 0" "bit (2 :: u32) n \<longleftrightarrow> n = 1" "bit (4 :: u32) n \<longleftrightarrow> n = 2"
  "bit (8 :: u32) n \<longleftrightarrow> n = 3" "bit (16 :: u32) n \<longleftrightarrow> n = 4" "bit (32 :: u32) n \<longleftrightarrow> n = 5"
  using bit_two_power [of 0 n] bit_two_power [of 1 n] bit_two_power [of 2 n] bit_two_power [of 3 n]
    bit_two_power [of 4 n] bit_two_power [of 5 n] by simp_all

lemma first_four: "[0..<4] = [0, 1, 2, 3]" by code_simp

lemma wire_inputs: "fw_digital_inputs (encode_feedback_value v) =
    bits_of [(sf_digital_inputs v ! 0, 1), (sf_digital_inputs v ! 1, 2), (sf_digital_inputs v ! 2, 4), (sf_digital_inputs v ! 3, 8)]"
  by (simp add: encode_feedback_value_def first_four)

lemma wire_info: "fw_axis_info (encode_feedback_value v) =
    bits_of [(ai_communication_ready (sf_info v), 1), (ai_ready_for_power_on (sf_info v), 2),
      (ai_home_abs_switch (sf_info v), 4), (ai_limit_switch_pos (sf_info v), 8),
      (ai_limit_switch_neg (sf_info v), 16), (ai_warning (sf_info v), 32)]"
  by (simp add: encode_feedback_value_def Let_def)

lemmas info_bits = masked_bit bit_bits_of bit_masks

lemma feedback_back:
  assumes "length (sf_digital_inputs v) = DigitalInputCount"
  shows "decode_feedback_value (encode_feedback_value v) = v"
proof -
  obtain a b c d where i: "sf_digital_inputs v = [a, b, c, d]" using input_bits [OF assms] by blast
  then show ?thesis
    by (cases v; cases "sf_info v")
      (auto simp: decode_feedback_value_def wire_inputs first_four info_bits, auto simp: encode_feedback_value_def info_bits)
qed

lemma feedback_masks:
  "fw_digital_inputs (encode_feedback_value v) AND NOT DigitalInputMask = 0"
  "fw_axis_info (encode_feedback_value v) AND NOT AxisInfoMask = 0"
proof -
  have d: "DigitalInputMask = mask 4" "AxisInfoMask = mask 6"
    by (simp_all add: DigitalInputMask_def AxisInfoMask_def mask_eq_exp_minus_1)
  have "bit (fw_digital_inputs (encode_feedback_value v)) n \<Longrightarrow> n < 4" for n
    unfolding wire_inputs bit_bits_of by (auto simp only: list.set insert_iff bex_simps bit_masks fst_conv snd_conv)
  then show "fw_digital_inputs (encode_feedback_value v) AND NOT DigitalInputMask = 0"
    by (intro bit_word_eqI) (auto simp: d bit_and_iff bit_not_iff bit_mask_iff)
  have "bit (fw_axis_info (encode_feedback_value v)) n \<Longrightarrow> n < 6" for n
    unfolding wire_info bit_bits_of by (auto simp only: list.set insert_iff bex_simps bit_masks fst_conv snd_conv)
  then show "fw_axis_info (encode_feedback_value v) AND NOT AxisInfoMask = 0"
    by (intro bit_word_eqI) (auto simp: d bit_and_iff bit_not_iff bit_mask_iff)
qed

interpretation feedback_wire: wire_format valid_feedback_source valid_feedback_wire
    encode_feedback_value decode_feedback_value empty_feedback_wire feedback_words feedback_of_words 5 empty_feedback
    "\<lambda>v. length (sf_digital_inputs v) = DigitalInputCount"
proof unfold_locales
  fix v :: ServoFeedback assume "length (sf_digital_inputs v) = DigitalInputCount" "valid_feedback_source v"
  then show "valid_feedback_wire (encode_feedback_value v) \<and> decode_feedback_value (encode_feedback_value v) = v"
    using feedback_back [of v] feedback_masks [of v]
    by (simp add: valid_feedback_wire_def valid_feedback_source_def) (simp add: encode_feedback_value_def)
qed (simp add: feedback_words_def feedback_of_words_def)

text \<open>The rings of a region that has just been initialised and claimed carry nothing.\<close>

definition claimed_ring :: "IpcSpscRing \<Rightarrow> u64 \<Rightarrow> u64 \<Rightarrow> IpcSpscRing" where
  "claimed_ring ring writer reader = fst (ring_claim_reader (fst (ring_claim_writer ring writer)) reader)"

lemma claimed_ring_owned:
  assumes "0 < depth" "writer \<noteq> 0" "reader \<noteq> 0"
  shows "ipc_ring_owned n (claimed_ring (ring_initialize n depth) writer reader)"
    and "ipc_ring_contents (claimed_ring (ring_initialize n depth) writer reader) = []"
    and "ipc_ring_capacity (claimed_ring (ring_initialize n depth) writer reader) = depth"
  using assms ring_initialize_wf [OF assms(1), of n]
  by (simp_all add: claimed_ring_def ring_claim_reader_def ring_claim_writer_def claim_owner_def
      ring_initialize_def ipc_ring_owned_def ipc_ring_wf_def ipc_ring_contents_def ipc_ring_capacity_def
      ring_contents_def ring_count_def)

lemma initialize_rings:
  assumes "region_initialize r axes period generation = (r', True)"
  shows "rr_setpoints r' = ring_initialize 82 (rr_depth r)" "rr_feedback r' = ring_initialize 42 (rr_depth r)"
  using assms by (auto simp: region_initialize_def split: if_splits)

lemma setpoints_travel:
  assumes "0 < depth" "writer \<noteq> 0" "reader \<noteq> 0" "\<And>b. Push b \<in> set rs \<Longrightarrow> setpoint_wire.batch_ok b"
  shows "snd (fifo_run (send_batch encode_setpoints setpoint_words empty_setpoint_wire)
      (receive_batch decode_setpoints 10 setpoint_of_words empty_setpoints) rs
      (claimed_ring (ring_initialize 82 depth) writer reader)) =
    snd (fifo_run (list_push depth) list_pop rs [])"
proof -
  let ?r = "claimed_ring (ring_initialize 82 depth) writer reader"
  have c: "setpoint_wire.carries ?r" "setpoint_wire.in_flight ?r = []" "ipc_ring_capacity ?r = depth"
    using claimed_ring_owned [OF assms(1-3), of 82]
    by (simp_all add: setpoint_wire.carries_def setpoint_wire.in_flight_def)
  from bounded_fifo.run_refines [OF setpoint_wire.channel c(1), of rs] assms(4) c show ?thesis
    by (simp add: encode_setpoints_def decode_setpoints_def)
qed

lemma feedback_travels:
  assumes "0 < depth" "writer \<noteq> 0" "reader \<noteq> 0" "\<And>b. Push b \<in> set rs \<Longrightarrow> feedback_wire.batch_ok b"
  shows "snd (fifo_run (send_batch encode_feedback feedback_words empty_feedback_wire)
      (receive_batch decode_feedback 5 feedback_of_words empty_feedback) rs
      (claimed_ring (ring_initialize 42 depth) writer reader)) =
    snd (fifo_run (list_push depth) list_pop rs [])"
proof -
  let ?r = "claimed_ring (ring_initialize 42 depth) writer reader"
  have c: "feedback_wire.carries ?r" "feedback_wire.in_flight ?r = []" "ipc_ring_capacity ?r = depth"
    using claimed_ring_owned [OF assms(1-3), of 42]
    by (simp_all add: feedback_wire.carries_def feedback_wire.in_flight_def)
  from bounded_fifo.run_refines [OF feedback_wire.channel c(1), of rs] assms(4) c show ?thesis
    by (simp add: encode_feedback_def decode_feedback_def)
qed


text \<open>Batches the encoders accept, and both directions of an initialised region.\<close>

definition setpoint_batch :: "ServoSetpoints batch \<Rightarrow> bool" where
  "setpoint_batch b \<longleftrightarrow> snd b \<noteq> [] \<and> length (snd b) \<le> MaxAxes \<and>
     list_all (\<lambda>v. valid_direction (sp_torque_direction v) \<and> valid_setpoint_source v) (snd b)"

definition feedback_batch :: "ServoFeedback batch \<Rightarrow> bool" where
  "feedback_batch b \<longleftrightarrow> snd b \<noteq> [] \<and> length (snd b) \<le> MaxAxes \<and>
     list_all (\<lambda>v. length (sf_digital_inputs v) = DigitalInputCount \<and> valid_feedback_source v) (snd b)"

definition pushes :: "('a \<Rightarrow> bool) \<Rightarrow> 'a fifo_request list \<Rightarrow> bool" where
  "pushes ok rs \<longleftrightarrow> list_all (\<lambda>r. case r of Push b \<Rightarrow> ok b | Pop \<Rightarrow> True) rs"

lemma pushes_each: "pushes ok rs \<Longrightarrow> Push b \<in> set rs \<Longrightarrow> ok b"
  by (auto simp: pushes_def list_all_iff)

lemma setpoint_batch_ok: "setpoint_batch b \<Longrightarrow> setpoint_wire.batch_ok b"
  by (simp add: setpoint_batch_def setpoint_wire.batch_ok_def)

lemma feedback_batch_ok: "feedback_batch b \<Longrightarrow> feedback_wire.batch_ok b"
  by (simp add: feedback_batch_def feedback_wire.batch_ok_def)

abbreviation "send_setpoints \<equiv> send_batch encode_setpoints setpoint_words empty_setpoint_wire"
abbreviation "receive_setpoints \<equiv> receive_batch decode_setpoints 10 setpoint_of_words empty_setpoints"
abbreviation "send_feedback \<equiv> send_batch encode_feedback feedback_words empty_feedback_wire"
abbreviation "receive_feedback \<equiv> receive_batch decode_feedback 5 feedback_of_words empty_feedback"

lemma region_travels:
  assumes "region_initialize r axes period generation = (r', True)" "0 < rr_depth r" "writer \<noteq> 0" "reader \<noteq> 0"
    and "pushes setpoint_batch ss" "pushes feedback_batch fs"
  shows "snd (fifo_run send_setpoints receive_setpoints ss (claimed_ring (rr_setpoints r') writer reader)) =
      snd (fifo_run (list_push (rr_depth r)) list_pop ss []) \<and>
    snd (fifo_run send_feedback receive_feedback fs (claimed_ring (rr_feedback r') writer reader)) =
      snd (fifo_run (list_push (rr_depth r)) list_pop fs [])"
  unfolding initialize_rings [OF assms(1)]
  by (intro conjI setpoints_travel feedback_travels assms setpoint_batch_ok feedback_batch_ok
      pushes_each [OF assms(5)] pushes_each [OF assms(6)])


section \<open>The life of a region\<close>

datatype region_event = Transition TransportState TransportState | Report_error TransportError

primrec region_run :: "region_event list \<Rightarrow> ServoIpcRegion \<Rightarrow> ServoIpcRegion \<times> (TransportState \<times> TransportState) list" where
  "region_run [] r = (r, [])"
| "region_run (e # es) r = (case e of
     Transition a b \<Rightarrow> (let (r1, ok) = transition r a b; (r2, acc) = region_run es r1
       in (r2, if ok then (a, b) # acc else acc))
   | Report_error x \<Rightarrow> region_run es (set_error r x))"

definition error_free :: "region_event list \<Rightarrow> bool" where
  "error_free es \<longleftrightarrow> list_all (\<lambda>e. case e of Report_error _ \<Rightarrow> False | _ \<Rightarrow> True) es"

text \<open>What is left of the life of a region in a state.\<close>

fun life_from :: "TransportState \<Rightarrow> (TransportState \<times> TransportState) list" where
  "life_from XS_priming = [(XS_priming, XS_running), (XS_running, XS_draining), (XS_draining, XS_stopped)]"
| "life_from XS_running = [(XS_running, XS_draining), (XS_draining, XS_stopped)]"
| "life_from XS_draining = [(XS_draining, XS_stopped)]"
| "life_from _ = []"

definition header_ok :: "ServoIpcRegion \<Rightarrow> bool" where
  "header_ok r \<longleftrightarrow> (let h = rr_header r in
     hdr_magic h = TransportMagic \<and> hdr_abi_version h = TransportAbiVersion \<and> hdr_header_bytes h = 128 \<and>
     hdr_region_bytes h = rr_bytes r \<and> hdr_max_axes h = of_nat MaxAxes \<and>
     hdr_transport_depth h = of_nat (rr_depth r) \<and> hdr_setpoint_frame_bytes h = 656 \<and>
     hdr_feedback_frame_bytes h = 336 \<and> hdr_status_bytes h = 72 \<and> hdr_period_ns h \<noteq> 0 \<and>
     hdr_generation h \<noteq> 0 \<and> hdr_axis_count h \<noteq> 0 \<and> unat (hdr_axis_count h) \<le> MaxAxes)"

definition region_in :: "TransportState \<Rightarrow> ServoIpcRegion \<Rightarrow> bool" where
  "region_in s r \<longleftrightarrow> s \<notin> {XS_uninitialized, XS_initializing} \<and>
     hdr_state (rr_header r) = transport_state_value s \<and> header_ok r"

lemma region_in_attach: "region_in s r \<Longrightarrow> attach_status r = At_ok"
proof -
  assume r: "region_in s r"
  then have "transport_state_value s \<notin> {0, 1}" "\<not> transport_state_value s > 6"
    by (cases s; simp add: region_in_def)+
  with r show ?thesis by (simp add: region_in_def header_ok_def attach_status_def Let_def)
qed

lemma header_ok_update [simp]:
  "header_ok (r\<lparr> rr_header := (rr_header r)\<lparr> hdr_state := v \<rparr> \<rparr>) = header_ok r"
  "header_ok (r\<lparr> rr_header := (rr_header r)\<lparr> hdr_last_error := e, hdr_state := v \<rparr> \<rparr>) = header_ok r"
  by (simp_all add: header_ok_def Let_def)

lemma region_in_update:
  assumes "region_in s r" "s' \<notin> {XS_uninitialized, XS_initializing}"
  shows "region_in s' (r\<lparr> rr_header := (rr_header r)\<lparr> hdr_state := transport_state_value s' \<rparr> \<rparr>)"
    and "region_in s' (r\<lparr> rr_header := (rr_header r)\<lparr> hdr_last_error := e, hdr_state := transport_state_value s' \<rparr> \<rparr>)"
  using assms by (simp_all add: region_in_def)

lemma initialize_in: "region_initialize r axes period generation = (r', True) \<Longrightarrow> region_in XS_priming r'"
proof -
  assume a: "region_initialize r axes period generation = (r', True)"
  then have n: "axes \<noteq> 0" "axes \<le> MaxAxes" by (auto simp: region_initialize_def split: if_splits)
  then have "unat (of_nat axes :: u32) = axes" by (simp add: unat_of_nat_small)
  moreover from this n have "(of_nat axes :: u32) \<noteq> 0" by auto
  ultimately show ?thesis
    using a n by (auto simp: region_initialize_def region_in_def header_ok_def Let_def split: if_splits)
qed

lemma transition_in:
  assumes "region_in s r"
  shows "transition r a b = (if (a, b) \<in> set (life_from XS_priming) \<and> a = s
    then (r\<lparr> rr_header := (rr_header r)\<lparr> hdr_state := transport_state_value b \<rparr> \<rparr>, True) else (r, False))"
  using assms by (cases s) (auto simp: transition_def region_in_def)

lemma region_run_in:
  assumes "region_in s r"
  shows "\<exists>s'. region_in s' (fst (region_run es r)) \<and> prefix (snd (region_run es r)) (life_from s) \<and>
    (if error_free es then s' = last (s # map snd (snd (region_run es r))) else s' = XS_faulted)"
  using assms
proof (induction es arbitrary: s r)
  case Nil
  then show ?case by (auto simp: error_free_def)
next
  case (Cons e es)
  show ?case
  proof (cases e)
    case (Report_error x)
    have "region_in XS_faulted (set_error r x)"
      using region_in_update(2) [OF Cons.prems, of XS_faulted] by (simp add: set_error_def)
    from Cons.IH [OF this] have p: "snd (region_run es (set_error r x)) = []"
      and "\<exists>s'. region_in s' (fst (region_run es (set_error r x))) \<and> s' = XS_faulted"
      by (auto split: if_splits)
    with Report_error show ?thesis by (auto simp: error_free_def)
  next
    case (Transition a b)
    show ?thesis
    proof (cases "(a, b) \<in> set (life_from XS_priming) \<and> a = s")
      case True
      then have ab: "life_from a = (a, b) # life_from b" "b \<notin> {XS_uninitialized, XS_initializing}" by auto
      let ?r = "r\<lparr> rr_header := (rr_header r)\<lparr> hdr_state := transport_state_value b \<rparr> \<rparr>"
      obtain r2 acc where run: "region_run es ?r = (r2, acc)" by fastforce
      from Cons.IH [OF region_in_update(1) [OF Cons.prems ab(2)]] obtain s' where
        s': "region_in s' r2" "prefix acc (life_from b)"
          "if error_free es then s' = last (b # map snd acc) else s' = XS_faulted" unfolding run by auto
      have "transition r a b = (?r, True)" unfolding transition_in [OF Cons.prems] using True by argo
      then have "region_run (e # es) r = (r2, (a, b) # acc)" by (simp add: Transition run)
      with s' True ab(1) show ?thesis by (intro exI [of _ s']) (auto simp: error_free_def Transition)
    next
      case False
      with transition_in [OF Cons.prems, of a b] have "transition r a b = (r, False)" by argo
      then have same: "region_run (e # es) r = region_run es r" "error_free (e # es) = error_free es"
        by (simp_all add: Transition error_free_def split_beta)
      show ?thesis unfolding same by (rule Cons.IH [OF Cons.prems])
    qed
  qed
qed

text \<open>From an initialised region.\<close>

lemma prefix_state:
  assumes "prefix acc (life_from XS_priming)"
  shows "last (XS_priming # map snd acc) = [XS_priming, XS_running, XS_draining, XS_stopped] ! length acc"
proof -
  have "acc = take (length acc) (life_from XS_priming)" using assms by (metis append_eq_conv_conj prefix_def)
  moreover have "length acc \<le> 3" using assms prefix_length_le by fastforce
  then have "length acc = 0 \<or> length acc = 1 \<or> length acc = 2 \<or> length acc = 3" by linarith
  ultimately show ?thesis by (auto simp: numeral_eq_Suc)
qed

lemma region_life:
  assumes "region_initialize r axes period generation = (r', True)"
  shows "let (r'', accepted) = region_run es r'; life = [XS_priming, XS_running, XS_draining, XS_stopped] in
    attach_status r'' = At_ok \<and> prefix accepted (zip life (tl life)) \<and>
    hdr_state (rr_header r'') = transport_state_value (if error_free es then life ! length accepted else XS_faulted)"
proof -
  obtain r'' acc where run: "region_run es r' = (r'', acc)" by fastforce
  from region_run_in [OF initialize_in [OF assms], of es] obtain s where s: "region_in s r''" "prefix acc (life_from XS_priming)"
    "if error_free es then s = last (XS_priming # map snd acc) else s = XS_faulted" unfolding run by auto
  have "s = (if error_free es then [XS_priming, XS_running, XS_draining, XS_stopped] ! length acc else XS_faulted)"
    using s(3) prefix_state [OF s(2)] by (simp split: if_splits)
  with s(1,2) region_in_attach [OF s(1)] show ?thesis by (simp add: run region_in_def)
qed

end
