(* ===== verification/Feetech.thy ===== *)
theory Feetech
  imports Servo
begin

unbundle bit_operations_syntax

text \<open>
  The Feetech servo bus (\<open>core/adapters/feetech.h\<close>): packets and their checksum, the byte-wise parser,
  the bus master with its feedback and staleness, and the simulated slaves.
\<close>

section \<open>Packets\<close>

datatype FeetechInstruction = FI_ping | FI_read | FI_write | FI_sync_read | FI_sync_write

fun instruction_byte :: "FeetechInstruction \<Rightarrow> u8" where
  "instruction_byte FI_ping = 0x01"
| "instruction_byte FI_read = 0x02"
| "instruction_byte FI_write = 0x03"
| "instruction_byte FI_sync_read = 0x82"
| "instruction_byte FI_sync_write = 0x83"

abbreviation (input) "PacketCapacity \<equiv> 272 :: nat"

record FeetechPacket =
  pk_bytes :: bytes
  pk_size :: nat

record FeetechFrame =
  ff_id :: u8
  ff_error :: u8
  ff_parameters :: bytes
  ff_parameter_count :: nat
  ff_ready :: bool

definition empty_packet :: FeetechPacket where
  "empty_packet = \<lparr> pk_bytes = replicate PacketCapacity 0, pk_size = 0 \<rparr>"

definition new_frame :: FeetechFrame where
  "new_frame = \<lparr> ff_id = 0, ff_error = 0, ff_parameters = replicate 253 0, ff_parameter_count = 0,
     ff_ready = False \<rparr>"

definition feetech_checksum :: "bytes \<Rightarrow> nat \<Rightarrow> nat \<Rightarrow> u8" where
  "feetech_checksum bytes begin_at end_at =
     ucast (NOT (sum_list (map ucast (seg bytes begin_at (end_at - begin_at))) :: u32))"

text \<open>The body that both encoders have: the bytes of the packet, with the fifth byte given.\<close>

definition fill_packet :: "u8 \<Rightarrow> u8 \<Rightarrow> bytes option \<Rightarrow> nat \<Rightarrow> FeetechPacket \<times> ErrorCode" where
  "fill_packet ident fifth parameters count =
     (if ident = 0xFF \<or> count > 253 \<or> (count \<noteq> 0 \<and> parameters = None)
      then (empty_packet, EC_invalid_argument)
      else let size = count + 6;
          header = [0xFF, 0xFF, ident, of_nat (count + 2), fifth];
          bytes = blit 0 (header @ take count (case parameters of Some ps \<Rightarrow> ps | None \<Rightarrow> []))
            (pk_bytes empty_packet)
        in (\<lparr> pk_bytes = bytes[size - 1 := feetech_checksum bytes 2 (size - 1)], pk_size = size \<rparr>, EC_ok))"

definition encode_instruction ::
  "u8 \<Rightarrow> FeetechInstruction \<Rightarrow> bytes option \<Rightarrow> nat \<Rightarrow> FeetechPacket \<times> ErrorCode"
where
  "encode_instruction ident instruction parameters count =
     fill_packet ident (instruction_byte instruction) parameters count"

definition encode_status :: "u8 \<Rightarrow> u8 \<Rightarrow> bytes option \<Rightarrow> nat \<Rightarrow> FeetechPacket \<times> ErrorCode" where
  "encode_status ident error_byte parameters count = fill_packet ident error_byte parameters count"


section \<open>The parser\<close>

record FeetechParser =
  pr_buffer :: bytes
  pr_size :: nat
  pr_expected :: nat

definition new_parser :: FeetechParser where
  "new_parser = \<lparr> pr_buffer = replicate PacketCapacity 0, pr_size = 0, pr_expected = 0 \<rparr>"

definition put_byte :: "u8 \<Rightarrow> FeetechParser \<Rightarrow> FeetechParser" where
  "put_byte b p = p\<lparr> pr_buffer := (pr_buffer p)[pr_size p := b], pr_size := pr_size p + 1 \<rparr>"

definition reset_with :: "u8 \<Rightarrow> FeetechParser \<Rightarrow> FeetechParser" where
  "reset_with b p =
     (let q = p\<lparr> pr_size := 0, pr_expected := 0 \<rparr> in if b = 0xFF then put_byte b q else q)"

definition push_byte :: "u8 \<Rightarrow> FeetechParser \<times> FeetechFrame \<Rightarrow> FeetechParser \<times> FeetechFrame" where
  "push_byte b = (\<lambda>(p, frame0).
     let frame = frame0\<lparr> ff_ready := False \<rparr>
     in if pr_size p = 0 then (if b = 0xFF then put_byte b p else p, frame)
        else if pr_size p = 1 then (if b = 0xFF then put_byte b p else p\<lparr> pr_size := 0 \<rparr>, frame)
        else if pr_size p \<ge> PacketCapacity then (reset_with b p, frame)
        else let q = put_byte b p
          in if pr_size q = 4
             then let expected = unat (pr_buffer q ! 3) + 4; q1 = q\<lparr> pr_expected := expected \<rparr>
               in (if unat (pr_buffer q ! 3) < 2 \<or> expected > PacketCapacity then reset_with b q1 else q1, frame)
             else if pr_expected q = 0 \<or> pr_size q < pr_expected q then (q, frame)
             else let e = pr_expected q;
                 count = unat (pr_buffer q ! 3) - 2;
                 frame1 = (if feetech_checksum (pr_buffer q) 2 (e - 1) = pr_buffer q ! (e - 1)
                   then frame\<lparr> ff_id := pr_buffer q ! 2, ff_error := pr_buffer q ! 4,
                     ff_parameter_count := count,
                     ff_parameters := blit 0 (seg (pr_buffer q) 5 count) (ff_parameters frame),
                     ff_ready := True \<rparr>
                   else frame)
               in (q\<lparr> pr_size := 0, pr_expected := 0 \<rparr>, frame1))"

abbreviation "push_bytes \<equiv> fold push_byte"


section \<open>Numbers on the wire\<close>

definition encode_sign_magnitude :: "int \<Rightarrow> u16 \<Rightarrow> u16" where
  "encode_sign_magnitude value sign_mask =
     (let magnitude = word_of_int \<bar>value\<bar> :: u32
      in ucast ((if value < 0 then ucast sign_mask else 0) OR (magnitude AND (ucast sign_mask - 1)) :: u32))"

definition decode_sign_magnitude :: "u16 \<Rightarrow> u16 \<Rightarrow> int" where
  "decode_sign_magnitude value sign_mask =
     (let magnitude = uint ((ucast value :: u32) AND (ucast sign_mask - 1))
      in if value AND sign_mask \<noteq> 0 then - magnitude else magnitude)"

text \<open>\<open>std::round\<close>: to the nearest integer, halves away from zero.\<close>

fun fp_round :: "fp \<Rightarrow> fp" where
  "fp_round (FP_fin s m e) =
     (if e \<ge> 0 then FP_fin s m e
      else FP_fin s ((2 * m + 2 ^ nat (- e)) div (2 * 2 ^ nat (- e))) 0)"
| "fp_round v = v"

definition wrap_units :: "fp \<Rightarrow> nat \<Rightarrow> u16" where
  "wrap_units v modulus =
     (if \<not> fp_finite v then 0
      else let limit = fp_of_int (int modulus); w = fp_mod (fp_round v) limit;
          wrapped = (if fp_less w (fp_of_int 0) then fp_op Double A_add w limit else w)
        in word_of_int (fp_to_int wrapped))"

definition Pi :: fp where
  "Pi = decode Double (round_ratio Double 314159265358979323846 100000000000000000000)"

definition RadiansPerCount :: fp where
  "RadiansPerCount = fp_op Double A_div (fp_op Double A_mul (fp_of_int 2) Pi) (fp_of_int 4096)"

definition le16 :: "u16 \<Rightarrow> bytes" where "le16 v = [ucast v, ucast (drop_bit 8 v)]"

definition word16 :: "u8 \<Rightarrow> u8 \<Rightarrow> u16" where "word16 lo hi = ucast lo OR push_bit 8 (ucast hi)"


section \<open>The bus\<close>

record FeetechConfig =
  fc_velocity_units :: double
  fc_acceleration_units :: double
  fc_stale_limit :: nat

record FeetechBus =
  fb_config :: FeetechConfig
  fb_ids :: bytes
  fb_feedback :: "ServoFeedback list"
  fb_stale :: "nat list"
  fb_received :: "bool list"
  fb_raw_status :: bytes
  fb_setpoints :: "ServoSetpoints list"
  fb_parser :: FeetechParser
  fb_count :: nat

abbreviation (input) "StorageCapacity \<equiv> 32 :: nat"
abbreviation (input) "ProtocolCycleCapacity \<equiv> 31 :: nat"

definition default_config :: FeetechConfig where
  "default_config = \<lparr> fc_velocity_units = double_bits (fp_of_int 1),
     fc_acceleration_units = double_bits (fp_of_int 1), fc_stale_limit = 5 \<rparr>"

definition new_bus :: FeetechBus where
  "new_bus = \<lparr> fb_config = default_config, fb_ids = replicate StorageCapacity 0,
     fb_feedback = replicate StorageCapacity empty_feedback, fb_stale = replicate StorageCapacity 0,
     fb_received = replicate StorageCapacity False, fb_raw_status = replicate StorageCapacity 0,
     fb_setpoints = replicate StorageCapacity empty_setpoints, fb_parser = new_parser, fb_count = 0 \<rparr>"

definition positive_double :: "double \<Rightarrow> bool" where
  "positive_double v \<longleftrightarrow> double_finite v \<and> fp_less (fp_of_int 0) (bits_double v)"

definition bus_configure :: "FeetechBus \<Rightarrow> FeetechConfig \<Rightarrow> FeetechBus \<times> ErrorCode" where
  "bus_configure bus config =
     (if \<not> positive_double (fc_velocity_units config) \<or> \<not> positive_double (fc_acceleration_units config) \<or>
       fc_stale_limit config = 0
      then (bus, EC_invalid_argument) else (bus\<lparr> fb_config := config \<rparr>, EC_ok))"

definition offline :: "ServoFeedback \<Rightarrow> ServoFeedback" where
  "offline f = f\<lparr> sf_info := (sf_info f)\<lparr> ai_communication_ready := False \<rparr> \<rparr>"

definition bus_bind :: "FeetechBus \<Rightarrow> bytes option \<Rightarrow> nat \<Rightarrow> FeetechBus \<times> ErrorCode" where
  "bus_bind bus ids count =
     (case ids of None \<Rightarrow> (bus, EC_invalid_argument) | Some xs \<Rightarrow>
        if count = 0 then (bus, EC_invalid_argument)
        else if count > StorageCapacity \<or> count > ProtocolCycleCapacity then (bus, EC_capacity_exceeded)
        else let ys = take count xs
          in if list_ex (\<lambda>x. x \<in> {0, 0xFE, 0xFF}) ys \<or> \<not> distinct ys then (bus, EC_invalid_argument)
             else (bus\<lparr> fb_count := count, fb_ids := blit 0 ys (fb_ids bus),
                 fb_feedback := blit 0 (replicate count (offline empty_feedback)) (fb_feedback bus),
                 fb_stale := blit 0 (replicate count 0) (fb_stale bus),
                 fb_received := blit 0 (replicate count False) (fb_received bus),
                 fb_raw_status := blit 0 (replicate count 0) (fb_raw_status bus) \<rparr>, EC_ok))"

text \<open>What a setpoint is on the wire.\<close>

definition position_counts :: "ServoSetpoints \<Rightarrow> u16" where
  "position_counts sp = wrap_units
     (fp_op Double A_add (fp_op Double A_div (bits_double (sp_position sp)) RadiansPerCount) (fp_of_int 2048)) 65536"

definition velocity_word :: "FeetechConfig \<Rightarrow> ServoSetpoints \<Rightarrow> u16" where
  "velocity_word c sp =
     (let v = bits_double (sp_velocity sp);
          units = uint (wrap_units (fp_op Double A_mul (fp_abs v) (bits_double (fc_velocity_units c))) 32768)
      in encode_sign_magnitude (if fp_less v (fp_of_int 0) then - units else units) 0x8000)"

definition acceleration_byte :: "FeetechConfig \<Rightarrow> ServoSetpoints \<Rightarrow> u8" where
  "acceleration_byte c sp = ucast (wrap_units
     (fp_op Double A_mul (fp_abs (bits_double (sp_acceleration sp))) (bits_double (fc_acceleration_units c))) 256)"

definition setpoint_entry :: "FeetechConfig \<Rightarrow> u8 \<Rightarrow> ServoSetpoints \<Rightarrow> bytes" where
  "setpoint_entry c ident sp =
     [ident, acceleration_byte c sp] @ le16 (position_counts sp) @ [0, 0] @ le16 (velocity_word c sp)"

definition write_parameters :: "FeetechBus \<Rightarrow> ServoSetpoints list \<Rightarrow> bytes" where
  "write_parameters bus sps =
     [41, 7] @ concat (map (\<lambda>i. setpoint_entry (fb_config bus) (fb_ids bus ! i) (sps ! i)) [0..<fb_count bus])"

definition read_parameters :: "FeetechBus \<Rightarrow> bytes" where
  "read_parameters bus = [56, 8] @ take (fb_count bus) (fb_ids bus)"

definition build_cycle ::
  "FeetechBus \<Rightarrow> ServoSetpoints list option \<Rightarrow> nat \<Rightarrow> FeetechPacket \<times> FeetechPacket \<Rightarrow>
   (FeetechPacket \<times> FeetechPacket) \<times> ErrorCode"
where
  "build_cycle bus setpoints count packets =
     (case setpoints of None \<Rightarrow> (packets, EC_invalid_argument) | Some sps \<Rightarrow>
        if count \<noteq> fb_count bus then (packets, EC_invalid_argument)
        else let ps = write_parameters bus sps;
            (w, result) = encode_instruction 0xFE FI_sync_write (Some ps) (length ps)
          in if result \<noteq> EC_ok then ((w, snd packets), result)
             else let rs = read_parameters bus;
                 (r, result1) = encode_instruction 0xFE FI_sync_read (Some rs) (length rs)
               in ((w, r), result1))"

definition build_latched_cycle ::
  "FeetechBus \<Rightarrow> FeetechPacket \<times> FeetechPacket \<Rightarrow> (FeetechPacket \<times> FeetechPacket) \<times> ErrorCode"
where
  "build_latched_cycle bus packets = build_cycle bus (Some (fb_setpoints bus)) (fb_count bus) packets"

definition build_initialize :: "FeetechBus \<Rightarrow> nat \<Rightarrow> FeetechPacket \<Rightarrow> FeetechPacket \<times> ErrorCode" where
  "build_initialize bus index packet =
     (if index \<ge> fb_count bus then (packet, EC_out_of_range)
      else encode_instruction (fb_ids bus ! index) FI_write (Some [33, 0]) 2)"

definition bus_latch :: "FeetechBus \<Rightarrow> nat \<Rightarrow> ServoSetpoints \<Rightarrow> FeetechBus" where
  "bus_latch bus index sp =
     (if index \<ge> fb_count bus then bus
      else bus\<lparr> fb_setpoints := (fb_setpoints bus)[index := sp\<lparr> sp_torque := 0 \<rparr>] \<rparr>)"

definition begin_feedback_cycle :: "FeetechBus \<Rightarrow> FeetechBus" where
  "begin_feedback_cycle bus =
     bus\<lparr> fb_received := blit 0 (replicate (fb_count bus) False) (fb_received bus) \<rparr>"

definition find_id :: "bytes \<Rightarrow> nat \<Rightarrow> u8 \<Rightarrow> nat" where
  "find_id ids count x = (case find (\<lambda>i. ids ! i = x) [0..<count] of Some i \<Rightarrow> i | None \<Rightarrow> count)"

definition consume_frame :: "FeetechBus \<Rightarrow> FeetechFrame \<Rightarrow> FeetechBus" where
  "consume_frame bus frame =
     (if ff_parameter_count frame \<noteq> 8 then bus
      else let index = find_id (fb_ids bus) (fb_count bus) (ff_id frame); ps = ff_parameters frame
        in if index \<ge> fb_count bus then bus
           else let position = word16 (ps ! 0) (ps ! 1); velocity = word16 (ps ! 2) (ps ! 3);
               load = word16 (ps ! 4) (ps ! 5); old = fb_feedback bus ! index;
               new = old\<lparr>
                 sf_position := double_bits (fp_op Double A_mul (fp_of_int (uint position - 2048)) RadiansPerCount),
                 sf_velocity := double_bits (fp_op Double A_div
                   (fp_of_int (decode_sign_magnitude velocity 0x8000)) (bits_double (fc_velocity_units (fb_config bus)))),
                 sf_acceleration := 0,
                 sf_torque := double_bits (fp_op Double A_div
                   (fp_of_int (decode_sign_magnitude load 0x0400)) (fp_of_int 1023)),
                 sf_info := (sf_info old)\<lparr> ai_communication_ready := True \<rparr> \<rparr>
             in bus\<lparr> fb_feedback := (fb_feedback bus)[index := new],
                  fb_raw_status := (fb_raw_status bus)[index := ff_error frame],
                  fb_received := (fb_received bus)[index := True],
                  fb_stale := (fb_stale bus)[index := 0] \<rparr>)"

definition consume_packet :: "FeetechBus \<Rightarrow> FeetechPacket \<Rightarrow> FeetechBus" where
  "consume_packet bus packet =
     (let (_, frame) = push_bytes (take (pk_size packet) (pk_bytes packet)) (new_parser, new_frame)
      in if \<not> ff_ready frame \<or> ff_parameter_count frame \<noteq> 8 then bus else consume_frame bus frame)"

definition bus_push :: "u8 \<Rightarrow> FeetechBus \<Rightarrow> FeetechBus" where
  "bus_push b bus =
     (let (p, frame) = push_byte b (fb_parser bus, new_frame); bus1 = bus\<lparr> fb_parser := p \<rparr>
      in if ff_ready frame then consume_frame bus1 frame else bus1)"

definition age_servo :: "nat \<Rightarrow> FeetechBus \<Rightarrow> FeetechBus" where
  "age_servo i bus =
     (if fb_received bus ! i then bus
      else let limit = fc_stale_limit (fb_config bus); n = fb_stale bus ! i;
          n1 = (if n < limit then n + 1 else n)
        in bus\<lparr> fb_stale := (fb_stale bus)[i := n1],
             fb_feedback := (if n1 \<ge> limit then (fb_feedback bus)[i := offline (fb_feedback bus ! i)]
               else fb_feedback bus) \<rparr>)"

definition end_feedback_cycle :: "FeetechBus \<Rightarrow> FeetechBus" where
  "end_feedback_cycle bus = fold age_servo [0..<fb_count bus] bus"

definition bus_read_feedback :: "FeetechBus \<Rightarrow> nat \<Rightarrow> ServoFeedback" where
  "bus_read_feedback bus index =
     (if index < fb_count bus then fb_feedback bus ! index else offline empty_feedback)"

definition bus_stale :: "FeetechBus \<Rightarrow> nat \<Rightarrow> bool" where
  "bus_stale bus index \<longleftrightarrow> index < fb_count bus \<and> fb_stale bus ! index \<noteq> 0"

definition raw_status :: "FeetechBus \<Rightarrow> nat \<Rightarrow> u8" where
  "raw_status bus index = (if index < fb_count bus then fb_raw_status bus ! index else 0)"

definition cycle_wire_bytes :: "nat \<Rightarrow> nat" where
  "cycle_wire_bytes count = 16 + 23 * count"


section \<open>The simulated slaves\<close>

record FeetechSim =
  fs_config :: FeetechConfig
  fs_ids :: bytes
  fs_position :: "u16 list"
  fs_velocity :: "u16 list"
  fs_acceleration :: bytes
  fs_count :: nat

definition new_sim :: FeetechSim where
  "new_sim = \<lparr> fs_config = default_config, fs_ids = replicate StorageCapacity 0,
     fs_position = replicate StorageCapacity 0, fs_velocity = replicate StorageCapacity 0,
     fs_acceleration = replicate StorageCapacity 0, fs_count = 0 \<rparr>"

definition sim_configure :: "FeetechSim \<Rightarrow> FeetechConfig \<Rightarrow> FeetechSim \<times> ErrorCode" where
  "sim_configure s config =
     (if \<not> positive_double (fc_velocity_units config) \<or> \<not> positive_double (fc_acceleration_units config)
      then (s, EC_invalid_argument) else (s\<lparr> fs_config := config \<rparr>, EC_ok))"

definition sim_bind :: "FeetechSim \<Rightarrow> bytes option \<Rightarrow> nat \<Rightarrow> FeetechSim \<times> ErrorCode" where
  "sim_bind s ids count =
     (let (_, result) = bus_bind new_bus ids count
      in if result \<noteq> EC_ok then (s, result)
         else (s\<lparr> fs_count := count, fs_ids := blit 0 (take count (the ids)) (fs_ids s) \<rparr>, EC_ok))"

text \<open>The entries of a \<open>sync_write\<close>, taken one by one; an unknown identity stops with the entries
  before it applied.\<close>

fun apply_entries :: "bytes \<Rightarrow> nat \<Rightarrow> nat \<Rightarrow> FeetechSim \<Rightarrow> FeetechSim \<times> bool" where
  "apply_entries ps 0 cursor s = (s, True)"
| "apply_entries ps (Suc n) cursor s =
     (let index = find_id (fs_ids s) (fs_count s) (ps ! cursor)
      in if index \<ge> fs_count s then (s, False)
         else apply_entries ps n (cursor + 8)
           (s\<lparr> fs_acceleration := (fs_acceleration s)[index := ps ! (cursor + 1)],
               fs_position := (fs_position s)[index := word16 (ps ! (cursor + 2)) (ps ! (cursor + 3))],
               fs_velocity := (fs_velocity s)[index := word16 (ps ! (cursor + 6)) (ps ! (cursor + 7))] \<rparr>))"

definition response :: "FeetechSim \<Rightarrow> nat \<Rightarrow> FeetechPacket" where
  "response s i = fst (encode_status (fs_ids s ! i) 0
     (Some (le16 (fs_position s ! i) @ le16 (fs_velocity s ! i) @ [0, 0, 120, 25])) 8)"

definition exchange ::
  "FeetechSim \<Rightarrow> FeetechPacket \<Rightarrow> FeetechPacket \<Rightarrow> FeetechPacket list option \<Rightarrow> nat \<Rightarrow>
   (FeetechSim \<times> FeetechPacket list option) \<times> ErrorCode"
where
  "exchange s sync_write sync_read responses capacity =
     (let (_, wf) = push_bytes (take (pk_size sync_write) (pk_bytes sync_write)) (new_parser, new_frame);
          (_, rf) = push_bytes (take (pk_size sync_read) (pk_bytes sync_read)) (new_parser, new_frame);
          refused = ((s, responses), EC_invalid_argument)
      in if responses = None \<or> capacity < fs_count s \<or> \<not> ff_ready wf \<or> \<not> ff_ready rf \<or>
           ff_id wf \<noteq> 0xFE \<or> ff_id rf \<noteq> 0xFE \<or>
           ff_error wf \<noteq> instruction_byte FI_sync_write \<or> ff_error rf \<noteq> instruction_byte FI_sync_read \<or>
           ff_parameter_count wf < 2 \<or> ff_parameter_count rf \<noteq> fs_count s + 2 \<or>
           ff_parameters wf ! 0 \<noteq> 41 \<or> ff_parameters wf ! 1 \<noteq> 7 \<or>
           ff_parameters rf ! 0 \<noteq> 56 \<or> ff_parameters rf ! 1 \<noteq> 8
         then refused
         else let entries = (ff_parameter_count wf - 2) div 8
           in if entries \<noteq> fs_count s \<or> ff_parameter_count wf \<noteq> 2 + entries * 8 then refused
              else case apply_entries (ff_parameters wf) entries 2 s of
                  (s1, False) \<Rightarrow> ((s1, responses), EC_invalid_argument)
                | (s1, True) \<Rightarrow>
                    ((s1, map_option (blit 0 (map (response s1) [0..<fs_count s1])) responses), EC_ok))"


section \<open>A servo on the bus\<close>

record FeetechServo =
  fv_index :: nat
  fv_setpoints :: ServoSetpoints

definition servo_write_setpoints :: "FeetechServo \<Rightarrow> FeetechBus \<Rightarrow> ServoSetpoints \<Rightarrow> FeetechServo \<times> FeetechBus" where
  "servo_write_setpoints s bus sp =
     (let sp1 = sp\<lparr> sp_torque := 0 \<rparr> in (s\<lparr> fv_setpoints := sp1 \<rparr>, bus_latch bus (fv_index s) sp1))"

definition servo_read_feedback :: "FeetechServo \<Rightarrow> FeetechBus \<Rightarrow> ServoFeedback" where
  "servo_read_feedback s bus = bus_read_feedback bus (fv_index s)"

end
