(* ===== verification/FeetechProps.thy ===== *)
theory FeetechProps
  imports Feetech
begin

unbundle bit_operations_syntax

text \<open>
  The parser against the packets: \<open>parse_step\<close> is the parser on the list of bytes it holds, without
  buffer and counters, and \<open>push_byte\<close> refines it. Every packet is received, whatever the frame left
  in the parser's buffer, and whatever is received was sent as a whole packet.
\<close>

section \<open>Packets\<close>

type_synonym report = "u8 \<times> u8 \<times> bytes"

definition body_checksum :: "bytes \<Rightarrow> u8" where
  "body_checksum bs = ucast (NOT (sum_list (map ucast bs)) :: u32)"

definition packet_body :: "report \<Rightarrow> bytes" where
  "packet_body = (\<lambda>(ident, fifth, ps). ident # of_nat (length ps + 2) # fifth # ps)"

definition packet_of :: "report \<Rightarrow> bytes" where
  "packet_of r = [0xFF, 0xFF] @ packet_body r @ [body_checksum (packet_body r)]"

lemma checksum_body:
  "length a = 2 \<Longrightarrow> feetech_checksum (a @ bs @ rest) 2 (2 + length bs) = body_checksum bs"
  by (simp add: feetech_checksum_def body_checksum_def seg_def)

lemma put_behind: "n = length xs \<Longrightarrow> ys \<noteq> [] \<Longrightarrow> take (Suc n) ((xs @ ys)[n := x]) = xs @ [x]"
  by (cases ys) simp_all

lemma fill_packet_ok:
  assumes "ident \<noteq> 0xFF" "length ps \<le> 253"
  shows "\<exists>pk. fill_packet ident fifth (Some ps) (length ps) = (pk, EC_ok) \<and>
    take (pk_size pk) (pk_bytes pk) = packet_of (ident, fifth, ps)"
proof -
  let ?n = "length ps" let ?head = "[0xFF, 0xFF, ident, of_nat (?n + 2), fifth]"
  let ?bytes = "blit 0 (?head @ ps) (replicate PacketCapacity 0)"
  have b: "?bytes = [0xFF, 0xFF] @ packet_body (ident, fifth, ps) @ replicate (267 - ?n) 0"
    using assms(2) by (simp add: blit_def packet_body_def)
  have l: "length (packet_body (ident, fifth, ps)) = ?n + 3" by (simp add: packet_body_def)
  have c: "feetech_checksum ?bytes 2 (?n + 5) = body_checksum (packet_body (ident, fifth, ps))"
    unfolding b using checksum_body [of "[0xFF, 0xFF]" "packet_body (ident, fifth, ps)"] l by (simp add: add.commute)
  have "take (?n + 6) (?bytes[?n + 5 := x]) = [0xFF, 0xFF] @ packet_body (ident, fifth, ps) @ [x]" for x
    unfolding b using put_behind [of "?n + 5" "[0xFF, 0xFF] @ packet_body (ident, fifth, ps)" "replicate (267 - ?n) 0" x] assms(2) l
    by (simp add: add.commute del: take_Suc_Cons)
  with c show ?thesis
    using assms by (simp add: fill_packet_def empty_packet_def Let_def packet_of_def add.commute)
qed

section \<open>The parser on lists\<close>

definition report_of :: "bytes \<Rightarrow> report" where
  "report_of ys = (ys ! 2, ys ! 4, take (unat (ys ! 3) - 2) (drop 5 ys))"

definition parse_step :: "bytes \<Rightarrow> u8 \<Rightarrow> bytes \<times> report option" where
  "parse_step xs b =
     (if length xs < 2 then (if b = 0xFF then xs @ [b] else [], None)
      else if length xs = 2 then (xs @ [b], None)
      else if length xs = 3 then (if unat b < 2 then [] else xs @ [b], None)
      else if length xs + 1 < unat (xs ! 3) + 4 then (xs @ [b], None)
      else ([], if body_checksum (drop 2 xs) = b then Some (report_of xs) else None))"

definition holds_bytes :: "FeetechParser \<Rightarrow> bytes \<Rightarrow> bool" where
  "holds_bytes p xs \<longleftrightarrow> length (pr_buffer p) = PacketCapacity \<and> pr_size p = length xs \<and>
     take (length xs) (pr_buffer p) = xs \<and>
     (if length xs < 4 then pr_expected p = 0
      else pr_expected p = unat (xs ! 3) + 4 \<and> 2 \<le> unat (xs ! 3) \<and> length xs < unat (xs ! 3) + 4)"

lemma unat_byte: "unat (b :: u8) < 256"
  using unsigned_less [of b, where 'a = nat] by simp

lemma holds_new [simp]: "holds_bytes new_parser []"
  by (simp add: holds_bytes_def new_parser_def)

lemma holds_put:
  assumes "length (pr_buffer p) = PacketCapacity" "pr_size p = length xs" "take (length xs) (pr_buffer p) = xs"
    "length xs < PacketCapacity"
  shows "take (Suc (length xs)) (pr_buffer (put_byte b p)) = xs @ [b]" "pr_size (put_byte b p) = Suc (length xs)"
    "length (pr_buffer (put_byte b p)) = PacketCapacity" "pr_expected (put_byte b p) = pr_expected p"
  using assms by (simp_all add: put_byte_def take_Suc_conv_app_nth)

lemma buffer_nth: "take n buf = ys \<Longrightarrow> i < n \<Longrightarrow> i < length ys \<Longrightarrow> buf ! i = ys ! i"
  by auto

definition shows_report :: "FeetechFrame \<Rightarrow> report option \<Rightarrow> bool" where
  "shows_report f r \<longleftrightarrow> (case r of None \<Rightarrow> \<not> ff_ready f | Some (ident, e, ps) \<Rightarrow>
     ff_ready f \<and> ff_id f = ident \<and> ff_error f = e \<and> ff_parameter_count f = length ps \<and>
     take (length ps) (ff_parameters f) = ps)"

lemma parse_step_simps:
  "parse_step [] b = (if b = 0xFF then [b] else [], None)"
  "parse_step [a] b = (if b = 0xFF then [a, b] else [], None)"
  "parse_step [a, a'] b = ([a, a', b], None)"
  "parse_step [a, a', c] b = (if unat b < 2 then [] else [a, a', c, b], None)"
  by (simp_all add: parse_step_def)

lemma push_early:
  assumes h: "holds_bytes p xs" and l: "length xs < 4"
  shows "\<exists>p' f'. push_byte b (p, f) = (p', f') \<and> holds_bytes p' (fst (parse_step xs b)) \<and>
    snd (parse_step xs b) = None \<and> \<not> ff_ready f' \<and> ff_parameters f' = ff_parameters f"
proof -
  note put = holds_put [of p xs b]
  from l consider "length xs < 2" | "length xs = 2" | "length xs = 3" by linarith
  then show ?thesis
  proof cases
    case 1
    with h put show ?thesis
      by (cases xs; cases "tl xs")
        (auto simp: push_byte_def holds_bytes_def parse_step_simps Let_def)
  next
    case 2
    with h put show ?thesis by (auto simp: push_byte_def holds_bytes_def parse_step_def Let_def)
  next
    case 3
    let ?q = "put_byte b p"
    have n: "pr_buffer ?q ! 3 = b" using put(1) 3 h by (auto simp: put_byte_def holds_bytes_def)
    have "pr_size (reset_with b x) = 0 \<and> pr_expected (reset_with b x) = 0 \<and> pr_buffer (reset_with b x) = pr_buffer x"
      if "unat b < 2" for x using that by (auto simp: reset_with_def Let_def)
    with h put 3 n unat_byte [of b] show ?thesis
      by (auto simp: push_byte_def holds_bytes_def parse_step_def Let_def nth_append)
  qed
qed

lemma push_late:
  assumes h: "holds_bytes p xs" and l: "4 \<le> length xs"
    and f: "length (ff_parameters f) = 253"
  shows "\<exists>p' f'. push_byte b (p, f) = (p', f') \<and> holds_bytes p' (fst (parse_step xs b)) \<and>
    shows_report f' (snd (parse_step xs b)) \<and> length (ff_parameters f') = 253"
proof -
  let ?e = "unat (xs ! 3) + 4" let ?q = "put_byte b p"
  have e: "pr_expected p = ?e" "2 \<le> unat (xs ! 3)" "length xs < ?e" "?e < PacketCapacity"
    using h l unat_byte [of "xs ! 3"] by (simp_all add: holds_bytes_def)
  have put: "take (Suc (length xs)) (pr_buffer ?q) = xs @ [b]" "pr_size ?q = Suc (length xs)"
    "length (pr_buffer ?q) = PacketCapacity" "pr_expected ?q = ?e"
    using holds_put [of p xs b] h e by (simp_all add: holds_bytes_def)
  have n: "pr_buffer ?q ! i = (xs @ [b]) ! i" if "i \<le> length xs" for i
    using that put(1,3) e by (metis le_imp_less_Suc nth_take)
  show ?thesis
  proof (cases "Suc (length xs) < ?e")
    case True
    with put e h l have "push_byte b (p, f) = (?q, f\<lparr> ff_ready := False \<rparr>)"
      by (auto simp: push_byte_def holds_bytes_def Let_def)
    moreover have "holds_bytes ?q (xs @ [b])" using put e h l True by (simp add: holds_bytes_def nth_append)
    moreover have "parse_step xs b = (xs @ [b], None)" using l True by (simp add: parse_step_def)
    ultimately show ?thesis using f by (simp add: shows_report_def)
  next
    case False
    with e have len: "length xs = ?e - 1" by simp
    let ?buf = "pr_buffer ?q" let ?c = "unat (xs ! 3) - 2"
    have bytes: "take (Suc (length xs)) ?buf = xs @ [b]" by (rule put(1))
    then have "?buf = xs @ [b] @ drop (Suc (length xs)) ?buf" by (metis append.assoc append_take_drop_id)
    moreover have "xs = take 2 xs @ drop 2 xs" by simp
    ultimately have split: "?buf = take 2 xs @ drop 2 xs @ b # drop (Suc (length xs)) ?buf"
      by (metis append.assoc append_Cons append_Nil)
    have ck: "feetech_checksum ?buf 2 (?e - 1) = body_checksum (drop 2 xs)"
    proof -
      have "2 + length (drop 2 xs) = ?e - 1" using l len by simp
      moreover have "length (take 2 xs) = 2" using l by simp
      ultimately show ?thesis using checksum_body [of "take 2 xs" "drop 2 xs" "b # drop (Suc (length xs)) ?buf"] split
        by metis
    qed
    have at: "?buf ! (?e - 1) = b" "?buf ! 3 = xs ! 3" "?buf ! 2 = xs ! 2" "?buf ! 4 = (xs @ [b]) ! 4"
      using n [of "?e - 1"] n [of 3] n [of 2] n [of 4] l len by (simp_all add: nth_append)
    have sg: "seg ?buf 5 ?c = take ?c (drop 5 xs)"
    proof (rule nth_equalityI)
      show "length (seg ?buf 5 ?c) = length (take ?c (drop 5 xs))" using e len put(3) by (simp add: seg_def)
      fix i assume "i < length (seg ?buf 5 ?c)"
      then have i: "i < ?c" using e put(3) by (simp add: seg_def)
      then have "5 + i < length xs" using len e(2) by linarith
      with i show "seg ?buf 5 ?c ! i = take ?c (drop 5 xs) ! i"
        using n [of "5 + i"] len e put(3) by (simp add: seg_def nth_append)
    qed
    have r: "report_of xs = (xs ! 2, xs ! 4, take ?c (drop 5 xs))" by (simp add: report_of_def)
    have size: "\<not> length xs < 2" "length xs \<noteq> 2" "length xs \<noteq> 3" "\<not> length xs \<ge> PacketCapacity" "Suc (length xs) \<noteq> 4"
      "5 \<le> length xs" using len e by linarith+
    have at4: "?buf ! 4 = xs ! 4" using at(4) size(6) by (simp add: nth_append)
    have cnt: "length (take ?c (drop 5 xs)) = ?c" using len by simp
    have c253: "?c \<le> 253" using unat_byte [of "xs ! 3"] by simp
    have step: "parse_step xs b = ([], if body_checksum (drop 2 xs) = b then Some (report_of xs) else None)"
      using size False len by (simp add: parse_step_def)
    let ?f = "f\<lparr> ff_ready := False \<rparr>"
    let ?g = "?f\<lparr> ff_id := xs ! 2, ff_error := xs ! 4, ff_parameter_count := ?c,
      ff_parameters := blit 0 (take ?c (drop 5 xs)) (ff_parameters f), ff_ready := True \<rparr>"
    have "push_byte b (p, f) = (?q\<lparr> pr_size := 0, pr_expected := 0 \<rparr>, if body_checksum (drop 2 xs) = b then ?g else ?f)"
      using size put(2,4) h e False at at4 ck sg by (auto simp: push_byte_def holds_bytes_def Let_def)
    moreover have "holds_bytes (?q\<lparr> pr_size := 0, pr_expected := 0 \<rparr>) []" using put(3) by (simp add: holds_bytes_def)
    moreover have "take ?c (blit 0 (take ?c (drop 5 xs)) (ff_parameters f)) = take ?c (drop 5 xs)"
      using cnt by (simp add: blit_def)
    moreover have "length (blit 0 (take ?c (drop 5 xs)) (ff_parameters f)) = 253"
      using cnt c253 f by (simp add: blit_def)
    ultimately show ?thesis using f cnt by (simp add: step r shows_report_def)
  qed
qed

lemma push_byte_refines:
  assumes "holds_bytes p xs" "length (ff_parameters f) = 253"
  shows "\<exists>p' f'. push_byte b (p, f) = (p', f') \<and> holds_bytes p' (fst (parse_step xs b)) \<and>
    shows_report f' (snd (parse_step xs b)) \<and> length (ff_parameters f') = 253"
proof (cases "length xs < 4")
  case True
  with push_early [OF assms(1) this, of b f] assms(2) show ?thesis by (auto simp: shows_report_def)
next
  case False
  with push_late [OF assms(1) _ assms(2)] show ?thesis by simp
qed


section \<open>Streams\<close>

text \<open>What a parser reports while a stream is pushed into it.\<close>

definition report_in :: "FeetechFrame \<Rightarrow> report list" where
  "report_in f = (if ff_ready f then [(ff_id f, ff_error f, take (ff_parameter_count f) (ff_parameters f))] else [])"

primrec receive :: "bytes \<Rightarrow> FeetechParser \<times> FeetechFrame \<Rightarrow> report list" where
  "receive [] pf = []"
| "receive (b # bs) pf = (let pf1 = push_byte b pf in report_in (snd pf1) @ receive bs pf1)"

primrec parse_all :: "bytes \<Rightarrow> bytes \<Rightarrow> bytes \<times> report list" where
  "parse_all xs [] = (xs, [])"
| "parse_all xs (b # bs) =
     (let (ys, r) = parse_step xs b; (zs, rs) = parse_all ys bs
      in (zs, (case r of None \<Rightarrow> [] | Some x \<Rightarrow> [x]) @ rs))"

lemma receive_append: "receive (bs @ cs) pf = receive bs pf @ receive cs (push_bytes bs pf)"
  by (induction bs arbitrary: pf) (simp_all add: Let_def)

lemma parse_all_append:
  "parse_all xs (bs @ cs) = (let (ys, rs) = parse_all xs bs; (zs, ss) = parse_all ys cs in (zs, rs @ ss))"
  by (induction bs arbitrary: xs) (simp_all add: split_beta Let_def)

lemma parse_all_then: "parse_all xs bs = (ys, []) \<Longrightarrow> parse_all ys cs = r \<Longrightarrow> parse_all xs (bs @ cs) = r"
  by (simp add: parse_all_append)

lemma report_in_shows: "shows_report f r \<Longrightarrow> report_in f = (case r of None \<Rightarrow> [] | Some x \<Rightarrow> [x])"
  by (auto simp: report_in_def shows_report_def split: option.splits)

lemma receive_refines:
  assumes "holds_bytes p xs" "length (ff_parameters f) = 253"
  shows "receive bs (p, f) = snd (parse_all xs bs) \<and> holds_bytes (fst (push_bytes bs (p, f))) (fst (parse_all xs bs)) \<and>
    length (ff_parameters (snd (push_bytes bs (p, f)))) = 253"
  using assms
proof (induction bs arbitrary: p f xs)
  case (Cons b bs)
  obtain p' f' where s: "push_byte b (p, f) = (p', f')" "holds_bytes p' (fst (parse_step xs b))"
    "shows_report f' (snd (parse_step xs b))" "length (ff_parameters f') = 253"
    using push_byte_refines [OF Cons.prems, of b] by blast
  from Cons.IH [OF s(2,4)] s(1) report_in_shows [OF s(3)] show ?case
    by (simp add: split_beta Let_def)
qed simp

text \<open>Every packet is received.\<close>

lemma parse_all_inside:
  assumes "4 \<le> length xs" "length xs + length bs < unat (xs ! 3) + 4"
  shows "parse_all xs bs = (xs @ bs, [])"
  using assms by (induction bs arbitrary: xs) (simp_all add: parse_step_def nth_append)

lemma parse_packet_steps:
  assumes "length ps \<le> 253"
  shows "parse_all [] ([0xFF, 0xFF] @ packet_body (ident, fifth, ps)) = ([0xFF, 0xFF] @ packet_body (ident, fifth, ps), [])"
    and "parse_step ([0xFF, 0xFF] @ packet_body (ident, fifth, ps)) (body_checksum (packet_body (ident, fifth, ps))) =
      ([], Some (ident, fifth, ps))"
proof -
  let ?len = "of_nat (length ps + 2) :: u8" let ?xs = "[0xFF, 0xFF, ident, ?len]"
  have u: "unat ?len = length ps + 2" using assms by (intro unat_of_nat_small) simp
  have p: "[0xFF, 0xFF] @ packet_body (ident, fifth, ps) = ?xs @ (fifth # ps)" by (simp add: packet_body_def)
  have "parse_all [] ?xs = (?xs, [])" using u by (simp add: parse_step_simps del: of_nat_add)
  moreover have "parse_all ?xs (fifth # ps) = (?xs @ fifth # ps, [])"
    using u by (intro parse_all_inside) (simp_all del: of_nat_add)
  ultimately show "parse_all [] ([0xFF, 0xFF] @ packet_body (ident, fifth, ps)) = ([0xFF, 0xFF] @ packet_body (ident, fifth, ps), [])"
    unfolding p by (rule parse_all_then)
  show "parse_step ([0xFF, 0xFF] @ packet_body (ident, fifth, ps)) (body_checksum (packet_body (ident, fifth, ps))) =
      ([], Some (ident, fifth, ps))"
    using u by (simp add: p parse_step_def report_of_def packet_body_def del: of_nat_add)
qed

lemma parse_packet:
  assumes "length ps \<le> 253"
  shows "parse_all [] (packet_of (ident, fifth, ps)) = ([], [(ident, fifth, ps)])"
proof -
  note steps = parse_packet_steps [OF assms, of ident fifth]
  have "parse_all ([0xFF, 0xFF] @ packet_body (ident, fifth, ps)) [body_checksum (packet_body (ident, fifth, ps))] =
      ([], [(ident, fifth, ps)])"
    using steps(2) by simp
  from parse_all_then [OF steps(1) this] show ?thesis by (simp add: packet_of_def del: parse_all.simps(2))
qed

lemma parse_packets:
  assumes "\<And>r. r \<in> set rs \<Longrightarrow> length (snd (snd r)) \<le> 253"
  shows "parse_all [] (concat (map packet_of rs)) = ([], rs)"
  using assms
proof (induction rs)
  case (Cons r rs)
  obtain i e ps where r: "r = (i, e, ps)" by (cases r)
  from Cons.prems [of r] have "length ps \<le> 253" by (simp add: r)
  with Cons parse_packet [of ps i e] show ?case by (simp add: r parse_all_append)
qed simp

text \<open>Whatever is received was there as a whole packet.\<close>

definition packet_start :: "bytes \<Rightarrow> bool" where
  "packet_start xs \<longleftrightarrow> take 2 xs = take (length xs) [0xFF, 0xFF] \<and>
     (4 \<le> length xs \<longrightarrow> 2 \<le> unat (xs ! 3) \<and> length xs < unat (xs ! 3) + 4)"

lemma parse_step_sound:
  assumes "packet_start xs"
  shows "packet_start (fst (parse_step xs b)) \<and>
    (case snd (parse_step xs b) of None \<Rightarrow> \<exists>junk. xs @ [b] = junk @ fst (parse_step xs b)
     | Some r \<Rightarrow> xs @ [b] = packet_of r \<and> fst (parse_step xs b) = [])"
proof (cases "length xs < 4")
  case True
  then consider "xs = []" | a where "xs = [a]" | a c where "xs = [a, c]" | a c d where "xs = [a, c, d]"
    by (auto simp: numeral_eq_Suc less_Suc_eq length_Suc_conv)
  then show ?thesis using assms
    by cases (auto simp: parse_step_simps packet_start_def)
next
  case False
  let ?u = "unat (xs ! 3)"
  from False assms have u: "2 \<le> ?u" "length xs < ?u + 4" "take 2 xs = [0xFF, 0xFF]" by (auto simp: packet_start_def)
  show ?thesis
  proof (cases "length xs + 1 < ?u + 4")
    case True
    with False u show ?thesis by (simp add: parse_step_def packet_start_def nth_append)
  next
    case end_of_packet: False
    with u have len: "length xs = ?u + 3" by simp
    show ?thesis
    proof (cases "body_checksum (drop 2 xs) = b")
      case True
      have x: "xs = [0xFF, 0xFF] @ drop 2 xs" using u(3) by (metis append_take_drop_id)
      have "drop 2 xs = xs ! 2 # xs ! 3 # xs ! 4 # drop 5 xs"
        using len u(1) by (simp add: Cons_nth_drop_Suc numeral_eq_Suc)
      moreover have "length (drop 5 xs) + 2 = ?u" using len u(1) by simp
      then have "(of_nat (length (drop 5 xs) + 2) :: u8) = xs ! 3" by simp
      moreover have "take (?u - 2) (drop 5 xs) = drop 5 xs" using len by simp
      ultimately have "packet_body (report_of xs) = drop 2 xs"
        unfolding packet_body_def report_of_def by (simp only: prod.case)
      then have "packet_of (report_of xs) = [0xFF, 0xFF] @ drop 2 xs @ [b]" using True by (simp add: packet_of_def)
      moreover have "[0xFF, 0xFF] @ drop 2 xs @ [b] = xs @ [b]" using x by (metis append.assoc)
      ultimately show ?thesis using False end_of_packet True by (simp add: parse_step_def packet_start_def)
    qed (use False end_of_packet in \<open>simp_all add: parse_step_def packet_start_def\<close>)
  qed
qed

definition among :: "bytes list \<Rightarrow> report list \<Rightarrow> bytes" where
  "among junks rs = concat (map2 (\<lambda>junk r. junk @ packet_of r) junks rs)"

lemma parse_all_sound:
  assumes "packet_start xs"
  shows "\<exists>junks junk. length junks = length (snd (parse_all xs bs)) \<and>
    xs @ bs = among junks (snd (parse_all xs bs)) @ junk"
  using assms
proof (induction bs arbitrary: xs)
  case Nil
  then show ?case by (simp add: among_def)
next
  case (Cons b bs)
  let ?ys = "fst (parse_step xs b)" let ?rs = "snd (parse_all ?ys bs)"
  note s = parse_step_sound [OF Cons.prems, of b]
  from Cons.IH [of ?ys] s obtain junks junk where ih: "length junks = length ?rs"
    "?ys @ bs = among junks ?rs @ junk" by blast
  show ?case
  proof (cases "snd (parse_step xs b)")
    case (Some r)
    with s have p: "xs @ [b] = packet_of r" "?ys = []" by auto
    have "xs @ b # bs = (xs @ [b]) @ bs" by simp
    also have "\<dots> = packet_of r @ among junks ?rs @ junk" using ih(2) unfolding p by simp
    finally have "xs @ b # bs = among ([] # junks) (r # ?rs) @ junk" by (simp add: among_def)
    with Some ih(1) show ?thesis
      by (intro exI [of _ "[] # junks"] exI [of _ junk]) (simp add: split_beta Let_def)
  next
    case None
    with s obtain j where j: "xs @ [b] = j @ ?ys" by auto
    have "xs @ b # bs = (xs @ [b]) @ bs" by simp
    also have "\<dots> = j @ among junks ?rs @ junk" using j ih(2) by simp
    finally have a: "xs @ b # bs = j @ among junks ?rs @ junk" .
    show ?thesis
    proof (cases junks)
      case Nil
      with a ih(1) None show ?thesis by (intro exI [of _ "[]"] exI [of _ "j @ junk"]) (simp add: among_def split_beta Let_def)
    next
      case (Cons k ks)
      with ih(1) obtain r rs where rs: "?rs = r # rs" by (cases ?rs) auto
      with a have "xs @ b # bs = among ((j @ k) # ks) (r # rs) @ junk" by (simp add: among_def Cons)
      with ih(1) None Cons rs show ?thesis
        by (intro exI [of _ "(j @ k) # ks"] exI [of _ junk]) (simp add: split_beta Let_def)
    qed
  qed
qed

text \<open>The two directions together, on the parser of the code.\<close>

definition wire_bytes :: "FeetechPacket \<Rightarrow> bytes" where
  "wire_bytes pk = take (pk_size pk) (pk_bytes pk)"

definition sendable :: "report \<Rightarrow> bool" where
  "sendable = (\<lambda>(ident, e, ps). ident \<noteq> 0xFF \<and> length ps \<le> 253)"

definition status_packet :: "report \<Rightarrow> FeetechPacket" where
  "status_packet = (\<lambda>(ident, e, ps). fst (encode_status ident e (Some ps) (length ps)))"

lemma wire_fill: "ident \<noteq> 0xFF \<Longrightarrow> length ps \<le> 253 \<Longrightarrow> fill_packet ident fifth (Some ps) (length ps) = (pk, r) \<Longrightarrow>
    r = EC_ok \<and> wire_bytes pk = packet_of (ident, fifth, ps)"
  using fill_packet_ok [of ident ps fifth] by (auto simp: wire_bytes_def)

lemma wire_status: "sendable r \<Longrightarrow> wire_bytes (status_packet r) = packet_of r"
  using wire_fill by (cases r) (auto simp: sendable_def status_packet_def encode_status_def split: prod.splits, metis prod.collapse)

lemma new_frame_parameters: "length (ff_parameters new_frame) = 253"
  by (simp add: new_frame_def)

lemma receive_all: "receive bs (new_parser, new_frame) = snd (parse_all [] bs)"
  using receive_refines [OF holds_new new_frame_parameters] by blast

lemma sent_packets_received:
  assumes "list_all sendable rs"
  shows "receive (concat (map (\<lambda>r. wire_bytes (status_packet r)) rs)) (new_parser, new_frame) = rs"
proof -
  have "map (\<lambda>r. wire_bytes (status_packet r)) rs = map packet_of rs"
    using assms wire_status by (auto simp: list_all_iff)
  moreover have "length (snd (snd r)) \<le> 253" if "r \<in> set rs" for r
    using assms that by (auto simp: list_all_iff sendable_def)
  ultimately show ?thesis using parse_packets [of rs] by (simp only: receive_all snd_conv)
qed

lemma received_was_sent:
  "\<exists>junks junk. length junks = length (receive bs (new_parser, new_frame)) \<and>
    bs = among junks (receive bs (new_parser, new_frame)) @ junk"
  using parse_all_sound [of "[]" bs] by (simp add: receive_all packet_start_def)

text \<open>The frame after a whole packet.\<close>

lemma push_packet:
  assumes "length ps \<le> 253" "holds_bytes p []" "length (ff_parameters f) = 253"
  shows "\<exists>p' f'. push_bytes (packet_of (ident, e, ps)) (p, f) = (p', f') \<and> holds_bytes p' [] \<and>
    shows_report f' (Some (ident, e, ps)) \<and> length (ff_parameters f') = 253"
proof -
  let ?xs = "[0xFF, 0xFF] @ packet_body (ident, e, ps)" and ?b = "body_checksum (packet_body (ident, e, ps))"
  note steps = parse_packet_steps [OF assms(1), of ident e]
  obtain p1 f1 where 1: "push_bytes ?xs (p, f) = (p1, f1)" by fastforce
  from receive_refines [OF assms(2,3), of ?xs] steps(1) 1 have h: "holds_bytes p1 ?xs" "length (ff_parameters f1) = 253"
    by simp_all
  from push_byte_refines [OF h, of ?b] 1 show ?thesis
    unfolding steps(2) by (simp add: packet_of_def)
qed

end
