(* ===== verification/FeetechCycle.thy ===== *)
theory FeetechCycle
  imports FeetechProps
begin

unbundle bit_operations_syntax

text \<open>
  One cycle of the bus against the simulated slaves: the master writes setpoints, every slave takes its
  entry and answers, and the master's feedback is what it wrote, at the resolution of the wire. The
  staleness of a servo that does not answer.
\<close>

section \<open>Bound buses\<close>

definition bound_bus :: "FeetechBus \<Rightarrow> bytes \<Rightarrow> bool" where
  "bound_bus bus ids \<longleftrightarrow> fb_count bus = length ids \<and> take (length ids) (fb_ids bus) = ids \<and>
     1 \<le> length ids \<and> length ids \<le> ProtocolCycleCapacity \<and> distinct ids \<and> 0xFF \<notin> set ids \<and>
     length (fb_feedback bus) = StorageCapacity \<and> length (fb_stale bus) = StorageCapacity \<and>
     length (fb_received bus) = StorageCapacity \<and> length (fb_raw_status bus) = StorageCapacity \<and>
     length (fb_setpoints bus) = StorageCapacity"

definition bound_sim :: "FeetechSim \<Rightarrow> bytes \<Rightarrow> bool" where
  "bound_sim s ids \<longleftrightarrow> fs_count s = length ids \<and> take (length ids) (fs_ids s) = ids \<and>
     length (fs_position s) = StorageCapacity \<and> length (fs_velocity s) = StorageCapacity \<and>
     length (fs_acceleration s) = StorageCapacity"

lemma bind_bound:
  assumes "bus_bind new_bus (Some ids) (length ids) = (bus, EC_ok)"
  shows "bound_bus bus ids"
proof -
  from assms have "length ids \<le> ProtocolCycleCapacity" "ids \<noteq> []" "distinct ids" "0xFF \<notin> set ids"
    by (auto simp: bus_bind_def Let_def list_ex_iff split: if_splits)
  moreover from this have "1 \<le> length ids" by (cases ids) auto
  ultimately show ?thesis
    using assms by (auto simp: bound_bus_def bus_bind_def Let_def new_bus_def blit_def split: if_splits)
qed

lemma sim_bind_bound:
  assumes "sim_bind new_sim (Some ids) (length ids) = (s, EC_ok)"
  shows "bound_sim s ids"
proof -
  obtain bus e where b: "bus_bind new_bus (Some ids) (length ids) = (bus, e)" by fastforce
  with assms have "e = EC_ok" by (auto simp: sim_bind_def split: if_splits)
  with b bind_bound have "bound_bus bus ids" by simp
  then have "length ids \<le> StorageCapacity" by (simp add: bound_bus_def)
  with assms b show ?thesis
    by (auto simp: bound_sim_def sim_bind_def new_sim_def blit_def split: if_splits)
qed

lemma find_id_bound:
  assumes "take n ids = xs" "distinct xs" "i < n" "length xs = n"
  shows "find_id ids n (xs ! i) = i"
proof -
  have nth: "ids ! j = xs ! j" if "j < n" for j using assms(1) that by auto
  have "find (\<lambda>j. ids ! j = xs ! i) [0..<n] = Some i"
    unfolding find_Some_iff using assms nth by (intro exI [of _ i]) (auto simp: nth_eq_iff_index_eq)
  then show ?thesis by (simp add: find_id_def)
qed


section \<open>The write\<close>

lemma word16_le16: "word16 (ucast v) (ucast (drop_bit 8 v)) = v"
  by (rule bit_word_eqI) (auto simp: word16_def bit_simps dest: bit_imp_le_length)

lemma length_entry [simp]: "length (setpoint_entry c i sp) = 8"
  by (simp add: setpoint_entry_def le16_def)

lemma concat_entries:
  assumes "\<And>i. i < n \<Longrightarrow> length (f i) = k" "i < n" "j < k"
  shows "concat (map f [0..<n]) ! (i * k + j) = f i ! j"
  using assms
proof (induction n)
  case (Suc n)
  have len: "length (concat (map f [0..<n])) = n * k"
  proof -
    have "map (length \<circ> f) [0..<n] = replicate n k" using Suc.prems(1) by (intro replicate_eqI) auto
    then show ?thesis by (simp add: length_concat sum_list_replicate)
  qed
  show ?case
  proof (cases "i < n")
    case True
    have "i * k + j < Suc i * k" using Suc.prems(3) by simp
    also have "\<dots> \<le> n * k" using True by (intro mult_le_mono1) simp
    finally show ?thesis using Suc True len by (simp add: nth_append)
  next
    case False
    with Suc.prems have "i = n" by simp
    with Suc.prems(3) len show ?thesis by (simp add: nth_append)
  qed
qed simp

lemma length_write_parameters: "length (write_parameters bus sps) = 2 + 8 * fb_count bus"
  by (simp add: write_parameters_def length_concat o_def sum_list_triv)

lemma write_parameter:
  assumes "i < fb_count bus" "j < 8"
  shows "write_parameters bus sps ! (2 + 8 * i + j) = setpoint_entry (fb_config bus) (fb_ids bus ! i) (sps ! i) ! j"
  using concat_entries [of "fb_count bus" "\<lambda>i. setpoint_entry (fb_config bus) (fb_ids bus ! i) (sps ! i)" 8 i j] assms
  by (simp add: write_parameters_def mult.commute)

lemma write_entry:
  assumes "i < fb_count bus"
  shows "write_parameters bus sps ! (2 + 8 * i) = fb_ids bus ! i"
    and "word16 (write_parameters bus sps ! (2 + 8 * i + 2)) (write_parameters bus sps ! (2 + 8 * i + 3)) = position_counts (sps ! i)"
    and "word16 (write_parameters bus sps ! (2 + 8 * i + 6)) (write_parameters bus sps ! (2 + 8 * i + 7)) =
      velocity_word (fb_config bus) (sps ! i)"
  using write_parameter [OF assms, of 0] write_parameter [OF assms, of 2] write_parameter [OF assms, of 3]
    write_parameter [OF assms, of 6] write_parameter [OF assms, of 7]
  by (simp_all add: setpoint_entry_def le16_def word16_le16)

lemma apply_entries_all:
  assumes b: "bound_sim s ids" and d: "distinct ids" and n: "length ids \<le> StorageCapacity"
    and ps: "\<And>i. i < length ids \<Longrightarrow> ps ! (2 + 8 * i) = ids ! i \<and>
      word16 (ps ! (2 + 8 * i + 2)) (ps ! (2 + 8 * i + 3)) = pos i \<and>
      word16 (ps ! (2 + 8 * i + 6)) (ps ! (2 + 8 * i + 7)) = vel i"
    and k: "k \<le> length ids" "\<And>i. i < length ids - k \<Longrightarrow> fs_position s ! i = pos i \<and> fs_velocity s ! i = vel i"
  shows "\<exists>s'. apply_entries ps k (2 + 8 * (length ids - k)) s = (s', True) \<and> bound_sim s' ids \<and>
    (\<forall>i < length ids. fs_position s' ! i = pos i \<and> fs_velocity s' ! i = vel i)"
  using b k
proof (induction k arbitrary: s)
  case (Suc k)
  let ?i = "length ids - Suc k" let ?c = "2 + 8 * ?i"
  have i: "?i < length ids" "length ids - k = Suc ?i" using Suc.prems by simp_all
  have f: "find_id (fs_ids s) (fs_count s) (ps ! ?c) = ?i"
    using find_id_bound [of "length ids" "fs_ids s" ids ?i] ps [OF i(1)] Suc.prems(1) d i(1) by (simp add: bound_sim_def)
  let ?s = "s\<lparr> fs_acceleration := (fs_acceleration s)[?i := ps ! (?c + 1)],
    fs_position := (fs_position s)[?i := word16 (ps ! (?c + 2)) (ps ! (?c + 3))],
    fs_velocity := (fs_velocity s)[?i := word16 (ps ! (?c + 6)) (ps ! (?c + 7))] \<rparr>"
  have st: "apply_entries ps (Suc k) ?c s = apply_entries ps k (?c + 8) ?s"
    using f i(1) Suc.prems(1) by (simp add: Let_def bound_sim_def)
  have b1: "bound_sim ?s ids" using Suc.prems(1) by (simp add: bound_sim_def)
  have "fs_position ?s ! j = pos j \<and> fs_velocity ?s ! j = vel j" if "j < length ids - k" for j
    using that Suc.prems ps [OF i(1)] i n by (cases "j = ?i") (auto simp: bound_sim_def)
  from Suc.IH [OF b1 _ this] Suc.prems(2) st i(2) show ?case by (simp add: add.commute)
qed auto


section \<open>The exchange\<close>

lemma packet_wire:
  assumes "encode_instruction ident ins (Some ps) (length ps) = (pk, EC_ok)"
  shows "take (pk_size pk) (pk_bytes pk) = packet_of (ident, instruction_byte ins, ps)"
proof -
  have "ident \<noteq> 0xFF" "length ps \<le> 253"
    using assms by (auto simp: encode_instruction_def fill_packet_def split: if_splits)
  from wire_fill [OF this] assms show ?thesis by (auto simp: encode_instruction_def wire_bytes_def)
qed

lemma fresh_push:
  assumes "length ps \<le> 253"
  shows "\<exists>p f. push_bytes (packet_of (ident, e, ps)) (new_parser, new_frame) = (p, f) \<and> ff_ready f \<and> ff_id f = ident \<and>
    ff_error f = e \<and> ff_parameter_count f = length ps \<and> take (length ps) (ff_parameters f) = ps"
  using push_packet [OF assms holds_new new_frame_parameters, of ident e] by (auto simp: shows_report_def)

definition answer :: "bytes \<Rightarrow> (nat \<Rightarrow> u16) \<Rightarrow> (nat \<Rightarrow> u16) \<Rightarrow> nat \<Rightarrow> report" where
  "answer ids pos vel i = (ids ! i, 0, le16 (pos i) @ le16 (vel i) @ [0, 0, 120, 25])"

lemma response_wire:
  assumes "bound_sim s ids" "i < length ids" "0xFF \<notin> set ids" "fs_position s ! i = pos i" "fs_velocity s ! i = vel i"
  shows "wire_bytes (response s i) = packet_of (answer ids pos vel i)"
proof -
  have "fs_ids s ! i = ids ! i" using assms(1,2) unfolding bound_sim_def by (metis nth_take)
  moreover have "ids ! i \<noteq> 0xFF" using assms(2,3) by (metis nth_mem)
  moreover have "length (le16 (pos i) @ le16 (vel i) @ [0, 0, 120, 25]) = 8" by (simp add: le16_def)
  ultimately show ?thesis
    using wire_status [of "answer ids pos vel i"] assms(4,5)
    by (simp add: response_def status_packet_def answer_def sendable_def)
qed

lemma exchange_answers:
  assumes bus: "bound_bus bus ids" and sim: "bound_sim sim ids"
    and built: "build_cycle bus (Some sps) (length ids) pks = ((w, r), EC_ok)"
    and out: "length ids \<le> capacity" "length ids \<le> length out"
  shows "\<exists>sim' out'. exchange sim w r (Some out) capacity = ((sim', Some out'), EC_ok) \<and> bound_sim sim' ids \<and>
    map wire_bytes (take (length ids) out') =
      map (\<lambda>i. packet_of (answer ids (\<lambda>i. position_counts (sps ! i)) (\<lambda>i. velocity_word (fb_config bus) (sps ! i)) i)) [0..<length ids]"
proof -
  let ?n = "length ids" let ?ws = "write_parameters bus sps" and ?rs = "read_parameters bus"
  let ?pos = "\<lambda>i. position_counts (sps ! i)" and ?vel = "\<lambda>i. velocity_word (fb_config bus) (sps ! i)"
  have n: "fb_count bus = ?n" "1 \<le> ?n" "?n \<le> 31" "distinct ids" "0xFF \<notin> set ids" "take ?n (fb_ids bus) = ids" "fs_count sim = ?n"
    using bus sim by (simp_all add: bound_bus_def bound_sim_def)
  have ids: "fb_ids bus ! i = ids ! i" if "i < ?n" for i using n(6) that by (metis nth_take)
  have lw: "length ?ws = 2 + 8 * ?n" using n(1) by (simp add: length_write_parameters)
  have lr: "length ?rs = 2 + ?n" using n(1,6) by (simp add: read_parameters_def)
  have e: "encode_instruction 0xFE FI_sync_write (Some ?ws) (length ?ws) = (w, EC_ok)"
    "encode_instruction 0xFE FI_sync_read (Some ?rs) (length ?rs) = (r, EC_ok)"
    using built n(1) by (auto simp: build_cycle_def Let_def split: prod.splits if_splits)
  obtain pw fw where fw: "push_bytes (packet_of (0xFE, instruction_byte FI_sync_write, ?ws)) (new_parser, new_frame) = (pw, fw)"
    "ff_ready fw" "ff_id fw = 0xFE" "ff_error fw = instruction_byte FI_sync_write"
    "ff_parameter_count fw = length ?ws" "take (length ?ws) (ff_parameters fw) = ?ws"
    using fresh_push [of ?ws "0xFE" "instruction_byte FI_sync_write"] lw n(3) by auto
  obtain pr fr where fr: "push_bytes (packet_of (0xFE, instruction_byte FI_sync_read, ?rs)) (new_parser, new_frame) = (pr, fr)"
    "ff_ready fr" "ff_id fr = 0xFE" "ff_error fr = instruction_byte FI_sync_read"
    "ff_parameter_count fr = length ?rs" "take (length ?rs) (ff_parameters fr) = ?rs"
    using fresh_push [of ?rs "0xFE" "instruction_byte FI_sync_read"] lr n(3) by auto
  have w: "ff_parameters fw ! j = ?ws ! j" if "j < length ?ws" for j using fw(6) that by (metis nth_take)
  have r: "ff_parameters fr ! j = ?rs ! j" if "j < length ?rs" for j using fr(6) that by (metis nth_take)
  have heads: "?ws ! 0 = 41" "?ws ! 1 = 7" "?rs ! 0 = 56" "?rs ! 1 = 8"
    by (simp_all add: write_parameters_def read_parameters_def)
  have ps: "ff_parameters fw ! (2 + 8 * i) = ids ! i \<and>
      word16 (ff_parameters fw ! (2 + 8 * i + 2)) (ff_parameters fw ! (2 + 8 * i + 3)) = ?pos i \<and>
      word16 (ff_parameters fw ! (2 + 8 * i + 6)) (ff_parameters fw ! (2 + 8 * i + 7)) = ?vel i" if "i < ?n" for i
    using write_entry [of i bus sps] that n(1) ids [OF that] lw w [of "2 + 8 * i"] w [of "2 + 8 * i + 2"]
      w [of "2 + 8 * i + 3"] w [of "2 + 8 * i + 6"] w [of "2 + 8 * i + 7"] by simp
  obtain sim' where s': "apply_entries (ff_parameters fw) ?n 2 sim = (sim', True)" "bound_sim sim' ids"
    "\<forall>i < ?n. fs_position sim' ! i = ?pos i \<and> fs_velocity sim' ! i = ?vel i"
    using apply_entries_all [OF sim n(4) _ ps order.refl] n(3) by auto
  let ?out = "blit 0 (map (response sim') [0..<?n]) out"
  have "exchange sim w r (Some out) capacity = ((sim', Some ?out), EC_ok)"
    using packet_wire [OF e(1)] packet_wire [OF e(2)] fw fr w [of 0] w [of 1] r [of 0] r [of 1] heads lw lr n s'(1,2) out
    by (simp add: exchange_def Let_def bound_sim_def)
  moreover have "take ?n ?out = map (response sim') [0..<?n]" using out by (simp add: blit_def)
  moreover have "map wire_bytes (map (response sim') [0..<?n]) = map (\<lambda>i. packet_of (answer ids ?pos ?vel i)) [0..<?n]"
    using response_wire [OF s'(2) _ n(5)] s'(3) by simp
  ultimately show ?thesis using s'(2) by metis
qed


section \<open>The feedback\<close>

text \<open>The feedback of a servo after its answer.\<close>

definition position_feedback :: "u16 \<Rightarrow> double" where
  "position_feedback v = double_bits (fp_op Double A_mul (fp_of_int (uint v - 2048)) RadiansPerCount)"

definition velocity_feedback :: "FeetechConfig \<Rightarrow> u16 \<Rightarrow> double" where
  "velocity_feedback c v = double_bits (fp_op Double A_div
     (fp_of_int (decode_sign_magnitude v 0x8000)) (bits_double (fc_velocity_units c)))"

definition answered :: "FeetechBus \<Rightarrow> (nat \<Rightarrow> u16) \<Rightarrow> (nat \<Rightarrow> u16) \<Rightarrow> nat \<Rightarrow> bool" where
  "answered bus pos vel i \<longleftrightarrow> fb_received bus ! i \<and> fb_stale bus ! i = 0 \<and> fb_raw_status bus ! i = 0 \<and>
     sf_position (fb_feedback bus ! i) = position_feedback (pos i) \<and>
     sf_velocity (fb_feedback bus ! i) = velocity_feedback (fb_config bus) (vel i) \<and>
     ai_communication_ready (sf_info (fb_feedback bus ! i))"

lemma consume_answer:
  assumes b: "bound_bus bus ids" and i: "i < length ids" and pk: "wire_bytes pk = packet_of (answer ids pos vel i)"
  shows "bound_bus (consume_packet bus pk) ids \<and> fb_config (consume_packet bus pk) = fb_config bus \<and>
    answered (consume_packet bus pk) pos vel i \<and>
    (\<forall>j < length ids. j \<noteq> i \<longrightarrow> answered (consume_packet bus pk) pos vel j = answered bus pos vel j)"
proof -
  let ?ps = "le16 (pos i) @ le16 (vel i) @ [0, 0, 120, 25]"
  have l: "length ?ps = 8" by (simp add: le16_def)
  obtain p f where f: "push_bytes (wire_bytes pk) (new_parser, new_frame) = (p, f)" "ff_ready f" "ff_id f = ids ! i"
    "ff_error f = 0" "ff_parameter_count f = 8" "take 8 (ff_parameters f) = ?ps"
    using fresh_push [of ?ps "ids ! i" 0] l unfolding pk answer_def by auto
  have nth: "ff_parameters f ! j = ?ps ! j" if "j < 8" for j using f(6) that by (metis nth_take)
  have w: "word16 (ff_parameters f ! 0) (ff_parameters f ! 1) = pos i"
    "word16 (ff_parameters f ! 2) (ff_parameters f ! 3) = vel i"
    using nth [of 0] nth [of 1] nth [of 2] nth [of 3] by (simp_all add: le16_def word16_le16)
  have idx: "find_id (fb_ids bus) (fb_count bus) (ff_id f) = i"
    using find_id_bound [of "length ids" "fb_ids bus" ids i] b i f(3) by (simp add: bound_bus_def)
  have c: "consume_packet bus pk = consume_frame bus f"
    using f by (simp add: consume_packet_def wire_bytes_def)
  have n: "i < fb_count bus" "i < 32" using b i by (simp_all add: bound_bus_def)
  show ?thesis
    unfolding c consume_frame_def using b n f(4,5) idx w
    by (auto simp: Let_def bound_bus_def answered_def position_feedback_def velocity_feedback_def)
qed

lemma consume_answers:
  assumes "bound_bus bus ids" "map wire_bytes pks = map (\<lambda>i. packet_of (answer ids pos vel i)) ks" "set ks \<subseteq> {..<length ids}"
  shows "let bus' = fold (\<lambda>pk b. consume_packet b pk) pks bus in
    bound_bus bus' ids \<and> fb_config bus' = fb_config bus \<and>
    (\<forall>i < length ids. i \<in> set ks \<or> answered bus pos vel i \<longrightarrow> answered bus' pos vel i)"
  using assms
proof (induction pks arbitrary: bus ks)
  case (Cons pk pks)
  then obtain i ks' where ks: "ks = i # ks'" "wire_bytes pk = packet_of (answer ids pos vel i)"
    "map wire_bytes pks = map (\<lambda>i. packet_of (answer ids pos vel i)) ks'" by (cases ks) simp_all
  with Cons.prems consume_answer [of bus ids i pk pos vel]
  have c: "bound_bus (consume_packet bus pk) ids" "fb_config (consume_packet bus pk) = fb_config bus"
    "answered (consume_packet bus pk) pos vel i" "i < length ids"
    "\<forall>j < length ids. j \<noteq> i \<longrightarrow> answered (consume_packet bus pk) pos vel j = answered bus pos vel j" by auto
  from Cons.IH [OF c(1) ks(3)] Cons.prems(3) ks(1) c(2-5) show ?case by (auto simp: Let_def)
qed auto

lemma begin_cycle_bound: "bound_bus bus ids \<Longrightarrow> bound_bus (begin_feedback_cycle bus) ids"
  by (simp add: bound_bus_def begin_feedback_cycle_def)

lemma end_cycle_received:
  assumes "\<forall>i < fb_count bus. fb_received bus ! i"
  shows "end_feedback_cycle bus = bus"
proof -
  have "fold age_servo ks bus = bus" if "set ks \<subseteq> {..<fb_count bus}" for ks
    using that assms by (induction ks) (simp_all add: age_servo_def)
  from this [of "[0..<fb_count bus]"] show ?thesis by (simp add: end_feedback_cycle_def lessThan_atLeast0)
qed

lemma cycle_feedback:
  assumes bus: "bound_bus bus ids" and sim: "bound_sim sim ids"
    and built: "build_cycle bus (Some sps) (length ids) pks = ((w, r), EC_ok)"
    and out: "length ids \<le> capacity" "length ids \<le> length out" and i: "i < length ids"
  shows "\<exists>sim' out'. exchange sim w r (Some out) capacity = ((sim', Some out'), EC_ok) \<and>
    (let bus' = end_feedback_cycle (fold (\<lambda>pk b. consume_packet b pk) (take (length ids) out') (begin_feedback_cycle bus))
     in sf_position (bus_read_feedback bus' i) = position_feedback (position_counts (sps ! i)) \<and>
       sf_velocity (bus_read_feedback bus' i) = velocity_feedback (fb_config bus) (velocity_word (fb_config bus) (sps ! i)) \<and>
       ai_communication_ready (sf_info (bus_read_feedback bus' i)) \<and> \<not> bus_stale bus' i)"
proof -
  let ?pos = "\<lambda>i. position_counts (sps ! i)" and ?vel = "\<lambda>i. velocity_word (fb_config bus) (sps ! i)"
  obtain sim' out' where ex: "exchange sim w r (Some out) capacity = ((sim', Some out'), EC_ok)"
    "map wire_bytes (take (length ids) out') = map (\<lambda>i. packet_of (answer ids ?pos ?vel i)) [0..<length ids]"
    using exchange_answers [OF bus sim built out] by blast
  let ?bus = "fold (\<lambda>pk b. consume_packet b pk) (take (length ids) out') (begin_feedback_cycle bus)"
  have c: "bound_bus ?bus ids" "fb_config ?bus = fb_config bus" "\<forall>i < length ids. answered ?bus ?pos ?vel i"
    using consume_answers [OF begin_cycle_bound [OF bus] ex(2)]
    by (simp_all add: Let_def lessThan_atLeast0) (simp add: begin_feedback_cycle_def)
  then have e: "end_feedback_cycle ?bus = ?bus"
    by (intro end_cycle_received) (simp add: bound_bus_def answered_def)
  from c i ex(1) show ?thesis
    by (intro exI [of _ sim'] exI [of _ out'])
      (simp add: e Let_def bus_read_feedback_def bus_stale_def answered_def bound_bus_def)
qed


text \<open>The whole round, from the setpoints to the feedback.\<close>

lemma build_cycle_ok:
  assumes "bound_bus bus ids"
  shows "\<exists>w r. build_cycle bus (Some sps) (length ids) pks = ((w, r), EC_ok)"
proof -
  have n: "fb_count bus = length ids" "length ids \<le> 31" "take (length ids) (fb_ids bus) = ids"
    using assms by (simp_all add: bound_bus_def)
  have "length (write_parameters bus sps) \<le> 253" "length (read_parameters bus) \<le> 253"
    using n by (simp_all add: length_write_parameters read_parameters_def)
  with n(1) show ?thesis
    by (auto simp: build_cycle_def encode_instruction_def fill_packet_def Let_def split: prod.splits)
qed


section \<open>Staleness\<close>

definition silent_cycle :: "FeetechBus \<Rightarrow> FeetechBus" where
  "silent_cycle bus = end_feedback_cycle (begin_feedback_cycle bus)"

definition aged :: "nat \<Rightarrow> nat \<Rightarrow> nat" where
  "aged limit n = (if n < limit then n + 1 else n)"

lemma fold_age:
  assumes "k \<le> fb_count bus" "bound_bus bus ids" "\<forall>i < k. \<not> fb_received bus ! i"
  shows "bound_bus (fold age_servo [0..<k] bus) ids \<and>
    fb_config (fold age_servo [0..<k] bus) = fb_config bus \<and>
    fb_received (fold age_servo [0..<k] bus) = fb_received bus \<and>
    (\<forall>i. fb_stale (fold age_servo [0..<k] bus) ! i =
      (if i < k then aged (fc_stale_limit (fb_config bus)) (fb_stale bus ! i) else fb_stale bus ! i)) \<and>
    (\<forall>i. fb_feedback (fold age_servo [0..<k] bus) ! i =
      (if i < k \<and> fc_stale_limit (fb_config bus) \<le> aged (fc_stale_limit (fb_config bus)) (fb_stale bus ! i)
       then offline (fb_feedback bus ! i) else fb_feedback bus ! i))"
  using assms
proof (induction k)
  case (Suc k)
  let ?b = "fold age_servo [0..<k] bus"
  have ih: "bound_bus ?b ids" "fb_config ?b = fb_config bus" "fb_received ?b = fb_received bus"
    "\<forall>i. fb_stale ?b ! i = (if i < k then aged (fc_stale_limit (fb_config bus)) (fb_stale bus ! i) else fb_stale bus ! i)"
    "\<forall>i. fb_feedback ?b ! i =
      (if i < k \<and> fc_stale_limit (fb_config bus) \<le> aged (fc_stale_limit (fb_config bus)) (fb_stale bus ! i)
       then offline (fb_feedback bus ! i) else fb_feedback bus ! i)"
    using Suc by simp_all
  have k: "k < length (fb_stale ?b)" "k < length (fb_feedback ?b)"
    using ih(1) Suc.prems(1,2) by (simp_all add: bound_bus_def)
  have e: "fold age_servo [0..<Suc k] bus = age_servo k ?b" by simp
  have n: "\<not> fb_received ?b ! k" using ih(3) Suc.prems(3) by simp
  have "bound_bus (age_servo k ?b) ids" using ih(1) n by (simp add: age_servo_def bound_bus_def Let_def)
  then show ?case unfolding e using n ih(2-5) k
    by (auto simp: age_servo_def aged_def Let_def nth_list_update less_Suc_eq)
qed simp

lemma silent_step:
  assumes "bound_bus bus ids" "i < length ids"
  shows "bound_bus (silent_cycle bus) ids" "fb_config (silent_cycle bus) = fb_config bus"
    "fb_stale (silent_cycle bus) ! i = aged (fc_stale_limit (fb_config bus)) (fb_stale bus ! i)"
    "fb_feedback (silent_cycle bus) ! i =
      (if fc_stale_limit (fb_config bus) \<le> aged (fc_stale_limit (fb_config bus)) (fb_stale bus ! i)
       then offline (fb_feedback bus ! i) else fb_feedback bus ! i)"
proof -
  let ?b = "begin_feedback_cycle bus"
  have b: "bound_bus ?b ids" "fb_count ?b = length ids" "fb_config ?b = fb_config bus" "fb_stale ?b = fb_stale bus"
    "fb_feedback ?b = fb_feedback bus"
    using begin_cycle_bound [OF assms(1)] assms(1) by (simp_all add: begin_feedback_cycle_def bound_bus_def)
  have "\<forall>j < fb_count ?b. \<not> fb_received ?b ! j"
    using assms(1) by (simp add: begin_feedback_cycle_def bound_bus_def blit_def nth_append)
  from fold_age [OF order.refl b(1) this] assms(2) show
    "bound_bus (silent_cycle bus) ids" "fb_config (silent_cycle bus) = fb_config bus"
    "fb_stale (silent_cycle bus) ! i = aged (fc_stale_limit (fb_config bus)) (fb_stale bus ! i)"
    "fb_feedback (silent_cycle bus) ! i =
      (if fc_stale_limit (fb_config bus) \<le> aged (fc_stale_limit (fb_config bus)) (fb_stale bus ! i)
       then offline (fb_feedback bus ! i) else fb_feedback bus ! i)"
    by (simp_all add: silent_cycle_def end_feedback_cycle_def b)
qed

lemma offline_idem [simp]: "offline (offline f) = offline f"
  by (simp add: offline_def)

lemma silent_cycles:
  assumes "bound_bus bus ids" "i < length ids" "fb_stale bus ! i = 0" "0 < fc_stale_limit (fb_config bus)"
  shows "let bus' = (silent_cycle ^^ n) bus; limit = fc_stale_limit (fb_config bus) in
    bound_bus bus' ids \<and> fb_config bus' = fb_config bus \<and> fb_stale bus' ! i = min n limit \<and>
    fb_feedback bus' ! i = (if n < limit then fb_feedback bus ! i else offline (fb_feedback bus ! i))"
proof (induction n)
  case (Suc n)
  let ?b = "(silent_cycle ^^ n) bus"
  from Suc have b: "bound_bus ?b ids" "fb_config ?b = fb_config bus" "fb_stale ?b ! i = min n (fc_stale_limit (fb_config bus))"
    "fb_feedback ?b ! i = (if n < fc_stale_limit (fb_config bus) then fb_feedback bus ! i else offline (fb_feedback bus ! i))"
    by (simp_all add: Let_def)
  from silent_step [OF b(1) assms(2)] b(2-4) show ?case
    by (auto simp: Let_def aged_def min_def)
qed (use assms in \<open>simp add: Let_def\<close>)

lemma silence:
  assumes "bound_bus bus ids" "i < length ids" "fb_stale bus ! i = 0" "0 < fc_stale_limit (fb_config bus)"
  shows "let f = bus_read_feedback bus i; f' = bus_read_feedback ((silent_cycle ^^ n) bus) i in
    (ai_communication_ready (sf_info f') \<longleftrightarrow> ai_communication_ready (sf_info f) \<and> n < fc_stale_limit (fb_config bus)) \<and>
    (bus_stale ((silent_cycle ^^ n) bus) i \<longleftrightarrow> 0 < n) \<and> sf_position f' = sf_position f"
  using silent_cycles [OF assms, of n] assms
  by (auto simp: Let_def bus_read_feedback_def bus_stale_def bound_bus_def offline_def)


section \<open>Velocities\<close>

lemma sign_magnitude_back:
  assumes "\<bar>v\<bar> < 2 ^ 15"
  shows "decode_sign_magnitude (encode_sign_magnitude v 0x8000) 0x8000 = v"
proof -
  define m :: u32 where "m = word_of_int \<bar>v\<bar>"
  have m: "uint m = \<bar>v\<bar>" using assms by (simp add: m_def uint_word_of_int)
  have mask: "(ucast (0x8000 :: u16) - 1 :: u32) = mask 15" by (simp add: mask_eq_exp_minus_1)
  have "take_bit 15 (uint m) = uint m" using assms m by (simp add: take_bit_int_eq_self_iff)
  then have "uint (take_bit 15 m) = uint m" by (simp only: unsigned_take_bit_eq)
  then have "take_bit 15 m = m" by (simp only: word_uint_eq_iff)
  then have low: "m AND mask 15 = m" by (simp only: take_bit_eq_mask)
  have top: "bit m n \<Longrightarrow> n < 15" for n
    using low by (metis bit_and_iff bit_mask_iff)
  let ?e = "encode_sign_magnitude v 0x8000"
  have b15: "bit (0x8000 :: u32) n \<longleftrightarrow> n = 15" "bit (0x8000 :: int) n \<longleftrightarrow> n = 15" for n
    using bit_exp_iff [where 'a = u32, of 15 n] bit_exp_iff [where 'a = int, of 15 n] by auto
  have c: "(ucast (0x8000 :: u16) :: u32) = 0x8000" by simp
  have e: "bit ?e n \<longleftrightarrow> (v < 0 \<and> n = 15) \<or> bit m n" for n
    unfolding encode_sign_magnitude_def Let_def mask m_def [symmetric] low
    using top [of n] by (cases "v < 0") (auto simp: c bit_ucast_iff bit_or_iff b15)
  have s: "?e AND 0x8000 \<noteq> 0 \<longleftrightarrow> v < 0"
    using and_exp_eq_0_iff_not_bit [of ?e 15] e [of 15] top [of 15] by auto
  have "(ucast ?e :: u32) AND mask 15 = m"
    by (rule bit_word_eqI) (use e top in \<open>auto simp: bit_and_iff bit_mask_iff bit_ucast_iff\<close>)
  with s m show ?thesis unfolding decode_sign_magnitude_def Let_def mask by simp
qed

lemma round_ratio_inf: "round_ratio Double n d \<le> inf_bits Double"
  by (simp add: round_ratio_def Let_def split: prod.split)

lemma special_double: "decode Double (encode Double FP_nan) = FP_nan"
  "decode Double (encode Double (FP_inf s)) = FP_inf s"
  by (cases s; simp add: encode_def decode_def nan_bits_def inf_bits_def sign_weight_def Let_def)+

lemma rounded_sign:
  "\<exists>m' e'. decode Double (encode Double (FP_fin False m e)) \<in> {FP_fin False m' e', FP_inf False, FP_nan}"
proof -
  have "encode Double (FP_fin False m e) \<le> inf_bits Double" by (simp add: encode_def round_ratio_inf)
  also have "inf_bits Double < sign_weight Double" by (simp add: inf_bits_def sign_weight_def)
  finally have "encode Double (FP_fin False m e) div sign_weight Double = 0" by simp
  then show ?thesis by (simp add: decode_def Let_def)
qed

lemma wrap_nonneg:
  "uint (wrap_units (FP_fin False m e) 32768) < 32768"
proof -
  obtain m' e' where r: "fp_round (FP_fin False m e) = FP_fin False m' e'" "0 \<le> e'" by (cases "0 \<le> e") simp_all
  let ?x = "(m' * 2 ^ nat e') mod 32768"
  have "fp_mod (FP_fin False m' e') (fp_of_int 32768) = FP_fin False ?x 0"
    using r(2) by (simp add: fp_of_int_def)
  moreover have "\<not> fp_less (FP_fin False ?x 0) (fp_of_int 0)"
    by (simp add: fp_of_int_def at_exponent_def signed_int_def)
  ultimately have "wrap_units (FP_fin False m e) 32768 = word_of_int (int ?x)"
    using r(1) by (simp add: wrap_units_def fp_finite_def Let_def signed_int_def)
  moreover have "uint (word_of_int (int y) :: u16) = int y" if "y < 32768" for y
    using that by (simp add: unsigned_of_nat take_bit_nat_eq_self_iff)
  ultimately show ?thesis by simp
qed

text \<open>The units of a speed on the wire and, with the sign, in the feedback.\<close>

definition velocity_units :: "FeetechConfig \<Rightarrow> ServoSetpoints \<Rightarrow> int" where
  "velocity_units c sp =
     (let v = bits_double (sp_velocity sp);
          units = uint (wrap_units (fp_op Double A_mul (fp_abs v) (bits_double (fc_velocity_units c))) 32768)
      in if fp_less v (fp_of_int 0) then - units else units)"

lemma velocity_decoded:
  assumes "positive_double (fc_velocity_units c)"
  shows "decode_sign_magnitude (velocity_word c sp) 0x8000 = velocity_units c sp"
proof -
  let ?v = "bits_double (sp_velocity sp)" and ?u = "bits_double (fc_velocity_units c)"
  obtain m e where u: "?u = FP_fin False m e"
    using assms by (cases ?u) (auto simp: positive_double_def double_finite_def fp_finite_def fp_of_int_def
        at_exponent_def signed_int_def mult_less_0_iff split: if_splits)
  have "uint (wrap_units (fp_op Double A_mul (fp_abs ?v) ?u) 32768) < 32768"
  proof (cases "fp_abs ?v")
    case (FP_fin s n d)
    then have "\<not> s" by (cases ?v) auto
    with FP_fin u have "fp_mul (fp_abs ?v) ?u = FP_fin False (n * m) (d + e)" by simp
    with rounded_sign [of "n * m" "d + e"] wrap_nonneg show ?thesis
      by (auto simp: fp_op_def wrap_units_def [of "FP_inf False"] wrap_units_def [of FP_nan] fp_finite_def)
  qed (use u in \<open>simp_all add: fp_op_def special_double wrap_units_def fp_finite_def\<close>)
  then have "\<bar>velocity_units c sp\<bar> < 2 ^ 15" by (simp add: velocity_units_def Let_def)
  from sign_magnitude_back [OF this] show ?thesis
    by (simp add: velocity_word_def velocity_units_def Let_def)
qed

lemma cycle_round:
  assumes "bound_bus bus ids" "bound_sim sim ids" "positive_double (fc_velocity_units (fb_config bus))"
    and "length ids \<le> capacity" "length ids \<le> length out" "i < length ids"
  shows "\<exists>w r sim' out'. build_cycle bus (Some sps) (length ids) pks = ((w, r), EC_ok) \<and>
    exchange sim w r (Some out) capacity = ((sim', Some out'), EC_ok) \<and>
    (let bus' = end_feedback_cycle (fold (\<lambda>pk b. consume_packet b pk) (take (length ids) out') (begin_feedback_cycle bus));
         f = bus_read_feedback bus' i; sp = sps ! i; c = fb_config bus
     in sf_position f = double_bits (fp_op Double A_mul (fp_of_int (uint (position_counts sp) - 2048)) RadiansPerCount) \<and>
       sf_velocity f = double_bits (fp_op Double A_div (fp_of_int (velocity_units c sp)) (bits_double (fc_velocity_units c))) \<and>
       ai_communication_ready (sf_info f) \<and> \<not> bus_stale bus' i)"
proof -
  obtain w r where b: "build_cycle bus (Some sps) (length ids) pks = ((w, r), EC_ok)"
    using build_cycle_ok [OF assms(1)] by blast
  from cycle_feedback [OF assms(1,2) b assms(4-6)] b show ?thesis
    unfolding Let_def position_feedback_def velocity_feedback_def velocity_decoded [OF assms(3)] by blast
qed

end
