(* ===== verification/Wcet.thy ===== *)
theory Wcet
  imports VmRun
begin

text \<open>
  The work-unit rules and the timing report of an artifact (\<open>core/st/wcet.h\<close>), and the rules against
  the interpreter: an opcode with the rule \<open>fixed_one\<close> costs the unit of its dispatch and nothing else.
\<close>

datatype WcetBudgetRule =
    WB_unreviewed | WB_fixed_one | WB_string_capacity | WB_object_size | WB_standard_function | WB_output_count

datatype WcetTimingClass = WT_fixed | WT_linear_bytes | WT_standard_function | WT_native_fb

fun timing_index :: "WcetTimingClass \<Rightarrow> nat" where
  "timing_index WT_fixed = 0"
| "timing_index WT_linear_bytes = 1"
| "timing_index WT_standard_function = 2"
| "timing_index WT_native_fb = 3"

record WcetOpcodeCost =
  wo_budget_rule :: WcetBudgetRule
  wo_timing_class :: WcetTimingClass

abbreviation (input) "ReviewedFormatVersion \<equiv> 6 :: nat"
abbreviation (input) "ReviewedOpcodeCount \<equiv> 87 :: nat"

definition op_cost :: "Op \<Rightarrow> WcetBudgetRule \<times> WcetTimingClass" where
  "op_cost op = (case op of
     Op_string k \<Rightarrow>
       (if k \<in> {S_copy, S_copy_const, S_compare, S_index, S_length} then (WB_string_capacity, WT_linear_bytes)
        else if k = S_standard then (WB_standard_function, WT_standard_function)
        else (WB_fixed_one, WT_fixed))
   | Op_fb k \<Rightarrow>
       (if k \<in> {FB_store_object, FB_load_object} then (WB_object_size, WT_linear_bytes)
        else if k = FB_call then (WB_fixed_one, WT_native_fb) else (WB_fixed_one, WT_fixed))
   | Op_standard_scalar \<Rightarrow> (WB_standard_function, WT_standard_function)
   | Op_commit_outputs \<Rightarrow> (WB_output_count, WT_linear_bytes)
   | Op_copy_bytes \<Rightarrow> (WB_fixed_one, WT_linear_bytes)
   | _ \<Rightarrow> (WB_fixed_one, WT_fixed))"

text \<open>The switch on the opcode byte; a byte behind the last enumerator is unreviewed.\<close>

definition wcet_opcode_cost :: "u8 \<Rightarrow> WcetOpcodeCost" where
  "wcet_opcode_cost b = (case op_of_byte b of
     Some op \<Rightarrow> (case op_cost op of (r, t) \<Rightarrow> \<lparr> wo_budget_rule = r, wo_timing_class = t \<rparr>)
   | None \<Rightarrow> \<lparr> wo_budget_rule = WB_unreviewed, wo_timing_class = WT_fixed \<rparr>)"

lemma reviewed_opcodes: "length op_table = ReviewedOpcodeCount"
  by (simp add: op_table_def)

definition wcet_budget_rule_name :: "WcetBudgetRule \<Rightarrow> string" where
  "wcet_budget_rule_name r = (case r of
     WB_fixed_one \<Rightarrow> ''fixed_one'' | WB_string_capacity \<Rightarrow> ''string_capacity''
   | WB_object_size \<Rightarrow> ''object_size'' | WB_standard_function \<Rightarrow> ''standard_function''
   | WB_output_count \<Rightarrow> ''output_count'' | WB_unreviewed \<Rightarrow> ''unreviewed'')"

definition wcet_timing_class_name :: "WcetTimingClass \<Rightarrow> string" where
  "wcet_timing_class_name t = (case t of
     WT_fixed \<Rightarrow> ''fixed'' | WT_linear_bytes \<Rightarrow> ''linear_bytes''
   | WT_standard_function \<Rightarrow> ''standard_function'' | WT_native_fb \<Rightarrow> ''native_fb'')"


section \<open>The report\<close>

record WcetReport =
  wr_bytecode_format_version :: nat
  wr_opcode_table_reviewed :: bool
  wr_bounded :: bool
  wr_wall_clock_bound_available :: bool
  wr_requires_platform_calibration :: bool
  wr_requires_native_fb_profile :: bool
  wr_worst_case_work_units :: nat
  wr_max_call_depth :: nat
  wr_max_instance_depth :: nat
  wr_program_count :: nat
  wr_native_fb_instances :: nat
  wr_artifact_opcode_counts :: "nat list"
  wr_unreviewed_opcodes :: nat

abbreviation (input) "uint32_max \<equiv> 4294967295 :: nat"

definition increment :: "nat \<Rightarrow> nat" where
  "increment v = (if v \<noteq> uint32_max then v + 1 else v)"

definition add_size :: "nat \<Rightarrow> nat \<Rightarrow> nat" where
  "add_size v added = (let room = uint32_max - v in v + (if added > room then room else added))"

definition add_opcode :: "u8 \<Rightarrow> WcetReport \<Rightarrow> WcetReport" where
  "add_opcode b r =
     (let cost = wcet_opcode_cost b; timing = timing_index (wo_timing_class cost)
      in if wo_budget_rule cost = WB_unreviewed \<or> timing \<ge> length (wr_artifact_opcode_counts r)
         then r\<lparr> wr_unreviewed_opcodes := increment (wr_unreviewed_opcodes r) \<rparr>
         else r\<lparr> wr_artifact_opcode_counts := (wr_artifact_opcode_counts r)
                   [timing := increment (wr_artifact_opcode_counts r ! timing)] \<rparr>)"

text \<open>The loop over the instruction offsets, in a region and in a program.\<close>

definition add_instructions :: "bytes \<Rightarrow> nat list \<Rightarrow> WcetReport \<Rightarrow> WcetReport" where
  "add_instructions code offsets = fold (\<lambda>offset r.
     if offset \<ge> length code then r\<lparr> wr_unreviewed_opcodes := increment (wr_unreviewed_opcodes r) \<rparr>
     else add_opcode (code ! offset) r) offsets"

definition add_region :: "SfcRegionInfo \<Rightarrow> WcetReport \<Rightarrow> WcetReport" where
  "add_region region = add_instructions (rg_code region) (rg_instruction_offsets region)"

definition add_network :: "SfcNetworkInfo \<Rightarrow> WcetReport \<Rightarrow> WcetReport" where
  "add_network network r =
     fold (\<lambda>a. add_region (sa_region a)) (sn_actions network)
       (fold (\<lambda>t. add_region (sx_condition t)) (sn_transitions network) r)"

definition add_program_body :: "program_body \<Rightarrow> WcetReport \<Rightarrow> WcetReport" where
  "add_program_body b r =
     (let r1 = r\<lparr> wr_opcode_table_reviewed :=
            wr_opcode_table_reviewed r \<and> pb_format_version b = ReviewedFormatVersion,
          wr_program_count := increment (wr_program_count r),
          wr_native_fb_instances := add_size (wr_native_fb_instances r) (length (pb_fbs b)) \<rparr>
      in fold add_network (pb_sfc_networks b) (add_instructions (pb_code b) (pb_instruction_offsets b) r1))"

fun add_artifact_programs :: "Program \<Rightarrow> WcetReport \<Rightarrow> WcetReport" where
  "add_artifact_programs (Program b []) r = add_program_body b r"
| "add_artifact_programs (Program b (c # cs)) r = fold add_artifact_programs (c # cs) r"

definition make_wcet_report :: "Program \<Rightarrow> WcetReport" where
  "make_wcet_report p =
     (let b = body p;
          r0 = \<lparr> wr_bytecode_format_version = pb_format_version b,
            wr_opcode_table_reviewed = (pb_format_version b = ReviewedFormatVersion),
            wr_bounded = pb_worst_case_bounded b, wr_wall_clock_bound_available = False,
            wr_requires_platform_calibration = False, wr_requires_native_fb_profile = False,
            wr_worst_case_work_units = (if pb_worst_case_bounded b then pb_worst_case_instructions b else 0),
            wr_max_call_depth = pb_max_call_depth b, wr_max_instance_depth = pb_max_instance_depth b,
            wr_program_count = 0, wr_native_fb_instances = 0, wr_artifact_opcode_counts = [0, 0, 0, 0],
            wr_unreviewed_opcodes = 0 \<rparr>;
          r = add_artifact_programs p r0;
          count = (\<lambda>t. wr_artifact_opcode_counts r ! timing_index t);
          native = wr_native_fb_instances r \<noteq> 0 \<or> count WT_native_fb \<noteq> 0
      in r\<lparr> wr_requires_native_fb_profile := native,
           wr_requires_platform_calibration :=
             count WT_linear_bytes \<noteq> 0 \<or> count WT_standard_function \<noteq> 0 \<or> native \<rparr>)"


section \<open>What the report counts\<close>

text \<open>The opcode bytes of an artifact, \<open>None\<close> for an offset behind the code.\<close>

definition opcodes_at :: "bytes \<Rightarrow> nat list \<Rightarrow> u8 option list" where
  "opcodes_at code offsets = map (\<lambda>o1. if o1 < length code then Some (code ! o1) else None) offsets"

definition region_opcodes :: "SfcRegionInfo \<Rightarrow> u8 option list" where
  "region_opcodes region = opcodes_at (rg_code region) (rg_instruction_offsets region)"

definition body_opcodes :: "program_body \<Rightarrow> u8 option list" where
  "body_opcodes b = opcodes_at (pb_code b) (pb_instruction_offsets b) @
     concat (map (\<lambda>n. concat (map (region_opcodes \<circ> sx_condition) (sn_transitions n)) @
       concat (map (region_opcodes \<circ> sa_region) (sn_actions n))) (pb_sfc_networks b))"

fun leaf_bodies :: "Program \<Rightarrow> program_body list" where
  "leaf_bodies (Program b []) = [b]"
| "leaf_bodies (Program b (c # cs)) = concat (map leaf_bodies (c # cs))"

definition in_class :: "nat \<Rightarrow> u8 option \<Rightarrow> bool" where
  "in_class k x = (case x of None \<Rightarrow> False | Some b \<Rightarrow>
     wo_budget_rule (wcet_opcode_cost b) \<noteq> WB_unreviewed \<and> timing_index (wo_timing_class (wcet_opcode_cost b)) = k)"

definition unreviewed :: "u8 option \<Rightarrow> bool" where
  "unreviewed x = (case x of None \<Rightarrow> True | Some b \<Rightarrow> wo_budget_rule (wcet_opcode_cost b) = WB_unreviewed)"

text \<open>A report that has counted these opcodes, saturating at the largest 32-bit number.\<close>

definition sat :: "nat \<Rightarrow> nat" where "sat n = min n uint32_max"

definition counts :: "u8 option list \<Rightarrow> WcetReport \<Rightarrow> bool" where
  "counts xs r \<longleftrightarrow> length (wr_artifact_opcode_counts r) = 4 \<and>
     (\<forall>k < 4. wr_artifact_opcode_counts r ! k = sat (length (filter (in_class k) xs))) \<and>
     wr_unreviewed_opcodes r = sat (length (filter unreviewed xs))"

lemma increment_sat: "increment (sat n) = sat (Suc n)"
  by (auto simp: increment_def sat_def)

lemma timing_small: "timing_index t < 4"
  by (cases t) simp_all

lemma counts_add_opcode: "counts xs r \<Longrightarrow> counts (xs @ [Some b]) (add_opcode b r)"
  using timing_small [of "wo_timing_class (wcet_opcode_cost b)"]
  by (auto simp: counts_def add_opcode_def Let_def in_class_def unreviewed_def increment_sat nth_list_update)

lemma counts_instructions: "counts xs r \<Longrightarrow> counts (xs @ opcodes_at code offsets) (add_instructions code offsets r)"
proof (induction offsets arbitrary: xs r)
  case Nil
  then show ?case by (simp add: add_instructions_def opcodes_at_def)
next
  case (Cons offset offsets)
  let ?x = "if offset < length code then Some (code ! offset) else None"
  let ?r = "if offset \<ge> length code then r\<lparr> wr_unreviewed_opcodes := increment (wr_unreviewed_opcodes r) \<rparr>
     else add_opcode (code ! offset) r"
  have "counts (xs @ [?x]) ?r"
    using Cons.prems counts_add_opcode [OF Cons.prems, of "code ! offset"]
    by (auto simp: counts_def in_class_def unreviewed_def increment_sat)
  from Cons.IH [OF this] show ?case by (simp add: add_instructions_def opcodes_at_def)
qed

lemma counts_fold:
  assumes "\<And>y xs r. counts xs r \<Longrightarrow> counts (xs @ f y) (g y r)" "counts xs r"
  shows "counts (xs @ concat (map f ys)) (fold g ys r)"
  using assms(2)
proof (induction ys arbitrary: xs r)
  case (Cons y ys)
  from Cons.IH [OF assms(1) [OF Cons.prems]] show ?case by simp
qed simp

lemma counts_region: "counts xs r \<Longrightarrow> counts (xs @ region_opcodes g) (add_region g r)"
  by (simp add: region_opcodes_def add_region_def counts_instructions)

lemma counts_network:
  assumes "counts xs r"
  shows "counts (xs @ concat (map (region_opcodes \<circ> sx_condition) (sn_transitions n)) @
    concat (map (region_opcodes \<circ> sa_region) (sn_actions n))) (add_network n r)"
  unfolding add_network_def append_assoc [symmetric]
  by (intro counts_fold assms) (simp_all add: counts_region)

lemma counts_body:
  assumes "counts xs r"
  shows "counts (xs @ body_opcodes b) (add_program_body b r)"
proof -
  have "counts xs (r\<lparr> wr_opcode_table_reviewed := x, wr_program_count := y, wr_native_fb_instances := z \<rparr>)" for x y z
    using assms by (simp add: counts_def)
  from counts_instructions [OF this] show ?thesis
    unfolding body_opcodes_def add_program_body_def Let_def append_assoc [symmetric]
    by (intro counts_fold) (use counts_network in \<open>simp_all add: append_assoc\<close>)
qed

lemma counts_artifact: "counts xs r \<Longrightarrow> counts (xs @ concat (map body_opcodes (leaf_bodies p))) (add_artifact_programs p r)"
proof (induction p arbitrary: xs r)
  case (Program b cs)
  have all: "counts (xs @ concat (map body_opcodes (concat (map leaf_bodies ps)))) (fold add_artifact_programs ps r)"
    if "set ps \<subseteq> set cs" "counts xs r" for ps xs r
    using that
  proof (induction ps arbitrary: xs r)
    case (Cons p ps)
    then have "counts (xs @ concat (map body_opcodes (leaf_bodies p))) (add_artifact_programs p r)"
      using Program.IH by simp
    from Cons.IH [OF _ this] Cons.prems(1) show ?case by simp
  qed simp
  show ?case
  proof (cases cs)
    case Nil
    with Program.prems show ?thesis by (simp add: counts_body)
  next
    case (Cons c cs')
    with all [OF order.refl Program.prems] show ?thesis by simp
  qed
qed

lemma report_counts:
  "counts (concat (map body_opcodes (leaf_bodies p))) (make_wcet_report p)"
proof -
  let ?r0 = "\<lambda>v a c w d e. \<lparr> wr_bytecode_format_version = v, wr_opcode_table_reviewed = a, wr_bounded = c,
    wr_wall_clock_bound_available = False, wr_requires_platform_calibration = False, wr_requires_native_fb_profile = False,
    wr_worst_case_work_units = w, wr_max_call_depth = d, wr_max_instance_depth = e, wr_program_count = 0,
    wr_native_fb_instances = 0, wr_artifact_opcode_counts = [0, 0, 0, 0], wr_unreviewed_opcodes = 0 \<rparr>"
  have "counts [] (?r0 v a c w d e)" for v a c w d e
    by (auto simp: counts_def sat_def nth_Cons split: nat.splits)
  from counts_artifact [OF this, where p = p] show ?thesis
    unfolding make_wcet_report_def Let_def by (simp add: counts_def)
qed


section \<open>The rules hold in the interpreter\<close>

lemma fixed_one_weightless: "fst (op_cost op) = WB_fixed_one \<Longrightarrow> weightless op"
proof (cases op)
  case (Op_string k)
  then show "fst (op_cost op) = WB_fixed_one \<Longrightarrow> weightless op"
    by (cases k) (simp_all add: op_cost_def weightless_def)
qed (auto simp: op_cost_def weightless_def split: if_splits)

interpretation unspent: machine_frame cx "\<lambda>m. mc_remaining m = r"
  for cx :: "'n vm_context" and r
  by unfold_locales simp_all

lemma fixed_one_op:
  assumes "wo_budget_rule (wcet_opcode_cost b) = WB_fixed_one" "op_of_byte b = Some op"
  shows "holds_after (\<lambda>m'. mc_remaining m' = mc_remaining m) (exec_op cx op m)"
proof -
  have "fst (op_cost op) = WB_fixed_one" using assms by (simp add: wcet_opcode_cost_def split: prod.splits)
  then show ?thesis by (intro unspent.weightless_instruction fixed_one_weightless) simp_all
qed

end
