(* ===== verification/Spec2Isabelle.thy ===== *)
theory Spec2Isabelle
  imports Manifest FbBase FbBasic RtIpc LexerDates PlantRun TransportProps FeetechCycle Wcet
begin

text \<open>
  A verification development for the PLCopen motion and IEC 61131-3 runtime under \<open>src/core\<close>: the
  real-time containers, the ST type system, the lexer, the compiled artifact, the process image, the
  virtual machine, the standard function blocks, the task scheduler and the fieldbus adapters, translated
  from the C++ headers.

  \<^bold>\<open>Parts and how they interact.\<close> The compiler (not modelled, apart from the layout of located
  variables) produces a \<open>Program\<close>. \<open>ConfigurationRuntime\<close> loads a configuration of it: for every
  resource it merges the located variables of the resource's programs into one process image, and
  loads one VM instance per program mapping. A host submits inputs, queues forces and restores,
  signals boundaries, and gives time quanta; the runtime starts tasks at boundaries, runs their mappings in
  a transaction on the image and publishes outputs when a task completes. The process image exchanges
  data with the host through lock-free three-slot channels; other processes exchange through the
  shared-memory channels of \<open>rt/ipc_channel.h\<close>, on which the fieldbus transport carries setpoints and
  feedback between the executor and a bus process.

  \<^bold>\<open>Theories.\<close>
    \<^item> \<open>Prelude\<close>: byte strings, little-endian words, C++ division, folds in the option monad.
    \<^item> \<open>RtError\<close> (\<open>rt/error.h\<close>, \<open>error_text.h\<close>, \<open>error_diag.h\<close>, \<open>cycle.h\<close>): error codes and cycle time.
    \<^item> \<open>RtContainers\<close> (\<open>rt/static_vector.h\<close>, \<open>rt/spsc_queue.h\<close>): containers, the locale
      \<open>bounded_fifo\<close> and the two-thread step relation of the queue.
    \<^item> \<open>RtIpc\<close> (\<open>rt/ipc_channel.h\<close>): the owned ring, a second instance of \<open>bounded_fifo\<close>, and the
      double buffer.
    \<^item> \<open>TypeSystem\<close> (\<open>st/type_desc.h\<close>): the type table, its layouts and dump, the locale
      \<open>table_extension\<close> that all declarations instantiate; \<open>ScalarTypes\<close> (\<open>st/types.h\<close>): scalar
      types, widening and the canonical 64-bit slot.
    \<^item> \<open>Tasking\<close> (\<open>st/tasking.h\<close>) and \<open>Bytecode\<close> (\<open>st/bytecode.h\<close>): the records of a configuration
      and of an artifact, opcodes, storage footprint; \<open>Manifest\<close>: the canonical manifest, shown to be
      a prefix code of everything it covers.
    \<^item> \<open>ImageChannel\<close>, \<open>ImageAccess\<close>, \<open>ImageForce\<close>, \<open>ProcessImage\<close>, \<open>ImageSnapshot\<close>
      (\<open>st/process_image.h\<close>): the channels (sequentially, with the locale \<open>mailbox\<close>, and access by
      access), values and dirty bits in an image, forces, the operations, and the snapshot format;
      \<open>ImageLayout\<close> (\<open>st/sema.h\<close>, \<open>register_location\<close>) produces the layouts.
      \<open>ProcessImageProps\<close>, \<open>ImageRoundTrip\<close> and \<open>ImageOps\<close> hold the invariant \<open>image_wf\<close> and what
      every operation does on it; \<open>image_reach\<close> is the machine of all operations.
    \<^item> \<open>Diag\<close> (\<open>st/diag.h\<close>) and \<open>Lexer\<close> (\<open>st/lexer.h\<close>, \<open>st/token.h\<close>): diagnostics and the lexer.
      \<open>LexerProps\<close> shows that it moves on with every token, \<open>LexerLiterals\<close> and \<open>LexerDates\<close> relate
      its integers and dates to the numbers and to a calendar.
    \<^item> \<open>FbBasic\<close> (\<open>fb/basic.h\<close>) and \<open>FbBase\<close> (\<open>fb/base.h\<close>): the standard blocks and the execute, enable
      and start-pulse protocols.
    \<^item> \<open>Ieee\<close>: the binary floating-point formats and the exact, once rounded operations on them that
      the interpreter and the slots use.
    \<^item> \<open>VmMemory\<close>, \<open>VmMachine\<close>, \<open>VmScalar\<close>, \<open>VmStandard\<close>, \<open>VmMove\<close>, \<open>VmString\<close> and \<open>VmExec\<close>
      (\<open>st/vm.h\<close>, \<open>Instance::resume\<close>): operand decoding, typed loads and stores, the instructions and
      the dispatch \<open>exec_op\<close>; the locale \<open>machine_property\<close> turns a property that the primitive
      actions keep into one that every instruction keeps.
    \<^item> \<open>VmInstance\<close>, \<open>SfcRunner\<close> and \<open>VmRun\<close> (\<open>st/vm.h\<close>): the state of an instance and its
      operations, the runner of the sequential function charts, and the execution slice with its
      budget; \<open>VmProps\<close> holds what they keep and \<open>VmBudget\<close> compares a scan with itself under
      another budget.
    \<^item> \<open>ScanInstance\<close>, \<open>ConfigRuntime\<close> and \<open>ConfigLoad\<close> (\<open>st/configuration_runtime.h\<close>): the scheduler,
      over the operations of a VM instance as a record of functions. The laws that record has to obey
      are the locale \<open>scan_instance\<close>; \<open>ConfigProps\<close> and \<open>ConfigLoadProps\<close> prove in it that loading
      establishes the invariant \<open>config_wf\<close> and that the scheduler keeps it and returns.
      \<open>VmScheduler\<close> interprets the locale on the VM, and \<open>ConfigMachine\<close> is the machine of all
      operations on a configuration of VM instances (\<open>config_reach\<close>) with its invariant \<open>config_ok\<close>.
    \<^item> \<open>Wcet\<close> (\<open>st/wcet.h\<close>): the work-unit rules and the report, with the rules checked against the
      interpreter.
    \<^item> \<open>Servo\<close> (\<open>adapters/servo.h\<close>, \<open>mode_manager.h\<close>, \<open>cia402.h\<close>): the servo interface, operation
      modes and the drive state machine. \<open>IpcTransport\<close> (\<open>adapters/ipc_transport.h\<close>): setpoints and
      feedback as frames, and the shared region; \<open>TransportProps\<close> proves in the locale \<open>wire_format\<close>
      that the rings of a region are bounded queues of batches. \<open>Feetech\<close> (\<open>adapters/feetech.h\<close>):
      packets, their parser, the bus and the simulated bus; \<open>FeetechProps\<close> relates the parser to the
      packets and \<open>FeetechCycle\<close> follows a cycle from setpoints to feedback.
    \<^item> \<open>Plant\<close>, \<open>PlantConfig\<close> and \<open>PlantRun\<close>: a small program and a project around it, loaded and
      run in the kernel, on which the theorems are instantiated.

  \<^bold>\<open>Conventions.\<close> A C++ record is a record, an enumeration a datatype, an array a list. Machine
  integers that wrap in the code are words; sizes, offsets and counters whose wrap needs more than
  \<open>2 ^ 32\<close> events are naturals. A loop that waits for another thread (a slot to become free, a
  sequence lock to become even) is a partial function whose \<open>None\<close> says that it would spin; the
  claims show that it does not. Pointers that the caller may leave null are options.

  \<^bold>\<open>Bounds.\<close> \<open>run_fuel\<close> bounds the rounds of the scheduler loop by the quantum and the number of
  running tasks, since every round consumes time or finishes, faults or pauses a task. \<open>run_slice\<close> is
  a total function: a round spends a unit of the budget, or is a debug probe and advances the code.

  \<^bold>\<open>Not modelled.\<close> The parser, semantic analysis and code generator; motion planning, axis and
  group control, and the numerical solvers; the native function blocks and the binding of their
  reference inputs, which are generated C++ over the motion library and appear as the parameter
  \<open>native_ops\<close>; the functions of \<open><cmath>\<close> that the standard leaves open (\<open>libm\<close>); source maps, of
  which a probe only needs the number of entries; generated binding tables; tests and demos. Memory orderings weaker than sequential consistency are not modelled: every
  atomic access is one step. Operations on an instance that was never loaded, which follow a null
  pointer in the code, are only used on loaded instances.
\<close>

section \<open>The scheduler of a configuration\<close>

text \<open>C1: In every state that loading, boundaries, quanta, requests, forces and snapshots can lead to, each
  resource has a well-formed process image, at most one task holds the transaction on it, the task
  that does is the recorded owner and is running, and the image has an open transaction exactly when
  a task owns it.\<close>

theorem configuration_invariant:
  assumes "config_reach env cr" "res \<in> set (cr_resources cr)"
  shows "image_wf (rn_image res) \<and>
    (\<forall>t < length (rn_tasks res). ts_transaction_active (storage_at res t) \<longleftrightarrow> rn_owner res = Some t) \<and>
    (\<forall>t. rn_owner res = Some t \<longrightarrow> t < length (rn_tasks res) \<and> st_state (status_at res t) = TS_running) \<and>
    (im_transaction_active (rn_image res) \<longleftrightarrow> rn_owner res \<noteq> None)"
  using config_reach_ok [OF assms(1)] assms(2)
  by (simp_all add: config_ok_def resource_ok_def vm.resource_wf_def vm.base_wf_def runnable_def)

lemma configuration_invariant_witness:
  "\<exists>cr. config_reach demo_env cr \<and> cr_loaded cr \<and> image_wf (rn_image (hd (cr_resources cr)))"
proof -
  obtain cr where c: "config_reach demo_env cr" "demo_checks cr" using demo_reached by blast
  then have "hd (cr_resources cr) \<in> set (cr_resources cr)" by (cases "cr_resources cr") (auto simp: demo_checks_def)
  from configuration_invariant [OF c(1) this] c show ?thesis by (auto simp: demo_checks_def)
qed

text \<open>C2: A quantum given to a loaded configuration, and a boundary signalled to it, always return: no
  program, however it loops or faults, makes the scheduler spin, and the quantum is accepted.\<close>

theorem scheduler_returns:
  assumes "config_reach env cr" "cr_loaded cr" "0 \<le> quantum"
  shows "(\<exists>cr'. run (vm_ops env) cr quantum = Some (cr', EC_ok)) \<and>
    (\<exists>cr' e. boundary (vm_ops env) cr tick events n = Some (cr', e))"
  using vm.run_ok [OF config_okD [OF config_reach_ok [OF assms(1)]] assms(2,3)]
    vm.boundary_ok [OF config_okD [OF config_reach_ok [OF assms(1)]], of env tick events n] by blast+

lemma scheduler_returns_witness:
  "\<exists>cr cr'. config_reach demo_env cr \<and> cr_loaded cr \<and> run (vm_ops demo_env) cr 1000 = Some (cr', EC_ok)"
proof -
  obtain cr where c: "config_reach demo_env cr" "demo_checks cr" using demo_reached by blast
  then have "cr_loaded cr" by (simp add: demo_checks_def)
  with scheduler_returns [OF c(1) this, of 1000] c(1) show ?thesis by auto
qed



text \<open>C4: As long as some task of a resource without a fault is running, no round of the scheduler is idle:
  a round given time goes on, and it has used some of the time or taken a task out of the running
  state. Together with the return of \<open>run\<close>, running tasks make progress until the quantum is used up
  or all of them are done.\<close>

theorem scheduler_makes_progress:
  assumes "config_reach env cr" "res \<in> set (cr_resources cr)" "rs_fault (resource_status res) = RF_none"
    and "t < length (rn_tasks res)" "st_state (status_at res t) = TS_running" "0 < quantum"
  shows "\<exists>cr' left. run_round (vm_ops env) cr quantum = Some (cr', left, Run_continue) \<and> 0 \<le> left \<and>
    (left < quantum \<and> sum_list (map running_tasks (cr_resources cr')) \<le> sum_list (map running_tasks (cr_resources cr)) \<or>
     left = quantum \<and> sum_list (map running_tasks (cr_resources cr')) < sum_list (map running_tasks (cr_resources cr)))"
proof -
  have ok: "config_ok cr" by (rule config_reach_ok [OF assms(1)])
  have "\<not> (\<forall>res \<in> set (cr_resources cr). vm.chosen res = None)"
    using running_chosen [OF ok assms(2-5)] assms(2) by auto
  with vm.run_round_ok [OF config_okD [OF ok] assms(6), of env] show ?thesis
    by (fastforce simp: vm.running_total_def split: if_splits)
qed

lemma scheduler_makes_progress_witness:
  "\<exists>cr cr' left. config_reach demo_env cr \<and> run_round (vm_ops demo_env) cr 4 = Some (cr', left, Run_continue)"
proof -
  obtain cr where c: "config_reach demo_env cr" "demo_checks cr" using demo_reached by blast
  from c(2) obtain res where res: "cr_resources cr = [res]"
    unfolding demo_checks_def by (metis length_0_conv length_Suc_conv One_nat_def)
  then have "rs_fault (resource_status res) = RF_none" "0 < length (rn_tasks res)"
    "st_state (status_at res 0) = TS_running"
    using c(2) by (auto simp: demo_checks_def)
  from scheduler_makes_progress [OF c(1) _ this, of 4] res c(1) show ?thesis by auto
qed



text \<open>C7: A round of the scheduler touches one task: whatever the chosen task does, and even when it faults,
  every other resource is left exactly as it was, and so are the state, budget, counters and parked
  image of every other task of its resource.\<close>

theorem round_touches_one_task:
  assumes "config_reach env cr" "run_round (vm_ops env) cr quantum = Some (cr', left, c)" "0 < quantum"
    and "next_runnable (cr_resources cr) = Some (rs, Some (r, t))"
  shows "(\<forall>q. q \<noteq> r \<longrightarrow> cr_resources cr' ! q = cr_resources cr ! q) \<and>
    (\<forall>u. u \<noteq> t \<longrightarrow> rn_tasks (cr_resources cr' ! r) ! u = rn_tasks (cr_resources cr ! r) ! u)"
  using round_frame [OF config_reach_ok [OF assms(1)] assms(2-4)] by blast+

lemma round_touches_one_task_witness:
  "\<exists>cr cr' left c. config_reach demo_env cr \<and> run_round (vm_ops demo_env) cr 4 = Some (cr', left, c) \<and>
     rn_tasks (cr_resources cr' ! 0) ! 0 = rn_tasks (cr_resources cr ! 0) ! 0"
proof -
  obtain cr where c: "config_reach demo_env cr" "demo_checks cr" using demo_reached by blast
  from c(2) obtain rs where rs: "next_runnable (cr_resources cr) = Some (rs, Some (0, 1))"
    by (auto simp: demo_checks_def)
  obtain cr' left k where r: "run_round (vm_ops demo_env) cr 4 = Some (cr', left, k)"
    using vm.run_round_ok [OF config_okD [OF config_reach_ok [OF c(1)]], of 4 demo_env] by auto
  from round_touches_one_task [OF c(1) r _ rs] r c(1) show ?thesis by auto
qed


section \<open>The virtual machine\<close>




section \<open>Queues and shared memory\<close>

text \<open>C14: A producer thread and a consumer thread may interleave their single atomic accesses on an
  \<open>SpscQueue\<close> in any order: at every moment the values popped so far, followed by the queue's
  contents, are exactly the values pushed so far, in order, and the contents fit the capacity.\<close>

theorem spsc_interleaved_fifo:
  assumes "spsc_reach d cap s" "0 < cap"
  shows "sys_sent s = sys_got s @ spsc_contents (sys_q s) \<and> length (spsc_contents (sys_q s)) \<le> cap"
proof -
  have inv: "spsc_sys_inv cap s" using spsc_reach_inv [OF assms] .
  then have "length (spsc_contents (sys_q s)) \<le> length (sq_data (sys_q s)) - 1"
    unfolding spsc_sys_inv_def spsc_wf_def spsc_contents_def by (blast intro: ring_contents_bound)
  with inv show ?thesis by (simp add: spsc_sys_inv_def)
qed

lemma one_element_sent:
  defines "q \<equiv> spsc_new (0::nat) 2"
  shows "spsc_reach 0 2 \<lparr> sys_q = q\<lparr> sq_data := [7, 0, 0], sq_head := 1 \<rparr>, sys_prod = P_idle,
    sys_cons = C_idle, sys_sent = [7], sys_got = [] \<rparr>"
proof -
  note start = spsc_reach.start [of "0::nat" 2, folded q_def]
  note checked = spsc_reach.step [OF start spsc_step.push_check [where x = 7]]
  note written = spsc_reach.step [OF checked spsc_step.push_write]
  note sent = spsc_reach.step [OF written spsc_step.push_publish]
  show ?thesis using sent by (simp add: q_def spsc_new_def spsc_increment_def ring_next_def)
qed

lemma spsc_interleaved_fifo_witness:
  "let q = (spsc_new 0 2)\<lparr> sq_data := [7, 0, 0], sq_head := 1 \<rparr>
   in [7 :: nat] = [] @ spsc_contents q \<and> length (spsc_contents q) \<le> 2"
  using spsc_interleaved_fifo [OF one_element_sent] by simp

text \<open>C30: Any sequence of pushes and pops on an \<open>SpscQueue\<close> gets the answers a list of bounded length
  gives: the ring with one spare cell implements the abstract bounded FIFO.\<close>

theorem spsc_refines_bounded_fifo:
  assumes "spsc_wf q"
  shows "snd (fifo_run spsc_push spsc_pop rs q) =
    snd (fifo_run (list_push (spsc_capacity q)) list_pop rs (spsc_contents q))"
  using assms by (rule spsc_run_refines)

lemma spsc_refines_bounded_fifo_witness:
  "snd (fifo_run spsc_push spsc_pop [Push 1, Push 2, Push 3, Pop] (spsc_new (0::nat) 2)) =
    snd (fifo_run (list_push (spsc_capacity (spsc_new (0::nat) 2))) list_pop [Push 1, Push 2, Push 3, Pop]
      (spsc_contents (spsc_new 0 2)))"
  by (rule spsc_refines_bounded_fifo) (simp add: spsc_new_wf)

text \<open>C31: Between a writer and a reader that own them, the shared-memory ring answers any sequence of
  pushes and pops of payloads of the declared word count like the abstract bounded FIFO.\<close>

theorem ipc_ring_refines_bounded_fifo:
  assumes "ipc_ring_owned words r" "\<forall>v. Push v \<in> set rs \<longrightarrow> length v = words"
  shows "snd (fifo_run owned_push owned_pop rs r) =
    snd (fifo_run (list_push (ipc_ring_capacity r)) list_pop rs (ipc_ring_contents r))"
  using ipc_ring.run_refines [OF assms(1), of rs] assms(2) by simp

lemma ipc_ring_refines_bounded_fifo_witness:
  defines "r \<equiv> (ring_initialize 1 2)\<lparr> rg_writer_owner := 5, rg_reader_owner := 6 \<rparr>"
  shows "snd (fifo_run owned_push owned_pop [Push [1], Push [2], Push [3], Pop] r) =
    snd (fifo_run (list_push (ipc_ring_capacity r)) list_pop [Push [1], Push [2], Push [3], Pop]
      (ipc_ring_contents r))"
  by (rule ipc_ring_refines_bounded_fifo [of 1])
    (auto simp: r_def ipc_ring_owned_def ipc_ring_wf_def ring_initialize_def ring_wf_def owner_matches_def)

section \<open>Types and scalar values\<close>

text \<open>C24: A type declaration the table accepts (enumeration, subrange, array, structure, string,
  reference) keeps the table well-formed, gets an identity that named nothing before, is found under
  every spelling of its name, changes no earlier type, and makes its name unavailable.\<close>

theorem declaration_extends_table:
  assumes "table_wf T" "decl_admissible d" "declare_type T d = Inr (ident, T')"
  shows "table_wf T' \<and> get_type T ident = None \<and> get_type T' ident \<noteq> None \<and>
    (\<forall>name. ascii_equal (decl_name d) name \<longrightarrow> find_type T' name = Some ident) \<and>
    (\<forall>i t. get_type T i = Some t \<longrightarrow> get_type T' i = Some t) \<and>
    (\<forall>e. ascii_equal (decl_name d) (decl_name e) \<longrightarrow> (\<exists>err. declare_type T' e = Inl err))"
  using declarations.preserves_wf [OF assms] declarations.new_id_fresh [OF assms]
    declarations.found_by_name(1) [OF assms] declarations.keeps_types [OF assms]
    declarations.name_taken [OF assms] by blast

lemma declaration_extends_table_witness:
  "table_wf [default_desc\<lparr> td_id := 65536, td_kind := TK_ref, td_name := ''V'', td_size := 8, td_align := 8 \<rparr>] \<and>
    find_type [default_desc\<lparr> td_id := 65536, td_kind := TK_ref, td_name := ''V'', td_size := 8, td_align := 8 \<rparr>]
      ''v'' = Some 65536"
  (is "table_wf ?T \<and> _")
proof -
  have decl: "declare_type [] (DeclOpaque ''V'') = Inr (65536, ?T)"
    by (simp add: add_opaque_ref_def validate_new_name_def commit_type_def next_type_id_def
        is_identifier_char_def TypeSystem.is_alpha_def ascii_equal_def builtin_types_def make_builtin_def default_desc_def
        first_load_type_id_def u32_max_def invalid_type_id_def Let_def)
  have wf: "table_wf []"
    by (simp add: table_wf_def builtin_types_def make_builtin_def default_desc_def lower_ascii_def)
  have "ascii_equal ''V'' ''v''" by code_simp
  with declaration_extends_table [OF wf _ decl] show ?thesis by simp
qed



section \<open>The process image\<close>

text \<open>C25: Whatever located declarations are registered, in whatever order and however many are refused,
  the compiled layout is well-formed: every variable lies inside its area and is aligned, retained
  variables lie in memory, output and memory variables are pairwise bit-disjoint, and the retained
  ones are counted.\<close>

theorem layout_registration_invariant:
  "image_layout_wf (register_all lim ds) \<and> retain_counted (register_all lim ds)"
  using register_fold_wf [of empty_image lim ds] empty_image_wf
  by (simp add: register_all_def retain_counted_def empty_image_def)

text \<open>C29: Loading a compiled program gives a well-formed process image outside any transaction whose
  output and memory variables hold the program's initial values.\<close>

theorem load_gives_initial_values:
  assumes "loadable p" "load_image im p has_buffer n = (im', EC_ok)"
  shows "image_wf im' \<and> im_program im' = Some p \<and> \<not> im_transaction_active im' \<and>
    (\<forall>v \<in> set (located_vars p). lv_area v \<noteq> PA_input \<longrightarrow>
      read_image_value (image_of im' (lv_area v)) v = stored_value v (var_bytes (initial_data p) v))"
  by (rule load_image_ok [OF assms])

lemma load_gives_initial_values_witness:
  "read_image_value (im_memory fresh_machine) plant_counter = [52, 18]"
  using load_gives_initial_values [OF plant_loadable plant_loads]
  by (simp add: image_of_def stored_value_def var_bytes_def seg_def plant_defs)

text \<open>C10: A scan starts, outside a transaction by passing the boundary first, with every located
  variable holding the forced value of its location or else the value of its place in the image; the
  rest of the variable area and the image stay as they were.\<close>

theorem scan_starts_from_image:
  assumes wf: "image_wf im" and p: "im_program im = Some p"
    and lay: "scan_layout (process_image p) (length vars) (located_vars layout)"
    and im1: "scan_boundary im = Some im1"
  shows "\<exists>vars' im2. begin_scan im layout vars = Some (vars', im2) \<and> image_wf im2 \<and>
    image_of im2 = image_of im1 \<and> length vars' = length vars \<and>
    (\<forall>v \<in> set (located_vars layout). var_bytes vars' v = scan_value im1 v) \<and>
    (\<forall>off n. off + n \<le> length vars \<longrightarrow>
      (\<forall>v \<in> set (located_vars layout). lv_var_offset v + lv_byte_width v \<le> off \<or> off + n \<le> lv_var_offset v) \<longrightarrow>
      seg vars' off n = seg vars off n)"
  by (rule begin_scan_values [OF assms])

lemma scan_starts_from_image_witness:
  "\<exists>im1 vars' im2. scan_boundary fresh_machine = Some im1 \<and>
    begin_scan fresh_machine plant (replicate 8 0) = Some (vars', im2) \<and>
    var_bytes vars' plant_counter = scan_value im1 plant_counter"
proof -
  obtain im1 where im1: "scan_boundary fresh_machine = Some im1"
    using scan_boundary_ok [OF fresh_machine_wf(1)] by blast
  have lay: "scan_layout (process_image plant) (length (replicate 8 (0::u8))) (located_vars plant)"
    using plant_layout by simp
  have "plant_counter \<in> set (located_vars plant)" by (simp add: plant_def plant_image_def)
  with scan_starts_from_image [OF fresh_machine_wf(1,2) lay im1] im1 show ?thesis by blast
qed



text \<open>C18: Discarding a scan puts the last published output and memory images back, with their versions,
  and ends the transaction; inputs and forces are untouched and nothing is published.\<close>

theorem discard_restores_published:
  assumes "image_wf im"
    and "channel_value (im_output_channel im) = Some (out, ov)"
    and "channel_value (im_memory_channel im) = Some (mem, mv)"
  shows "\<exists>im'. discard_scan im = Some im' \<and> image_wf im' \<and> im_output im' = out \<and> im_memory im' = mem \<and>
    im_output_version im' = ov \<and> im_memory_version im' = mv \<and> \<not> im_transaction_active im' \<and>
    im_input im' = im_input im \<and> im_forces im' = im_forces im \<and>
    channel_value (im_output_channel im') = Some (out, ov) \<and>
    channel_value (im_memory_channel im') = Some (mem, mv)"
  using discard_scan_ok [OF assms] by blast

lemma discard_restores_published_witness:
  "\<exists>im'. discard_scan fresh_machine = Some im' \<and> im_output im' = [5] \<and> im_memory im' = [52, 18]"
proof -
  have "channel_value (im_output_channel fresh_machine) = Some ([5], 0)"
    "channel_value (im_memory_channel fresh_machine) = Some ([52, 18], 0)"
    by (simp_all add: plant_machine)
  with discard_restores_published [OF fresh_machine_wf(1)] show ?thesis by blast
qed

text \<open>C8: Starting from a loaded program, no sequence of submissions, snapshots, forces, restores,
  scans, transactions, parkings and discards leaves the well-formed states: buffer sizes, channel
  states, force slots and parked copies keep the shape the compiled layout asks for.\<close>

theorem image_invariant:
  assumes "image_reach p s" "loadable p"
  shows "machine_wf p s"
  by (rule image_reach_wf [OF assms])

lemma image_invariant_witness:
  "machine_wf plant (mark_store fresh_machine plant 0 13, [])"
  by (rule image_invariant [OF image_reach.reach_step [OF image_reach.reach_load [OF plant_loads]
        image_step.step_store] plant_loadable])



section \<open>Forces, snapshots and channels\<close>

text \<open>C27: A force or release request published on an idle slot waits, unchanged, at every boundary it
  is not addressed to, and is taken over at the first boundary whose owner and release match (or are
  wildcards): the slot becomes active with the requested bytes, or inactive with its old value.\<close>

theorem force_taken_at_its_boundary:
  assumes "force_wf st" "fo_pending_sequence st = fo_applied_sequence st" "length v \<le> 8"
    and "st' = publish_force st active v owner rel"
  shows "(\<not> force_due st' o' r' \<longrightarrow> consume_force st' o' r' = Some st') \<and>
    (force_due st' o' r' \<longrightarrow> (\<exists>st''. consume_force st' o' r' = Some st'' \<and> fo_active st'' = active \<and>
      fo_value st'' = (if active then v @ replicate (8 - length v) 0 else fo_value st) \<and>
      fo_pending_sequence st'' = fo_applied_sequence st''))"
  using consume_published_force [OF assms] by blast

lemma force_taken_at_its_boundary_witness:
  "consume_force (publish_force initial_force True [3] 1 5) 2 5 =
      Some (publish_force initial_force True [3] 1 5) \<and>
   (\<exists>st. consume_force (publish_force initial_force True [3] 1 5) 1 5 = Some st \<and>
      fo_active st \<and> fo_value st = [3, 0, 0, 0, 0, 0, 0, 0])"
proof -
  let ?st = "publish_force initial_force True [3] 1 5"
  have due: "\<not> force_due ?st 2 5" "force_due ?st 1 5"
    by (simp_all add: force_due_def publish_force_def initial_force_def wildcard_force_owner_def
        wildcard_force_release_def Let_def)
  have idle: "fo_pending_sequence initial_force = fo_applied_sequence initial_force" "length [3::u8] \<le> 8"
    by (simp_all add: initial_force_def)
  have seven: "replicate 7 (0::u8) = [0, 0, 0, 0, 0, 0, 0]" by (simp add: eval_nat_numeral)
  show ?thesis
    using force_taken_at_its_boundary [OF initial_force_wf idle refl, of True 1 5 2 5]
      force_taken_at_its_boundary [OF initial_force_wf idle refl, of True 1 5 1 5] due seven by auto
qed





text \<open>C26: Whatever bytes are offered for restoring, a refused snapshot (malformed, wrong version or
  fingerprint, duplicate entry) changes neither the images nor a batch that is already waiting for the
  next boundary; no snapshot changes the published images or the forces.\<close>

theorem refused_restore_keeps_batch:
  assumes "image_wf im"
  shows "\<exists>e rep im'. restore_snapshot im kind bytes = Some (e, rep, im') \<and> image_wf im' \<and>
    image_of im' = image_of im \<and> im_forces im' = im_forces im \<and>
    im_output_channel im' = im_output_channel im \<and> im_memory_channel im' = im_memory_channel im \<and>
    (e \<noteq> SE_ok \<longrightarrow> channel_value (im_restore_channel im') = channel_value (im_restore_channel im))"
proof (rule restore_snapshot_ok [OF assms, of kind bytes], goal_cases)
  case (1 e rep im')
  then show ?case by (intro exI [of _ e] exI [of _ rep] exI [of _ im'] conjI impI) simp_all
qed

lemma refused_restore_keeps_batch_witness:
  "\<exists>rep im'. restore_snapshot fresh_machine SK_retain (Some [1, 2]) = Some (SE_malformed, rep, im') \<and>
    channel_value (im_restore_channel im') = channel_value (im_restore_channel fresh_machine)"
proof -
  have "\<exists>rep im'. restore_snapshot fresh_machine SK_retain (Some [1, 2]) = Some (SE_malformed, rep, im')"
    by (simp add: restore_snapshot_def restore_header_def fresh_machine_wf Let_def)
  with refused_restore_keeps_batch [OF fresh_machine_wf(1), of SK_retain "Some [1, 2]"] show ?thesis by fastforce
qed

text \<open>C12: Any number of threads may publish to, snapshot and consume one image channel, interleaved
  access by access and byte by byte: every payload a reader returns is one that a publisher
  submitted whole, and no two threads ever own the same slot.\<close>

theorem channel_never_tears:
  assumes "channel_reach n c0 H0 s" "slots_ok n c0 H0"
  shows "set (th_delivered s) \<subseteq> th_submitted s \<and>
    (\<forall>t t' i st st'. holds (th_pc s t) = Some (i, st) \<longrightarrow> holds (th_pc s t') = Some (i, st') \<longrightarrow> t = t')"
  using channel_reach_inv [OF assms] by (auto simp: channel_inv_def)

lemma channel_never_tears_witness:
  defines "c0 \<equiv> initialize_channel (prepare_channel [0]) [42 :: nat]"
  shows "\<exists>s. channel_reach 1 c0 {[42]} s \<and> th_delivered s = [[42]] \<and> [42] \<in> th_submitted s"
proof -
  have ok: "slots_ok 1 c0 {[42]}" unfolding c0_def by (rule fresh_channel_slots_ok)
  obtain s where s: "channel_reach 1 c0 {[42]} s" "th_delivered s = [[42]]"
    using one_delivery unfolding c0_def by blast
  with channel_never_tears [OF s(1) ok] show ?thesis by auto
qed

section \<open>The lexer\<close>

text \<open>C20: Every source text, however malformed, is a finite list of tokens: reading tokens ends with the
  token \<open>end_of_input\<close>, which comes once, at the end, after at most one token per character.\<close>

theorem lexer_terminates:
  "length (tokens (new_lexer source trusted)) \<le> length source + 1 \<and>
    tok_kind (last (tokens (new_lexer source trusted))) = Tk_end_of_input \<and>
    Tk_end_of_input \<notin> tok_kind ` set (butlast (tokens (new_lexer source trusted)))"
  using tokens_bound [of "new_lexer source trusted"] by (auto simp: new_lexer_def unread_def)

text \<open>C21: An integer written in base 10, or in base 2, 8 or 16 after its prefix, is read as its value when
  the value fits 64 bits and refused as an overflow otherwise; the token is the whole literal and the
  lexer stops right behind it.\<close>

theorem integers_lexed:
  assumes "base \<in> {2, 8, 10, 16}" "digits_in base ds" "ds \<noteq> []" "delimited rest"
  shows "\<exists>t lx'. next_token (new_lexer (base_prefix base @ ds @ rest) trusted) = (t, lx') \<and>
    (if number_value base ds < 2 ^ 64
     then tok_kind t = Tk_int_literal \<and> unat (tok_unsigned t) = number_value base ds \<and> (tok_based t \<longleftrightarrow> base \<noteq> 10)
     else tok_kind t = Tk_error \<and> tok_payload t = D_lex_literal_overflow) \<and>
    tok_text t = base_prefix base @ ds \<and> rest_of lx' = rest"
  by (rule integer_lexed [OF assms])

lemma integers_lexed_witness:
  "\<exists>t lx'. next_token (new_lexer (''16#'' @ ''F0'' @ '';'') False) = (t, lx') \<and>
    tok_kind t = Tk_int_literal \<and> unat (tok_unsigned t) = 240 \<and> rest_of lx' = '';''"
proof -
  have d: "digits_in 16 ''F0''" "delimited '';''" by code_simp+
  have n: "number_value 16 ''F0'' = 240" by code_simp
  from integers_lexed [of 16 "''F0''" "'';''" False] d n show ?thesis by (auto simp: base_prefix_def)
qed

text \<open>C22: A \<open>D#\<close> literal with a date of the calendar has as its value the number of days from 1970-01-01,
  counted day by day through the lengths of the years and months, for every year from 0 to 9999, and
  any other date is refused.\<close>

theorem dates_lexed:
  assumes "\<forall>c \<in> set ys \<union> set ms \<union> set ds. is_digit c" "length ys = 4" "length ms = 2" "length ds = 2"
    and "delimited rest" "rest = [] \<or> hd rest \<noteq> CHR ''+'' \<and> hd rest \<noteq> CHR ''-''"
  shows "\<exists>t lx'. next_token (new_lexer (''D#'' @ date_text ys ms ds @ rest) trusted) = (t, lx') \<and>
    (let y = number_value 10 ys; m = number_value 10 ms; k = number_value 10 ds
     in if valid_date y m k
        then tok_kind t = Tk_date_literal \<and> tok_signed t = int (day_count y m k) - int (day_count 1970 1 1) \<and>
          rest_of lx' = rest
        else tok_kind t = Tk_error \<and> tok_payload t = D_date_time_range_violation)"
  using date_lexed [OF assms] by (simp only: epoch_days)

lemma dates_lexed_witness:
  "\<exists>t lx'. next_token (new_lexer (''D#'' @ date_text ''0000'' ''02'' ''29'' @ []) False) = (t, lx') \<and>
    tok_kind t = Tk_date_literal \<and> tok_signed t = 59 - 719528"
proof -
  have n: "number_value 10 ''0000'' = 0" "number_value 10 ''02'' = 2" "number_value 10 ''29'' = 29"
    "valid_date 0 2 29" "day_count 0 2 29 = 59" "delimited []" by code_simp+
  have d: "\<forall>c \<in> set ''0000'' \<union> set ''02'' \<union> set ''29''. is_digit c" by code_simp
  from dates_lexed [OF d, of "[]" False] n show ?thesis by (simp only: epoch_days) auto
qed

text \<open>C23: A date and time is accepted exactly when the nanoseconds from 1970-01-01 to it fit a signed 64-bit
  integer, and that is its value.\<close>

theorem date_time_range:
  assumes "1 \<le> m" "m \<le> 12" "1 \<le> d" "tod < 86400000000000"
  shows "date_time_ns (civil_days (int y) m d) tod =
    (let ns = (int (day_count y m d) - int (day_count 1970 1 1)) * 86400000000000 + int tod
     in if - (2 ^ 63) \<le> ns \<and> ns < 2 ^ 63 then Some ns else None)"
  using date_time_ns_exact [OF assms(4), of "civil_days (int y) m d"]
  unfolding epoch_days civil_days_counts [OF assms(1-3)] by (simp add: Let_def int64_min_def int64_max_def)

lemma date_time_range_witness:
  "date_time_ns (civil_days 0 1 1) 5 = None"
proof -
  have "day_count 0 1 1 = 0" by code_simp
  with date_time_range [of 1 1 5 0] show ?thesis unfolding epoch_days by (simp add: Let_def)
qed

section \<open>The artifact manifest\<close>

text \<open>C13: The canonical manifest determines the artifact: two artifacts whose numbers fit their fields
  and whose manifests are equal agree on everything the manifest covers, for the program itself and,
  in name order, for each of its child programs.\<close>

theorem manifest_identifies_artifact:
  assumes "artifact_in p" "artifact_in q" "canonical_manifest p = canonical_manifest q"
  shows "covered (body p) = covered (body q) \<and>
    map (\<lambda>c. covered (body c)) (sort_key program_name (programs p)) =
      map (\<lambda>c. covered (body c)) (sort_key program_name (programs q))"
  using manifest_determines [OF assms] by blast

lemma manifest_identifies_artifact_witness:
  "covered (body empty_program) = covered (body empty_program) \<and>
    map (\<lambda>c. covered (body c)) (sort_key program_name (programs empty_program)) =
      map (\<lambda>c. covered (body c)) (sort_key program_name (programs empty_program))"
  by (rule manifest_identifies_artifact [OF empty_artifact_in empty_artifact_in refl])

section \<open>Standard function blocks\<close>

text \<open>C39: An on-delay timer whose input stays on from a cleared state switches its output on in exactly
  the first cycle whose accumulated time reaches the preset, and its elapsed time stops there.\<close>

theorem on_delay_timing:
  assumes "tm_in s" "tm_et s = 0" "0 < tm_pt s" "0 < tm_cycle_time s" "0 < n"
  shows "tm_q ((TON_cycle ^^ n) s) = (tm_pt s \<le> int n * tm_cycle_time s) \<and>
    tm_et ((TON_cycle ^^ n) s) = int (min n (cycles_for (tm_pt s) (tm_cycle_time s))) * tm_cycle_time s"
  using TON_hold [OF assms(1-4), of n] assms(5) by blast

lemma on_delay_timing_witness:
  "\<not> tm_q ((TON_cycle ^^ 2) (Timer_init\<lparr> tm_in := True, tm_pt := 10, tm_cycle_time := 4 \<rparr>)) \<and>
   tm_q ((TON_cycle ^^ 3) (Timer_init\<lparr> tm_in := True, tm_pt := 10, tm_cycle_time := 4 \<rparr>))"
  using on_delay_timing [of "Timer_init\<lparr> tm_in := True, tm_pt := 10, tm_cycle_time := 4 \<rparr>" 2]
    on_delay_timing [of "Timer_init\<lparr> tm_in := True, tm_pt := 10, tm_cycle_time := 4 \<rparr>" 3]
  by (simp add: Timer_init_def)

text \<open>C40: An off-delay timer whose input drops keeps its output on for exactly the cycles whose
  accumulated time is below the preset.\<close>

theorem off_delay_timing:
  assumes "\<not> tm_in s" "tm_q s" "tm_et s = 0" "0 < tm_pt s" "0 < tm_cycle_time s"
  shows "tm_q ((TOF_cycle ^^ n) s) = (int n * tm_cycle_time s < tm_pt s)"
  by (rule TOF_hold [OF assms])

lemma off_delay_timing_witness:
  "tm_q ((TOF_cycle ^^ 2) (Timer_init\<lparr> tm_q := True, tm_pt := 10, tm_cycle_time := 4 \<rparr>)) =
    (int 2 * 4 < (10 :: int))"
  using off_delay_timing [of "Timer_init\<lparr> tm_q := True, tm_pt := 10, tm_cycle_time := 4 \<rparr>" 2]
  by (simp add: Timer_init_def)



section \<open>Drives and the fieldbus\<close>

text \<open>C15: Status packets encoded one behind the other, with any identifier but 255 and up to 253
  parameters each, come out of the Feetech parser byte by byte as exactly these reports, in order.\<close>

theorem feetech_packets_received:
  assumes "list_all sendable rs"
  shows "receive (concat (map (\<lambda>r. wire_bytes (status_packet r)) rs)) (new_parser, new_frame) = rs"
  by (rule sent_packets_received [OF assms])

lemma feetech_packets_received_witness:
  "receive (wire_bytes (status_packet (1, 0, [0xFF, 0xFF])) @ wire_bytes (status_packet (2, 0, []))) (new_parser, new_frame) =
    [(1, 0, [0xFF, 0xFF]), (2, 0, [])]"
  using feetech_packets_received [of "[(1, 0, [0xFF, 0xFF]), (2, 0, [])]"] by (simp add: sendable_def)

text \<open>C33: Whatever bytes arrive, noise and broken packets included, every report of the Feetech parser is
  a whole packet of the input, with its length and its checksum: the input is the packets of the
  reports, in order and without overlap, with other bytes before, between and behind them.\<close>

theorem feetech_receives_only_packets:
  "\<exists>junks junk. length junks = length (receive bs (new_parser, new_frame)) \<and>
    bs = among junks (receive bs (new_parser, new_frame)) @ junk"
  by (rule received_was_sent)






text \<open>C17: Between the owners of its rings an initialised transport region is two bounded queues: setpoint
  batches and feedback batches, encoded, pushed as words, popped and decoded, get the answers that lists
  of at most the depth of the region give, with every field of every axis unchanged.\<close>

theorem transport_refines_bounded_fifo:
  assumes "region_initialize r axes period generation = (r', True)" "0 < rr_depth r" "writer \<noteq> 0" "reader \<noteq> 0"
    and "pushes setpoint_batch ss" "pushes feedback_batch fs"
  shows "snd (fifo_run send_setpoints receive_setpoints ss (claimed_ring (rr_setpoints r') writer reader)) =
      snd (fifo_run (list_push (rr_depth r)) list_pop ss []) \<and>
    snd (fifo_run send_feedback receive_feedback fs (claimed_ring (rr_feedback r') writer reader)) =
      snd (fifo_run (list_push (rr_depth r)) list_pop fs [])"
  by (rule region_travels [OF assms])

text \<open>A region of depth one over memory that holds zeros.\<close>

definition zero_header :: TransportHeader where
  "zero_header = \<lparr> hdr_magic = 0, hdr_abi_version = 0, hdr_header_bytes = 0, hdr_region_bytes = 0,
     hdr_max_axes = 0, hdr_axis_count = 0, hdr_transport_depth = 0, hdr_setpoint_frame_bytes = 0,
     hdr_feedback_frame_bytes = 0, hdr_status_bytes = 0, hdr_reserved0 = 0, hdr_reserved1 = 0,
     hdr_generation = 0, hdr_period_ns = 0, hdr_state = 0, hdr_last_error = 0, hdr_executor_heartbeat = 0,
     hdr_bus_heartbeat = 0, hdr_phase_tick = 0 \<rparr>"

definition small_region :: ServoIpcRegion where
  "small_region = \<lparr> rr_depth = 1, rr_bytes = 2816, rr_header = zero_header,
     rr_setpoints = ring_initialize 82 1, rr_feedback = ring_initialize 42 1, rr_status = db_initialize 9 \<rparr>"

lemma small_region_starts: "\<exists>r'. region_initialize small_region 2 1000000 1 = (r', True)"
  by (simp add: region_initialize_def)

lemma transport_refines_bounded_fifo_witness:
  "\<exists>r' :: ServoIpcRegion. snd (fifo_run send_setpoints receive_setpoints
      [Push (5, [empty_setpoints]), Push (6, [empty_setpoints]), Pop, Pop] (claimed_ring (rr_setpoints r') 1 2)) =
    [Inl True, Inl False, Inr (Some (5, [empty_setpoints])), Inr None]"
proof -
  obtain r' where r: "region_initialize small_region 2 1000000 1 = (r', True)" using small_region_starts by blast
  have v: "valid_direction (sp_torque_direction empty_setpoints) \<and> valid_setpoint_source empty_setpoints" by code_simp
  have ok: "pushes setpoint_batch [Push (5, [empty_setpoints]), Push (6, [empty_setpoints]), Pop, Pop]"
    using v by (simp add: pushes_def setpoint_batch_def)
  have none: "pushes feedback_batch []" by (simp add: pushes_def)
  have l: "snd (fifo_run (list_push (rr_depth small_region)) list_pop
      [Push (5, [empty_setpoints]), Push (6, [empty_setpoints]), Pop, Pop] []) =
    [Inl True, Inl False, Inr (Some (5, [empty_setpoints])), Inr None]"
    by (simp add: small_region_def list_push_def)
  have own: "0 < rr_depth small_region" "(1 :: u64) \<noteq> 0" "(2 :: u64) \<noteq> 0" by (simp_all add: small_region_def)
  note sent = transport_refines_bounded_fifo [OF r own ok none, THEN conjunct1, unfolded l]
  show ?thesis by (rule exI [of _ r'], rule sent)
qed

text \<open>C35: A transport region that has been initialised stays attachable whatever requests reach it. The
  transitions it accepts are a prefix of priming, running, draining, stopped, each at most once and in
  this order; its state is where the last accepted one led, and faulted for good once an error was set.\<close>

theorem transport_region_life:
  assumes "region_initialize r axes period generation = (r', True)"
  shows "let (r'', accepted) = region_run es r'; life = [XS_priming, XS_running, XS_draining, XS_stopped] in
    attach_status r'' = At_ok \<and> prefix accepted (zip life (tl life)) \<and>
    hdr_state (rr_header r'') = transport_state_value (if error_free es then life ! length accepted else XS_faulted)"
  by (rule region_life [OF assms])

lemma transport_region_life_witness:
  "\<exists>r' :: ServoIpcRegion. hdr_state (rr_header (fst (region_run [Transition XS_priming XS_running, Report_error TE_peer_lost,
    Transition XS_running XS_draining] r'))) = transport_state_value XS_faulted"
proof -
  obtain r' where r: "region_initialize small_region 2 1000000 1 = (r', True)" using small_region_starts by blast
  from transport_region_life [OF r, of "[Transition XS_priming XS_running, Report_error TE_peer_lost,
      Transition XS_running XS_draining]"] show ?thesis
    by (intro exI [of _ r']) (auto simp: error_free_def Let_def split: prod.splits)
qed

text \<open>C36: A drive cannot be enabled past its ladder. Whatever commands and drive events a CiA 402 machine
  sees, a history that ends in operation enabled has all the steps from its first state in it, in order:
  the end of the fault reaction, fault reset, shutdown, switch on, enable operation, as far as they
  apply; and from a drive that has been initialised these steps alone enable it.\<close>

theorem drive_power_up_ladder:
  "(drive_run es s = C4_operation_enabled \<longrightarrow> subseq (power_up s) es) \<and>
   (s \<noteq> C4_not_ready_to_switch_on \<longrightarrow> drive_run (power_up s) s = C4_operation_enabled)"
  using power_up_needed power_up_enables by blast

lemma drive_power_up_ladder_witness:
  "drive_run (power_up C4_fault) C4_fault = C4_operation_enabled \<and>
   subseq (power_up C4_fault) (map Drive_command [Cmd_fault_reset, Cmd_shutdown, Cmd_switch_on, Cmd_enable_operation])"
proof -
  have "drive_run (map Drive_command [Cmd_fault_reset, Cmd_shutdown, Cmd_switch_on, Cmd_enable_operation]) C4_fault =
      C4_operation_enabled" by (simp add: drive_run_def c4_defs)
  with drive_power_up_ladder [of "map Drive_command [Cmd_fault_reset, Cmd_shutdown, Cmd_switch_on, Cmd_enable_operation]"
      C4_fault] show ?thesis by simp
qed

section \<open>Work units\<close>



end
